(* ===== verification/Secp_Prelude.thy ===== *)
theory Secp_Prelude
  imports Main "HOL-Library.Word"
begin

text \<open>
  What the components share: names for the C integer types, the reading of a list of limbs
  and of a list of bytes as an integer, the predicate \<open>fits\<close> that tracks the exact value and
  an upper bound of a machine word through a C expression, the 32-bit carry chain, and the
  lemmas on \<open>mod\<close> that turn an equation with an explicit multiple of the modulus into a
  congruence.
\<close>

unbundle bit_operations_syntax

named_theorems fits_rules \<open>syntax-directed rules for the predicate fits\<close>
named_theorems flag_simps \<open>C truth values (0 and 1 as words) read as booleans\<close>

subsection \<open>C integer types\<close>

type_synonym u8 = "8 word"
type_synonym u32 = "32 word"
type_synonym u64 = "64 word"

subsection \<open>Limbs and bytes as integers\<close>

fun lval :: "nat \<Rightarrow> 'a::len word list \<Rightarrow> int" where
  "lval k [] = 0"
| "lval k (x # xs) = uint x + 2 ^ k * lval k xs"

fun le_val :: "u8 list \<Rightarrow> int" where
  "le_val [] = 0"
| "le_val (b # bs) = uint b + 256 * le_val bs"

definition be_val :: "u8 list \<Rightarrow> int" where
  "be_val bs = le_val (rev bs)"

lemma lval_nonneg [simp]: "0 \<le> lval k xs"
  by (induction xs) auto

lemma lval_replicate_0 [simp]: "lval k (replicate n 0) = 0"
  by (induction n) auto

lemma lval_append: "lval k (xs @ ys) = lval k xs + 2 ^ (k * length xs) * lval k ys"
  by (induction xs) (auto simp: algebra_simps power_add)

lemma lval_bound:
  assumes "\<forall>x \<in> set xs. uint x < 2 ^ k"
  shows "lval k xs < 2 ^ (k * length xs)"
  using assms
proof (induction xs)
  case Nil
  then show ?case by simp
next
  case (Cons x xs)
  then have "lval k xs \<le> 2 ^ (k * length xs) - 1" and x: "uint x < 2 ^ k"
    by auto
  then have "2 ^ k * lval k xs \<le> 2 ^ k * (2 ^ (k * length xs) - 1)"
    by (intro mult_left_mono) auto
  with x show ?case by (simp add: algebra_simps power_add)
qed

lemma lval_inject:
  fixes xs ys :: "'a::len word list"
  assumes "length xs = length ys"
    and "\<forall>x \<in> set xs. uint x < 2 ^ k" and "\<forall>y \<in> set ys. uint y < 2 ^ k"
    and "lval k xs = lval k ys"
  shows "xs = ys"
  using assms
proof (induction xs ys rule: list_induct2)
  case Nil
  then show ?case by simp
next
  case (Cons x xs y ys)
  have "(uint x + 2 ^ k * lval k xs) mod 2 ^ k = (uint y + 2 ^ k * lval k ys) mod 2 ^ k"
    using Cons.prems(3) by simp
  then have xy: "uint x = uint y"
    using Cons.prems(1,2) by simp
  then have "lval k xs = lval k ys" using Cons.prems(3) by simp
  with xy Cons show ?case by (simp add: word_uint_eq_iff)
qed

lemma le_val_append: "le_val (xs @ ys) = le_val xs + 256 ^ length xs * le_val ys"
  by (induction xs) (auto simp: algebra_simps)

lemma le_val_lval: "le_val bs = lval 8 bs"
  by (induction bs) auto

lemma uint_u8_less: "uint (b :: u8) < 256"
  using uint_bounded [of b] by simp

lemma uint_u32_less: "uint (w :: u32) < 4294967296"
  using uint_bounded [of w] by simp

lemma uint_u64_less: "uint (w :: u64) < 18446744073709551616"
  using uint_bounded [of w] by simp

lemma le_val_bound: "le_val bs < 256 ^ length bs"
proof -
  have "lval 8 bs < 2 ^ (8 * length bs)"
    by (rule lval_bound) (simp add: uint_u8_less)
  then show ?thesis by (simp add: le_val_lval power_mult)
qed

lemma le_val_nonneg [simp]: "0 \<le> le_val bs"
  by (simp add: le_val_lval)

lemma le_val_inject: "length xs = length ys \<Longrightarrow> le_val xs = le_val ys \<Longrightarrow> xs = ys"
  unfolding le_val_lval by (rule lval_inject [where k = 8]) (simp_all add: uint_u8_less)

lemma be_val_nonneg [simp]: "0 \<le> be_val bs"
  by (simp add: be_val_def)

lemma be_val_bound: "be_val bs < 256 ^ length bs"
  unfolding be_val_def using le_val_bound [of "rev bs"] by simp

lemma be_val_inject: "length xs = length ys \<Longrightarrow> be_val xs = be_val ys \<Longrightarrow> xs = ys"
  unfolding be_val_def using le_val_inject [of "rev xs" "rev ys"] by simp

lemma be_val_append: "be_val (xs @ ys) = be_val xs * 256 ^ length ys + be_val ys"
  by (simp add: be_val_def le_val_append)

subsection \<open>Exact values and bounds of words\<close>

text \<open>\<open>fits w i B\<close>: the word \<open>w\<close> holds exactly the integer \<open>i\<close>, which is at most \<open>B\<close>. The
  rules follow the syntax of C expressions, so the value of an expression that does not wrap
  around is read off it, and the bound is computed on the way.\<close>

definition fits :: "'a::len word \<Rightarrow> int \<Rightarrow> int \<Rightarrow> bool" where
  "fits w i B \<longleftrightarrow> uint w = i \<and> i \<le> B"

lemma fits_uintD: "fits w i B \<Longrightarrow> uint w = i"
  by (simp add: fits_def)

lemma fits_leD: "fits w i B \<Longrightarrow> i \<le> B"
  by (simp add: fits_def)

lemma fits_nonneg: "fits w i B \<Longrightarrow> 0 \<le> i"
  by (auto simp: fits_def)

lemma fitsI: "uint w \<le> B \<Longrightarrow> fits w (uint w) B"
  by (simp add: fits_def)

lemma fits_mono: "fits w i A \<Longrightarrow> A \<le> B \<Longrightarrow> fits w i B"
  by (simp add: fits_def)

lemma fits_u32: "fits (w :: u32) (uint w) 4294967295"
  using uint_u32_less [of w] by (simp add: fits_def)

lemma fits_u64: "fits (w :: u64) (uint w) 18446744073709551615"
  using uint_u64_less [of w] by (simp add: fits_def)

lemma uint_shr: "uint (drop_bit k v) = uint v div 2 ^ k"
  by (subst unsigned_drop_bit_eq) (simp add: take_bit_int_eq_self flip: drop_bit_eq_div)

lemma uint_shl: "uint (push_bit k v) = (uint v * 2 ^ k) mod 2 ^ LENGTH('a)"
  for v :: "'a::len word"
  by (subst unsigned_push_bit_eq) (simp add: take_bit_eq_mod push_bit_eq_mult)

lemma uint_mask: "uint (v AND mask k) = uint v mod 2 ^ k"
  by (subst take_bit_eq_mask [symmetric], subst unsigned_take_bit_eq) (simp add: take_bit_eq_mod)

lemma uint_and_mask: "m = mask k \<Longrightarrow> uint (v AND m) = uint v mod 2 ^ k"
  by (simp add: uint_mask)

lemma unat_shr: "unat (drop_bit k v) = unat v div 2 ^ k"
proof -
  have "int (unat (drop_bit k v)) = int (unat v div 2 ^ k)"
    by (simp add: zdiv_int uint_shr del: drop_bit_eq_div)
  then show ?thesis by (simp only: of_nat_eq_iff)
qed

lemma unat_and_mask: "m = mask k \<Longrightarrow> unat (v AND m) = unat v mod 2 ^ k"
proof -
  assume "m = mask k"
  then have "int (unat (v AND m)) = int (unat v mod 2 ^ k)"
    by (simp add: zmod_int uint_and_mask)
  then show ?thesis by (simp only: of_nat_eq_iff)
qed

lemma uint_trunc: "uint (ucast v :: 'b::len word) = uint v mod 2 ^ LENGTH('b)"
  by (simp add: unsigned_ucast_eq take_bit_eq_mod)

lemma fits_add [fits_rules]:
  fixes v w :: "'a::len word"
  assumes "fits v i A" and "fits w j B" and "A + B < 2 ^ LENGTH('a)"
  shows "fits (v + w) (i + j) (A + B)"
  using assms by (auto simp: fits_def uint_word_ariths)

lemma fits_mult [fits_rules]:
  fixes v w :: "'a::len word"
  assumes "fits v i A" and "fits w j B" and "A * B < 2 ^ LENGTH('a)"
  shows "fits (v * w) (i * j) (A * B)"
proof -
  have "i * j \<le> A * B"
    using assms(1,2) fits_nonneg [OF assms(1)] fits_nonneg [OF assms(2)]
    by (intro mult_mono) (auto simp: fits_def)
  with assms show ?thesis by (auto simp: fits_def uint_word_ariths)
qed

lemma fits_shr [fits_rules]:
  assumes "fits v i A"
  shows "fits (drop_bit k v) (i div 2 ^ k) (A div 2 ^ k)"
  using assms by (auto simp: fits_def uint_shr zdiv_mono1)

lemma fits_shl [fits_rules]:
  fixes v :: "'a::len word"
  assumes "fits v i A" and "A * 2 ^ k < 2 ^ LENGTH('a)"
  shows "fits (push_bit k v) (i * 2 ^ k) (A * 2 ^ k)"
proof -
  have le: "i * 2 ^ k \<le> A * 2 ^ k" using assms(1) by (simp add: fits_def)
  have "uint (push_bit k v) = (uint v * 2 ^ k) mod 2 ^ LENGTH('a)"
    by (rule uint_shl)
  also have "\<dots> = i * 2 ^ k"
    unfolding fits_uintD [OF assms(1)]
    using order_le_less_trans [OF le assms(2)] fits_nonneg [OF assms(1)]
    by (intro mod_pos_pos_trivial) simp_all
  finally show ?thesis using le by (simp add: fits_def)
qed

lemma fits_ucast [fits_rules]:
  fixes v :: "'a::len word"
  assumes "fits v i A" and "A < 2 ^ LENGTH('b::len)"
  shows "fits (ucast v :: 'b word) i A"
  using assms by (auto simp: fits_def uint_trunc)

lemma fits_trunc:
  assumes "fits v i A" and "B = 2 ^ LENGTH('b) - 1"
  shows "fits (ucast v :: 'b::len word) (i mod 2 ^ LENGTH('b)) B"
  using assms by (auto simp: fits_def uint_trunc)

lemma fits_mask:
  assumes "fits v i A" and "m = mask k" and "B = 2 ^ k - 1"
  shows "fits (v AND m) (i mod 2 ^ k) B"
  using assms by (auto simp: fits_def uint_mask)

lemma fits_numeral [fits_rules]:
  "(numeral n :: int) < 2 ^ LENGTH('a) \<Longrightarrow> fits (numeral n :: 'a::len word) (numeral n) (numeral n)"
  by (simp add: fits_def take_bit_int_eq_self)

lemma fits_zero [fits_rules]: "fits 0 0 0"
  by (simp add: fits_def)

lemma fits_one [fits_rules]: "fits 1 1 1"
  by (simp add: fits_def)

subsection \<open>C truth values\<close>

lemma of_bool_and_not [flag_simps]:
  "(of_bool p :: 'a::len word) AND NOT (of_bool q) = of_bool (p \<and> \<not> q)"
  by (cases p; cases q) auto

lemma of_bool_or [flag_simps]:
  "(of_bool p :: 'a::len word) OR of_bool q = of_bool (p \<or> q)"
  by (cases p; cases q) auto

lemma of_bool_and [flag_simps]:
  "(of_bool p :: 'a::len word) AND of_bool q = of_bool (p \<and> q)"
  by (cases p; cases q) auto

subsection \<open>Congruences\<close>

lemma mod_eqI:
  fixes x y m k :: int
  assumes "x = y + m * k"
  shows "x mod m = y mod m"
  using assms by simp

lemma mod_unique:
  fixes x y m k :: int
  assumes "x = y + m * k" and "0 \<le> y" and "y < m"
  shows "x mod m = y"
  using assms by simp

lemma residue_eq:
  fixes x y m k :: int
  assumes "x + m * k = y" and "0 \<le> x" and "x < m" and "0 \<le> y" and "y < m"
  shows "x = y"
proof -
  have "x = (x + m * k) mod m" using assms(2,3) by simp
  also have "\<dots> = y" unfolding assms(1) using assms(4,5) by simp
  finally show ?thesis .
qed

subsection \<open>Disjoint bits\<close>

lemma or_push_bit:
  assumes "uint x < 2 ^ k"
  shows "x OR push_bit k y = x + push_bit k y"
proof -
  have "\<not> bit x n" if "k \<le> n" for n
  proof -
    have "take_bit k x = x"
      using assms by (simp add: word_uint_eq_iff unsigned_take_bit_eq take_bit_int_eq_self)
    then show ?thesis using that by (metis bit_take_bit_iff not_le)
  qed
  then show ?thesis
    by (intro disjunctive_add [symmetric]) (auto simp: bit_push_bit_iff)
qed

subsection \<open>Buffers\<close>

text \<open>\<open>memcpy\<close> of \<open>xs\<close> into a buffer at an offset.\<close>

definition buf_write :: "u8 list \<Rightarrow> nat \<Rightarrow> u8 list \<Rightarrow> u8 list" where
  "buf_write buf off xs = take off buf @ xs @ drop (off + length xs) buf"

lemma length_buf_write: "off + length xs \<le> length buf \<Longrightarrow> length (buf_write buf off xs) = length buf"
  by (simp add: buf_write_def)

lemma update_buf_write: "i < length buf \<Longrightarrow> buf[i := v] = buf_write buf i [v]"
  by (simp add: buf_write_def upd_conv_take_nth_drop)

lemma buf_write_buf_write:
  assumes "i + length xs + length ys \<le> length buf"
  shows "buf_write (buf_write buf i xs) (i + length xs) ys = buf_write buf i (xs @ ys)"
  using assms by (simp add: buf_write_def add.assoc add.left_commute add.commute [of "length ys" "length xs"])

lemma buf_write_0: "buf_write buf 0 xs = xs @ drop (length xs) buf"
  by (simp add: buf_write_def)

lemma be_val_Cons: "be_val (b # bs) = uint b * 256 ^ length bs + be_val bs"
  by (simp add: be_val_def le_val_append)

lemma be_val_Nil [simp]: "be_val [] = 0"
  by (simp add: be_val_def)

lemma be_val_replicate_0 [simp]: "be_val (replicate n 0) = 0"
  by (induction n) (simp_all add: be_val_Cons)

end
