(* ===== verification/Scalar_Acc.thy ===== *)
theory Scalar_Acc
  imports Secp_Prelude
begin

text \<open>
  The 96-bit accumulator macros of \<open>scalar_8x32_impl.h\<close> (\<open>muladd\<close>, \<open>muladd_fast\<close>, \<open>muladd2\<close>,
  \<open>sumadd\<close>, \<open>sumadd_fast\<close>, \<open>extract\<close>, \<open>extract_fast\<close>). A run of macro calls in the source is a
  list of \<open>acc_op\<close> values, closed by the extraction that ends the column; \<open>exec_cols\<close>
  executes the columns in order. The main lemma, \<open>exec_cols_correct\<close>, says that the extracted
  limbs and the remaining accumulator hold the exact sum, provided no macro breaks its stated
  contract (an accumulator limb that must never overflow).
\<close>

subsection \<open>The macros\<close>

type_synonym acc = "u32 \<times> u32 \<times> u32"

definition muladd :: "u32 \<Rightarrow> u32 \<Rightarrow> acc \<Rightarrow> acc" where
  "muladd a b = (\<lambda>(c0, c1, c2).
     let t = (ucast a :: u64) * ucast b;
         th = (ucast (drop_bit 32 t) :: u32);
         tl = (ucast t :: u32);
         c0 = c0 + tl;
         th = th + (if c0 < tl then 1 else 0);
         c1 = c1 + th;
         c2 = c2 + (if c1 < th then 1 else 0)
     in (c0, c1, c2))"

definition muladd_fast :: "u32 \<Rightarrow> u32 \<Rightarrow> acc \<Rightarrow> acc" where
  "muladd_fast a b = (\<lambda>(c0, c1, c2).
     let t = (ucast a :: u64) * ucast b;
         th = (ucast (drop_bit 32 t) :: u32);
         tl = (ucast t :: u32);
         c0 = c0 + tl;
         th = th + (if c0 < tl then 1 else 0);
         c1 = c1 + th
     in (c0, c1, c2))"

definition muladd2 :: "u32 \<Rightarrow> u32 \<Rightarrow> acc \<Rightarrow> acc" where
  "muladd2 a b = (\<lambda>(c0, c1, c2).
     let t = (ucast a :: u64) * ucast b;
         th = (ucast (drop_bit 32 t) :: u32);
         tl = (ucast t :: u32);
         th2 = th + th;
         c2 = c2 + (if th2 < th then 1 else 0);
         tl2 = tl + tl;
         th2 = th2 + (if tl2 < tl then 1 else 0);
         c0 = c0 + tl2;
         th2 = th2 + (if c0 < tl2 then 1 else 0);
         c2 = c2 + (of_bool (c0 < tl2) AND of_bool (th2 = 0));
         c1 = c1 + th2;
         c2 = c2 + (if c1 < th2 then 1 else 0)
     in (c0, c1, c2))"

definition sumadd :: "u32 \<Rightarrow> acc \<Rightarrow> acc" where
  "sumadd a = (\<lambda>(c0, c1, c2).
     let c0 = c0 + a;
         over = (if c0 < a then 1 else 0);
         c1 = c1 + over;
         c2 = c2 + (if c1 < over then 1 else 0)
     in (c0, c1, c2))"

definition sumadd_fast :: "u32 \<Rightarrow> acc \<Rightarrow> acc" where
  "sumadd_fast a = (\<lambda>(c0, c1, c2).
     let c0 = c0 + a;
         c1 = c1 + (if c0 < a then 1 else 0)
     in (c0, c1, c2))"

definition extract_limb :: "acc \<Rightarrow> u32 \<times> acc" where
  "extract_limb = (\<lambda>(c0, c1, c2). (c0, (c1, c2, 0)))"

definition extract_limb_fast :: "acc \<Rightarrow> u32 \<times> acc" where
  "extract_limb_fast = (\<lambda>(c0, c1, c2). (c0, (c1, 0, c2)))"

subsection \<open>Straight-line macro code\<close>

datatype acc_op = Muladd u32 u32 | Muladd_fast u32 u32 | Muladd2 u32 u32 | Sumadd u32 | Sumadd_fast u32

text \<open>A column of macro calls, closed by \<open>extract\<close> (\<open>Col\<close>) or \<open>extract_fast\<close> (\<open>Col_fast\<close>).\<close>

datatype acc_col = Col "acc_op list" | Col_fast "acc_op list"

fun exec_op :: "acc_op \<Rightarrow> acc \<Rightarrow> acc" where
  "exec_op (Muladd a b) c = muladd a b c"
| "exec_op (Muladd_fast a b) c = muladd_fast a b c"
| "exec_op (Muladd2 a b) c = muladd2 a b c"
| "exec_op (Sumadd a) c = sumadd a c"
| "exec_op (Sumadd_fast a) c = sumadd_fast a c"

fun exec_col :: "acc_col \<Rightarrow> acc \<Rightarrow> u32 \<times> acc" where
  "exec_col (Col ops) c = extract_limb (fold exec_op ops c)"
| "exec_col (Col_fast ops) c = extract_limb_fast (fold exec_op ops c)"

fun exec_cols :: "acc_col list \<Rightarrow> acc \<Rightarrow> u32 list \<times> acc" where
  "exec_cols [] c = ([], c)"
| "exec_cols (col # cols) c =
     (let (n, c) = exec_col col c; (ns, c) = exec_cols cols c in (n # ns, c))"

subsection \<open>What the macros compute\<close>

fun acc_val :: "acc \<Rightarrow> int" where
  "acc_val (c0, c1, c2) = uint c0 + 4294967296 * uint c1 + 18446744073709551616 * uint c2"

fun op_val :: "acc_op \<Rightarrow> int" where
  "op_val (Muladd a b) = uint a * uint b"
| "op_val (Muladd_fast a b) = uint a * uint b"
| "op_val (Muladd2 a b) = 2 * (uint a * uint b)"
| "op_val (Sumadd a) = uint a"
| "op_val (Sumadd_fast a) = uint a"

text \<open>The value the accumulator must stay below after the macro.\<close>

fun op_limit :: "acc_op \<Rightarrow> int" where
  "op_limit (Muladd_fast a b) = 18446744073709551616"
| "op_limit (Sumadd_fast a) = 18446744073709551616"
| "op_limit _ = 79228162514264337593543950336"

fun col_ops :: "acc_col \<Rightarrow> acc_op list" where
  "col_ops (Col ops) = ops"
| "col_ops (Col_fast ops) = ops"

fun col_limit :: "acc_col \<Rightarrow> int" where
  "col_limit (Col ops) = 79228162514264337593543950336"
| "col_limit (Col_fast ops) = 18446744073709551616"

definition ops_val :: "acc_op list \<Rightarrow> int" where
  "ops_val ops = sum_list (map op_val ops)"

fun cols_val :: "acc_col list \<Rightarrow> int" where
  "cols_val [] = 0"
| "cols_val (col # cols) = ops_val (col_ops col) + 4294967296 * cols_val cols"

text \<open>Contracts on exact values: no macro of the list lets its accumulator overflow.\<close>

fun ops_safe :: "int \<Rightarrow> acc_op list \<Rightarrow> bool" where
  "ops_safe v [] = True"
| "ops_safe v (op # ops) = (v + op_val op < op_limit op \<and> ops_safe (v + op_val op) ops)"

fun col_safe :: "int \<Rightarrow> acc_col \<Rightarrow> bool" where
  "col_safe v col = (ops_safe v (col_ops col) \<and> v + ops_val (col_ops col) < col_limit col)"

text \<open>The same contracts checked on upper bounds only, so that they compute on any operands.\<close>

fun op_max :: "acc_op \<Rightarrow> int" where
  "op_max (Muladd a b) = 18446744065119617025"
| "op_max (Muladd_fast a b) = 18446744065119617025"
| "op_max (Muladd2 a b) = 36893488130239234050"
| "op_max (Sumadd a) = 4294967295"
| "op_max (Sumadd_fast a) = 4294967295"

fun ops_ok :: "int \<Rightarrow> acc_op list \<Rightarrow> bool" where
  "ops_ok B [] = True"
| "ops_ok B (op # ops) = (B + op_max op < op_limit op \<and> ops_ok (B + op_max op) ops)"

fun ops_max :: "int \<Rightarrow> acc_op list \<Rightarrow> int" where
  "ops_max B [] = B"
| "ops_max B (op # ops) = ops_max (B + op_max op) ops"

fun cols_ok :: "int \<Rightarrow> acc_col list \<Rightarrow> bool" where
  "cols_ok B [] = True"
| "cols_ok B (col # cols) =
     (ops_ok B (col_ops col) \<and> ops_max B (col_ops col) < col_limit col \<and>
      cols_ok (ops_max B (col_ops col) div 4294967296) cols)"

subsection \<open>Correctness of the macros\<close>

text \<open>An unsigned addition and the comparison that detects its carry.\<close>

lemma carry_word:
  fixes a b :: u32
  shows "uint (a + b) + 4294967296 * uint (if a + b < b then 1 else 0 :: u32) = uint a + uint b"
proof -
  have "uint (a + b) = (if uint a + uint b < 4294967296 then uint a + uint b
      else uint a + uint b - 4294967296)" by (simp add: uint_plus_if_size word_size)
  then show ?thesis using uint_u32_less [of a] uint_u32_less [of b]
    by (cases "uint a + uint b < 4294967296") (simp_all add: word_less_def)
qed

lemma no_carry: "uint a + uint b < 4294967296 \<Longrightarrow> uint (a + b :: u32) = uint a + uint b"
  by (simp add: uint_plus_if_size word_size)

lemma mul_parts:
  fixes a b :: u32
  defines "t \<equiv> (ucast a :: u64) * ucast b"
  shows "uint (ucast t :: u32) + 4294967296 * uint (ucast (drop_bit 32 t) :: u32) = uint a * uint b"
    and "uint (ucast (drop_bit 32 t) :: u32) \<le> 4294967294"
proof -
  have t: "fits t (uint a * uint b) (4294967295 * 4294967295)"
    unfolding t_def by (rule fits_rules fits_u32 | simp)+
  have h: "fits (ucast (drop_bit 32 t) :: u32) (uint a * uint b div 2 ^ 32) 4294967294"
    by (rule fits_mono, (rule fits_rules t | simp)+)
  show "uint (ucast (drop_bit 32 t) :: u32) \<le> 4294967294"
    using h by (simp add: fits_def)
  show "uint (ucast t :: u32) + 4294967296 * uint (ucast (drop_bit 32 t) :: u32) = uint a * uint b"
    using fits_uintD [OF h] fits_uintD [OF t] by (simp add: uint_trunc)
qed

lemma carry_le_1: "uint (if p then 1 else 0 :: u32) \<le> 1"
  by simp

lemma muladd_val:
  assumes "acc_val c + uint a * uint b < 79228162514264337593543950336"
  shows "acc_val (muladd a b c) = acc_val c + uint a * uint b"
proof -
  obtain c0 c1 c2 where c: "c = (c0, c1, c2)" by (cases c)
  define t where "t = (ucast a :: u64) * ucast b"
  define th tl where "th = (ucast (drop_bit 32 t) :: u32)" and "tl = (ucast t :: u32)"
  have t: "uint tl + 4294967296 * uint th = uint a * uint b" "uint th \<le> 4294967294"
    unfolding th_def tl_def t_def by (rule mul_parts)+
  define k0 where "k0 = (if c0 + tl < tl then 1 else 0 :: u32)"
  define k1 where "k1 = (if c1 + (th + k0) < th + k0 then 1 else 0 :: u32)"
  note k = carry_word [of c0 tl, folded k0_def] carry_word [of c1 "th + k0", folded k1_def]
  have "uint (th + k0) = uint th + uint k0"
    using t(2) carry_le_1 [of "c0 + tl < tl", folded k0_def] by (intro no_carry) linarith
  note k = k [unfolded this]
  have "uint (c2 + k1) = uint c2 + uint k1"
    using assms k t(1) uint_ge_0 [of "c0 + tl"] uint_ge_0 [of "c1 + (th + k0)"]
    unfolding c acc_val.simps by (intro no_carry) linarith
  moreover have "muladd a b c = (c0 + tl, c1 + (th + k0), c2 + k1)"
    by (simp add: c muladd_def Let_def t_def th_def tl_def k0_def k1_def)
  ultimately show ?thesis using k t(1) by (simp add: c)
qed

lemma muladd_fast_val:
  assumes "acc_val c + uint a * uint b < 18446744073709551616"
  shows "acc_val (muladd_fast a b c) = acc_val c + uint a * uint b"
proof -
  obtain c0 c1 c2 where c: "c = (c0, c1, c2)" by (cases c)
  define t where "t = (ucast a :: u64) * ucast b"
  define th tl where "th = (ucast (drop_bit 32 t) :: u32)" and "tl = (ucast t :: u32)"
  have t: "uint tl + 4294967296 * uint th = uint a * uint b" "uint th \<le> 4294967294"
    unfolding th_def tl_def t_def by (rule mul_parts)+
  define k0 where "k0 = (if c0 + tl < tl then 1 else 0 :: u32)"
  note k = carry_word [of c0 tl, folded k0_def]
  have th: "uint (th + k0) = uint th + uint k0"
    using t(2) carry_le_1 [of "c0 + tl < tl", folded k0_def] by (intro no_carry) linarith
  have "uint (c1 + (th + k0)) = uint c1 + uint th + uint k0"
    using assms k t(1) uint_ge_0 [of "c0 + tl"] uint_ge_0 [of c2] th
    unfolding c acc_val.simps by (subst no_carry) linarith+
  moreover have "muladd_fast a b c = (c0 + tl, c1 + (th + k0), c2)"
    by (simp add: c muladd_fast_def Let_def t_def th_def tl_def k0_def)
  ultimately show ?thesis using k t(1) by (simp add: c)
qed

lemma sumadd_val:
  assumes "acc_val c + uint a < 79228162514264337593543950336"
  shows "acc_val (sumadd a c) = acc_val c + uint a"
proof -
  obtain c0 c1 c2 where c: "c = (c0, c1, c2)" by (cases c)
  define k0 where "k0 = (if c0 + a < a then 1 else 0 :: u32)"
  define k1 where "k1 = (if c1 + k0 < k0 then 1 else 0 :: u32)"
  note k = carry_word [of c0 a, folded k0_def] carry_word [of c1 k0, folded k1_def]
  have "uint (c2 + k1) = uint c2 + uint k1"
    using assms k uint_ge_0 [of "c0 + a"] uint_ge_0 [of "c1 + k0"]
    unfolding c acc_val.simps by (intro no_carry) linarith
  moreover have "sumadd a c = (c0 + a, c1 + k0, c2 + k1)"
    by (simp add: c sumadd_def Let_def k0_def k1_def)
  ultimately show ?thesis using k by (simp add: c)
qed

lemma sumadd_fast_val:
  assumes "acc_val c + uint a < 18446744073709551616"
  shows "acc_val (sumadd_fast a c) = acc_val c + uint a"
proof -
  obtain c0 c1 c2 where c: "c = (c0, c1, c2)" by (cases c)
  define k0 where "k0 = (if c0 + a < a then 1 else 0 :: u32)"
  note k = carry_word [of c0 a, folded k0_def]
  have "uint (c1 + k0) = uint c1 + uint k0"
    using assms k uint_ge_0 [of "c0 + a"] uint_ge_0 [of c2]
    unfolding c acc_val.simps by (intro no_carry) linarith
  moreover have "sumadd_fast a c = (c0 + a, c1 + k0, c2)"
    by (simp add: c sumadd_fast_def Let_def k0_def)
  ultimately show ?thesis using k by (simp add: c)
qed

text \<open>The doubled high word is even, so adding one carry to it cannot wrap.\<close>

lemma double_word_max:
  fixes x k :: u32
  assumes "uint (x + x) + 4294967296 * uint k = uint x + uint x"
  shows "uint (x + x) \<le> 4294967294"
proof -
  have "even (uint (x + x) + 4294967296 * uint k)" unfolding assms by simp
  then have "even (uint (x + x))" by simp
  then have "uint (x + x) \<noteq> 4294967295" by auto
  with uint_u32_less [of "x + x"] show ?thesis by linarith
qed

lemma wrap_to_zero:
  fixes x k :: u32
  assumes "uint k \<le> 1"
  shows "uint (x + k) + 4294967296 * uint (of_bool (k = 1) AND of_bool (x + k = 0) :: u32) = uint x + uint k"
proof (cases "k = 0")
  case True
  then show ?thesis by simp
next
  case False
  then have "uint k \<noteq> 0" by (simp add: uint_0_iff)
  with assms uint_ge_0 [of k] have "uint k = 1" by linarith
  then have "k = 1" by (simp add: word_uint_eq_iff)
  then show ?thesis using carry_word [of x 1] by (auto simp: word_less_1)
qed
lemma muladd2_val:
  assumes "acc_val c + 2 * (uint a * uint b) < 79228162514264337593543950336"
  shows "acc_val (muladd2 a b c) = acc_val c + 2 * (uint a * uint b)"
proof -
  obtain c0 c1 c2 where c: "c = (c0, c1, c2)" by (cases c)
  define t where "t = (ucast a :: u64) * ucast b"
  define th tl where "th = (ucast (drop_bit 32 t) :: u32)" and "tl = (ucast t :: u32)"
  have t: "uint tl + 4294967296 * uint th = uint a * uint b"
    unfolding th_def tl_def t_def by (rule mul_parts)
  define ka kb where "ka = (if th + th < th then 1 else 0 :: u32)"
    and "kb = (if tl + tl < tl then 1 else 0 :: u32)"
  note ka = carry_word [of th th, folded ka_def] and kb = carry_word [of tl tl, folded kb_def]
  define th' where "th' = th + th + kb"
  have th': "uint th' = uint (th + th) + uint kb"
    unfolding th'_def using double_word_max [OF ka] carry_le_1 [of "tl + tl < tl", folded kb_def]
    by (intro no_carry) linarith
  define kc where "kc = (if c0 + (tl + tl) < tl + tl then 1 else 0 :: u32)"
  note kc = carry_word [of c0 "tl + tl", folded kc_def]
  define kd where "kd = (of_bool (kc = 1) AND of_bool (th' + kc = 0) :: u32)"
  have kd: "uint (th' + kc) + 4294967296 * uint kd = uint th' + uint kc"
    unfolding kd_def by (rule wrap_to_zero) (simp add: kc_def)
  define ke where "ke = (if c1 + (th' + kc) < th' + kc then 1 else 0 :: u32)"
  note ke = carry_word [of c1 "th' + kc", folded ke_def]
  have sum: "uint c2 + uint ka + uint kd + uint ke < 4294967296"
    using assms ka kb kc kd ke th' t uint_ge_0 [of "c0 + (tl + tl)"] uint_ge_0 [of "c1 + (th' + kc)"]
    unfolding c acc_val.simps by linarith
  have "uint (c2 + ka + kd + ke) = uint c2 + uint ka + uint kd + uint ke"
  proof -
    have "uint c2 + uint ka < 4294967296" "uint c2 + uint ka + uint kd < 4294967296"
      using sum uint_ge_0 [of kd] uint_ge_0 [of ke] by linarith+
    with sum show ?thesis by (simp add: no_carry)
  qed
  moreover have "muladd2 a b c = (c0 + (tl + tl), c1 + (th' + kc), c2 + ka + kd + ke)"
    by (simp add: c muladd2_def Let_def t_def th_def tl_def ka_def kb_def kc_def kd_def ke_def th'_def of_bool_def)
  ultimately show ?thesis using ka kb kc kd ke th' t unfolding c by simp
qed

lemma exec_op_val:
  assumes "acc_val c + op_val op < op_limit op"
  shows "acc_val (exec_op op c) = acc_val c + op_val op"
  using assms
  by (cases op) (simp_all add: muladd_val muladd_fast_val muladd2_val sumadd_val sumadd_fast_val)

lemma exec_ops_val: "ops_safe (acc_val c) ops \<Longrightarrow> acc_val (fold exec_op ops c) = acc_val c + ops_val ops"
  by (induction ops arbitrary: c) (simp_all add: ops_val_def exec_op_val)

lemma acc_val_nonneg [simp]: "0 \<le> acc_val c"
  by (cases c) simp

lemma exec_col_val:
  assumes "col_safe (acc_val c) col" and "exec_col col c = (n, c')"
  shows "uint n + 4294967296 * acc_val c' = acc_val c + ops_val (col_ops col)"
proof (cases col)
  case (Col ops)
  with assms show ?thesis
    using exec_ops_val [of c ops] by (cases "fold exec_op ops c") (auto simp: extract_limb_def)
next
  case (Col_fast ops)
  obtain c0 c1 c2 where f: "fold exec_op ops c = (c0, c1, c2)" by (cases "fold exec_op ops c")
  have v: "acc_val (c0, c1, c2) = acc_val c + ops_val ops"
    using assms(1) exec_ops_val [of c ops] by (simp add: Col_fast f)
  moreover have "acc_val c + ops_val ops < 18446744073709551616"
    using assms(1) by (simp add: Col_fast)
  ultimately have "uint c2 = 0"
    using uint_ge_0 [of c0] uint_ge_0 [of c1] uint_ge_0 [of c2]
    unfolding acc_val.simps by linarith
  with assms(2) v show ?thesis by (auto simp: Col_fast f extract_limb_fast_def)
qed

lemma op_val_bounds: "0 \<le> op_val op" "op_val op \<le> op_max op"
proof -
  have "uint a * uint b \<le> 4294967295 * 4294967295" for a b :: u32
    using uint_u32_less [of a] uint_u32_less [of b] by (intro mult_mono) simp_all
  moreover have "uint a \<le> 4294967295" for a :: u32
    using uint_u32_less [of a] by simp
  ultimately show "0 \<le> op_val op" "op_val op \<le> op_max op"
    by (cases op; simp)+
qed

lemma ops_val_nonneg [simp]: "0 \<le> ops_val ops"
  unfolding ops_val_def by (intro sum_list_nonneg) (auto simp: op_val_bounds)

lemma ops_ok_safe: "v \<le> B \<Longrightarrow> ops_ok B ops \<Longrightarrow> ops_safe v ops"
proof (induction ops arbitrary: v B)
  case Nil
  then show ?case by simp
next
  case (Cons op ops)
  have "v + op_val op \<le> B + op_max op" using Cons.prems(1) op_val_bounds(2) [of op] by linarith
  with Cons show ?case by fastforce
qed

lemma ops_max_val: "v \<le> B \<Longrightarrow> v + ops_val ops \<le> ops_max B ops"
proof (induction ops arbitrary: v B)
  case Nil
  then show ?case by (simp add: ops_val_def)
next
  case (Cons op ops)
  have "v + op_val op \<le> B + op_max op" using Cons.prems op_val_bounds(2) [of op] by linarith
  from Cons.IH [OF this] show ?case by (simp add: ops_val_def algebra_simps)
qed

lemma cols_val_nonneg [simp]: "0 \<le> cols_val cols"
  by (induction cols) auto

lemma exec_cols_correct:
  assumes "acc_val c \<le> B" and "cols_ok B cols" and "exec_cols cols c = (ns, c')"
  shows "length ns = length cols"
    and "lval 32 ns + 4294967296 ^ length cols * acc_val c' = acc_val c + cols_val cols"
proof -
  have "length ns = length cols \<and>
    lval 32 ns + 4294967296 ^ length cols * acc_val c' = acc_val c + cols_val cols"
    using assms
  proof (induction cols arbitrary: c B ns)
    case Nil
    then show ?case by simp
  next
    case (Cons col cols)
    obtain n d where col: "exec_col col c = (n, d)" by (rule prod.exhaust)
    obtain ms where rest: "exec_cols cols d = (ms, c')" and ns: "ns = n # ms"
      using Cons.prems(3) by (auto simp: col split: prod.splits)
    have le: "acc_val c + ops_val (col_ops col) \<le> ops_max B (col_ops col)"
      by (rule ops_max_val) (rule Cons.prems(1))
    then have "col_safe (acc_val c) col"
      using Cons.prems ops_ok_safe [of "acc_val c" B "col_ops col"] by simp
    from exec_col_val [OF this col]
    have step: "uint n + 4294967296 * acc_val d = acc_val c + ops_val (col_ops col)" .
    have "acc_val d \<le> ops_max B (col_ops col) div 4294967296"
      using zdiv_mono1 [of "4294967296 * acc_val d" "ops_max B (col_ops col)" 4294967296]
        step le uint_ge_0 [of n] by linarith
    from Cons.IH [OF this _ rest] Cons.prems(2)
    have "length ms = length cols"
      "lval 32 ms + 4294967296 ^ length cols * acc_val c' = acc_val d + cols_val cols"
      by simp_all
    then show ?case using step by (simp add: ns algebra_simps)
  qed
  then show "length ns = length cols"
    "lval 32 ns + 4294967296 ^ length cols * acc_val c' = acc_val c + cols_val cols" by auto
qed

end
