(* ===== verification/Scalar_8x32.thy ===== *)
theory Scalar_8x32
  imports Scalar_Acc
begin

text \<open>
  Scalars modulo the group order as eight 32-bit limbs (\<open>scalar_8x32_impl.h\<close>, the
  representation the Go package selects with \<open>USE_SCALAR_8X32\<close>). \<open>scalar_val\<close> reads a scalar
  as an integer. Runs of the form \<open>t += x; d = t & 0xFFFFFFFF; t >>= 32\<close> are the carry chain
  \<open>carry32\<close> over the list of the addends; the macro code of the 512-bit multiplication and
  reduction is executed by \<open>exec_cols\<close>. C's \<open>int\<close> truth values are words 0 and 1. An array
  index or shift count of type \<open>int\<close> or \<open>unsigned int\<close> that is only read is a natural number.
\<close>

subsection \<open>Limbs and constants\<close>

record secp256k1_scalar =
  d_0 :: u32
  d_1 :: u32
  d_2 :: u32
  d_3 :: u32
  d_4 :: u32
  d_5 :: u32
  d_6 :: u32
  d_7 :: u32

definition scalar_limbs :: "secp256k1_scalar \<Rightarrow> u32 list" where
  "scalar_limbs a = [d_0 a, d_1 a, d_2 a, d_3 a, d_4 a, d_5 a, d_6 a, d_7 a]"

definition scalar_of :: "u32 list \<Rightarrow> secp256k1_scalar" where
  "scalar_of xs = \<lparr>d_0 = xs ! 0, d_1 = xs ! 1, d_2 = xs ! 2, d_3 = xs ! 3,
     d_4 = xs ! 4, d_5 = xs ! 5, d_6 = xs ! 6, d_7 = xs ! 7\<rparr>"

definition scalar_val :: "secp256k1_scalar \<Rightarrow> int" where
  "scalar_val a = lval 32 (scalar_limbs a)"

definition SECP256K1_N_0 :: u32 where
  "SECP256K1_N_0 = 0xD0364141"

definition SECP256K1_N_1 :: u32 where
  "SECP256K1_N_1 = 0xBFD25E8C"

definition SECP256K1_N_2 :: u32 where
  "SECP256K1_N_2 = 0xAF48A03B"

definition SECP256K1_N_3 :: u32 where
  "SECP256K1_N_3 = 0xBAAEDCE6"

definition SECP256K1_N_4 :: u32 where
  "SECP256K1_N_4 = 0xFFFFFFFE"

definition SECP256K1_N_5 :: u32 where
  "SECP256K1_N_5 = 0xFFFFFFFF"

definition SECP256K1_N_6 :: u32 where
  "SECP256K1_N_6 = 0xFFFFFFFF"

definition SECP256K1_N_7 :: u32 where
  "SECP256K1_N_7 = 0xFFFFFFFF"

definition SECP256K1_N_H_0 :: u32 where
  "SECP256K1_N_H_0 = 0x681B20A0"

definition SECP256K1_N_H_1 :: u32 where
  "SECP256K1_N_H_1 = 0xDFE92F46"

definition SECP256K1_N_H_2 :: u32 where
  "SECP256K1_N_H_2 = 0x57A4501D"

definition SECP256K1_N_H_3 :: u32 where
  "SECP256K1_N_H_3 = 0x5D576E73"

definition SECP256K1_N_H_4 :: u32 where
  "SECP256K1_N_H_4 = 0xFFFFFFFF"

definition SECP256K1_N_H_5 :: u32 where
  "SECP256K1_N_H_5 = 0xFFFFFFFF"

definition SECP256K1_N_H_6 :: u32 where
  "SECP256K1_N_H_6 = 0xFFFFFFFF"

definition SECP256K1_N_H_7 :: u32 where
  "SECP256K1_N_H_7 = 0x7FFFFFFF"

definition SECP256K1_N_C_0 :: u32 where
  "SECP256K1_N_C_0 = NOT SECP256K1_N_0 + 1"

definition SECP256K1_N_C_1 :: u32 where
  "SECP256K1_N_C_1 = NOT SECP256K1_N_1"

definition SECP256K1_N_C_2 :: u32 where
  "SECP256K1_N_C_2 = NOT SECP256K1_N_2"

definition SECP256K1_N_C_3 :: u32 where
  "SECP256K1_N_C_3 = NOT SECP256K1_N_3"

definition SECP256K1_N_C_4 :: u32 where
  "SECP256K1_N_C_4 = 1"

lemmas order_limbs =
  SECP256K1_N_0_def SECP256K1_N_1_def SECP256K1_N_2_def SECP256K1_N_3_def
  SECP256K1_N_4_def SECP256K1_N_5_def SECP256K1_N_6_def SECP256K1_N_7_def

lemmas half_order_limbs =
  SECP256K1_N_H_0_def SECP256K1_N_H_1_def SECP256K1_N_H_2_def SECP256K1_N_H_3_def
  SECP256K1_N_H_4_def SECP256K1_N_H_5_def SECP256K1_N_H_6_def SECP256K1_N_H_7_def

lemmas order_compl_limbs =
  SECP256K1_N_C_0_def SECP256K1_N_C_1_def SECP256K1_N_C_2_def SECP256K1_N_C_3_def SECP256K1_N_C_4_def

text \<open>The group order, and its distance from \<open>2 ^ 256\<close>.\<close>

definition secp256k1_n :: int where
  "secp256k1_n = 0xFFFFFFFFFFFFFFFFFFFFFFFFFFFFFFFEBAAEDCE6AF48A03BBFD25E8CD0364141"

definition n_compl :: int where
  "n_compl = 2 ^ 256 - secp256k1_n"

subsection \<open>The carry chain\<close>

fun carry32 :: "u64 \<Rightarrow> u32 \<Rightarrow> u64 list \<Rightarrow> u32 list \<times> u64" where
  "carry32 t m [] = ([], t)"
| "carry32 t m (x # xs) =
     (let t = t + x;
          d = (ucast (t AND ucast m) :: u32);
          (ds, t) = carry32 (drop_bit 32 t) m xs
      in (d # ds, t))"

subsection \<open>Operations\<close>

definition secp256k1_scalar_clear :: "secp256k1_scalar" where
  "secp256k1_scalar_clear = \<lparr>d_0 = 0, d_1 = 0, d_2 = 0, d_3 = 0, d_4 = 0, d_5 = 0, d_6 = 0, d_7 = 0\<rparr>"

definition secp256k1_scalar_set_int :: "u32 \<Rightarrow> secp256k1_scalar" where
  "secp256k1_scalar_set_int v =
     \<lparr>d_0 = v, d_1 = 0, d_2 = 0, d_3 = 0, d_4 = 0, d_5 = 0, d_6 = 0, d_7 = 0\<rparr>"

definition secp256k1_scalar_get_bits :: "secp256k1_scalar \<Rightarrow> u32 \<Rightarrow> u32 \<Rightarrow> u32" where
  "secp256k1_scalar_get_bits a offset count =
     drop_bit (unat (offset AND 0x1F)) (scalar_limbs a ! unat (drop_bit 5 offset))
       AND (push_bit (unat count) 1 - 1)"

definition secp256k1_scalar_get_bits_var :: "secp256k1_scalar \<Rightarrow> u32 \<Rightarrow> u32 \<Rightarrow> u32" where
  "secp256k1_scalar_get_bits_var a offset count =
     (if drop_bit 5 (offset + count - 1) = drop_bit 5 offset
      then secp256k1_scalar_get_bits a offset count
      else (drop_bit (unat (offset AND 0x1F)) (scalar_limbs a ! unat (drop_bit 5 offset))
            OR push_bit (unat (32 - (offset AND 0x1F))) (scalar_limbs a ! unat (drop_bit 5 offset + 1)))
           AND (push_bit (unat count) 1 - 1))"

definition secp256k1_scalar_check_overflow :: "secp256k1_scalar \<Rightarrow> u32" where
  "secp256k1_scalar_check_overflow a =
     (let yes = 0; no = 0;
          no = no OR of_bool (d_7 a < SECP256K1_N_7);
          no = no OR of_bool (d_6 a < SECP256K1_N_6);
          no = no OR of_bool (d_5 a < SECP256K1_N_5);
          no = no OR of_bool (d_4 a < SECP256K1_N_4);
          yes = yes OR (of_bool (d_4 a > SECP256K1_N_4) AND NOT no);
          no = no OR (of_bool (d_3 a < SECP256K1_N_3) AND NOT yes);
          yes = yes OR (of_bool (d_3 a > SECP256K1_N_3) AND NOT no);
          no = no OR (of_bool (d_2 a < SECP256K1_N_2) AND NOT yes);
          yes = yes OR (of_bool (d_2 a > SECP256K1_N_2) AND NOT no);
          no = no OR (of_bool (d_1 a < SECP256K1_N_1) AND NOT yes);
          yes = yes OR (of_bool (d_1 a > SECP256K1_N_1) AND NOT no);
          yes = yes OR (of_bool (d_0 a \<ge> SECP256K1_N_0) AND NOT no)
      in yes)"

definition secp256k1_scalar_reduce :: "secp256k1_scalar \<Rightarrow> u32 \<Rightarrow> secp256k1_scalar \<times> u32" where
  "secp256k1_scalar_reduce r overflow =
     (let (ds, t) = carry32 0 0xFFFFFFFF
            [ucast (d_0 r) + ucast (overflow * SECP256K1_N_C_0),
             ucast (d_1 r) + ucast (overflow * SECP256K1_N_C_1),
             ucast (d_2 r) + ucast (overflow * SECP256K1_N_C_2),
             ucast (d_3 r) + ucast (overflow * SECP256K1_N_C_3),
             ucast (d_4 r) + ucast (overflow * SECP256K1_N_C_4),
             ucast (d_5 r), ucast (d_6 r), ucast (d_7 r)]
      in (scalar_of ds, overflow))"

definition secp256k1_scalar_add ::
  "secp256k1_scalar \<Rightarrow> secp256k1_scalar \<Rightarrow> secp256k1_scalar \<times> u32" where
  "secp256k1_scalar_add a b =
     (let (ds, t) = carry32 0 0xFFFFFFFF
            [ucast (d_0 a) + ucast (d_0 b), ucast (d_1 a) + ucast (d_1 b),
             ucast (d_2 a) + ucast (d_2 b), ucast (d_3 a) + ucast (d_3 b),
             ucast (d_4 a) + ucast (d_4 b), ucast (d_5 a) + ucast (d_5 b),
             ucast (d_6 a) + ucast (d_6 b), ucast (d_7 a) + ucast (d_7 b)];
          r = scalar_of ds;
          overflow = (ucast (t + ucast (secp256k1_scalar_check_overflow r)) :: u32)
      in (fst (secp256k1_scalar_reduce r overflow), overflow))"

definition secp256k1_scalar_cadd_bit :: "secp256k1_scalar \<Rightarrow> u32 \<Rightarrow> u32 \<Rightarrow> secp256k1_scalar" where
  "secp256k1_scalar_cadd_bit r b flag =
     (let b = b + ((flag - 1) AND 0x100);
          addend = (\<lambda>i d. (ucast d :: u64) +
             ucast (push_bit (unat (b AND 0x1F)) (of_bool (drop_bit 5 b = i) :: u32)));
          (ds, t) = carry32 0 0xFFFFFFFF
            [addend 0 (d_0 r), addend 1 (d_1 r), addend 2 (d_2 r), addend 3 (d_3 r),
             addend 4 (d_4 r), addend 5 (d_5 r), addend 6 (d_6 r), addend 7 (d_7 r)]
      in scalar_of ds)"

definition read_be32 :: "u8 \<Rightarrow> u8 \<Rightarrow> u8 \<Rightarrow> u8 \<Rightarrow> u32" where
  "read_be32 b3 b2 b1 b0 =
     ((ucast b0 OR push_bit 8 (ucast b1)) OR push_bit 16 (ucast b2)) OR push_bit 24 (ucast b3)"

definition secp256k1_scalar_set_b32 :: "u8 list \<Rightarrow> secp256k1_scalar \<times> u32" where
  "secp256k1_scalar_set_b32 b32 =
     (let r = \<lparr>d_0 = read_be32 (b32 ! 28) (b32 ! 29) (b32 ! 30) (b32 ! 31),
               d_1 = read_be32 (b32 ! 24) (b32 ! 25) (b32 ! 26) (b32 ! 27),
               d_2 = read_be32 (b32 ! 20) (b32 ! 21) (b32 ! 22) (b32 ! 23),
               d_3 = read_be32 (b32 ! 16) (b32 ! 17) (b32 ! 18) (b32 ! 19),
               d_4 = read_be32 (b32 ! 12) (b32 ! 13) (b32 ! 14) (b32 ! 15),
               d_5 = read_be32 (b32 ! 8) (b32 ! 9) (b32 ! 10) (b32 ! 11),
               d_6 = read_be32 (b32 ! 4) (b32 ! 5) (b32 ! 6) (b32 ! 7),
               d_7 = read_be32 (b32 ! 0) (b32 ! 1) (b32 ! 2) (b32 ! 3)\<rparr>
      in secp256k1_scalar_reduce r (secp256k1_scalar_check_overflow r))"

definition write_be32 :: "u32 \<Rightarrow> u8 list" where
  "write_be32 w = [ucast (drop_bit 24 w), ucast (drop_bit 16 w), ucast (drop_bit 8 w), ucast w]"

definition secp256k1_scalar_get_b32 :: "secp256k1_scalar \<Rightarrow> u8 list" where
  "secp256k1_scalar_get_b32 a =
     write_be32 (d_7 a) @ write_be32 (d_6 a) @ write_be32 (d_5 a) @ write_be32 (d_4 a) @
     write_be32 (d_3 a) @ write_be32 (d_2 a) @ write_be32 (d_1 a) @ write_be32 (d_0 a)"

definition secp256k1_scalar_is_zero :: "secp256k1_scalar \<Rightarrow> bool" where
  "secp256k1_scalar_is_zero a \<longleftrightarrow>
     d_0 a OR d_1 a OR d_2 a OR d_3 a OR d_4 a OR d_5 a OR d_6 a OR d_7 a = 0"

definition secp256k1_scalar_negate :: "secp256k1_scalar \<Rightarrow> secp256k1_scalar" where
  "secp256k1_scalar_negate a =
     (let nonzero = 0xFFFFFFFF * of_bool (\<not> secp256k1_scalar_is_zero a);
          (ds, t) = carry32 0 nonzero
            [ucast (NOT (d_0 a)) + ucast SECP256K1_N_0 + 1,
             ucast (NOT (d_1 a)) + ucast SECP256K1_N_1,
             ucast (NOT (d_2 a)) + ucast SECP256K1_N_2,
             ucast (NOT (d_3 a)) + ucast SECP256K1_N_3,
             ucast (NOT (d_4 a)) + ucast SECP256K1_N_4,
             ucast (NOT (d_5 a)) + ucast SECP256K1_N_5,
             ucast (NOT (d_6 a)) + ucast SECP256K1_N_6,
             ucast (NOT (d_7 a)) + ucast SECP256K1_N_7]
      in scalar_of ds)"

definition secp256k1_scalar_is_one :: "secp256k1_scalar \<Rightarrow> bool" where
  "secp256k1_scalar_is_one a \<longleftrightarrow>
     (d_0 a XOR 1) OR d_1 a OR d_2 a OR d_3 a OR d_4 a OR d_5 a OR d_6 a OR d_7 a = 0"

definition secp256k1_scalar_is_high :: "secp256k1_scalar \<Rightarrow> u32" where
  "secp256k1_scalar_is_high a =
     (let yes = 0; no = 0;
          no = no OR of_bool (d_7 a < SECP256K1_N_H_7);
          yes = yes OR (of_bool (d_7 a > SECP256K1_N_H_7) AND NOT no);
          no = no OR (of_bool (d_6 a < SECP256K1_N_H_6) AND NOT yes);
          no = no OR (of_bool (d_5 a < SECP256K1_N_H_5) AND NOT yes);
          no = no OR (of_bool (d_4 a < SECP256K1_N_H_4) AND NOT yes);
          no = no OR (of_bool (d_3 a < SECP256K1_N_H_3) AND NOT yes);
          yes = yes OR (of_bool (d_3 a > SECP256K1_N_H_3) AND NOT no);
          no = no OR (of_bool (d_2 a < SECP256K1_N_H_2) AND NOT yes);
          yes = yes OR (of_bool (d_2 a > SECP256K1_N_H_2) AND NOT no);
          no = no OR (of_bool (d_1 a < SECP256K1_N_H_1) AND NOT yes);
          yes = yes OR (of_bool (d_1 a > SECP256K1_N_H_1) AND NOT no);
          yes = yes OR (of_bool (d_0 a > SECP256K1_N_H_0) AND NOT no)
      in yes)"

text \<open>The flag is C's \<open>int\<close>: 0 leaves the scalar, any other value negates it. The result is
  the scalar and the sign \<open>2 * (mask == 0) - 1\<close>.\<close>

definition secp256k1_scalar_cond_negate :: "secp256k1_scalar \<Rightarrow> u32 \<Rightarrow> secp256k1_scalar \<times> int" where
  "secp256k1_scalar_cond_negate r flag =
     (let m = (of_bool (flag = 0) - 1 :: u32);
          nonzero = 0xFFFFFFFF * of_bool (\<not> secp256k1_scalar_is_zero r);
          (ds, t) = carry32 0 nonzero
            [ucast (d_0 r XOR m) + ucast ((SECP256K1_N_0 + 1) AND m),
             ucast (d_1 r XOR m) + ucast (SECP256K1_N_1 AND m),
             ucast (d_2 r XOR m) + ucast (SECP256K1_N_2 AND m),
             ucast (d_3 r XOR m) + ucast (SECP256K1_N_3 AND m),
             ucast (d_4 r XOR m) + ucast (SECP256K1_N_4 AND m),
             ucast (d_5 r XOR m) + ucast (SECP256K1_N_5 AND m),
             ucast (d_6 r XOR m) + ucast (SECP256K1_N_6 AND m),
             ucast (d_7 r XOR m) + ucast (SECP256K1_N_7 AND m)]
      in (scalar_of ds, 2 * of_bool (m = 0) - 1))"

definition mul_512_cols :: "secp256k1_scalar \<Rightarrow> secp256k1_scalar \<Rightarrow> acc_col list" where
  "mul_512_cols a b =
    [Col_fast [Muladd_fast (d_0 a) (d_0 b)],
     Col [Muladd (d_0 a) (d_1 b), Muladd (d_1 a) (d_0 b)],
     Col [Muladd (d_0 a) (d_2 b), Muladd (d_1 a) (d_1 b), Muladd (d_2 a) (d_0 b)],
     Col [Muladd (d_0 a) (d_3 b), Muladd (d_1 a) (d_2 b), Muladd (d_2 a) (d_1 b),
       Muladd (d_3 a) (d_0 b)],
     Col [Muladd (d_0 a) (d_4 b), Muladd (d_1 a) (d_3 b), Muladd (d_2 a) (d_2 b),
       Muladd (d_3 a) (d_1 b), Muladd (d_4 a) (d_0 b)],
     Col [Muladd (d_0 a) (d_5 b), Muladd (d_1 a) (d_4 b), Muladd (d_2 a) (d_3 b),
       Muladd (d_3 a) (d_2 b), Muladd (d_4 a) (d_1 b), Muladd (d_5 a) (d_0 b)],
     Col [Muladd (d_0 a) (d_6 b), Muladd (d_1 a) (d_5 b), Muladd (d_2 a) (d_4 b),
       Muladd (d_3 a) (d_3 b), Muladd (d_4 a) (d_2 b), Muladd (d_5 a) (d_1 b),
       Muladd (d_6 a) (d_0 b)],
     Col [Muladd (d_0 a) (d_7 b), Muladd (d_1 a) (d_6 b), Muladd (d_2 a) (d_5 b),
       Muladd (d_3 a) (d_4 b), Muladd (d_4 a) (d_3 b), Muladd (d_5 a) (d_2 b),
       Muladd (d_6 a) (d_1 b), Muladd (d_7 a) (d_0 b)],
     Col [Muladd (d_1 a) (d_7 b), Muladd (d_2 a) (d_6 b), Muladd (d_3 a) (d_5 b),
       Muladd (d_4 a) (d_4 b), Muladd (d_5 a) (d_3 b), Muladd (d_6 a) (d_2 b),
       Muladd (d_7 a) (d_1 b)],
     Col [Muladd (d_2 a) (d_7 b), Muladd (d_3 a) (d_6 b), Muladd (d_4 a) (d_5 b),
       Muladd (d_5 a) (d_4 b), Muladd (d_6 a) (d_3 b), Muladd (d_7 a) (d_2 b)],
     Col [Muladd (d_3 a) (d_7 b), Muladd (d_4 a) (d_6 b), Muladd (d_5 a) (d_5 b),
       Muladd (d_6 a) (d_4 b), Muladd (d_7 a) (d_3 b)],
     Col [Muladd (d_4 a) (d_7 b), Muladd (d_5 a) (d_6 b), Muladd (d_6 a) (d_5 b),
       Muladd (d_7 a) (d_4 b)],
     Col [Muladd (d_5 a) (d_7 b), Muladd (d_6 a) (d_6 b), Muladd (d_7 a) (d_5 b)],
     Col [Muladd (d_6 a) (d_7 b), Muladd (d_7 a) (d_6 b)],
     Col_fast [Muladd_fast (d_7 a) (d_7 b)]]"

definition secp256k1_scalar_mul_512 :: "secp256k1_scalar \<Rightarrow> secp256k1_scalar \<Rightarrow> u32 list" where
  "secp256k1_scalar_mul_512 a b =
     (let (l, (c0, c1, c2)) = exec_cols (mul_512_cols a b) (0, 0, 0) in l @ [c0])"

definition sqr_512_cols :: "secp256k1_scalar \<Rightarrow> acc_col list" where
  "sqr_512_cols a =
    [Col_fast [Muladd_fast (d_0 a) (d_0 a)],
     Col [Muladd2 (d_0 a) (d_1 a)],
     Col [Muladd2 (d_0 a) (d_2 a), Muladd (d_1 a) (d_1 a)],
     Col [Muladd2 (d_0 a) (d_3 a), Muladd2 (d_1 a) (d_2 a)],
     Col [Muladd2 (d_0 a) (d_4 a), Muladd2 (d_1 a) (d_3 a), Muladd (d_2 a) (d_2 a)],
     Col [Muladd2 (d_0 a) (d_5 a), Muladd2 (d_1 a) (d_4 a), Muladd2 (d_2 a) (d_3 a)],
     Col [Muladd2 (d_0 a) (d_6 a), Muladd2 (d_1 a) (d_5 a), Muladd2 (d_2 a) (d_4 a),
       Muladd (d_3 a) (d_3 a)],
     Col [Muladd2 (d_0 a) (d_7 a), Muladd2 (d_1 a) (d_6 a), Muladd2 (d_2 a) (d_5 a),
       Muladd2 (d_3 a) (d_4 a)],
     Col [Muladd2 (d_1 a) (d_7 a), Muladd2 (d_2 a) (d_6 a), Muladd2 (d_3 a) (d_5 a),
       Muladd (d_4 a) (d_4 a)],
     Col [Muladd2 (d_2 a) (d_7 a), Muladd2 (d_3 a) (d_6 a), Muladd2 (d_4 a) (d_5 a)],
     Col [Muladd2 (d_3 a) (d_7 a), Muladd2 (d_4 a) (d_6 a), Muladd (d_5 a) (d_5 a)],
     Col [Muladd2 (d_4 a) (d_7 a), Muladd2 (d_5 a) (d_6 a)],
     Col [Muladd2 (d_5 a) (d_7 a), Muladd (d_6 a) (d_6 a)],
     Col [Muladd2 (d_6 a) (d_7 a)],
     Col_fast [Muladd_fast (d_7 a) (d_7 a)]]"

definition secp256k1_scalar_sqr_512 :: "secp256k1_scalar \<Rightarrow> u32 list" where
  "secp256k1_scalar_sqr_512 a =
     (let (l, (c0, c1, c2)) = exec_cols (sqr_512_cols a) (0, 0, 0) in l @ [c0])"

text \<open>\<open>m[0..12] = l[0..7] + n[0..7] * SECP256K1_N_C\<close>: the macro code of the first reduction.\<close>

definition reduce_512_cols1 :: "u32 list \<Rightarrow> acc_col list" where
  "reduce_512_cols1 l =
    (let n0 = l ! 8; n1 = l ! 9; n2 = l ! 10; n3 = l ! 11;
         n4 = l ! 12; n5 = l ! 13; n6 = l ! 14; n7 = l ! 15
     in [Col_fast [Muladd_fast n0 SECP256K1_N_C_0],
         Col [Sumadd_fast (l ! 1), Muladd n1 SECP256K1_N_C_0, Muladd n0 SECP256K1_N_C_1],
         Col [Sumadd (l ! 2), Muladd n2 SECP256K1_N_C_0, Muladd n1 SECP256K1_N_C_1,
           Muladd n0 SECP256K1_N_C_2],
         Col [Sumadd (l ! 3), Muladd n3 SECP256K1_N_C_0, Muladd n2 SECP256K1_N_C_1,
           Muladd n1 SECP256K1_N_C_2, Muladd n0 SECP256K1_N_C_3],
         Col [Sumadd (l ! 4), Muladd n4 SECP256K1_N_C_0, Muladd n3 SECP256K1_N_C_1,
           Muladd n2 SECP256K1_N_C_2, Muladd n1 SECP256K1_N_C_3, Sumadd n0],
         Col [Sumadd (l ! 5), Muladd n5 SECP256K1_N_C_0, Muladd n4 SECP256K1_N_C_1,
           Muladd n3 SECP256K1_N_C_2, Muladd n2 SECP256K1_N_C_3, Sumadd n1],
         Col [Sumadd (l ! 6), Muladd n6 SECP256K1_N_C_0, Muladd n5 SECP256K1_N_C_1,
           Muladd n4 SECP256K1_N_C_2, Muladd n3 SECP256K1_N_C_3, Sumadd n2],
         Col [Sumadd (l ! 7), Muladd n7 SECP256K1_N_C_0, Muladd n6 SECP256K1_N_C_1,
           Muladd n5 SECP256K1_N_C_2, Muladd n4 SECP256K1_N_C_3, Sumadd n3],
         Col [Muladd n7 SECP256K1_N_C_1, Muladd n6 SECP256K1_N_C_2, Muladd n5 SECP256K1_N_C_3,
           Sumadd n4],
         Col [Muladd n7 SECP256K1_N_C_2, Muladd n6 SECP256K1_N_C_3, Sumadd n5],
         Col [Muladd n7 SECP256K1_N_C_3, Sumadd n6],
         Col_fast [Sumadd_fast n7]])"

text \<open>\<open>p[0..8] = m[0..7] + m[8..12] * SECP256K1_N_C\<close>: the second reduction.\<close>

definition reduce_512_cols2 :: "u32 list \<Rightarrow> acc_col list" where
  "reduce_512_cols2 m =
    (let m1 = m ! 1; m2 = m ! 2; m3 = m ! 3; m4 = m ! 4; m5 = m ! 5; m6 = m ! 6;
         m7 = m ! 7; m8 = m ! 8; m9 = m ! 9; m10 = m ! 10; m11 = m ! 11; m12 = m ! 12
     in [Col_fast [Muladd_fast m8 SECP256K1_N_C_0],
         Col [Sumadd_fast m1, Muladd m9 SECP256K1_N_C_0, Muladd m8 SECP256K1_N_C_1],
         Col [Sumadd m2, Muladd m10 SECP256K1_N_C_0, Muladd m9 SECP256K1_N_C_1,
           Muladd m8 SECP256K1_N_C_2],
         Col [Sumadd m3, Muladd m11 SECP256K1_N_C_0, Muladd m10 SECP256K1_N_C_1,
           Muladd m9 SECP256K1_N_C_2, Muladd m8 SECP256K1_N_C_3],
         Col [Sumadd m4, Muladd m12 SECP256K1_N_C_0, Muladd m11 SECP256K1_N_C_1,
           Muladd m10 SECP256K1_N_C_2, Muladd m9 SECP256K1_N_C_3, Sumadd m8],
         Col [Sumadd m5, Muladd m12 SECP256K1_N_C_1, Muladd m11 SECP256K1_N_C_2,
           Muladd m10 SECP256K1_N_C_3, Sumadd m9],
         Col [Sumadd m6, Muladd m12 SECP256K1_N_C_2, Muladd m11 SECP256K1_N_C_3, Sumadd m10],
         Col_fast [Sumadd_fast m7, Muladd_fast m12 SECP256K1_N_C_3, Sumadd_fast m11]])"

definition secp256k1_scalar_reduce_512 :: "u32 list \<Rightarrow> secp256k1_scalar" where
  "secp256k1_scalar_reduce_512 l =
     (let (ms, (c0, c1, c2)) = exec_cols (reduce_512_cols1 l) (l ! 0, 0, 0);
          m = ms @ [c0];
          (p, (c0, c1, c2)) = exec_cols (reduce_512_cols2 m) (m ! 0, 0, 0);
          p8 = c0 + m ! 12;
          (ds, c) = carry32 0 0xFFFFFFFF
            [ucast (p ! 0) + ucast SECP256K1_N_C_0 * ucast p8,
             ucast (p ! 1) + ucast SECP256K1_N_C_1 * ucast p8,
             ucast (p ! 2) + ucast SECP256K1_N_C_2 * ucast p8,
             ucast (p ! 3) + ucast SECP256K1_N_C_3 * ucast p8,
             ucast (p ! 4) + ucast p8,
             ucast (p ! 5), ucast (p ! 6), ucast (p ! 7)];
          r = scalar_of ds
      in fst (secp256k1_scalar_reduce r (ucast (c + ucast (secp256k1_scalar_check_overflow r)))))"

definition secp256k1_scalar_mul :: "secp256k1_scalar \<Rightarrow> secp256k1_scalar \<Rightarrow> secp256k1_scalar" where
  "secp256k1_scalar_mul a b = secp256k1_scalar_reduce_512 (secp256k1_scalar_mul_512 a b)"

definition secp256k1_scalar_shr_int :: "secp256k1_scalar \<Rightarrow> nat \<Rightarrow> secp256k1_scalar \<times> u32" where
  "secp256k1_scalar_shr_int r n =
     (let ret = d_0 r AND (push_bit n 1 - 1)
      in (\<lparr>d_0 = drop_bit n (d_0 r) + push_bit (32 - n) (d_1 r),
           d_1 = drop_bit n (d_1 r) + push_bit (32 - n) (d_2 r),
           d_2 = drop_bit n (d_2 r) + push_bit (32 - n) (d_3 r),
           d_3 = drop_bit n (d_3 r) + push_bit (32 - n) (d_4 r),
           d_4 = drop_bit n (d_4 r) + push_bit (32 - n) (d_5 r),
           d_5 = drop_bit n (d_5 r) + push_bit (32 - n) (d_6 r),
           d_6 = drop_bit n (d_6 r) + push_bit (32 - n) (d_7 r),
           d_7 = drop_bit n (d_7 r)\<rparr>, ret))"

definition secp256k1_scalar_sqr :: "secp256k1_scalar \<Rightarrow> secp256k1_scalar" where
  "secp256k1_scalar_sqr a = secp256k1_scalar_reduce_512 (secp256k1_scalar_sqr_512 a)"

definition secp256k1_scalar_split_128 :: "secp256k1_scalar \<Rightarrow> secp256k1_scalar \<times> secp256k1_scalar" where
  "secp256k1_scalar_split_128 a =
     (\<lparr>d_0 = d_0 a, d_1 = d_1 a, d_2 = d_2 a, d_3 = d_3 a, d_4 = 0, d_5 = 0, d_6 = 0, d_7 = 0\<rparr>,
      \<lparr>d_0 = d_4 a, d_1 = d_5 a, d_2 = d_6 a, d_3 = d_7 a, d_4 = 0, d_5 = 0, d_6 = 0, d_7 = 0\<rparr>)"

definition secp256k1_scalar_eq :: "secp256k1_scalar \<Rightarrow> secp256k1_scalar \<Rightarrow> bool" where
  "secp256k1_scalar_eq a b \<longleftrightarrow>
     (d_0 a XOR d_0 b) OR (d_1 a XOR d_1 b) OR (d_2 a XOR d_2 b) OR (d_3 a XOR d_3 b) OR
     (d_4 a XOR d_4 b) OR (d_5 a XOR d_5 b) OR (d_6 a XOR d_6 b) OR (d_7 a XOR d_7 b) = 0"

definition shifted_limb :: "u32 list \<Rightarrow> nat \<Rightarrow> nat \<Rightarrow> u32" where
  "shifted_limb l shift i =
     (let shiftlimbs = shift div 32; shiftlow = shift mod 32; shifthigh = 32 - shiftlow
      in if shift < 512 - 32 * i
         then drop_bit shiftlow (l ! (i + shiftlimbs)) OR
              (if i < 7 \<and> shift < 480 - 32 * i \<and> shiftlow \<noteq> 0
               then push_bit shifthigh (l ! (Suc i + shiftlimbs)) else 0)
         else 0)"

definition secp256k1_scalar_mul_shift_var ::
  "secp256k1_scalar \<Rightarrow> secp256k1_scalar \<Rightarrow> nat \<Rightarrow> secp256k1_scalar" where
  "secp256k1_scalar_mul_shift_var a b shift =
     (let l = secp256k1_scalar_mul_512 a b;
          r = scalar_of (map (shifted_limb l shift) [0..<8])
      in secp256k1_scalar_cadd_bit r 0
           (drop_bit ((shift - 1) mod 32) (l ! ((shift - 1) div 32)) AND 1))"

subsection \<open>Values\<close>

lemma length_scalar_limbs [simp]: "length (scalar_limbs a) = 8"
  by (simp add: scalar_limbs_def)

lemma scalar_val_of: "length ds = 8 \<Longrightarrow> scalar_val (scalar_of ds) = lval 32 ds"
proof -
  assume "length ds = 8"
  then have "scalar_limbs (scalar_of ds) = ds"
    by (intro nth_equalityI) (auto simp: scalar_limbs_def scalar_of_def less_Suc_eq numeral_eq_Suc)
  then show ?thesis by (simp add: scalar_val_def)
qed

lemma scalar_val_bounds: "0 \<le> scalar_val a" "scalar_val a < 2 ^ 256"
proof -
  show "0 \<le> scalar_val a" by (simp add: scalar_val_def)
  have "lval 32 (scalar_limbs a) < 2 ^ (32 * length (scalar_limbs a))"
    by (rule lval_bound) (simp add: uint_u32_less)
  then show "scalar_val a < 2 ^ 256" by (simp add: scalar_val_def)
qed

lemma scalar_val_inject: "scalar_val a = scalar_val b \<longleftrightarrow> a = b"
proof
  assume "scalar_val a = scalar_val b"
  then have "scalar_limbs a = scalar_limbs b"
    unfolding scalar_val_def by (intro lval_inject [where k = 32]) (simp_all add: uint_u32_less)
  then show "a = b" by (simp add: scalar_limbs_def)
qed simp

lemma order_val:
  "lval 32 [SECP256K1_N_0, SECP256K1_N_1, SECP256K1_N_2, SECP256K1_N_3,
     SECP256K1_N_4, SECP256K1_N_5, SECP256K1_N_6, SECP256K1_N_7] = secp256k1_n"
  by (simp add: order_limbs secp256k1_n_def)

lemma half_order_val:
  "lval 32 [SECP256K1_N_H_0, SECP256K1_N_H_1, SECP256K1_N_H_2, SECP256K1_N_H_3,
     SECP256K1_N_H_4, SECP256K1_N_H_5, SECP256K1_N_H_6, SECP256K1_N_H_7] = secp256k1_n div 2"
  by (simp add: half_order_limbs secp256k1_n_def)

lemma compl_val:
  "lval 32 [SECP256K1_N_C_0, SECP256K1_N_C_1, SECP256K1_N_C_2, SECP256K1_N_C_3, SECP256K1_N_C_4] = n_compl"
  by (simp add: order_compl_limbs order_limbs secp256k1_n_def n_compl_def)

subsection \<open>Comparison from the top limb down\<close>

lemma lval32_Cons: "lval 32 (x # xs) = uint x + 4294967296 * lval 32 xs"
  by simp

lemma lval_less_Cons:
  fixes x y :: u32
  shows "lval 32 (x # xs) < lval 32 (y # ys) \<longleftrightarrow> lval 32 xs < lval 32 ys \<or> lval 32 xs = lval 32 ys \<and> x < y"
proof (cases "lval 32 xs" "lval 32 ys" rule: linorder_cases)
  case less
  then have "lval 32 xs + 1 \<le> lval 32 ys" by simp
  with less show ?thesis
    using uint_u32_less [of x] uint_ge_0 [of y] unfolding lval32_Cons by linarith
next
  case equal
  then show ?thesis by (simp add: word_less_def)
next
  case greater
  then have "lval 32 ys + 1 \<le> lval 32 xs" by simp
  with greater show ?thesis
    using uint_u32_less [of y] uint_ge_0 [of x] unfolding lval32_Cons by linarith
qed

text \<open>The two flags \<open>no\<close> and \<open>yes\<close> of the constant-time comparisons say that the limbs seen so
  far are below, respectively above, those of the constant.\<close>

lemma no_step:
  fixes x y :: u32
  shows "of_bool (lval 32 xs < lval 32 ys) OR (of_bool (x < y) AND NOT (of_bool (lval 32 ys < lval 32 xs)))
    = (of_bool (lval 32 (x # xs) < lval 32 (y # ys)) :: u32)"
  unfolding flag_simps lval_less_Cons by (intro arg_cong [where f = of_bool]) auto

lemma yes_step:
  fixes x y :: u32
  shows "of_bool (lval 32 ys < lval 32 xs) OR (of_bool (y < x) AND NOT (of_bool (lval 32 (x # xs) < lval 32 (y # ys))))
    = (of_bool (lval 32 (y # ys) < lval 32 (x # xs)) :: u32)"
  unfolding flag_simps lval_less_Cons by (intro arg_cong [where f = of_bool]) auto

lemma last_step:
  fixes x y :: u32
  shows "of_bool (lval 32 ys < lval 32 xs) OR (of_bool (y \<le> x) AND NOT (of_bool (lval 32 xs < lval 32 ys)))
    = (of_bool (lval 32 (y # ys) \<le> lval 32 (x # xs)) :: u32)"
  unfolding flag_simps not_less [symmetric, of _ x] not_less [symmetric, of _ "lval 32 (x # xs)"] lval_less_Cons
  by (intro arg_cong [where f = of_bool]) auto

lemma no_step_le:
  fixes x y :: u32
  assumes "lval 32 xs \<le> lval 32 ys"
  shows "of_bool (lval 32 xs < lval 32 ys) OR of_bool (x < y) = (of_bool (lval 32 (x # xs) < lval 32 (y # ys)) :: u32)"
    and "(\<And>w. w \<le> y) \<Longrightarrow> lval 32 (x # xs) \<le> lval 32 (y # ys)"
  using assms unfolding flag_simps not_less [symmetric] lval_less_Cons by auto

lemma yes_step_le:
  fixes x y :: u32
  assumes "lval 32 xs \<le> lval 32 ys"
  shows "0 OR (of_bool (y < x) AND NOT (of_bool (lval 32 (x # xs) < lval 32 (y # ys))))
    = (of_bool (lval 32 (y # ys) < lval 32 (x # xs)) :: u32)"
  using assms unfolding flag_simps lval_less_Cons by auto

lemma no_init: "(0 :: u32) = of_bool (lval 32 ([] :: u32 list) < lval 32 ([] :: u32 list))"
  by simp

lemma secp256k1_scalar_check_overflow_eq:
  "secp256k1_scalar_check_overflow a = of_bool (secp256k1_n \<le> scalar_val a)"
proof -
  have top: "w \<le> SECP256K1_N_7" "w \<le> SECP256K1_N_6" "w \<le> SECP256K1_N_5" for w :: u32
    using uint_u32_less [of w] by (simp_all add: order_limbs word_le_def)
  have le0: "lval 32 ([] :: u32 list) \<le> lval 32 ([] :: u32 list)" by simp
  note le1 = no_step_le(2) [OF le0 top(1), of "d_7 a"]
  note le2 = no_step_le(2) [OF le1 top(2), of "d_6 a"]
  note le3 = no_step_le(2) [OF le2 top(3), of "d_5 a"]
  have no: "0 OR of_bool (d_7 a < SECP256K1_N_7) = (of_bool (lval 32 [d_7 a] < lval 32 [SECP256K1_N_7]) :: u32)"
    by (subst no_init) (rule no_step_le(1) [OF le0])
  show ?thesis
    unfolding secp256k1_scalar_check_overflow_def Let_def no no_step_le(1) [OF le1] no_step_le(1) [OF le2]
      no_step_le(1) [OF le3] yes_step_le [OF le3] no_step yes_step last_step
    by (simp only: scalar_val_def scalar_limbs_def order_val)
qed

lemma secp256k1_scalar_is_high_eq:
  "secp256k1_scalar_is_high a = of_bool (secp256k1_n div 2 < scalar_val a)"
proof -
  have top: "\<not> SECP256K1_N_H_6 < w" "\<not> SECP256K1_N_H_5 < w" "\<not> SECP256K1_N_H_4 < w" for w :: u32
    using uint_u32_less [of w] by (simp_all add: half_order_limbs word_less_def)
  have yes: "(of_bool (lval 32 ys < lval 32 xs) :: u32) = of_bool (lval 32 (y # ys) < lval 32 (x # xs))"
    if "\<not> y < x" for x y :: u32 and xs ys
    using that by (simp only: lval_less_Cons) simp
  have le0: "lval 32 ([] :: u32 list) \<le> lval 32 ([] :: u32 list)" by simp
  have no: "0 OR of_bool (d_7 a < SECP256K1_N_H_7) = (of_bool (lval 32 [d_7 a] < lval 32 [SECP256K1_N_H_7]) :: u32)"
    by (subst no_init) (rule no_step_le(1) [OF le0])
  note y6 = yes [OF top(1), of "[SECP256K1_N_H_7]" "[d_7 a]" "d_6 a"]
  note y5 = trans [OF y6 yes [OF top(2), of _ _ "d_5 a"]]
  note y4 = trans [OF y5 yes [OF top(3), of _ _ "d_4 a"]]
  note no5 = no_step [of "[d_6 a, d_7 a]" "[SECP256K1_N_H_6, SECP256K1_N_H_7]", folded y6]
  note no4 = no_step [of "[d_5 a, d_6 a, d_7 a]" "[SECP256K1_N_H_5, SECP256K1_N_H_6, SECP256K1_N_H_7]", folded y5]
  show ?thesis
    unfolding secp256k1_scalar_is_high_def Let_def no yes_step_le [OF le0] 
      no_step no5 no4
    unfolding y4 no_step yes_step
    by (simp only: scalar_val_def scalar_limbs_def half_order_val)
qed

subsection \<open>The carry chain adds exactly\<close>

definition small64 :: "u64 \<Rightarrow> bool" where
  "small64 x \<longleftrightarrow> uint x \<le> 18446744069414584320"

lemma carry32_full:
  assumes "uint t < 4294967296" and "list_all small64 xs"
    and "carry32 t 0xFFFFFFFF xs = (ds, t')"
  shows "length ds = length xs"
    and "lval 32 ds + 4294967296 ^ length xs * uint t' = uint t + lval 32 xs"
    and "uint t' < 4294967296"
proof -
  have "length ds = length xs \<and> uint t' < 4294967296 \<and>
    lval 32 ds + 4294967296 ^ length xs * uint t' = uint t + lval 32 xs"
    using assms
  proof (induction xs arbitrary: t ds)
    case Nil
    then show ?case by simp
  next
    case (Cons x xs)
    have tx: "uint (t + x) = uint t + uint x"
      using Cons.prems(1,2) by (simp add: uint_plus_if_size word_size small64_def)
    obtain es where rest: "carry32 (drop_bit 32 (t + x)) 0xFFFFFFFF xs = (es, t')"
      and ds: "ds = ucast ((t + x) AND 0xFFFFFFFF) # es"
      using Cons.prems(3) by (auto simp: Let_def split: prod.splits)
    have m: "(4294967295 :: u64) = mask 32" by (simp add: mask_eq_exp_minus_1)
    have d: "uint (ucast ((t + x) AND 0xFFFFFFFF) :: u32) = uint (t + x) mod 4294967296"
      unfolding m by (simp add: uint_trunc uint_mask)
    have s: "uint (drop_bit 32 (t + x)) = uint (t + x) div 4294967296"
      by (simp add: uint_shr)
    then have "uint (drop_bit 32 (t + x)) < 4294967296"
      using uint_u64_less [of "t + x"] by (simp add: div_less_iff_less_mult)
    from Cons.IH [OF this _ rest] Cons.prems(2)
    have IH: "length es = length xs" "uint t' < 4294967296"
      "lval 32 es + 4294967296 ^ length xs * uint t' = uint (t + x) div 4294967296 + lval 32 xs"
      unfolding s by simp_all
    have "lval 32 ds + 4294967296 ^ length (x # xs) * uint t' =
        uint (t + x) mod 4294967296 + 4294967296 * (lval 32 es + 4294967296 ^ length xs * uint t')"
      by (simp add: ds d algebra_simps)
    also have "\<dots> = uint (t + x) + 4294967296 * lval 32 xs"
      unfolding IH(3) distrib_left by simp
    also have "\<dots> = uint t + lval 32 (x # xs)"
      using tx by simp
    finally show ?case using IH(1,2) by (simp add: ds)
  qed
  then show "length ds = length xs"
    "lval 32 ds + 4294967296 ^ length xs * uint t' = uint t + lval 32 xs" "uint t' < 4294967296"
    by auto
qed

lemma carry32_zero: "fst (carry32 t 0 xs) = replicate (length xs) 0"
  by (induction xs arbitrary: t) (auto simp: Let_def case_prod_beta)

declare carry32.simps [simp del]

text \<open>The shape all uses share: eight addends, no incoming carry, a scalar as the result.\<close>

lemma carry32_scalar:
  assumes "carry32 0 0xFFFFFFFF xs = (ds, t)" and "length xs = 8"
    and "list_all small64 xs"
  shows "scalar_val (scalar_of ds) + 2 ^ 256 * uint t = lval 32 xs" and "uint t < 4294967296"
proof -
  note c = carry32_full [OF _ assms(3,1)]
  have "lval 32 ds + 2 ^ 256 * uint t = lval 32 xs"
    using c(2) by (simp add: assms(2))
  then show "scalar_val (scalar_of ds) + 2 ^ 256 * uint t = lval 32 xs"
    using c(1) assms(2) by (simp add: scalar_val_of)
  show "uint t < 4294967296" using c(3) by simp
qed

lemma uint_ucast_add:
  fixes x y :: u32
  shows "uint (ucast x + ucast y :: u64) = uint x + uint y"
proof -
  have "fits (ucast x + ucast y :: u64) (uint x + uint y) (4294967295 + 4294967295)"
    by (rule fits_rules fits_u32 | simp)+
  then show ?thesis by (simp add: fits_def)
qed

lemma uint_ucast_u64: "uint (ucast (x :: u32) :: u64) = uint x"
  using uint_u32_less [of x] by (simp add: uint_trunc)

lemmas addend_val = uint_ucast_add uint_ucast_u64

lemma small64_add [simp]: "small64 (ucast (x :: u32) + ucast (y :: u32))"
  using uint_u32_less [of x] uint_u32_less [of y] by (simp add: small64_def uint_ucast_add)

lemma small64_ucast [simp]: "small64 (ucast (x :: u32))"
  using uint_u32_less [of x] by (simp add: small64_def uint_ucast_u64)

lemma word_le_1_iff: "(w :: u32) \<le> 1 \<longleftrightarrow> w = 0 \<or> w = 1"
proof -
  have "uint w \<le> 1 \<longleftrightarrow> uint w = 0 \<or> uint w = 1" using uint_ge_0 [of w] by linarith
  then show ?thesis by (simp add: word_le_def word_uint_eq_iff)
qed

lemma secp256k1_scalar_reduce_val:
  assumes "secp256k1_scalar_reduce r overflow = (r', ov)" and "overflow \<le> 1"
  shows "ov = overflow"
    and "scalar_val r' = (scalar_val r + uint overflow * n_compl) mod 2 ^ 256"
proof -
  from assms(1) obtain ds t where c: "carry32 0 0xFFFFFFFF
            [ucast (d_0 r) + ucast (overflow * SECP256K1_N_C_0),
             ucast (d_1 r) + ucast (overflow * SECP256K1_N_C_1),
             ucast (d_2 r) + ucast (overflow * SECP256K1_N_C_2),
             ucast (d_3 r) + ucast (overflow * SECP256K1_N_C_3),
             ucast (d_4 r) + ucast (overflow * SECP256K1_N_C_4),
             ucast (d_5 r), ucast (d_6 r), ucast (d_7 r)] = (ds, t)"
    and r': "r' = scalar_of ds" and ov: "ov = overflow"
    by (auto simp: secp256k1_scalar_reduce_def split: prod.splits)
  show "ov = overflow" by (rule ov)
  have "overflow = 0 \<or> overflow = 1" using assms(2) by (simp only: word_le_1_iff)
  then have "scalar_val r' + 2 ^ 256 * uint t = scalar_val r + uint overflow * n_compl"
    unfolding r' using carry32_scalar(1) [OF c]
    by (elim disjE) (simp_all add: addend_val scalar_val_def scalar_limbs_def compl_val [symmetric])
  then have "scalar_val r' = scalar_val r + uint overflow * n_compl - 2 ^ 256 * uint t" by simp
  then show "scalar_val r' = (scalar_val r + uint overflow * n_compl) mod 2 ^ 256"
    using scalar_val_bounds [of r'] mod_unique [of _ "scalar_val r'" "2 ^ 256" "uint t"] by simp
qed

lemma order_bounds: "secp256k1_n < 2 ^ 256" "2 ^ 256 < 2 * secp256k1_n" "0 < secp256k1_n"
  "n_compl = 2 ^ 256 - secp256k1_n" "n_compl < 2 ^ 129"
  by (simp_all add: secp256k1_n_def n_compl_def)

text \<open>The final conditional subtraction of the order, shared by addition and by the 512-bit
  reduction: a value below twice the order, as a scalar and a carry word.\<close>

lemma final_reduce:
  fixes t :: u64
  assumes V: "V = scalar_val r + 2 ^ 256 * uint t" and less: "V < 2 * secp256k1_n"
  defines "overflow \<equiv> (ucast (t + ucast (secp256k1_scalar_check_overflow r)) :: u32)"
  shows "overflow = of_bool (secp256k1_n \<le> V)"
    and "scalar_val (fst (secp256k1_scalar_reduce r overflow)) = V mod secp256k1_n"
proof -
  note b = scalar_val_bounds [of r] order_bounds
  have "uint t < 2" using V less b by simp
  then have "uint t = 0 \<or> uint t = 1" using uint_ge_0 [of t] by linarith
  then have t: "t = 0 \<or> t = 1" by (simp add: word_uint_eq_iff)
  have val: "scalar_val (fst (secp256k1_scalar_reduce r ov)) = (scalar_val r + uint ov * n_compl) mod 2 ^ 256"
    if "ov \<le> 1" for ov
    using secp256k1_scalar_reduce_val(2) [OF _ that, of r "fst (secp256k1_scalar_reduce r ov)" ov]
    by (simp add: secp256k1_scalar_reduce_def split: prod.splits)
  have "overflow = of_bool (secp256k1_n \<le> V) \<and>
    scalar_val (fst (secp256k1_scalar_reduce r overflow)) = V mod secp256k1_n"
    using t
  proof
    assume t: "t = 0"
    then have o: "overflow = of_bool (secp256k1_n \<le> V)" and V: "V = scalar_val r"
      by (simp_all add: overflow_def secp256k1_scalar_check_overflow_eq V)
    show ?thesis
    proof (cases "secp256k1_n \<le> V")
      case True
      then have "(scalar_val r + n_compl) mod 2 ^ 256 = V - secp256k1_n"
        using V less b by (intro mod_unique [where k = 1]) auto
      moreover have "V mod secp256k1_n = V - secp256k1_n"
        using True less by (intro mod_unique [where k = 1]) auto
      ultimately show ?thesis using True val [of 1] by (simp add: o)
    next
      case False
      then show ?thesis using val [of 0] V b by (simp add: o)
    qed
  next
    assume t: "t = 1"
    then have V: "V = scalar_val r + 2 ^ 256" by (simp add: V)
    then have "\<not> secp256k1_n \<le> scalar_val r" using less b by linarith
    then have o: "overflow = 1" by (simp add: overflow_def secp256k1_scalar_check_overflow_eq t)
    have "(scalar_val r + n_compl) mod 2 ^ 256 = V - secp256k1_n"
      using V less b by (intro mod_unique [where k = 0]) auto
    moreover have "V mod secp256k1_n = V - secp256k1_n"
      using V less b by (intro mod_unique [where k = 1]) auto
    ultimately show ?thesis using val [of 1] V b by (simp add: o)
  qed
  then show "overflow = of_bool (secp256k1_n \<le> V)"
    and "scalar_val (fst (secp256k1_scalar_reduce r overflow)) = V mod secp256k1_n" by auto
qed

lemma scalar_val_list:
  "scalar_val a = lval 32 [d_0 a, d_1 a, d_2 a, d_3 a, d_4 a, d_5 a, d_6 a, d_7 a]"
  by (simp add: scalar_val_def scalar_limbs_def)

lemma secp256k1_scalar_add_val:
  assumes "scalar_val a + scalar_val b < 2 * secp256k1_n" and "secp256k1_scalar_add a b = (r, overflow)"
  shows "scalar_val r = (scalar_val a + scalar_val b) mod secp256k1_n"
    and "overflow = of_bool (secp256k1_n \<le> scalar_val a + scalar_val b)"
proof -
  obtain ds t where c: "carry32 0 0xFFFFFFFF
            [ucast (d_0 a) + ucast (d_0 b), ucast (d_1 a) + ucast (d_1 b),
             ucast (d_2 a) + ucast (d_2 b), ucast (d_3 a) + ucast (d_3 b),
             ucast (d_4 a) + ucast (d_4 b), ucast (d_5 a) + ucast (d_5 b),
             ucast (d_6 a) + ucast (d_6 b), ucast (d_7 a) + ucast (d_7 b)] = (ds, t)"
    by (rule prod.exhaust)
  have "scalar_val a + scalar_val b = scalar_val (scalar_of ds) + 2 ^ 256 * uint t"
    using carry32_scalar(1) [OF c] by (simp add: scalar_val_list [of a] scalar_val_list [of b] addend_val)
  from final_reduce [OF this assms(1)] assms(2)
  show "scalar_val r = (scalar_val a + scalar_val b) mod secp256k1_n"
    and "overflow = of_bool (secp256k1_n \<le> scalar_val a + scalar_val b)"
    unfolding secp256k1_scalar_add_def c by (auto simp: Let_def)
qed

lemma secp256k1_scalar_is_zero_eq: "secp256k1_scalar_is_zero a \<longleftrightarrow> scalar_val a = 0"
proof -
  have "scalar_val secp256k1_scalar_clear = 0"
    by (simp add: scalar_val_list secp256k1_scalar_clear_def)
  then have "scalar_val a = 0 \<longleftrightarrow> a = secp256k1_scalar_clear"
    using scalar_val_inject [of a secp256k1_scalar_clear] by simp
  then show ?thesis
    by (cases a) (simp add: secp256k1_scalar_is_zero_def secp256k1_scalar_clear_def or_eq_0_iff)
qed

lemma uint_not: "uint (NOT x) = 4294967295 - uint (x :: u32)"
proof -
  have m1: "uint (- 1 :: u32) = 4294967295"
    by (simp add: unsigned_minus_1_eq_mask mask_eq_exp_minus_1)
  have "NOT x = - 1 - x" by (simp add: not_eq_complement)
  moreover have "uint (- 1 - x) = uint (- 1 :: u32) - uint x"
    by (rule uint_sub_lem [THEN iffD1]) (simp add: uint_u32_less less_imp_le word_le_def [symmetric])
  ultimately show ?thesis using m1 by simp
qed

lemma secp256k1_scalar_negate_val:
  assumes "scalar_val a < secp256k1_n"
  shows "scalar_val (secp256k1_scalar_negate a) = (- scalar_val a) mod secp256k1_n"
proof (cases "secp256k1_scalar_is_zero a")
  case True
  then show ?thesis
    by (simp add: secp256k1_scalar_negate_def secp256k1_scalar_is_zero_eq case_prod_beta carry32_zero
        scalar_val_of)
next
  case False
  obtain ds t where c: "carry32 0 0xFFFFFFFF
            [ucast (NOT (d_0 a)) + ucast SECP256K1_N_0 + 1,
             ucast (NOT (d_1 a)) + ucast SECP256K1_N_1,
             ucast (NOT (d_2 a)) + ucast SECP256K1_N_2,
             ucast (NOT (d_3 a)) + ucast SECP256K1_N_3,
             ucast (NOT (d_4 a)) + ucast SECP256K1_N_4,
             ucast (NOT (d_5 a)) + ucast SECP256K1_N_5,
             ucast (NOT (d_6 a)) + ucast SECP256K1_N_6,
             ucast (NOT (d_7 a)) + ucast SECP256K1_N_7] = (ds, t)"
    by (rule prod.exhaust)
  have first: "ucast (NOT (d_0 a)) + ucast SECP256K1_N_0 + 1 = (ucast (NOT (d_0 a)) + ucast (SECP256K1_N_0 + 1) :: u64)"
    and one: "uint (SECP256K1_N_0 + 1) = uint SECP256K1_N_0 + 1"
    by (simp_all add: order_limbs)
  have "scalar_val (scalar_of ds) + 2 ^ 256 * uint t = 2 ^ 256 + (secp256k1_n - scalar_val a)"
    using carry32_scalar(1) [OF c] unfolding first
    by (simp add: addend_val uint_not one scalar_val_list [of a] order_val [symmetric])
  then have eq: "scalar_val (scalar_of ds) + 2 ^ 256 * (uint t - 1) = secp256k1_n - scalar_val a" by simp
  have "0 < scalar_val a" using False scalar_val_bounds [of a] by (simp add: secp256k1_scalar_is_zero_eq)
  then have "scalar_val (scalar_of ds) = secp256k1_n - scalar_val a"
    using assms order_bounds(1) scalar_val_bounds [of "scalar_of ds"]
    by (intro residue_eq [OF eq]) linarith+
  moreover have "(- scalar_val a) mod secp256k1_n = secp256k1_n - scalar_val a"
    using assms \<open>0 < scalar_val a\<close> by (intro mod_unique [where k = "-1"]) auto
  moreover have "secp256k1_scalar_negate a = scalar_of ds"
    using False by (simp add: secp256k1_scalar_negate_def c)
  ultimately show ?thesis by simp
qed

subsection \<open>Conditional negation, conditional bit addition\<close>

lemma secp256k1_scalar_cond_negate_eq:
  "secp256k1_scalar_cond_negate r flag =
     (if flag = 0 then (r, 1) else (secp256k1_scalar_negate r, - 1))"
proof (cases "flag = 0")
  case False
  have first: "ucast (NOT (d_0 r)) + ucast SECP256K1_N_0 + 1 = (ucast (NOT (d_0 r)) + ucast (SECP256K1_N_0 + 1) :: u64)"
    by (simp add: order_limbs)
  show ?thesis
    using False unfolding secp256k1_scalar_cond_negate_def secp256k1_scalar_negate_def first Let_def
    by (simp add: case_prod_beta not_eq_complement [symmetric])
next
  case True
  obtain ds t where c: "carry32 0 0xFFFFFFFF
            [ucast (d_0 r), ucast (d_1 r), ucast (d_2 r), ucast (d_3 r),
             ucast (d_4 r), ucast (d_5 r), ucast (d_6 r), ucast (d_7 r)] = (ds, t)"
    by (rule prod.exhaust)
  have "scalar_val (scalar_of ds) + 2 ^ 256 * uint t = scalar_val r"
    using carry32_scalar(1) [OF c] by (simp add: addend_val scalar_val_list [of r])
  then have "scalar_val (scalar_of ds) = scalar_val r"
    by (rule residue_eq) (rule scalar_val_bounds)+
  then have r: "scalar_of ds = r" by (simp only: scalar_val_inject)
  show ?thesis
  proof (cases "secp256k1_scalar_is_zero r")
    case z: True
    then have "scalar_val r = scalar_val (scalar_of (replicate 8 0))"
      by (simp add: secp256k1_scalar_is_zero_eq scalar_val_of)
    then have "r = scalar_of (replicate 8 0)" by (simp only: scalar_val_inject)
    with True z show ?thesis
      by (simp add: secp256k1_scalar_cond_negate_def case_prod_beta carry32_zero eval_nat_numeral)
  next
    case False
    with True show ?thesis by (simp add: secp256k1_scalar_cond_negate_def c r)
  qed
qed

lemma uint_and_31: "uint (b AND 31 :: u32) = uint b mod 32"
  using uint_and_mask [of "31 :: u32" 5 b] by (simp add: mask_eq_exp_minus_1)

lemma uint_shl_flag:
  assumes "k < 32"
  shows "uint (push_bit k (of_bool p :: u32)) = 2 ^ k * uint (of_bool p :: u32)"
  using assms power_strict_increasing [of k 32 "2 :: int"]
  by (cases p) (simp_all only: of_bool_eq uint_shl, simp_all)

lemma one_hot:
  fixes q :: u32
  shows "lval 32 (map (\<lambda>i. of_bool (q = i) :: u32) [0, 1, 2, 3, 4, 5, 6, 7]) =
    (if uint q < 8 then 4294967296 ^ unat q else 0)"
proof (cases "uint q < 8")
  case True
  then have "uint q = 0 \<or> uint q = 1 \<or> uint q = 2 \<or> uint q = 3 \<or> uint q = 4 \<or> uint q = 5 \<or> uint q = 6 \<or> uint q = 7"
    using uint_ge_0 [of q] by linarith
  then have "q = 0 \<or> q = 1 \<or> q = 2 \<or> q = 3 \<or> q = 4 \<or> q = 5 \<or> q = 6 \<or> q = 7"
    by (simp add: word_uint_eq_iff)
  then show ?thesis by (elim disjE) simp_all
next
  case False
  then show ?thesis by auto
qed

lemma cadd_bit_position:
  assumes "b < 256" and "flag = 0 \<or> flag = 1"
  shows "2 ^ unat ((b + ((flag - 1) AND 0x100)) AND 0x1F) *
      (if uint (drop_bit 5 (b + ((flag - 1) AND 0x100)) :: u32) < 8
       then 4294967296 ^ unat (drop_bit 5 (b + ((flag - 1) AND 0x100))) else 0)
    = uint flag * (2 :: int) ^ unat b"
  using assms(2)
proof
  assume f: "flag = 1"
  have q: "unat (drop_bit 5 b) = unat b div 32" "unat (b AND 31) = unat b mod 32"
    using unat_shr [of 5 b] unat_and_mask [of "31 :: u32" 5 b] by (simp_all add: mask_eq_exp_minus_1)
  have "uint (drop_bit 5 b) < 8" using assms(1) by (simp add: uint_shr word_less_def)
  moreover have "(2 :: int) ^ (unat b mod 32) * 4294967296 ^ (unat b div 32) = 2 ^ unat b"
  proof -
    have "(2 :: int) ^ (unat b mod 32) * 4294967296 ^ (unat b div 32) = 2 ^ (unat b mod 32 + 32 * (unat b div 32))"
      unfolding power_add power_mult by simp
    then show ?thesis by simp
  qed
  ultimately show ?thesis by (simp add: f q)
next
  assume f: "flag = 0"
  have "uint (b + 0x100) = uint b + 256"
    using assms(1) by (simp add: uint_plus_if_size word_size word_less_def)
  then have "\<not> uint (drop_bit 5 (b + 0x100)) < 8"
    using zdiv_mono1 [of 256 "uint b + 256" 32] by (simp add: uint_shr)
  then show ?thesis by (simp add: f)
qed

lemma secp256k1_scalar_cadd_bit_val:
  assumes "b < 256" and "flag = 0 \<or> flag = 1"
  shows "scalar_val (secp256k1_scalar_cadd_bit r b flag) = (scalar_val r + uint flag * 2 ^ unat b) mod 2 ^ 256"
proof -
  define c where "c = b + ((flag - 1) AND 0x100)"
  define q k where "q = drop_bit 5 c" and "k = unat (c AND 0x1F)"
  have k: "k < 32"
    unfolding k_def using unat_and_mask [of "31 :: u32" 5 c] by (simp add: mask_eq_exp_minus_1)
  define ad where "ad = (\<lambda>i (d :: u32). (ucast d :: u64) + ucast (push_bit k (of_bool (q = i) :: u32)))"
  obtain ds t where cr: "carry32 0 0xFFFFFFFF [ad 0 (d_0 r), ad 1 (d_1 r), ad 2 (d_2 r), ad 3 (d_3 r),
     ad 4 (d_4 r), ad 5 (d_5 r), ad 6 (d_6 r), ad 7 (d_7 r)] = (ds, t)"
    by (rule prod.exhaust)
  have small: "small64 (ad i d)" and val: "uint (ad i d) = uint d + uint (push_bit k (of_bool (q = i) :: u32))" for i d
    by (simp_all add: ad_def addend_val)
  have r: "secp256k1_scalar_cadd_bit r b flag = scalar_of ds"
    unfolding secp256k1_scalar_cadd_bit_def Let_def c_def [symmetric]
    unfolding q_def [symmetric] k_def [symmetric] 
    using cr unfolding ad_def by simp
  have "scalar_val (scalar_of ds) + 2 ^ 256 * uint t = scalar_val r +
    2 ^ k * lval 32 (map (\<lambda>i. of_bool (q = i) :: u32) [0, 1, 2, 3, 4, 5, 6, 7])"
    using carry32_scalar(1) [OF cr]
    by (simp add: small val uint_shl_flag [OF k] scalar_val_list [of r] distrib_left mult.left_commute)
  then have eq: "scalar_val (scalar_of ds) + 2 ^ 256 * uint t = scalar_val r +
      2 ^ k * (if uint q < 8 then 4294967296 ^ unat q else 0)"
    unfolding one_hot .
  have "2 ^ k * (if uint q < 8 then 4294967296 ^ unat q else 0) = uint flag * (2 :: int) ^ unat b"
    unfolding q_def k_def c_def by (rule cadd_bit_position [OF assms])
  with eq have "scalar_val (scalar_of ds) = scalar_val r + uint flag * 2 ^ unat b - 2 ^ 256 * uint t" by simp
  then show ?thesis
    using scalar_val_bounds [of "scalar_of ds"]
    by (subst r, intro mod_unique [symmetric, where k = "uint t"]) auto
qed

subsection \<open>Bytes\<close>

lemma read_be32_val: "uint (read_be32 b3 b2 b1 b0) = be_val [b3, b2, b1, b0]"
proof -
  have 0: "fits (ucast b :: u32) (uint b) 255" for b :: u8
    using uint_u8_less [of b] by (simp add: fits_def uint_trunc)
  have 1: "fits (ucast b0 + push_bit 8 (ucast b1) :: u32) (uint b0 + uint b1 * 2 ^ 8) (255 + 255 * 2 ^ 8)"
    by (rule fits_rules 0 | simp)+
  have 2: "fits (ucast b0 + push_bit 8 (ucast b1) + push_bit 16 (ucast b2) :: u32)
    (uint b0 + uint b1 * 2 ^ 8 + uint b2 * 2 ^ 16) (255 + 255 * 2 ^ 8 + 255 * 2 ^ 16)"
    by (rule fits_rules 0 1 | simp)+
  have 3: "fits (ucast b0 + push_bit 8 (ucast b1) + push_bit 16 (ucast b2) + push_bit 24 (ucast b3) :: u32)
    (uint b0 + uint b1 * 2 ^ 8 + uint b2 * 2 ^ 16 + uint b3 * 2 ^ 24) (255 + 255 * 2 ^ 8 + 255 * 2 ^ 16 + 255 * 2 ^ 24)"
    by (rule fits_rules 0 2 | simp)+
  have o1: "ucast b0 OR push_bit 8 (ucast b1) = (ucast b0 + push_bit 8 (ucast b1) :: u32)"
    using fits_leD [OF 0, of b0] by (intro or_push_bit) (simp add: fits_uintD [OF 0])
  have o2: "(ucast b0 + push_bit 8 (ucast b1)) OR push_bit 16 (ucast b2) =
      (ucast b0 + push_bit 8 (ucast b1) + push_bit 16 (ucast b2) :: u32)"
    using fits_leD [OF 1] by (intro or_push_bit) (simp add: fits_uintD [OF 1])
  have "read_be32 b3 b2 b1 b0 = ucast b0 + push_bit 8 (ucast b1) + push_bit 16 (ucast b2) + push_bit 24 (ucast b3)"
    unfolding read_be32_def o1 o2
    using fits_leD [OF 2] by (intro or_push_bit) (simp add: fits_uintD [OF 2])
  then show ?thesis using fits_uintD [OF 3] by (simp add: be_val_def)
qed

lemma byte_split: "0 \<le> x \<Longrightarrow> x mod 256 + 256 * (x div 256) = (x :: int)"
  by simp

lemma write_be32_val: "be_val (write_be32 w) = uint w"
proof -
  define q1 where "q1 = uint w div 256"
  define q2 where "q2 = q1 div 256"
  have q: "uint w div 65536 = q2" "uint w div 16777216 = q2 div 256"
    using zdiv_zmult2_eq [of 256 "uint w" 256] zdiv_zmult2_eq [of 256 "uint w" 65536]
      zdiv_zmult2_eq [of 256 q1 256] by (simp_all add: q1_def q2_def)
  have "uint w div 16777216 < 256"
    using uint_u32_less [of w] by (simp add: div_less_iff_less_mult)
  then have "q2 div 256 mod 256 = q2 div 256"
    unfolding q(2) by (simp add: q1_def q2_def pos_imp_zdiv_nonneg_iff)
  then have "be_val (write_be32 w) = uint w mod 256 + 256 * (q1 mod 256 + 256 * (q2 mod 256 + 256 * (q2 div 256)))"
    by (simp add: be_val_def write_be32_def uint_trunc uint_shr q q1_def [symmetric])
  then show ?thesis by (simp add: q1_def q2_def)
qed

lemma nth_list_32:
  assumes "length xs = 32"
  shows "xs = [xs ! 0, xs ! 1, xs ! 2, xs ! 3] @ [xs ! 4, xs ! 5, xs ! 6, xs ! 7] @
    [xs ! 8, xs ! 9, xs ! 10, xs ! 11] @ [xs ! 12, xs ! 13, xs ! 14, xs ! 15] @
    [xs ! 16, xs ! 17, xs ! 18, xs ! 19] @ [xs ! 20, xs ! 21, xs ! 22, xs ! 23] @
    [xs ! 24, xs ! 25, xs ! 26, xs ! 27] @ [xs ! 28, xs ! 29, xs ! 30, xs ! 31]"
proof -
  have "xs = map ((!) xs) [0..<32]" using assms by (metis map_nth)
  also have "[0..<32] = [0,1,2,3,4,5,6,7,8,9,10,11,12,13,14,15,16,17,18,19,20,21,22,23,24,25,26,27,28,29,30,31::nat]"
    by (simp add: upt_rec)
  finally show ?thesis by simp
qed

definition scalar_of_b32 :: "u8 list \<Rightarrow> secp256k1_scalar" where
  "scalar_of_b32 b32 = 
     \<lparr>d_0 = read_be32 (b32 ! 28) (b32 ! 29) (b32 ! 30) (b32 ! 31),
      d_1 = read_be32 (b32 ! 24) (b32 ! 25) (b32 ! 26) (b32 ! 27),
      d_2 = read_be32 (b32 ! 20) (b32 ! 21) (b32 ! 22) (b32 ! 23),
      d_3 = read_be32 (b32 ! 16) (b32 ! 17) (b32 ! 18) (b32 ! 19),
      d_4 = read_be32 (b32 ! 12) (b32 ! 13) (b32 ! 14) (b32 ! 15),
      d_5 = read_be32 (b32 ! 8) (b32 ! 9) (b32 ! 10) (b32 ! 11),
      d_6 = read_be32 (b32 ! 4) (b32 ! 5) (b32 ! 6) (b32 ! 7),
      d_7 = read_be32 (b32 ! 0) (b32 ! 1) (b32 ! 2) (b32 ! 3)\<rparr>"

lemma scalar_of_b32_val:
  assumes "length b32 = 32"
  shows "scalar_val (scalar_of_b32 b32) = be_val b32"
proof -
  have "be_val b32 = lval 32 [read_be32 (b32 ! 28) (b32 ! 29) (b32 ! 30) (b32 ! 31),
     read_be32 (b32 ! 24) (b32 ! 25) (b32 ! 26) (b32 ! 27), read_be32 (b32 ! 20) (b32 ! 21) (b32 ! 22) (b32 ! 23),
     read_be32 (b32 ! 16) (b32 ! 17) (b32 ! 18) (b32 ! 19), read_be32 (b32 ! 12) (b32 ! 13) (b32 ! 14) (b32 ! 15),
     read_be32 (b32 ! 8) (b32 ! 9) (b32 ! 10) (b32 ! 11), read_be32 (b32 ! 4) (b32 ! 5) (b32 ! 6) (b32 ! 7),
     read_be32 (b32 ! 0) (b32 ! 1) (b32 ! 2) (b32 ! 3)]"
    by (subst nth_list_32 [OF assms]) (simp only: be_val_append length_append list.size lval32_Cons read_be32_val lval.simps(1), simp)
  then show ?thesis by (simp add: scalar_val_list scalar_of_b32_def)
qed

lemma secp256k1_scalar_set_b32_val:
  assumes "length b32 = 32"
  shows "scalar_val (fst (secp256k1_scalar_set_b32 b32)) = be_val b32 mod secp256k1_n"
    and "snd (secp256k1_scalar_set_b32 b32) = of_bool (secp256k1_n \<le> be_val b32)"
proof -
  define r where "r = scalar_of_b32 b32"
  define over where "over = secp256k1_scalar_check_overflow r"
  have set: "secp256k1_scalar_set_b32 b32 = secp256k1_scalar_reduce r over"
    by (simp add: secp256k1_scalar_set_b32_def r_def scalar_of_b32_def over_def Let_def)
  have v: "be_val b32 = scalar_val r + 2 ^ 256 * uint (0 :: u64)"
    by (simp add: r_def scalar_of_b32_val [OF assms])
  have "be_val b32 < 2 * secp256k1_n"
    using scalar_val_bounds(2) [of r] order_bounds(2) by (simp add: v)
  moreover have "(ucast (0 + ucast w :: u64) :: u32) = w" for w :: u32
    using uint_u32_less [of w] by (simp add: word_uint_eq_iff uint_trunc)
  ultimately have f: "over = of_bool (secp256k1_n \<le> be_val b32)"
    "scalar_val (fst (secp256k1_scalar_reduce r over)) = be_val b32 mod secp256k1_n"
    unfolding over_def using final_reduce [OF v] by simp_all
  show "scalar_val (fst (secp256k1_scalar_set_b32 b32)) = be_val b32 mod secp256k1_n"
    unfolding set by (rule f)
  show "snd (secp256k1_scalar_set_b32 b32) = of_bool (secp256k1_n \<le> be_val b32)"
    unfolding set using f(1) by (simp add: secp256k1_scalar_reduce_def split: prod.splits)
qed

lemma length_get_b32 [simp]: "length (secp256k1_scalar_get_b32 a) = 32"
  by (simp add: secp256k1_scalar_get_b32_def write_be32_def)

lemma secp256k1_scalar_get_b32_val: "be_val (secp256k1_scalar_get_b32 a) = scalar_val a"
proof -
  have l: "length (write_be32 w) = 4" for w by (simp add: write_be32_def)
  show ?thesis
    unfolding secp256k1_scalar_get_b32_def be_val_append write_be32_val length_append l
    by (simp add: scalar_val_list)
qed

subsection \<open>Multiplication\<close>

declare exec_cols.simps [simp del]

lemma exec_cols_append:
  "exec_cols (xs @ ys) c = (let (l, c) = exec_cols xs c; (l', c) = exec_cols ys c in (l @ l', c))"
  by (induction xs arbitrary: c) (simp_all add: exec_cols.simps case_prod_beta Let_def)

lemma exec_cols_single: "exec_cols [col] c = (let (n, c) = exec_col col c in ([n], c))"
  by (simp add: exec_cols.simps)

lemma cols_val_append: "cols_val (xs @ ys) = cols_val xs + 4294967296 ^ length xs * cols_val ys"
  by (induction xs) (simp_all add: algebra_simps)

text \<open>Columns checked by their bounds, and a last column checked by the size of the whole result:
  what remains in the accumulator is its lowest limb.\<close>

lemma exec_cols_last:
  assumes "acc_val c \<le> B" and "cols_ok B cols"
    and total: "acc_val c + cols_val (cols @ [Col_fast ops]) < 4294967296 ^ (length cols + 2)"
    and safe: "\<And>v. 0 \<le> v \<Longrightarrow> v + ops_val ops < 18446744073709551616 \<Longrightarrow> ops_safe v ops"
    and exec: "exec_cols (cols @ [Col_fast ops]) c = (ns, (c0, c1, c2))"
  shows "length ns = length cols + 1"
    and "lval 32 (ns @ [c0]) = acc_val c + cols_val (cols @ [Col_fast ops])"
proof -
  obtain ms d where pre: "exec_cols cols c = (ms, d)" by (rule prod.exhaust)
  obtain n where last: "exec_col (Col_fast ops) d = (n, (c0, c1, c2))" and ns: "ns = ms @ [n]"
    using exec unfolding exec_cols_append pre exec_cols_single
    by (auto simp: Let_def split: prod.splits)
  note p = exec_cols_correct [OF assms(1,2) pre]
  let ?K = "4294967296 ^ length cols :: int"
  have K: "0 < ?K" by simp
  have eq: "lval 32 ms + ?K * (acc_val d + ops_val ops) = acc_val c + cols_val (cols @ [Col_fast ops])"
    using p(2) by (simp add: cols_val_append algebra_simps)
  moreover have "4294967296 ^ (length cols + 2) = ?K * 18446744073709551616"
    by (simp add: power_add)
  ultimately have "?K * (acc_val d + ops_val ops) < ?K * 18446744073709551616"
    using total lval_nonneg [of 32 ms] by linarith
  then have lt: "acc_val d + ops_val ops < 18446744073709551616" using K by simp
  then have "col_safe (acc_val d) (Col_fast ops)" using safe [of "acc_val d"] by simp
  from exec_col_val [OF this last]
  have e: "uint n + 4294967296 * acc_val (c0, c1, c2) = acc_val d + ops_val ops" by simp
  then have "acc_val (c0, c1, c2) < 4294967296" using lt uint_ge_0 [of n] by linarith
  then have "uint c1 = 0" "uint c2 = 0"
    using uint_ge_0 [of c0] uint_ge_0 [of c1] uint_ge_0 [of c2] unfolding acc_val.simps by linarith+
  then have c0: "acc_val (c0, c1, c2) = uint c0" by simp
  show "length ns = length cols + 1" using p(1) by (simp add: ns)
  have "lval 32 (ns @ [c0]) = lval 32 ms + ?K * (uint n + 4294967296 * uint c0)"
    using power_mult [of "2 :: int" 32 "length cols"] by (simp add: ns lval_append p(1))
  also have "\<dots> = acc_val c + cols_val (cols @ [Col_fast ops])"
    using e eq unfolding c0 by simp
  finally show "lval 32 (ns @ [c0]) = acc_val c + cols_val (cols @ [Col_fast ops])" .
qed

lemma secp256k1_scalar_mul_512_val:
  "length (secp256k1_scalar_mul_512 a b) = 16"
  "lval 32 (secp256k1_scalar_mul_512 a b) = scalar_val a * scalar_val b"
proof -
  define cols where "cols = butlast (mul_512_cols a b)"
  define ops where "ops = [Muladd_fast (d_7 a) (d_7 b)]"
  have split: "mul_512_cols a b = cols @ [Col_fast ops]"
    by (simp add: mul_512_cols_def cols_def ops_def)
  obtain ns c0 c1 c2 where e: "exec_cols (cols @ [Col_fast ops]) (0, 0, 0) = (ns, (c0, c1, c2))"
    by (metis prod.exhaust)
  have len: "length cols = 14" by (simp add: cols_def mul_512_cols_def)
  have val: "cols_val (cols @ [Col_fast ops]) = scalar_val a * scalar_val b"
    unfolding split [symmetric] mul_512_cols_def scalar_val_list [of a] scalar_val_list [of b]
    by (simp add: ops_val_def algebra_simps)
  have ok: "cols_ok 0 cols" by (simp add: cols_def mul_512_cols_def)
  have "scalar_val a * scalar_val b < 2 ^ 256 * 2 ^ 256"
    using scalar_val_bounds [of a] scalar_val_bounds [of b] by (intro mult_strict_mono) auto
  then have tot: "acc_val (0, 0, 0) + cols_val (cols @ [Col_fast ops]) < 4294967296 ^ (length cols + 2)"
    by (simp add: val len)
  have safe: "ops_safe v ops" if "v + ops_val ops < 18446744073709551616" for v
    using that by (simp add: ops_def ops_val_def)
  note r = exec_cols_last [OF _ ok tot safe e]
  have m: "secp256k1_scalar_mul_512 a b = ns @ [c0]"
    by (simp add: secp256k1_scalar_mul_512_def split e)
  show "length (secp256k1_scalar_mul_512 a b) = 16" using r(1) by (simp add: m len)
  show "lval 32 (secp256k1_scalar_mul_512 a b) = scalar_val a * scalar_val b"
    unfolding m using r(2) by (simp add: val)
qed

lemma secp256k1_scalar_sqr_512_val:
  "length (secp256k1_scalar_sqr_512 a) = 16"
  "lval 32 (secp256k1_scalar_sqr_512 a) = scalar_val a * scalar_val a"
proof -
  define cols where "cols = butlast (sqr_512_cols a)"
  define ops where "ops = [Muladd_fast (d_7 a) (d_7 a)]"
  have split: "sqr_512_cols a = cols @ [Col_fast ops]"
    by (simp add: sqr_512_cols_def cols_def ops_def)
  obtain ns c0 c1 c2 where e: "exec_cols (cols @ [Col_fast ops]) (0, 0, 0) = (ns, (c0, c1, c2))"
    by (metis prod.exhaust)
  have len: "length cols = 14" by (simp add: cols_def sqr_512_cols_def)
  have val: "cols_val (cols @ [Col_fast ops]) = scalar_val a * scalar_val a"
    unfolding split [symmetric] sqr_512_cols_def scalar_val_list [of a]
    by (simp add: ops_val_def algebra_simps)
  have ok: "cols_ok 0 cols" by (simp add: cols_def sqr_512_cols_def)
  have "scalar_val a * scalar_val a < 2 ^ 256 * 2 ^ 256"
    using scalar_val_bounds [of a] by (intro mult_strict_mono) auto
  then have tot: "acc_val (0, 0, 0) + cols_val (cols @ [Col_fast ops]) < 4294967296 ^ (length cols + 2)"
    by (simp add: val len)
  have safe: "ops_safe v ops" if "v + ops_val ops < 18446744073709551616" for v
    using that by (simp add: ops_def ops_val_def)
  note r = exec_cols_last [OF _ ok tot safe e]
  have m: "secp256k1_scalar_sqr_512 a = ns @ [c0]"
    by (simp add: secp256k1_scalar_sqr_512_def split e)
  show "length (secp256k1_scalar_sqr_512 a) = 16" using r(1) by (simp add: m len)
  show "lval 32 (secp256k1_scalar_sqr_512 a) = scalar_val a * scalar_val a"
    unfolding m using r(2) by (simp add: val)
qed

lemma list_16:
  assumes "length l = 16"
  obtains l0 l1 l2 l3 l4 l5 l6 l7 l8 l9 l10 l11 l12 l13 l14 l15
  where "l = [l0, l1, l2, l3, l4, l5, l6, l7, l8, l9, l10, l11, l12, l13, l14, l15]"
  using assms by (auto simp: length_Suc_conv numeral_eq_Suc)

lemma list_13:
  assumes "length l = 13"
  obtains l0 l1 l2 l3 l4 l5 l6 l7 l8 l9 l10 l11 l12
  where "l = [l0, l1, l2, l3, l4, l5, l6, l7, l8, l9, l10, l11, l12]"
  using assms by (auto simp: length_Suc_conv numeral_eq_Suc)

lemma list_9:
  assumes "length l = 9"
  obtains l0 l1 l2 l3 l4 l5 l6 l7 l8
  where "l = [l0, l1, l2, l3, l4, l5, l6, l7, l8]"
  using assms by (auto simp: length_Suc_conv numeral_eq_Suc)

text \<open>First pass: the eight high limbs, multiplied by the complement of the order, are added to
  the eight low ones.\<close>

lemma lval_take_drop: "lval 32 xs = lval 32 (take k xs) + 2 ^ (32 * min k (length xs)) * lval 32 (drop k xs)"
  using lval_append [of 32 "take k xs" "drop k xs"] by (simp add: min.commute)

lemma lval32_less: "lval 32 xs < 4294967296 ^ length (xs :: u32 list)"
  using lval_bound [of xs 32] uint_u32_less by (simp add: power_mult)

lemma reduce_pass1:
  assumes "length l = 16" and e: "exec_cols (reduce_512_cols1 l) (l ! 0, 0, 0) = (ms, (c0, c1, c2))"
  shows "length ms = 12"
    and "lval 32 (ms @ [c0]) = lval 32 (take 8 l) + lval 32 (drop 8 l) * n_compl"
proof -
  obtain l0 l1 l2 l3 l4 l5 l6 l7 l8 l9 l10 l11 l12 l13 l14 l15
    where l: "l = [l0, l1, l2, l3, l4, l5, l6, l7, l8, l9, l10, l11, l12, l13, l14, l15]"
    using assms(1) by (rule list_16)
  define cols where "cols = butlast (reduce_512_cols1 l)"
  define ops where "ops = [Sumadd_fast l15]"
  have split: "reduce_512_cols1 l = cols @ [Col_fast ops]"
    by (simp add: reduce_512_cols1_def cols_def ops_def l)
  have len: "length cols = 11" by (simp add: cols_def reduce_512_cols1_def Let_def)
  have nc: "uint SECP256K1_N_C_4 = 1" by (simp add: SECP256K1_N_C_4_def)
  have val: "acc_val (l0, 0, 0) + cols_val (cols @ [Col_fast ops]) = lval 32 (take 8 l) + lval 32 (drop 8 l) * n_compl"
    unfolding split [symmetric] reduce_512_cols1_def compl_val [symmetric]
    by (simp add: l nc ops_val_def algebra_simps)
  have ok: "cols_ok 4294967295 cols" by (simp add: cols_def reduce_512_cols1_def Let_def)
  have "lval 32 (drop 8 l) * n_compl \<le> 2 ^ 256 * 2 ^ 129"
    using lval32_less [of "drop 8 l"] order_bounds by (intro mult_mono) (simp_all add: assms(1) n_compl_def)
  then have tot: "acc_val (l0, 0, 0) + cols_val (cols @ [Col_fast ops]) < 4294967296 ^ (length cols + 2)"
    unfolding val using lval32_less [of "take 8 l"] by (simp add: len assms(1))
  have safe: "ops_safe v ops" if "v + ops_val ops < 18446744073709551616" for v
    using that by (simp add: ops_def ops_val_def)
  have c: "acc_val (l0, 0, 0) \<le> 4294967295" using uint_u32_less [of l0] by simp
  have e': "exec_cols (cols @ [Col_fast ops]) (l0, 0, 0) = (ms, (c0, c1, c2))"
    using e unfolding split by (simp only: l nth_Cons_0)
  note r = exec_cols_last [OF c ok tot safe e']
  show "length ms = 12" using r(1) by (simp add: len)
  show "lval 32 (ms @ [c0]) = lval 32 (take 8 l) + lval 32 (drop 8 l) * n_compl"
    using r(2) val by simp
qed

lemma reduce_pass2:
  assumes "length m = 13" and e: "exec_cols (reduce_512_cols2 m) (m ! 0, 0, 0) = (p, (c0, c1, c2))"
    and hi: "lval 32 (drop 8 m) \<le> n_compl"
  shows "length p = 8"
    and "lval 32 p + 2 ^ 256 * (uint c0 + uint (m ! 12)) = lval 32 (take 8 m) + lval 32 (drop 8 m) * n_compl"
proof -
  obtain m0 m1 m2 m3 m4 m5 m6 m7 m8 m9 m10 m11 m12
    where m: "m = [m0, m1, m2, m3, m4, m5, m6, m7, m8, m9, m10, m11, m12]"
    using assms(1) by (rule list_13)
  define cols where "cols = butlast (reduce_512_cols2 m)"
  define ops where "ops = [Sumadd_fast m7, Muladd_fast m12 SECP256K1_N_C_3, Sumadd_fast m11]"
  have split: "reduce_512_cols2 m = cols @ [Col_fast ops]"
    by (simp add: reduce_512_cols2_def cols_def ops_def m)
  have len: "length cols = 7" by (simp add: cols_def reduce_512_cols2_def Let_def)
  have nc: "uint SECP256K1_N_C_4 = 1" by (simp add: SECP256K1_N_C_4_def)
  have val: "acc_val (m0, 0, 0) + cols_val (cols @ [Col_fast ops]) + 2 ^ 256 * uint m12 =
      lval 32 (take 8 m) + lval 32 (drop 8 m) * n_compl"
    unfolding split [symmetric] reduce_512_cols2_def compl_val [symmetric]
    by (simp add: m nc ops_val_def algebra_simps)
  have ok: "cols_ok 4294967295 cols" by (simp add: cols_def reduce_512_cols2_def Let_def)
  have "lval 32 (drop 8 m) * n_compl \<le> n_compl * n_compl"
    using hi by (intro mult_right_mono) (simp_all add: n_compl_def secp256k1_n_def)
  also have "n_compl * n_compl < 2 ^ 258" by (simp add: n_compl_def secp256k1_n_def)
  finally have hi': "lval 32 (drop 8 m) * n_compl < 2 ^ 258" .
  have "lval 32 (take 8 m) < 2 ^ 256" using lval32_less [of "take 8 m"] by (simp add: assms(1))
  moreover have "0 \<le> 2 ^ 256 * uint m12" by simp
  ultimately have "acc_val (m0, 0, 0) + cols_val (cols @ [Col_fast ops]) < 2 ^ 256 + 2 ^ 258"
    using hi' val by linarith
  then have tot: "acc_val (m0, 0, 0) + cols_val (cols @ [Col_fast ops]) < 4294967296 ^ (length cols + 2)"
    by (simp add: len)
  have safe: "ops_safe v ops" if "0 \<le> v" "v + ops_val ops < 18446744073709551616" for v
  proof -
    have "0 \<le> uint m12 * uint SECP256K1_N_C_3" "0 \<le> uint m11" by simp_all
    then have "v + uint m7 < 18446744073709551616"
      "v + uint m7 + uint m12 * uint SECP256K1_N_C_3 < 18446744073709551616"
      using that by (simp_all only: ops_def ops_val_def list.map sum_list.Cons sum_list.Nil op_val.simps)
    with that show ?thesis by (simp add: ops_def ops_val_def)
  qed
  have c: "acc_val (m0, 0, 0) \<le> 4294967295" using uint_u32_less [of m0] by simp
  have e': "exec_cols (cols @ [Col_fast ops]) (m0, 0, 0) = (p, (c0, c1, c2))"
    using e unfolding split by (simp only: m nth_Cons_0)
  note r = exec_cols_last [OF c ok tot safe e']
  show "length p = 8" using r(1) by (simp add: len)
  then show "lval 32 p + 2 ^ 256 * (uint c0 + uint (m ! 12)) = lval 32 (take 8 m) + lval 32 (drop 8 m) * n_compl"
    using r(2) val by (simp add: lval_append m)
qed

lemma list_8:
  assumes "length l = 8"
  shows "l = [l ! 0, l ! 1, l ! 2, l ! 3, l ! 4, l ! 5, l ! 6, l ! 7]"
  using assms by (auto simp: length_Suc_conv numeral_eq_Suc)

lemma reduce_addend:
  fixes x y z :: u32
  assumes "uint z \<le> 2"
  shows "small64 (ucast x + ucast y * ucast z)"
    and "uint (ucast x + ucast y * ucast z :: u64) = uint x + uint y * uint z"
proof -
  have "fits z (uint z) 2" using assms by (simp add: fits_def)
  then have "fits (ucast x + ucast y * ucast z :: u64) (uint x + uint y * uint z) (4294967295 + 4294967295 * 2)"
    by - (rule fits_rules fits_u32 | assumption | simp)+
  then show "small64 (ucast x + ucast y * ucast z)"
    and "uint (ucast x + ucast y * ucast z :: u64) = uint x + uint y * uint z"
    by (auto simp: small64_def fits_def)
qed

lemma secp256k1_scalar_reduce_512_val:
  assumes "length l = 16"
  shows "scalar_val (secp256k1_scalar_reduce_512 l) = lval 32 l mod secp256k1_n"
proof -
  obtain ms c0 c1 c2 where e1: "exec_cols (reduce_512_cols1 l) (l ! 0, 0, 0) = (ms, (c0, c1, c2))"
    by (metis prod.exhaust)
  define m where "m = ms @ [c0]"
  note p1 = reduce_pass1 [OF assms e1, folded m_def]
  have m13: "length m = 13" using p1(1) by (simp add: m_def)
  obtain p e0 k1 k2 where e2: "exec_cols (reduce_512_cols2 m) (m ! 0, 0, 0) = (p, (e0, k1, k2))"
    by (metis prod.exhaust)
  have l: "lval 32 l = lval 32 (take 8 l) + 2 ^ 256 * lval 32 (drop 8 l)"
    using lval_take_drop [of l 8] by (simp add: assms)
  have m: "lval 32 m = lval 32 (take 8 m) + 2 ^ 256 * lval 32 (drop 8 m)"
    using lval_take_drop [of m 8] by (simp add: m13)
  have lt: "lval 32 (take 8 l) < 2 ^ 256" "lval 32 (drop 8 l) < 2 ^ 256" "lval 32 (take 8 m) < 2 ^ 256"
    using lval32_less [of "take 8 l"] lval32_less [of "drop 8 l"] lval32_less [of "take 8 m"]
    by (simp_all add: assms m13)
  have "lval 32 (drop 8 l) * n_compl \<le> (2 ^ 256 - 1) * n_compl"
    using lt(2) by (intro mult_right_mono) (simp_all add: n_compl_def secp256k1_n_def)
  moreover have "(2 ^ 256 - 1) * n_compl + 2 ^ 256 \<le> 2 ^ 256 * (n_compl + 1)"
    by (simp add: n_compl_def secp256k1_n_def)
  ultimately have "2 ^ 256 * lval 32 (drop 8 m) < 2 ^ 256 * (n_compl + 1)"
    using p1(2) m lt(1) lval_nonneg [of 32 "take 8 m"] by linarith
  then have hi: "lval 32 (drop 8 m) \<le> n_compl" by simp
  note p2 = reduce_pass2 [OF m13 e2 hi]
  have "lval 32 (drop 8 m) * n_compl \<le> n_compl * n_compl"
    using hi by (intro mult_right_mono) (simp_all add: n_compl_def secp256k1_n_def)
  also have "n_compl * n_compl < 2 * 2 ^ 256" by (simp add: n_compl_def secp256k1_n_def)
  finally have hi2: "lval 32 (drop 8 m) * n_compl < 2 * 2 ^ 256" .
  have "2 ^ 256 * (uint e0 + uint (m ! 12)) < 2 ^ 256 * 3"
    using p2(2) hi2 lt(3) lval_nonneg [of 32 p] by linarith
  then have sum: "uint e0 + uint (m ! 12) \<le> 2" by simp
  define p8 where "p8 = e0 + m ! 12"
  have p8: "uint p8 = uint e0 + uint (m ! 12)"
    unfolding p8_def using sum by (intro no_carry) simp
  define V where "V = lval 32 p + uint p8 * n_compl"
  have "lval 32 p < 2 ^ 256" using lval32_less [of p] by (simp add: p2(1))
  moreover have "uint p8 * n_compl \<le> 2 * n_compl"
    using sum p8 by (intro mult_right_mono) (simp_all add: n_compl_def secp256k1_n_def)
  ultimately have V: "V < 2 * secp256k1_n"
    unfolding V_def by (simp add: n_compl_def secp256k1_n_def)
  have n: "2 ^ 256 = secp256k1_n + n_compl" by (simp add: n_compl_def)
  have "lval 32 l = V + secp256k1_n * (lval 32 (drop 8 l) + lval 32 (drop 8 m) + uint p8)"
    using l m p1(2) p2(2) unfolding n V_def p8 by (simp add: algebra_simps)
  then have cong: "lval 32 l mod secp256k1_n = V mod secp256k1_n" by (rule mod_eqI)
  obtain ds c where cr: "carry32 0 0xFFFFFFFF
            [ucast (p ! 0) + ucast SECP256K1_N_C_0 * ucast p8,
             ucast (p ! 1) + ucast SECP256K1_N_C_1 * ucast p8,
             ucast (p ! 2) + ucast SECP256K1_N_C_2 * ucast p8,
             ucast (p ! 3) + ucast SECP256K1_N_C_3 * ucast p8,
             ucast (p ! 4) + ucast p8,
             ucast (p ! 5), ucast (p ! 6), ucast (p ! 7)] = (ds, c)"
    by (rule prod.exhaust)
  have "V = scalar_val (scalar_of ds) + 2 ^ 256 * uint c"
  proof -
    have nc: "uint SECP256K1_N_C_4 = 1" by (simp add: SECP256K1_N_C_4_def)
    have "uint p8 \<le> 2" using sum p8 by simp
    note ad = reduce_addend [OF this]
    have "lval 32 p = lval 32 [p ! 0, p ! 1, p ! 2, p ! 3, p ! 4, p ! 5, p ! 6, p ! 7]"
      using list_8 [OF p2(1)] by (rule arg_cong)
    then have "V = lval 32 [p ! 0, p ! 1, p ! 2, p ! 3, p ! 4, p ! 5, p ! 6, p ! 7] +
        uint p8 * lval 32 [SECP256K1_N_C_0, SECP256K1_N_C_1, SECP256K1_N_C_2, SECP256K1_N_C_3, SECP256K1_N_C_4]"
      unfolding V_def compl_val by (rule arg_cong)
    then show ?thesis
      using carry32_scalar(1) [OF cr] by (simp add: ad addend_val nc distrib_left mult.commute mult.left_commute)
  qed
  from final_reduce(2) [OF this V]
  have "scalar_val (secp256k1_scalar_reduce_512 l) = V mod secp256k1_n"
    by (simp add: secp256k1_scalar_reduce_512_def e1 m_def [symmetric] e2 p8_def [symmetric] cr [simplified] Let_def)
  then show ?thesis unfolding cong .
qed

lemma secp256k1_scalar_mul_val:
  "scalar_val (secp256k1_scalar_mul a b) = scalar_val a * scalar_val b mod secp256k1_n"
  by (simp add: secp256k1_scalar_mul_def secp256k1_scalar_reduce_512_val secp256k1_scalar_mul_512_val)

lemma secp256k1_scalar_sqr_val:
  "scalar_val (secp256k1_scalar_sqr a) = scalar_val a * scalar_val a mod secp256k1_n"
  by (simp add: secp256k1_scalar_sqr_def secp256k1_scalar_reduce_512_val secp256k1_scalar_sqr_512_val)

subsection \<open>Tests\<close>

lemma scalar_eq_iff: "a = b \<longleftrightarrow> d_0 a = d_0 b \<and> d_1 a = d_1 b \<and> d_2 a = d_2 b \<and> d_3 a = d_3 b \<and>
    d_4 a = d_4 b \<and> d_5 a = d_5 b \<and> d_6 a = d_6 b \<and> d_7 a = d_7 b"
  for a b :: secp256k1_scalar
  by (cases a; cases b) auto

lemma word_xor_eq_0: "(x XOR y = 0) = (x = y)" for x y :: u32
  by (metis xor.assoc xor.right_neutral xor_self_eq)

lemma secp256k1_scalar_eq_iff: "secp256k1_scalar_eq a b \<longleftrightarrow> scalar_val a = scalar_val b"
  unfolding scalar_val_inject scalar_eq_iff
  by (simp add: secp256k1_scalar_eq_def or_eq_0_iff word_xor_eq_0)

lemma secp256k1_scalar_is_one_eq: "secp256k1_scalar_is_one a \<longleftrightarrow> scalar_val a = 1"
proof -
  have "scalar_val (secp256k1_scalar_set_int 1) = 1"
    by (simp add: scalar_val_list secp256k1_scalar_set_int_def)
  then have "scalar_val a = 1 \<longleftrightarrow> a = secp256k1_scalar_set_int 1"
    using scalar_val_inject [of a "secp256k1_scalar_set_int 1"] by simp
  then show ?thesis
    by (cases a) (simp add: secp256k1_scalar_is_one_def secp256k1_scalar_set_int_def or_eq_0_iff word_xor_eq_0)
qed

lemma secp256k1_scalar_set_int_val: "scalar_val (secp256k1_scalar_set_int v) = uint v"
  by (simp add: scalar_val_list secp256k1_scalar_set_int_def)

lemma secp256k1_scalar_split_128_val:
  assumes "secp256k1_scalar_split_128 a = (r1, r2)"
  shows "scalar_val a = scalar_val r1 + 2 ^ 128 * scalar_val r2"
    and "scalar_val r1 < 2 ^ 128" and "scalar_val r2 < 2 ^ 128"
proof -
  have r1: "scalar_val r1 = lval 32 [d_0 a, d_1 a, d_2 a, d_3 a]"
    and r2: "scalar_val r2 = lval 32 [d_4 a, d_5 a, d_6 a, d_7 a]"
    using assms by (auto simp: secp256k1_scalar_split_128_def scalar_val_list)
  show "scalar_val a = scalar_val r1 + 2 ^ 128 * scalar_val r2"
    unfolding r1 r2 by (simp add: scalar_val_list)
  show "scalar_val r1 < 2 ^ 128" "scalar_val r2 < 2 ^ 128"
    unfolding r1 r2 using lval32_less [of "[d_0 a, d_1 a, d_2 a, d_3 a]"] lval32_less [of "[d_4 a, d_5 a, d_6 a, d_7 a]"]
    by (simp_all only: list.size) simp_all
qed

subsection \<open>Shifts and bit windows\<close>

text \<open>One limb of a right shift by \<open>n\<close> bits of two adjacent limbs.\<close>

lemma shr_pair:
  fixes x y :: u32
  assumes "0 < n" and "n < 32"
  shows "uint (drop_bit n x + push_bit (32 - n) y) = uint x div 2 ^ n + 2 ^ (32 - n) * (uint y mod 2 ^ n)"
proof -
  have p: "(4294967296 :: int) = 2 ^ (32 - n) * 2 ^ n"
    using assms by (simp flip: power_add)
  have "uint (push_bit (32 - n) y) = (uint y * 2 ^ (32 - n)) mod 4294967296"
    by (simp add: uint_shl del: push_bit_eq_mult)
  also have "\<dots> = 2 ^ (32 - n) * (uint y mod 2 ^ n)"
    unfolding p by (simp add: mult.commute)
  finally have y: "uint (push_bit (32 - n) y) = 2 ^ (32 - n) * (uint y mod 2 ^ n)" .
  have "uint x div 2 ^ n < 2 ^ (32 - n)"
  proof (rule ccontr)
    assume "\<not> uint x div 2 ^ n < 2 ^ (32 - n)"
    then have "2 ^ (32 - n) * 2 ^ n \<le> uint x div 2 ^ n * 2 ^ n" by simp
    also have "\<dots> \<le> uint x" using div_mult_mod_eq [of "uint x" "2 ^ n"] by (simp add: minus_mod_eq_div_mult [symmetric])
    finally show False using uint_u32_less [of x] p by simp
  qed
  moreover have "uint y mod 2 ^ n + 1 \<le> 2 ^ n" by (simp add: add1_zle_eq)
  then have "2 ^ (32 - n) * (uint y mod 2 ^ n + 1) \<le> 2 ^ (32 - n) * (2 ^ n :: int)"
    by (intro mult_left_mono) auto
  ultimately have "uint (drop_bit n x) + uint (push_bit (32 - n) y) < 4294967296"
    unfolding y uint_shr p by (simp add: distrib_left)
  then show ?thesis by (simp add: no_carry y uint_shr del: push_bit_eq_mult drop_bit_eq_div)
qed

lemma secp256k1_scalar_shr_int_val:
  assumes "0 < n" and "n < 16" and "secp256k1_scalar_shr_int r n = (r', ret)"
  shows "scalar_val r' = scalar_val r div 2 ^ n" and "uint ret = scalar_val r mod 2 ^ n"
proof -
  have n: "0 < n" "n < 32" using assms by auto
  have p: "(4294967296 :: int) = 2 ^ n * 2 ^ (32 - n)" using n by (simp flip: power_add)
  have split: "uint w = 2 ^ n * (uint w div 2 ^ n) + uint w mod 2 ^ n" for w :: u32 by simp
  have r': "scalar_val r' = lval 32 [drop_bit n (d_0 r) + push_bit (32 - n) (d_1 r),
           drop_bit n (d_1 r) + push_bit (32 - n) (d_2 r),
           drop_bit n (d_2 r) + push_bit (32 - n) (d_3 r),
           drop_bit n (d_3 r) + push_bit (32 - n) (d_4 r),
           drop_bit n (d_4 r) + push_bit (32 - n) (d_5 r),
           drop_bit n (d_5 r) + push_bit (32 - n) (d_6 r),
           drop_bit n (d_6 r) + push_bit (32 - n) (d_7 r), drop_bit n (d_7 r)]"
    using assms(3) by (auto simp: secp256k1_scalar_shr_int_def scalar_val_list Let_def)
  have ret: "uint ret = uint (d_0 r) mod 2 ^ n"
  proof -
    have "push_bit n 1 - 1 = (mask n :: u32)" by (simp add: mask_eq_exp_minus_1)
    then show ?thesis using assms(3) by (auto simp: secp256k1_scalar_shr_int_def Let_def uint_and_mask)
  qed
  have step: "2 ^ n * (q + 2 ^ (32 - n) * m + 4294967296 * X) = 2 ^ n * q + 4294967296 * (2 ^ n * X + m)"
    for q m X :: int unfolding p by (simp only: distrib_left mult.assoc mult.left_commute add.assoc add.commute)
  have join: "2 ^ n * (uint w div 2 ^ n) + X + uint w mod 2 ^ n = uint w + X" for w :: u32 and X
    using split [of w] by linarith
  have join0: "2 ^ n * (uint w div 2 ^ n) + uint w mod 2 ^ n = uint w" for w :: u32
    using split [of w] by linarith
  have eq: "scalar_val r = 2 ^ n * scalar_val r' + uint ret"
    unfolding r' ret scalar_val_list [of r] lval32_Cons shr_pair [OF n] uint_shr step lval.simps(1)
    by (simp only: mult_zero_right add_0_right join join0)
  have "uint ret < 2 ^ n" unfolding ret by simp
  then show "scalar_val r' = scalar_val r div 2 ^ n" "uint ret = scalar_val r mod 2 ^ n"
    unfolding eq by (simp_all add: )
qed

subsection \<open>Bit windows\<close>

lemma uint_nth_lval:
  fixes xs :: "u32 list"
  assumes "i < length xs"
  shows "uint (xs ! i) = lval 32 xs div 2 ^ (32 * i) mod 2 ^ 32"
  using assms
proof (induction xs arbitrary: i)
  case Nil
  then show ?case by simp
next
  case (Cons x xs)
  show ?case
  proof (cases i)
    case 0
    then show ?thesis using uint_u32_less [of x] by (simp add: mod_mult_self2 [of "uint x"])
  next
    case (Suc j)
    have "lval 32 (x # xs) div 2 ^ (32 * i) = lval 32 (x # xs) div 2 ^ 32 div 2 ^ (32 * j)"
      by (simp add: Suc power_add zdiv_zmult2_eq)
    also have "lval 32 (x # xs) div 2 ^ 32 = lval 32 xs"
      using uint_u32_less [of x] by simp
    finally show ?thesis using Cons Suc by simp
  qed
qed

lemma bit_nth_lval:
  fixes xs :: "u32 list"
  assumes "i < length xs"
  shows "bit (xs ! i) k \<longleftrightarrow> k < 32 \<and> bit (lval 32 xs) (32 * i + k)"
proof -
  have "uint (xs ! i) = take_bit 32 (drop_bit (32 * i) (lval 32 xs))"
    using uint_nth_lval [OF assms] by (simp add: take_bit_eq_mod drop_bit_eq_div)
  then have "bit (uint (xs ! i)) k \<longleftrightarrow> k < 32 \<and> bit (lval 32 xs) (32 * i + k)"
    by (simp add: bit_take_bit_iff bit_drop_bit_eq)
  then show ?thesis using bit_imp_le_length [of "xs ! i" k] by (auto simp: bit_uint_iff)
qed

lemma bit_low_mask:
  assumes "n < 32"
  shows "bit (push_bit n 1 - 1 :: u32) k \<longleftrightarrow> k < n"
proof -
  have "push_bit n 1 - 1 = (mask n :: u32)" by (simp add: mask_eq_exp_minus_1)
  then show ?thesis using assms by (auto simp: bit_mask_iff)
qed

lemma unat_offset: "unat (offset AND 0x1F :: u32) = unat offset mod 32" "unat (drop_bit 5 offset) = unat offset div 32"
proof -
  show "unat (offset AND 0x1F :: u32) = unat offset mod 32"
    using unat_and_mask [of "0x1F" 5 offset] by (simp add: mask_eq_exp_minus_1)
  show "unat (drop_bit 5 offset) = unat offset div 32"
    using unat_shr [of 5 offset] by simp
qed

lemma secp256k1_scalar_get_bits_eq:
  assumes "unat count < 32" and "unat offset mod 32 + unat count \<le> 32" and "unat offset < 256"
  shows "uint (secp256k1_scalar_get_bits a offset count) =
    take_bit (unat count) (drop_bit (unat offset) (scalar_val a))"
proof (rule bit_eqI)
  fix k
  have i: "unat offset div 32 < 8" using assms(3) by simp
  have "bit (secp256k1_scalar_get_bits a offset count) k \<longleftrightarrow>
      k < unat count \<and> unat offset mod 32 + k < 32 \<and>
      bit (scalar_val a) (32 * (unat offset div 32) + (unat offset mod 32 + k))"
    using i assms(1) unfolding secp256k1_scalar_get_bits_def unat_offset
    by (auto simp: bit_and_iff bit_drop_bit_eq bit_low_mask bit_nth_lval scalar_val_def
          simp del: drop_bit_eq_div push_bit_of_1)
  also have "\<dots> \<longleftrightarrow> k < unat count \<and> bit (scalar_val a) (unat offset + k)"
    using assms(2) by (auto simp flip: add.assoc)
  finally show "bit (uint (secp256k1_scalar_get_bits a offset count)) k \<longleftrightarrow>
      bit (take_bit (unat count) (drop_bit (unat offset) (scalar_val a))) k"
    using assms(1) by (auto simp: bit_uint_iff bit_take_bit_iff bit_drop_bit_eq)
qed

lemma window:
  "32 \<le> r + k \<Longrightarrow> r < 32 \<Longrightarrow> 32 * (q + 1) + (k - (32 - r)) = 32 * q + r + k" for q r k :: nat
  by simp

lemma secp256k1_scalar_get_bits_var_eq:
  assumes "0 < unat count" and "unat count < 32" and "unat offset + unat count \<le> 256"
  shows "uint (secp256k1_scalar_get_bits_var a offset count) =
    take_bit (unat count) (drop_bit (unat offset) (scalar_val a))"
proof -
  define o' where "o' = unat offset"
  define c where "c = unat count"
  note oc = o'_def [symmetric] c_def [symmetric]
  have sum: "unat (offset + count) = o' + c"
    using assms by (simp add: unat_word_ariths oc)
  then have "1 \<le> offset + count" using assms by (simp add: word_le_nat_alt oc)
  then have last: "unat (offset + count - 1) = o' + c - 1"
    using sum by (simp add: unat_sub)
  have next': "unat (drop_bit 5 offset + 1) = o' div 32 + 1"
    using assms by (simp add: unat_word_ariths unat_offset oc del: drop_bit_eq_div)
  have "offset AND 0x1F \<le> 32" by (simp add: word_le_nat_alt unat_offset less_imp_le)
  then have sh: "unat (32 - (offset AND 0x1F)) = 32 - o' mod 32"
    by (simp add: unat_sub unat_offset oc)
  show ?thesis
  proof (cases "(o' + c - 1) div 32 = o' div 32")
    case True
    then have "drop_bit 5 (offset + count - 1) = drop_bit 5 offset"
      by (simp add: word_unat_eq_iff unat_offset last o'_def del: drop_bit_eq_div)
    then have "secp256k1_scalar_get_bits_var a offset count = secp256k1_scalar_get_bits a offset count"
      by (simp add: secp256k1_scalar_get_bits_var_def)
    moreover have "o' mod 32 + c \<le> 32" 
      using True div_mult_mod_eq [of "o' + c - 1" 32] div_mult_mod_eq [of o' 32]
        mod_less_divisor [of 32 "o' + c - 1"] assms(1) unfolding oc by linarith
    ultimately show ?thesis
      using secp256k1_scalar_get_bits_eq [of count offset a] assms by (simp add: oc)
  next
    case False
    then have g: "secp256k1_scalar_get_bits_var a offset count =
       (drop_bit (o' mod 32) (scalar_limbs a ! (o' div 32)) OR
        push_bit (32 - o' mod 32) (scalar_limbs a ! (o' div 32 + 1))) AND (push_bit c 1 - 1)"
      unfolding secp256k1_scalar_get_bits_var_def unat_offset next' sh oc
      by (simp add: word_unat_eq_iff unat_offset last oc del: drop_bit_eq_div)
    have "o' div 32 \<le> (o' + c - 1) div 32" using assms(1) unfolding oc by (intro div_le_mono) linarith
    moreover have "(o' + c - 1) div 32 < 8" using assms unfolding oc by (simp add: div_less_iff_less_mult)
    ultimately have i: "o' div 32 < 8" "o' div 32 + 1 < 8" using False by linarith+
    have "bit (uint (secp256k1_scalar_get_bits_var a offset count)) k \<longleftrightarrow>
      bit (take_bit c (drop_bit o' (scalar_val a))) k" for k
    proof -
      have m: "o' mod 32 < 32" by simp
      have o': "o' = 32 * (o' div 32) + o' mod 32" by simp
      have lo: "bit (drop_bit (o' mod 32) (scalar_limbs a ! (o' div 32))) k \<longleftrightarrow>
          o' mod 32 + k < 32 \<and> bit (scalar_val a) (o' + k)"
        using i(1) by (simp add: bit_drop_bit_eq bit_nth_lval scalar_val_def del: drop_bit_eq_div flip: add.assoc)
      have hi: "bit (push_bit (32 - o' mod 32) (scalar_limbs a ! (o' div 32 + 1))) k \<longleftrightarrow>
          k < 32 \<and> 32 \<le> o' mod 32 + k \<and> bit (scalar_val a) (o' + k)"
      proof (cases "32 \<le> o' mod 32 + k")
        case True
        then have "32 * (o' div 32 + 1) + (k - (32 - o' mod 32)) = o' + k"
          using m by (subst (3) o') (rule window)
        with True i(2) show ?thesis
          unfolding bit_push_bit_iff bit_nth_lval [of "o' div 32 + 1" "scalar_limbs a", simplified length_scalar_limbs, OF i(2)]
            scalar_val_def [symmetric] by auto
      next
        case False
        then show ?thesis unfolding bit_push_bit_iff by auto
      qed
      show ?thesis
        unfolding g bit_uint_iff bit_and_iff bit_or_iff lo hi bit_low_mask [OF assms(2) [unfolded oc]]
        using assms(2) unfolding oc by (auto simp: bit_take_bit_iff bit_drop_bit_eq)
    qed
    then show ?thesis unfolding oc by (intro bit_eqI)
  qed
qed

lemma bit_lval:
  fixes xs :: "u32 list"
  shows "bit (lval 32 xs) k \<longleftrightarrow> k < 32 * length xs \<and> bit (xs ! (k div 32)) (k mod 32)"
proof (cases "k < 32 * length xs")
  case True
  then have "k div 32 < length xs" by (simp add: div_less_iff_less_mult mult.commute)
  from bit_nth_lval [OF this, of "k mod 32"] True show ?thesis by simp
next
  case False
  have "lval 32 xs < 2 ^ (32 * length xs)" by (rule lval_bound) (simp add: uint_u32_less)
  then have "take_bit (32 * length xs) (lval 32 xs) = lval 32 xs" by (simp add: take_bit_int_eq_self)
  with False show ?thesis by (metis bit_take_bit_iff)
qed

lemma bit_shifted_limb:
  assumes "length l = 16" and "256 \<le> shift" and "i < 8"
  shows "bit (shifted_limb l shift i) k \<longleftrightarrow> k < 32 \<and> bit (lval 32 l) (shift + 32 * i + k)"
proof -
  define q r where "q = shift div 32" and "r = shift mod 32"
  have s: "shift = 32 * q + r" and r: "r < 32" by (simp_all add: q_def r_def)
  have lo: "bit (drop_bit r (l ! (i + q))) k \<longleftrightarrow> r + k < 32 \<and> bit (lval 32 l) (shift + 32 * i + k)"
    if "i + q < 16"
    using that assms(1) by (simp add: bit_drop_bit_eq bit_nth_lval s algebra_simps del: drop_bit_eq_div)
  have hi: "bit (push_bit (32 - r) (l ! (Suc i + q))) k \<longleftrightarrow>
      k < 32 \<and> 32 \<le> r + k \<and> bit (lval 32 l) (shift + 32 * i + k)" if "Suc i + q < 16"
  proof (cases "32 \<le> r + k")
    case True
    have e: "32 * (Suc i + q) + (k - (32 - r)) = shift + 32 * i + k"
      using window [OF True r, of "i + q"] by (simp add: s)
    have "bit (l ! (Suc i + q)) (k - (32 - r)) \<longleftrightarrow>
       k - (32 - r) < 32 \<and> bit (lval 32 l) (32 * (Suc i + q) + (k - (32 - r)))"
      using that assms(1) by (intro bit_nth_lval) simp
    from this [unfolded e] show ?thesis using True r unfolding bit_push_bit_iff by auto
  next
    case False
    then show ?thesis unfolding bit_push_bit_iff by auto
  qed
  have top: "\<not> bit (lval 32 l) j" if "512 \<le> j" for j
    using that assms(1) by (simp add: bit_lval)
  show ?thesis
  proof (cases "shift < 512 - 32 * i")
    case True
    then have iq: "i + q < 16" using assms(3) by (simp add: s)
    show ?thesis
    proof (cases "i < 7 \<and> shift < 480 - 32 * i \<and> r \<noteq> 0")
      case True
      then have "Suc i + q < 16" unfolding s by linarith
      from hi [OF this] lo [OF iq] True \<open>shift < 512 - 32 * i\<close> show ?thesis
        unfolding shifted_limb_def q_def [symmetric] r_def [symmetric] Let_def
        by (auto simp: bit_or_iff simp del: drop_bit_eq_div push_bit_eq_mult)
    next
      case False
      have "\<not> bit (lval 32 l) (shift + 32 * i + k)" if "32 \<le> r + k" "k < 32"
      proof (rule top)
        have "480 \<le> shift + 32 * i" using False that assms(2,3) by auto
        then have "15 \<le> i + q" using r by (simp add: s)
        with that show "512 \<le> shift + 32 * i + k" by (simp add: s)
      qed
      with False lo [OF iq] \<open>shift < 512 - 32 * i\<close> show ?thesis
        unfolding shifted_limb_def q_def [symmetric] r_def [symmetric] Let_def
        by (auto simp del: drop_bit_eq_div push_bit_eq_mult)
    qed
  next
    case False
    with top show ?thesis by (simp add: shifted_limb_def)
  qed
qed

lemma secp256k1_scalar_mul_shift_var_val:
  assumes "256 \<le> shift" and "shift \<le> 512"
  shows "scalar_val (secp256k1_scalar_mul_shift_var a b shift) =
    (scalar_val a * scalar_val b + 2 ^ (shift - 1)) div 2 ^ shift"
proof -
  define l where "l = secp256k1_scalar_mul_512 a b"
  have l: "length l = 16" "lval 32 l = scalar_val a * scalar_val b"
    using secp256k1_scalar_mul_512_val [of a b] by (simp_all add: l_def)
  define r where "r = scalar_of (map (shifted_limb l shift) [0..<8])"
  define f where "f = drop_bit ((shift - 1) mod 32) (l ! ((shift - 1) div 32)) AND 1"
  have res: "secp256k1_scalar_mul_shift_var a b shift = secp256k1_scalar_cadd_bit r 0 f"
    by (simp add: secp256k1_scalar_mul_shift_var_def l_def r_def f_def Let_def)
  have r: "scalar_val r = lval 32 l div 2 ^ shift"
  proof -
    have "scalar_val r = lval 32 (map (shifted_limb l shift) [0..<8])"
      unfolding r_def by (intro scalar_val_of) simp
    also have "\<dots> = drop_bit shift (lval 32 l)"
    proof (rule bit_eqI)
      fix k
      show "bit (lval 32 (map (shifted_limb l shift) [0..<8])) k \<longleftrightarrow> bit (drop_bit shift (lval 32 l)) k"
      proof (cases "k < 256")
        case True
        then have "k div 32 < 8" by simp
        then have "bit (lval 32 (map (shifted_limb l shift) [0..<8])) k \<longleftrightarrow>
            bit (lval 32 l) (shift + 32 * (k div 32) + k mod 32)"
          using True by (simp add: bit_lval [of "map _ _"] bit_shifted_limb [OF l(1) assms(1)])
        then show ?thesis by (simp add: bit_drop_bit_eq add.assoc)
      next
        case False
        then show ?thesis using assms(1) l(1) by (simp add: bit_lval bit_drop_bit_eq)
      qed
    qed
    finally show ?thesis by (simp add: drop_bit_eq_div)
  qed
  have f: "f = of_bool (bit (lval 32 l) (shift - 1))"
  proof -
    have "f = of_bool (bit (l ! ((shift - 1) div 32)) ((shift - 1) mod 32))"
      unfolding f_def and_one_eq by (simp add: mod_2_eq_odd bit_iff_odd_drop_bit del: drop_bit_eq_div)
    then show ?thesis using l(1) assms by (auto simp: bit_lval)
  qed
  have "(x + 2 ^ (shift - 1)) div 2 ^ shift = x div 2 ^ shift + of_bool (bit x (shift - 1))" for x :: int
  proof -
    have p: "(2 :: int) ^ shift = 2 ^ (shift - 1) * 2" using assms(1) by (simp flip: power_Suc2)
    have y: "(y + 1) div 2 = y div 2 + of_bool (odd y)" for y :: int by (cases "even y") auto
    have "(x + 2 ^ (shift - 1)) div 2 ^ (shift - 1) = x div 2 ^ (shift - 1) + 1"
      by (rule div_add_self2) simp
    then show ?thesis
      unfolding p zdiv_zmult2_eq [of "2 :: int", simplified] bit_iff_odd by (simp only: y)
  qed
  moreover have "scalar_val r + uint f < 2 ^ 256"
  proof -
    have "scalar_val a * scalar_val b \<le> (2 ^ 256 - 1) * (2 ^ 256 - 1)"
      using scalar_val_bounds [of a] scalar_val_bounds [of b] by (intro mult_mono) auto
    then have "lval 32 l div 2 ^ 256 \<le> ((2 ^ 256 - 1) * (2 ^ 256 - 1)) div 2 ^ 256"
      unfolding l(2) by (intro zdiv_mono1) auto
    also have "\<dots> = 2 ^ 256 - 2" by simp
    finally have "lval 32 l div 2 ^ 256 \<le> 2 ^ 256 - 2" .
    moreover have "lval 32 l div 2 ^ shift \<le> lval 32 l div 2 ^ 256"
      using power_increasing [OF assms(1), of "2 :: int"] by (intro zdiv_mono2) simp_all
    ultimately show ?thesis unfolding r f by (simp split: if_splits)
  qed
  moreover have "0 \<le> scalar_val r + uint f" using scalar_val_bounds(1) [of r] by simp
  ultimately show ?thesis
    using secp256k1_scalar_cadd_bit_val [of 0 f r] unfolding res l(2) [symmetric]
    by (simp add: r f)
qed

end
