(* ===== verification/Ecdsa_Der.thy ===== *)
theory Ecdsa_Der
  imports Scalar_8x32 "HOL-Library.Monad_Syntax"
begin

text \<open>
  The DER parser and serializer of signatures (\<open>ecdsa_impl.h\<close>). The pointer \<open>sig\<close> with its end
  \<open>sigend\<close> is the rest of the input as a list, so \<open>sigend - sig\<close> is its length. Every read goes
  through \<open>rd\<close> or \<open>rd_n\<close>, which are \<open>None\<close> past the end: an outer \<open>None\<close> is a read out of bounds
  (undefined behaviour in C), an inner \<open>None\<close> is the return value 0. \<open>size_t\<close> is 64 bits wide and
  \<open>int\<close> 32 bits, so the length that \<open>secp256k1_der_read_len\<close> returns is truncated as the source
  truncates it.

  The encoding of X.690 is written down independently (\<open>der_length\<close>, \<open>der_integer\<close>,
  \<open>der_signature\<close>); the lemmas show that the parser never reads out of bounds and accepts exactly
  that language, and that the serializer writes the encoding of its two scalars.
\<close>

subsection \<open>Reading\<close>

text \<open>A read at an offset of the rest of the input, and a read of its first \<open>n\<close> bytes.\<close>

definition rd :: "u8 list \<Rightarrow> nat \<Rightarrow> u8 option" where
  "rd sig i = (if i < length sig then Some (sig ! i) else None)"

definition rd_n :: "u8 list \<Rightarrow> nat \<Rightarrow> u8 list option" where
  "rd_n sig n = (if n \<le> length sig then Some (take n sig) else None)"

text \<open>The loop over the long form of a length: \<open>(None, _)\<close> is its \<open>return -1\<close>.\<close>

primrec read_len_loop :: "nat \<Rightarrow> u64 \<Rightarrow> u8 list \<Rightarrow> (u64 option \<times> u8 list) option" where
  "read_len_loop 0 ret sig = Some (Some ret, sig)"
| "read_len_loop (Suc k) ret sig = do {
     b \<leftarrow> rd sig 0;
     let ret = push_bit 8 ret OR ucast b;
     if ret + of_nat (Suc k) > of_nat (length sig) then Some (None, sig)
     else read_len_loop k ret (drop 1 sig)
   }"

definition secp256k1_der_read_len :: "u8 list \<Rightarrow> (int \<times> u8 list) option" where
  "secp256k1_der_read_len sig =
     (if sig = [] then Some (- 1, sig)
      else do {
        b1 \<leftarrow> rd sig 0;
        let sig = drop 1 sig;
        if b1 = 0xFF then Some (- 1, sig)
        else if b1 AND 0x80 = 0 then Some (uint b1, sig)
        else if b1 = 0x80 then Some (- 1, sig)
        else (let lenleft = unat (b1 AND 0x7F) in
          if lenleft > length sig then Some (- 1, sig)
          else do {
            b \<leftarrow> rd sig 0;
            if b = 0 then Some (- 1, sig)
            else if lenleft > 8 then Some (- 1, sig)
            else do {
              (res, sig) \<leftarrow> read_len_loop lenleft 0 sig;
              case res of
                None \<Rightarrow> Some (- 1, sig)
              | Some ret \<Rightarrow> if ret < 128 then Some (- 1, sig) else Some (sint (ucast ret :: u32), sig)
            }
          })
      })"

subsection \<open>Integers\<close>

primrec skip_zeros :: "nat \<Rightarrow> u8 list \<Rightarrow> (nat \<times> u8 list) option" where
  "skip_zeros 0 sig = Some (0, sig)"
| "skip_zeros (Suc n) sig = do {
     b \<leftarrow> rd sig 0;
     if b = 0 then skip_zeros n (drop 1 sig) else Some (Suc n, sig)
   }"

text \<open>The part of \<open>secp256k1_der_parse_integer\<close> after the length has been checked.\<close>

definition der_integer_body :: "nat \<Rightarrow> u8 list \<Rightarrow> (secp256k1_scalar \<times> u8 list) option option" where
  "der_integer_body rlen sig = do {
     b0 \<leftarrow> rd sig 0;
     pad0 \<leftarrow> (if b0 = 0x00 \<and> rlen > 1 then do { b1 \<leftarrow> rd sig 1; Some (b1 AND 0x80 = 0x00) } else Some False);
     if pad0 then Some None
     else do {
       padF \<leftarrow> (if b0 = 0xFF \<and> rlen > 1 then do { b1 \<leftarrow> rd sig 1; Some (b1 AND 0x80 = 0x80) } else Some False);
       if padF then Some None
       else do {
         let overflow = (b0 AND 0x80 = 0x80);
         (rlen, sig) \<leftarrow> skip_zeros rlen sig;
         let overflow = (overflow \<or> rlen > 32);
         (r, overflow) \<leftarrow>
           (if \<not> overflow then do {
              bytes \<leftarrow> rd_n sig rlen;
              let (r, ov) = secp256k1_scalar_set_b32 (buf_write (replicate 32 0) (32 - rlen) bytes);
              Some (r, ov \<noteq> 0)
            }
            else Some (secp256k1_scalar_set_int 0, True));
         let r = (if overflow then secp256k1_scalar_set_int 0 else r);
         Some (Some (r, drop rlen sig))
       }
     }
   }"

definition secp256k1_der_parse_integer :: "u8 list \<Rightarrow> (secp256k1_scalar \<times> u8 list) option option" where
  "secp256k1_der_parse_integer sig =
     (if sig = [] then Some None
      else do {
        tag \<leftarrow> rd sig 0;
        if tag \<noteq> 0x02 then Some None
        else do {
          (rlen, sig) \<leftarrow> secp256k1_der_read_len (drop 1 sig);
          if rlen \<le> 0 \<or> rlen > int (length sig) then Some None
          else der_integer_body (nat rlen) sig
        }
      })"

subsection \<open>Signatures\<close>

definition secp256k1_ecdsa_sig_parse :: "u8 list \<Rightarrow> (secp256k1_scalar \<times> secp256k1_scalar) option option" where
  "secp256k1_ecdsa_sig_parse sig =
     (if sig = [] then Some None
      else do {
        tag \<leftarrow> rd sig 0;
        if tag \<noteq> 0x30 then Some None
        else do {
          (rlen, sig) \<leftarrow> secp256k1_der_read_len (drop 1 sig);
          if rlen < 0 \<or> rlen > int (length sig) then Some None
          else if rlen \<noteq> int (length sig) then Some None
          else do {
            rr \<leftarrow> secp256k1_der_parse_integer sig;
            case rr of
              None \<Rightarrow> Some None
            | Some (r, sig) \<Rightarrow> do {
                rs \<leftarrow> secp256k1_der_parse_integer sig;
                case rs of
                  None \<Rightarrow> Some None
                | Some (s, sig) \<Rightarrow> if sig \<noteq> [] then Some None else Some (Some (r, s))
              }
          }
        }
      })"

text \<open>The loop that strips leading zero bytes that are not needed for the sign.\<close>

fun strip_zeros :: "u8 list \<Rightarrow> u8 list" where
  "strip_zeros (a # b # bs) = (if a = 0 \<and> b < 0x80 then strip_zeros (b # bs) else a # b # bs)"
| "strip_zeros bs = bs"

text \<open>The return value, the new \<open>*size\<close> and the new contents of the output buffer.\<close>

definition secp256k1_ecdsa_sig_serialize ::
  "u8 list \<Rightarrow> nat \<Rightarrow> secp256k1_scalar \<Rightarrow> secp256k1_scalar \<Rightarrow> bool \<times> nat \<times> u8 list" where
  "secp256k1_ecdsa_sig_serialize sig size0 ar as =
     (let rp = strip_zeros (0 # secp256k1_scalar_get_b32 ar);
          sp = strip_zeros (0 # secp256k1_scalar_get_b32 as);
          lenR = length rp;
          lenS = length sp
      in if size0 < 6 + lenS + lenR then (False, 6 + lenS + lenR, sig)
         else (let size1 = 6 + lenS + lenR;
                   sig = sig[0 := 0x30];
                   sig = sig[1 := of_nat (4 + lenS + lenR)];
                   sig = sig[2 := 0x02];
                   sig = sig[3 := of_nat lenR];
                   sig = buf_write sig 4 rp;
                   sig = sig[4 + lenR := 0x02];
                   sig = sig[5 + lenR := of_nat lenS];
                   sig = buf_write sig (lenR + 6) sp
               in (True, size1, sig)))"

subsection \<open>The encoding of X.690\<close>

text \<open>The shortest base-256 digits of a number, highest first; the shortest length octets; a minimal
  two's complement content; the encoding of a pair of integers.\<close>

fun be_digits :: "nat \<Rightarrow> u8 list" where
  "be_digits n = (if n = 0 then [] else be_digits (n div 256) @ [of_nat n])"

declare be_digits.simps [simp del]

definition der_length :: "nat \<Rightarrow> u8 list" where
  "der_length n = (if n < 128 then [of_nat n] else of_nat (128 + length (be_digits n)) # be_digits n)"

definition der_minimal :: "u8 list \<Rightarrow> bool" where
  "der_minimal xs \<longleftrightarrow> xs \<noteq> [] \<and>
     (length xs > 1 \<longrightarrow> \<not> (xs ! 0 = 0 \<and> xs ! 1 < 0x80) \<and> \<not> (xs ! 0 = 0xFF \<and> xs ! 1 \<ge> 0x80))"

definition der_integer :: "u8 list \<Rightarrow> u8 list" where
  "der_integer xs = 0x02 # der_length (length xs) @ xs"

definition der_signature :: "u8 list \<Rightarrow> u8 list \<Rightarrow> u8 list" where
  "der_signature x y = 0x30 # der_length (length (der_integer x @ der_integer y)) @ der_integer x @ der_integer y"

text \<open>The scalar an integer stands for: negative and too large values are read as zero.\<close>

definition der_scalar :: "u8 list \<Rightarrow> int" where
  "der_scalar xs = (if hd xs \<ge> 0x80 \<or> be_val xs \<ge> secp256k1_n then 0 else be_val xs)"

subsection \<open>Lengths\<close>

lemma u8_high_bit: "(b :: u8) AND 0x80 = 0 \<longleftrightarrow> b < 0x80" "(b :: u8) AND 0x80 = 0x80 \<longleftrightarrow> b \<ge> 0x80"
proof -
  have bit: "bit b 7 \<longleftrightarrow> 0x80 \<le> b"
  proof -
    have "bit b 7 \<longleftrightarrow> bit (uint b) 7" by (simp add: bit_uint_iff)
    also have "\<dots> \<longleftrightarrow> odd (uint b div 128)" by (simp add: bit_iff_odd)
    also have "\<dots> \<longleftrightarrow> 128 \<le> uint b"
      using uint_u8_less [of b] by (cases "128 \<le> uint b") (simp_all add: div_pos_geq)
    finally show ?thesis by (simp add: word_le_def)
  qed
  have "b AND 0x80 = (if bit b 7 then 0x80 else 0)"
  proof -
    have e: "(0x80 :: u8) = push_bit 7 1" by simp
    have h: "bit (0x80 :: u8) n \<longleftrightarrow> n = 7" for n
      unfolding e bit_push_bit_iff bit_1_iff possible_bit_def by auto
    show ?thesis
      by (rule bit_eqI) (simp only: bit_and_iff h if_distrib [where f = bit] if_distribR bit_0_eq bot_apply, auto)
  qed
  then show "b AND 0x80 = 0 \<longleftrightarrow> b < 0x80" "b AND 0x80 = 0x80 \<longleftrightarrow> b \<ge> 0x80"
    using bit by auto
qed

lemma be_digits_val: "be_val (be_digits n) = int n"
proof (induction n rule: be_digits.induct)
  case (1 n)
  then show ?case
    by (subst be_digits.simps) (auto simp: be_val_append be_val_Cons unsigned_of_nat take_bit_eq_mod of_nat_mod zdiv_int)
qed

lemma be_digits_hd: "0 < n \<Longrightarrow> be_digits n \<noteq> [] \<and> hd (be_digits n) \<noteq> 0"
proof (induction n rule: be_digits.induct)
  case (1 n)
  show ?case
  proof (cases "n div 256 = 0")
    case True
    then have "be_digits n = [of_nat n]" using 1(2) by (simp add: be_digits.simps)
    moreover have "n < 256" using True by simp
    ultimately show ?thesis using 1(2) by (simp add: word_of_nat_eq_0_iff nat_dvd_not_less)
  next
    case False
    then show ?thesis using 1 by (subst (1 2) be_digits.simps) auto
  qed
qed

lemma be_digits_unique: "xs \<noteq> [] \<Longrightarrow> hd xs \<noteq> 0 \<Longrightarrow> be_digits (nat (be_val xs)) = xs"
proof (induction xs rule: rev_induct)
  case (snoc b bs)
  have v: "be_val (bs @ [b]) = be_val bs * 256 + uint b" by (simp add: be_val_append be_val_Cons)
  have d: "nat (be_val (bs @ [b])) div 256 = nat (be_val bs)"
    "(of_nat (nat (be_val (bs @ [b]))) :: u8) = b"
  proof -
    have "(be_val bs * 256 + uint b) div 256 = be_val bs" "0 \<le> be_val bs * 256 + uint b"
      using uint_u8_less [of b] by simp_all
    then show "nat (be_val (bs @ [b])) div 256 = nat (be_val bs)" unfolding v
      using nat_div_distrib [of "be_val bs * 256 + uint b" 256] by simp
    show "(of_nat (nat (be_val (bs @ [b]))) :: u8) = b"
      unfolding v word_uint_eq_iff of_nat_nat [OF \<open>0 \<le> be_val bs * 256 + uint b\<close>] uint_word_of_int
      using uint_u8_less [of b] by simp
  qed
  show ?case
  proof (cases "bs = []")
    case True
    then have "be_val (bs @ [b]) \<noteq> 0" using snoc.prems by (simp add: be_val_Cons uint_0_iff)
    then have "0 < be_val (bs @ [b])" using be_val_nonneg [of "bs @ [b]"] by linarith
    then show ?thesis using True d
      by (subst be_digits.simps) (simp add: be_digits.simps [of 0])
  next
    case False
    then have ih: "be_digits (nat (be_val bs)) = bs" using snoc by simp
    then have "be_val bs \<noteq> 0" using False by (auto simp: be_digits.simps)
    then have "0 < be_val (bs @ [b])" using be_val_nonneg [of bs] uint_ge_0 [of b] unfolding v by linarith
    then show ?thesis using ih d by (subst be_digits.simps) simp
  qed
qed simp

lemma read_len_loop_eq:
  assumes "uint ret + int k \<le> int (length sig)" and "length sig < 2 ^ 31"
  shows "\<exists>s'. read_len_loop k ret sig =
    Some (if uint ret * 256 ^ k + be_val (take k sig) + int k \<le> int (length sig)
          then (Some (word_of_int (uint ret * 256 ^ k + be_val (take k sig))), drop k sig) else (None, s'))"
  using assms
proof (induction k arbitrary: ret sig)
  case 0
  then show ?case by simp
next
  case (Suc k)
  obtain b t where sig: "sig = b # t" using Suc.prems(1) uint_ge_0 [of ret] by (cases sig) auto
  define ret' where "ret' = push_bit 8 ret OR (ucast b :: u64)"
  have len: "int (length sig) < 2 ^ 31" using Suc.prems(2) by simp
  then have small: "uint ret < 2 ^ 31" using Suc.prems(1) by linarith
  have ret': "uint ret' = uint ret * 256 + uint b"
  proof -
    have "ret' = ucast b + push_bit 8 ret"
      unfolding ret'_def or.commute [of "push_bit 8 ret"] using uint_u8_less [of b]
      by (intro or_push_bit) (simp add: uint_up_ucast is_up)
    moreover have "uint (push_bit 8 ret) = uint ret * 256"
      using small by (simp add: uint_shl del: push_bit_eq_mult)
    ultimately show ?thesis using small uint_u8_less [of b]
      by (simp add: uint_word_ariths uint_up_ucast is_up)
  qed
  define V where "V = uint ret' * 256 ^ k + be_val (take k t)"
  have "int (Suc k) \<le> int (length sig)" using Suc.prems(1) uint_ge_0 [of ret] by linarith
  then have k: "k \<le> length t" "int (Suc k) < 2 ^ 31" using len by (simp_all add: sig)
  have V: "uint ret * 256 ^ Suc k + be_val (take (Suc k) sig) = V"
    using k(1) sig
    by (simp add: V_def ret' be_val_Cons min_absorb2 algebra_simps)
  have le: "uint ret' \<le> V"
    using be_val_nonneg [of "take k t"] mult_left_mono [of 1 "256 ^ k" "uint ret'"]
    by (simp add: V_def add_increasing2)
  have chk: "ret' + of_nat (Suc k) > of_nat (length sig) \<longleftrightarrow> int (length sig) < uint ret' + int (Suc k)"
  proof -
    have "int (Suc k) < 2 ^ 31" "uint ret' < 2 ^ 40" using k(2) small ret' uint_u8_less [of b] uint_ge_0 [of ret] by simp_all
    then have "uint (ret' + of_nat (Suc k)) = uint ret' + int (Suc k)" "uint (of_nat (length sig) :: u64) = int (length sig)"
      using len by (simp_all add: uint_word_ariths unsigned_of_nat take_bit_eq_mod mod_pos_pos_trivial del: of_nat_Suc)
    then show ?thesis by (simp add: word_less_def)
  qed
  show ?case
  proof (cases "int (length sig) < uint ret' + int (Suc k)")
    case True
    then have "read_len_loop (Suc k) ret sig = Some (None, sig)"
      using chk by (simp add: rd_def sig ret'_def Let_def)
    then show ?thesis using True le unfolding V by auto
  next
    case False
    then have "read_len_loop (Suc k) ret sig = read_len_loop k ret' t"
      using chk by (simp add: rd_def sig ret'_def Let_def)
    moreover have "uint ret' + int k \<le> int (length t)" "length t < 2 ^ 31" using False Suc.prems sig by simp_all
    ultimately show ?thesis
      using Suc.IH [of ret' t] unfolding V V_def [symmetric] by (auto simp: sig)
  qed
qed

lemma secp256k1_der_read_len_short: "n < 128 \<Longrightarrow> secp256k1_der_read_len (der_length n @ rest) = Some (int n, rest)"
proof -
  assume n: "n < 128"
  define b where "b = (of_nat n :: u8)"
  have u: "uint b = int n" using n by (simp add: b_def unsigned_of_nat take_bit_eq_mod)
  then have "b \<noteq> 0xFF" "b < 0x80" using n by (auto simp: word_less_def)
  then show ?thesis
    using n u by (simp add: secp256k1_der_read_len_def der_length_def b_def [symmetric] rd_def u8_high_bit)
qed

lemma length_be_digits_le: "be_digits n = xs \<Longrightarrow> n < 256 ^ k \<Longrightarrow> length xs \<le> k"
proof (rule ccontr)
  assume xs: "be_digits n = xs" and n: "n < 256 ^ k" and "\<not> length xs \<le> k"
  then obtain b t where t: "xs = b # t" "k \<le> length t" by (cases xs) auto
  then have "n \<noteq> 0" using xs be_digits.simps [of 0] by (cases n) auto
  then have "b \<noteq> 0" using be_digits_hd [of n] xs t by auto
  then have "1 \<le> uint b" using uint_0_iff [of b] uint_ge_0 [of b] by linarith
  then have "256 ^ length t \<le> be_val xs"
    using be_val_nonneg [of t] mult_right_mono [of 1 "uint b" "256 ^ length t"]
    by (simp add: t be_val_Cons add_increasing2)
  moreover have "(256 :: int) ^ k \<le> 256 ^ length t" using t by simp
  ultimately have "256 ^ k \<le> int n" using be_digits_val [of n] unfolding xs by linarith
  then show False using n by (simp flip: of_nat_le_iff) 
qed

lemma read_len_int:
  assumes "n < 2 ^ 31"
  shows "(of_nat n :: u64) < 128 \<longleftrightarrow> n < 128" "sint (ucast (of_nat n :: u64) :: u32) = int n"
proof -
  show "(of_nat n :: u64) < 128 \<longleftrightarrow> n < 128" using assms by (simp add: word_less_nat_alt unat_of_nat)
  have u: "unat (of_nat n :: u64) = n" using assms by (simp add: unat_of_nat)
  have "unat (ucast (of_nat n :: u64) :: u32) = n"
    unfolding unsigned_ucast_eq unat_of_nat take_bit_eq_mod using u assms by (simp add: unsigned_take_bit_eq) 
  then have "ucast (of_nat n :: u64) = (of_nat n :: u32)"
    using assms by (simp add: word_unat_eq_iff unat_of_nat)
  then show "sint (ucast (of_nat n :: u64) :: u32) = int n"
    using assms by (simp add: signed_of_nat signed_take_bit_int_eq_self)
qed

lemma unat_u8_less: "unat (b :: u8) < 256"
proof -
  have "int (unat b) < 256" using uint_u8_less [of b] by simp
  then show ?thesis by linarith
qed

lemma unat_low7: "unat (b AND 0x7F :: u8) = unat b mod 128"
  using unat_and_mask [of "0x7F" 7 b] by (simp add: mask_eq_exp_minus_1)

lemma secp256k1_der_read_len_long:
  assumes "128 \<le> n" and "n \<le> length rest" and "length (der_length n @ rest) < 2 ^ 31"
  shows "secp256k1_der_read_len (der_length n @ rest) = Some (int n, rest)"
proof -
  define ds where "ds = be_digits n"
  define sig where "sig = ds @ rest"
  define b where "b = (of_nat (128 + length ds) :: u8)"
  have n31: "n < 2 ^ 31" using assms by simp
  then have "length ds \<le> 4" unfolding ds_def by (intro length_be_digits_le [OF refl]) simp
  moreover have ds: "ds \<noteq> []" "hd ds \<noteq> 0" using be_digits_hd [of n] assms(1) by (auto simp: ds_def)
  ultimately have b: "b \<noteq> 0xFF" "\<not> b < 0x80" "b \<noteq> 0x80" "unat (b AND 0x7F) = length ds"
  proof -
    have "length ds = 1 \<or> length ds = 2 \<or> length ds = 3 \<or> length ds = 4"
      using \<open>length ds \<le> 4\<close> ds(1) by (cases "length ds") (simp, arith)
    then show "b \<noteq> 0xFF" "\<not> b < 0x80" "b \<noteq> 0x80" "unat (b AND 0x7F) = length ds"
      unfolding b_def by (elim disjE, simp_all)+
  qed
  have "length sig < 2 ^ 31" using assms(1,3) by (simp add: sig_def ds_def der_length_def)
  moreover have "be_val (take (length ds) sig) = int n" "drop (length ds) sig = rest" "length sig = length ds + length rest"
    using be_digits_val [of n] by (simp_all add: sig_def ds_def)
  ultimately have loop: "read_len_loop (length ds) 0 sig = Some (Some (of_nat n), rest)"
    using read_len_loop_eq [of 0 "length ds" sig] assms(2) by auto
  have "\<not> (of_nat n :: u64) < 128" "sint (ucast (of_nat n :: u64) :: u32) = int n"
    using read_len_int [OF n31] assms(1) by simp_all
  moreover have "rd sig 0 = Some (hd ds)" using ds by (simp add: sig_def rd_def hd_conv_nth nth_append)
  moreover have "der_length n @ rest = b # sig" using assms(1) by (simp add: der_length_def b_def ds_def sig_def)
  ultimately show ?thesis
    using b loop ds \<open>length ds \<le> 4\<close>
    by (simp add: secp256k1_der_read_len_def rd_def [of "b # sig"] u8_high_bit Let_def) (simp add: sig_def)
qed

lemma long_form:
  assumes "(b :: u8) > 0x80"
  shows "unat b = 128 + unat b mod 128" "0 < unat b mod 128"
proof -
  have "128 < unat b" "unat b < 256" using assms unat_u8_less [of b] by (simp_all add: word_less_nat_alt)
  then have "unat b mod 128 = unat b - 128" by (simp add: le_mod_geq)
  then show "unat b = 128 + unat b mod 128" "0 < unat b mod 128" using \<open>128 < unat b\<close> by simp_all
qed

lemma secp256k1_der_read_len_sound:
  assumes "length sig < 2 ^ 31"
  shows "\<exists>n s'. secp256k1_der_read_len sig = Some (n, s') \<and>
    (n = - 1 \<or> 0 \<le> n \<and> sig = der_length (nat n) @ s' \<and> (128 \<le> n \<longrightarrow> n \<le> int (length s')))"
proof (cases sig)
  case Nil
  then show ?thesis by (simp add: secp256k1_der_read_len_def)
next
  case (Cons b t)
  define L where "L = unat (b AND 0x7F)"
  have L: "L = unat b mod 128" by (simp add: L_def unat_low7)
  consider "b = 0xFF" | "b < 0x80" | "b = 0x80" | "b \<noteq> 0xFF" "b > 0x80" "L > length t \<or> t ! 0 = 0 \<or> L > 8"
    | "b \<noteq> 0xFF" "b > 0x80" "L \<le> length t" "t ! 0 \<noteq> 0" "L \<le> 8"
    by (metis linorder_neqE not_le)
  then show ?thesis
  proof cases
    case 1
    then show ?thesis by (simp add: secp256k1_der_read_len_def Cons rd_def)
  next
    case 2
    then have n: "unat b < 128" by (simp add: word_less_nat_alt)
    then have e: "b # t = der_length (unat b) @ t" unfolding der_length_def by simp
    then have "secp256k1_der_read_len sig = Some (int (unat b), t)"
      using secp256k1_der_read_len_short [OF n, of t] unfolding Cons by (simp only:)
    moreover have "\<not> 128 \<le> int (unat b)" using n by linarith
    ultimately show ?thesis using e Cons by (metis nat_int of_nat_0_le_iff)
  next
    case 3
    then show ?thesis by (simp add: secp256k1_der_read_len_def Cons rd_def)
  next
    case 4
    have "L > 0" using long_form [OF 4(2)] by (simp add: L)
    then have "secp256k1_der_read_len sig = Some (- 1, t)"
      using 4 by (auto simp: secp256k1_der_read_len_def Cons rd_def u8_high_bit Let_def L_def [symmetric])
    then show ?thesis by blast
  next
    case 5
    have b: "unat b = 128 + L" "0 < L" using long_form [OF 5(2)] by (simp_all add: L)
    define V where "V = be_val (take L t)"
    have t: "length t < 2 ^ 31" using assms Cons by simp
    obtain s' where loop: "read_len_loop L 0 t =
        Some (if V + int L \<le> int (length t) then (Some (word_of_int V), drop L t) else (None, s'))"
      using read_len_loop_eq [of 0 L t, unfolded unsigned_0 mult_zero_left add_0] 5(3) t unfolding V_def by auto
    have run: "secp256k1_der_read_len sig = (case read_len_loop L 0 t of Some (res, sig) \<Rightarrow>
        (case res of None \<Rightarrow> Some (- 1, sig)
         | Some ret \<Rightarrow> if ret < 128 then Some (- 1, sig) else Some (sint (ucast ret :: u32), sig)))"
      using 5 b(2) loop by (auto simp: secp256k1_der_read_len_def Cons rd_def u8_high_bit Let_def L_def [symmetric])
    show ?thesis
    proof (cases "V + int L \<le> int (length t) \<and> 128 \<le> V")
      case True
      define n where "n = nat V"
      have "V \<le> int (length t)" using True by linarith
      then have n: "V = int n" "n < 2 ^ 31" using True t by (simp_all add: n_def nat_less_iff)
      have "t \<noteq> []" using 5(3) b(2) by auto
      then have "take L t \<noteq> []" "hd (take L t) \<noteq> 0" using 5(4) b(2) by (simp_all add: hd_conv_nth)
      then have "be_digits n = take L t" unfolding n_def V_def by (rule be_digits_unique)
      moreover have "b = of_nat (128 + L)" using arg_cong [OF b(1), where f = "of_nat :: nat \<Rightarrow> u8"] by simp
      ultimately have "sig = der_length n @ drop L t"
        using True n 5(3) by (simp add: der_length_def Cons min_absorb2)
      moreover have "secp256k1_der_read_len sig = Some (int n, drop L t)"
        using True n read_len_int [OF n(2)] unfolding run loop by simp
      ultimately show ?thesis using True n by (intro exI [of _ "int n"] exI [of _ "drop L t"]) simp
    next
      case False
      have "secp256k1_der_read_len sig = Some (- 1, if V + int L \<le> int (length t) then drop L t else s')"
      proof (cases "V + int L \<le> int (length t)")
        case True
        define n where "n = nat V"
        have n: "V = int n" "n < 2 ^ 31" "n < 128" using True False t by (simp_all add: n_def V_def)
        show ?thesis using True n read_len_int [OF n(2)] unfolding run loop by simp
      qed (simp add: run loop)
      then show ?thesis by blast
    qed
  qed
qed

subsection \<open>The integer parser\<close>

lemma skip_zeros_minimal:
  assumes "xs \<noteq> []" and "length xs > 1 \<longrightarrow> \<not> (xs ! 0 = 0 \<and> xs ! 1 < 0x80)"
  shows "\<exists>ys. skip_zeros (length xs) (xs @ rest) = Some (length ys, ys @ rest) \<and> be_val ys = be_val xs \<and>
    (ys = [] \<or> hd ys \<noteq> 0)"
proof (cases xs)
  case (Cons b t)
  show ?thesis
  proof (cases "b = 0 \<and> t \<noteq> []")
    case True
    then obtain c u where "t = c # u" by (cases t) auto
    moreover then have "c \<noteq> 0" using True assms(2) Cons by auto
    ultimately show ?thesis using True
      by (intro exI [of _ t]) (simp add: Cons rd_def be_val_Cons)
  next
    case False
    then show ?thesis
      by (cases "b = 0") (auto simp: Cons rd_def be_val_Cons intro!: exI [of _ "[]"] exI [of _ "b # t"])
  qed
qed (use assms in simp)

lemma be_val_long: "ys \<noteq> [] \<Longrightarrow> hd ys \<noteq> 0 \<Longrightarrow> 256 ^ (length ys - 1) \<le> be_val ys"
proof (cases ys)
  case (Cons b t)
  assume "ys \<noteq> []" "hd ys \<noteq> 0"
  then have "1 \<le> uint b" using uint_0_iff [of b] uint_ge_0 [of b] unfolding Cons list.sel by linarith
  then show ?thesis
    using mult_right_mono [of 1 "uint b" "256 ^ length t"] by (simp add: Cons be_val_Cons add_increasing2)
qed simp

lemma der_integer_body_eq:
  assumes "xs \<noteq> []"
  shows "\<exists>r. der_integer_body (length xs) (xs @ rest) = Some (if der_minimal xs then Some (r, rest) else None) \<and>
    (der_minimal xs \<longrightarrow> scalar_val r = der_scalar xs)"
proof (cases "der_minimal xs")
  case False
  then have "der_integer_body (length xs) (xs @ rest) = Some None"
    using assms by (auto simp: der_integer_body_def der_minimal_def rd_def nth_append u8_high_bit not_less)
  then show ?thesis using False by auto
next
  case True
  then have min: "length xs > 1 \<longrightarrow> \<not> (xs ! 0 = 0 \<and> xs ! 1 < 0x80)" "length xs > 1 \<longrightarrow> \<not> (xs ! 0 = 0xFF \<and> xs ! 1 \<ge> 0x80)"
    by (auto simp: der_minimal_def)
  obtain ys where ys: "skip_zeros (length xs) (xs @ rest) = Some (length ys, ys @ rest)" "be_val ys = be_val xs"
    "ys = [] \<or> hd ys \<noteq> 0"
    using skip_zeros_minimal [OF assms min(1)] by blast
  define buf where "buf = buf_write (replicate 32 0) (32 - length ys) ys"
  define ov where "ov = (xs ! 0 \<ge> 0x80 \<or> length ys > 32)"
  define r where "r = (if ov then secp256k1_scalar_set_int 0
     else if snd (secp256k1_scalar_set_b32 buf) \<noteq> 0 then secp256k1_scalar_set_int 0 else fst (secp256k1_scalar_set_b32 buf))"
  have pads: "(if xs ! 0 = 0x00 \<and> length xs > 1 then do { b1 \<leftarrow> rd (xs @ rest) 1; Some (b1 AND 0x80 = 0x00) } else Some False) = Some False"
    "(if xs ! 0 = 0xFF \<and> length xs > 1 then do { b1 \<leftarrow> rd (xs @ rest) 1; Some (b1 AND 0x80 = 0x80) } else Some False) = Some False"
    using min by (auto simp: rd_def nth_append u8_high_bit)
  have rd0: "rd (xs @ rest) 0 = Some (xs ! 0)" using assms by (simp add: rd_def nth_append)
  have body: "der_integer_body (length xs) (xs @ rest) = Some (Some (r, rest))"
    unfolding der_integer_body_def rd0 bind.bind_lunit pads if_False ys(1)
    by (auto simp: u8_high_bit r_def ov_def rd_n_def buf_def [symmetric] split: prod.split)
  have "scalar_val r = der_scalar xs"
  proof (cases ov)
    case True
    have "secp256k1_n \<le> be_val xs" if "length ys > 32"
    proof -
      have "256 ^ 32 \<le> (256 :: int) ^ (length ys - 1)" using that by (intro power_increasing) simp_all
      moreover have "256 ^ (length ys - 1) \<le> be_val xs" using that be_val_long [of ys] ys(2,3) by fastforce
      moreover have "secp256k1_n \<le> 256 ^ 32" by (simp add: secp256k1_n_def)
      ultimately show ?thesis by linarith
    qed
    then show ?thesis using True assms
      by (auto simp: r_def ov_def der_scalar_def hd_conv_nth secp256k1_scalar_set_int_val)
  next
    case False
    have "buf = replicate (32 - length ys) 0 @ ys" using False by (simp add: buf_def buf_write_def ov_def)
    then have "be_val buf = be_val xs" "length buf = 32" using ys(2) False by (simp_all add: be_val_append ov_def)
    then show ?thesis
      using False assms secp256k1_scalar_set_b32_val [of buf]
      by (auto simp: r_def ov_def der_scalar_def hd_conv_nth secp256k1_scalar_set_int_val)
  qed
  then show ?thesis using True body by auto
qed

lemma secp256k1_der_parse_integer_complete:
  assumes "der_minimal xs" and "length (der_integer xs @ rest) < 2 ^ 31"
  shows "\<exists>r. secp256k1_der_parse_integer (der_integer xs @ rest) = Some (Some (r, rest)) \<and> scalar_val r = der_scalar xs"
proof -
  have xs: "xs \<noteq> []" using assms(1) by (simp add: der_minimal_def)
  have "secp256k1_der_read_len (der_length (length xs) @ xs @ rest) = Some (int (length xs), xs @ rest)"
    using secp256k1_der_read_len_short [of "length xs" "xs @ rest"] secp256k1_der_read_len_long [of "length xs" "xs @ rest"] assms(2)
    by (cases "length xs < 128") (simp_all add: der_integer_def)
  then have "secp256k1_der_parse_integer (der_integer xs @ rest) = der_integer_body (length xs) (xs @ rest)"
    using xs by (simp add: secp256k1_der_parse_integer_def der_integer_def rd_def)
  then show ?thesis using der_integer_body_eq [OF xs, of rest] assms(1) by auto
qed

lemma secp256k1_der_parse_integer_sound:
  assumes "length sig < 2 ^ 31"
  shows "\<exists>res. secp256k1_der_parse_integer sig = Some res \<and>
    (\<forall>r rest. res = Some (r, rest) \<longrightarrow>
      (\<exists>xs. der_minimal xs \<and> sig = der_integer xs @ rest \<and> scalar_val r = der_scalar xs))"
proof (cases "sig = [] \<or> sig ! 0 \<noteq> 2")
  case True
  then show ?thesis by (auto simp: secp256k1_der_parse_integer_def rd_def)
next
  case False
  then obtain t where sig: "sig = 2 # t" by (cases sig) auto
  obtain n s where len: "secp256k1_der_read_len t = Some (n, s)"
      "n = - 1 \<or> 0 \<le> n \<and> t = der_length (nat n) @ s \<and> (128 \<le> n \<longrightarrow> n \<le> int (length s))"
    using secp256k1_der_read_len_sound [of t] assms sig by auto
  show ?thesis
  proof (cases "n \<le> 0 \<or> n > int (length s)")
    case True
    then show ?thesis by (auto simp: secp256k1_der_parse_integer_def rd_def sig len(1))
  next
    case False
    define xs rest where "xs = take (nat n) s" and "rest = drop (nat n) s"
    have s: "s = xs @ rest" "length xs = nat n" "xs \<noteq> []" using False by (auto simp: xs_def rest_def)
    have "secp256k1_der_parse_integer sig = der_integer_body (length xs) (xs @ rest)"
      using False by (simp add: secp256k1_der_parse_integer_def rd_def sig len(1) s(2) flip: s(1))
    moreover have "sig = der_integer xs @ rest" using len(2) False s by (auto simp: sig der_integer_def)
    ultimately show ?thesis using der_integer_body_eq [OF s(3), of rest] by auto
  qed
qed

subsection \<open>The signature parser\<close>

lemma secp256k1_ecdsa_sig_parse_complete:
  assumes "der_minimal x" and "der_minimal y" and "length (der_signature x y) < 2 ^ 31"
  shows "\<exists>r s. secp256k1_ecdsa_sig_parse (der_signature x y) = Some (Some (r, s)) \<and>
    scalar_val r = der_scalar x \<and> scalar_val s = der_scalar y"
proof -
  define body where "body = der_integer x @ der_integer y"
  have sig: "der_signature x y = 0x30 # der_length (length body) @ body" by (simp add: der_signature_def body_def)
  have "secp256k1_der_read_len (der_length (length body) @ body) = Some (int (length body), body)"
    using secp256k1_der_read_len_short [of "length body" body] secp256k1_der_read_len_long [of "length body" body] assms(3)
    by (cases "length body < 128") (simp_all add: sig)
  moreover obtain r where "secp256k1_der_parse_integer body = Some (Some (r, der_integer y))" "scalar_val r = der_scalar x"
    using secp256k1_der_parse_integer_complete [OF assms(1), of "der_integer y"] assms(3) by (auto simp: sig body_def)
  moreover obtain s where "secp256k1_der_parse_integer (der_integer y) = Some (Some (s, []))" "scalar_val s = der_scalar y"
    using secp256k1_der_parse_integer_complete [OF assms(2), of "[]"] assms(3) by (auto simp: sig body_def)
  ultimately show ?thesis by (simp add: sig secp256k1_ecdsa_sig_parse_def rd_def)
qed

lemma secp256k1_ecdsa_sig_parse_sound:
  assumes "length sig < 2 ^ 31"
  shows "\<exists>res. secp256k1_ecdsa_sig_parse sig = Some res \<and>
    (\<forall>r s. res = Some (r, s) \<longrightarrow> (\<exists>x y. der_minimal x \<and> der_minimal y \<and> sig = der_signature x y \<and>
      scalar_val r = der_scalar x \<and> scalar_val s = der_scalar y))"
proof (cases "sig = [] \<or> sig ! 0 \<noteq> 0x30")
  case True
  then show ?thesis by (auto simp: secp256k1_ecdsa_sig_parse_def rd_def)
next
  case False
  then obtain t where sig: "sig = 0x30 # t" by (cases sig) auto
  obtain n b where len: "secp256k1_der_read_len t = Some (n, b)"
      "n = - 1 \<or> 0 \<le> n \<and> t = der_length (nat n) @ b \<and> (128 \<le> n \<longrightarrow> n \<le> int (length b))"
    using secp256k1_der_read_len_sound [of t] assms sig by auto
  show ?thesis
  proof (cases "n = int (length b)")
    case False
    then show ?thesis by (auto simp: secp256k1_ecdsa_sig_parse_def rd_def sig len(1))
  next
    case True
    have t: "t = der_length (length b) @ b" using len(2) True by auto
    have bl: "length b < 2 ^ 31" using assms t sig by simp
    obtain res1 where r1: "secp256k1_der_parse_integer b = Some res1"
      "\<And>r rest. res1 = Some (r, rest) \<Longrightarrow>
        (\<exists>xs. der_minimal xs \<and> b = der_integer xs @ rest \<and> scalar_val r = der_scalar xs)"
      using secp256k1_der_parse_integer_sound [OF bl] by blast
    show ?thesis
    proof (cases res1)
      case None
      then show ?thesis using r1(1) True by (simp add: secp256k1_ecdsa_sig_parse_def rd_def sig len(1))
    next
      case (Some p)
      then obtain r c where p: "res1 = Some (r, c)" by (cases p) auto
      obtain x where x: "der_minimal x" "b = der_integer x @ c" "scalar_val r = der_scalar x" using r1(2) [OF p] by blast
      obtain res2 where r2: "secp256k1_der_parse_integer c = Some res2"
        "\<And>s rest. res2 = Some (s, rest) \<Longrightarrow>
          (\<exists>xs. der_minimal xs \<and> c = der_integer xs @ rest \<and> scalar_val s = der_scalar xs)"
        using secp256k1_der_parse_integer_sound [of c] bl x(2) by auto
      have run: "secp256k1_ecdsa_sig_parse sig = Some (case res2 of None \<Rightarrow> None
          | Some (s, d) \<Rightarrow> if d \<noteq> [] then None else Some (r, s))"
        using True r1(1) r2(1) p by (simp add: secp256k1_ecdsa_sig_parse_def rd_def sig len(1) split: option.split)
      have "\<exists>y. der_minimal y \<and> sig = der_signature x y \<and> scalar_val s = der_scalar y"
        if "res2 = Some (s, [])" for s
        using r2(2) [OF that] x(2) t sig by (auto simp: der_signature_def)
      then show ?thesis
        unfolding run using x(1,3) by (fastforce split: option.splits if_splits)
    qed
  qed
qed

subsection \<open>The serializer\<close>

lemma strip_zeros_spec:
  assumes "bs \<noteq> []" and "hd bs < 0x80"
  shows "der_minimal (strip_zeros bs) \<and> be_val (strip_zeros bs) = be_val bs \<and>
    hd (strip_zeros bs) < 0x80 \<and> length (strip_zeros bs) \<le> length bs"
  using assms
proof (induction bs rule: strip_zeros.induct)
  case (1 a b bs)
  show ?case
  proof (cases "a = 0 \<and> b < 0x80")
    case True
    then show ?thesis using 1 by (simp add: be_val_Cons [of 0])
  next
    case False
    then show ?thesis using 1 by (auto simp: der_minimal_def)
  qed
qed (auto simp: der_minimal_def)

lemma secp256k1_ecdsa_sig_serialize_eq:
  fixes ar as
  defines "x \<equiv> strip_zeros (0 # secp256k1_scalar_get_b32 ar)" and "y \<equiv> strip_zeros (0 # secp256k1_scalar_get_b32 as)"
  assumes "size0 \<le> length sig"
  shows "secp256k1_ecdsa_sig_serialize sig size0 ar as =
    (if size0 < length (der_signature x y) then (False, length (der_signature x y), sig)
     else (True, length (der_signature x y), der_signature x y @ drop (length (der_signature x y)) sig))"
    and "length (der_signature x y) = 6 + length y + length x"
    and "length (der_signature x y) \<le> 72"
proof -
  have len: "length x \<le> 33" "length y \<le> 33"
    using strip_zeros_spec [of "0 # secp256k1_scalar_get_b32 ar"] strip_zeros_spec [of "0 # secp256k1_scalar_get_b32 as"]
    by (simp_all add: x_def y_def)
  have enc: "der_signature x y = [0x30, of_nat (4 + length y + length x), 0x02, of_nat (length x)] @ x @
      [0x02, of_nat (length y)] @ y"
    using len by (simp add: der_signature_def der_integer_def der_length_def add.commute)
  then show l: "length (der_signature x y) = 6 + length y + length x" by simp
  then show "length (der_signature x y) \<le> 72" using len by simp
  show "secp256k1_ecdsa_sig_serialize sig size0 ar as =
    (if size0 < length (der_signature x y) then (False, length (der_signature x y), sig)
     else (True, length (der_signature x y), der_signature x y @ drop (length (der_signature x y)) sig))"
  proof (cases "size0 < length (der_signature x y)")
    case True
    then show ?thesis by (simp add: l secp256k1_ecdsa_sig_serialize_def Let_def flip: x_def y_def)
  next
    case False
    then have sz: "6 + length y + length x \<le> length sig" using assms(3) l by linarith
    have wr: "buf_write (buf_write sig 0 xs) n ys = buf_write sig 0 (xs @ ys)"
      if "n = length xs" "length xs + length ys \<le> length sig" for xs ys n
      using that buf_write_buf_write [of 0 xs ys sig] by simp
    have upd: "(buf_write sig 0 xs)[n := v] = buf_write sig 0 (xs @ [v])"
      if "n = length xs" "length xs < length sig" for xs n v
      using that wr [of n xs "[v]"] by (simp add: update_buf_write length_buf_write)
    have "sig[0 := 0x30] = buf_write sig 0 [0x30]" using sz by (intro update_buf_write) linarith
    then have "snd (snd (secp256k1_ecdsa_sig_serialize sig size0 ar as)) = buf_write sig 0 (der_signature x y)"
      using False sz
      by (simp add: secp256k1_ecdsa_sig_serialize_def Let_def flip: x_def y_def) (simp add: l wr upd enc)
    then show ?thesis
      using False by (simp add: l secp256k1_ecdsa_sig_serialize_def Let_def buf_write_0 flip: x_def y_def)
  qed
qed

lemma secp256k1_ecdsa_sig_roundtrip:
  assumes "scalar_val ar < secp256k1_n" and "scalar_val as < secp256k1_n"
  defines "x \<equiv> strip_zeros (0 # secp256k1_scalar_get_b32 ar)" and "y \<equiv> strip_zeros (0 # secp256k1_scalar_get_b32 as)"
  shows "secp256k1_ecdsa_sig_parse (der_signature x y) = Some (Some (ar, as))"
proof -
  have x: "der_minimal x" "der_scalar x = scalar_val ar"
    using strip_zeros_spec [of "0 # secp256k1_scalar_get_b32 ar"] assms(1)
    by (auto simp: x_def der_scalar_def be_val_Cons secp256k1_scalar_get_b32_val not_le)
  have y: "der_minimal y" "der_scalar y = scalar_val as"
    using strip_zeros_spec [of "0 # secp256k1_scalar_get_b32 as"] assms(2)
    by (auto simp: y_def der_scalar_def be_val_Cons secp256k1_scalar_get_b32_val not_le)
  have "length (der_signature x y) < 2 ^ 31"
    using secp256k1_ecdsa_sig_serialize_eq(3) [of 0 "[]" ar as] by (simp add: x_def y_def)
  then show ?thesis
    using secp256k1_ecdsa_sig_parse_complete [OF x(1) y(1)] x(2) y(2) by (auto simp: scalar_val_inject)
qed
end
