(* ===== verification/Mod_Chain.thy ===== *)
theory Mod_Chain
  imports Secp_Prelude
begin

text \<open>
  The interface of a modular representation: what \<open>scalar_impl.h\<close> and \<open>field_impl.h\<close> rely on
  when they raise an element to a fixed power by an addition chain of multiplications and
  squarings. The provider promises that its product and square are right modulo \<open>m\<close> on
  operands that meet its bound \<open>ok\<close>, and that the results meet the bound again. A chain is
  followed by \<open>pw x a e\<close>: the element \<open>a\<close> is \<open>x\<close> to the power \<open>e\<close>.
\<close>

named_theorems pw_rules \<open>the exponent an addition chain has reached\<close>

locale mod_repr =
  fixes val :: "'a \<Rightarrow> int"
    and ok :: "'a \<Rightarrow> bool"
    and mul :: "'a \<Rightarrow> 'a \<Rightarrow> 'a"
    and sqr :: "'a \<Rightarrow> 'a"
    and m :: int
  assumes mul_ok: "ok a \<Longrightarrow> ok b \<Longrightarrow> ok (mul a b)"
    and sqr_ok: "ok a \<Longrightarrow> ok (sqr a)"
    and mul_mod: "ok a \<Longrightarrow> ok b \<Longrightarrow> val (mul a b) mod m = val a * val b mod m"
    and sqr_mod: "ok a \<Longrightarrow> val (sqr a) mod m = val a * val a mod m"
begin

definition pw :: "'a \<Rightarrow> 'a \<Rightarrow> nat \<Rightarrow> bool" where
  "pw x a e \<longleftrightarrow> ok a \<and> val a mod m = val x ^ e mod m"

lemma pw_ok: "pw x a e \<Longrightarrow> ok a"
  by (simp add: pw_def)

lemma pw_mod: "pw x a e \<Longrightarrow> val a mod m = val x ^ e mod m"
  by (simp add: pw_def)

lemma pw_base [pw_rules]: "ok x \<Longrightarrow> pw x x 1"
  by (simp add: pw_def)

lemma pw_mul [pw_rules]:
  assumes "pw x a e" and "pw x b f"
  shows "pw x (mul a b) (e + f)"
proof -
  have "val a * val b mod m = val x ^ e * val x ^ f mod m"
    using assms by (intro mod_mult_cong) (simp_all add: pw_def)
  with assms show ?thesis by (simp add: pw_def mul_ok mul_mod power_add)
qed

lemma pw_sqr [pw_rules]:
  assumes "pw x a e"
  shows "pw x (sqr a) (e * 2)"
proof -
  have "val a * val a mod m = val x ^ e * val x ^ e mod m"
    using assms by (intro mod_mult_cong) (simp_all add: pw_def)
  with assms show ?thesis by (simp add: pw_def sqr_ok sqr_mod mult_2_right power_add)
qed

lemma pw_sqr_times [pw_rules]: "pw x a e \<Longrightarrow> pw x ((sqr ^^ k) a) (e * 2 ^ k)"
proof (induction k)
  case 0
  then show ?case by simp
next
  case (Suc k)
  then have "pw x (sqr ((sqr ^^ k) a)) (e * 2 ^ k * 2)" by (intro pw_sqr)
  then show ?case by (simp add: ac_simps)
qed

lemma pw_exponent: "pw x a e \<Longrightarrow> e = f \<Longrightarrow> pw x a f"
  by simp

end

end
