(* ===== verification/Scalar_Impl.thy ===== *)
theory Scalar_Impl
  imports Scalar_8x32 Mod_Chain
begin

text \<open>
  The scalar operations of \<open>scalar_impl.h\<close> that do not depend on the representation: the
  inverse as a fixed power by an addition chain, the parity test, and the decomposition of a
  scalar for the endomorphism (compiled only with \<open>USE_ENDOMORPHISM\<close>). A C loop that squares a
  variable \<open>k\<close> times is \<open>sqr ^^ k\<close>. The chain is modelled in two stages: the powers
  \<open>x ^ (2 ^ k - 1)\<close>, and the accumulation over the bits of the exponent.
\<close>

record inverse_powers =
  px2 :: secp256k1_scalar
  px3 :: secp256k1_scalar
  px4 :: secp256k1_scalar
  px6 :: secp256k1_scalar
  px8 :: secp256k1_scalar
  px127 :: secp256k1_scalar

definition scalar_inverse_powers :: "secp256k1_scalar \<Rightarrow> inverse_powers" where
  "scalar_inverse_powers x =
     (let x2 = secp256k1_scalar_sqr x;
          x2 = secp256k1_scalar_mul x2 x;
          x3 = secp256k1_scalar_sqr x2;
          x3 = secp256k1_scalar_mul x3 x;
          x4 = secp256k1_scalar_sqr x3;
          x4 = secp256k1_scalar_mul x4 x;
          x6 = secp256k1_scalar_sqr x4;
          x6 = secp256k1_scalar_sqr x6;
          x6 = secp256k1_scalar_mul x6 x2;
          x7 = secp256k1_scalar_sqr x6;
          x7 = secp256k1_scalar_mul x7 x;
          x8 = secp256k1_scalar_sqr x7;
          x8 = secp256k1_scalar_mul x8 x;
          x15 = secp256k1_scalar_sqr x8;
          x15 = (secp256k1_scalar_sqr ^^ 6) x15;
          x15 = secp256k1_scalar_mul x15 x7;
          x30 = secp256k1_scalar_sqr x15;
          x30 = (secp256k1_scalar_sqr ^^ 14) x30;
          x30 = secp256k1_scalar_mul x30 x15;
          x60 = secp256k1_scalar_sqr x30;
          x60 = (secp256k1_scalar_sqr ^^ 29) x60;
          x60 = secp256k1_scalar_mul x60 x30;
          x120 = secp256k1_scalar_sqr x60;
          x120 = (secp256k1_scalar_sqr ^^ 59) x120;
          x120 = secp256k1_scalar_mul x120 x60;
          x127 = secp256k1_scalar_sqr x120;
          x127 = (secp256k1_scalar_sqr ^^ 6) x127;
          x127 = secp256k1_scalar_mul x127 x7
      in \<lparr>px2 = x2, px3 = x3, px4 = x4, px6 = x6, px8 = x8, px127 = x127\<rparr>)"

definition secp256k1_scalar_inverse :: "secp256k1_scalar \<Rightarrow> secp256k1_scalar" where
  "secp256k1_scalar_inverse x =
     (let P = scalar_inverse_powers x;
          x2 = px2 P; x3 = px3 P; x4 = px4 P; x6 = px6 P; x8 = px8 P; x127 = px127 P;
          t = x127;
          t = (secp256k1_scalar_sqr ^^ 2) t;
          t = secp256k1_scalar_mul t x;
          t = (secp256k1_scalar_sqr ^^ 4) t;
          t = secp256k1_scalar_mul t x3;
          t = (secp256k1_scalar_sqr ^^ 2) t;
          t = secp256k1_scalar_mul t x;
          t = (secp256k1_scalar_sqr ^^ 2) t;
          t = secp256k1_scalar_mul t x;
          t = (secp256k1_scalar_sqr ^^ 2) t;
          t = secp256k1_scalar_mul t x;
          t = (secp256k1_scalar_sqr ^^ 4) t;
          t = secp256k1_scalar_mul t x3;
          t = (secp256k1_scalar_sqr ^^ 3) t;
          t = secp256k1_scalar_mul t x2;
          t = (secp256k1_scalar_sqr ^^ 4) t;
          t = secp256k1_scalar_mul t x3;
          t = (secp256k1_scalar_sqr ^^ 5) t;
          t = secp256k1_scalar_mul t x3;
          t = (secp256k1_scalar_sqr ^^ 4) t;
          t = secp256k1_scalar_mul t x2;
          t = (secp256k1_scalar_sqr ^^ 2) t;
          t = secp256k1_scalar_mul t x;
          t = (secp256k1_scalar_sqr ^^ 2) t;
          t = secp256k1_scalar_mul t x;
          t = (secp256k1_scalar_sqr ^^ 5) t;
          t = secp256k1_scalar_mul t x4;
          t = (secp256k1_scalar_sqr ^^ 2) t;
          t = secp256k1_scalar_mul t x;
          t = (secp256k1_scalar_sqr ^^ 3) t;
          t = secp256k1_scalar_mul t x;
          t = (secp256k1_scalar_sqr ^^ 4) t;
          t = secp256k1_scalar_mul t x;
          t = (secp256k1_scalar_sqr ^^ 2) t;
          t = secp256k1_scalar_mul t x;
          t = (secp256k1_scalar_sqr ^^ 10) t;
          t = secp256k1_scalar_mul t x3;
          t = (secp256k1_scalar_sqr ^^ 4) t;
          t = secp256k1_scalar_mul t x3;
          t = (secp256k1_scalar_sqr ^^ 9) t;
          t = secp256k1_scalar_mul t x8;
          t = (secp256k1_scalar_sqr ^^ 2) t;
          t = secp256k1_scalar_mul t x;
          t = (secp256k1_scalar_sqr ^^ 3) t;
          t = secp256k1_scalar_mul t x;
          t = (secp256k1_scalar_sqr ^^ 3) t;
          t = secp256k1_scalar_mul t x;
          t = (secp256k1_scalar_sqr ^^ 5) t;
          t = secp256k1_scalar_mul t x4;
          t = (secp256k1_scalar_sqr ^^ 2) t;
          t = secp256k1_scalar_mul t x;
          t = (secp256k1_scalar_sqr ^^ 5) t;
          t = secp256k1_scalar_mul t x2;
          t = (secp256k1_scalar_sqr ^^ 4) t;
          t = secp256k1_scalar_mul t x2;
          t = (secp256k1_scalar_sqr ^^ 2) t;
          t = secp256k1_scalar_mul t x;
          t = (secp256k1_scalar_sqr ^^ 8) t;
          t = secp256k1_scalar_mul t x2;
          t = (secp256k1_scalar_sqr ^^ 3) t;
          t = secp256k1_scalar_mul t x2;
          t = (secp256k1_scalar_sqr ^^ 3) t;
          t = secp256k1_scalar_mul t x;
          t = (secp256k1_scalar_sqr ^^ 6) t;
          t = secp256k1_scalar_mul t x;
          t = (secp256k1_scalar_sqr ^^ 8) t
      in secp256k1_scalar_mul t x6)"

definition secp256k1_scalar_is_even :: "secp256k1_scalar \<Rightarrow> bool" where
  "secp256k1_scalar_is_even a \<longleftrightarrow> d_0 a AND 1 = 0"

definition secp256k1_scalar_inverse_var :: "secp256k1_scalar \<Rightarrow> secp256k1_scalar" where
  "secp256k1_scalar_inverse_var x = secp256k1_scalar_inverse x"

definition SECP256K1_SCALAR_CONST ::
  "u32 \<Rightarrow> u32 \<Rightarrow> u32 \<Rightarrow> u32 \<Rightarrow> u32 \<Rightarrow> u32 \<Rightarrow> u32 \<Rightarrow> u32 \<Rightarrow> secp256k1_scalar" where
  "SECP256K1_SCALAR_CONST d7 d6 d5 d4 d3 d2 d1 d0 =
     \<lparr>d_0 = d0, d_1 = d1, d_2 = d2, d_3 = d3, d_4 = d4, d_5 = d5, d_6 = d6, d_7 = d7\<rparr>"

definition minus_lambda :: secp256k1_scalar where
  "minus_lambda = SECP256K1_SCALAR_CONST
     0xAC9C52B3 0x3FA3CF1F 0x5AD9E3FD 0x77ED9BA4
     0xA880B9FC 0x8EC739C2 0xE0CFC810 0xB51283CF"

definition minus_b1 :: secp256k1_scalar where
  "minus_b1 = SECP256K1_SCALAR_CONST
     0x00000000 0x00000000 0x00000000 0x00000000
     0xE4437ED6 0x010E8828 0x6F547FA9 0x0ABFE4C3"

definition minus_b2 :: secp256k1_scalar where
  "minus_b2 = SECP256K1_SCALAR_CONST
     0xFFFFFFFF 0xFFFFFFFF 0xFFFFFFFF 0xFFFFFFFE
     0x8A280AC5 0x0774346D 0xD765CDA8 0x3DB1562C"

definition g1 :: secp256k1_scalar where
  "g1 = SECP256K1_SCALAR_CONST
     0x00000000 0x00000000 0x00000000 0x00003086
     0xD221A7D4 0x6BCDE86C 0x90E49284 0xEB153DAB"

definition g2 :: secp256k1_scalar where
  "g2 = SECP256K1_SCALAR_CONST
     0x00000000 0x00000000 0x00000000 0x0000E443
     0x7ED6010E 0x88286F54 0x7FA90ABF 0xE4C42212"

definition secp256k1_scalar_split_lambda :: "secp256k1_scalar \<Rightarrow> secp256k1_scalar \<times> secp256k1_scalar" where
  "secp256k1_scalar_split_lambda a =
     (let c1 = secp256k1_scalar_mul_shift_var a g1 272;
          c2 = secp256k1_scalar_mul_shift_var a g2 272;
          c1 = secp256k1_scalar_mul c1 minus_b1;
          c2 = secp256k1_scalar_mul c2 minus_b2;
          r2 = fst (secp256k1_scalar_add c1 c2);
          r1 = secp256k1_scalar_mul r2 minus_lambda;
          r1 = fst (secp256k1_scalar_add r1 a)
      in (r1, r2))"

interpretation scalar_repr: mod_repr scalar_val "\<lambda>_. True" secp256k1_scalar_mul secp256k1_scalar_sqr secp256k1_n
  by unfold_locales (simp_all add: secp256k1_scalar_mul_val secp256k1_scalar_sqr_val)

lemma scalar_inverse_powers_pw:
  "scalar_repr.pw x (px2 (scalar_inverse_powers x)) (2 ^ 2 - 1)"
  "scalar_repr.pw x (px3 (scalar_inverse_powers x)) (2 ^ 3 - 1)"
  "scalar_repr.pw x (px4 (scalar_inverse_powers x)) (2 ^ 4 - 1)"
  "scalar_repr.pw x (px6 (scalar_inverse_powers x)) (2 ^ 6 - 1)"
  "scalar_repr.pw x (px8 (scalar_inverse_powers x)) (2 ^ 8 - 1)"
  "scalar_repr.pw x (px127 (scalar_inverse_powers x)) (2 ^ 127 - 1)"
  unfolding scalar_inverse_powers_def Let_def inverse_powers.simps
  by (rule scalar_repr.pw_exponent, (rule pw_rules TrueI)+, simp)+

lemma secp256k1_scalar_inverse_pw:
  "scalar_repr.pw x (secp256k1_scalar_inverse x) (nat secp256k1_n - 2)"
  unfolding secp256k1_scalar_inverse_def Let_def
  by (rule scalar_repr.pw_exponent, (rule pw_rules scalar_inverse_powers_pw TrueI)+)
    (simp add: secp256k1_n_def)

lemma secp256k1_scalar_inverse_val:
  "scalar_val (secp256k1_scalar_inverse x) = scalar_val x ^ (nat secp256k1_n - 2) mod secp256k1_n"
proof -
  have "\<exists>y z. secp256k1_scalar_inverse x = secp256k1_scalar_mul y z"
    by (simp add: secp256k1_scalar_inverse_def Let_def) blast
  then have "scalar_val (secp256k1_scalar_inverse x) mod secp256k1_n = scalar_val (secp256k1_scalar_inverse x)"
    by (auto simp: secp256k1_scalar_mul_val)
  with scalar_repr.pw_mod [OF secp256k1_scalar_inverse_pw] show ?thesis by simp
qed

subsection \<open>Splitting for the endomorphism\<close>

text \<open>The eigenvalue and the short vectors that the comment above \<open>secp256k1_scalar_split_lambda\<close>
  gives.\<close>

definition scalar_lambda :: int where
  "scalar_lambda = 0x5363ad4cc05c30e0a5261c028812645a122e22ea20816678df02967c1b23bd72"

definition lattice_a1 :: int where
  "lattice_a1 = 0x3086d221a7d46bcde86c90e49284eb15"

definition lattice_b1 :: int where
  "lattice_b1 = - 0xe4437ed6010e88286f547fa90abfe4c3"

definition lattice_a2 :: int where
  "lattice_a2 = 0x0114ca50f7a8e2f3f657c1108d9d44cfd8"

definition lattice_b2 :: int where
  "lattice_b2 = 0x3086d221a7d46bcde86c90e49284eb15"

lemmas lattice_defs = scalar_lambda_def lattice_a1_def lattice_b1_def lattice_a2_def lattice_b2_def secp256k1_n_def

lemma scalar_const_val:
  "scalar_val (SECP256K1_SCALAR_CONST w7 w6 w5 w4 w3 w2 w1 w0) = lval 32 [w0, w1, w2, w3, w4, w5, w6, w7]"
  by (simp add: SECP256K1_SCALAR_CONST_def scalar_val_list)

lemma split_consts:
  "scalar_val minus_lambda = secp256k1_n - scalar_lambda"
  "scalar_val minus_b1 = - lattice_b1"
  "scalar_val minus_b2 = secp256k1_n - lattice_b2"
  "scalar_val g1 = 0x3086D221A7D46BCDE86C90E49284EB153DAB"
  "scalar_val g2 = 0xE4437ED6010E88286F547FA90ABFE4C42212"
  unfolding minus_lambda_def minus_b1_def minus_b2_def g1_def g2_def scalar_const_val
  by (simp_all add: lattice_defs)

lemma secp256k1_scalar_split_lambda_val:
  assumes "scalar_val a < secp256k1_n"
    and "secp256k1_scalar_split_lambda a = (r1, r2)"
  defines "c1 \<equiv> (scalar_val a * scalar_val g1 + 2 ^ 271) div 2 ^ 272"
    and "c2 \<equiv> (scalar_val a * scalar_val g2 + 2 ^ 271) div 2 ^ 272"
  shows "scalar_val r2 = (- c1 * lattice_b1 - c2 * lattice_b2) mod secp256k1_n"
    and "scalar_val r1 = (scalar_val a - scalar_lambda * scalar_val r2) mod secp256k1_n"
proof -
  have n: "0 < secp256k1_n" by (simp add: secp256k1_n_def)
  define e1 e2 where "e1 = secp256k1_scalar_mul (secp256k1_scalar_mul_shift_var a g1 272) minus_b1"
    and "e2 = secp256k1_scalar_mul (secp256k1_scalar_mul_shift_var a g2 272) minus_b2"
  have r2: "r2 = fst (secp256k1_scalar_add e1 e2)"
    and r1: "r1 = fst (secp256k1_scalar_add (secp256k1_scalar_mul r2 minus_lambda) a)"
    using assms(2) by (auto simp: secp256k1_scalar_split_lambda_def e1_def e2_def Let_def)
  have e: "scalar_val e1 = c1 * - lattice_b1 mod secp256k1_n"
    "scalar_val e2 = c2 * (secp256k1_n - lattice_b2) mod secp256k1_n"
    by (simp_all add: e1_def e2_def secp256k1_scalar_mul_val secp256k1_scalar_mul_shift_var_val
        c1_def c2_def split_consts)
  have "scalar_val e1 + scalar_val e2 < 2 * secp256k1_n"
    unfolding e using pos_mod_bound [OF n, of "c1 * - lattice_b1"]
      pos_mod_bound [OF n, of "c2 * (secp256k1_n - lattice_b2)"] by linarith
  then have "scalar_val r2 = (scalar_val e1 + scalar_val e2) mod secp256k1_n"
    unfolding r2 by (intro secp256k1_scalar_add_val(1) [where overflow = "snd (secp256k1_scalar_add e1 e2)"]) auto
  also have "\<dots> = (c1 * - lattice_b1 + c2 * (secp256k1_n - lattice_b2)) mod secp256k1_n"
    unfolding e by (simp only: mod_simps)
  also have "\<dots> = (- c1 * lattice_b1 - c2 * lattice_b2) mod secp256k1_n"
    by (rule mod_eqI [where k = c2]) (simp add: algebra_simps)
  finally show "scalar_val r2 = (- c1 * lattice_b1 - c2 * lattice_b2) mod secp256k1_n" .
  define f where "f = secp256k1_scalar_mul r2 minus_lambda"
  have f: "scalar_val f = scalar_val r2 * (secp256k1_n - scalar_lambda) mod secp256k1_n"
    by (simp add: f_def secp256k1_scalar_mul_val split_consts)
  have "scalar_val f + scalar_val a < 2 * secp256k1_n"
    unfolding f using pos_mod_bound [OF n, of "scalar_val r2 * (secp256k1_n - scalar_lambda)"] assms(1) by linarith
  then have "scalar_val r1 = (scalar_val f + scalar_val a) mod secp256k1_n"
    unfolding r1 f_def by (intro secp256k1_scalar_add_val(1) [where overflow = "snd (secp256k1_scalar_add (secp256k1_scalar_mul r2 minus_lambda) a)"]) auto
  also have "\<dots> = (scalar_val r2 * (secp256k1_n - scalar_lambda) + scalar_val a) mod secp256k1_n"
    unfolding f by (simp only: mod_simps)
  also have "\<dots> = (scalar_val a - scalar_lambda * scalar_val r2) mod secp256k1_n"
    by (rule mod_eqI [where k = "scalar_val r2"]) (simp add: algebra_simps)
  finally show "scalar_val r1 = (scalar_val a - scalar_lambda * scalar_val r2) mod secp256k1_n" .
qed

lemma round_error:
  fixes x :: int
  shows "- (2 ^ 271) < x - 2 ^ 272 * ((x + 2 ^ 271) div 2 ^ 272) + 1"
    "x - 2 ^ 272 * ((x + 2 ^ 271) div 2 ^ 272) < 2 ^ 271"
  using div_mult_mod_eq [of "x + 2 ^ 271" "2 ^ 272"] pos_mod_sign [of "2 ^ 272" "x + 2 ^ 271"]
    pos_mod_bound [of "2 ^ 272" "x + 2 ^ 271"] by simp_all

lemma split_lambda_short_vector:
  fixes a :: int
  assumes "0 \<le> a" and "a < secp256k1_n"
  defines "c1 \<equiv> (a * scalar_val g1 + 2 ^ 271) div 2 ^ 272"
    and "c2 \<equiv> (a * scalar_val g2 + 2 ^ 271) div 2 ^ 272"
  shows "\<bar>a - c1 * lattice_a1 - c2 * lattice_a2\<bar> < 2 ^ 128"
    and "\<bar>- c1 * lattice_b1 - c2 * lattice_b2\<bar> < 2 ^ 128"
proof -
  note r = round_error [of "a * scalar_val g1", folded c1_def] round_error [of "a * scalar_val g2", folded c2_def]
  show "\<bar>a - c1 * lattice_a1 - c2 * lattice_a2\<bar> < 2 ^ 128"
    using r assms(1,2) unfolding split_consts lattice_defs abs_less_iff by simp
  show "\<bar>- c1 * lattice_b1 - c2 * lattice_b2\<bar> < 2 ^ 128"
    using r assms(1,2) unfolding split_consts lattice_defs abs_less_iff by simp
qed

lemma lambda_short_congruence:
  "(a - scalar_lambda * (- c1 * lattice_b1 - c2 * lattice_b2)) mod secp256k1_n =
     (a - c1 * lattice_a1 - c2 * lattice_a2) mod secp256k1_n"
proof -
  obtain k1 k2 where "lattice_a1 + scalar_lambda * lattice_b1 = secp256k1_n * k1"
    and "lattice_a2 + scalar_lambda * lattice_b2 = secp256k1_n * k2"
  proof
    show "lattice_a1 + scalar_lambda * lattice_b1 =
        secp256k1_n * ((lattice_a1 + scalar_lambda * lattice_b1) div secp256k1_n)"
      "lattice_a2 + scalar_lambda * lattice_b2 =
        secp256k1_n * ((lattice_a2 + scalar_lambda * lattice_b2) div secp256k1_n)"
      by (simp_all add: lattice_defs)
  qed
  then have "c1 * (lattice_a1 + scalar_lambda * lattice_b1) + c2 * (lattice_a2 + scalar_lambda * lattice_b2)
      = secp256k1_n * (c1 * k1 + c2 * k2)"
    by (simp add: algebra_simps)
  then show ?thesis
    by (intro mod_eqI [where k = "c1 * k1 + c2 * k2"]) (simp add: algebra_simps)
qed

end
