(* ===== verification/Field_10x26.thy ===== *)
theory Field_10x26
  imports Mod_Chain
begin

text \<open>
  Field elements modulo \<open>p = 2 ^ 256 - 2 ^ 32 - 977\<close> as ten limbs of 26 bits
  (\<open>field_10x26_impl.h\<close>, selected by \<open>USE_FIELD_10X26\<close>). A limb is a 32-bit word and may exceed 26
  bits: \<open>fe_magnitude m\<close> is the bound that \<open>secp256k1_fe_verify\<close> checks for an element of
  magnitude \<open>m\<close>. The carry pass over the limbs (\<open>t1 += t0 >> 26; t0 &= 0x3FFFFFF; ...\<close>) is
  \<open>carry26\<close>. The routines \<open>mul_inner\<close> and \<open>sqr_inner\<close> interleave the same reduction with
  different sums of products: the sums are the nineteen columns \<open>mul_columns\<close> and
  \<open>sqr_columns\<close>, the reduction is \<open>inner_columns\<close>. An unsuffixed or \<open>UL\<close> constant meets only
  operands below \<open>2 ^ 27\<close> in comparisons and is truncated to 32 bits in assignments, so 32-bit
  arithmetic gives the same results whatever the width of \<open>unsigned long\<close>.
\<close>

subsection \<open>Representation\<close>

record secp256k1_fe =
  n_0 :: u32
  n_1 :: u32
  n_2 :: u32
  n_3 :: u32
  n_4 :: u32
  n_5 :: u32
  n_6 :: u32
  n_7 :: u32
  n_8 :: u32
  n_9 :: u32

record secp256k1_fe_storage =
  s_0 :: u32
  s_1 :: u32
  s_2 :: u32
  s_3 :: u32
  s_4 :: u32
  s_5 :: u32
  s_6 :: u32
  s_7 :: u32

definition fe_limbs :: "secp256k1_fe \<Rightarrow> u32 list" where
  "fe_limbs a = [n_0 a, n_1 a, n_2 a, n_3 a, n_4 a, n_5 a, n_6 a, n_7 a, n_8 a, n_9 a]"

definition fe_of :: "u32 list \<Rightarrow> secp256k1_fe" where
  "fe_of t = \<lparr>n_0 = t ! 0, n_1 = t ! 1, n_2 = t ! 2, n_3 = t ! 3, n_4 = t ! 4,
     n_5 = t ! 5, n_6 = t ! 6, n_7 = t ! 7, n_8 = t ! 8, n_9 = t ! 9\<rparr>"

definition fe_val :: "secp256k1_fe \<Rightarrow> int" where
  "fe_val a = lval 26 (fe_limbs a)"

definition storage_limbs :: "secp256k1_fe_storage \<Rightarrow> u32 list" where
  "storage_limbs a = [s_0 a, s_1 a, s_2 a, s_3 a, s_4 a, s_5 a, s_6 a, s_7 a]"

definition storage_val :: "secp256k1_fe_storage \<Rightarrow> int" where
  "storage_val a = lval 32 (storage_limbs a)"

text \<open>The field characteristic.\<close>

definition secp256k1_p :: int where
  "secp256k1_p = 2 ^ 256 - 2 ^ 32 - 977"

definition SECP256K1_FE_CONST ::
  "u32 \<Rightarrow> u32 \<Rightarrow> u32 \<Rightarrow> u32 \<Rightarrow> u32 \<Rightarrow> u32 \<Rightarrow> u32 \<Rightarrow> u32 \<Rightarrow> secp256k1_fe" where
  "SECP256K1_FE_CONST d7 d6 d5 d4 d3 d2 d1 d0 =
     \<lparr>n_0 = d0 AND 0x3FFFFFF,
      n_1 = drop_bit 26 d0 OR push_bit 6 (d1 AND 0xFFFFF),
      n_2 = drop_bit 20 d1 OR push_bit 12 (d2 AND 0x3FFF),
      n_3 = drop_bit 14 d2 OR push_bit 18 (d3 AND 0xFF),
      n_4 = drop_bit 8 d3 OR push_bit 24 (d4 AND 0x3),
      n_5 = drop_bit 2 d4 AND 0x3FFFFFF,
      n_6 = drop_bit 28 d4 OR push_bit 4 (d5 AND 0x3FFFFF),
      n_7 = drop_bit 22 d5 OR push_bit 10 (d6 AND 0xFFFF),
      n_8 = drop_bit 16 d6 OR push_bit 16 (d7 AND 0x3FF),
      n_9 = drop_bit 10 d7\<rparr>"

text \<open>The check of \<open>secp256k1_fe_verify\<close>, with the two bookkeeping fields of the \<open>VERIFY\<close> build as
  arguments. The bounds are 64-bit products, as \<open>UL\<close> makes them on the platforms the check runs
  on; the limb is converted for the comparison.\<close>

definition secp256k1_fe_verify :: "int \<Rightarrow> bool \<Rightarrow> secp256k1_fe \<Rightarrow> bool" where
  "secp256k1_fe_verify magnitude normalized a \<longleftrightarrow>
     (let m = (if normalized then 1 else 2 * magnitude);
          mid = n_8 a AND n_7 a AND n_6 a AND n_5 a AND n_4 a AND n_3 a AND n_2 a
      in uint (n_0 a) \<le> 0x3FFFFFF * m \<and> uint (n_1 a) \<le> 0x3FFFFFF * m \<and>
         uint (n_2 a) \<le> 0x3FFFFFF * m \<and> uint (n_3 a) \<le> 0x3FFFFFF * m \<and>
         uint (n_4 a) \<le> 0x3FFFFFF * m \<and> uint (n_5 a) \<le> 0x3FFFFFF * m \<and>
         uint (n_6 a) \<le> 0x3FFFFFF * m \<and> uint (n_7 a) \<le> 0x3FFFFFF * m \<and>
         uint (n_8 a) \<le> 0x3FFFFFF * m \<and> uint (n_9 a) \<le> 0x03FFFFF * m \<and>
         magnitude \<ge> 0 \<and> magnitude \<le> 32 \<and>
         (normalized \<longrightarrow> magnitude \<le> 1 \<and>
           (n_9 a = 0x03FFFFF \<and> mid = 0x3FFFFFF \<longrightarrow>
             n_1 a + 0x40 + drop_bit 26 (n_0 a + 0x3D1) \<le> 0x3FFFFFF)))"

definition fe_magnitude :: "int \<Rightarrow> secp256k1_fe \<Rightarrow> bool" where
  "fe_magnitude m a \<longleftrightarrow>
     (\<forall>x \<in> set (butlast (fe_limbs a)). uint x \<le> 0x3FFFFFF * (2 * m)) \<and> uint (n_9 a) \<le> 0x03FFFFF * (2 * m)"

definition fe_normalized :: "secp256k1_fe \<Rightarrow> bool" where
  "fe_normalized a \<longleftrightarrow> (\<forall>x \<in> set (fe_limbs a). uint x < 2 ^ 26) \<and> fe_val a < secp256k1_p"

subsection \<open>Carries\<close>

fun carry26 :: "u32 list \<Rightarrow> u32 list" where
  "carry26 [] = []"
| "carry26 [t] = [t]"
| "carry26 (t # t' # ts) = (t AND 0x3FFFFFF) # carry26 ((t' + drop_bit 26 t) # ts)"

definition first_pass :: "secp256k1_fe \<Rightarrow> u32 list" where
  "first_pass r =
     (let x = drop_bit 22 (n_9 r)
      in carry26 [n_0 r + x * 0x3D1, n_1 r + push_bit 6 x, n_2 r, n_3 r, n_4 r,
           n_5 r, n_6 r, n_7 r, n_8 r, n_9 r AND 0x03FFFFF])"

definition and_limbs :: "u32 list \<Rightarrow> u32" where
  "and_limbs t = (((((t ! 2 AND t ! 3) AND t ! 4) AND t ! 5) AND t ! 6) AND t ! 7) AND t ! 8"

definition ge_p_flag :: "u32 list \<Rightarrow> u32" where
  "ge_p_flag t = drop_bit 22 (t ! 9) OR
     (of_bool (t ! 9 = 0x03FFFFF) AND of_bool (and_limbs t = 0x3FFFFFF) AND
      of_bool (t ! 1 + 0x40 + drop_bit 26 (t ! 0 + 0x3D1) > 0x3FFFFFF))"

subsection \<open>Normalization\<close>

definition secp256k1_fe_normalize :: "secp256k1_fe \<Rightarrow> secp256k1_fe" where
  "secp256k1_fe_normalize r =
     (let t = first_pass r;
          x = ge_p_flag t;
          t = carry26 [t ! 0 + x * 0x3D1, t ! 1 + push_bit 6 x, t ! 2, t ! 3, t ! 4,
                t ! 5, t ! 6, t ! 7, t ! 8, t ! 9]
      in fe_of (t[9 := t ! 9 AND 0x03FFFFF]))"

definition secp256k1_fe_normalize_weak :: "secp256k1_fe \<Rightarrow> secp256k1_fe" where
  "secp256k1_fe_normalize_weak r = fe_of (first_pass r)"

definition secp256k1_fe_normalize_var :: "secp256k1_fe \<Rightarrow> secp256k1_fe" where
  "secp256k1_fe_normalize_var r =
     (let t = first_pass r;
          x = ge_p_flag t
      in if x \<noteq> 0
         then (let t = carry26 [t ! 0 + 0x3D1, t ! 1 + push_bit 6 x, t ! 2, t ! 3, t ! 4,
                     t ! 5, t ! 6, t ! 7, t ! 8, t ! 9]
               in fe_of (t[9 := t ! 9 AND 0x03FFFFF]))
         else fe_of t)"

definition raw_zero :: "u32 list \<Rightarrow> u32" where
  "raw_zero t = foldl (OR) (t ! 0) (tl t)"

definition raw_p :: "u32 list \<Rightarrow> u32" where
  "raw_p t = foldl (AND) (t ! 0 XOR 0x3D0)
     [t ! 1 XOR 0x40, t ! 2, t ! 3, t ! 4, t ! 5, t ! 6, t ! 7, t ! 8, t ! 9 XOR 0x3C00000]"

definition secp256k1_fe_normalizes_to_zero :: "secp256k1_fe \<Rightarrow> bool" where
  "secp256k1_fe_normalizes_to_zero r =
     (let t = first_pass r in raw_zero t = 0 \<or> raw_p t = 0x3FFFFFF)"

definition secp256k1_fe_normalizes_to_zero_var :: "secp256k1_fe \<Rightarrow> bool" where
  "secp256k1_fe_normalizes_to_zero_var r =
     (let t0 = n_0 r; t9 = n_9 r;
          x = drop_bit 22 t9;
          t0 = t0 + x * 0x3D1;
          z0 = t0 AND 0x3FFFFFF;
          z1 = z0 XOR 0x3D0
      in if z0 \<noteq> 0 \<and> z1 \<noteq> 0x3FFFFFF then False
         else (let t9 = t9 AND 0x03FFFFF;
                   t1 = n_1 r + push_bit 6 x;
                   t1 = t1 + drop_bit 26 t0;
                   t = carry26 [t1, n_2 r, n_3 r, n_4 r, n_5 r, n_6 r, n_7 r, n_8 r, t9];
                   z0 = foldl (OR) z0 t;
                   z1 = foldl (AND) z1 [t ! 0 XOR 0x40, t ! 1, t ! 2, t ! 3, t ! 4, t ! 5,
                          t ! 6, t ! 7, t ! 8 XOR 0x3C00000]
               in z0 = 0 \<or> z1 = 0x3FFFFFF))"

subsection \<open>Access and comparison\<close>

definition secp256k1_fe_set_int :: "u32 \<Rightarrow> secp256k1_fe" where
  "secp256k1_fe_set_int a = \<lparr>n_0 = a, n_1 = 0, n_2 = 0, n_3 = 0, n_4 = 0,
     n_5 = 0, n_6 = 0, n_7 = 0, n_8 = 0, n_9 = 0\<rparr>"

definition secp256k1_fe_is_zero :: "secp256k1_fe \<Rightarrow> bool" where
  "secp256k1_fe_is_zero a \<longleftrightarrow>
     n_0 a OR n_1 a OR n_2 a OR n_3 a OR n_4 a OR n_5 a OR n_6 a OR n_7 a OR n_8 a OR n_9 a = 0"

definition secp256k1_fe_is_odd :: "secp256k1_fe \<Rightarrow> u32" where
  "secp256k1_fe_is_odd a = n_0 a AND 1"

definition secp256k1_fe_clear :: secp256k1_fe where
  "secp256k1_fe_clear = fe_of (replicate 10 0)"

fun cmp_limbs :: "u32 list \<Rightarrow> u32 list \<Rightarrow> int" where
  "cmp_limbs (x # xs) (y # ys) = (if y < x then 1 else if x < y then - 1 else cmp_limbs xs ys)"
| "cmp_limbs _ _ = 0"

definition secp256k1_fe_cmp_var :: "secp256k1_fe \<Rightarrow> secp256k1_fe \<Rightarrow> int" where
  "secp256k1_fe_cmp_var a b = cmp_limbs (rev (fe_limbs a)) (rev (fe_limbs b))"

subsection \<open>Bytes\<close>

definition b32_step :: "u8 list \<Rightarrow> u32 list \<Rightarrow> nat \<times> nat \<Rightarrow> u32 list" where
  "b32_step a n = (\<lambda>(i, j).
     let limb = (8 * i + 2 * j) div 26;
         shift = (8 * i + 2 * j) mod 26
     in n[limb := n ! limb OR push_bit shift (ucast (drop_bit (2 * j) (a ! (31 - i)) AND 3))])"

definition secp256k1_fe_set_b32 :: "u8 list \<Rightarrow> secp256k1_fe \<times> bool" where
  "secp256k1_fe_set_b32 a =
     (let n = foldl (b32_step a) (replicate 10 0) (List.product [0..<32] [0..<4]);
          mid = n ! 8 AND n ! 7 AND n ! 6 AND n ! 5 AND n ! 4 AND n ! 3 AND n ! 2
      in (fe_of n,
          \<not> (n ! 9 = 0x3FFFFF \<and> mid = 0x3FFFFFF \<and>
             n ! 1 + 0x40 + drop_bit 26 (n ! 0 + 0x3D1) > 0x3FFFFFF)))"

definition b32_byte :: "u32 list \<Rightarrow> nat \<Rightarrow> u32" where
  "b32_byte n i = foldl (\<lambda>c j.
     let limb = (8 * i + 2 * j) div 26;
         shift = (8 * i + 2 * j) mod 26
     in c OR push_bit (2 * j) (drop_bit shift (n ! limb) AND 3)) 0 [0..<4]"

definition secp256k1_fe_get_b32 :: "secp256k1_fe \<Rightarrow> u8 list" where
  "secp256k1_fe_get_b32 a =
     foldl (\<lambda>r i. r[31 - i := ucast (b32_byte (fe_limbs a) i)]) (replicate 32 0) [0..<32]"

subsection \<open>Linear operations\<close>

definition secp256k1_fe_negate :: "secp256k1_fe \<Rightarrow> u32 \<Rightarrow> secp256k1_fe" where
  "secp256k1_fe_negate a m =
     \<lparr>n_0 = 0x3FFFC2F * 2 * (m + 1) - n_0 a,
      n_1 = 0x3FFFFBF * 2 * (m + 1) - n_1 a,
      n_2 = 0x3FFFFFF * 2 * (m + 1) - n_2 a,
      n_3 = 0x3FFFFFF * 2 * (m + 1) - n_3 a,
      n_4 = 0x3FFFFFF * 2 * (m + 1) - n_4 a,
      n_5 = 0x3FFFFFF * 2 * (m + 1) - n_5 a,
      n_6 = 0x3FFFFFF * 2 * (m + 1) - n_6 a,
      n_7 = 0x3FFFFFF * 2 * (m + 1) - n_7 a,
      n_8 = 0x3FFFFFF * 2 * (m + 1) - n_8 a,
      n_9 = 0x03FFFFF * 2 * (m + 1) - n_9 a\<rparr>"

definition secp256k1_fe_mul_int :: "secp256k1_fe \<Rightarrow> u32 \<Rightarrow> secp256k1_fe" where
  "secp256k1_fe_mul_int r a =
     \<lparr>n_0 = n_0 r * a, n_1 = n_1 r * a, n_2 = n_2 r * a, n_3 = n_3 r * a, n_4 = n_4 r * a,
      n_5 = n_5 r * a, n_6 = n_6 r * a, n_7 = n_7 r * a, n_8 = n_8 r * a, n_9 = n_9 r * a\<rparr>"

definition secp256k1_fe_add :: "secp256k1_fe \<Rightarrow> secp256k1_fe \<Rightarrow> secp256k1_fe" where
  "secp256k1_fe_add r a =
     \<lparr>n_0 = n_0 r + n_0 a, n_1 = n_1 r + n_1 a, n_2 = n_2 r + n_2 a, n_3 = n_3 r + n_3 a,
      n_4 = n_4 r + n_4 a, n_5 = n_5 r + n_5 a, n_6 = n_6 r + n_6 a, n_7 = n_7 r + n_7 a,
      n_8 = n_8 r + n_8 a, n_9 = n_9 r + n_9 a\<rparr>"

subsection \<open>Multiplication\<close>

text \<open>The sums of products \<open>p0\<close> to \<open>p18\<close> that the routine adds to \<open>c\<close> and \<open>d\<close>.\<close>

definition mul_columns :: "secp256k1_fe \<Rightarrow> secp256k1_fe \<Rightarrow> u64 list" where
  "mul_columns a b =
    [ucast (n_0 a) * ucast (n_0 b),
     ucast (n_0 a) * ucast (n_1 b) + ucast (n_1 a) * ucast (n_0 b),
     ucast (n_0 a) * ucast (n_2 b) + ucast (n_1 a) * ucast (n_1 b) + ucast (n_2 a) * ucast (n_0 b),
     ucast (n_0 a) * ucast (n_3 b) + ucast (n_1 a) * ucast (n_2 b) + ucast (n_2 a) * ucast (n_1 b)
       + ucast (n_3 a) * ucast (n_0 b),
     ucast (n_0 a) * ucast (n_4 b) + ucast (n_1 a) * ucast (n_3 b) + ucast (n_2 a) * ucast (n_2 b)
       + ucast (n_3 a) * ucast (n_1 b) + ucast (n_4 a) * ucast (n_0 b),
     ucast (n_0 a) * ucast (n_5 b) + ucast (n_1 a) * ucast (n_4 b) + ucast (n_2 a) * ucast (n_3 b)
       + ucast (n_3 a) * ucast (n_2 b) + ucast (n_4 a) * ucast (n_1 b)
       + ucast (n_5 a) * ucast (n_0 b),
     ucast (n_0 a) * ucast (n_6 b) + ucast (n_1 a) * ucast (n_5 b) + ucast (n_2 a) * ucast (n_4 b)
       + ucast (n_3 a) * ucast (n_3 b) + ucast (n_4 a) * ucast (n_2 b)
       + ucast (n_5 a) * ucast (n_1 b) + ucast (n_6 a) * ucast (n_0 b),
     ucast (n_0 a) * ucast (n_7 b) + ucast (n_1 a) * ucast (n_6 b) + ucast (n_2 a) * ucast (n_5 b)
       + ucast (n_3 a) * ucast (n_4 b) + ucast (n_4 a) * ucast (n_3 b)
       + ucast (n_5 a) * ucast (n_2 b) + ucast (n_6 a) * ucast (n_1 b)
       + ucast (n_7 a) * ucast (n_0 b),
     ucast (n_0 a) * ucast (n_8 b) + ucast (n_1 a) * ucast (n_7 b) + ucast (n_2 a) * ucast (n_6 b)
       + ucast (n_3 a) * ucast (n_5 b) + ucast (n_4 a) * ucast (n_4 b)
       + ucast (n_5 a) * ucast (n_3 b) + ucast (n_6 a) * ucast (n_2 b)
       + ucast (n_7 a) * ucast (n_1 b) + ucast (n_8 a) * ucast (n_0 b),
     ucast (n_0 a) * ucast (n_9 b) + ucast (n_1 a) * ucast (n_8 b) + ucast (n_2 a) * ucast (n_7 b)
       + ucast (n_3 a) * ucast (n_6 b) + ucast (n_4 a) * ucast (n_5 b)
       + ucast (n_5 a) * ucast (n_4 b) + ucast (n_6 a) * ucast (n_3 b)
       + ucast (n_7 a) * ucast (n_2 b) + ucast (n_8 a) * ucast (n_1 b)
       + ucast (n_9 a) * ucast (n_0 b),
     ucast (n_1 a) * ucast (n_9 b) + ucast (n_2 a) * ucast (n_8 b) + ucast (n_3 a) * ucast (n_7 b)
       + ucast (n_4 a) * ucast (n_6 b) + ucast (n_5 a) * ucast (n_5 b)
       + ucast (n_6 a) * ucast (n_4 b) + ucast (n_7 a) * ucast (n_3 b)
       + ucast (n_8 a) * ucast (n_2 b) + ucast (n_9 a) * ucast (n_1 b),
     ucast (n_2 a) * ucast (n_9 b) + ucast (n_3 a) * ucast (n_8 b) + ucast (n_4 a) * ucast (n_7 b)
       + ucast (n_5 a) * ucast (n_6 b) + ucast (n_6 a) * ucast (n_5 b)
       + ucast (n_7 a) * ucast (n_4 b) + ucast (n_8 a) * ucast (n_3 b)
       + ucast (n_9 a) * ucast (n_2 b),
     ucast (n_3 a) * ucast (n_9 b) + ucast (n_4 a) * ucast (n_8 b) + ucast (n_5 a) * ucast (n_7 b)
       + ucast (n_6 a) * ucast (n_6 b) + ucast (n_7 a) * ucast (n_5 b)
       + ucast (n_8 a) * ucast (n_4 b) + ucast (n_9 a) * ucast (n_3 b),
     ucast (n_4 a) * ucast (n_9 b) + ucast (n_5 a) * ucast (n_8 b) + ucast (n_6 a) * ucast (n_7 b)
       + ucast (n_7 a) * ucast (n_6 b) + ucast (n_8 a) * ucast (n_5 b)
       + ucast (n_9 a) * ucast (n_4 b),
     ucast (n_5 a) * ucast (n_9 b) + ucast (n_6 a) * ucast (n_8 b) + ucast (n_7 a) * ucast (n_7 b)
       + ucast (n_8 a) * ucast (n_6 b) + ucast (n_9 a) * ucast (n_5 b),
     ucast (n_6 a) * ucast (n_9 b) + ucast (n_7 a) * ucast (n_8 b) + ucast (n_8 a) * ucast (n_7 b)
       + ucast (n_9 a) * ucast (n_6 b),
     ucast (n_7 a) * ucast (n_9 b) + ucast (n_8 a) * ucast (n_8 b) + ucast (n_9 a) * ucast (n_7 b),
     ucast (n_8 a) * ucast (n_9 b) + ucast (n_9 a) * ucast (n_8 b),
     ucast (n_9 a) * ucast (n_9 b)]"

definition sqr_columns :: "secp256k1_fe \<Rightarrow> u64 list" where
  "sqr_columns a =
    [ucast (n_0 a) * ucast (n_0 a),
     ucast (n_0 a * 2) * ucast (n_1 a),
     ucast (n_0 a * 2) * ucast (n_2 a) + ucast (n_1 a) * ucast (n_1 a),
     ucast (n_0 a * 2) * ucast (n_3 a) + ucast (n_1 a * 2) * ucast (n_2 a),
     ucast (n_0 a * 2) * ucast (n_4 a) + ucast (n_1 a * 2) * ucast (n_3 a)
       + ucast (n_2 a) * ucast (n_2 a),
     ucast (n_0 a * 2) * ucast (n_5 a) + ucast (n_1 a * 2) * ucast (n_4 a)
       + ucast (n_2 a * 2) * ucast (n_3 a),
     ucast (n_0 a * 2) * ucast (n_6 a) + ucast (n_1 a * 2) * ucast (n_5 a)
       + ucast (n_2 a * 2) * ucast (n_4 a) + ucast (n_3 a) * ucast (n_3 a),
     ucast (n_0 a * 2) * ucast (n_7 a) + ucast (n_1 a * 2) * ucast (n_6 a)
       + ucast (n_2 a * 2) * ucast (n_5 a) + ucast (n_3 a * 2) * ucast (n_4 a),
     ucast (n_0 a * 2) * ucast (n_8 a) + ucast (n_1 a * 2) * ucast (n_7 a)
       + ucast (n_2 a * 2) * ucast (n_6 a) + ucast (n_3 a * 2) * ucast (n_5 a)
       + ucast (n_4 a) * ucast (n_4 a),
     ucast (n_0 a * 2) * ucast (n_9 a) + ucast (n_1 a * 2) * ucast (n_8 a)
       + ucast (n_2 a * 2) * ucast (n_7 a) + ucast (n_3 a * 2) * ucast (n_6 a)
       + ucast (n_4 a * 2) * ucast (n_5 a),
     ucast (n_1 a * 2) * ucast (n_9 a) + ucast (n_2 a * 2) * ucast (n_8 a)
       + ucast (n_3 a * 2) * ucast (n_7 a) + ucast (n_4 a * 2) * ucast (n_6 a)
       + ucast (n_5 a) * ucast (n_5 a),
     ucast (n_2 a * 2) * ucast (n_9 a) + ucast (n_3 a * 2) * ucast (n_8 a)
       + ucast (n_4 a * 2) * ucast (n_7 a) + ucast (n_5 a * 2) * ucast (n_6 a),
     ucast (n_3 a * 2) * ucast (n_9 a) + ucast (n_4 a * 2) * ucast (n_8 a)
       + ucast (n_5 a * 2) * ucast (n_7 a) + ucast (n_6 a) * ucast (n_6 a),
     ucast (n_4 a * 2) * ucast (n_9 a) + ucast (n_5 a * 2) * ucast (n_8 a)
       + ucast (n_6 a * 2) * ucast (n_7 a),
     ucast (n_5 a * 2) * ucast (n_9 a) + ucast (n_6 a * 2) * ucast (n_8 a)
       + ucast (n_7 a) * ucast (n_7 a),
     ucast (n_6 a * 2) * ucast (n_9 a) + ucast (n_7 a * 2) * ucast (n_8 a),
     ucast (n_7 a * 2) * ucast (n_9 a) + ucast (n_8 a) * ucast (n_8 a),
     ucast (n_8 a * 2) * ucast (n_9 a),
     ucast (n_9 a) * ucast (n_9 a)]"

text \<open>One column: \<open>c += pc; d += pd; u = d & M; d >>= 26; c += u * R0; t = c & M; c >>= 26;
  c += u * R1\<close>.\<close>

definition inner_column :: "u64 \<Rightarrow> u64 \<Rightarrow> u64 \<times> u64 \<Rightarrow> u32 \<times> u64 \<times> u64" where
  "inner_column pc pd = (\<lambda>(c, d).
     let c = c + pc;
         d = d + pd;
         u = d AND 0x3FFFFFF;
         d = drop_bit 26 d;
         c = c + u * 0x3D10;
         t = (ucast (c AND 0x3FFFFFF) :: u32);
         c = drop_bit 26 c;
         c = c + u * 0x400
     in (t, c, d))"

fun inner_columns :: "(u64 \<times> u64) list \<Rightarrow> u64 \<times> u64 \<Rightarrow> u32 list \<times> u64 \<times> u64" where
  "inner_columns [] cd = ([], cd)"
| "inner_columns ((pc, pd) # ps) cd =
     (let (t, cd) = inner_column pc pd cd;
          (ts, cd) = inner_columns ps cd
      in (t # ts, cd))"

definition inner_reduce :: "u64 list \<Rightarrow> secp256k1_fe" where
  "inner_reduce p =
     (let d = p ! 9;
          t9 = (ucast (d AND 0x3FFFFFF) :: u32);
          d = drop_bit 26 d;
          (t, c, d) = inner_columns
            [(p ! 0, p ! 10), (p ! 1, p ! 11), (p ! 2, p ! 12), (p ! 3, p ! 13), (p ! 4, p ! 14),
             (p ! 5, p ! 15), (p ! 6, p ! 16), (p ! 7, p ! 17), (p ! 8, p ! 18)] (0, d);
          c = c + (d * 0x3D10 + ucast t9);
          r9 = (ucast (c AND drop_bit 4 0x3FFFFFF) :: u32);
          c = drop_bit 22 c;
          c = c + d * push_bit 4 0x400;
          d = c * drop_bit 4 0x3D10 + ucast (t ! 0);
          r0 = (ucast (d AND 0x3FFFFFF) :: u32);
          d = drop_bit 26 d;
          d = d + (c * drop_bit 4 0x400 + ucast (t ! 1));
          r1 = (ucast (d AND 0x3FFFFFF) :: u32);
          d = drop_bit 26 d;
          d = d + ucast (t ! 2);
          r2 = (ucast d :: u32)
      in \<lparr>n_0 = r0, n_1 = r1, n_2 = r2, n_3 = t ! 3, n_4 = t ! 4, n_5 = t ! 5, n_6 = t ! 6,
          n_7 = t ! 7, n_8 = t ! 8, n_9 = r9\<rparr>)"

definition secp256k1_fe_mul_inner :: "secp256k1_fe \<Rightarrow> secp256k1_fe \<Rightarrow> secp256k1_fe" where
  "secp256k1_fe_mul_inner a b = inner_reduce (mul_columns a b)"

definition secp256k1_fe_sqr_inner :: "secp256k1_fe \<Rightarrow> secp256k1_fe" where
  "secp256k1_fe_sqr_inner a = inner_reduce (sqr_columns a)"

definition secp256k1_fe_mul :: "secp256k1_fe \<Rightarrow> secp256k1_fe \<Rightarrow> secp256k1_fe" where
  "secp256k1_fe_mul a b = secp256k1_fe_mul_inner a b"

definition secp256k1_fe_sqr :: "secp256k1_fe \<Rightarrow> secp256k1_fe" where
  "secp256k1_fe_sqr a = secp256k1_fe_sqr_inner a"

subsection \<open>Conditional moves and storage\<close>

definition secp256k1_fe_cmov :: "secp256k1_fe \<Rightarrow> secp256k1_fe \<Rightarrow> u32 \<Rightarrow> secp256k1_fe" where
  "secp256k1_fe_cmov r a flag =
     (let mask0 = flag + NOT 0;
          mask1 = NOT mask0;
          mv = (\<lambda>x y. (x AND mask0) OR (y AND mask1))
      in \<lparr>n_0 = mv (n_0 r) (n_0 a), n_1 = mv (n_1 r) (n_1 a), n_2 = mv (n_2 r) (n_2 a),
          n_3 = mv (n_3 r) (n_3 a), n_4 = mv (n_4 r) (n_4 a), n_5 = mv (n_5 r) (n_5 a),
          n_6 = mv (n_6 r) (n_6 a), n_7 = mv (n_7 r) (n_7 a), n_8 = mv (n_8 r) (n_8 a),
          n_9 = mv (n_9 r) (n_9 a)\<rparr>)"

definition secp256k1_fe_storage_cmov ::
  "secp256k1_fe_storage \<Rightarrow> secp256k1_fe_storage \<Rightarrow> u32 \<Rightarrow> secp256k1_fe_storage" where
  "secp256k1_fe_storage_cmov r a flag =
     (let mask0 = flag + NOT 0;
          mask1 = NOT mask0;
          mv = (\<lambda>x y. (x AND mask0) OR (y AND mask1))
      in \<lparr>s_0 = mv (s_0 r) (s_0 a), s_1 = mv (s_1 r) (s_1 a), s_2 = mv (s_2 r) (s_2 a),
          s_3 = mv (s_3 r) (s_3 a), s_4 = mv (s_4 r) (s_4 a), s_5 = mv (s_5 r) (s_5 a),
          s_6 = mv (s_6 r) (s_6 a), s_7 = mv (s_7 r) (s_7 a)\<rparr>)"

definition secp256k1_fe_to_storage :: "secp256k1_fe \<Rightarrow> secp256k1_fe_storage" where
  "secp256k1_fe_to_storage a =
     \<lparr>s_0 = n_0 a OR push_bit 26 (n_1 a),
      s_1 = drop_bit 6 (n_1 a) OR push_bit 20 (n_2 a),
      s_2 = drop_bit 12 (n_2 a) OR push_bit 14 (n_3 a),
      s_3 = drop_bit 18 (n_3 a) OR push_bit 8 (n_4 a),
      s_4 = (drop_bit 24 (n_4 a) OR push_bit 2 (n_5 a)) OR push_bit 28 (n_6 a),
      s_5 = drop_bit 4 (n_6 a) OR push_bit 22 (n_7 a),
      s_6 = drop_bit 10 (n_7 a) OR push_bit 16 (n_8 a),
      s_7 = drop_bit 16 (n_8 a) OR push_bit 10 (n_9 a)\<rparr>"

definition secp256k1_fe_from_storage :: "secp256k1_fe_storage \<Rightarrow> secp256k1_fe" where
  "secp256k1_fe_from_storage a =
     \<lparr>n_0 = s_0 a AND 0x3FFFFFF,
      n_1 = drop_bit 26 (s_0 a) OR (push_bit 6 (s_1 a) AND 0x3FFFFFF),
      n_2 = drop_bit 20 (s_1 a) OR (push_bit 12 (s_2 a) AND 0x3FFFFFF),
      n_3 = drop_bit 14 (s_2 a) OR (push_bit 18 (s_3 a) AND 0x3FFFFFF),
      n_4 = drop_bit 8 (s_3 a) OR (push_bit 24 (s_4 a) AND 0x3FFFFFF),
      n_5 = drop_bit 2 (s_4 a) AND 0x3FFFFFF,
      n_6 = drop_bit 28 (s_4 a) OR (push_bit 4 (s_5 a) AND 0x3FFFFFF),
      n_7 = drop_bit 22 (s_5 a) OR (push_bit 10 (s_6 a) AND 0x3FFFFFF),
      n_8 = drop_bit 16 (s_6 a) OR (push_bit 16 (s_7 a) AND 0x3FFFFFF),
      n_9 = drop_bit 10 (s_7 a)\<rparr>"

subsection \<open>The interleaved reduction\<close>

text \<open>\<open>2 ^ 260\<close> and \<open>R0 + 2 ^ 26 * R1\<close> agree modulo the characteristic.\<close>

definition fold_260 :: int where
  "fold_260 = 0x3D10 + 2 ^ 26 * 0x400"

lemma fold_260_eq: "2 ^ 260 = fold_260 + secp256k1_p * 16"
  by (simp add: fold_260_def secp256k1_p_def)

lemma inner_column_val:
  assumes r: "inner_column pc pd (c, d) = (t, c', d')"
    and c: "uint c \<le> 2 ^ 39" and d: "uint d \<le> 2 ^ 38"
    and pc: "uint pc \<le> 9 * 2 ^ 60" and pd: "uint pd \<le> 8 * 2 ^ 60"
  shows "uint t < 2 ^ 26" and "uint c' \<le> 2 ^ 39" and "uint d' \<le> 2 ^ 38"
    and "uint d' = (uint d + uint pd) div 2 ^ 26"
    and "uint c + uint pc + fold_260 * (uint d + uint pd) = uint t + 2 ^ 26 * (uint c' + fold_260 * uint d')"
proof -
  define u where "u = (d + pd) AND 0x3FFFFFF"
  define e where "e = c + pc + u * 0x3D10"
  have t: "t = ucast (e AND 0x3FFFFFF)" and c': "c' = drop_bit 26 e + u * 0x400" and d': "d' = drop_bit 26 (d + pd)"
    using r by (auto simp: inner_column_def Let_def u_def e_def)
  have m: "0x3FFFFFF = (mask 26 :: u64)" by (simp add: mask_eq_exp_minus_1)
  have dpd: "fits (d + pd) (uint d + uint pd) (2 ^ 38 + 8 * 2 ^ 60)"
    by (rule fits_add [OF fitsI [OF d] fitsI [OF pd]]) simp
  have u: "fits u ((uint d + uint pd) mod 2 ^ 26) (2 ^ 26 - 1)"
    unfolding u_def by (rule fits_mask [OF dpd m]) simp
  have e: "fits e (uint c + uint pc + (uint d + uint pd) mod 2 ^ 26 * 0x3D10) (2 ^ 39 + 9 * 2 ^ 60 + (2 ^ 26 - 1) * 0x3D10)"
    unfolding e_def by (rule fits_add fits_mult fitsI c pc u fits_numeral | simp)+
  have em: "fits (e AND 0x3FFFFFF) (uint e mod 2 ^ 26) (2 ^ 26 - 1)"
    by (rule fits_mask [OF fits_u64 m]) simp
  have ut: "uint t = uint e mod 2 ^ 26"
    unfolding t by (rule fits_uintD [OF fits_ucast [OF em]]) simp
  have fc: "fits c' (uint e div 2 ^ 26 + (uint d + uint pd) mod 2 ^ 26 * 0x400)
      ((2 ^ 39 + 9 * 2 ^ 60 + (2 ^ 26 - 1) * 0x3D10) div 2 ^ 26 + (2 ^ 26 - 1) * 0x400)"
    unfolding c' using e
    by (intro fits_add fits_mult u fits_numeral fits_shr) (simp_all add: fits_def)
  show ud: "uint d' = (uint d + uint pd) div 2 ^ 26"
    unfolding d' uint_shr by (simp add: fits_uintD [OF dpd])
  show "uint t < 2 ^ 26" unfolding ut by simp
  show "uint c' \<le> 2 ^ 39" using fits_leD [OF fc] unfolding fits_uintD [OF fc] by simp
  have "(uint d + uint pd) div 2 ^ 26 \<le> (2 ^ 38 + 8 * 2 ^ 60) div 2 ^ 26"
    using d pd by (intro zdiv_mono1) auto
  then show "uint d' \<le> 2 ^ 38" unfolding ud by simp
  have alg: "x + k * 0x3D10 + 2 ^ 26 * 0x400 * k + fold_260 * (2 ^ 26 * q) = x + fold_260 * (k + 2 ^ 26 * q)"
    for x k q :: int by (simp add: fold_260_def algebra_simps)
  have "uint t + 2 ^ 26 * (uint c' + fold_260 * uint d') =
      uint e mod 2 ^ 26 + 2 ^ 26 * (uint e div 2 ^ 26) + 2 ^ 26 * 0x400 * ((uint d + uint pd) mod 2 ^ 26)
      + fold_260 * (2 ^ 26 * ((uint d + uint pd) div 2 ^ 26))"
    unfolding ut ud fits_uintD [OF fc] by (simp add: algebra_simps)
  also have "uint e mod 2 ^ 26 + 2 ^ 26 * (uint e div 2 ^ 26) = uint e" by simp
  also have "uint e = uint c + uint pc + (uint d + uint pd) mod 2 ^ 26 * 0x3D10" by (rule fits_uintD [OF e])
  also have "uint c + uint pc + (uint d + uint pd) mod 2 ^ 26 * 0x3D10 + 2 ^ 26 * 0x400 * ((uint d + uint pd) mod 2 ^ 26)
      + fold_260 * (2 ^ 26 * ((uint d + uint pd) div 2 ^ 26))
    = uint c + uint pc + fold_260 * ((uint d + uint pd) mod 2 ^ 26 + 2 ^ 26 * ((uint d + uint pd) div 2 ^ 26))"
    by (rule alg)
  finally show "uint c + uint pc + fold_260 * (uint d + uint pd) = uint t + 2 ^ 26 * (uint c' + fold_260 * uint d')"
    by simp
qed

fun cols_sum :: "(u64 \<times> u64) list \<Rightarrow> int" where
  "cols_sum [] = 0"
| "cols_sum ((pc, pd) # ps) = uint pc + fold_260 * uint pd + 2 ^ 26 * cols_sum ps"

lemma inner_columns_val:
  assumes "inner_columns ps (c, d) = (ts, c', d')"
    and "uint c \<le> 2 ^ 39" and "uint d \<le> 2 ^ 38"
    and "\<forall>(pc, pd) \<in> set ps. uint pc \<le> 9 * 2 ^ 60 \<and> uint pd \<le> 8 * 2 ^ 60"
  shows "length ts = length ps \<and> (\<forall>t \<in> set ts. uint t < 2 ^ 26) \<and> uint c' \<le> 2 ^ 39 \<and> uint d' \<le> 2 ^ 38 \<and>
    (ps \<noteq> [] \<longrightarrow> uint d' \<le> (2 ^ 38 + uint (snd (last ps))) div 2 ^ 26) \<and>
    uint c + fold_260 * uint d + cols_sum ps = lval 26 ts + 2 ^ (26 * length ps) * (uint c' + fold_260 * uint d')"
  using assms
proof (induction ps arbitrary: c d ts)
  case Nil
  then show ?case by simp
next
  case (Cons p ps)
  obtain pc pd where p: "p = (pc, pd)" by fastforce
  obtain t c1 d1 where r1: "inner_column pc pd (c, d) = (t, c1, d1)" by (metis prod.exhaust)
  obtain us where r2: "inner_columns ps (c1, d1) = (us, c', d')" and ts: "ts = t # us"
    using Cons.prems(1) by (auto simp: p r1 split: prod.splits)
  have b: "uint pc \<le> 9 * 2 ^ 60" "uint pd \<le> 8 * 2 ^ 60" using Cons.prems(4) by (auto simp: p)
  note v = inner_column_val [OF r1 Cons.prems(2,3) b]
  have ih: "length us = length ps \<and> (\<forall>t \<in> set us. uint t < 2 ^ 26) \<and> uint c' \<le> 2 ^ 39 \<and> uint d' \<le> 2 ^ 38 \<and>
    (ps \<noteq> [] \<longrightarrow> uint d' \<le> (2 ^ 38 + uint (snd (last ps))) div 2 ^ 26) \<and>
    uint c1 + fold_260 * uint d1 + cols_sum ps = lval 26 us + 2 ^ (26 * length ps) * (uint c' + fold_260 * uint d')"
    using Cons.prems(4) by (intro Cons.IH [OF r2 v(2,3)]) auto
  have "uint c + fold_260 * uint d + cols_sum (p # ps) =
      (uint c + uint pc + fold_260 * (uint d + uint pd)) + 2 ^ 26 * cols_sum ps"
    by (simp add: p algebra_simps)
  also have "\<dots> = uint t + 2 ^ 26 * (uint c1 + fold_260 * uint d1 + cols_sum ps)"
    unfolding v(5) by (simp add: algebra_simps)
  also have "uint c1 + fold_260 * uint d1 + cols_sum ps = lval 26 us + 2 ^ (26 * length ps) * (uint c' + fold_260 * uint d')"
    using ih by blast
  finally have eq: "uint c + fold_260 * uint d + cols_sum (p # ps) =
      lval 26 ts + 2 ^ (26 * length (p # ps)) * (uint c' + fold_260 * uint d')"
    unfolding ts by (simp add: power_add algebra_simps)
  have "uint d' \<le> (2 ^ 38 + uint (snd (last (p # ps)))) div 2 ^ 26"
  proof (cases "ps = []")
    case True
    have "(uint d + uint pd) div 2 ^ 26 \<le> (2 ^ 38 + uint pd) div 2 ^ 26"
      using Cons.prems(3) by (intro zdiv_mono1) auto
    then show ?thesis using True r2 v(4) by (simp add: p)
  qed (use ih in simp)
  with eq ih v(1) show ?case unfolding ts by auto
qed

definition fe_reduced_limbs :: "secp256k1_fe \<Rightarrow> bool" where
  "fe_reduced_limbs r \<longleftrightarrow>
     uint (n_0 r) < 2 ^ 26 \<and> uint (n_1 r) < 2 ^ 26 \<and> uint (n_2 r) < 2 ^ 27 - 1 \<and>
     (\<forall>x \<in> set [n_3 r, n_4 r, n_5 r, n_6 r, n_7 r, n_8 r]. uint x < 2 ^ 26) \<and> uint (n_9 r) < 2 ^ 22"

lemma inner_reduce_tail:
  fixes t :: "u32 list" and c d :: u64 and t9 :: u32
  assumes t: "length t = 9" "\<forall>x \<in> set t. uint x < 2 ^ 26" and t9: "uint t9 < 2 ^ 26"
    and c: "uint c \<le> 2 ^ 39" and d: "uint d \<le> 2 ^ 26 + 2 ^ 13"
  defines "c1 \<equiv> c + (d * 0x3D10 + ucast t9)"
  defines "c2 \<equiv> drop_bit 22 c1 + d * push_bit 4 0x400"
  defines "d2 \<equiv> c2 * drop_bit 4 0x3D10 + ucast (t ! 0)"
  defines "d3 \<equiv> drop_bit 26 d2 + (c2 * drop_bit 4 0x400 + ucast (t ! 1))"
  defines "d4 \<equiv> drop_bit 26 d3 + ucast (t ! 2)"
  defines "r \<equiv> \<lparr>n_0 = ucast (d2 AND 0x3FFFFFF), n_1 = ucast (d3 AND 0x3FFFFFF), n_2 = ucast d4,
     n_3 = t ! 3, n_4 = t ! 4, n_5 = t ! 5, n_6 = t ! 6, n_7 = t ! 7, n_8 = t ! 8,
     n_9 = ucast (c1 AND drop_bit 4 0x3FFFFFF)\<rparr>"
  shows "fe_reduced_limbs r"
    and "lval 26 t + 2 ^ 234 * (uint t9 + uint c + fold_260 * uint d) = fe_val r + secp256k1_p * uint c2"
proof -
  have m: "0x3FFFFFF = (mask 26 :: u64)" "drop_bit 4 0x3FFFFFF = (mask 22 :: u64)"
    by (simp_all add: mask_eq_exp_minus_1)
  have kc: "push_bit 4 0x400 = (0x4000 :: u64)" "drop_bit 4 0x3D10 = (0x3D1 :: u64)" "drop_bit 4 0x400 = (0x40 :: u64)"
    by simp_all
  have f9: "fits t9 (uint t9) (2 ^ 26 - 1)" using t9 by (intro fitsI) simp
  have ft: "fits (t ! i) (uint (t ! i)) (2 ^ 26 - 1)" if "i < 9" for i
    using t(2) [rule_format, of "t ! i"] t(1) that by (intro fitsI) simp
  have c1: "fits c1 (uint c + (uint d * 0x3D10 + uint t9)) (2 ^ 39 + ((2 ^ 26 + 2 ^ 13) * 0x3D10 + (2 ^ 26 - 1)))"
    unfolding c1_def by (rule fits_add fits_mult fits_ucast fits_numeral f9 fitsI c d | simp)+
  have c2: "fits c2 (uint c1 div 2 ^ 22 + uint d * 0x4000)
     ((2 ^ 39 + ((2 ^ 26 + 2 ^ 13) * 0x3D10 + (2 ^ 26 - 1))) div 2 ^ 22 + (2 ^ 26 + 2 ^ 13) * 0x4000)"
    unfolding c2_def kc using c1
    by (intro fits_add fits_mult fits_shr fits_numeral fitsI d) (simp_all add: fits_def)
  have c2': "fits c2 (uint c2) (2 ^ 41)" using c2 by (simp add: fits_def)
  have d2: "fits d2 (uint c2 * 0x3D1 + uint (t ! 0)) (2 ^ 41 * 0x3D1 + (2 ^ 26 - 1))"
    unfolding d2_def kc by (rule fits_add fits_mult fits_ucast fits_numeral ft c2' | simp)+
  have d3: "fits d3 (uint d2 div 2 ^ 26 + (uint c2 * 0x40 + uint (t ! 1)))
     ((2 ^ 41 * 0x3D1 + (2 ^ 26 - 1)) div 2 ^ 26 + (2 ^ 41 * 0x40 + (2 ^ 26 - 1)))"
    unfolding d3_def kc using d2
    by (intro fits_add fits_mult fits_ucast fits_shr fits_numeral ft c2') (simp_all add: fits_def)
  have d4: "fits d4 (uint d3 div 2 ^ 26 + uint (t ! 2))
     (((2 ^ 41 * 0x3D1 + (2 ^ 26 - 1)) div 2 ^ 26 + (2 ^ 41 * 0x40 + (2 ^ 26 - 1))) div 2 ^ 26 + (2 ^ 26 - 1))"
    unfolding d4_def using d3
    by (intro fits_add fits_ucast fits_shr ft) (simp_all add: fits_def)
  have n9: "uint (n_9 r) = uint c1 mod 2 ^ 22"
    unfolding r_def secp256k1_fe.simps
    by (rule fits_uintD [OF fits_ucast [OF fits_mask [OF fits_u64 m(2), of "2 ^ 22 - 1"]]]) simp_all
  have n0: "uint (n_0 r) = uint d2 mod 2 ^ 26" and n1: "uint (n_1 r) = uint d3 mod 2 ^ 26"
    unfolding r_def secp256k1_fe.simps
    by (rule fits_uintD [OF fits_ucast [OF fits_mask [OF fits_u64 m(1), of "2 ^ 26 - 1"]]]; simp)+
  have n2: "fits (n_2 r) (uint d3 div 2 ^ 26 + uint (t ! 2)) (2 ^ 27 - 2)"
    unfolding r_def secp256k1_fe.simps by (rule fits_mono [OF fits_ucast [OF d4]]) simp_all
  have ns: "n_3 r = t ! 3" "n_4 r = t ! 4" "n_5 r = t ! 5" "n_6 r = t ! 6" "n_7 r = t ! 7" "n_8 r = t ! 8"
    by (simp_all add: r_def)
  show "fe_reduced_limbs r"
    using n2 t ns unfolding fe_reduced_limbs_def n0 n1 n9 by (simp add: fits_def)
  have tl: "lval 26 t = uint (t ! 0) + 2 ^ 26 * (uint (t ! 1) + 2 ^ 26 * (uint (t ! 2) + 2 ^ 26 *
     lval 26 [t ! 3, t ! 4, t ! 5, t ! 6, t ! 7, t ! 8]))"
  proof -
    have "t = [t ! 0, t ! 1, t ! 2, t ! 3, t ! 4, t ! 5, t ! 6, t ! 7, t ! 8]"
      using t(1) by (intro nth_equalityI) (auto simp: less_Suc_eq numeral_eq_Suc)
    then show ?thesis by (metis lval.simps(2))
  qed
  define R where "R = lval 26 [t ! 3, t ! 4, t ! 5, t ! 6, t ! 7, t ! 8]"
  have v: "fe_val r = uint (n_0 r) + 2 ^ 26 * uint (n_1 r) + 2 ^ 52 * uint (n_2 r) + 2 ^ 78 * R + 2 ^ 234 * uint (n_9 r)"
    unfolding fe_val_def fe_limbs_def R_def ns by simp
  have e1: "uint t9 + uint c + fold_260 * uint d = uint (n_9 r) + 2 ^ 22 * uint c2"
    using mod_mult_div_eq [of "uint c1" "2 ^ 22"] fits_uintD [OF c1] fits_uintD [OF c2]
    unfolding n9 fold_260_def by simp
  have e2: "uint (n_0 r) + 2 ^ 26 * uint (n_1 r) + 2 ^ 52 * uint (n_2 r) =
     uint (t ! 0) + 2 ^ 26 * uint (t ! 1) + 2 ^ 52 * uint (t ! 2) + uint c2 * (0x3D1 + 2 ^ 26 * 0x40)"
  proof -
    define q2 q3 where "q2 = uint d2 div 2 ^ 26" and "q3 = uint d3 div 2 ^ 26"
    have "uint (n_0 r) + 2 ^ 26 * q2 = uint c2 * 0x3D1 + uint (t ! 0)"
      unfolding n0 q2_def mod_mult_div_eq by (rule fits_uintD [OF d2])
    moreover have "uint (n_1 r) + 2 ^ 26 * q3 = q2 + (uint c2 * 0x40 + uint (t ! 1))"
      unfolding n1 q3_def mod_mult_div_eq q2_def by (rule fits_uintD [OF d3])
    moreover have "uint (n_2 r) = q3 + uint (t ! 2)"
      unfolding q3_def by (rule fits_uintD [OF n2])
    ultimately show ?thesis by simp
  qed
  show "lval 26 t + 2 ^ 234 * (uint t9 + uint c + fold_260 * uint d) = fe_val r + secp256k1_p * uint c2"
    using e2 unfolding v tl e1 secp256k1_p_def R_def [symmetric] by simp
qed

subsection \<open>The columns\<close>

definition fe_mul_ok :: "secp256k1_fe \<Rightarrow> bool" where
  "fe_mul_ok a \<longleftrightarrow> (\<forall>x \<in> set (butlast (fe_limbs a)). uint x < 2 ^ 30) \<and> uint (n_9 a) < 2 ^ 26"

lemma fe_mul_ok_fits:
  assumes "fe_mul_ok a"
  shows "fits (n_0 a) (uint (n_0 a)) 1073741823" "fits (n_1 a) (uint (n_1 a)) 1073741823"
    "fits (n_2 a) (uint (n_2 a)) 1073741823" "fits (n_3 a) (uint (n_3 a)) 1073741823"
    "fits (n_4 a) (uint (n_4 a)) 1073741823" "fits (n_5 a) (uint (n_5 a)) 1073741823"
    "fits (n_6 a) (uint (n_6 a)) 1073741823" "fits (n_7 a) (uint (n_7 a)) 1073741823"
    "fits (n_8 a) (uint (n_8 a)) 1073741823" "fits (n_9 a) (uint (n_9 a)) 67108863"
  using assms by (simp_all add: fe_mul_ok_def fe_limbs_def fits_def)

lemma fits_prod:
  fixes v w :: u32
  shows
    "fits v i 1073741823 \<Longrightarrow> fits w j 1073741823 \<Longrightarrow> fits (ucast v * ucast w :: u64) (i * j) 1152921504606846976"
    "fits v i 1073741823 \<Longrightarrow> fits w j 67108863 \<Longrightarrow> fits (ucast v * ucast w :: u64) (i * j) 72057594037927936"
    "fits v i 67108863 \<Longrightarrow> fits w j 1073741823 \<Longrightarrow> fits (ucast v * ucast w :: u64) (i * j) 72057594037927936"
    "fits v i 67108863 \<Longrightarrow> fits w j 67108863 \<Longrightarrow> fits (ucast v * ucast w :: u64) (i * j) 4503599627370496"
    "fits v i 2147483646 \<Longrightarrow> fits w j 1073741823 \<Longrightarrow> fits (ucast v * ucast w :: u64) (i * j) 2305843009213693952"
    "fits v i 2147483646 \<Longrightarrow> fits w j 67108863 \<Longrightarrow> fits (ucast v * ucast w :: u64) (i * j) 144115188075855872"
  by (rule fits_mono, rule fits_mult, rule fits_ucast, assumption, simp, rule fits_ucast, assumption, simp, simp, simp)+

lemma fits_twice:
  fixes v :: u32
  shows "fits v i 1073741823 \<Longrightarrow> fits (v * 2) (i * 2) 2147483646"
  by (rule fits_mono, rule fits_mult, assumption, rule fits_numeral, simp_all)

lemma mul_columns_fits:
  assumes a: "fe_mul_ok a" and b: "fe_mul_ok b"
  shows "list_all2 (\<lambda>w (i, B). fits w i B) (mul_columns a b)
    [
     (uint (n_0 a) * uint (n_0 b),
        1152921504606846976),
     (uint (n_0 a) * uint (n_1 b) + uint (n_1 a) * uint (n_0 b),
        1152921504606846976 + 1152921504606846976),
     (uint (n_0 a) * uint (n_2 b) + uint (n_1 a) * uint (n_1 b) + uint (n_2 a) * uint (n_0 b),
        1152921504606846976 + 1152921504606846976 + 1152921504606846976),
     (uint (n_0 a) * uint (n_3 b) + uint (n_1 a) * uint (n_2 b) + uint (n_2 a) * uint (n_1 b) + uint (n_3 a) * uint (n_0 b),
        1152921504606846976 + 1152921504606846976 + 1152921504606846976 + 1152921504606846976),
     (uint (n_0 a) * uint (n_4 b) + uint (n_1 a) * uint (n_3 b) + uint (n_2 a) * uint (n_2 b) + uint (n_3 a) * uint (n_1 b) + uint (n_4 a) * uint (n_0 b),
        1152921504606846976 + 1152921504606846976 + 1152921504606846976 + 1152921504606846976 + 1152921504606846976),
     (uint (n_0 a) * uint (n_5 b) + uint (n_1 a) * uint (n_4 b) + uint (n_2 a) * uint (n_3 b) + uint (n_3 a) * uint (n_2 b) + uint (n_4 a) * uint (n_1 b) + uint (n_5 a) * uint (n_0 b),
        1152921504606846976 + 1152921504606846976 + 1152921504606846976 + 1152921504606846976 + 1152921504606846976 + 1152921504606846976),
     (uint (n_0 a) * uint (n_6 b) + uint (n_1 a) * uint (n_5 b) + uint (n_2 a) * uint (n_4 b) + uint (n_3 a) * uint (n_3 b) + uint (n_4 a) * uint (n_2 b) + uint (n_5 a) * uint (n_1 b) + uint (n_6 a) * uint (n_0 b),
        1152921504606846976 + 1152921504606846976 + 1152921504606846976 + 1152921504606846976 + 1152921504606846976 + 1152921504606846976 + 1152921504606846976),
     (uint (n_0 a) * uint (n_7 b) + uint (n_1 a) * uint (n_6 b) + uint (n_2 a) * uint (n_5 b) + uint (n_3 a) * uint (n_4 b) + uint (n_4 a) * uint (n_3 b) + uint (n_5 a) * uint (n_2 b) + uint (n_6 a) * uint (n_1 b) + uint (n_7 a) * uint (n_0 b),
        1152921504606846976 + 1152921504606846976 + 1152921504606846976 + 1152921504606846976 + 1152921504606846976 + 1152921504606846976 + 1152921504606846976 + 1152921504606846976),
     (uint (n_0 a) * uint (n_8 b) + uint (n_1 a) * uint (n_7 b) + uint (n_2 a) * uint (n_6 b) + uint (n_3 a) * uint (n_5 b) + uint (n_4 a) * uint (n_4 b) + uint (n_5 a) * uint (n_3 b) + uint (n_6 a) * uint (n_2 b) + uint (n_7 a) * uint (n_1 b) + uint (n_8 a) * uint (n_0 b),
        1152921504606846976 + 1152921504606846976 + 1152921504606846976 + 1152921504606846976 + 1152921504606846976 + 1152921504606846976 + 1152921504606846976 + 1152921504606846976 + 1152921504606846976),
     (uint (n_0 a) * uint (n_9 b) + uint (n_1 a) * uint (n_8 b) + uint (n_2 a) * uint (n_7 b) + uint (n_3 a) * uint (n_6 b) + uint (n_4 a) * uint (n_5 b) + uint (n_5 a) * uint (n_4 b) + uint (n_6 a) * uint (n_3 b) + uint (n_7 a) * uint (n_2 b) + uint (n_8 a) * uint (n_1 b) + uint (n_9 a) * uint (n_0 b),
        72057594037927936 + 1152921504606846976 + 1152921504606846976 + 1152921504606846976 + 1152921504606846976 + 1152921504606846976 + 1152921504606846976 + 1152921504606846976 + 1152921504606846976 + 72057594037927936),
     (uint (n_1 a) * uint (n_9 b) + uint (n_2 a) * uint (n_8 b) + uint (n_3 a) * uint (n_7 b) + uint (n_4 a) * uint (n_6 b) + uint (n_5 a) * uint (n_5 b) + uint (n_6 a) * uint (n_4 b) + uint (n_7 a) * uint (n_3 b) + uint (n_8 a) * uint (n_2 b) + uint (n_9 a) * uint (n_1 b),
        72057594037927936 + 1152921504606846976 + 1152921504606846976 + 1152921504606846976 + 1152921504606846976 + 1152921504606846976 + 1152921504606846976 + 1152921504606846976 + 72057594037927936),
     (uint (n_2 a) * uint (n_9 b) + uint (n_3 a) * uint (n_8 b) + uint (n_4 a) * uint (n_7 b) + uint (n_5 a) * uint (n_6 b) + uint (n_6 a) * uint (n_5 b) + uint (n_7 a) * uint (n_4 b) + uint (n_8 a) * uint (n_3 b) + uint (n_9 a) * uint (n_2 b),
        72057594037927936 + 1152921504606846976 + 1152921504606846976 + 1152921504606846976 + 1152921504606846976 + 1152921504606846976 + 1152921504606846976 + 72057594037927936),
     (uint (n_3 a) * uint (n_9 b) + uint (n_4 a) * uint (n_8 b) + uint (n_5 a) * uint (n_7 b) + uint (n_6 a) * uint (n_6 b) + uint (n_7 a) * uint (n_5 b) + uint (n_8 a) * uint (n_4 b) + uint (n_9 a) * uint (n_3 b),
        72057594037927936 + 1152921504606846976 + 1152921504606846976 + 1152921504606846976 + 1152921504606846976 + 1152921504606846976 + 72057594037927936),
     (uint (n_4 a) * uint (n_9 b) + uint (n_5 a) * uint (n_8 b) + uint (n_6 a) * uint (n_7 b) + uint (n_7 a) * uint (n_6 b) + uint (n_8 a) * uint (n_5 b) + uint (n_9 a) * uint (n_4 b),
        72057594037927936 + 1152921504606846976 + 1152921504606846976 + 1152921504606846976 + 1152921504606846976 + 72057594037927936),
     (uint (n_5 a) * uint (n_9 b) + uint (n_6 a) * uint (n_8 b) + uint (n_7 a) * uint (n_7 b) + uint (n_8 a) * uint (n_6 b) + uint (n_9 a) * uint (n_5 b),
        72057594037927936 + 1152921504606846976 + 1152921504606846976 + 1152921504606846976 + 72057594037927936),
     (uint (n_6 a) * uint (n_9 b) + uint (n_7 a) * uint (n_8 b) + uint (n_8 a) * uint (n_7 b) + uint (n_9 a) * uint (n_6 b),
        72057594037927936 + 1152921504606846976 + 1152921504606846976 + 72057594037927936),
     (uint (n_7 a) * uint (n_9 b) + uint (n_8 a) * uint (n_8 b) + uint (n_9 a) * uint (n_7 b),
        72057594037927936 + 1152921504606846976 + 72057594037927936),
     (uint (n_8 a) * uint (n_9 b) + uint (n_9 a) * uint (n_8 b),
        72057594037927936 + 72057594037927936),
     (uint (n_9 a) * uint (n_9 b),
        4503599627370496)]"
  unfolding mul_columns_def
  by (simp only: list_all2_Cons list_all2_Nil2 case_prod_conv, intro conjI)
    (rule refl | rule fits_add fits_prod fe_mul_ok_fits [OF a] fe_mul_ok_fits [OF b] | (simp; fail))+

lemma sqr_columns_fits:
  assumes a: "fe_mul_ok a"
  shows "list_all2 (\<lambda>w (i, B). fits w i B) (sqr_columns a)
    [
     (uint (n_0 a) * uint (n_0 a),
        1152921504606846976),
     (uint (n_0 a) * 2 * uint (n_1 a),
        2305843009213693952),
     (uint (n_0 a) * 2 * uint (n_2 a) + uint (n_1 a) * uint (n_1 a),
        2305843009213693952 + 1152921504606846976),
     (uint (n_0 a) * 2 * uint (n_3 a) + uint (n_1 a) * 2 * uint (n_2 a),
        2305843009213693952 + 2305843009213693952),
     (uint (n_0 a) * 2 * uint (n_4 a) + uint (n_1 a) * 2 * uint (n_3 a) + uint (n_2 a) * uint (n_2 a),
        2305843009213693952 + 2305843009213693952 + 1152921504606846976),
     (uint (n_0 a) * 2 * uint (n_5 a) + uint (n_1 a) * 2 * uint (n_4 a) + uint (n_2 a) * 2 * uint (n_3 a),
        2305843009213693952 + 2305843009213693952 + 2305843009213693952),
     (uint (n_0 a) * 2 * uint (n_6 a) + uint (n_1 a) * 2 * uint (n_5 a) + uint (n_2 a) * 2 * uint (n_4 a) + uint (n_3 a) * uint (n_3 a),
        2305843009213693952 + 2305843009213693952 + 2305843009213693952 + 1152921504606846976),
     (uint (n_0 a) * 2 * uint (n_7 a) + uint (n_1 a) * 2 * uint (n_6 a) + uint (n_2 a) * 2 * uint (n_5 a) + uint (n_3 a) * 2 * uint (n_4 a),
        2305843009213693952 + 2305843009213693952 + 2305843009213693952 + 2305843009213693952),
     (uint (n_0 a) * 2 * uint (n_8 a) + uint (n_1 a) * 2 * uint (n_7 a) + uint (n_2 a) * 2 * uint (n_6 a) + uint (n_3 a) * 2 * uint (n_5 a) + uint (n_4 a) * uint (n_4 a),
        2305843009213693952 + 2305843009213693952 + 2305843009213693952 + 2305843009213693952 + 1152921504606846976),
     (uint (n_0 a) * 2 * uint (n_9 a) + uint (n_1 a) * 2 * uint (n_8 a) + uint (n_2 a) * 2 * uint (n_7 a) + uint (n_3 a) * 2 * uint (n_6 a) + uint (n_4 a) * 2 * uint (n_5 a),
        144115188075855872 + 2305843009213693952 + 2305843009213693952 + 2305843009213693952 + 2305843009213693952),
     (uint (n_1 a) * 2 * uint (n_9 a) + uint (n_2 a) * 2 * uint (n_8 a) + uint (n_3 a) * 2 * uint (n_7 a) + uint (n_4 a) * 2 * uint (n_6 a) + uint (n_5 a) * uint (n_5 a),
        144115188075855872 + 2305843009213693952 + 2305843009213693952 + 2305843009213693952 + 1152921504606846976),
     (uint (n_2 a) * 2 * uint (n_9 a) + uint (n_3 a) * 2 * uint (n_8 a) + uint (n_4 a) * 2 * uint (n_7 a) + uint (n_5 a) * 2 * uint (n_6 a),
        144115188075855872 + 2305843009213693952 + 2305843009213693952 + 2305843009213693952),
     (uint (n_3 a) * 2 * uint (n_9 a) + uint (n_4 a) * 2 * uint (n_8 a) + uint (n_5 a) * 2 * uint (n_7 a) + uint (n_6 a) * uint (n_6 a),
        144115188075855872 + 2305843009213693952 + 2305843009213693952 + 1152921504606846976),
     (uint (n_4 a) * 2 * uint (n_9 a) + uint (n_5 a) * 2 * uint (n_8 a) + uint (n_6 a) * 2 * uint (n_7 a),
        144115188075855872 + 2305843009213693952 + 2305843009213693952),
     (uint (n_5 a) * 2 * uint (n_9 a) + uint (n_6 a) * 2 * uint (n_8 a) + uint (n_7 a) * uint (n_7 a),
        144115188075855872 + 2305843009213693952 + 1152921504606846976),
     (uint (n_6 a) * 2 * uint (n_9 a) + uint (n_7 a) * 2 * uint (n_8 a),
        144115188075855872 + 2305843009213693952),
     (uint (n_7 a) * 2 * uint (n_9 a) + uint (n_8 a) * uint (n_8 a),
        144115188075855872 + 1152921504606846976),
     (uint (n_8 a) * 2 * uint (n_9 a),
        144115188075855872),
     (uint (n_9 a) * uint (n_9 a),
        4503599627370496)]"
  unfolding sqr_columns_def
  by (simp only: list_all2_Cons list_all2_Nil2 case_prod_conv, intro conjI)
    (rule refl | rule fits_add fits_prod fits_twice fe_mul_ok_fits [OF a] | (simp; fail))+

subsection \<open>Products\<close>

fun ival :: "int list \<Rightarrow> int" where
  "ival [] = 0"
| "ival (x # xs) = x + 67108864 * ival xs"

lemma lval_fits:
  assumes "list_all2 (\<lambda>w (i, B). fits w i B) ws ibs"
  shows "lval 26 ws = ival (map fst ibs)"
  using assms by (induction ws ibs rule: list_all2_induct) (auto dest: fits_uintD)

lemma nth_fits:
  assumes "list_all2 (\<lambda>w (i, B). fits w i B) ws ibs" and "k < length ibs"
  shows "uint (ws ! k) \<le> snd (ibs ! k)"
  using list_all2_nthD2 [OF assms] by (auto simp: fits_def split: prod.splits)

lemma fe_val_ints:
  "fe_val a = ival [uint (n_0 a), uint (n_1 a), uint (n_2 a), uint (n_3 a), uint (n_4 a),
     uint (n_5 a), uint (n_6 a), uint (n_7 a), uint (n_8 a), uint (n_9 a)]"
  by (simp add: fe_val_def fe_limbs_def)

fun poly_add :: "int list \<Rightarrow> int list \<Rightarrow> int list" where
  "poly_add [] ys = ys"
| "poly_add xs [] = xs"
| "poly_add (x # xs) (y # ys) = (x + y) # poly_add xs ys"

fun pmul :: "int list \<Rightarrow> int list \<Rightarrow> int list" where
  "pmul [] ys = []"
| "pmul (x # xs) ys = poly_add (map ((*) x) ys) (0 # pmul xs ys)"

lemma ival_poly_add: "ival (poly_add xs ys) = ival xs + ival ys"
  by (induction xs ys rule: poly_add.induct) auto

lemma ival_scale: "ival (map ((*) c) xs) = c * ival xs"
  by (induction xs) (auto simp: algebra_simps)

lemma ival_pmul: "ival (pmul xs ys) = ival xs * ival ys"
  by (induction xs) (auto simp: ival_poly_add ival_scale algebra_simps)

definition columns_ok :: "u64 list \<Rightarrow> bool" where
  "columns_ok p \<longleftrightarrow> length p = 19 \<and> (\<forall>k \<in> set [0, 1, 2, 3, 4, 5, 6, 7, 8]. uint (p ! k) \<le> 9 * 2 ^ 60) \<and>
     (\<forall>k \<in> set [10, 11, 12, 13, 14, 15, 16, 17]. uint (p ! k) \<le> 8 * 2 ^ 60) \<and> uint (p ! 18) \<le> 2 ^ 52"

lemma mul_columns_ok:
  assumes "fe_mul_ok a" and "fe_mul_ok b"
  shows "columns_ok (mul_columns a b)"
proof -
  note f = mul_columns_fits [OF assms]
  have "length (mul_columns a b) = 19" by (simp add: mul_columns_def)
  then show ?thesis
    unfolding columns_ok_def
    using nth_fits [OF f, of 0] nth_fits [OF f, of 1] nth_fits [OF f, of 2] nth_fits [OF f, of 3]
      nth_fits [OF f, of 4] nth_fits [OF f, of 5] nth_fits [OF f, of 6] nth_fits [OF f, of 7]
      nth_fits [OF f, of 8] nth_fits [OF f, of 10] nth_fits [OF f, of 11] nth_fits [OF f, of 12]
      nth_fits [OF f, of 13] nth_fits [OF f, of 14] nth_fits [OF f, of 15] nth_fits [OF f, of 16]
      nth_fits [OF f, of 17] nth_fits [OF f, of 18]
    by simp
qed

lemma sqr_columns_ok:
  assumes "fe_mul_ok a"
  shows "columns_ok (sqr_columns a)"
proof -
  note f = sqr_columns_fits [OF assms]
  have "length (sqr_columns a) = 19" by (simp add: sqr_columns_def)
  then show ?thesis
    unfolding columns_ok_def
    using nth_fits [OF f, of 0] nth_fits [OF f, of 1] nth_fits [OF f, of 2] nth_fits [OF f, of 3]
      nth_fits [OF f, of 4] nth_fits [OF f, of 5] nth_fits [OF f, of 6] nth_fits [OF f, of 7]
      nth_fits [OF f, of 8] nth_fits [OF f, of 10] nth_fits [OF f, of 11] nth_fits [OF f, of 12]
      nth_fits [OF f, of 13] nth_fits [OF f, of 14] nth_fits [OF f, of 15] nth_fits [OF f, of 16]
      nth_fits [OF f, of 17] nth_fits [OF f, of 18]
    by simp
qed

lemma mul_columns_val:
  assumes "fe_mul_ok a" and "fe_mul_ok b"
  shows "lval 26 (mul_columns a b) = fe_val a * fe_val b"
  unfolding lval_fits [OF mul_columns_fits [OF assms]] fe_val_ints ival_pmul [symmetric]
  by (intro arg_cong [where f = ival]) (simp add: ac_simps)

lemma sqr_columns_val:
  assumes "fe_mul_ok a"
  shows "lval 26 (sqr_columns a) = fe_val a * fe_val a"
  unfolding lval_fits [OF sqr_columns_fits [OF assms]] fe_val_ints ival_pmul [symmetric]
  by (intro arg_cong [where f = ival]) (simp add: ac_simps)

lemma cols_sum_lval: "length xs = length ys \<Longrightarrow> cols_sum (zip xs ys) = lval 26 xs + fold_260 * lval 26 ys"
  by (induction xs ys rule: list_induct2) (auto simp: algebra_simps)

lemma inner_reduce_val:
  assumes p: "columns_ok p"
  shows "fe_reduced_limbs (inner_reduce p)"
    and "fe_val (inner_reduce p) mod secp256k1_p = lval 26 p mod secp256k1_p"
proof -
  define ps where "ps = [(p ! 0, p ! 10), (p ! 1, p ! 11), (p ! 2, p ! 12), (p ! 3, p ! 13), (p ! 4, p ! 14),
             (p ! 5, p ! 15), (p ! 6, p ! 16), (p ! 7, p ! 17), (p ! 8, p ! 18)]"
  define t9 where "t9 = (ucast (p ! 9 AND 0x3FFFFFF) :: u32)"
  obtain t c d where r: "inner_columns ps (0, drop_bit 26 (p ! 9)) = (t, c, d)" by (metis prod.exhaust)
  have m: "0x3FFFFFF = (mask 26 :: u64)" by (simp add: mask_eq_exp_minus_1)
  have "fits (p ! 9 AND 0x3FFFFFF) (uint (p ! 9) mod 2 ^ 26) (2 ^ 26 - 1)"
    by (rule fits_mask [OF fits_u64 m]) simp
  then have t9: "uint t9 = uint (p ! 9) mod 2 ^ 26"
    unfolding t9_def by (intro fits_uintD [OF fits_ucast], assumption) simp
  have "uint (drop_bit 26 (p ! 9)) \<le> 2 ^ 38"
    using fits_leD [OF fits_shr [OF fits_u64 [of "p ! 9"], of 26]] unfolding uint_shr by simp
  then have v: "length t = length ps \<and> (\<forall>x \<in> set t. uint x < 2 ^ 26) \<and> uint c \<le> 2 ^ 39 \<and> uint d \<le> 2 ^ 38 \<and>
    (ps \<noteq> [] \<longrightarrow> uint d \<le> (2 ^ 38 + uint (snd (last ps))) div 2 ^ 26) \<and>
    uint (0 :: u64) + fold_260 * uint (drop_bit 26 (p ! 9)) + cols_sum ps =
      lval 26 t + 2 ^ (26 * length ps) * (uint c + fold_260 * uint d)"
    using p by (intro inner_columns_val [OF r]) (auto simp: ps_def columns_ok_def)
  have "uint d \<le> (2 ^ 38 + uint (p ! 18)) div 2 ^ 26" using v by (simp add: ps_def)
  also have "\<dots> \<le> (2 ^ 38 + 2 ^ 52) div 2 ^ 26" using p by (intro zdiv_mono1) (auto simp: columns_ok_def)
  finally have d: "uint d \<le> 2 ^ 26 + 2 ^ 13" by simp
  have t: "length t = 9" "\<forall>x \<in> set t. uint x < 2 ^ 26" "uint c \<le> 2 ^ 39" "uint t9 < 2 ^ 26"
    using v t9 by (simp_all add: ps_def)
  define c1 where "c1 = c + (d * 0x3D10 + ucast t9)"
  define c2 where "c2 = drop_bit 22 c1 + d * push_bit 4 0x400"
  note tail = inner_reduce_tail [OF t(1,2,4,3) d]
  have ir: "inner_reduce p =
    (let d2 = c2 * drop_bit 4 0x3D10 + ucast (t ! 0);
         d3 = drop_bit 26 d2 + (c2 * drop_bit 4 0x400 + ucast (t ! 1));
         d4 = drop_bit 26 d3 + ucast (t ! 2)
     in \<lparr>n_0 = ucast (d2 AND 0x3FFFFFF), n_1 = ucast (d3 AND 0x3FFFFFF), n_2 = ucast d4,
     n_3 = t ! 3, n_4 = t ! 4, n_5 = t ! 5, n_6 = t ! 6, n_7 = t ! 7, n_8 = t ! 8,
     n_9 = ucast (c1 AND drop_bit 4 0x3FFFFFF)\<rparr>)"
    unfolding inner_reduce_def ps_def [symmetric] Let_def c2_def c1_def t9_def
    by (simp only: r split)
  show "fe_reduced_limbs (inner_reduce p)"
    unfolding ir c2_def c1_def Let_def by (rule tail(1))
  have "lval 26 t + 2 ^ 234 * (uint t9 + uint c + fold_260 * uint d) = fe_val (inner_reduce p) + secp256k1_p * uint c2"
    unfolding ir c2_def c1_def Let_def by (rule tail(2))
  moreover have "lval 26 t + 2 ^ 234 * (uint c + fold_260 * uint d) = fold_260 * (uint (p ! 9) div 2 ^ 26) + cols_sum ps"
    using v by (simp add: ps_def uint_shr del: cols_sum.simps)
  moreover define q b where "q = uint (p ! 9) div 2 ^ 26"
    and "b = lval 26 [p ! 10, p ! 11, p ! 12, p ! 13, p ! 14, p ! 15, p ! 16, p ! 17, p ! 18]"
  moreover have "lval 26 p = cols_sum ps + 2 ^ 234 * uint t9 + fold_260 * q + secp256k1_p * (16 * (q + b))"
  proof -
    have "uint (p ! 9) = uint t9 + 2 ^ 26 * q" unfolding t9 q_def by simp
    moreover have "lval 26 p = lval 26 [p ! 0, p ! 1, p ! 2, p ! 3, p ! 4, p ! 5, p ! 6, p ! 7, p ! 8]
        + 2 ^ 234 * uint (p ! 9) + 2 ^ 260 * b"
    proof -
      have "p = [p ! 0, p ! 1, p ! 2, p ! 3, p ! 4, p ! 5, p ! 6, p ! 7, p ! 8] @ p ! 9 #
          [p ! 10, p ! 11, p ! 12, p ! 13, p ! 14, p ! 15, p ! 16, p ! 17, p ! 18]"
        using p by (intro nth_equalityI) (auto simp: columns_ok_def less_Suc_eq numeral_eq_Suc)
      then have "lval 26 p = lval 26 ([p ! 0, p ! 1, p ! 2, p ! 3, p ! 4, p ! 5, p ! 6, p ! 7, p ! 8] @ p ! 9 #
          [p ! 10, p ! 11, p ! 12, p ! 13, p ! 14, p ! 15, p ! 16, p ! 17, p ! 18])"
        by (rule arg_cong)
      also have "\<dots> = lval 26 [p ! 0, p ! 1, p ! 2, p ! 3, p ! 4, p ! 5, p ! 6, p ! 7, p ! 8]
          + 2 ^ 234 * (uint (p ! 9) + 2 ^ 26 * b)"
        unfolding lval_append lval.simps(2) [of 26 "p ! 9"] b_def by simp
      finally show ?thesis by (simp add: distrib_left)
    qed
    moreover have "cols_sum ps = lval 26 [p ! 0, p ! 1, p ! 2, p ! 3, p ! 4, p ! 5, p ! 6, p ! 7, p ! 8] + fold_260 * b"
      unfolding ps_def b_def by (subst cols_sum_lval [symmetric]) (simp, simp only: zip_Cons_Cons zip_Nil)
    ultimately have "lval 26 p = cols_sum ps - fold_260 * b + 2 ^ 234 * (uint t9 + 2 ^ 26 * q) + 2 ^ 260 * b"
      by (simp only: add_diff_cancel_right')
    also have "\<dots> = cols_sum ps - fold_260 * b + 2 ^ 234 * uint t9 + 2 ^ 260 * (q + b)"
      by (simp add: distrib_left)
    also have "\<dots> = cols_sum ps + 2 ^ 234 * uint t9 + fold_260 * q + secp256k1_p * (16 * (q + b))"
      unfolding fold_260_eq by (simp add: algebra_simps)
    finally show ?thesis .
  qed
  ultimately have "fe_val (inner_reduce p) + secp256k1_p * (uint c2 + 16 * (q + b)) = lval 26 p"
    by (simp add: algebra_simps)
  then show "fe_val (inner_reduce p) mod secp256k1_p = lval 26 p mod secp256k1_p"
    by (intro mod_eqI [where k = "- (uint c2 + 16 * (q + b))"]) (simp add: algebra_simps)
qed

lemma fe_reduced_mul_ok: "fe_reduced_limbs a \<Longrightarrow> fe_mul_ok a"
  by (auto simp: fe_reduced_limbs_def fe_mul_ok_def fe_limbs_def)

lemma secp256k1_fe_mul_val:
  assumes "fe_mul_ok a" and "fe_mul_ok b"
  shows "fe_reduced_limbs (secp256k1_fe_mul a b)"
    and "fe_val (secp256k1_fe_mul a b) mod secp256k1_p = fe_val a * fe_val b mod secp256k1_p"
  using inner_reduce_val [OF mul_columns_ok [OF assms]]
  by (simp_all add: secp256k1_fe_mul_def secp256k1_fe_mul_inner_def mul_columns_val [OF assms])

lemma secp256k1_fe_sqr_val:
  assumes "fe_mul_ok a"
  shows "fe_reduced_limbs (secp256k1_fe_sqr a)"
    and "fe_val (secp256k1_fe_sqr a) mod secp256k1_p = fe_val a * fe_val a mod secp256k1_p"
  using inner_reduce_val [OF sqr_columns_ok [OF assms]]
  by (simp_all add: secp256k1_fe_sqr_def secp256k1_fe_sqr_inner_def sqr_columns_val [OF assms])

interpretation fe_repr: mod_repr fe_val fe_mul_ok secp256k1_fe_mul secp256k1_fe_sqr secp256k1_p
  by unfold_locales
    (simp_all add: secp256k1_fe_mul_val secp256k1_fe_sqr_val fe_reduced_mul_ok)

subsection \<open>Magnitudes\<close>

lemma fe_magnitude_iff:
  "fe_magnitude m a \<longleftrightarrow>
     uint (n_0 a) \<le> 134217726 * m \<and> uint (n_1 a) \<le> 134217726 * m \<and> uint (n_2 a) \<le> 134217726 * m \<and>
     uint (n_3 a) \<le> 134217726 * m \<and> uint (n_4 a) \<le> 134217726 * m \<and> uint (n_5 a) \<le> 134217726 * m \<and>
     uint (n_6 a) \<le> 134217726 * m \<and> uint (n_7 a) \<le> 134217726 * m \<and> uint (n_8 a) \<le> 134217726 * m \<and>
     uint (n_9 a) \<le> 8388606 * m"
  by (auto simp: fe_magnitude_def fe_limbs_def)

lemma fe_magnitude_mul_ok: "fe_magnitude m a \<Longrightarrow> m \<le> 8 \<Longrightarrow> fe_mul_ok a"
  by (auto simp: fe_magnitude_iff fe_mul_ok_def fe_limbs_def)

lemma fe_magnitude_mono: "fe_magnitude m a \<Longrightarrow> m \<le> m' \<Longrightarrow> fe_magnitude m' a"
  unfolding fe_magnitude_iff by linarith

lemma fe_reduced_magnitude: "fe_reduced_limbs a \<Longrightarrow> fe_magnitude 1 a"
  by (auto simp: fe_reduced_limbs_def fe_magnitude_iff)

lemma fe_verify_magnitude: "secp256k1_fe_verify m False a \<longleftrightarrow> fe_magnitude m a \<and> 0 \<le> m \<and> m \<le> 32"
  by (auto simp: secp256k1_fe_verify_def fe_magnitude_iff Let_def)

lemma secp256k1_fe_add_val:
  assumes "fe_magnitude m r" and "fe_magnitude k a" and "m + k \<le> 32"
  shows "fe_val (secp256k1_fe_add r a) = fe_val r + fe_val a"
    and "fe_magnitude (m + k) (secp256k1_fe_add r a)"
proof -
  have u: "uint (x + y) = uint x + uint y" if "uint x \<le> 134217726 * m" "uint y \<le> 134217726 * k" for x y :: u32
  proof -
    have "uint x + uint y < 2 ^ 32" using that assms(3) by simp
    then show ?thesis by (simp add: uint_word_ariths)
  qed
  have t: "uint (n_9 r + n_9 a) = uint (n_9 r) + uint (n_9 a)"
  proof -
    have "uint (n_9 r) + uint (n_9 a) < 2 ^ 32" using assms by (simp add: fe_magnitude_iff)
    then show ?thesis by (simp add: uint_word_ariths)
  qed
  show "fe_val (secp256k1_fe_add r a) = fe_val r + fe_val a"
    using assms(1,2) unfolding fe_magnitude_iff
    by (simp add: fe_val_def fe_limbs_def secp256k1_fe_add_def u t)
  show "fe_magnitude (m + k) (secp256k1_fe_add r a)"
    using assms(1,2) unfolding fe_magnitude_iff
    by (simp add: secp256k1_fe_add_def u t)
qed

subsection \<open>The carry pass\<close>

lemma mask26: "0x3FFFFFF = (mask 26 :: u32)" "0x03FFFFF = (mask 22 :: u32)"
  by (simp_all add: mask_eq_exp_minus_1)

lemma uint_and_26: "uint (t AND 0x3FFFFFF :: u32) = uint t mod 2 ^ 26"
  by (rule uint_and_mask [OF mask26(1)])

lemma uint_and_22: "uint (t AND 0x03FFFFF :: u32) = uint t mod 2 ^ 22"
  by (rule uint_and_mask [OF mask26(2)])

lemma length_carry26 [simp]: "length (carry26 ts) = length ts"
  by (induction ts rule: carry26.induct) auto

lemma carry_step:
  fixes t t' :: u32
  assumes "uint t' \<le> 2 ^ 32 - 64"
  shows "uint (t' + drop_bit 26 t) = uint t' + uint t div 2 ^ 26" and "uint t div 2 ^ 26 \<le> 63"
proof -
  have s: "fits (drop_bit 26 t) (uint t div 2 ^ 26) (4294967295 div 2 ^ 26)"
    by (rule fits_shr [OF fits_u32])
  then show "uint t div 2 ^ 26 \<le> 63" by (simp add: fits_def)
  show "uint (t' + drop_bit 26 t) = uint t' + uint t div 2 ^ 26"
    by (rule fits_uintD [OF fits_add [OF fitsI [OF assms] s]]) simp
qed

lemma carry26_ne: "carry26 (t # ts) \<noteq> []"
  using length_carry26 [of "t # ts"] by (metis length_0_conv list.distinct(1))

lemma carry26_all:
  assumes "\<forall>t \<in> set (tl ts). uint t \<le> 2 ^ 32 - 64"
  shows "lval 26 (carry26 ts) = lval 26 ts \<and> (\<forall>x \<in> set (butlast (carry26 ts)). uint x < 2 ^ 26) \<and>
    (2 \<le> length ts \<longrightarrow> uint (last (carry26 ts)) \<le> uint (last ts) + 63)"
  using assms
proof (induction ts rule: carry26.induct)
  case (3 t t' ts)
  have t': "uint t' \<le> 2 ^ 32 - 64" using "3.prems" by simp
  define h where "h = t' + drop_bit 26 t"
  have h: "uint h = uint t' + uint t div 2 ^ 26" "uint t div 2 ^ 26 \<le> 63"
    unfolding h_def using carry_step [OF t', of t] by blast+
  have ih: "lval 26 (carry26 (h # ts)) = lval 26 (h # ts) \<and>
      (\<forall>x \<in> set (butlast (carry26 (h # ts))). uint x < 2 ^ 26) \<and>
      (2 \<le> length (h # ts) \<longrightarrow> uint (last (carry26 (h # ts))) \<le> uint (last (h # ts)) + 63)"
    using "3.IH" "3.prems" unfolding h_def by simp
  have c: "carry26 (t # t' # ts) = (t AND 0x3FFFFFF) # carry26 (h # ts)" by (simp add: h_def)
  have "uint t mod 2 ^ 26 + 2 ^ 26 * (uint t' + uint t div 2 ^ 26 + z) = uint t + 2 ^ 26 * (uint t' + z)" for z
    using mod_mult_div_eq [of "uint t" "2 ^ 26"] by (simp add: distrib_left)
  then have "lval 26 (carry26 (t # t' # ts)) = lval 26 (t # t' # ts)"
    unfolding c lval.simps(2) [of _ "_ AND _"] conjunct1 [OF ih] by (simp add: uint_and_26 h(1))
  moreover have "\<forall>x \<in> set (butlast (carry26 (t # t' # ts))). uint x < 2 ^ 26"
    unfolding c using ih by (simp add: carry26_ne uint_and_26)
  moreover have "uint (last (carry26 (t # t' # ts))) \<le> uint (last (t # t' # ts)) + 63"
    unfolding c using ih h by (cases ts) (simp_all add: carry26_ne)
  ultimately show ?case by blast
qed simp_all

lemmas carry26_val = carry26_all [THEN conjunct1]
  and carry26_limbs = carry26_all [THEN conjunct2, THEN conjunct1]
  and carry26_last = carry26_all [THEN conjunct2, THEN conjunct2, THEN mp]

subsection \<open>The first pass\<close>

lemma length_first_pass [simp]: "length (first_pass r) = 10"
  by (simp add: first_pass_def Let_def)

text \<open>The two sums in which the first pass can leave 32 bits at magnitude 32: the top limb is folded into
  the lowest two, and the lowest one carries into the next.\<close>

definition fold_sum_0 :: "secp256k1_fe \<Rightarrow> int" where
  "fold_sum_0 r = uint (n_0 r) + uint (n_9 r) div 2 ^ 22 * 0x3D1"

definition fold_sum_1 :: "secp256k1_fe \<Rightarrow> int" where
  "fold_sum_1 r = uint (n_1 r) + uint (n_9 r) div 2 ^ 22 * 2 ^ 6 + fold_sum_0 r mod 2 ^ 32 div 2 ^ 26"

lemma fold_sums_nonneg: "0 \<le> fold_sum_0 r" "0 \<le> fold_sum_1 r"
  by (simp_all add: fold_sum_0_def fold_sum_1_def pos_imp_zdiv_nonneg_iff)

lemma fold_sums_fit:
  assumes "fe_magnitude 31 r"
  shows "fold_sum_0 r < 2 ^ 32" and "fold_sum_1 r < 2 ^ 32"
proof -
  note mag = assms [unfolded fe_magnitude_iff, simplified]
  have x: "uint (n_9 r) div 2 ^ 22 \<le> 61" using zdiv_mono1 [of "uint (n_9 r)" 260046786 "2 ^ 22"] mag by simp
  then show "fold_sum_0 r < 2 ^ 32" using mag by (simp add: fold_sum_0_def)
  have "fold_sum_0 r mod 2 ^ 32 div 2 ^ 26 \<le> 63"
    using zdiv_mono1 [of "fold_sum_0 r mod 2 ^ 32" "2 ^ 32 - 1" "2 ^ 26"] by simp
  then show "fold_sum_1 r < 2 ^ 32" using mag x by (simp add: fold_sum_1_def)
qed

text \<open>Up to magnitude 32 nothing else is lost in the first pass.\<close>

lemma first_pass_all:
  assumes "fe_magnitude 32 r"
  shows "fe_val r = lval 26 (first_pass r) + secp256k1_p * (uint (n_9 r) div 2 ^ 22) +
      2 ^ 32 * (fold_sum_0 r div 2 ^ 32) + 2 ^ 58 * (fold_sum_1 r div 2 ^ 32)"
    and "\<forall>x \<in> set (butlast (first_pass r)). uint x < 2 ^ 26"
    and "uint (last (first_pass r)) < 2 ^ 22 + 63"
proof -
  note mag = assms [unfolded fe_magnitude_iff, simplified]
  define x where "x = drop_bit 22 (n_9 r)"
  define t where "t = n_0 r + x * 0x3D1"
  define h where "h = n_1 r + push_bit 6 x + drop_bit 26 t"
  define ts where "ts = [h, n_2 r, n_3 r, n_4 r, n_5 r, n_6 r, n_7 r, n_8 r, n_9 r AND 0x03FFFFF]"
  have fp: "first_pass r = (t AND 0x3FFFFFF) # carry26 ts"
    by (simp add: first_pass_def x_def t_def h_def ts_def Let_def)
  have x: "uint x = uint (n_9 r) div 2 ^ 22" "fits x (uint (n_9 r) div 2 ^ 22) 63"
    unfolding x_def using fits_shr [OF fitsI [of "n_9 r" "8388606 * 32"], of 22] mag by (simp_all add: fits_def)
  have t: "uint t = fold_sum_0 r mod 2 ^ 32"
    by (simp add: t_def uint_word_ariths fold_sum_0_def x(1) mod_simps)
  have px: "uint (push_bit 6 x) = uint (n_9 r) div 2 ^ 22 * 2 ^ 6"
    by (rule fits_uintD [OF fits_shl [OF x(2)]]) simp_all
  have dt: "uint (drop_bit 26 t) = uint t div 2 ^ 26"
    by (rule fits_uintD [OF fits_shr [OF fits_u32]])
  have h: "uint h = fold_sum_1 r mod 2 ^ 32"
    by (simp add: h_def uint_word_ariths fold_sum_1_def px dt t mod_simps)
  have t9: "uint (n_9 r AND 0x03FFFFF) = uint (n_9 r) mod 2 ^ 22" by (rule uint_and_22)
  have pre: "\<forall>t \<in> set (tl ts). uint t \<le> 2 ^ 32 - 64"
    using mag t9 uint_and_22 [of "n_9 r"] by (simp add: ts_def)
  have ne: "carry26 ts \<noteq> []" unfolding ts_def by (rule carry26_ne)
  show "\<forall>x \<in> set (butlast (first_pass r)). uint x < 2 ^ 26"
    unfolding fp using carry26_limbs [OF pre] ne by (simp add: uint_and_26)
  have "uint (last (first_pass r)) \<le> uint (n_9 r) mod 2 ^ 22 + 63"
    unfolding fp using carry26_last [OF pre] t9 ne by (simp add: ts_def)
  then show "uint (last (first_pass r)) < 2 ^ 22 + 63"
    using pos_mod_bound [of "2 ^ 22" "uint (n_9 r)"] by simp
  have lv: "lval 26 (first_pass r) = uint t mod 2 ^ 26 + 2 ^ 26 * lval 26 ts"
    unfolding fp lval.simps carry26_val [OF pre] uint_and_26 ..
  have m0: "uint t mod 2 ^ 26 + 2 ^ 26 * (uint t div 2 ^ 26) = fold_sum_0 r - 2 ^ 32 * (fold_sum_0 r div 2 ^ 32)"
    unfolding mod_mult_div_eq t by (rule minus_mult_div_eq_mod [symmetric])
  have m1: "uint h = uint (n_1 r) + uint (n_9 r) div 2 ^ 22 * 2 ^ 6 + uint t div 2 ^ 26 - 2 ^ 32 * (fold_sum_1 r div 2 ^ 32)"
    unfolding h fold_sum_1_def t by (rule minus_mult_div_eq_mod [symmetric])
  show "fe_val r = lval 26 (first_pass r) + secp256k1_p * (uint (n_9 r) div 2 ^ 22) +
      2 ^ 32 * (fold_sum_0 r div 2 ^ 32) + 2 ^ 58 * (fold_sum_1 r div 2 ^ 32)"
    using m0 mod_mult_div_eq [of "uint (n_9 r)" "2 ^ 22"] unfolding lv
    by (simp add: fe_val_def fe_limbs_def ts_def m1 t9 secp256k1_p_def fold_sum_0_def)
      (insert mod_mult_div_eq [of "uint (n_9 r)" 4194304], linarith)
qed

lemma first_pass_val:
  assumes "fe_magnitude 31 r"
  shows "fe_val r = lval 26 (first_pass r) + secp256k1_p * (uint (n_9 r) div 2 ^ 22)"
    and "\<forall>x \<in> set (butlast (first_pass r)). uint x < 2 ^ 26"
    and "uint (last (first_pass r)) < 2 ^ 22 + 63"
proof -
  have m: "fe_magnitude 32 r" using assms by (simp add: fe_magnitude_iff)
  show "fe_val r = lval 26 (first_pass r) + secp256k1_p * (uint (n_9 r) div 2 ^ 22)"
    using first_pass_all(1) [OF m] fold_sums_fit [OF assms] fold_sums_nonneg [of r] by simp
qed (use assms first_pass_all(2,3) [of r] in \<open>simp_all add: fe_magnitude_iff\<close>)

subsection \<open>The test against the characteristic\<close>

lemma list10: "length t = 10 \<Longrightarrow> t = [t ! 0, t ! 1, t ! 2, t ! 3, t ! 4, t ! 5, t ! 6, t ! 7, t ! 8, t ! 9]"
  by (intro nth_equalityI) (auto simp: less_Suc_eq numeral_eq_Suc)

lemma and_mask26_iff:
  fixes x y :: u32
  assumes "uint x < 2 ^ 26" and "uint y < 2 ^ 26"
  shows "x AND y = 0x3FFFFFF \<longleftrightarrow> x = 0x3FFFFFF \<and> y = 0x3FFFFFF"
proof
  assume xy: "x AND y = 0x3FFFFFF"
  have "x \<le> 0x3FFFFFF" "y \<le> 0x3FFFFFF" using assms by (simp_all add: word_le_def)
  moreover have "0x3FFFFFF \<le> x" "0x3FFFFFF \<le> y"
    using word_and_le1 [of x y] word_and_le2 [of x y] unfolding xy by (simp_all add: and.commute)
  ultimately show "x = 0x3FFFFFF \<and> y = 0x3FFFFFF" by simp
qed simp

lemma uint_and_less: "uint x < 2 ^ 26 \<Longrightarrow> uint (x AND y :: u32) < 2 ^ 26"
  using word_and_le2 [of x y] by (simp add: word_le_def)

lemma foldl_and_iff:
  fixes x :: u32
  assumes "uint x < 2 ^ 26" and "\<forall>y \<in> set ys. uint y < 2 ^ 26"
  shows "foldl (AND) x ys = 0x3FFFFFF \<longleftrightarrow> x = 0x3FFFFFF \<and> (\<forall>y \<in> set ys. y = 0x3FFFFFF)"
  using assms
proof (induction ys arbitrary: x)
  case (Cons y ys)
  then show ?case using uint_and_less [of x y] by (simp add: and_mask26_iff)
qed simp

lemma lval_ones: "lval 26 (replicate n (0x3FFFFFF :: u32)) = 2 ^ (26 * n) - 1"
  by (induction n) (simp_all add: power_add)

lemma lval_ones_iff:
  fixes ts :: "u32 list"
  assumes "\<forall>x \<in> set ts. uint x < 2 ^ 26"
  shows "lval 26 ts = 2 ^ (26 * length ts) - 1 \<longleftrightarrow> (\<forall>x \<in> set ts. x = 0x3FFFFFF)"
proof
  assume "lval 26 ts = 2 ^ (26 * length ts) - 1"
  then have "ts = replicate (length ts) 0x3FFFFFF"
    using assms by (intro lval_inject [where k = 26]) (auto simp: lval_ones)
  then show "\<forall>x \<in> set ts. x = 0x3FFFFFF" by (metis in_set_replicate)
next
  assume "\<forall>x \<in> set ts. x = 0x3FFFFFF"
  then have "ts = replicate (length ts) 0x3FFFFFF" by (simp add: replicate_length_same)
  then show "lval 26 ts = 2 ^ (26 * length ts) - 1" by (metis lval_ones)
qed

lemma and_limbs_iff:
  assumes "\<forall>x \<in> set [t ! 2, t ! 3, t ! 4, t ! 5, t ! 6, t ! 7, t ! 8]. uint x < 2 ^ 26"
  shows "and_limbs t = 0x3FFFFFF \<longleftrightarrow> lval 26 [t ! 2, t ! 3, t ! 4, t ! 5, t ! 6, t ! 7, t ! 8] = 2 ^ 182 - 1"
proof -
  have "and_limbs t = foldl (AND) (t ! 2) [t ! 3, t ! 4, t ! 5, t ! 6, t ! 7, t ! 8]"
    by (simp add: and_limbs_def)
  then have "and_limbs t = 0x3FFFFFF \<longleftrightarrow> (\<forall>x \<in> set [t ! 2, t ! 3, t ! 4, t ! 5, t ! 6, t ! 7, t ! 8]. x = 0x3FFFFFF)"
    using foldl_and_iff [of "t ! 2" "[t ! 3, t ! 4, t ! 5, t ! 6, t ! 7, t ! 8]"] assms by simp
  then show ?thesis using lval_ones_iff [OF assms] by simp
qed

lemma ge_p_flag_eq:
  assumes t: "length t = 10" "\<forall>x \<in> set (butlast t). uint x < 2 ^ 26" "uint (last t) < 2 ^ 22 + 63"
  shows "ge_p_flag t = of_bool (secp256k1_p \<le> lval 26 t)"
proof -
  note tl = list10 [OF t(1)]
  define V0 V1 V2 V9 where "V0 = uint (t ! 0)" and "V1 = uint (t ! 1)"
    and "V2 = lval 26 [t ! 2, t ! 3, t ! 4, t ! 5, t ! 6, t ! 7, t ! 8]" and "V9 = uint (t ! 9)"
  have small: "\<forall>x \<in> set [t ! 0, t ! 1, t ! 2, t ! 3, t ! 4, t ! 5, t ! 6, t ! 7, t ! 8]. uint x < 2 ^ 26"
    using t(2) by (subst (asm) tl) simp
  have v9: "V9 < 2 ^ 22 + 63" using t(3) by (subst (asm) tl) (simp add: V9_def)
  have b: "0 \<le> V0" "V0 < 2 ^ 26" "0 \<le> V1" "V1 < 2 ^ 26" "0 \<le> V9" "0 \<le> V2" "V2 \<le> 2 ^ 182 - 1"
    using small lval_bound [of "[t ! 2, t ! 3, t ! 4, t ! 5, t ! 6, t ! 7, t ! 8]" 26]
    by (simp_all add: V0_def V1_def V2_def V9_def del: lval.simps)
  have V: "lval 26 t = V0 + 2 ^ 26 * V1 + 2 ^ 52 * V2 + 2 ^ 234 * V9"
    by (subst tl) (simp add: V0_def V1_def V2_def V9_def)
  have cmp: "t ! 1 + 0x40 + drop_bit 26 (t ! 0 + 0x3D1) > 0x3FFFFFF \<longleftrightarrow> 2 ^ 52 \<le> V0 + 0x3D1 + 2 ^ 26 * (V1 + 0x40)"
  proof -
    have f0: "fits (t ! 0 + 0x3D1) (V0 + 0x3D1) (2 ^ 26 - 1 + 0x3D1)"
      unfolding V0_def by (rule fits_add, rule fitsI, use b in \<open>simp add: V0_def\<close>, rule fits_numeral, simp_all)
    have "fits (t ! 1 + 0x40 + drop_bit 26 (t ! 0 + 0x3D1)) (V1 + 0x40 + (V0 + 0x3D1) div 2 ^ 26)
        (2 ^ 26 - 1 + 0x40 + (2 ^ 26 - 1 + 0x3D1) div 2 ^ 26)"
      unfolding V1_def
      by (rule fits_add fits_numeral fits_shr [OF f0] fitsI | use b in \<open>simp add: V1_def\<close>)+
    then have "t ! 1 + 0x40 + drop_bit 26 (t ! 0 + 0x3D1) > 0x3FFFFFF \<longleftrightarrow> 2 ^ 26 - 1 < V1 + 0x40 + (V0 + 0x3D1) div 2 ^ 26"
      unfolding word_less_def by (simp add: fits_def)
    also have "\<dots> \<longleftrightarrow> 2 ^ 52 \<le> V0 + 0x3D1 + 2 ^ 26 * (V1 + 0x40)"
      using mod_mult_div_eq [of "V0 + 0x3D1" "2 ^ 26"] pos_mod_bound [of "2 ^ 26" "V0 + 0x3D1"]
        pos_mod_sign [of "2 ^ 26" "V0 + 0x3D1"] by auto
    finally show ?thesis .
  qed
  have mid: "and_limbs t = 0x3FFFFFF \<longleftrightarrow> V2 = 2 ^ 182 - 1"
    unfolding V2_def using small by (intro and_limbs_iff) simp
  have top: "uint (drop_bit 22 (t ! 9)) = V9 div 2 ^ 22" by (simp add: uint_shr V9_def)
  have t9: "t ! 9 = 0x03FFFFF \<longleftrightarrow> V9 = 2 ^ 22 - 1" by (simp add: V9_def word_uint_eq_iff)
  show ?thesis
  proof (cases "2 ^ 22 \<le> V9")
    case True
    then have "V9 div 2 ^ 22 = 1" using v9 by simp
    then have "drop_bit 22 (t ! 9) = 1" using top by (simp add: word_uint_eq_iff)
    moreover have "secp256k1_p \<le> lval 26 t" using True b unfolding V secp256k1_p_def by simp
    ultimately show ?thesis using True t9 by (simp add: ge_p_flag_def)
  next
    case False
    then have "drop_bit 22 (t ! 9) = 0" using top b by (simp add: word_uint_eq_iff)
    then have f: "ge_p_flag t = of_bool (V9 = 2 ^ 22 - 1 \<and> V2 = 2 ^ 182 - 1 \<and> 2 ^ 52 \<le> V0 + 0x3D1 + 2 ^ 26 * (V1 + 0x40))"
      unfolding ge_p_flag_def mid t9 cmp flag_simps by simp
    have "V9 = 2 ^ 22 - 1 \<and> V2 = 2 ^ 182 - 1 \<and> 2 ^ 52 \<le> V0 + 0x3D1 + 2 ^ 26 * (V1 + 0x40) \<longleftrightarrow> secp256k1_p \<le> lval 26 t"
    proof (cases "V9 = 2 ^ 22 - 1 \<and> V2 = 2 ^ 182 - 1")
      case True
      then show ?thesis unfolding V secp256k1_p_def by auto
    next
      case no: False
      have "V0 + 2 ^ 26 * V1 \<le> 2 ^ 52 - 1" using b by simp
      then have "lval 26 t < secp256k1_p"
        using no False b unfolding V secp256k1_p_def by (cases "V9 = 2 ^ 22 - 1") simp_all
      with no show ?thesis by auto
    qed
    then show ?thesis unfolding f by simp
  qed
qed

subsection \<open>Normalization\<close>

lemma fe_limbs_of: "length t = 10 \<Longrightarrow> fe_limbs (fe_of t) = t"
  using list10 [of t] by (simp add: fe_limbs_def fe_of_def)

lemma fe_val_of: "length t = 10 \<Longrightarrow> fe_val (fe_of t) = lval 26 t"
  by (simp add: fe_val_def fe_limbs_of)

lemma length_fe_limbs [simp]: "length (fe_limbs a) = 10"
  by (simp add: fe_limbs_def)

lemma fe_eqI: "fe_limbs a = fe_limbs b \<Longrightarrow> a = b" for a b :: secp256k1_fe
  by (simp add: fe_limbs_def)

lemma fe_normalized_inject:
  assumes "fe_normalized a" and "fe_normalized b"
  shows "fe_val a = fe_val b \<longleftrightarrow> a = b"
proof
  assume "fe_val a = fe_val b"
  then have "fe_limbs a = fe_limbs b"
    using assms unfolding fe_val_def fe_normalized_def by (intro lval_inject [where k = 26]) simp_all
  then show "a = b" by (rule fe_eqI)
qed simp

lemma fe_val_nonneg: "0 \<le> fe_val a"
  by (simp add: fe_val_def)

lemma lval_mask_top:
  fixes t :: "u32 list"
  assumes "length t = 10" and "\<forall>x \<in> set (butlast t). uint x < 2 ^ 26"
  shows "lval 26 (t[9 := t ! 9 AND 0x03FFFFF]) = lval 26 t mod 2 ^ 256"
    and "\<forall>x \<in> set (t[9 := t ! 9 AND 0x03FFFFF]). uint x < 2 ^ 26"
proof -
  define lo where "lo = [t ! 0, t ! 1, t ! 2, t ! 3, t ! 4, t ! 5, t ! 6, t ! 7, t ! 8]"
  have t: "t = lo @ [t ! 9]" unfolding lo_def using list10 [OF assms(1)] by simp
  have lo: "length lo = 9" "\<forall>x \<in> set lo. uint x < 2 ^ 26"
    using assms(2) by (simp add: lo_def, subst (asm) t, simp)
  have u: "t[9 := t ! 9 AND 0x03FFFFF] = lo @ [t ! 9 AND 0x03FFFFF]"
    using lo(1) by (subst t) (simp add: list_update_append)
  have b: "0 \<le> lval 26 lo" "lval 26 lo < 2 ^ 234" using lval_bound [OF lo(2)] lo(1) by simp_all
  have "lval 26 t mod 2 ^ 256 = (lval 26 lo + 2 ^ 234 * uint (t ! 9)) mod 2 ^ 256"
    by (subst t) (simp add: lval_append lo(1))
  also have "\<dots> = lval 26 lo + 2 ^ 234 * (uint (t ! 9) mod 2 ^ 22)"
  proof (rule mod_unique [where k = "uint (t ! 9) div 2 ^ 22"])
    show "lval 26 lo + 2 ^ 234 * uint (t ! 9) =
        lval 26 lo + 2 ^ 234 * (uint (t ! 9) mod 2 ^ 22) + 2 ^ 256 * (uint (t ! 9) div 2 ^ 22)"
      by simp (insert mod_mult_div_eq [of "uint (t ! 9)" 4194304], linarith)
    have "uint (t ! 9) mod 2 ^ 22 \<le> 2 ^ 22 - 1" by simp
    then show "lval 26 lo + 2 ^ 234 * (uint (t ! 9) mod 2 ^ 22) < 2 ^ 256" using b by simp
  qed (use b in simp)
  finally show "lval 26 (t[9 := t ! 9 AND 0x03FFFFF]) = lval 26 t mod 2 ^ 256"
    unfolding u lval_append lo(1) lval.simps uint_and_22 by simp
  show "\<forall>x \<in> set (t[9 := t ! 9 AND 0x03FFFFF]). uint x < 2 ^ 26"
    unfolding u using lo(2) uint_and_22 [of "t ! 9"] pos_mod_bound [of "2 ^ 22" "uint (t ! 9)"] by simp
qed

lemma first_pass_ne: "first_pass r \<noteq> []"
  using length_first_pass [of r] by (metis length_0_conv zero_neq_numeral)

lemma set_butlast_last: "t \<noteq> [] \<Longrightarrow> set t = insert (last t) (set (butlast t))"
  by (cases t rule: rev_cases) auto

lemma first_pass_less:
  assumes "fe_magnitude 32 r"
  shows "lval 26 (first_pass r) < 2 * secp256k1_p"
proof -
  note fp = first_pass_all [OF assms]
  define t where "t = first_pass r"
  have "t \<noteq> []" unfolding t_def by (rule first_pass_ne)
  then have "lval 26 t = lval 26 (butlast t @ [last t])" by simp
  also have "\<dots> = lval 26 (butlast t) + 2 ^ 234 * uint (last t)"
    unfolding lval_append by (simp add: t_def)
  finally have "lval 26 t = lval 26 (butlast t) + 2 ^ 234 * uint (last t)" .
  moreover have "lval 26 (butlast t) < 2 ^ 234"
    using lval_bound [OF fp(2)] by (simp add: t_def)
  moreover have "uint (last t) \<le> 2 ^ 22 + 62" using fp(3) by (simp add: t_def)
  ultimately show "lval 26 (first_pass r) < 2 * secp256k1_p"
    unfolding t_def [symmetric] secp256k1_p_def by simp
qed

lemma first_pass_bound:
  assumes "fe_magnitude 31 r"
  shows "0 \<le> lval 26 (first_pass r)" and "lval 26 (first_pass r) < 2 * secp256k1_p"
    and "lval 26 (first_pass r) mod secp256k1_p = fe_val r mod secp256k1_p"
  using first_pass_less [of r] assms by (simp_all add: first_pass_val(1) [OF assms]) (simp add: fe_magnitude_iff)

lemma second_pass:
  fixes x :: u32
  assumes t: "length t = 10" "\<forall>y \<in> set (butlast t). uint y < 2 ^ 26" "uint (last t) < 2 ^ 22 + 63"
    and x: "x = of_bool b"
  defines "t' \<equiv> carry26 [t ! 0 + x * 0x3D1, t ! 1 + push_bit 6 x, t ! 2, t ! 3, t ! 4,
                t ! 5, t ! 6, t ! 7, t ! 8, t ! 9]"
  shows "lval 26 t' = lval 26 t + of_bool b * (2 ^ 256 - secp256k1_p)"
    and "\<forall>y \<in> set (butlast t'). uint y < 2 ^ 26"
proof -
  define ts where "ts = [t ! 0 + x * 0x3D1, t ! 1 + push_bit 6 x, t ! 2, t ! 3, t ! 4,
                t ! 5, t ! 6, t ! 7, t ! 8, t ! 9]"
  note tl = list10 [OF t(1)]
  have small: "\<forall>x \<in> set [t ! 0, t ! 1, t ! 2, t ! 3, t ! 4, t ! 5, t ! 6, t ! 7, t ! 8]. uint x < 2 ^ 26"
    using t(2) by (subst (asm) tl) simp
  have t9: "uint (t ! 9) < 2 ^ 22 + 63" using t(3) by (subst (asm) tl) simp
  have fx: "fits x (of_bool b) 1" by (simp add: x fits_def)
  have f0: "fits (t ! 0 + x * 0x3D1) (uint (t ! 0) + of_bool b * 0x3D1) (2 ^ 26 - 1 + 1 * 0x3D1)"
    by (rule fits_add, rule fitsI, use small in simp, rule fits_mult [OF fx], rule fits_numeral, simp_all)
  have f1: "fits (t ! 1 + push_bit 6 x) (uint (t ! 1) + of_bool b * 2 ^ 6) (2 ^ 26 - 1 + 1 * 2 ^ 6)"
    by (rule fits_add, rule fitsI, use small in simp, rule fits_shl [OF fx], simp_all)
  have pre: "\<forall>y \<in> set (tl ts). uint y \<le> 2 ^ 32 - 64"
    using small t9 f1 by (simp add: ts_def fits_def)
  show "\<forall>y \<in> set (butlast t'). uint y < 2 ^ 26"
    unfolding t'_def ts_def [symmetric] by (rule carry26_limbs [OF pre])
  show "lval 26 t' = lval 26 t + of_bool b * (2 ^ 256 - secp256k1_p)"
    unfolding t'_def ts_def [symmetric] carry26_val [OF pre]
    by (subst tl, simp add: ts_def fits_uintD [OF f0] fits_uintD [OF f1, unfolded One_nat_def] secp256k1_p_def)
qed

lemma normalize_final:
  assumes "fe_magnitude 32 r"
  defines "t \<equiv> first_pass r"
  defines "t' \<equiv> carry26 [t ! 0 + ge_p_flag t * 0x3D1, t ! 1 + push_bit 6 (ge_p_flag t), t ! 2, t ! 3, t ! 4,
                t ! 5, t ! 6, t ! 7, t ! 8, t ! 9]"
  shows "lval 26 (t'[9 := t' ! 9 AND 0x03FFFFF]) = lval 26 t mod secp256k1_p"
    and "\<forall>x \<in> set (t'[9 := t' ! 9 AND 0x03FFFFF]). uint x < 2 ^ 26"
proof -
  note fp = first_pass_all [OF assms(1), folded t_def]
  have bd: "0 \<le> lval 26 t" "lval 26 t < 2 * secp256k1_p"
    unfolding t_def using first_pass_less [OF assms(1)] by simp_all
  have len: "length t = 10" "length t' = 10" by (simp_all add: t_def t'_def)
  note sp = second_pass [OF len(1) fp(2,3) ge_p_flag_eq [OF len(1) fp(2,3)], folded t'_def]
  show "\<forall>x \<in> set (t'[9 := t' ! 9 AND 0x03FFFFF]). uint x < 2 ^ 26"
    by (rule lval_mask_top(2) [OF len(2) sp(2)])
  have "lval 26 t' mod 2 ^ 256 = lval 26 t mod secp256k1_p"
  proof (cases "secp256k1_p \<le> lval 26 t")
    case True
    have "lval 26 t' mod 2 ^ 256 = lval 26 t - secp256k1_p"
      using True bd unfolding sp(1) by (intro mod_unique [where k = 1]) (simp_all add: secp256k1_p_def)
    moreover have "lval 26 t mod secp256k1_p = lval 26 t - secp256k1_p"
      using True bd by (intro mod_unique [where k = 1]) simp_all
    ultimately show ?thesis by simp
  next
    case False
    then show ?thesis using bd unfolding sp(1) by (simp add: secp256k1_p_def)
  qed
  then show "lval 26 (t'[9 := t' ! 9 AND 0x03FFFFF]) = lval 26 t mod secp256k1_p"
    unfolding lval_mask_top(1) [OF len(2) sp(2)] .
qed

lemma p_pos: "0 < secp256k1_p"
  by (simp add: secp256k1_p_def)

text \<open>Up to magnitude 32 the result is canonical, for the value without what the first pass lost.\<close>

lemma secp256k1_fe_normalize_all:
  assumes "fe_magnitude 32 r"
  shows "fe_val (secp256k1_fe_normalize r) =
      (fe_val r - 2 ^ 32 * (fold_sum_0 r div 2 ^ 32) - 2 ^ 58 * (fold_sum_1 r div 2 ^ 32)) mod secp256k1_p"
    and "fe_normalized (secp256k1_fe_normalize r)"
proof -
  note nf = normalize_final [OF assms]
  have v: "fe_val (secp256k1_fe_normalize r) = lval 26 (first_pass r) mod secp256k1_p"
    unfolding secp256k1_fe_normalize_def Let_def by (subst fe_val_of) (simp, rule nf(1))
  show "fe_val (secp256k1_fe_normalize r) =
      (fe_val r - 2 ^ 32 * (fold_sum_0 r div 2 ^ 32) - 2 ^ 58 * (fold_sum_1 r div 2 ^ 32)) mod secp256k1_p"
    unfolding v first_pass_all(1) [OF assms] by simp
  show "fe_normalized (secp256k1_fe_normalize r)"
    unfolding fe_normalized_def v using nf(2) pos_mod_bound [OF p_pos]
    unfolding secp256k1_fe_normalize_def Let_def by (simp add: fe_limbs_of)
qed

lemma secp256k1_fe_normalize_val:
  assumes "fe_magnitude 31 r"
  shows "fe_val (secp256k1_fe_normalize r) = fe_val r mod secp256k1_p"
    and "fe_normalized (secp256k1_fe_normalize r)"
proof -
  have m: "fe_magnitude 32 r" using assms by (simp add: fe_magnitude_iff)
  show "fe_val (secp256k1_fe_normalize r) = fe_val r mod secp256k1_p"
    using secp256k1_fe_normalize_all(1) [OF m] fold_sums_fit [OF assms] fold_sums_nonneg [of r] by simp
  show "fe_normalized (secp256k1_fe_normalize r)" by (rule secp256k1_fe_normalize_all(2) [OF m])
qed

text \<open>A lost carry is never a multiple of the characteristic: the result is wrong exactly when there is one.\<close>

lemma mod_diff_iff_dvd: "(a - x - y) mod p = a mod p \<longleftrightarrow> p dvd x + y" for a x y p :: int
proof -
  have "a - x - y - a = - (x + y)" by simp
  then show ?thesis unfolding mod_eq_dvd_iff by (simp only: dvd_minus_iff)
qed

lemma secp256k1_fe_normalize_right_iff:
  assumes "fe_magnitude 32 r"
  shows "fe_val (secp256k1_fe_normalize r) = fe_val r mod secp256k1_p \<longleftrightarrow> fold_sum_0 r < 2 ^ 32 \<and> fold_sum_1 r < 2 ^ 32"
proof -
  define e f where "e = fold_sum_0 r div 2 ^ 32" and "f = fold_sum_1 r div 2 ^ 32"
  note mag = assms [unfolded fe_magnitude_iff, simplified]
  have x: "uint (n_9 r) div 2 ^ 22 \<le> 63" using zdiv_mono1 [of "uint (n_9 r)" 268435392 "2 ^ 22"] mag by simp
  note pos = fold_sums_nonneg [of r]
  have "fold_sum_0 r mod 2 ^ 32 div 2 ^ 26 \<le> 63"
    using zdiv_mono1 [of "fold_sum_0 r mod 2 ^ 32" "2 ^ 32 - 1" "2 ^ 26"] by simp
  then have "fold_sum_0 r < 2 ^ 33" "fold_sum_1 r < 2 ^ 33"
    using mag x by (simp_all add: fold_sum_0_def fold_sum_1_def)
  then have ef: "0 \<le> e" "e \<le> 1" "0 \<le> f" "f \<le> 1" using pos by (simp_all add: e_def f_def)
  have "fe_val (secp256k1_fe_normalize r) = fe_val r mod secp256k1_p \<longleftrightarrow> secp256k1_p dvd 2 ^ 32 * e + 2 ^ 58 * f"
    unfolding secp256k1_fe_normalize_all(1) [OF assms] e_def [symmetric] f_def [symmetric] mod_diff_iff_dvd ..
  also have "\<dots> \<longleftrightarrow> 2 ^ 32 * e + 2 ^ 58 * f = 0"
  proof
    assume "secp256k1_p dvd 2 ^ 32 * e + 2 ^ 58 * f"
    then show "2 ^ 32 * e + 2 ^ 58 * f = 0"
      using zdvd_not_zless [of "2 ^ 32 * e + 2 ^ 58 * f" secp256k1_p] ef by (force simp: secp256k1_p_def)
  qed simp
  also have "\<dots> \<longleftrightarrow> e = 0 \<and> f = 0" using ef by auto
  also have "\<dots> \<longleftrightarrow> fold_sum_0 r < 2 ^ 32 \<and> fold_sum_1 r < 2 ^ 32"
    using pos by (auto simp: e_def f_def zdiv_eq_0_iff)
  finally show ?thesis .
qed

lemma secp256k1_fe_normalize_weak_val:
  assumes "fe_magnitude 31 r"
  shows "fe_val (secp256k1_fe_normalize_weak r) mod secp256k1_p = fe_val r mod secp256k1_p"
    and "fe_magnitude 1 (secp256k1_fe_normalize_weak r)"
proof -
  show "fe_val (secp256k1_fe_normalize_weak r) mod secp256k1_p = fe_val r mod secp256k1_p"
    using first_pass_bound(3) [OF assms] by (simp add: secp256k1_fe_normalize_weak_def fe_val_of)
  have "last (first_pass r) = first_pass r ! 9" by (simp add: last_conv_nth first_pass_ne)
  then show "fe_magnitude 1 (secp256k1_fe_normalize_weak r)"
    using first_pass_val(2,3) [OF assms]
    by (auto simp: fe_magnitude_def secp256k1_fe_normalize_weak_def fe_limbs_of) (simp add: fe_of_def)
qed

lemma ge_p_flag_01: "fe_magnitude 31 r \<Longrightarrow> ge_p_flag (first_pass r) = 0 \<or> ge_p_flag (first_pass r) = 1"
  using ge_p_flag_eq [OF length_first_pass first_pass_val(2,3)] by auto

lemma secp256k1_fe_normalize_var_eq:
  assumes "fe_magnitude 31 r"
  shows "secp256k1_fe_normalize_var r = secp256k1_fe_normalize r"
proof (cases "ge_p_flag (first_pass r) = 0")
  case True
  note fp = first_pass_val [OF assms] and bd = first_pass_bound [OF assms]
  have less: "lval 26 (first_pass r) < secp256k1_p"
    using True ge_p_flag_eq [OF length_first_pass fp(2,3)] by simp
  have "fe_normalized (fe_of (first_pass r))"
    using less fp(2,3) unfolding fe_normalized_def
    by (simp add: fe_limbs_of fe_val_of set_butlast_last [OF first_pass_ne])
  moreover have "fe_val (fe_of (first_pass r)) = fe_val (secp256k1_fe_normalize r)"
    using less bd by (simp add: fe_val_of secp256k1_fe_normalize_val [OF assms] flip: bd(3))
  ultimately have "fe_of (first_pass r) = secp256k1_fe_normalize r"
    using fe_normalized_inject secp256k1_fe_normalize_val(2) [OF assms] by blast
  then show ?thesis using True by (simp add: secp256k1_fe_normalize_var_def Let_def)
next
  case False
  then have "ge_p_flag (first_pass r) = 1" using ge_p_flag_01 [OF assms] by simp
  then show ?thesis by (simp add: secp256k1_fe_normalize_var_def secp256k1_fe_normalize_def Let_def)
qed

subsection \<open>The zero tests\<close>

lemma foldl_or_eq_0: "foldl (OR) x ys = 0 \<longleftrightarrow> x = 0 \<and> (\<forall>y \<in> set ys. y = 0)" for x :: "'a::len word"
  by (induction ys arbitrary: x) (auto simp: or_eq_0_iff)

lemma lval_eq_0: "lval k xs = 0 \<longleftrightarrow> (\<forall>x \<in> set xs. x = 0)"
proof (induction xs)
  case (Cons x xs)
  have "uint x + 2 ^ k * lval k xs = 0 \<longleftrightarrow> uint x = 0 \<and> lval k xs = 0"
    by (simp add: add_nonneg_eq_0_iff)
  moreover have "uint x = 0 \<longleftrightarrow> x = 0" by (rule unsigned_eq_0_iff)
  ultimately show ?case using Cons by simp
qed simp

lemma raw_zero_iff: "length t = 10 \<Longrightarrow> raw_zero t = 0 \<longleftrightarrow> lval 26 t = 0"
  by (cases t) (simp_all add: raw_zero_def foldl_or_eq_0 lval_eq_0 del: lval.simps)

definition p_limbs :: "u32 list" where
  "p_limbs = [0x3FFFC2F, 0x3FFFFBF, 0x3FFFFFF, 0x3FFFFFF, 0x3FFFFFF, 0x3FFFFFF, 0x3FFFFFF, 0x3FFFFFF, 0x3FFFFFF, 0x03FFFFF]"

lemma p_limbs_val: "lval 26 p_limbs = secp256k1_p"
  by (simp add: p_limbs_def secp256k1_p_def)

lemma small_take_bit: "uint x < 2 ^ 26 \<longleftrightarrow> take_bit 26 x = x" for x :: u32
  by (simp add: word_uint_eq_iff unsigned_take_bit_eq take_bit_int_eq_self_iff)

lemma xor_small: "uint x < 2 ^ 26 \<Longrightarrow> uint c < 2 ^ 26 \<Longrightarrow> uint (x XOR c) < 2 ^ 26" for x c :: u32
  by (simp only: small_take_bit take_bit_xor)

lemma xor_eq_iff: "x XOR c = d \<longleftrightarrow> x = d XOR c" for x c d :: u32
  by (auto simp: xor.assoc)

lemma raw_p_iff:
  assumes t: "length t = 10" "\<forall>x \<in> set (butlast t). uint x < 2 ^ 26" "uint (last t) < 2 ^ 26"
  shows "raw_p t = 0x3FFFFFF \<longleftrightarrow> lval 26 t = secp256k1_p"
proof -
  note tl = list10 [OF t(1)]
  have "t \<noteq> []" using t(1) by auto
  then have small: "\<forall>x \<in> set t. uint x < 2 ^ 26"
    using t(2,3) set_butlast_last [of t] by simp
  have s: "uint (t ! i) < 2 ^ 26" if "i < 10" for i using small t(1) that by simp
  have "raw_p t = 0x3FFFFFF \<longleftrightarrow> t ! 0 XOR 0x3D0 = 0x3FFFFFF \<and>
     (\<forall>y \<in> set [t ! 1 XOR 0x40, t ! 2, t ! 3, t ! 4, t ! 5, t ! 6, t ! 7, t ! 8, t ! 9 XOR 0x3C00000]. y = 0x3FFFFFF)"
    unfolding raw_p_def using s by (intro foldl_and_iff) (auto intro!: xor_small [simplified])
  also have "\<dots> \<longleftrightarrow> [t ! 0, t ! 1, t ! 2, t ! 3, t ! 4, t ! 5, t ! 6, t ! 7, t ! 8, t ! 9] = p_limbs"
    unfolding xor_eq_iff p_limbs_def by (simp add: xor_eq_iff)
  also have "\<dots> \<longleftrightarrow> t = p_limbs" using tl by simp
  also have "\<dots> \<longleftrightarrow> lval 26 t = lval 26 p_limbs"
    using small t(1) lval_inject [of t p_limbs 26] by (auto simp: p_limbs_def)
  finally show ?thesis unfolding p_limbs_val .
qed

lemma secp256k1_fe_normalizes_to_zero_iff:
  assumes "fe_magnitude 31 r"
  shows "secp256k1_fe_normalizes_to_zero r \<longleftrightarrow> fe_val r mod secp256k1_p = 0"
proof -
  define V where "V = lval 26 (first_pass r)"
  note fp = first_pass_val [OF assms] and bd = first_pass_bound [OF assms, folded V_def]
  have "secp256k1_fe_normalizes_to_zero r \<longleftrightarrow> V = 0 \<or> V = secp256k1_p"
    unfolding secp256k1_fe_normalizes_to_zero_def Let_def V_def
    using raw_zero_iff [OF length_first_pass] raw_p_iff [OF length_first_pass fp(2)] fp(3) by simp
  also have "\<dots> \<longleftrightarrow> V mod secp256k1_p = 0"
  proof
    assume "V mod secp256k1_p = 0"
    then obtain k where k: "V = secp256k1_p * k" by auto
    then have "0 \<le> k" "k < 2" using bd(1,2) p_pos by (simp_all add: zero_le_mult_iff mult.commute)
    then have "k = 0 \<or> k = 1" by auto
    then show "V = 0 \<or> V = secp256k1_p" using k by auto
  qed auto
  finally show ?thesis using bd(3) by simp
qed

lemma first_pass_head:
  "first_pass r = ((n_0 r + drop_bit 22 (n_9 r) * 0x3D1) AND 0x3FFFFFF) #
     carry26 [n_1 r + push_bit 6 (drop_bit 22 (n_9 r)) + drop_bit 26 (n_0 r + drop_bit 22 (n_9 r) * 0x3D1),
       n_2 r, n_3 r, n_4 r, n_5 r, n_6 r, n_7 r, n_8 r, n_9 r AND 0x03FFFFF]"
  unfolding first_pass_def Let_def carry26.simps(3) [of "n_0 r + _"] ..

lemma foldl_and_le: "foldl (AND) x ys \<le> x" for x :: u32
proof (induction ys arbitrary: x)
  case (Cons y ys)
  have "foldl (AND) (x AND y) ys \<le> x AND y" by (rule Cons.IH)
  also have "x AND y \<le> x" by (rule word_and_le2)
  finally show ?case by simp
qed simp

lemma secp256k1_fe_normalizes_to_zero_var_eq:
  "secp256k1_fe_normalizes_to_zero_var r = secp256k1_fe_normalizes_to_zero r"
proof -
  define z0 where "z0 = (n_0 r + drop_bit 22 (n_9 r) * 0x3D1) AND 0x3FFFFFF"
  define t where "t = carry26 [n_1 r + push_bit 6 (drop_bit 22 (n_9 r)) + drop_bit 26 (n_0 r + drop_bit 22 (n_9 r) * 0x3D1),
       n_2 r, n_3 r, n_4 r, n_5 r, n_6 r, n_7 r, n_8 r, n_9 r AND 0x03FFFFF]"
  define zs where "zs = [t ! 0 XOR 0x40, t ! 1, t ! 2, t ! 3, t ! 4, t ! 5, t ! 6, t ! 7, t ! 8 XOR 0x3C00000]"
  have fp: "first_pass r = z0 # t" unfolding z0_def t_def by (rule first_pass_head)
  have nz: "secp256k1_fe_normalizes_to_zero r \<longleftrightarrow>
      foldl (OR) z0 t = 0 \<or> foldl (AND) (z0 XOR 0x3D0) zs = 0x3FFFFFF"
    unfolding secp256k1_fe_normalizes_to_zero_def fp raw_zero_def raw_p_def Let_def zs_def by simp
  have var: "secp256k1_fe_normalizes_to_zero_var r \<longleftrightarrow>
      \<not> (z0 \<noteq> 0 \<and> z0 XOR 0x3D0 \<noteq> 0x3FFFFFF) \<and>
      (foldl (OR) z0 t = 0 \<or> foldl (AND) (z0 XOR 0x3D0) zs = 0x3FFFFFF)"
    unfolding secp256k1_fe_normalizes_to_zero_var_def Let_def z0_def [symmetric] t_def [symmetric] zs_def [symmetric]
    by simp
  have "uint z0 < 2 ^ 26" unfolding z0_def uint_and_26 by simp
  then have "uint (z0 XOR 0x3D0) < 2 ^ 26" by (rule xor_small) simp
  then have "z0 XOR 0x3D0 \<le> 0x3FFFFFF" by (simp add: word_le_def)
  then have "foldl (AND) (z0 XOR 0x3D0) zs = 0x3FFFFFF \<Longrightarrow> z0 XOR 0x3D0 = 0x3FFFFFF"
    using foldl_and_le [of "z0 XOR 0x3D0" zs] by simp
  then show ?thesis unfolding nz var by (auto simp: foldl_or_eq_0)
qed

subsection \<open>Linear operations\<close>

lemma uint_sub_le:
  fixes v w :: u32
  assumes "uint v \<le> uint w"
  shows "uint (w - v) = uint w - uint v"
proof -
  have "uint w - uint v < 4294967296" using uint_u32_less [of w] uint_ge_0 [of v] by linarith
  then have "(uint w - uint v) mod 4294967296 = uint w - uint v"
    using assms by (intro mod_pos_pos_trivial) simp_all
  then show ?thesis by (simp add: uint_word_ariths)
qed

lemma negate_limb:
  fixes x c m :: u32
  assumes "uint c \<le> 0x3FFFFFF" and "uint m \<le> 31" and "uint x \<le> uint c * (2 * (uint m + 1))"
  shows "uint (c * 2 * (m + 1) - x) = uint c * (2 * (uint m + 1)) - uint x"
proof -
  have "fits (c * 2 * (m + 1)) (uint c * 2 * (uint m + 1)) (0x3FFFFFF * 2 * (31 + 1))"
    using assms by (intro fits_mult fits_add fitsI fits_numeral fits_one) simp_all
  then have "uint (c * 2 * (m + 1)) = uint c * (2 * (uint m + 1))" by (simp add: fits_def)
  then show ?thesis using assms(3) by (simp add: uint_sub_le)
qed

lemma secp256k1_fe_negate_val:
  assumes "fe_magnitude (uint m) a" and "uint m \<le> 31"
  shows "fe_val (secp256k1_fe_negate a m) = 2 * (uint m + 1) * secp256k1_p - fe_val a"
    and "fe_magnitude (uint m + 1) (secp256k1_fe_negate a m)"
proof -
  note mag = assms(1) [unfolded fe_magnitude_iff]
  have m0: "0 \<le> uint m" by simp
  have l0: "uint (0x3FFFC2F * 2 * (m + 1) - n_0 a) = 0x3FFFC2F * (2 * (uint m + 1)) - uint (n_0 a)"
    using negate_limb [of "0x3FFFC2F" m "n_0 a"] mag assms(2) m0 by simp
  have l1: "uint (0x3FFFFBF * 2 * (m + 1) - n_1 a) = 0x3FFFFBF * (2 * (uint m + 1)) - uint (n_1 a)"
    using negate_limb [of "0x3FFFFBF" m "n_1 a"] mag assms(2) m0 by simp
  have l: "uint (0x3FFFFFF * 2 * (m + 1) - x) = 0x3FFFFFF * (2 * (uint m + 1)) - uint x"
    if "uint x \<le> 134217726 * uint m" for x
    using negate_limb [of "0x3FFFFFF" m x] that assms(2) m0 by simp
  have l9: "uint (0x03FFFFF * 2 * (m + 1) - n_9 a) = 0x03FFFFF * (2 * (uint m + 1)) - uint (n_9 a)"
    using negate_limb [of "0x03FFFFF" m "n_9 a"] mag assms(2) m0 by simp
  show "fe_val (secp256k1_fe_negate a m) = 2 * (uint m + 1) * secp256k1_p - fe_val a"
    using mag
    by (simp add: fe_val_def fe_limbs_def secp256k1_fe_negate_def l0 [simplified] l1 [simplified] l [simplified] l9 [simplified] secp256k1_p_def)
  show "fe_magnitude (uint m + 1) (secp256k1_fe_negate a m)"
    using mag unfolding fe_magnitude_iff
    by (simp add: secp256k1_fe_negate_def l0 [simplified] l1 [simplified] l [simplified] l9 [simplified])
      (insert uint_ge_0 [of "n_0 a"] uint_ge_0 [of "n_1 a"] uint_ge_0 [of m], linarith)
qed

lemma secp256k1_fe_mul_int_val:
  assumes "fe_magnitude m r" and "0 \<le> m" and "m * uint a \<le> 32"
  shows "fe_val (secp256k1_fe_mul_int r a) = fe_val r * uint a"
    and "fe_magnitude (m * uint a) (secp256k1_fe_mul_int r a)"
proof -
  note mag = assms(1) [unfolded fe_magnitude_iff]
  have le: "uint x * uint a \<le> c * (m * uint a)" if "uint x \<le> c * m" for x :: u32 and c
    using mult_right_mono [OF that, of "uint a"] by (simp add: mult.assoc)
  have u: "uint (x * a) = uint x * uint a" if "uint x \<le> c * m" "0 \<le> c" "c \<le> 134217726" for x :: u32 and c
  proof -
    have "uint x * uint a \<le> c * 32"
      using le [OF that(1)] mult_left_mono [OF assms(3) that(2)] by linarith
    then have "uint x * uint a < 2 ^ 32" using that(3) by simp
    then show ?thesis by (simp add: uint_word_ariths)
  qed
  note us = u [where c = 134217726, simplified] u [where c = 8388606, simplified]
  show "fe_val (secp256k1_fe_mul_int r a) = fe_val r * uint a"
    using mag by (simp add: fe_val_def fe_limbs_def secp256k1_fe_mul_int_def us) (simp add: algebra_simps)
  show "fe_magnitude (m * uint a) (secp256k1_fe_mul_int r a)"
    using mag le [where c = 134217726] le [where c = 8388606] unfolding fe_magnitude_iff
    by (simp add: secp256k1_fe_mul_int_def us)
qed

lemma secp256k1_fe_cmov_eq:
  "flag = 0 \<or> flag = 1 \<Longrightarrow> secp256k1_fe_cmov r a flag = (if flag = 1 then a else r)"
  by (cases r; cases a) (auto simp: secp256k1_fe_cmov_def Let_def)

lemma secp256k1_fe_storage_cmov_eq:
  "flag = 0 \<or> flag = 1 \<Longrightarrow> secp256k1_fe_storage_cmov r a flag = (if flag = 1 then a else r)"
  by (cases r; cases a) (auto simp: secp256k1_fe_storage_cmov_def Let_def)

subsection \<open>Comparison and tests\<close>

lemma lval_snoc: "lval k (xs @ [x]) = lval k xs + 2 ^ (k * length xs) * uint x"
  by (simp add: lval_append)

lemma cmp_limbs_rev:
  fixes xs ys :: "u32 list"
  assumes "length xs = length ys"
    and "\<forall>x \<in> set xs. uint x < 2 ^ 26" and "\<forall>y \<in> set ys. uint y < 2 ^ 26"
  shows "cmp_limbs (rev xs) (rev ys) = sgn (lval 26 xs - lval 26 ys)"
  using assms
proof (induction xs ys rule: rev_induct2)
  case 1
  then show ?case by simp
next
  case (4 x xs y ys)
  then have len: "length xs = length ys" by simp
  define B where "B = (2 :: int) ^ (26 * length ys)"
  have b: "0 \<le> lval 26 xs" "lval 26 xs < B" "0 \<le> lval 26 ys" "lval 26 ys < B"
    using "4.prems" lval_bound [of xs 26] lval_bound [of ys 26] by (auto simp: B_def len)
  have lt: "lval 26 as + B * uint u < lval 26 bs + B * uint v" if "u < v" "lval 26 as < B" "0 \<le> lval 26 bs"
    for as bs :: "u32 list" and u v :: u32
  proof -
    have "uint u + 1 \<le> uint v" using that(1) by (simp add: word_less_def)
    then have "B * (uint u + 1) \<le> B * uint v" by (intro mult_left_mono) (simp_all add: B_def)
    then have "B * uint u + B \<le> B * uint v" by (simp add: distrib_left)
    then show ?thesis using that by linarith
  qed
  show ?case
  proof (cases x y rule: linorder_cases)
    case less
    then show ?thesis using lt [OF less b(2,3)] by (simp add: lval_snoc len B_def)
  next
    case equal
    then show ?thesis using "4.IH" "4.prems" by (simp add: lval_snoc len)
  next
    case greater
    then show ?thesis using lt [OF greater b(4,1)] by (simp add: lval_snoc len B_def)
  qed
qed simp_all

lemma secp256k1_fe_cmp_var_eq:
  assumes "fe_normalized a" and "fe_normalized b"
  shows "secp256k1_fe_cmp_var a b = sgn (fe_val a - fe_val b)"
  using assms cmp_limbs_rev [of "fe_limbs a" "fe_limbs b"]
  by (simp add: secp256k1_fe_cmp_var_def fe_val_def fe_normalized_def)

lemma secp256k1_fe_is_zero_iff: "secp256k1_fe_is_zero a \<longleftrightarrow> fe_val a = 0"
  unfolding fe_val_def lval_eq_0 by (simp add: fe_limbs_def secp256k1_fe_is_zero_def or_eq_0_iff)

lemma secp256k1_fe_is_odd_eq: "secp256k1_fe_is_odd a = of_bool (odd (fe_val a))"
proof -
  have "odd (fe_val a) \<longleftrightarrow> odd (uint (n_0 a))" by (simp add: fe_val_def fe_limbs_def)
  also have "\<dots> \<longleftrightarrow> odd (n_0 a)" by (simp add: bit_uint_iff flip: bit_0)
  finally show ?thesis by (simp add: secp256k1_fe_is_odd_def and_one_eq mod_2_eq_odd)
qed

subsection \<open>Bits of a value\<close>

lemma bit_lval_iff:
  fixes xs :: "'a::len word list"
  assumes "0 < k" and "\<forall>x \<in> set xs. uint x < 2 ^ k"
  shows "bit (lval k xs) n \<longleftrightarrow> n div k < length xs \<and> bit (xs ! (n div k)) (n mod k)"
  using assms(2)
proof (induction xs arbitrary: n)
  case Nil
  then show ?case by simp
next
  case (Cons x xs)
  have small: "take_bit k (uint x) = uint x" using Cons.prems by (simp add: take_bit_int_eq_self)
  have "lval k (x # xs) = concat_bit k (uint x) (lval k xs)"
    by (simp add: concat_bit_eq small push_bit_eq_mult mult.commute)
  then have b: "bit (lval k (x # xs)) n \<longleftrightarrow> n < k \<and> bit x n \<or> k \<le> n \<and> bit (lval k xs) (n - k)"
    by (auto simp: bit_concat_bit_iff bit_uint_iff dest: bit_imp_le_length)
  show ?case
  proof (cases "n < k")
    case True
    then show ?thesis using b by simp
  next
    case False
    then have "n div k = Suc ((n - k) div k)" "n mod k = (n - k) mod k"
      using assms(1) by (simp_all add: le_div_geq le_mod_geq)
    then show ?thesis using b False Cons by simp
  qed
qed

lemma small_bits: "uint x < 2 ^ 26 \<longleftrightarrow> (\<forall>s. bit x s \<longrightarrow> s < 26)" for x :: u32
proof
  assume "uint x < 2 ^ 26"
  then have x: "take_bit 26 x = x" by (simp only: small_take_bit)
  show "\<forall>s. bit x s \<longrightarrow> s < 26" by (subst x [symmetric]) (simp add: bit_take_bit_iff)
next
  assume "\<forall>s. bit x s \<longrightarrow> s < 26"
  then have "take_bit 26 x = x" by (intro bit_eqI) (auto simp: bit_take_bit_iff)
  then show "uint x < 2 ^ 26" by (simp only: small_take_bit)
qed

lemma bit_be_val:
  "bit (be_val bs) n \<longleftrightarrow> n div 8 < length bs \<and> bit (bs ! (length bs - 1 - n div 8)) (n mod 8)"
proof -
  have "be_val bs = lval 8 (rev bs)" by (simp add: be_val_def le_val_lval)
  moreover have "\<forall>x \<in> set (rev bs). uint x < 2 ^ 8" by (simp add: uint_u8_less)
  ultimately show ?thesis by (auto simp: bit_lval_iff rev_nth)
qed

subsection \<open>Reading 32 bytes\<close>

definition b32_bits :: "int \<Rightarrow> nat \<Rightarrow> u32 list \<Rightarrow> bool" where
  "b32_bits V k n \<longleftrightarrow> length n = 10 \<and>
     (\<forall>l < 10. \<forall>s. bit (n ! l) s \<longleftrightarrow> s < 26 \<and> 26 * l + s < 2 * k \<and> bit V (26 * l + s))"

lemma b32_step_bits:
  assumes a: "length a = 32" and k: "k < 128" and n: "b32_bits (be_val a) k n"
  shows "b32_bits (be_val a) (Suc k) (b32_step a n (k div 4, k mod 4))"
proof -
  define limb shift where "limb = (2 * k) div 26" and "shift = (2 * k) mod 26"
  have e: "8 * (k div 4) + 2 * (k mod 4) = 2 * k"
    using mult_div_mod_eq [of 4 k] by linarith
  have ls: "26 * limb + shift = 2 * k" unfolding limb_def shift_def by (rule mult_div_mod_eq)
  have limb: "limb < 10" using k by (simp add: limb_def)
  have shift: "shift < 25"
  proof -
    have "even (26 * limb + shift)" unfolding ls by simp
    then have "even shift" by simp
    then have "shift \<noteq> 25" by auto
    then show ?thesis using mod_less_divisor [of 26 "2 * k"] by (simp add: shift_def)
  qed
  define dg where "dg = (ucast (drop_bit (2 * (k mod 4)) (a ! (31 - k div 4)) AND 3) :: u32)"
  have step: "b32_step a n (k div 4, k mod 4) = n[limb := n ! limb OR push_bit shift dg]"
    unfolding b32_step_def Let_def split e limb_def shift_def dg_def ..
  have dg: "bit dg q \<longleftrightarrow> q < 2 \<and> bit (be_val a) (2 * k + q)" for q
  proof (cases "q < 2")
    case True
    have "(2 * k + q) div 8 = k div 4" "(2 * k + q) mod 8 = 2 * (k mod 4) + q"
      using True by (simp_all only: e [symmetric] add.assoc) auto
    then have "bit (be_val a) (2 * k + q) \<longleftrightarrow> bit (a ! (31 - k div 4)) (2 * (k mod 4) + q)"
      using k a by (simp add: bit_be_val) linarith
    moreover have "bit (3 :: u8) q" using True by (auto simp: less_2_cases_iff)
    ultimately show ?thesis
      using True by (simp add: dg_def bit_unsigned_iff bit_and_iff bit_drop_bit_eq del: drop_bit_eq_div)
  next
    case False
    then have "\<not> bit (3 :: u8) q" using bit_mask_iff [where 'a = u8, of 2 q] by (simp add: mask_eq_exp_minus_1)
    then show ?thesis using False by (simp add: dg_def bit_unsigned_iff bit_and_iff)
  qed
  have new: "bit (n ! limb OR push_bit shift dg) s \<longleftrightarrow>
      s < 26 \<and> 26 * limb + s < 2 * Suc k \<and> bit (be_val a) (26 * limb + s)" for s
  proof (cases "shift \<le> s \<and> s - shift < 2")
    case True
    then have "2 * k + (s - shift) = 26 * limb + s" "s < 26" "26 * limb + s < 2 * Suc k" using ls shift by auto
    then show ?thesis
      using True n limb by (auto simp: b32_bits_def bit_or_iff bit_push_bit_iff dg simp del: push_bit_eq_mult)
  next
    case False
    then have "26 * limb + s < 2 * Suc k \<longleftrightarrow> 26 * limb + s < 2 * k" using ls by auto
    then show ?thesis
      using False n limb by (auto simp: b32_bits_def bit_or_iff bit_push_bit_iff dg simp del: push_bit_eq_mult)
  qed
  have old: "26 * l + s < 2 * Suc k \<longleftrightarrow> 26 * l + s < 2 * k" if "l \<noteq> limb" "s < 26" for l s
  proof (cases "l < limb")
    case True
    then have "26 * l + 26 \<le> 26 * limb" by simp
    then show ?thesis using ls that(2) by auto
  next
    case False
    then have "26 * limb + 26 \<le> 26 * l" using that(1) by simp
    then show ?thesis using ls shift by auto
  qed
  show ?thesis
    using n new old limb unfolding step b32_bits_def by (auto simp: nth_list_update)
qed

lemma set_b32_order: "List.product [0..<32] [0..<4] = map (\<lambda>k. (k div 4, k mod 4)) [0..<128]"
proof -
  have "List.product [0..<m] [0..<4] = map (\<lambda>k. (k div 4, k mod 4)) [0..<4 * m]" for m :: nat
  proof (induction m)
    case (Suc m)
    have "[0..<4 * Suc m] = [0..<4 * m] @ [4 * m, 4 * m + 1, 4 * m + 2, 4 * m + 3]"
      using upt_add_eq_append [of 0 "4 * m" 4] by (simp add: upt_rec [of "4 * m"] upt_rec numeral_eq_Suc)
    moreover have "[0..<4 :: nat] = [0, 1, 2, 3]" by (simp add: upt_rec)
    ultimately show ?case using Suc by (simp add: product_concat_map) presburger
  qed simp
  from this [of 32] show ?thesis by simp
qed

lemma set_b32_bits:
  assumes "length a = 32"
  shows "b32_bits (be_val a) 128 (foldl (b32_step a) (replicate 10 0) (List.product [0..<32] [0..<4]))"
proof -
  have "b32_bits (be_val a) k (foldl (b32_step a) (replicate 10 0) (map (\<lambda>k. (k div 4, k mod 4)) [0..<k]))"
    if "k \<le> 128" for k
    using that
  proof (induction k)
    case 0
    then show ?case by (auto simp: b32_bits_def nth_replicate)
  next
    case (Suc k)
    then show ?case using b32_step_bits [OF assms, of k] by simp
  qed
  from this [of 128] show ?thesis unfolding set_b32_order by simp
qed

lemma b32_bits_val:
  assumes "b32_bits V 128 n" and "0 \<le> V" and "V < 2 ^ 256"
  shows "lval 26 n = V" and "\<forall>x \<in> set n. uint x < 2 ^ 26"
proof -
  show small: "\<forall>x \<in> set n. uint x < 2 ^ 26"
    using assms(1) unfolding small_bits b32_bits_def by (metis in_set_conv_nth)
  show "lval 26 n = V"
  proof (rule bit_eqI)
    fix m
    have V: "take_bit 256 V = V" using assms by (simp add: take_bit_int_eq_self)
    have "bit V m \<longleftrightarrow> m < 256 \<and> bit V m" by (subst V [symmetric]) (simp add: bit_take_bit_iff)
    moreover have "bit (lval 26 n) m \<longleftrightarrow> m div 26 < 10 \<and> m < 256 \<and> bit V m"
      using assms(1) small by (auto simp: bit_lval_iff b32_bits_def)
    moreover have "m < 256 \<Longrightarrow> m div 26 < 10" by simp
    ultimately show "bit (lval 26 n) m \<longleftrightarrow> bit V m" by blast
  qed
qed

lemma secp256k1_fe_set_b32_val:
  assumes "length a = 32"
  shows "fe_val (fst (secp256k1_fe_set_b32 a)) = be_val a"
    and "snd (secp256k1_fe_set_b32 a) \<longleftrightarrow> be_val a < secp256k1_p"
    and "\<forall>x \<in> set (fe_limbs (fst (secp256k1_fe_set_b32 a))). uint x < 2 ^ 26"
proof -
  define n where "n = foldl (b32_step a) (replicate 10 0) (List.product [0..<32] [0..<4])"
  have bits: "b32_bits (be_val a) 128 n" unfolding n_def by (rule set_b32_bits [OF assms])
  have "be_val a < 2 ^ 256" using be_val_bound [of a] by (simp add: assms)
  note v = b32_bits_val [OF bits be_val_nonneg this]
  have len: "length n = 10" using bits by (simp add: b32_bits_def)
  have fst: "fst (secp256k1_fe_set_b32 a) = fe_of n" by (simp add: secp256k1_fe_set_b32_def n_def Let_def)
  show "fe_val (fst (secp256k1_fe_set_b32 a)) = be_val a" unfolding fst by (simp add: fe_val_of len v)
  show "\<forall>x \<in> set (fe_limbs (fst (secp256k1_fe_set_b32 a))). uint x < 2 ^ 26"
    unfolding fst by (simp add: fe_limbs_of len v(2) [simplified])
  have "bit (n ! 9) s \<longrightarrow> s < 22" for s using bits by (auto simp: b32_bits_def)
  then have "take_bit 22 (n ! 9) = n ! 9" by (intro bit_eqI) (auto simp: bit_take_bit_iff)
  then have top: "uint (n ! 9) < 2 ^ 22"
    by (metis unsigned_take_bit_eq take_bit_int_eq_self_iff)
  have "n \<noteq> []" using len by auto
  then have last: "last n = n ! 9" using len by (simp add: last_conv_nth)
  have "ge_p_flag n = of_bool (secp256k1_p \<le> be_val a)"
    unfolding v(1) [symmetric]
  proof (rule ge_p_flag_eq [OF len])
    show "\<forall>x \<in> set (butlast n). uint x < 2 ^ 26" using v(2) by (blast dest: in_set_butlastD)
    show "uint (last n) < 2 ^ 22 + 63" using top by (simp add: last)
  qed
  moreover have "drop_bit 22 (n ! 9) = 0" using top by (simp add: word_uint_eq_iff uint_shr)
  moreover have "and_limbs n = n ! 8 AND n ! 7 AND n ! 6 AND n ! 5 AND n ! 4 AND n ! 3 AND n ! 2"
    by (simp add: and_limbs_def ac_simps)
  ultimately show "snd (secp256k1_fe_set_b32 a) \<longleftrightarrow> be_val a < secp256k1_p"
    unfolding secp256k1_fe_set_b32_def n_def [symmetric] Let_def ge_p_flag_def flag_simps
    by (auto split: if_splits)
qed

subsection \<open>Writing 32 bytes\<close>

lemma foldl_update_rev:
  assumes "m \<le> 32"
  shows "foldl (\<lambda>r i. r[31 - i := f i]) (replicate 32 d) [0..<m] = replicate (32 - m) d @ rev (map f [0..<m])"
  using assms
proof (induction m)
  case (Suc m)
  have "32 - m = Suc (31 - m)" using Suc.prems by simp
  then have "replicate (32 - m) d = replicate (31 - m) d @ [d]" by (simp add: replicate_append_same)
  then show ?case using Suc by (simp add: list_update_append)
qed simp

lemma get_b32_rev: "secp256k1_fe_get_b32 a = rev (map (\<lambda>i. ucast (b32_byte (fe_limbs a) i)) [0..<32])"
  unfolding secp256k1_fe_get_b32_def by (subst foldl_update_rev) simp_all

lemma bit_fe_val:
  assumes "\<forall>x \<in> set (fe_limbs a). uint x < 2 ^ 26" and "l < 10" and "s < 26"
  shows "bit (fe_val a) (26 * l + s) \<longleftrightarrow> bit (fe_limbs a ! l) s"
proof -
  have "(26 * l + s) div 26 = l" "(26 * l + s) mod 26 = s" using assms(3) by simp_all
  then show ?thesis using assms by (simp add: fe_val_def bit_lval_iff)
qed

lemma bit_b32_byte:
  assumes a: "\<forall>x \<in> set (fe_limbs a). uint x < 2 ^ 26" and i: "i < 32" and q: "q < 8"
  shows "bit (b32_byte (fe_limbs a) i) q \<longleftrightarrow> bit (fe_val a) (8 * i + q)"
proof -
  have digit: "bit (push_bit (2 * j) (drop_bit ((8 * i + 2 * j) mod 26) (fe_limbs a ! ((8 * i + 2 * j) div 26)) AND 3)) q \<longleftrightarrow>
      2 * j \<le> q \<and> q < 2 * j + 2 \<and> bit (fe_val a) (8 * i + q)" if "j < 4" for j
  proof (cases "2 * j \<le> q \<and> q < 2 * j + 2")
    case True
    define l s where "l = (8 * i + 2 * j) div 26" and "s = (8 * i + 2 * j) mod 26"
    have ls: "26 * l + s = 8 * i + 2 * j" unfolding l_def s_def by (rule mult_div_mod_eq)
    have "8 * i + 2 * j < 260" using i that by linarith
    then have l: "l < 10" unfolding l_def by (simp add: div_less_iff_less_mult)
    have "even (26 * l + s)" unfolding ls by simp
    then have "even s" by simp
    moreover have "s < 26" by (simp add: s_def)
    ultimately have s: "s < 25" by (cases "s = 25") auto
    have "bit (3 :: u32) (q - 2 * j)" using True by (auto simp: less_2_cases_iff le_Suc_eq less_Suc_eq numeral_2_eq_2)
    moreover have "bit (fe_limbs a ! l) (s + (q - 2 * j)) \<longleftrightarrow> bit (fe_val a) (26 * l + (s + (q - 2 * j)))"
      using bit_fe_val [OF a l, of "s + (q - 2 * j)"] True s by auto
    moreover have "26 * l + (s + (q - 2 * j)) = 8 * i + q" using ls True by linarith
    ultimately show ?thesis
      using True q by (simp add: bit_push_bit_iff bit_and_iff bit_drop_bit_eq flip: l_def s_def
          del: push_bit_eq_mult drop_bit_eq_div)
  next
    case False
    have "\<not> bit (3 :: u32) (q - 2 * j)" if "2 * j \<le> q"
      using that False bit_mask_iff [where 'a = u32, of 2 "q - 2 * j"] by (auto simp: mask_eq_exp_minus_1)
    then show ?thesis using False by (auto simp: bit_push_bit_iff bit_and_iff simp del: push_bit_eq_mult drop_bit_eq_div)
  qed
  have "[0..<4 :: nat] = [0, 1, 2, 3]" by (simp add: upt_rec)
  then have "bit (b32_byte (fe_limbs a) i) q \<longleftrightarrow>
      (\<exists>j \<in> {0, 1, 2, 3}. 2 * j \<le> q \<and> q < 2 * j + 2 \<and> bit (fe_val a) (8 * i + q))"
    unfolding b32_byte_def Let_def using digit [of 0] digit [of 1] digit [of 2] digit [of 3]
    by (simp add: bit_or_iff del: push_bit_eq_mult drop_bit_eq_div)
  also have "\<dots> \<longleftrightarrow> bit (fe_val a) (8 * i + q)" using q by auto
  finally show ?thesis .
qed

lemma secp256k1_fe_get_b32_val:
  assumes "\<forall>x \<in> set (fe_limbs a). uint x < 2 ^ 26" and "fe_val a < 2 ^ 256"
  shows "be_val (secp256k1_fe_get_b32 a) = fe_val a" and "length (secp256k1_fe_get_b32 a) = 32"
proof -
  show len: "length (secp256k1_fe_get_b32 a) = 32" by (simp add: get_b32_rev)
  show "be_val (secp256k1_fe_get_b32 a) = fe_val a"
  proof (rule bit_eqI)
    fix n
    have V: "take_bit 256 (fe_val a) = fe_val a"
      using assms(2) fe_val_nonneg [of a] by (simp add: take_bit_int_eq_self)
    have hi: "bit (fe_val a) n \<longleftrightarrow> n < 256 \<and> bit (fe_val a) n" by (subst V [symmetric]) (simp add: bit_take_bit_iff)
    show "bit (be_val (secp256k1_fe_get_b32 a)) n \<longleftrightarrow> bit (fe_val a) n"
    proof (cases "n < 256")
      case True
      then have n: "n div 8 < 32" "n mod 8 < 8" "8 * (n div 8) + n mod 8 = n" by simp_all
      then have "bit (be_val (secp256k1_fe_get_b32 a)) n \<longleftrightarrow> bit (b32_byte (fe_limbs a) (n div 8)) (n mod 8)"
        by (simp add: bit_be_val len) (simp add: get_b32_rev rev_nth bit_unsigned_iff)
      then show ?thesis using bit_b32_byte [OF assms(1) n(1,2)] n(3) by simp
    next
      case False
      then show ?thesis using hi by (simp add: bit_be_val len div_less_iff_less_mult)
    qed
  qed
qed

subsection \<open>Storage\<close>

lemma bit_u32: "bit (x :: u32) n \<Longrightarrow> n < 32"
  using bit_imp_le_length [of x n] by simp

lemma bit_ones26: "bit (0x3FFFFFF :: u32) s \<longleftrightarrow> s < 26"
  unfolding mask26(1) bit_mask_iff by auto

lemmas storage_bits = bit_or_iff bit_and_iff bit_push_bit_iff bit_drop_bit_eq bit_ones26

lemma length_storage_limbs: "length (storage_limbs a) = 8"
  by (simp add: storage_limbs_def)

lemma bit_storage_limb:
  assumes "i < 8"
  shows "bit (storage_limbs a ! i) s \<longleftrightarrow> s < 32 \<and> bit (storage_val a) (32 * i + s)"
proof (cases "s < 32")
  case True
  then have "(32 * i + s) div 32 = i" "(32 * i + s) mod 32 = s" by simp_all
  moreover have "length (storage_limbs a) = 8" by (simp add: storage_limbs_def)
  ultimately show ?thesis using True assms by (simp add: storage_val_def bit_lval_iff uint_u32_less)
qed (auto dest: bit_u32)

lemma bit_fe_limb:
  assumes "\<forall>x \<in> set (fe_limbs a). uint x < 2 ^ 26" and "l < 10"
  shows "bit (fe_limbs a ! l) s \<longleftrightarrow> s < 26 \<and> bit (fe_val a) (26 * l + s)"
proof (cases "s < 26")
  case True
  then show ?thesis using bit_fe_val [OF assms] by simp
next
  case False
  have "fe_limbs a ! l \<in> set (fe_limbs a)" using assms(2) by simp
  then show ?thesis using assms(1) False unfolding small_bits by blast
qed

lemma storage_limb_bits:
  shows "bit (s_0 a) s \<longleftrightarrow> s < 32 \<and> bit (storage_val a) (0 + s)"
  "bit (s_1 a) s \<longleftrightarrow> s < 32 \<and> bit (storage_val a) (32 + s)"
  "bit (s_2 a) s \<longleftrightarrow> s < 32 \<and> bit (storage_val a) (64 + s)"
  "bit (s_3 a) s \<longleftrightarrow> s < 32 \<and> bit (storage_val a) (96 + s)"
  "bit (s_4 a) s \<longleftrightarrow> s < 32 \<and> bit (storage_val a) (128 + s)"
  "bit (s_5 a) s \<longleftrightarrow> s < 32 \<and> bit (storage_val a) (160 + s)"
  "bit (s_6 a) s \<longleftrightarrow> s < 32 \<and> bit (storage_val a) (192 + s)"
  "bit (s_7 a) s \<longleftrightarrow> s < 32 \<and> bit (storage_val a) (224 + s)"
  using bit_storage_limb [of 0 a s]
   bit_storage_limb [of 1 a s]
   bit_storage_limb [of 2 a s]
   bit_storage_limb [of 3 a s]
   bit_storage_limb [of 4 a s]
   bit_storage_limb [of 5 a s]
   bit_storage_limb [of 6 a s]
   bit_storage_limb [of 7 a s]
  unfolding storage_limbs_def by simp_all

lemma fe_limb_bits:
  assumes "\<forall>x \<in> set (fe_limbs a). uint x < 2 ^ 26"
  shows "bit (n_0 a) s \<longleftrightarrow> s < 26 \<and> bit (fe_val a) (0 + s)"
  "bit (n_1 a) s \<longleftrightarrow> s < 26 \<and> bit (fe_val a) (26 + s)"
  "bit (n_2 a) s \<longleftrightarrow> s < 26 \<and> bit (fe_val a) (52 + s)"
  "bit (n_3 a) s \<longleftrightarrow> s < 26 \<and> bit (fe_val a) (78 + s)"
  "bit (n_4 a) s \<longleftrightarrow> s < 26 \<and> bit (fe_val a) (104 + s)"
  "bit (n_5 a) s \<longleftrightarrow> s < 26 \<and> bit (fe_val a) (130 + s)"
  "bit (n_6 a) s \<longleftrightarrow> s < 26 \<and> bit (fe_val a) (156 + s)"
  "bit (n_7 a) s \<longleftrightarrow> s < 26 \<and> bit (fe_val a) (182 + s)"
  "bit (n_8 a) s \<longleftrightarrow> s < 26 \<and> bit (fe_val a) (208 + s)"
  "bit (n_9 a) s \<longleftrightarrow> s < 26 \<and> bit (fe_val a) (234 + s)"
  using bit_fe_limb [OF assms, of 0 s]
   bit_fe_limb [OF assms, of 1 s]
   bit_fe_limb [OF assms, of 2 s]
   bit_fe_limb [OF assms, of 3 s]
   bit_fe_limb [OF assms, of 4 s]
   bit_fe_limb [OF assms, of 5 s]
   bit_fe_limb [OF assms, of 6 s]
   bit_fe_limb [OF assms, of 7 s]
   bit_fe_limb [OF assms, of 8 s]
   bit_fe_limb [OF assms, of 9 s]
  unfolding fe_limbs_def by simp_all

lemma join_bits:
  fixes x y :: u32 and V :: int
  assumes "\<And>s. bit x s \<longleftrightarrow> s < c \<and> bit V (o1 + s)" and "\<And>s. bit y s \<longleftrightarrow> s < d \<and> bit V (o1 + c + s)"
  shows "bit (x OR push_bit c y) s \<longleftrightarrow> s < 32 \<and> s < c + d \<and> bit V (o1 + s)"
proof -
  have "bit (push_bit c y) s \<longleftrightarrow> s < 32 \<and> c \<le> s \<and> s - c < d \<and> bit V (o1 + s)"
    using assms(2) [of "s - c"] by (auto simp: bit_push_bit_iff simp del: push_bit_eq_mult)
  moreover have "bit x s \<Longrightarrow> s < 32" by (rule bit_u32)
  ultimately show ?thesis using assms(1) [of s] by (auto simp: bit_or_iff simp del: push_bit_eq_mult)
qed

lemma join_bits_full:
  fixes x y :: u32 and V :: int
  assumes "\<And>s. bit x s \<longleftrightarrow> s < c \<and> bit V (o1 + s)" and "\<And>s. bit y s \<longleftrightarrow> s < d \<and> bit V (o1 + c + s)"
    and "32 \<le> c + d"
  shows "bit (x OR push_bit c y) s \<longleftrightarrow> s < 32 \<and> bit V (o1 + s)"
  using join_bits [OF assms(1,2), of s] assms(3) by auto

lemma drop_bits:
  fixes x :: u32 and V :: int
  assumes "\<And>s. bit x s \<longleftrightarrow> s < c + k \<and> bit V (o1 + s)"
  shows "bit (drop_bit k x) s \<longleftrightarrow> s < c \<and> bit V (o1 + k + s)"
  using assms [of "k + s"] by (simp add: bit_drop_bit_eq add.assoc del: drop_bit_eq_div)

lemma secp256k1_fe_to_storage_val:
  assumes a: "\<forall>x \<in> set (fe_limbs a). uint x < 2 ^ 26" and v: "fe_val a < 2 ^ 256"
  shows "storage_val (secp256k1_fe_to_storage a) = fe_val a"
proof -
  define V where "V = fe_val a"
  note n = fe_limb_bits [OF a, folded V_def]
  define r where "r = secp256k1_fe_to_storage a"
  have r: "s_0 r = n_0 a OR push_bit 26 (n_1 a)" "s_1 r = drop_bit 6 (n_1 a) OR push_bit 20 (n_2 a)"
    "s_2 r = drop_bit 12 (n_2 a) OR push_bit 14 (n_3 a)" "s_3 r = drop_bit 18 (n_3 a) OR push_bit 8 (n_4 a)"
    "s_4 r = (drop_bit 24 (n_4 a) OR push_bit 2 (n_5 a)) OR push_bit 28 (n_6 a)"
    "s_5 r = drop_bit 4 (n_6 a) OR push_bit 22 (n_7 a)" "s_6 r = drop_bit 10 (n_7 a) OR push_bit 16 (n_8 a)"
    "s_7 r = drop_bit 16 (n_8 a) OR push_bit 10 (n_9 a)"
    by (simp_all add: r_def secp256k1_fe_to_storage_def)
  have l0: "bit (s_0 r) s \<longleftrightarrow> s < 32 \<and> bit V (0 + s)" for s
    unfolding r using join_bits_full [of "n_0 a" 26 V 0 "n_1 a" 26] n by simp
  have l1: "bit (s_1 r) s \<longleftrightarrow> s < 32 \<and> bit V (32 + s)" for s
    unfolding r using join_bits_full [OF drop_bits [of "n_1 a" 20 6 V 26], of "n_2 a" 26] n by simp
  have l2: "bit (s_2 r) s \<longleftrightarrow> s < 32 \<and> bit V (64 + s)" for s
    unfolding r using join_bits_full [OF drop_bits [of "n_2 a" 14 12 V 52], of "n_3 a" 26] n by simp
  have l3: "bit (s_3 r) s \<longleftrightarrow> s < 32 \<and> bit V (96 + s)" for s
    unfolding r using join_bits_full [OF drop_bits [of "n_3 a" 8 18 V 78], of "n_4 a" 26] n by simp
  have m4: "bit (drop_bit 24 (n_4 a) OR push_bit 2 (n_5 a)) s \<longleftrightarrow> s < 28 \<and> bit V (128 + s)" for s
    using join_bits [OF drop_bits [of "n_4 a" 2 24 V 104], of "n_5 a" 26] n by auto
  have l4: "bit (s_4 r) s \<longleftrightarrow> s < 32 \<and> bit V (128 + s)" for s
    unfolding r using join_bits_full [of _ 28 V 128 "n_6 a" 26, OF m4] n by simp
  have l5: "bit (s_5 r) s \<longleftrightarrow> s < 32 \<and> bit V (160 + s)" for s
    unfolding r using join_bits_full [OF drop_bits [of "n_6 a" 22 4 V 156], of "n_7 a" 26] n by simp
  have l6: "bit (s_6 r) s \<longleftrightarrow> s < 32 \<and> bit V (192 + s)" for s
    unfolding r using join_bits_full [OF drop_bits [of "n_7 a" 16 10 V 182], of "n_8 a" 26] n by simp
  have l7: "bit (s_7 r) s \<longleftrightarrow> s < 32 \<and> bit V (224 + s)" for s
    unfolding r using join_bits_full [OF drop_bits [of "n_8 a" 10 16 V 208], of "n_9 a" 26] n by simp
  have l: "bit (storage_limbs r ! i) s \<longleftrightarrow> s < 32 \<and> bit V (32 * i + s)" if "i < 8" for i s
  proof -
    have "i = 0 \<or> i = 1 \<or> i = 2 \<or> i = 3 \<or> i = 4 \<or> i = 5 \<or> i = 6 \<or> i = 7" using that by linarith
    then show ?thesis
      by (elim disjE) (simp_all only: storage_limbs_def nth_Cons_0 nth_Cons_numeral, simp_all add: l0 l1 l2 l3 l4 l5 l6 l7)
  qed
  have "storage_val r = V"
  proof (rule bit_eqI)
    fix m
    have t: "take_bit 256 V = V" using v fe_val_nonneg [of a] by (simp add: V_def take_bit_int_eq_self)
    have "bit V m \<longleftrightarrow> m < 256 \<and> bit V m" by (subst t [symmetric]) (simp add: bit_take_bit_iff)
    moreover have "bit (storage_val r) m \<longleftrightarrow> m div 32 < 8 \<and> bit (storage_limbs r ! (m div 32)) (m mod 32)"
      unfolding storage_val_def by (subst bit_lval_iff) (simp_all add: uint_u32_less length_storage_limbs)
    ultimately show "bit (storage_val r) m \<longleftrightarrow> bit V m" using l [of "m div 32" "m mod 32"] by (auto simp: div_less_iff_less_mult)
  qed
  then show ?thesis by (simp add: r_def V_def)
qed

lemma join_mask_bits:
  fixes x y :: u32 and V :: int
  assumes "\<And>s. bit x s \<longleftrightarrow> s < c \<and> bit V (o1 + s)" and "\<And>s. bit y s \<longleftrightarrow> s < 32 \<and> bit V (o1 + c + s)"
    and "c \<le> 26"
  shows "bit (x OR (push_bit c y AND 0x3FFFFFF)) s \<longleftrightarrow> s < 26 \<and> bit V (o1 + s)"
proof -
  have "bit (push_bit c y) s \<longleftrightarrow> s < 32 \<and> c \<le> s \<and> bit V (o1 + s)"
    using assms(2) [of "s - c"] by (auto simp: bit_push_bit_iff simp del: push_bit_eq_mult)
  then show ?thesis using assms(1) [of s] assms(3)
    unfolding bit_or_iff bit_and_iff bit_ones26 by auto
qed

lemma secp256k1_fe_from_storage_val:
  shows "fe_val (secp256k1_fe_from_storage a) = storage_val a"
    and "\<forall>x \<in> set (fe_limbs (secp256k1_fe_from_storage a)). uint x < 2 ^ 26"
proof -
  define V where "V = storage_val a"
  note n = storage_limb_bits [of a, folded V_def]
  define r where "r = secp256k1_fe_from_storage a"
  have r: "n_0 r = s_0 a AND 0x3FFFFFF" "n_5 r = drop_bit 2 (s_4 a) AND 0x3FFFFFF" "n_9 r = drop_bit 10 (s_7 a)"
    "n_1 r = drop_bit 26 (s_0 a) OR (push_bit 6 (s_1 a) AND 0x3FFFFFF)"
    "n_2 r = drop_bit 20 (s_1 a) OR (push_bit 12 (s_2 a) AND 0x3FFFFFF)"
    "n_3 r = drop_bit 14 (s_2 a) OR (push_bit 18 (s_3 a) AND 0x3FFFFFF)"
    "n_4 r = drop_bit 8 (s_3 a) OR (push_bit 24 (s_4 a) AND 0x3FFFFFF)"
    "n_6 r = drop_bit 28 (s_4 a) OR (push_bit 4 (s_5 a) AND 0x3FFFFFF)"
    "n_7 r = drop_bit 22 (s_5 a) OR (push_bit 10 (s_6 a) AND 0x3FFFFFF)"
    "n_8 r = drop_bit 16 (s_6 a) OR (push_bit 16 (s_7 a) AND 0x3FFFFFF)"
    by (simp_all add: r_def secp256k1_fe_from_storage_def)
  have l0: "bit (n_0 r) s \<longleftrightarrow> s < 26 \<and> bit V (0 + s)" for s
    unfolding r bit_and_iff bit_ones26 n by auto
  have l5: "bit (n_5 r) s \<longleftrightarrow> s < 26 \<and> bit V (130 + s)" for s
    unfolding r bit_and_iff bit_ones26 using drop_bits [of "s_4 a" 30 2 V 128 s] n by auto
  have l9: "bit (n_9 r) s \<longleftrightarrow> s < 22 \<and> bit V (234 + s)" for s
    unfolding r using drop_bits [of "s_7 a" 22 10 V 224 s] n by auto
  have l1: "bit (n_1 r) s \<longleftrightarrow> s < 26 \<and> bit V (26 + s)" for s
    unfolding r using join_mask_bits [OF drop_bits [of "s_0 a" 6 26 V 0], of "s_1 a"] n by simp
  have l2: "bit (n_2 r) s \<longleftrightarrow> s < 26 \<and> bit V (52 + s)" for s
    unfolding r using join_mask_bits [OF drop_bits [of "s_1 a" 12 20 V 32], of "s_2 a"] n by simp
  have l3: "bit (n_3 r) s \<longleftrightarrow> s < 26 \<and> bit V (78 + s)" for s
    unfolding r using join_mask_bits [OF drop_bits [of "s_2 a" 18 14 V 64], of "s_3 a"] n by simp
  have l4: "bit (n_4 r) s \<longleftrightarrow> s < 26 \<and> bit V (104 + s)" for s
    unfolding r using join_mask_bits [OF drop_bits [of "s_3 a" 24 8 V 96], of "s_4 a"] n by simp
  have l6: "bit (n_6 r) s \<longleftrightarrow> s < 26 \<and> bit V (156 + s)" for s
    unfolding r using join_mask_bits [OF drop_bits [of "s_4 a" 4 28 V 128], of "s_5 a"] n by simp
  have l7: "bit (n_7 r) s \<longleftrightarrow> s < 26 \<and> bit V (182 + s)" for s
    unfolding r using join_mask_bits [OF drop_bits [of "s_5 a" 10 22 V 160], of "s_6 a"] n by simp
  have l8: "bit (n_8 r) s \<longleftrightarrow> s < 26 \<and> bit V (208 + s)" for s
    unfolding r using join_mask_bits [OF drop_bits [of "s_6 a" 16 16 V 192], of "s_7 a"] n by simp
  have "bit (fe_limbs r ! l) s \<longleftrightarrow> s < 26 \<and> 26 * l + s < 2 * 128 \<and> bit V (26 * l + s)" if "l < 10" for l s
  proof -
    have "l = 0 \<or> l = 1 \<or> l = 2 \<or> l = 3 \<or> l = 4 \<or> l = 5 \<or> l = 6 \<or> l = 7 \<or> l = 8 \<or> l = 9" using that by presburger
    then show ?thesis
      by (elim disjE) (simp_all only: fe_limbs_def nth_Cons_0 nth_Cons_numeral,
          auto simp: l0 l1 l2 l3 l4 l5 l6 l7 l8 l9)
  qed
  then have "b32_bits V 128 (fe_limbs (secp256k1_fe_from_storage a))"
    by (simp add: b32_bits_def r_def)
  moreover have "0 \<le> V" "V < 2 ^ 256"
    using lval_bound [of "storage_limbs a" 32] by (simp_all add: V_def storage_val_def uint_u32_less length_storage_limbs)
  ultimately show "fe_val (secp256k1_fe_from_storage a) = storage_val a"
    "\<forall>x \<in> set (fe_limbs (secp256k1_fe_from_storage a)). uint x < 2 ^ 26"
    unfolding fe_val_def using b32_bits_val unfolding V_def by blast+
qed

end
