(* ===== verification/Field_Impl.thy ===== *)
theory Field_Impl
  imports Field_10x26
begin

text \<open>
  The field operations of \<open>field_impl.h\<close> that use the representation only through its
  operations: equality, square root, inverse and the simultaneous inversion of an array. The
  square root and the inverse begin with the same addition chain, \<open>fe_chain\<close>, and differ in how
  they assemble the exponent. Arrays are lists and an assignment to \<open>r[i]\<close> is a list update.
\<close>

definition secp256k1_fe_equal :: "secp256k1_fe \<Rightarrow> secp256k1_fe \<Rightarrow> bool" where
  "secp256k1_fe_equal a b =
     (let na = secp256k1_fe_negate a 1;
          na = secp256k1_fe_add na b
      in secp256k1_fe_normalizes_to_zero na)"

definition secp256k1_fe_equal_var :: "secp256k1_fe \<Rightarrow> secp256k1_fe \<Rightarrow> bool" where
  "secp256k1_fe_equal_var a b =
     (let na = secp256k1_fe_negate a 1;
          na = secp256k1_fe_add na b
      in secp256k1_fe_normalizes_to_zero_var na)"

record fe_powers =
  fx2 :: secp256k1_fe
  fx22 :: secp256k1_fe
  fx223 :: secp256k1_fe

definition fe_chain :: "secp256k1_fe \<Rightarrow> fe_powers" where
  "fe_chain a =
     (let x2 = secp256k1_fe_sqr a;
          x2 = secp256k1_fe_mul x2 a;
          x3 = secp256k1_fe_sqr x2;
          x3 = secp256k1_fe_mul x3 a;
          x6 = x3;
          x6 = (secp256k1_fe_sqr ^^ 3) x6;
          x6 = secp256k1_fe_mul x6 x3;
          x9 = x6;
          x9 = (secp256k1_fe_sqr ^^ 3) x9;
          x9 = secp256k1_fe_mul x9 x3;
          x11 = x9;
          x11 = (secp256k1_fe_sqr ^^ 2) x11;
          x11 = secp256k1_fe_mul x11 x2;
          x22 = x11;
          x22 = (secp256k1_fe_sqr ^^ 11) x22;
          x22 = secp256k1_fe_mul x22 x11;
          x44 = x22;
          x44 = (secp256k1_fe_sqr ^^ 22) x44;
          x44 = secp256k1_fe_mul x44 x22;
          x88 = x44;
          x88 = (secp256k1_fe_sqr ^^ 44) x88;
          x88 = secp256k1_fe_mul x88 x44;
          x176 = x88;
          x176 = (secp256k1_fe_sqr ^^ 88) x176;
          x176 = secp256k1_fe_mul x176 x88;
          x220 = x176;
          x220 = (secp256k1_fe_sqr ^^ 44) x220;
          x220 = secp256k1_fe_mul x220 x44;
          x223 = x220;
          x223 = (secp256k1_fe_sqr ^^ 3) x223;
          x223 = secp256k1_fe_mul x223 x3
      in \<lparr>fx2 = x2, fx22 = x22, fx223 = x223\<rparr>)"

text \<open>The result is the candidate root and whether its square is the input.\<close>

definition secp256k1_fe_sqrt :: "secp256k1_fe \<Rightarrow> secp256k1_fe \<times> bool" where
  "secp256k1_fe_sqrt a =
     (let P = fe_chain a;
          x2 = fx2 P; x22 = fx22 P; x223 = fx223 P;
          t1 = x223;
          t1 = (secp256k1_fe_sqr ^^ 23) t1;
          t1 = secp256k1_fe_mul t1 x22;
          t1 = (secp256k1_fe_sqr ^^ 6) t1;
          t1 = secp256k1_fe_mul t1 x2;
          t1 = secp256k1_fe_sqr t1;
          r = secp256k1_fe_sqr t1;
          t1 = secp256k1_fe_sqr r
      in (r, secp256k1_fe_equal t1 a))"

definition secp256k1_fe_inv :: "secp256k1_fe \<Rightarrow> secp256k1_fe" where
  "secp256k1_fe_inv a =
     (let P = fe_chain a;
          x2 = fx2 P; x22 = fx22 P; x223 = fx223 P;
          t1 = x223;
          t1 = (secp256k1_fe_sqr ^^ 23) t1;
          t1 = secp256k1_fe_mul t1 x22;
          t1 = (secp256k1_fe_sqr ^^ 5) t1;
          t1 = secp256k1_fe_mul t1 a;
          t1 = (secp256k1_fe_sqr ^^ 3) t1;
          t1 = secp256k1_fe_mul t1 x2;
          t1 = (secp256k1_fe_sqr ^^ 2) t1;
          r = secp256k1_fe_mul a t1
      in r)"

definition secp256k1_fe_inv_var :: "secp256k1_fe \<Rightarrow> secp256k1_fe" where
  "secp256k1_fe_inv_var a = secp256k1_fe_inv a"

fun inv_all_down :: "secp256k1_fe list \<Rightarrow> nat \<Rightarrow> secp256k1_fe list \<times> secp256k1_fe \<Rightarrow> secp256k1_fe list \<times> secp256k1_fe" where
  "inv_all_down a 0 (r, u) = (r, u)"
| "inv_all_down a (Suc i) (r, u) =
     (let r = r[Suc i := secp256k1_fe_mul (r ! i) u];
          u = secp256k1_fe_mul u (a ! Suc i)
      in inv_all_down a i (r, u))"

definition secp256k1_fe_inv_all_var :: "secp256k1_fe list \<Rightarrow> secp256k1_fe list \<Rightarrow> nat \<Rightarrow> secp256k1_fe list" where
  "secp256k1_fe_inv_all_var r a len =
     (if len < 1 then r
      else (let r = r[0 := a ! 0];
                r = foldl (\<lambda>r i. r[i := secp256k1_fe_mul (r ! (i - 1)) (a ! i)]) r [1..<len];
                u = secp256k1_fe_inv_var (r ! (len - 1));
                (r, u) = inv_all_down a (len - 1) (r, u)
            in r[0 := u]))"

definition secp256k1_fe_is_quad_var :: "secp256k1_fe \<Rightarrow> bool" where
  "secp256k1_fe_is_quad_var a = snd (secp256k1_fe_sqrt a)"

subsection \<open>Equality\<close>

lemma equal_sum:
  assumes "fe_magnitude 1 a" and "fe_magnitude 29 b"
  shows "fe_magnitude 31 (secp256k1_fe_add (secp256k1_fe_negate a 1) b)"
    and "fe_val (secp256k1_fe_add (secp256k1_fe_negate a 1) b) = fe_val b - fe_val a + secp256k1_p * 4"
proof -
  have n: "fe_val (secp256k1_fe_negate a 1) = 4 * secp256k1_p - fe_val a" "fe_magnitude 2 (secp256k1_fe_negate a 1)"
    using secp256k1_fe_negate_val [of 1 a] assms(1) by simp_all
  show "fe_magnitude 31 (secp256k1_fe_add (secp256k1_fe_negate a 1) b)"
    using secp256k1_fe_add_val(2) [OF n(2) assms(2)] by simp
  show "fe_val (secp256k1_fe_add (secp256k1_fe_negate a 1) b) = fe_val b - fe_val a + secp256k1_p * 4"
    using secp256k1_fe_add_val(1) [OF n(2) assms(2)] n(1) by simp
qed

lemma secp256k1_fe_equal_iff:
  assumes "fe_magnitude 1 a" and "fe_magnitude 29 b"
  shows "secp256k1_fe_equal a b \<longleftrightarrow> fe_val a mod secp256k1_p = fe_val b mod secp256k1_p"
proof -
  note s = equal_sum [OF assms]
  have "secp256k1_fe_equal a b \<longleftrightarrow> (fe_val b - fe_val a + secp256k1_p * 4) mod secp256k1_p = 0"
    unfolding secp256k1_fe_equal_def Let_def secp256k1_fe_normalizes_to_zero_iff [OF s(1)] s(2) ..
  also have "\<dots> \<longleftrightarrow> (fe_val b - fe_val a) mod secp256k1_p = 0" by simp
  also have "\<dots> \<longleftrightarrow> fe_val a mod secp256k1_p = fe_val b mod secp256k1_p"
    by (metis mod_eq_dvd_iff mod_eq_0_iff_dvd)
  finally show ?thesis .
qed

lemma secp256k1_fe_equal_var_eq: "secp256k1_fe_equal_var a b = secp256k1_fe_equal a b"
  by (simp add: secp256k1_fe_equal_var_def secp256k1_fe_equal_def secp256k1_fe_normalizes_to_zero_var_eq)

subsection \<open>Powers\<close>

lemma fe_chain_pw:
  assumes "fe_mul_ok a"
  shows "fe_repr.pw a (fx2 (fe_chain a)) (2 ^ 2 - 1)"
    and "fe_repr.pw a (fx22 (fe_chain a)) (2 ^ 22 - 1)"
    and "fe_repr.pw a (fx223 (fe_chain a)) (2 ^ 223 - 1)"
  unfolding fe_chain_def Let_def fe_powers.simps
  by (rule fe_repr.pw_exponent, (rule pw_rules assms)+, simp)+

lemma secp256k1_fe_inv_pw:
  assumes "fe_mul_ok a"
  shows "fe_repr.pw a (secp256k1_fe_inv a) (nat secp256k1_p - 2)"
  unfolding secp256k1_fe_inv_def Let_def
  by (rule fe_repr.pw_exponent, (rule pw_rules fe_chain_pw assms)+) (simp add: secp256k1_p_def)

lemma secp256k1_fe_sqrt_pw:
  assumes "fe_mul_ok a"
  shows "fe_repr.pw a (fst (secp256k1_fe_sqrt a)) ((nat secp256k1_p + 1) div 4)"
  unfolding secp256k1_fe_sqrt_def Let_def fst_conv
  by (rule fe_repr.pw_exponent, (rule pw_rules fe_chain_pw assms)+) (simp add: secp256k1_p_def)

lemma secp256k1_fe_inv_mag: "fe_mul_ok a \<Longrightarrow> fe_magnitude 1 (secp256k1_fe_inv a)"
  unfolding secp256k1_fe_inv_def Let_def
  by (rule fe_reduced_magnitude, rule secp256k1_fe_mul_val(1), assumption,
      rule fe_repr.pw_ok, (rule pw_rules fe_chain_pw | assumption)+)

lemma secp256k1_fe_sqrt_check:
  assumes "fe_magnitude 8 a" and "secp256k1_fe_sqrt a = (r, ok)"
  shows "ok \<longleftrightarrow> fe_val r * fe_val r mod secp256k1_p = fe_val a mod secp256k1_p"
proof -
  have a: "fe_mul_ok a" using assms(1) by (rule fe_magnitude_mul_ok) simp
  have r: "fe_mul_ok r" using fe_repr.pw_ok [OF secp256k1_fe_sqrt_pw [OF a]] assms(2) by simp
  have ok: "ok = secp256k1_fe_equal (secp256k1_fe_sqr r) a"
    using assms(2) by (auto simp: secp256k1_fe_sqrt_def Let_def)
  show ?thesis
    unfolding ok using secp256k1_fe_sqr_val [OF r] fe_magnitude_mono [OF assms(1), of 29]
    by (subst secp256k1_fe_equal_iff) (simp_all add: fe_reduced_magnitude)
qed

subsection \<open>Simultaneous inversion\<close>

definition prefix_prod :: "secp256k1_fe list \<Rightarrow> nat \<Rightarrow> int" where
  "prefix_prod a i = prod_list (map fe_val (take (Suc i) a))"

lemma prefix_prod_Suc: "Suc i < length a \<Longrightarrow> prefix_prod a (Suc i) = prefix_prod a i * fe_val (a ! Suc i)"
  by (simp add: prefix_prod_def take_Suc_conv_app_nth [of "Suc i"])

lemma inv_all_up:
  assumes len: "length r = length a" "a \<noteq> []" and ok: "\<forall>x \<in> set a. fe_mul_ok x" and k: "1 \<le> k" "k \<le> length a"
  defines "r' \<equiv> foldl (\<lambda>r i. r[i := secp256k1_fe_mul (r ! (i - 1)) (a ! i)]) (r[0 := a ! 0]) [1..<k]"
  shows "length r' = length a \<and> (\<forall>i < k. fe_mul_ok (r' ! i) \<and>
    fe_val (r' ! i) mod secp256k1_p = prefix_prod a i mod secp256k1_p)"
  unfolding r'_def using k
proof (induction k rule: nat_induct_at_least)
  case base
  have "take (Suc 0) a = [a ! 0]" using len(2) by (cases a) auto
  then show ?case using len ok by (simp add: prefix_prod_def)
next
  case (Suc k)
  define q where "q = foldl (\<lambda>r i. r[i := secp256k1_fe_mul (r ! (i - 1)) (a ! i)]) (r[0 := a ! 0]) [1..<k]"
  have q: "length q = length a" "\<And>i. i < k \<Longrightarrow> fe_mul_ok (q ! i)"
    "\<And>i. i < k \<Longrightarrow> fe_val (q ! i) mod secp256k1_p = prefix_prod a i mod secp256k1_p"
    using Suc by (simp_all add: q_def)
  obtain m where m: "k = Suc m" using Suc.hyps by (cases k) auto
  have ak: "fe_mul_ok (a ! k)" using ok Suc.prems by simp
  have new: "fe_mul_ok (secp256k1_fe_mul (q ! m) (a ! k))"
    "fe_val (secp256k1_fe_mul (q ! m) (a ! k)) mod secp256k1_p = prefix_prod a k mod secp256k1_p"
  proof -
    show "fe_mul_ok (secp256k1_fe_mul (q ! m) (a ! k))" using q(2) [of m] ak m by (simp add: fe_repr.mul_ok)
    have "fe_val (q ! m) * fe_val (a ! k) mod secp256k1_p = prefix_prod a m * fe_val (a ! k) mod secp256k1_p"
      using q(3) [of m] m by (intro mod_mult_cong) simp_all
    then show "fe_val (secp256k1_fe_mul (q ! m) (a ! k)) mod secp256k1_p = prefix_prod a k mod secp256k1_p"
      using q(2) [of m] ak Suc.prems by (simp add: m fe_repr.mul_mod prefix_prod_Suc)
  qed
  have "foldl (\<lambda>r i. r[i := secp256k1_fe_mul (r ! (i - 1)) (a ! i)]) (r[0 := a ! 0]) [1..<Suc k]
      = q[k := secp256k1_fe_mul (q ! m) (a ! k)]"
    using Suc.hyps by (simp add: q_def m)
  then show ?case using q new Suc.prems by (auto simp: nth_list_update less_Suc_eq)
qed

lemma inv_all_down:
  assumes "inv_all_down a i (r, u) = (r', u')" and "i < length a" and "length r = length a"
    and "\<forall>x \<in> set a. fe_mul_ok x" and "fe_mul_ok u"
    and "\<forall>j \<le> i. fe_mul_ok (r ! j) \<and> fe_val (r ! j) mod secp256k1_p = prefix_prod a j mod secp256k1_p"
    and "prefix_prod a i * fe_val u mod secp256k1_p = Q mod secp256k1_p"
  shows "length r' = length a \<and> (\<forall>j > i. r' ! j = r ! j) \<and> fe_mul_ok u' \<and>
    fe_val (a ! 0) * fe_val u' mod secp256k1_p = Q mod secp256k1_p \<and>
    (\<forall>j. 0 < j \<and> j \<le> i \<longrightarrow> fe_mul_ok (r' ! j) \<and> fe_val (a ! j) * fe_val (r' ! j) mod secp256k1_p = Q mod secp256k1_p)"
  using assms
proof (induction i arbitrary: r u)
  case 0
  have "prefix_prod a 0 = fe_val (a ! 0)" using "0.prems"(2) by (cases a) (auto simp: prefix_prod_def)
  then show ?case using "0.prems" by simp
next
  case (Suc i)
  define v where "v = secp256k1_fe_mul (r ! i) u"
  define w where "w = secp256k1_fe_mul u (a ! Suc i)"
  have run: "inv_all_down a i (r[Suc i := v], w) = (r', u')"
    using Suc.prems(1) by (simp add: v_def w_def)
  have ai: "fe_mul_ok (a ! Suc i)" using Suc.prems(2,4) by simp
  have ri: "fe_mul_ok (r ! i)" "fe_val (r ! i) mod secp256k1_p = prefix_prod a i mod secp256k1_p"
    using Suc.prems(6) by simp_all
  have w: "fe_mul_ok w" "fe_val w mod secp256k1_p = fe_val u * fe_val (a ! Suc i) mod secp256k1_p"
    using Suc.prems(5) ai by (simp_all add: w_def fe_repr.mul_ok fe_repr.mul_mod)
  have v: "fe_mul_ok v" "fe_val v mod secp256k1_p = fe_val (r ! i) * fe_val u mod secp256k1_p"
    using Suc.prems(5) ri(1) by (simp_all add: v_def fe_repr.mul_ok fe_repr.mul_mod)
  have pre: "prefix_prod a (Suc i) = prefix_prod a i * fe_val (a ! Suc i)"
    using Suc.prems(2) by (rule prefix_prod_Suc)
  have "prefix_prod a i * fe_val w mod secp256k1_p = prefix_prod a i * (fe_val u * fe_val (a ! Suc i)) mod secp256k1_p"
    using w(2) by (intro mod_mult_cong) simp_all
  also have "\<dots> = Q mod secp256k1_p" using Suc.prems(7) by (simp add: pre ac_simps)
  finally have wQ: "prefix_prod a i * fe_val w mod secp256k1_p = Q mod secp256k1_p" .
  have "fe_val (r ! i) * fe_val u mod secp256k1_p = prefix_prod a i * fe_val u mod secp256k1_p"
    using ri(2) by (rule mod_mult_cong) (rule refl)
  then have "fe_val (a ! Suc i) * fe_val v mod secp256k1_p = fe_val (a ! Suc i) * (prefix_prod a i * fe_val u) mod secp256k1_p"
    unfolding v(2) [symmetric] by (intro mod_mult_cong refl)
  also have "\<dots> = Q mod secp256k1_p" using Suc.prems(7) by (simp add: pre ac_simps)
  finally have vQ: "fe_val (a ! Suc i) * fe_val v mod secp256k1_p = Q mod secp256k1_p" .
  have IH: "length r' = length a \<and> (\<forall>j > i. r' ! j = r[Suc i := v] ! j) \<and> fe_mul_ok u' \<and>
    fe_val (a ! 0) * fe_val u' mod secp256k1_p = Q mod secp256k1_p \<and>
    (\<forall>j. 0 < j \<and> j \<le> i \<longrightarrow> fe_mul_ok (r' ! j) \<and> fe_val (a ! j) * fe_val (r' ! j) mod secp256k1_p = Q mod secp256k1_p)"
    using Suc.prems(2,3,4,6) w(1) wQ by (intro Suc.IH [OF run]) auto
  moreover have "r' ! Suc i = v" using IH Suc.prems(2,3) by simp
  ultimately show ?case using v(1) vQ by (auto simp: le_Suc_eq)
qed

lemma secp256k1_fe_inv_all_var_val:
  assumes "length r = length a" and "\<forall>x \<in> set a. fe_mul_ok x" and "i < length a"
  defines "R \<equiv> secp256k1_fe_inv_all_var r a (length a)"
  shows "fe_mul_ok (R ! i)"
    and "fe_val (a ! i) * fe_val (R ! i) mod secp256k1_p = prod_list (map fe_val a) ^ (nat secp256k1_p - 1) mod secp256k1_p"
proof -
  define k where "k = length a - 1"
  have ne: "a \<noteq> []" and k: "k < length a" "Suc k = length a" using assms(3) by (auto simp: k_def)
  define q where "q = foldl (\<lambda>r i. r[i := secp256k1_fe_mul (r ! (i - 1)) (a ! i)]) (r[0 := a ! 0]) [1..<length a]"
  define u where "u = secp256k1_fe_inv (q ! k)"
  obtain r' u' where d: "inv_all_down a k (q, u) = (r', u')" by fastforce
  have R: "R = r'[0 := u']"
    using ne d unfolding R_def secp256k1_fe_inv_all_var_def secp256k1_fe_inv_var_def Let_def
    by (simp add: k_def q_def u_def Suc_le_eq)
  have q: "length q = length a" "\<forall>i < length a. fe_mul_ok (q ! i) \<and> fe_val (q ! i) mod secp256k1_p = prefix_prod a i mod secp256k1_p"
    using inv_all_up [OF assms(1) ne assms(2), of "length a"] ne by (simp_all add: q_def Suc_le_eq)
  have all: "prefix_prod a k = prod_list (map fe_val a)" by (simp add: prefix_prod_def k)
  have u: "fe_mul_ok u" "fe_val u mod secp256k1_p = fe_val (q ! k) ^ (nat secp256k1_p - 2) mod secp256k1_p"
    using secp256k1_fe_inv_pw [of "q ! k"] q k unfolding u_def by (auto simp: fe_repr.pw_def)
  have P1: "nat secp256k1_p - 1 = Suc (nat secp256k1_p - 2)" by (simp add: secp256k1_p_def)
  have "prefix_prod a k * fe_val u mod secp256k1_p = fe_val (q ! k) * fe_val (q ! k) ^ (nat secp256k1_p - 2) mod secp256k1_p"
    using q k u(2) by (intro mod_mult_cong) simp_all
  also have "\<dots> = fe_val (q ! k) ^ (nat secp256k1_p - 1) mod secp256k1_p" unfolding P1 by simp
  also have "\<dots> = prefix_prod a k ^ (nat secp256k1_p - 1) mod secp256k1_p"
    using q k by (metis power_mod)
  finally have uQ: "prefix_prod a k * fe_val u mod secp256k1_p = prefix_prod a k ^ (nat secp256k1_p - 1) mod secp256k1_p" .
  note dn = inv_all_down [OF d k(1) q(1) assms(2) u(1) _ uQ]
  have "fe_mul_ok (R ! i) \<and> fe_val (a ! i) * fe_val (R ! i) mod secp256k1_p = prefix_prod a k ^ (nat secp256k1_p - 1) mod secp256k1_p"
    using dn q k assms(3) ne unfolding R by (cases "i = 0") auto
  then show "fe_mul_ok (R ! i)"
    "fe_val (a ! i) * fe_val (R ! i) mod secp256k1_p = prod_list (map fe_val a) ^ (nat secp256k1_p - 1) mod secp256k1_p"
    unfolding all by blast+
qed

lemma secp256k1_fe_set_int_val: "fe_val (secp256k1_fe_set_int v) = uint v"
  by (simp add: fe_val_def fe_limbs_def secp256k1_fe_set_int_def)

lemma fe_magnitude_set_int: "uint v \<le> 134217726 \<Longrightarrow> 1 \<le> m \<Longrightarrow> fe_magnitude m (secp256k1_fe_set_int v)"
  by (simp add: fe_magnitude_iff secp256k1_fe_set_int_def)

end
