(* ===== verification/Prime_Cert.thy ===== *)
theory Prime_Cert
  imports Main
begin

text \<open>
  Primality of the two moduli of the curve. \<open>prime_int\<close> is the usual notion on the integers;
  \<open>pocklington\<close> proves it from the factored part of \<open>N - 1\<close>, with the modular powers evaluated by
  repeated squaring on binary numerals (\<open>pow_mod\<close>). \<open>fermat\<close> is what turns the exponentiation chains
  of the library into inverses.
\<close>

definition prime_int :: "int \<Rightarrow> bool" where
  "prime_int N \<longleftrightarrow> 1 < N \<and> (\<forall>d. 0 \<le> d \<and> d dvd N \<longrightarrow> d = 1 \<or> d = N)"

lemma prime_int_coprime: "prime_int q \<Longrightarrow> \<not> q dvd k \<Longrightarrow> coprime q k"
proof -
  assume q: "prime_int q" "\<not> q dvd k"
  have "gcd q k dvd q" "0 \<le> gcd q k" by simp_all
  then have "gcd q k = 1 \<or> gcd q k = q" using q(1) by (auto simp: prime_int_def)
  moreover have "gcd q k \<noteq> q" using q(2) by (metis gcd_dvd2)
  ultimately show ?thesis by (simp add: coprime_iff_gcd_eq_1)
qed

lemma prime_int_dvd_mult: "prime_int q \<Longrightarrow> q dvd a * b \<longleftrightarrow> q dvd a \<or> q dvd b"
proof (cases "q dvd a")
  case False
  assume "prime_int q"
  then show ?thesis using False prime_int_coprime [of q a] by (simp add: coprime_dvd_mult_right_iff)
qed simp

lemma prime_int_dvd_prime: "prime_int q \<Longrightarrow> prime_int r \<Longrightarrow> q dvd r \<Longrightarrow> q = r"
  unfolding prime_int_def by (metis less_imp_le less_irrefl zero_less_one less_trans)

lemma factors_pos: "0 \<le> d \<Longrightarrow> 1 < d * e \<Longrightarrow> 0 < d \<and> 0 < (e :: int)"
  by (cases "d = 0") (auto simp: zero_less_mult_iff dest: less_trans [OF zero_less_one])

lemma prime_int_trial:
  assumes "1 < N" and "N < k * k" and "list_all (\<lambda>d. \<not> d dvd N) [2..k - 1]" and "0 < k"
  shows "prime_int N"
  unfolding prime_int_def
proof (intro conjI allI impI)
  fix d
  assume d: "0 \<le> d \<and> d dvd N"
  then obtain e where e: "N = d * e" by auto
  have pos: "0 < d" "0 < e" using factors_pos [of d e] d e assms(1) by simp_all
  have big: "x = 1 \<or> k \<le> x" if "0 < x" "x dvd N" for x
  proof (rule ccontr)
    assume "\<not> (x = 1 \<or> k \<le> x)"
    then have "x \<in> set [2..k - 1]" using that(1) by auto
    then show False using assms(3) that(2) by (auto simp: list_all_iff)
  qed
  have "e dvd N" "d dvd N" using e by simp_all
  then have "d = 1 \<or> k \<le> d" "e = 1 \<or> k \<le> e" using big pos by blast+
  moreover have "\<not> (k \<le> d \<and> k \<le> e)" using e assms(2,4) mult_mono [of k d k e] by auto
  ultimately show "d = 1 \<or> d = N" using e by auto
qed (rule assms)

subsection \<open>Orders modulo a divisor\<close>

lemma pow_order_dvd:
  fixes a r :: int
  assumes "a ^ k mod r = 1" and "0 < k" and "\<And>j. 0 < j \<Longrightarrow> a ^ j mod r = 1 \<Longrightarrow> k \<le> j" and "a ^ m mod r = 1"
  shows "k dvd m"
proof (rule ccontr)
  assume "\<not> k dvd m"
  then have pos: "0 < m mod k" by (simp add: dvd_eq_mod_eq_0)
  have r: "1 mod r = 1" using assms(1) by (metis mod_mod_trivial)
  have "a ^ m = (a ^ k) ^ (m div k) * a ^ (m mod k)" by (metis mult_div_mod_eq power_add power_mult)
  then have "a ^ m mod r = (a ^ k mod r) ^ (m div k) * a ^ (m mod k) mod r"
    by (metis mod_mult_left_eq power_mod)
  then have "a ^ (m mod k) mod r = 1" using assms(1,4) by simp
  then have "k \<le> m mod k" using assms(3) pos by blast
  then show False using assms(2) mod_less_divisor [of k m] by linarith
qed

lemma prod_distinct_primes_dvd:
  assumes "\<forall>q \<in> set qs. prime_int q \<and> q dvd k" and "distinct qs"
  shows "prod_list qs dvd k"
  using assms
proof (induction qs)
  case (Cons q qs)
  have "coprime q (prod_list rs)" if "\<forall>r \<in> set rs. prime_int r \<and> r \<noteq> q" for rs
    using that Cons.prems(1) prime_int_dvd_prime [of q] prime_int_coprime [of q]
    by (induction rs) (auto simp: coprime_mult_right_iff)
  then have "coprime q (prod_list qs)" using Cons.prems by auto
  then show ?case using Cons by (auto intro: divides_mult)
qed simp

subsection \<open>Fermat's theorem\<close>

theorem fermat:
  fixes a :: int
  assumes "prime_int p" and "\<not> p dvd a"
  shows "a ^ nat (p - 1) mod p = 1"
proof -
  have p: "1 < p" using assms(1) by (simp add: prime_int_def)
  define f where "f = (\<lambda>i. a * i mod p)"
  have inj: "inj_on f {1..<p}"
  proof (rule inj_onI)
    fix i j
    assume ij: "i \<in> {1..<p}" "j \<in> {1..<p}" "f i = f j"
    then have "p dvd a * (i - j)" by (simp add: f_def mod_eq_dvd_iff right_diff_distrib)
    then have "p dvd i - j" using assms by (simp add: prime_int_dvd_mult)
    then have "i mod p = j mod p" by (simp only: mod_eq_dvd_iff)
    then show "i = j" using ij by simp
  qed
  have "f ` {1..<p} \<subseteq> {1..<p}"
  proof (rule image_subsetI)
    fix i
    assume i: "i \<in> {1..<p}"
    then have "\<not> p dvd i" by (auto dest: zdvd_imp_le)
    then have "\<not> p dvd a * i" using assms by (simp add: prime_int_dvd_mult)
    then have "f i \<noteq> 0" by (simp add: f_def mod_eq_0_iff_dvd)
    moreover have "0 \<le> f i" "f i < p" using p by (simp_all add: f_def)
    ultimately show "f i \<in> {1..<p}" unfolding atLeastLessThan_iff by linarith
  qed
  then have img: "f ` {1..<p} = {1..<p}" using inj by (intro card_subset_eq) (simp_all add: card_image)
  define P where "P = \<Prod>{1..<p}"
  have nd_prod: "\<not> p dvd \<Prod>A" if "finite A" "\<forall>i \<in> A. \<not> p dvd i" for A
    using that
  proof (induction A)
    case empty
    then show ?case using p by simp
  next
    case (insert x A)
    then show ?case by (simp add: prime_int_dvd_mult [OF assms(1)])
  qed
  have "\<forall>i \<in> {1..<p}. \<not> p dvd i" by (auto dest: zdvd_imp_le)
  then have nd: "\<not> p dvd P" unfolding P_def by (intro nd_prod) simp_all
  have "P mod p = (\<Prod>i\<in>{1..<p}. f i) mod p"
    using prod.reindex [OF inj, of "\<lambda>x. x"] img by (simp add: P_def)
  also have "\<dots> = (\<Prod>i\<in>{1..<p}. a * i) mod p" unfolding f_def by (rule mod_prod_eq)
  also have "(\<Prod>i\<in>{1..<p}. a * i) = a ^ nat (p - 1) * P" by (simp add: prod.distrib P_def)
  finally have "p dvd P - a ^ nat (p - 1) * P" by (simp only: mod_eq_dvd_iff)
  then have "p dvd P * (1 - a ^ nat (p - 1))" by (simp add: algebra_simps)
  then have "p dvd 1 - a ^ nat (p - 1)" using nd assms(1) by (simp add: prime_int_dvd_mult)
  then have "a ^ nat (p - 1) mod p = 1 mod p" by (metis mod_eq_dvd_iff)
  then show ?thesis using p by simp
qed

subsection \<open>Pocklington's criterion\<close>

lemma prime_divisor: "1 < (d :: int) \<Longrightarrow> \<exists>r. prime_int r \<and> r dvd d"
proof (induction "nat d" arbitrary: d rule: less_induct)
  case less
  show ?case
  proof (cases "prime_int d")
    case False
    then obtain c where c: "0 \<le> c" "c dvd d" "c \<noteq> 1" "c \<noteq> d" using less.prems by (auto simp: prime_int_def)
    then have "c \<le> d" "c \<noteq> 0" using less.prems by (auto intro: zdvd_imp_le)
    then have "nat c < nat d" "1 < c" using c by simp_all
    then obtain r where "prime_int r" "r dvd c" using less.hyps by blast
    then show ?thesis using c(2) dvd_trans by blast
  qed auto
qed

lemma order_of_prime:
  assumes q: "prime_int q" "int m * q = N - 1" "(a ^ m - 1) * u mod N = 1"
    and r: "prime_int r" "r dvd N" and N: "1 < N" "a ^ nat (N - 1) mod N = 1"
  shows "q dvd r - 1"
proof -
  have r1: "1 < r" using r(1) by (simp add: prime_int_def)
  have modr: "x mod r = 1" if "x mod N = 1" for x
    using mod_mod_cancel [OF r(2), of x] r1 unfolding that by simp
  define k where "k = (LEAST k. 0 < k \<and> a ^ k mod r = 1)"
  have ex: "0 < nat (N - 1) \<and> a ^ nat (N - 1) mod r = 1" using N modr by simp
  have k: "0 < k" "a ^ k mod r = 1" using LeastI [of "\<lambda>k. 0 < k \<and> a ^ k mod r = 1", OF ex] by (simp_all add: k_def)
  have least: "k \<le> j" if "0 < j" "a ^ j mod r = 1" for j
    unfolding k_def using that by (intro Least_le) simp
  have "k dvd nat (N - 1)" using pow_order_dvd [OF k(2,1) least] ex by blast
  then have "int k dvd int (nat (N - 1))" by (simp only: int_dvd_int_iff)
  then have "int k dvd N - 1" using N(1) by simp
  then obtain t where t: "int m * q = int k * t" using q(2) by (metis dvdE)
  have "\<not> k dvd m"
  proof
    assume "k dvd m"
    then obtain s where "m = k * s" by auto
    then have "a ^ m mod r = (a ^ k mod r) ^ s mod r" by (simp add: power_mult power_mod)
    then have "a ^ m mod r = 1 mod r" using k(2) by simp
    then have "r dvd a ^ m - 1" by (simp only: mod_eq_dvd_iff)
    then have "(a ^ m - 1) * u mod r = 0" by simp
    then show False using modr [OF q(3)] by simp
  qed
  moreover have "int k dvd int m" if qt: "q dvd t"
  proof -
    obtain s where "t = q * s" using qt by (rule dvdE)
    then have "int m * q = (int k * s) * q" using t by simp
    then show ?thesis using q(1) by (simp add: prime_int_def)
  qed
  ultimately have "\<not> q dvd t" by auto
  moreover have "q dvd int k * t" using t by (metis dvd_triv_right)
  ultimately have qk: "q dvd int k" using q(1) prime_int_dvd_mult by blast
  have "\<not> r dvd a"
  proof
    assume "r dvd a"
    then have "a ^ k mod r = 0" using k(1) by (simp add: dvd_power_le mod_eq_0_iff_dvd dvd_trans [OF _ dvd_power])
    then show False using k(2) by simp
  qed
  then have "a ^ nat (r - 1) mod r = 1" by (rule fermat [OF r(1)])
  then have "k dvd nat (r - 1)" using pow_order_dvd [OF k(2,1) least] by blast
  then have "int k dvd int (nat (r - 1))" by (simp only: int_dvd_int_iff)
  then show ?thesis using r1 qk by (auto intro: dvd_trans)
qed

text \<open>
  Pocklington's criterion with the refinement that a factored part \<open>F\<close> beyond the cube root is
  enough: a composite \<open>N\<close> would be \<open>(x F + 1) (y F + 1)\<close>, which fixes \<open>x y\<close> and \<open>x + y\<close>.
\<close>

theorem pocklington:
  fixes N a :: int
  assumes N: "1 < N" "a ^ nat (N - 1) mod N = 1"
    and cs: "\<forall>(q, m, u) \<in> set cs. prime_int q \<and> int m * q = N - 1 \<and> (a ^ m - 1) * u mod N = 1"
    and dist: "distinct (map fst cs)" and F: "F = prod_list (map fst cs)" "1 < F"
    and R: "N - 1 = (s * F + t) * F" "0 \<le> t" "t < F" "s + 1 < t"
  shows "prime_int N"
proof (rule ccontr)
  assume "\<not> prime_int N"
  then obtain d where d: "0 \<le> d" "d dvd N" "d \<noteq> 1" "d \<noteq> N" using N(1) by (auto simp: prime_int_def)
  then obtain e where e: "N = d * e" by auto
  have pos: "1 < d" "1 < e"
  proof -
    have "0 < d" "0 < e" "e \<noteq> 1" using factors_pos [of d e] d e N(1) by auto
    then show "1 < d" "1 < e" using d(3) by linarith+
  qed
  have Fr: "F dvd r - 1" if "prime_int r" "r dvd N" for r
  proof -
    have "q dvd r - 1" if "(q, m, u) \<in> set cs" for q m u
      using order_of_prime [of q m N a u r] cs that \<open>prime_int r\<close> \<open>r dvd N\<close> N by blast
    then show ?thesis unfolding F(1) using cs dist by (intro prod_distinct_primes_dvd) auto
  qed
  have one: "x mod F = 1" if "0 < x" "x dvd N" for x
    using that
  proof (induction "nat x" arbitrary: x rule: less_induct)
    case less
    show ?case
    proof (cases "x = 1")
      case True
      then show ?thesis using F(2) by simp
    next
      case False
      then obtain r where r: "prime_int r" "r dvd x" using prime_divisor [of x] less.prems by auto
      then obtain y where y: "x = r * y" by auto
      have r1: "1 < r" using r(1) by (simp add: prime_int_def)
      then have "0 < y" using less.prems(1) y by (simp add: zero_less_mult_iff)
      then have "y < x" using r1 y by simp
      moreover have "y dvd N" "r dvd N" using less.prems(2) y by (auto dest: dvd_mult_left dvd_mult_right)
      ultimately have "y mod F = 1" using less.hyps [of y] \<open>0 < y\<close> by simp
      moreover have "r mod F = 1" using Fr [OF r(1) \<open>r dvd N\<close>] F(2) by (simp flip: mod_eq_dvd_iff)
      ultimately show ?thesis using F(2) y mod_mult_eq [of r F y] by simp
    qed
  qed
  have "d mod F = 1" "e mod F = 1" using one pos e by simp_all
  then obtain x y where xy: "d = x * F + 1" "e = y * F + 1" by (metis mult.commute mod_mult_div_eq add.commute)
  have x: "0 < x" "0 < y" using pos F(2) xy by (simp_all add: zero_less_mult_iff)
  have "(x * y * F + (x + y)) * F = (s * F + t) * F" using e R(1) xy by (simp add: algebra_simps)
  then have eq: "x * y * F + (x + y) = s * F + t" using F(2) by simp
  have le: "x + y \<le> x * y + 1" using mult_nonneg_nonneg [of "x - 1" "y - 1"] x by (simp add: algebra_simps)
  have "x * y \<le> s"
  proof (rule ccontr)
    assume "\<not> x * y \<le> s"
    then have "(s + 1) * F \<le> x * y * F" using F(2) by (intro mult_right_mono) simp_all
    then show False using eq R(3) x by (simp add: algebra_simps)
  qed
  then have "x * y * F \<le> s * F" using F(2) by simp
  then have "t \<le> x + y" using eq by linarith
  then show False using le \<open>x * y \<le> s\<close> R(4) by linarith
qed

subsection \<open>Evaluation of powers of two\<close>

text \<open>
  The certificates below all use the base 2. A residue is a binary numeral, \<open>None\<close> for zero, that
  is only reduced far enough to stay small: a numeral \<open>x\<close> is split at a power of two \<open>m\<close> and its
  upper part multiplied by a residue \<open>c\<close> of \<open>m\<close>. \<open>nsum\<close> and \<open>nsum_inc\<close> are addition with a carry.
\<close>

primrec oval :: "num option \<Rightarrow> int" where
  "oval None = 0"
| "oval (Some n) = numeral n"

definition onum0 :: "num option \<Rightarrow> num option" where
  "onum0 = map_option num.Bit0"

definition onum1 :: "num option \<Rightarrow> num option" where
  "onum1 x = Some (case x of None \<Rightarrow> num.One | Some n \<Rightarrow> num.Bit1 n)"

fun num_hi :: "num \<Rightarrow> num \<Rightarrow> num option" where
  "num_hi (num.Bit0 m) (num.Bit0 x) = num_hi m x"
| "num_hi (num.Bit0 m) (num.Bit1 x) = num_hi m x"
| "num_hi (num.Bit0 m) num.One = None"
| "num_hi m x = Some x"

fun num_lo :: "num \<Rightarrow> num \<Rightarrow> num option" where
  "num_lo (num.Bit0 m) (num.Bit0 x) = onum0 (num_lo m x)"
| "num_lo (num.Bit0 m) (num.Bit1 x) = onum1 (num_lo m x)"
| "num_lo (num.Bit0 m) num.One = Some num.One"
| "num_lo m x = None"

fun pow2_num :: "num \<Rightarrow> bool" where
  "pow2_num num.One \<longleftrightarrow> True"
| "pow2_num (num.Bit0 m) \<longleftrightarrow> pow2_num m"
| "pow2_num (num.Bit1 m) \<longleftrightarrow> False"

definition nsum :: "num \<Rightarrow> num \<Rightarrow> num" where
  "nsum m n = m + n"

definition nsum_inc :: "num \<Rightarrow> num \<Rightarrow> num" where
  "nsum_inc m n = Num.inc (m + n)"

definition nprod :: "num \<Rightarrow> num \<Rightarrow> num" where
  "nprod m n = m * n"

fun osum :: "num option \<Rightarrow> num option \<Rightarrow> num option" where
  "osum (Some m) (Some n) = Some (nsum m n)"
| "osum None y = y"
| "osum x None = x"

fun oprod :: "num option \<Rightarrow> num \<Rightarrow> num option" where
  "oprod (Some m) n = Some (nprod n m)"
| "oprod None n = None"

fun oscale :: "num \<Rightarrow> num option \<Rightarrow> num option" where
  "oscale b (Some m) = Some (nprod b m)"
| "oscale b None = None"

fun osqr :: "num option \<Rightarrow> num option" where
  "osqr (Some m) = Some (Num.sqr m)"
| "osqr None = None"

fun split_red :: "num \<Rightarrow> num \<Rightarrow> num option \<Rightarrow> num option" where
  "split_red m c (Some x) = osum (oprod (num_hi m x) c) (num_lo m x)"
| "split_red m c None = None"

fun fold_red :: "(num \<times> num) list \<Rightarrow> num option \<Rightarrow> num option" where
  "fold_red [] x = x"
| "fold_red ((m, c) # fs) x = fold_red fs (split_red m c x)"

text \<open>
  \<open>pow_from b fs y e\<close> continues a left-to-right square-and-multiply with base \<open>b\<close> from \<open>y\<close> with the
  bits of \<open>e\<close> below its leading one.
\<close>

fun pow_from :: "num \<Rightarrow> (num \<times> num) list \<Rightarrow> num option \<Rightarrow> num \<Rightarrow> num option" where
  "pow_from b fs y num.One = y"
| "pow_from b fs y (num.Bit0 e) = fold_red fs (osqr (pow_from b fs y e))"
| "pow_from b fs y (num.Bit1 e) = oscale b (fold_red fs (osqr (pow_from b fs y e)))"

primrec num_lead :: "num \<Rightarrow> num" where
  "num_lead num.One = num.One"
| "num_lead (num.Bit0 e) = num.Bit0 (num_lead e)"
| "num_lead (num.Bit1 e) = num.Bit0 (num_lead e)"

definition power_is :: "num \<Rightarrow> int \<Rightarrow> num \<Rightarrow> num \<Rightarrow> bool" where
  "power_is b N k y \<longleftrightarrow> numeral b ^ numeral k mod N = numeral y mod N"

abbreviation two_to :: "int \<Rightarrow> num \<Rightarrow> num \<Rightarrow> bool" where
  "two_to \<equiv> power_is (num.Bit0 num.One)"

definition good_folds :: "int \<Rightarrow> (num \<times> num \<times> int) list \<Rightarrow> bool" where
  "good_folds N fds \<longleftrightarrow> (\<forall>(m, c, d) \<in> set fds. pow2_num m \<and> numeral m = d * N + numeral c)"

abbreviation folds :: "(num \<times> num \<times> int) list \<Rightarrow> (num \<times> num) list" where
  "folds fds \<equiv> map (\<lambda>(m, c, d). (m, c)) fds"

lemma nsum_simps:
  "nsum (num.Bit0 (num.Bit0 m)) (num.Bit0 (num.Bit0 n)) = num.Bit0 (num.Bit0 (nsum m n))"
  "nsum (num.Bit0 (num.Bit0 m)) (num.Bit1 (num.Bit0 n)) = num.Bit1 (num.Bit0 (nsum m n))"
  "nsum (num.Bit0 (num.Bit0 m)) (num.Bit0 (num.Bit1 n)) = num.Bit0 (num.Bit1 (nsum m n))"
  "nsum (num.Bit0 (num.Bit0 m)) (num.Bit1 (num.Bit1 n)) = num.Bit1 (num.Bit1 (nsum m n))"
  "nsum (num.Bit1 (num.Bit0 m)) (num.Bit0 (num.Bit0 n)) = num.Bit1 (num.Bit0 (nsum m n))"
  "nsum (num.Bit1 (num.Bit0 m)) (num.Bit1 (num.Bit0 n)) = num.Bit0 (num.Bit1 (nsum m n))"
  "nsum (num.Bit1 (num.Bit0 m)) (num.Bit0 (num.Bit1 n)) = num.Bit1 (num.Bit1 (nsum m n))"
  "nsum (num.Bit1 (num.Bit0 m)) (num.Bit1 (num.Bit1 n)) = num.Bit0 (num.Bit0 (nsum_inc m n))"
  "nsum (num.Bit0 (num.Bit1 m)) (num.Bit0 (num.Bit0 n)) = num.Bit0 (num.Bit1 (nsum m n))"
  "nsum (num.Bit0 (num.Bit1 m)) (num.Bit1 (num.Bit0 n)) = num.Bit1 (num.Bit1 (nsum m n))"
  "nsum (num.Bit0 (num.Bit1 m)) (num.Bit0 (num.Bit1 n)) = num.Bit0 (num.Bit0 (nsum_inc m n))"
  "nsum (num.Bit0 (num.Bit1 m)) (num.Bit1 (num.Bit1 n)) = num.Bit1 (num.Bit0 (nsum_inc m n))"
  "nsum (num.Bit1 (num.Bit1 m)) (num.Bit0 (num.Bit0 n)) = num.Bit1 (num.Bit1 (nsum m n))"
  "nsum (num.Bit1 (num.Bit1 m)) (num.Bit1 (num.Bit0 n)) = num.Bit0 (num.Bit0 (nsum_inc m n))"
  "nsum (num.Bit1 (num.Bit1 m)) (num.Bit0 (num.Bit1 n)) = num.Bit1 (num.Bit0 (nsum_inc m n))"
  "nsum (num.Bit1 (num.Bit1 m)) (num.Bit1 (num.Bit1 n)) = num.Bit0 (num.Bit1 (nsum_inc m n))"
  "nsum (num.Bit0 num.One) (num.Bit0 n) = num.Bit0 (nsum num.One n)"
  "nsum (num.Bit0 n) (num.Bit0 num.One) = num.Bit0 (nsum n num.One)"
  "nsum (num.Bit0 num.One) (num.Bit1 n) = num.Bit1 (nsum num.One n)"
  "nsum (num.Bit1 n) (num.Bit0 num.One) = num.Bit1 (nsum n num.One)"
  "nsum (num.Bit1 num.One) (num.Bit0 n) = num.Bit1 (nsum num.One n)"
  "nsum (num.Bit0 n) (num.Bit1 num.One) = num.Bit1 (nsum n num.One)"
  "nsum (num.Bit1 num.One) (num.Bit1 n) = num.Bit0 (nsum_inc num.One n)"
  "nsum (num.Bit1 n) (num.Bit1 num.One) = num.Bit0 (nsum_inc n num.One)" "nsum num.One n = Num.inc n" "nsum n num.One = Num.inc n"
  by (simp_all add: nsum_def nsum_inc_def num_eq_iff nat_of_num_add nat_of_num_inc)

lemma nsum_inc_simps:
  "nsum_inc (num.Bit0 (num.Bit0 m)) (num.Bit0 (num.Bit0 n)) = num.Bit1 (num.Bit0 (nsum m n))"
  "nsum_inc (num.Bit0 (num.Bit0 m)) (num.Bit1 (num.Bit0 n)) = num.Bit0 (num.Bit1 (nsum m n))"
  "nsum_inc (num.Bit0 (num.Bit0 m)) (num.Bit0 (num.Bit1 n)) = num.Bit1 (num.Bit1 (nsum m n))"
  "nsum_inc (num.Bit0 (num.Bit0 m)) (num.Bit1 (num.Bit1 n)) = num.Bit0 (num.Bit0 (nsum_inc m n))"
  "nsum_inc (num.Bit1 (num.Bit0 m)) (num.Bit0 (num.Bit0 n)) = num.Bit0 (num.Bit1 (nsum m n))"
  "nsum_inc (num.Bit1 (num.Bit0 m)) (num.Bit1 (num.Bit0 n)) = num.Bit1 (num.Bit1 (nsum m n))"
  "nsum_inc (num.Bit1 (num.Bit0 m)) (num.Bit0 (num.Bit1 n)) = num.Bit0 (num.Bit0 (nsum_inc m n))"
  "nsum_inc (num.Bit1 (num.Bit0 m)) (num.Bit1 (num.Bit1 n)) = num.Bit1 (num.Bit0 (nsum_inc m n))"
  "nsum_inc (num.Bit0 (num.Bit1 m)) (num.Bit0 (num.Bit0 n)) = num.Bit1 (num.Bit1 (nsum m n))"
  "nsum_inc (num.Bit0 (num.Bit1 m)) (num.Bit1 (num.Bit0 n)) = num.Bit0 (num.Bit0 (nsum_inc m n))"
  "nsum_inc (num.Bit0 (num.Bit1 m)) (num.Bit0 (num.Bit1 n)) = num.Bit1 (num.Bit0 (nsum_inc m n))"
  "nsum_inc (num.Bit0 (num.Bit1 m)) (num.Bit1 (num.Bit1 n)) = num.Bit0 (num.Bit1 (nsum_inc m n))"
  "nsum_inc (num.Bit1 (num.Bit1 m)) (num.Bit0 (num.Bit0 n)) = num.Bit0 (num.Bit0 (nsum_inc m n))"
  "nsum_inc (num.Bit1 (num.Bit1 m)) (num.Bit1 (num.Bit0 n)) = num.Bit1 (num.Bit0 (nsum_inc m n))"
  "nsum_inc (num.Bit1 (num.Bit1 m)) (num.Bit0 (num.Bit1 n)) = num.Bit0 (num.Bit1 (nsum_inc m n))"
  "nsum_inc (num.Bit1 (num.Bit1 m)) (num.Bit1 (num.Bit1 n)) = num.Bit1 (num.Bit1 (nsum_inc m n))"
  "nsum_inc (num.Bit0 num.One) (num.Bit0 n) = num.Bit1 (nsum num.One n)"
  "nsum_inc (num.Bit0 n) (num.Bit0 num.One) = num.Bit1 (nsum n num.One)"
  "nsum_inc (num.Bit0 num.One) (num.Bit1 n) = num.Bit0 (nsum_inc num.One n)"
  "nsum_inc (num.Bit1 n) (num.Bit0 num.One) = num.Bit0 (nsum_inc n num.One)"
  "nsum_inc (num.Bit1 num.One) (num.Bit0 n) = num.Bit0 (nsum_inc num.One n)"
  "nsum_inc (num.Bit0 n) (num.Bit1 num.One) = num.Bit0 (nsum_inc n num.One)"
  "nsum_inc (num.Bit1 num.One) (num.Bit1 n) = num.Bit1 (nsum_inc num.One n)"
  "nsum_inc (num.Bit1 n) (num.Bit1 num.One) = num.Bit1 (nsum_inc n num.One)" "nsum_inc num.One n = Num.inc (Num.inc n)"
  "nsum_inc n num.One = Num.inc (Num.inc n)"
  by (simp_all add: nsum_def nsum_inc_def num_eq_iff nat_of_num_add nat_of_num_inc)

lemma num_hi_lo_4:
  "num_hi (num.Bit0 (num.Bit0 (num.Bit0 (num.Bit0 m)))) (num.Bit0 (num.Bit0 (num.Bit0 (num.Bit0 x)))) = num_hi m x"
  "num_hi (num.Bit0 (num.Bit0 (num.Bit0 (num.Bit0 m)))) (num.Bit1 (num.Bit0 (num.Bit0 (num.Bit0 x)))) = num_hi m x"
  "num_hi (num.Bit0 (num.Bit0 (num.Bit0 (num.Bit0 m)))) (num.Bit0 (num.Bit1 (num.Bit0 (num.Bit0 x)))) = num_hi m x"
  "num_hi (num.Bit0 (num.Bit0 (num.Bit0 (num.Bit0 m)))) (num.Bit1 (num.Bit1 (num.Bit0 (num.Bit0 x)))) = num_hi m x"
  "num_hi (num.Bit0 (num.Bit0 (num.Bit0 (num.Bit0 m)))) (num.Bit0 (num.Bit0 (num.Bit1 (num.Bit0 x)))) = num_hi m x"
  "num_hi (num.Bit0 (num.Bit0 (num.Bit0 (num.Bit0 m)))) (num.Bit1 (num.Bit0 (num.Bit1 (num.Bit0 x)))) = num_hi m x"
  "num_hi (num.Bit0 (num.Bit0 (num.Bit0 (num.Bit0 m)))) (num.Bit0 (num.Bit1 (num.Bit1 (num.Bit0 x)))) = num_hi m x"
  "num_hi (num.Bit0 (num.Bit0 (num.Bit0 (num.Bit0 m)))) (num.Bit1 (num.Bit1 (num.Bit1 (num.Bit0 x)))) = num_hi m x"
  "num_hi (num.Bit0 (num.Bit0 (num.Bit0 (num.Bit0 m)))) (num.Bit0 (num.Bit0 (num.Bit0 (num.Bit1 x)))) = num_hi m x"
  "num_hi (num.Bit0 (num.Bit0 (num.Bit0 (num.Bit0 m)))) (num.Bit1 (num.Bit0 (num.Bit0 (num.Bit1 x)))) = num_hi m x"
  "num_hi (num.Bit0 (num.Bit0 (num.Bit0 (num.Bit0 m)))) (num.Bit0 (num.Bit1 (num.Bit0 (num.Bit1 x)))) = num_hi m x"
  "num_hi (num.Bit0 (num.Bit0 (num.Bit0 (num.Bit0 m)))) (num.Bit1 (num.Bit1 (num.Bit0 (num.Bit1 x)))) = num_hi m x"
  "num_hi (num.Bit0 (num.Bit0 (num.Bit0 (num.Bit0 m)))) (num.Bit0 (num.Bit0 (num.Bit1 (num.Bit1 x)))) = num_hi m x"
  "num_hi (num.Bit0 (num.Bit0 (num.Bit0 (num.Bit0 m)))) (num.Bit1 (num.Bit0 (num.Bit1 (num.Bit1 x)))) = num_hi m x"
  "num_hi (num.Bit0 (num.Bit0 (num.Bit0 (num.Bit0 m)))) (num.Bit0 (num.Bit1 (num.Bit1 (num.Bit1 x)))) = num_hi m x"
  "num_hi (num.Bit0 (num.Bit0 (num.Bit0 (num.Bit0 m)))) (num.Bit1 (num.Bit1 (num.Bit1 (num.Bit1 x)))) = num_hi m x"
  "num_lo (num.Bit0 (num.Bit0 (num.Bit0 (num.Bit0 m)))) (num.Bit0 (num.Bit0 (num.Bit0 (num.Bit0 x)))) = onum0 (onum0 (onum0 (onum0 (num_lo m x))))"
  "num_lo (num.Bit0 (num.Bit0 (num.Bit0 (num.Bit0 m)))) (num.Bit1 (num.Bit0 (num.Bit0 (num.Bit0 x)))) = onum1 (onum0 (onum0 (onum0 (num_lo m x))))"
  "num_lo (num.Bit0 (num.Bit0 (num.Bit0 (num.Bit0 m)))) (num.Bit0 (num.Bit1 (num.Bit0 (num.Bit0 x)))) = onum0 (onum1 (onum0 (onum0 (num_lo m x))))"
  "num_lo (num.Bit0 (num.Bit0 (num.Bit0 (num.Bit0 m)))) (num.Bit1 (num.Bit1 (num.Bit0 (num.Bit0 x)))) = onum1 (onum1 (onum0 (onum0 (num_lo m x))))"
  "num_lo (num.Bit0 (num.Bit0 (num.Bit0 (num.Bit0 m)))) (num.Bit0 (num.Bit0 (num.Bit1 (num.Bit0 x)))) = onum0 (onum0 (onum1 (onum0 (num_lo m x))))"
  "num_lo (num.Bit0 (num.Bit0 (num.Bit0 (num.Bit0 m)))) (num.Bit1 (num.Bit0 (num.Bit1 (num.Bit0 x)))) = onum1 (onum0 (onum1 (onum0 (num_lo m x))))"
  "num_lo (num.Bit0 (num.Bit0 (num.Bit0 (num.Bit0 m)))) (num.Bit0 (num.Bit1 (num.Bit1 (num.Bit0 x)))) = onum0 (onum1 (onum1 (onum0 (num_lo m x))))"
  "num_lo (num.Bit0 (num.Bit0 (num.Bit0 (num.Bit0 m)))) (num.Bit1 (num.Bit1 (num.Bit1 (num.Bit0 x)))) = onum1 (onum1 (onum1 (onum0 (num_lo m x))))"
  "num_lo (num.Bit0 (num.Bit0 (num.Bit0 (num.Bit0 m)))) (num.Bit0 (num.Bit0 (num.Bit0 (num.Bit1 x)))) = onum0 (onum0 (onum0 (onum1 (num_lo m x))))"
  "num_lo (num.Bit0 (num.Bit0 (num.Bit0 (num.Bit0 m)))) (num.Bit1 (num.Bit0 (num.Bit0 (num.Bit1 x)))) = onum1 (onum0 (onum0 (onum1 (num_lo m x))))"
  "num_lo (num.Bit0 (num.Bit0 (num.Bit0 (num.Bit0 m)))) (num.Bit0 (num.Bit1 (num.Bit0 (num.Bit1 x)))) = onum0 (onum1 (onum0 (onum1 (num_lo m x))))"
  "num_lo (num.Bit0 (num.Bit0 (num.Bit0 (num.Bit0 m)))) (num.Bit1 (num.Bit1 (num.Bit0 (num.Bit1 x)))) = onum1 (onum1 (onum0 (onum1 (num_lo m x))))"
  "num_lo (num.Bit0 (num.Bit0 (num.Bit0 (num.Bit0 m)))) (num.Bit0 (num.Bit0 (num.Bit1 (num.Bit1 x)))) = onum0 (onum0 (onum1 (onum1 (num_lo m x))))"
  "num_lo (num.Bit0 (num.Bit0 (num.Bit0 (num.Bit0 m)))) (num.Bit1 (num.Bit0 (num.Bit1 (num.Bit1 x)))) = onum1 (onum0 (onum1 (onum1 (num_lo m x))))"
  "num_lo (num.Bit0 (num.Bit0 (num.Bit0 (num.Bit0 m)))) (num.Bit0 (num.Bit1 (num.Bit1 (num.Bit1 x)))) = onum0 (onum1 (onum1 (onum1 (num_lo m x))))"
  "num_lo (num.Bit0 (num.Bit0 (num.Bit0 (num.Bit0 m)))) (num.Bit1 (num.Bit1 (num.Bit1 (num.Bit1 x)))) = onum1 (onum1 (onum1 (onum1 (num_lo m x))))"
  by simp_all

lemma num_hi_lo_short:
  "num_hi num.One x = Some x" "num_lo num.One x = None" "num_hi (num.Bit0 num.One) (num.Bit0 x) = Some x"
  "num_lo (num.Bit0 num.One) (num.Bit0 x) = onum0 None" "num_hi (num.Bit0 num.One) (num.Bit1 x) = Some x"
  "num_lo (num.Bit0 num.One) (num.Bit1 x) = onum1 None" "num_hi (num.Bit0 (num.Bit0 num.One)) (num.Bit0 (num.Bit0 x)) = Some x"
  "num_lo (num.Bit0 (num.Bit0 num.One)) (num.Bit0 (num.Bit0 x)) = onum0 (onum0 None)"
  "num_hi (num.Bit0 (num.Bit0 num.One)) (num.Bit1 (num.Bit0 x)) = Some x"
  "num_lo (num.Bit0 (num.Bit0 num.One)) (num.Bit1 (num.Bit0 x)) = onum1 (onum0 None)"
  "num_hi (num.Bit0 (num.Bit0 num.One)) (num.Bit0 (num.Bit1 x)) = Some x"
  "num_lo (num.Bit0 (num.Bit0 num.One)) (num.Bit0 (num.Bit1 x)) = onum0 (onum1 None)"
  "num_hi (num.Bit0 (num.Bit0 num.One)) (num.Bit1 (num.Bit1 x)) = Some x"
  "num_lo (num.Bit0 (num.Bit0 num.One)) (num.Bit1 (num.Bit1 x)) = onum1 (onum1 None)"
  "num_hi (num.Bit0 (num.Bit0 (num.Bit0 num.One))) (num.Bit0 (num.Bit0 (num.Bit0 x))) = Some x"
  "num_lo (num.Bit0 (num.Bit0 (num.Bit0 num.One))) (num.Bit0 (num.Bit0 (num.Bit0 x))) = onum0 (onum0 (onum0 None))"
  "num_hi (num.Bit0 (num.Bit0 (num.Bit0 num.One))) (num.Bit1 (num.Bit0 (num.Bit0 x))) = Some x"
  "num_lo (num.Bit0 (num.Bit0 (num.Bit0 num.One))) (num.Bit1 (num.Bit0 (num.Bit0 x))) = onum1 (onum0 (onum0 None))"
  "num_hi (num.Bit0 (num.Bit0 (num.Bit0 num.One))) (num.Bit0 (num.Bit1 (num.Bit0 x))) = Some x"
  "num_lo (num.Bit0 (num.Bit0 (num.Bit0 num.One))) (num.Bit0 (num.Bit1 (num.Bit0 x))) = onum0 (onum1 (onum0 None))"
  "num_hi (num.Bit0 (num.Bit0 (num.Bit0 num.One))) (num.Bit1 (num.Bit1 (num.Bit0 x))) = Some x"
  "num_lo (num.Bit0 (num.Bit0 (num.Bit0 num.One))) (num.Bit1 (num.Bit1 (num.Bit0 x))) = onum1 (onum1 (onum0 None))"
  "num_hi (num.Bit0 (num.Bit0 (num.Bit0 num.One))) (num.Bit0 (num.Bit0 (num.Bit1 x))) = Some x"
  "num_lo (num.Bit0 (num.Bit0 (num.Bit0 num.One))) (num.Bit0 (num.Bit0 (num.Bit1 x))) = onum0 (onum0 (onum1 None))"
  "num_hi (num.Bit0 (num.Bit0 (num.Bit0 num.One))) (num.Bit1 (num.Bit0 (num.Bit1 x))) = Some x"
  "num_lo (num.Bit0 (num.Bit0 (num.Bit0 num.One))) (num.Bit1 (num.Bit0 (num.Bit1 x))) = onum1 (onum0 (onum1 None))"
  "num_hi (num.Bit0 (num.Bit0 (num.Bit0 num.One))) (num.Bit0 (num.Bit1 (num.Bit1 x))) = Some x"
  "num_lo (num.Bit0 (num.Bit0 (num.Bit0 num.One))) (num.Bit0 (num.Bit1 (num.Bit1 x))) = onum0 (onum1 (onum1 None))"
  "num_hi (num.Bit0 (num.Bit0 (num.Bit0 num.One))) (num.Bit1 (num.Bit1 (num.Bit1 x))) = Some x"
  "num_lo (num.Bit0 (num.Bit0 (num.Bit0 num.One))) (num.Bit1 (num.Bit1 (num.Bit1 x))) = onum1 (onum1 (onum1 None))"
  "num_hi (num.Bit0 m) num.One = None" "num_lo (num.Bit0 m) num.One = Some num.One"
  "num_hi (num.Bit0 (num.Bit0 m)) (num.Bit0 num.One) = None"
  "num_lo (num.Bit0 (num.Bit0 m)) (num.Bit0 num.One) = Some (num.Bit0 num.One)"
  "num_hi (num.Bit0 (num.Bit0 m)) (num.Bit1 num.One) = None"
  "num_lo (num.Bit0 (num.Bit0 m)) (num.Bit1 num.One) = Some (num.Bit1 num.One)"
  "num_hi (num.Bit0 (num.Bit0 (num.Bit0 m))) (num.Bit0 (num.Bit0 num.One)) = None"
  "num_lo (num.Bit0 (num.Bit0 (num.Bit0 m))) (num.Bit0 (num.Bit0 num.One)) = Some (num.Bit0 (num.Bit0 num.One))"
  "num_hi (num.Bit0 (num.Bit0 (num.Bit0 m))) (num.Bit1 (num.Bit0 num.One)) = None"
  "num_lo (num.Bit0 (num.Bit0 (num.Bit0 m))) (num.Bit1 (num.Bit0 num.One)) = Some (num.Bit1 (num.Bit0 num.One))"
  "num_hi (num.Bit0 (num.Bit0 (num.Bit0 m))) (num.Bit0 (num.Bit1 num.One)) = None"
  "num_lo (num.Bit0 (num.Bit0 (num.Bit0 m))) (num.Bit0 (num.Bit1 num.One)) = Some (num.Bit0 (num.Bit1 num.One))"
  "num_hi (num.Bit0 (num.Bit0 (num.Bit0 m))) (num.Bit1 (num.Bit1 num.One)) = None"
  "num_lo (num.Bit0 (num.Bit0 (num.Bit0 m))) (num.Bit1 (num.Bit1 num.One)) = Some (num.Bit1 (num.Bit1 num.One))"
  "num_hi (num.Bit0 (num.Bit0 (num.Bit0 (num.Bit0 m)))) (num.Bit0 (num.Bit0 (num.Bit0 num.One))) = None"
  "num_lo (num.Bit0 (num.Bit0 (num.Bit0 (num.Bit0 m)))) (num.Bit0 (num.Bit0 (num.Bit0 num.One))) = Some (num.Bit0 (num.Bit0 (num.Bit0 num.One)))"
  "num_hi (num.Bit0 (num.Bit0 (num.Bit0 (num.Bit0 m)))) (num.Bit1 (num.Bit0 (num.Bit0 num.One))) = None"
  "num_lo (num.Bit0 (num.Bit0 (num.Bit0 (num.Bit0 m)))) (num.Bit1 (num.Bit0 (num.Bit0 num.One))) = Some (num.Bit1 (num.Bit0 (num.Bit0 num.One)))"
  "num_hi (num.Bit0 (num.Bit0 (num.Bit0 (num.Bit0 m)))) (num.Bit0 (num.Bit1 (num.Bit0 num.One))) = None"
  "num_lo (num.Bit0 (num.Bit0 (num.Bit0 (num.Bit0 m)))) (num.Bit0 (num.Bit1 (num.Bit0 num.One))) = Some (num.Bit0 (num.Bit1 (num.Bit0 num.One)))"
  "num_hi (num.Bit0 (num.Bit0 (num.Bit0 (num.Bit0 m)))) (num.Bit1 (num.Bit1 (num.Bit0 num.One))) = None"
  "num_lo (num.Bit0 (num.Bit0 (num.Bit0 (num.Bit0 m)))) (num.Bit1 (num.Bit1 (num.Bit0 num.One))) = Some (num.Bit1 (num.Bit1 (num.Bit0 num.One)))"
  "num_hi (num.Bit0 (num.Bit0 (num.Bit0 (num.Bit0 m)))) (num.Bit0 (num.Bit0 (num.Bit1 num.One))) = None"
  "num_lo (num.Bit0 (num.Bit0 (num.Bit0 (num.Bit0 m)))) (num.Bit0 (num.Bit0 (num.Bit1 num.One))) = Some (num.Bit0 (num.Bit0 (num.Bit1 num.One)))"
  "num_hi (num.Bit0 (num.Bit0 (num.Bit0 (num.Bit0 m)))) (num.Bit1 (num.Bit0 (num.Bit1 num.One))) = None"
  "num_lo (num.Bit0 (num.Bit0 (num.Bit0 (num.Bit0 m)))) (num.Bit1 (num.Bit0 (num.Bit1 num.One))) = Some (num.Bit1 (num.Bit0 (num.Bit1 num.One)))"
  "num_hi (num.Bit0 (num.Bit0 (num.Bit0 (num.Bit0 m)))) (num.Bit0 (num.Bit1 (num.Bit1 num.One))) = None"
  "num_lo (num.Bit0 (num.Bit0 (num.Bit0 (num.Bit0 m)))) (num.Bit0 (num.Bit1 (num.Bit1 num.One))) = Some (num.Bit0 (num.Bit1 (num.Bit1 num.One)))"
  "num_hi (num.Bit0 (num.Bit0 (num.Bit0 (num.Bit0 m)))) (num.Bit1 (num.Bit1 (num.Bit1 num.One))) = None"
  "num_lo (num.Bit0 (num.Bit0 (num.Bit0 (num.Bit0 m)))) (num.Bit1 (num.Bit1 (num.Bit1 num.One))) = Some (num.Bit1 (num.Bit1 (num.Bit1 num.One)))"
  by (simp_all add: onum0_def onum1_def)

lemma nprod_simps:
  "nprod num.One n = n" "nprod (num.Bit0 m) n = num.Bit0 (nprod m n)" "nprod (num.Bit1 m) n = nsum n (num.Bit0 (nprod m n))"
proof -
  have "numeral (num.Bit0 m * n) = (numeral (num.Bit0 (m * n)) :: int)"
    "numeral (num.Bit1 m * n) = (numeral (n + num.Bit0 (m * n)) :: int)"
    by (simp_all add: numeral_mult numeral_add numeral_Bit0 [of m] numeral_Bit0 [of "m * n"] numeral_Bit1 algebra_simps
        del: semiring_norm)
  then show "nprod num.One n = n" "nprod (num.Bit0 m) n = num.Bit0 (nprod m n)" "nprod (num.Bit1 m) n = nsum n (num.Bit0 (nprod m n))"
    by (simp_all only: nprod_def nsum_def numeral_eq_iff) simp
qed

lemma sqr_simps:
  "Num.sqr num.One = num.One" "Num.sqr (num.Bit0 n) = num.Bit0 (num.Bit0 (Num.sqr n))"
  "Num.sqr (num.Bit1 n) = num.Bit1 (num.Bit0 (nsum n (Num.sqr n)))"
proof -
  have "numeral (Num.sqr n + n) = (numeral (n + Num.sqr n) :: int)" by (simp only: numeral_add add.commute)
  then show "Num.sqr (num.Bit1 n) = num.Bit1 (num.Bit0 (nsum n (Num.sqr n)))" by (simp add: nsum_def numeral_eq_iff)
qed simp_all

lemma onum_simps:
  "onum0 None = None" "onum0 (Some n) = Some (num.Bit0 n)" "onum1 None = Some num.One" "onum1 (Some n) = Some (num.Bit1 n)"
  by (simp_all add: onum0_def onum1_def)

lemmas pow_eval = pow_from.simps fold_red.simps split_red.simps osum.simps oprod.simps oscale.simps osqr.simps num_hi_lo_4 num_hi_lo_short
  onum_simps nsum_simps nsum_inc_simps nprod_simps sqr_simps Num.inc.simps

lemma numeral_bits:
  "numeral (num.Bit0 n) = 2 * (numeral n :: int)" "numeral (num.Bit1 n) = 1 + 2 * (numeral n :: int)"
  unfolding mult_2 numeral_Bit1 [of n] by (rule numeral_Bit0, rule add.commute)

lemma oval_shift: "oval (onum0 x) = 2 * oval x" "oval (onum1 x) = 1 + 2 * oval x"
proof -
  show "oval (onum0 x) = 2 * oval x"
    by (cases x) (simp_all only: onum_simps oval.simps mult_zero_right, rule numeral_bits)
  show "oval (onum1 x) = 1 + 2 * oval x"
    by (cases x) (simp_all only: onum_simps oval.simps numeral_One mult_zero_right add_0_right, rule numeral_bits)
qed

lemma oval_arith:
  "oval (osum x y) = oval x + oval y" "oval (oprod x n) = oval x * numeral n" "oval (osqr x) = oval x * oval x"
  "oval (oscale b x) = numeral b * oval x"
proof -
  show "oval (osum x y) = oval x + oval y"
    by (cases x; cases y) (simp_all only: osum.simps oval.simps nsum_def numeral_add add_0_right add_0_left)
  show "oval (oprod x n) = oval x * numeral n"
    by (cases x) (simp_all only: oprod.simps oval.simps nprod_def numeral_mult mult_zero_left mult.commute)
  show "oval (osqr x) = oval x * oval x"
    by (cases x) (simp_all only: osqr.simps oval.simps numeral_mult mult_zero_left Num.sqr_conv_mult)
  show "oval (oscale b x) = numeral b * oval x"
    by (cases x) (simp_all only: oscale.simps oval.simps nprod_def numeral_mult mult_zero_right)
qed

lemmas oval_simps = oval_shift oval_arith

lemma hi_lo: "pow2_num m \<Longrightarrow> numeral x = oval (num_hi m x) * numeral m + oval (num_lo m x)"
proof (induction m x rule: num_hi.induct)
  case (1 m x)
  then show ?case
    by (simp only: num_hi.simps num_lo.simps oval_simps numeral_Bit0 [of m] numeral_Bit0 [of x] pow2_num.simps)
      (simp only: algebra_simps mult_2)
next
  case (2 m x)
  then show ?case
    by (simp only: num_hi.simps num_lo.simps oval_simps numeral_Bit0 [of m] numeral_Bit1 [of x] pow2_num.simps)
      (simp only: algebra_simps mult_2)
qed simp_all

lemma red_mod:
  assumes "\<forall>(m, c) \<in> set fs. pow2_num m \<and> numeral m mod N = numeral c mod N"
  shows "oval (fold_red fs x) mod N = oval x mod N"
  using assms
proof (induction fs x rule: fold_red.induct)
  case (2 m c fs x)
  have "oval (split_red m c x) mod N = oval x mod N"
  proof (cases x)
    case (Some n)
    have "oval (num_hi m n) * numeral c mod N = oval (num_hi m n) * numeral m mod N"
      using 2(2) by (intro mod_mult_cong) simp_all
    then show ?thesis
      using 2(2) Some hi_lo [of m n] by (simp add: oval_simps) (metis mod_add_left_eq)
  qed simp
  then show ?case using 2 by simp
qed simp

lemma pow_from_mod:
  assumes fs: "\<forall>(m, c) \<in> set fs. pow2_num m \<and> numeral m mod N = numeral c mod N"
    and y: "numeral b ^ numeral k mod N = oval y mod N"
  shows "\<exists>j. numeral b ^ j mod N = oval (pow_from b fs y e) mod N \<and> j + numeral (num_lead e) = numeral k * numeral (num_lead e) + numeral e"
proof (induction e)
  case One
  then show ?case using y by (intro exI [of _ "numeral k"]) simp
next
  case (Bit0 e)
  then obtain j where j: "numeral b ^ j mod N = oval (pow_from b fs y e) mod N"
    "j + numeral (num_lead e) = numeral k * numeral (num_lead e) + numeral e" by blast
  have "(numeral b :: int) ^ (j + j) mod N = oval (pow_from b fs y e) * oval (pow_from b fs y e) mod N"
    unfolding power_add using j(1) by (intro mod_mult_cong)
  moreover have "(j + j) + numeral (num_lead (num.Bit0 e)) = numeral k * numeral (num_lead (num.Bit0 e)) + numeral (num.Bit0 e)"
    using j(2) unfolding num_lead.simps numeral_Bit0 distrib_left by linarith
  ultimately show ?case
    using red_mod [OF fs, of "osqr (pow_from b fs y e)"] by (intro exI [of _ "j + j"]) (simp add: oval_simps)
next
  case (Bit1 e)
  then obtain j where j: "numeral b ^ j mod N = oval (pow_from b fs y e) mod N"
    "j + numeral (num_lead e) = numeral k * numeral (num_lead e) + numeral e" by blast
  have "(numeral b :: int) ^ (j + j) mod N = oval (pow_from b fs y e) * oval (pow_from b fs y e) mod N"
    unfolding power_add using j(1) by (intro mod_mult_cong)
  also have "\<dots> = oval (fold_red fs (osqr (pow_from b fs y e))) mod N"
    using red_mod [OF fs, of "osqr (pow_from b fs y e)"] by (simp add: oval_simps)
  finally have "numeral b * numeral b ^ (j + j) mod N = numeral b * oval (fold_red fs (osqr (pow_from b fs y e))) mod N"
    by (intro mod_mult_cong refl)
  moreover have "Suc (j + j) + numeral (num_lead (num.Bit1 e)) = numeral k * numeral (num_lead (num.Bit1 e)) + numeral (num.Bit1 e)"
    using j(2) unfolding num_lead.simps numeral_Bit0 numeral_Bit1 distrib_left by linarith
  ultimately show ?case
    by (intro exI [of _ "Suc (j + j)"]) (simp add: oval_simps)
qed

lemma power_step:
  assumes "power_is b N k y" and "good_folds N fds" and "pow_from b (folds fds) (Some y) e = Some z"
    and "l + num_lead e = k * num_lead e + e"
  shows "power_is b N l z"
proof -
  have "numeral m mod N = numeral c mod N" if "(m, c, d) \<in> set fds" for m c d
  proof -
    have "numeral m = d * N + numeral c" using assms(2) that by (auto simp: good_folds_def)
    then show ?thesis by (simp only: mod_mult_self3)
  qed
  then have fs: "\<forall>(m, c) \<in> set (folds fds). pow2_num m \<and> numeral m mod N = numeral c mod N"
    using assms(2) by (auto simp: good_folds_def)
  obtain j where j: "numeral b ^ j mod N = numeral z mod N"
    "j + numeral (num_lead e) = numeral k * numeral (num_lead e) + numeral e"
    using pow_from_mod [OF fs, where b = b and k = k and y = "Some y" and e = e] assms(1,3) by (auto simp: power_is_def)
  have "(numeral (l + num_lead e) :: nat) = numeral (k * num_lead e + e)" using assms(4) by simp
  then have "j = numeral l" using j(2) by (simp only: numeral_add numeral_mult)
  then show ?thesis using j(1) by (simp add: power_is_def)
qed

lemma power_start: "power_is b N num.One b"
  by (simp add: power_is_def)

theorem pocklington_two:
  assumes e: "N = numeral e + 1" "two_to N e z" "numeral z = w * N + 1"
    and cs: "\<forall>(q, k, y, u, v) \<in> set cs. prime_int q \<and> numeral k * q = N - 1 \<and>
      two_to N k y \<and> (numeral y - 1) * u = v * N + 1"
    and F: "distinct (map fst cs)" "F = prod_list (map fst cs)" "1 < F"
      "N - 1 = (s * F + t) * F" "0 \<le> t" "t < F" "s + 1 < t"
  shows "prime_int N"
proof (rule pocklington [of N 2 "map (\<lambda>(q, k, y, u, v). (q, numeral k, u)) cs" F s t])
  have "0 < (numeral e :: int)" by simp
  then show N: "1 < N" using e(1) by linarith
  have "N - 1 = numeral e" using e(1) by linarith
  then have "nat (N - 1) = numeral e" by (simp only: nat_numeral)
  then show "2 ^ nat (N - 1) mod N = 1" using e(2,3) N by (simp add: power_is_def)
  have fst: "map fst (map (\<lambda>(q, k, y, u, v). (q, numeral k :: nat, u)) cs) = map fst cs"
    by (auto simp: case_prod_beta)
  show "distinct (map fst (map (\<lambda>(q, k, y, u, v). (q, numeral k :: nat, u)) cs))"
    "F = prod_list (map fst (map (\<lambda>(q, k, y, u, v). (q, numeral k :: nat, u)) cs))"
    unfolding fst by (rule F)+
  have "(2 ^ numeral k - 1) * u mod N = 1" if "two_to N k y" "(numeral y - 1) * u = v * N + 1" for k y u v
  proof -
    have "(2 ^ numeral k - 1) * u mod N = (numeral y - 1) * u mod N"
      using that(1) unfolding power_is_def by (intro mod_mult_cong mod_diff_cong) simp_all
    then show ?thesis using that(2) N by simp
  qed
  then show "\<forall>(q, m, u) \<in> set (map (\<lambda>(q, k, y, u, v). (q, numeral k, u)) cs).
      prime_int q \<and> int m * q = N - 1 \<and> (2 ^ m - 1) * u mod N = 1"
    using cs by fastforce
qed (rule F)+

lemmas cert_simps = num_of_nat_numeral_eq list.map prod.case

lemmas num_simps = num_of_nat_numeral_eq num_lead.simps mult_num_simps add_num_simps
subsection \<open>Certificates\<close>

lemma prime_419: "prime_int 419"
  by (rule prime_int_trial [of _ 21]) simp_all

definition folds_20113 :: "(num \<times> num \<times> int) list" where
  "folds_20113 =
   [(num_of_nat 0x1000000, num_of_nat 2974, 834),
    (num_of_nat 262144, num_of_nat 675, 13)]"

lemma folds_20113: "good_folds 20113 folds_20113"
  by (simp add: good_folds_def folds_20113_def num_of_nat_numeral_eq)

lemma two_20113_f: "two_to 20113 (num_of_nat 20112)
    (num_of_nat 321809)"
  by (rule power_step [where e = "num_of_nat 20112", OF power_start folds_20113])
    (simp_all only: folds_20113_def pow_eval cert_simps num_simps)

lemma two_20113_c0: "two_to 20113 (num_of_nat 48)
    (num_of_nat 216199)"
  by (rule power_step [where e = "num_of_nat 48", OF power_start folds_20113])
    (simp_all only: folds_20113_def pow_eval cert_simps num_simps)

lemma prime_20113: "prime_int 20113"
  by (rule pocklington_two [of _ "num_of_nat 20112" "num_of_nat 321809" 16 "[(419, num_of_nat 48, num_of_nat 216199, 17111, 183929)]"
    "419" "0" "48"])
    (simp_all add: two_20113_f [simplified] two_20113_c0 [simplified] prime_419)

definition folds_1206781 :: "(num \<times> num \<times> int) list" where
  "folds_1206781 =
   [(num_of_nat 0x1000000000, num_of_nat 539472, 56944),
    (num_of_nat 0x40000000, num_of_nat 913515, 889),
    (num_of_nat 0x1000000, num_of_nat 1089063, 13)]"

lemma folds_1206781: "good_folds 1206781 folds_1206781"
  by (simp add: good_folds_def folds_1206781_def num_of_nat_numeral_eq)

lemma two_1206781_f: "two_to 1206781 (num_of_nat 1206780)
    (num_of_nat 0x101cbd7)"
  by (rule power_step [where e = "num_of_nat 1206780", OF power_start folds_1206781])
    (simp_all only: folds_1206781_def pow_eval cert_simps num_simps)

lemma two_1206781_c0: "two_to 1206781 (num_of_nat 60)
    (num_of_nat 0x15f1037)"
  by (rule power_step [where e = "num_of_nat 60", OF power_start folds_1206781])
    (simp_all only: folds_1206781_def pow_eval cert_simps num_simps)

lemma prime_1206781: "prime_int 1206781"
  by (rule pocklington_two [of _ "num_of_nat 1206780" "num_of_nat 0x101cbd7" 14 "[(20113, num_of_nat 60, num_of_nat 0x15f1037, 709359, 0xce5bdd)]"
    "20113" "0" "60"])
    (simp_all add: two_1206781_f [simplified] two_1206781_c0 [simplified] prime_20113)

definition folds_7240687 :: "(num \<times> num \<times> int) list" where
  "folds_7240687 =
   [(num_of_nat 0x10000000000, num_of_nat 6066139, 151851),
    (num_of_nat 0x400000000, num_of_nat 4959620, 2372),
    (num_of_nat 0x10000000, num_of_nat 530037, 37),
    (num_of_nat 0x2000000, num_of_nat 4591684, 4)]"

lemma folds_7240687: "good_folds 7240687 folds_7240687"
  by (simp add: good_folds_def folds_7240687_def num_of_nat_numeral_eq)

lemma two_7240687_f: "two_to 7240687 (num_of_nat 7240686)
    (num_of_nat 0x305638a)"
  by (rule power_step [where e = "num_of_nat 7240686", OF power_start folds_7240687])
    (simp_all only: folds_7240687_def pow_eval cert_simps num_simps)

lemma two_7240687_c0: "two_to 7240687 (num_of_nat 6)
    (num_of_nat 64)"
  by (rule power_step [where e = "num_of_nat 6", OF power_start folds_7240687])
    (simp_all only: folds_7240687_def pow_eval cert_simps num_simps)

lemma prime_7240687: "prime_int 7240687"
  by (rule pocklington_two [of _ "num_of_nat 7240686" "num_of_nat 0x305638a" 7 "[(1206781, num_of_nat 6, num_of_nat 64, 5746577, 50)]"
    "1206781" "0" "6"])
    (simp_all add: two_7240687_f [simplified] two_7240687_c0 [simplified] prime_1206781)

lemma prime_29: "prime_int 29"
  by (rule prime_int_trial [of _ 6]) simp_all

lemma prime_53: "prime_int 53"
  by (rule prime_int_trial [of _ 8]) simp_all

definition folds_107590001 :: "(num \<times> num \<times> int) list" where
  "folds_107590001 =
   [(num_of_nat 0x1000000000000, num_of_nat 0x3982c5b, 2616181),
    (num_of_nat 0x40000000000, num_of_nat 0x55de7a3, 40877),
    (num_of_nat 0x1000000000, num_of_nat 0x497c862, 638),
    (num_of_nat 0x40000000, num_of_nat 0x648c307, 9)]"

lemma folds_107590001: "good_folds 0x669b171 folds_107590001"
  by (simp add: good_folds_def folds_107590001_def num_of_nat_numeral_eq)

lemma two_107590001_f: "two_to 0x669b171 (num_of_nat 0x669b170)
    (num_of_nat 0xb38f685d)"
  by (rule power_step [where e = "num_of_nat 0x669b170", OF power_start folds_107590001])
    (simp_all only: folds_107590001_def pow_eval cert_simps num_simps)

lemma two_107590001_c0: "two_to 0x669b171 (num_of_nat 3710000)
    (num_of_nat 0x117d20361)"
  by (rule power_step [where e = "num_of_nat 3710000", OF power_start folds_107590001])
    (simp_all only: folds_107590001_def pow_eval cert_simps num_simps)

lemma two_107590001_c1: "two_to 0x669b171 (num_of_nat 2030000)
    (num_of_nat 0x11bc4e68f)"
  by (rule power_step [where e = "num_of_nat 2030000", OF power_start folds_107590001])
    (simp_all only: folds_107590001_def pow_eval cert_simps num_simps)

lemma prime_107590001: "prime_int 0x669b171"
  by (rule pocklington_two [of _ "num_of_nat 0x669b170" "num_of_nat 0xb38f685d" 28 "[(29, num_of_nat 3710000, num_of_nat 0x117d20361, 0x5f72de4, 0x1044d49ef),
    (53, num_of_nat 2030000, num_of_nat 0x11bc4e68f, 0x48349cb, 0xc7b17da9)]"
    "1537" "45" "835"])
    (simp_all add: two_107590001_f [simplified] two_107590001_c0 [simplified] two_107590001_c1 [simplified] prime_29 prime_53)

definition folds_q128 :: "(num \<times> num \<times> int) list" where
  "folds_q128 =
   [(num_of_nat 0x1000000000000000000000000000000000000000000000000000000000000, num_of_nat 0x4cc765e46d22b8b33c4d1597c796a37, 0x154ed5045f36321813d3723e44e61),
    (num_of_nat 0x100000000000000000000000000000000000000000000000000000000, num_of_nat 0x3adab44d4ab0b9d1c81d4101594e877c, 0x154ed5045f36321813d3723e4),
    (num_of_nat 0x10000000000000000000000000000000000000000000000000000, num_of_nat 0x1af3715b968a7f14e1914c72558dd471, 0x154ed5045f36321813d37),
    (num_of_nat 0x1000000000000000000000000000000000000000000000000, num_of_nat 0x2df75cf80044fb3d3bcc752caa16d217, 0x154ed5045f3632181),
    (num_of_nat 0x100000000000000000000000000000000000000000000, num_of_nat 0x192898a75865761499d30288190bdc65, 0x154ed5045f363),
    (num_of_nat 0x10000000000000000000000000000000000000000, num_of_nat 0xb6c20af5d8f2dd161f35bf853393e3b3, 0x154ed5045),
    (num_of_nat 0x1000000000000000000000000000000000000, num_of_nat 0x3c46d5040160eb4b3a1b5bfc2a947acb, 87277),
    (num_of_nat 0x400000000000000000000000000000000, num_of_nat 0x3edb1881dc80ab7fde2fc4004205cdf3, 5)]"

lemma folds_q128: "good_folds 0xc03a94b2d3e64419a05cd8ccbf987069 folds_q128"
  by (simp add: good_folds_def folds_q128_def num_of_nat_numeral_eq)

lemma two_q128_f_0: "two_to 0xc03a94b2d3e64419a05cd8ccbf987069 (num_of_nat 0x601d4a5969f3220cd02e6c665fcc)
    (num_of_nat 0x3f6bb84f39fa79ea492114c01d68e44f17d)"
  by (rule power_step [where e = "num_of_nat 0x601d4a5969f3220cd02e6c665fcc", OF power_start folds_q128])
    (simp_all only: folds_q128_def pow_eval cert_simps num_simps)

lemma two_q128_f: "two_to 0xc03a94b2d3e64419a05cd8ccbf987069 (num_of_nat 0xc03a94b2d3e64419a05cd8ccbf987068)
    (num_of_nat 0x5ecce3d531004f15a355c9eaf97ced6fc85)"
  by (rule power_step [where e = "num_of_nat 159848", OF two_q128_f_0 folds_q128])
    (simp_all only: folds_q128_def pow_eval cert_simps num_simps)

lemma two_q128_c0: "two_to 0xc03a94b2d3e64419a05cd8ccbf987069 (num_of_nat 0x1bd689d5519e4f1dc57ba264e18)
    (num_of_nat 0x5da5c33ad1fe585b167b7cbeda2d1cca757)"
  by (rule power_step [where e = "num_of_nat 0x1bd689d5519e4f1dc57ba264e18", OF power_start folds_q128])
    (simp_all only: folds_q128_def pow_eval cert_simps num_simps)

lemma two_q128_c1: "two_to 0xc03a94b2d3e64419a05cd8ccbf987069 (num_of_nat 0x1df9bab4430edf45ff20d8c2e8)
    (num_of_nat 0x9378cf71647686c46aab3c3af31594d6105)"
  by (rule power_step [where e = "num_of_nat 0x1df9bab4430edf45ff20d8c2e8", OF power_start folds_q128])
    (simp_all only: folds_q128_def pow_eval cert_simps num_simps)

lemma prime_q128: "prime_int 0xc03a94b2d3e64419a05cd8ccbf987069"
  by (rule pocklington_two [of _ "num_of_nat 0xc03a94b2d3e64419a05cd8ccbf987068" "num_of_nat 0x5ecce3d531004f15a355c9eaf97ced6fc85" 2020 "[(7240687, num_of_nat 0x1bd689d5519e4f1dc57ba264e18, num_of_nat 0x5da5c33ad1fe585b167b7cbeda2d1cca757, 0x84109eda3ae1d0866772b20b1456e44d, 0x4056703dc3dfa8470b5f8a92ee4797d8a55),
    (0x669b171, num_of_nat 0x1df9bab4430edf45ff20d8c2e8, num_of_nat 0x9378cf71647686c46aab3c3af31594d6105, 0xb0db0609faeea74532ac512da850b227, 0x87ad9314bc03d886a0726db02f23aaf7f63)]"
    "0x2c485037bf37f" "0x19186e77" "0xeb5624e3e18f"])
    (simp_all add: two_q128_f [simplified] two_q128_c0 [simplified] two_q128_c1 [simplified] prime_7240687 prime_107590001)

definition folds_q237 :: "(num \<times> num \<times> int) list" where
  "folds_q237 =
   [(num_of_nat 0x800000000000000000000000000000000000000000000000000000000000000000000000000000000000000000000000000000000000000, num_of_nat 0x800001e900000000000000000000000000000000000000000000000, 0x44e9500000000000000000000000000000000000000000000000),
    (num_of_nat 0x10000000000000000000000000000000000000000000000000000000000000000000000000000000000000000000000000000000, num_of_nat 0x1000003d2000000000000000000000000000000000000000, 0x89d2a000000000000000000000000000000000000000),
    (num_of_nat 0x200000000000000000000000000000000000000000000000000000000000000000000000000000000000000000000000, num_of_nat 0x2000007a40000000000000000000000000000000, 0x113a540000000000000000000000000000000),
    (num_of_nat 0x4000000000000000000000000000000000000000000000000000000000000000000000000000000000000000, num_of_nat 0x400000f4800000000000000000000000, 0x2274a800000000000000000000000),
    (num_of_nat 0x80000000000000000000000000000000000000000000000000000000000000000000000000000000, num_of_nat 0x800001e90000000000000000, 0x44e950000000000000000),
    (num_of_nat 0x1000000000000000000000000000000000000000000000000000000000000000000000000, num_of_nat 0x1000003d200000000, 0x89d2a00000000),
    (num_of_nat 0x20000000000000000000000000000000000000000000000000000000000000000, num_of_nat 0x2000007a4, 1129044),
    (num_of_nat 0x800000000000000000000000000000000000000000000000000000000000, num_of_nat 0x91f67c68712e7d6e57fddc0cc257169b24a289d96224acfc96c331d5414, 4)]"

lemma folds_q237: "good_folds 0x1db8260e5e3b460a46a0088fccf6a3a5936d75d89a776d4c0da4f338aafb folds_q237"
  by (simp add: good_folds_def folds_q237_def num_of_nat_numeral_eq)

lemma two_q237_f_0: "two_to 0x1db8260e5e3b460a46a0088fccf6a3a5936d75d89a776d4c0da4f338aafb (num_of_nat 0x1db8260e5e3)
    (num_of_nat 0x48bf14c8d1b8958ff069861df32a9416f150e0a9a40b34dcddab969dc7d44d18)"
  by (rule power_step [where e = "num_of_nat 0x1db8260e5e3", OF power_start folds_q237])
    (simp_all only: folds_q237_def pow_eval cert_simps num_simps)

lemma two_q237_f_1: "two_to 0x1db8260e5e3b460a46a0088fccf6a3a5936d75d89a776d4c0da4f338aafb (num_of_nat 0x1db8260e5e3b460a46a00)
    (num_of_nat 0x8315882249aaccde571067a577680cc2194271866d50cf870bb7c8955923cfc)"
  by (rule power_step [where e = "num_of_nat 0x1b460a46a00", OF two_q237_f_0 folds_q237])
    (simp_all only: folds_q237_def pow_eval cert_simps num_simps)

lemma two_q237_f_2: "two_to 0x1db8260e5e3b460a46a0088fccf6a3a5936d75d89a776d4c0da4f338aafb (num_of_nat 0x1db8260e5e3b460a46a0088fccf6a3a)
    (num_of_nat 0x2266dc5b7e5571231405a594fe8cc77faa32f8ec74f9000a945786923d611a50)"
  by (rule power_step [where e = "num_of_nat 0x188fccf6a3a", OF two_q237_f_1 folds_q237])
    (simp_all only: folds_q237_def pow_eval cert_simps num_simps)

lemma two_q237_f_3: "two_to 0x1db8260e5e3b460a46a0088fccf6a3a5936d75d89a776d4c0da4f338aafb (num_of_nat 0x1db8260e5e3b460a46a0088fccf6a3a5936d75d89)
    (num_of_nat 0x54bfb7ccbf546bd68bb2ccf9bc11102fd57874e885e37b00e138733f10b92e8)"
  by (rule power_step [where e = "num_of_nat 0x15936d75d89", OF two_q237_f_2 folds_q237])
    (simp_all only: folds_q237_def pow_eval cert_simps num_simps)

lemma two_q237_f_4: "two_to 0x1db8260e5e3b460a46a0088fccf6a3a5936d75d89a776d4c0da4f338aafb (num_of_nat 0x1db8260e5e3b460a46a0088fccf6a3a5936d75d89a776d4c0da)
    (num_of_nat 0x230bd526092650b5f5ad7bc3dbe63e60026a0045b1aafa5ad86d3f68ad04aad0)"
  by (rule power_step [where e = "num_of_nat 0x1a776d4c0da", OF two_q237_f_3 folds_q237])
    (simp_all only: folds_q237_def pow_eval cert_simps num_simps)

lemma two_q237_f: "two_to 0x1db8260e5e3b460a46a0088fccf6a3a5936d75d89a776d4c0da4f338aafb (num_of_nat 0x1db8260e5e3b460a46a0088fccf6a3a5936d75d89a776d4c0da4f338aafa)
    (num_of_nat 0x1f98e1cdf4a58ad63ad8733a4b0d153ab0bf3773db320b1f04dda86af6a0be20)"
  by (rule power_step [where e = "num_of_nat 0x14f338aafa", OF two_q237_f_4 folds_q237])
    (simp_all only: folds_q237_def pow_eval cert_simps num_simps)

lemma two_q237_c0_0: "two_to 0x1db8260e5e3b460a46a0088fccf6a3a5936d75d89a776d4c0da4f338aafb (num_of_nat 0x13ca0fabfd9)
    (num_of_nat 0x8ea0cb32a2500f041fb31a685467dee9e98e261873fb5ec9bf185975d0d6a90)"
  by (rule power_step [where e = "num_of_nat 0x13ca0fabfd9", OF power_start folds_q237])
    (simp_all only: folds_q237_def pow_eval cert_simps num_simps)

lemma two_q237_c0_1: "two_to 0x1db8260e5e3b460a46a0088fccf6a3a5936d75d89a776d4c0da4f338aafb (num_of_nat 0x13ca0fabfd9e01b8c0fe0)
    (num_of_nat 0x1827f5fd5224a46cfba9d0f5bedd7c3251560cb19fed243088994b4eb497c1c)"
  by (rule power_step [where e = "num_of_nat 0x1e01b8c0fe0", OF two_q237_c0_0 folds_q237])
    (simp_all only: folds_q237_def pow_eval cert_simps num_simps)

lemma two_q237_c0: "two_to 0x1db8260e5e3b460a46a0088fccf6a3a5936d75d89a776d4c0da4f338aafb (num_of_nat 0x27941f57fb3c037181fc07f533ea)
    (num_of_nat 0xb568a65440aed5b0480ae4a19f94ca988179da200f8e74e7294e9e30de70bd0)"
  by (rule power_step [where e = "num_of_nat 0x27f533ea", OF two_q237_c0_1 folds_q237])
    (simp_all only: folds_q237_def pow_eval cert_simps num_simps)

lemma prime_q237: "prime_int 0x1db8260e5e3b460a46a0088fccf6a3a5936d75d89a776d4c0da4f338aafb"
  by (rule pocklington_two [of _ "num_of_nat 0x1db8260e5e3b460a46a0088fccf6a3a5936d75d89a776d4c0da4f338aafa" "num_of_nat 0x1f98e1cdf4a58ad63ad8733a4b0d153ab0bf3773db320b1f04dda86af6a0be20" 69677 "[(0xc03a94b2d3e64419a05cd8ccbf987069, num_of_nat 0x27941f57fb3c037181fc07f533ea, num_of_nat 0xb568a65440aed5b0480ae4a19f94ca988179da200f8e74e7294e9e30de70bd0, 0xbce1bae6645f252963752a74333138f457aaf3fbc9c842fbcd0b8d48aeb, 0x480f269690f5f9350d0331cab6ab06a1da6b03da678f7303ab5a5111673f7cc)]"
    "0xc03a94b2d3e64419a05cd8ccbf987069" "0" "0x27941f57fb3c037181fc07f533ea"])
    (simp_all add: two_q237_f [simplified] two_q237_c0 [simplified] prime_q128)

definition folds_p :: "(num \<times> num \<times> int) list" where
  "folds_p =
   [(num_of_nat 0x10000000000000000000000000000000000000000000000000000000000000000, num_of_nat 0x1000003d1, 1),
    (num_of_nat 0x10000000000000000000000000000000000000000000000000000000000000000, num_of_nat 0x1000003d1, 1)]"

lemma folds_p: "good_folds 0xfffffffffffffffffffffffffffffffffffffffffffffffffffffffefffffc2f folds_p"
  by (simp add: good_folds_def folds_p_def num_of_nat_numeral_eq)

lemma two_p_f_0: "two_to 0xfffffffffffffffffffffffffffffffffffffffffffffffffffffffefffffc2f (num_of_nat 0x1ffffffffffffffff)
    (num_of_nat 0x1bf75c2ac939a141d65f36f47131bf75d7b52ebf0f60436944e543e0fb4ef50e6)"
  by (rule power_step [where e = "num_of_nat 0x1ffffffffffffffff", OF power_start folds_p])
    (simp_all only: folds_p_def pow_eval cert_simps num_simps)

lemma two_p_f_1: "two_to 0xfffffffffffffffffffffffffffffffffffffffffffffffffffffffefffffc2f (num_of_nat 0x1ffffffffffffffffffffffffffffffff)
    (num_of_nat 0x1208320da08b23684cd95a5f6f2a36fd117bc072ea6e1fb98472e2e77a6d3307e)"
  by (rule power_step [where e = "num_of_nat 0x1ffffffffffffffff", OF two_p_f_0 folds_p])
    (simp_all only: folds_p_def pow_eval cert_simps num_simps)

lemma two_p_f_2: "two_to 0xfffffffffffffffffffffffffffffffffffffffffffffffffffffffefffffc2f (num_of_nat 0x1ffffffffffffffffffffffffffffffffffffffffffffffff)
    (num_of_nat 0x5846bedc9bd65582fab36be7901693b7533eb888297160cb5f76a93cab610b2c)"
  by (rule power_step [where e = "num_of_nat 0x1ffffffffffffffff", OF two_p_f_1 folds_p])
    (simp_all only: folds_p_def pow_eval cert_simps num_simps)

lemma two_p_f: "two_to 0xfffffffffffffffffffffffffffffffffffffffffffffffffffffffefffffc2f (num_of_nat 0xfffffffffffffffffffffffffffffffffffffffffffffffffffffffefffffc2e)
    (num_of_nat 0xfffffffffffffffffffffffffffffffffffffffffffffffffffffffefffffc30)"
  by (rule power_step [where e = "num_of_nat 0xfffffffefffffc2e", OF two_p_f_2 folds_p])
    (simp_all only: folds_p_def pow_eval cert_simps num_simps)

lemma two_p_c0: "two_to 0xfffffffffffffffffffffffffffffffffffffffffffffffffffffffefffffc2f (num_of_nat 564522)
    (num_of_nat 0x429ec5b06c46c20546d5aabbe15bfbeedcade9791a517f619bf3f4135dc4da10)"
  by (rule power_step [where e = "num_of_nat 564522", OF power_start folds_p])
    (simp_all only: folds_p_def pow_eval cert_simps num_simps)

lemma prime_p: "prime_int 0xfffffffffffffffffffffffffffffffffffffffffffffffffffffffefffffc2f"
  by (rule pocklington_two [of _ "num_of_nat 0xfffffffffffffffffffffffffffffffffffffffffffffffffffffffefffffc2e" "num_of_nat 0xfffffffffffffffffffffffffffffffffffffffffffffffffffffffefffffc30" 1 "[(0x1db8260e5e3b460a46a0088fccf6a3a5936d75d89a776d4c0da4f338aafb, num_of_nat 564522, num_of_nat 0x429ec5b06c46c20546d5aabbe15bfbeedcade9791a517f619bf3f4135dc4da10, 0x55a50f4e5cae279e7cab8b266ff58ccd44df516a804a84c110b6adb787d46fc7, 0x1649abf4b0bd3b6524397b629ea1c88c293cd1ac44ff54631ec325633b8cb5d8)]"
    "0x1db8260e5e3b460a46a0088fccf6a3a5936d75d89a776d4c0da4f338aafb" "0" "564522"])
    (simp_all add: two_p_f [simplified] two_p_c0 [simplified] prime_q237)

lemma prime_17: "prime_int 17"
  by (rule prime_int_trial [of _ 5]) simp_all

definition folds_1871 :: "(num \<times> num \<times> int) list" where
  "folds_1871 =
   [(num_of_nat 65536, num_of_nat 51, 35),
    (num_of_nat 8192, num_of_nat 708, 4)]"

lemma folds_1871: "good_folds 1871 folds_1871"
  by (simp add: good_folds_def folds_1871_def num_of_nat_numeral_eq)

lemma two_1871_f: "two_to 1871 (num_of_nat 1870)
    (num_of_nat 0x2ec563796e153b4f14)"
  by (rule power_step [where e = "num_of_nat 1870", OF power_start folds_1871])
    (simp_all only: folds_1871_def pow_eval cert_simps num_simps)

lemma two_1871_c0: "two_to 1871 (num_of_nat 110)
    (num_of_nat 129108)"
  by (rule power_step [where e = "num_of_nat 110", OF power_start folds_1871])
    (simp_all only: folds_1871_def pow_eval cert_simps num_simps)

lemma prime_1871: "prime_int 1871"
  by (rule pocklington_two [of _ "num_of_nat 1870" "num_of_nat 0x2ec563796e153b4f14" 461129648825502461 "[(17, num_of_nat 110, num_of_nat 129108, 234, 16147)]"
    "17" "6" "8"])
    (simp_all add: two_1871_f [simplified] two_1871_c0 [simplified] prime_17)

definition folds_1627771 :: "(num \<times> num \<times> int) list" where
  "folds_1627771 =
   [(num_of_nat 0x1000000000, num_of_nat 1496200, 42216),
    (num_of_nat 0x40000000, num_of_nat 1040735, 659),
    (num_of_nat 0x1000000, num_of_nat 499506, 10)]"

lemma folds_1627771: "good_folds 1627771 folds_1627771"
  by (simp add: good_folds_def folds_1627771_def num_of_nat_numeral_eq)

lemma two_1627771_f: "two_to 1627771 (num_of_nat 1627770)
    (num_of_nat 0x2099818)"
  by (rule power_step [where e = "num_of_nat 1627770", OF power_start folds_1627771])
    (simp_all only: folds_1627771_def pow_eval cert_simps num_simps)

lemma two_1627771_c0: "two_to 1627771 (num_of_nat 870)
    (num_of_nat 0x1e5d0ed)"
  by (rule power_step [where e = "num_of_nat 870", OF power_start folds_1627771])
    (simp_all only: folds_1627771_def pow_eval cert_simps num_simps)

lemma prime_1627771: "prime_int 1627771"
  by (rule pocklington_two [of _ "num_of_nat 1627770" "num_of_nat 0x2099818" 21 "[(1871, num_of_nat 870, num_of_nat 0x1e5d0ed, 589711, 0xb00089)]"
    "1871" "0" "870"])
    (simp_all add: two_1627771_f [simplified] two_1627771_c0 [simplified] prime_1871)

definition folds_297159362677 :: "(num \<times> num \<times> int) list" where
  "folds_297159362677 =
   [(num_of_nat 0x1000000000000000000, num_of_nat 0x6bd265a6a, 0x3b3380c7e),
    (num_of_nat 0x40000000000000000, num_of_nat 0x432188019b, 0xecce031),
    (num_of_nat 0x1000000000000000, num_of_nat 0x3605557680, 3879808),
    (num_of_nat 0x40000000000000, num_of_nat 0xd81555da, 60622),
    (num_of_nat 0x1000000000000, num_of_nat 0xf25e4b731, 947),
    (num_of_nat 0x40000000000, num_of_nat 0x375ee7899a, 14)]"

lemma folds_297159362677: "good_folds 0x4530140875 folds_297159362677"
  by (simp add: good_folds_def folds_297159362677_def num_of_nat_numeral_eq)

lemma two_297159362677_f: "two_to 0x4530140875 (num_of_nat 0x4530140874)
    (num_of_nat 0xa4522f9415f)"
  by (rule power_step [where e = "num_of_nat 0x4530140874", OF power_start folds_297159362677])
    (simp_all only: folds_297159362677_def pow_eval cert_simps num_simps)

lemma two_297159362677_c0: "two_to 0x4530140875 (num_of_nat 182556)
    (num_of_nat 0xd1398df2df5)"
  by (rule power_step [where e = "num_of_nat 182556", OF power_start folds_297159362677])
    (simp_all only: folds_297159362677_def pow_eval cert_simps num_simps)

lemma prime_297159362677: "prime_int 0x4530140875"
  by (rule pocklington_two [of _ "num_of_nat 0x4530140874" "num_of_nat 0xa4522f9415f" 38 "[(1627771, num_of_nat 182556, num_of_nat 0xd1398df2df5, 0xa48b1bca0, 0x1f194d3aea3)]"
    "1627771" "0" "182556"])
    (simp_all add: two_297159362677_f [simplified] two_297159362677_c0 [simplified] prime_1627771)

definition folds_q95 :: "(num \<times> num \<times> int) list" where
  "folds_q95 =
   [(num_of_nat 0x800000000000000000000000000000000000000000000, num_of_nat 0x5bb2899120068c961637860e, 0x15d1f9fad3f1c3cd43d0e6),
    (num_of_nat 0x1000000000000000000000000000000000000000000, num_of_nat 0xa95e06e92866739fa6af9d2, 0x2ba3f3f5a7e3879a87a),
    (num_of_nat 0x2000000000000000000000000000000000000000, num_of_nat 0x598a7f5ee94fae0aa795b01, 0x5747e7eb4fc70f35),
    (num_of_nat 0x4000000000000000000000000000000000000, num_of_nat 0x548ead436da6a3efffc44b7d, 0xae8fcfd69f8e1),
    (num_of_nat 0x8000000000000000000000000000000000, num_of_nat 0xa5a52af9cfa7d2f7f3ac623, 0x15d1f9fad3f),
    (num_of_nat 0x10000000000000000000000000000000, num_of_nat 0x3d8db03ae0aeda921deac4c1, 0x2ba3f3f5),
    (num_of_nat 0x20000000000000000000000000000, num_of_nat 0x2e747344c50491a9620a7e46, 357502),
    (num_of_nat 0x40000000000000000000000000, num_of_nat 0x34b9e1214a84a09c3b753fb6, 174),
    (num_of_nat 0x2000000000000000000000000, num_of_nat 0x2ab5e4a1530f94cc94d5c291, 5)]"

lemma folds_q95: "good_folds 0x5ddb9f12ef6348a3e23ba5e3 folds_q95"
  by (simp add: good_folds_def folds_q95_def num_of_nat_numeral_eq)

lemma two_q95_f: "two_to 0x5ddb9f12ef6348a3e23ba5e3 (num_of_nat 0x5ddb9f12ef6348a3e23ba5e2)
    (num_of_nat 0x12b2c0b0c5b0c778a611e20c3a)"
  by (rule power_step [where e = "num_of_nat 0x5ddb9f12ef6348a3e23ba5e2", OF power_start folds_q95])
    (simp_all only: folds_q95_def pow_eval cert_simps num_simps)

lemma two_q95_c0: "two_to 0x5ddb9f12ef6348a3e23ba5e3 (num_of_nat 0x15b47fa125e621a)
    (num_of_nat 0xf99eea77755968a57ece19bf9)"
  by (rule power_step [where e = "num_of_nat 0x15b47fa125e621a", OF power_start folds_q95])
    (simp_all only: folds_q95_def pow_eval cert_simps num_simps)

lemma prime_q95: "prime_int 0x5ddb9f12ef6348a3e23ba5e3"
  by (rule pocklington_two [of _ "num_of_nat 0x5ddb9f12ef6348a3e23ba5e2" "num_of_nat 0x12b2c0b0c5b0c778a611e20c3a" 51 "[(0x4530140875, num_of_nat 0x15b47fa125e621a, num_of_nat 0xf99eea77755968a57ece19bf9, 0x19772c4448ea2e06c03560dd, 0x43ba22b9115244cf49c1fca3d)]"
    "0x4530140875" "328951" "0x14349f6537"])
    (simp_all add: two_q95_f [simplified] two_q95_c0 [simplified] prime_297159362677)

definition folds_q109 :: "(num \<times> num \<times> int) list" where
  "folds_q109 =
   [(num_of_nat 0x2000000000000000000000000000000000000000000000000000, num_of_nat 0xc84fbc41429227e3d954c945008, 0x1e5e6f23dc1597dce0dd28118),
    (num_of_nat 0x1000000000000000000000000000000000000000000000000, num_of_nat 0x93e92072a66c2836aeb7848e5c, 0xf2f3791ee0acbee706e94),
    (num_of_nat 0x800000000000000000000000000000000000000000000, num_of_nat 0x7ae3dbc63b1b3d175be45309f21, 0x7979bc8f70565f7383),
    (num_of_nat 0x400000000000000000000000000000000000000000, num_of_nat 0xa47e18d90914e5a336150af2d49, 0x3cbcde47b82b2fb),
    (num_of_nat 0x200000000000000000000000000000000000000, num_of_nat 0xa004f5e49b526eaa652db405067, 0x1e5e6f23dc15),
    (num_of_nat 0x100000000000000000000000000000000000, num_of_nat 0xecbdfa3f9dd6cca399e0ad1c94a, 0xf2f3791e),
    (num_of_nat 0x80000000000000000000000000000000, num_of_nat 0xd3c23f498fbaf6f8d2eff4b7029, 497563),
    (num_of_nat 0x40000000000000000000000000000, num_of_nat 0xc7032e0fcda05ed3a9103742c94, 60),
    (num_of_nat 0x8000000000000000000000000000, num_of_nat 0x9fc05ef94f74d7dcf5db7de9ecd, 7)]"

lemma folds_q109: "good_folds 0x10dbff26eab8198050172ee03275 folds_q109"
  by (simp add: good_folds_def folds_q109_def num_of_nat_numeral_eq)

lemma two_q109_f: "two_to 0x10dbff26eab8198050172ee03275 (num_of_nat 0x10dbff26eab8198050172ee03274)
    (num_of_nat 0xd1b035740751bd2be4205704738f4)"
  by (rule power_step [where e = "num_of_nat 0x10dbff26eab8198050172ee03274", OF power_start folds_q109])
    (simp_all only: folds_q109_def pow_eval cert_simps num_simps)

lemma two_q109_c0: "two_to 0x10dbff26eab8198050172ee03275 (num_of_nat 11772)
    (num_of_nat 0x1914f18f160b24669ac5b59872fe33)"
  by (rule power_step [where e = "num_of_nat 11772", OF power_start folds_q109])
    (simp_all only: folds_q109_def pow_eval cert_simps num_simps)

lemma prime_q109: "prime_int 0x10dbff26eab8198050172ee03275"
  by (rule pocklington_two [of _ "num_of_nat 0x10dbff26eab8198050172ee03274" "num_of_nat 0xd1b035740751bd2be4205704738f4" 199 "[(0x5ddb9f12ef6348a3e23ba5e3, num_of_nat 11772, num_of_nat 0x1914f18f160b24669ac5b59872fe33, 0xb628645e03e3bc891eeb6c2ac0a, 0x10eff64295eb1a1bd528a2817f79c7)]"
    "0x5ddb9f12ef6348a3e23ba5e3" "0" "11772"])
    (simp_all add: two_q109_f [simplified] two_q109_c0 [simplified] prime_q95)

definition folds_n :: "(num \<times> num \<times> int) list" where
  "folds_n =
   [(num_of_nat 0x10000000000000000000000000000000000000000000000000000000000000000, num_of_nat 0x14551231950b75fc4402da1732fc9bebf, 1),
    (num_of_nat 0x10000000000000000000000000000000000000000000000000000000000000000, num_of_nat 0x14551231950b75fc4402da1732fc9bebf, 1),
    (num_of_nat 0x10000000000000000000000000000000000000000000000000000000000000000, num_of_nat 0x14551231950b75fc4402da1732fc9bebf, 1)]"

lemma folds_n: "good_folds 0xfffffffffffffffffffffffffffffffebaaedce6af48a03bbfd25e8cd0364141 folds_n"
  by (simp add: good_folds_def folds_n_def num_of_nat_numeral_eq)

lemma two_n_f_0: "two_to 0xfffffffffffffffffffffffffffffffebaaedce6af48a03bbfd25e8cd0364141 (num_of_nat 0x1ffffffffff)
    (num_of_nat 0x1a3909ff3837d125b78db65a47a7ed4b3829aa0e2c12e16eb72ca6c042e1f1be8)"
  by (rule power_step [where e = "num_of_nat 0x1ffffffffff", OF power_start folds_n])
    (simp_all only: folds_n_def pow_eval cert_simps num_simps)

lemma two_n_f_1: "two_to 0xfffffffffffffffffffffffffffffffebaaedce6af48a03bbfd25e8cd0364141 (num_of_nat 0x1ffffffffffffffffffff)
    (num_of_nat 0x101e1f104b0f7867c488c30d704546e90abee322ce5bb3dd2cdceec9701ab36c2)"
  by (rule power_step [where e = "num_of_nat 0x1ffffffffff", OF two_n_f_0 folds_n])
    (simp_all only: folds_n_def pow_eval cert_simps num_simps)

lemma two_n_f_2: "two_to 0xfffffffffffffffffffffffffffffffebaaedce6af48a03bbfd25e8cd0364141 (num_of_nat 0x1ffffffffffffffffffffffffffffff)
    (num_of_nat 0x1e82491e2c67582a5b39ef89aac95a1e28e652434ecf5aecc8c18be4b6c569678)"
  by (rule power_step [where e = "num_of_nat 0x1ffffffffff", OF two_n_f_1 folds_n])
    (simp_all only: folds_n_def pow_eval cert_simps num_simps)

lemma two_n_f_3: "two_to 0xfffffffffffffffffffffffffffffffebaaedce6af48a03bbfd25e8cd0364141 (num_of_nat 0x1fffffffffffffffffffffffffffffffd755db9cd)
    (num_of_nat 0xc0eebd67187681dce78ced2c020a94adfa8aabfa16a53c1d6a908b4014bbfbf6)"
  by (rule power_step [where e = "num_of_nat 0x1fd755db9cd", OF two_n_f_2 folds_n])
    (simp_all only: folds_n_def pow_eval cert_simps num_simps)

lemma two_n_f_4: "two_to 0xfffffffffffffffffffffffffffffffebaaedce6af48a03bbfd25e8cd0364141 (num_of_nat 0x1fffffffffffffffffffffffffffffffd755db9cd5e9140777f)
    (num_of_nat 0x1dc382a99fa90742d2471f11bed4ce7c0f9d147afc4935ec62060730ea218ef6)"
  by (rule power_step [where e = "num_of_nat 0x15e9140777f", OF two_n_f_3 folds_n])
    (simp_all only: folds_n_def pow_eval cert_simps num_simps)

lemma two_n_f_5: "two_to 0xfffffffffffffffffffffffffffffffebaaedce6af48a03bbfd25e8cd0364141 (num_of_nat 0x1fffffffffffffffffffffffffffffffd755db9cd5e9140777fa4bd19a06c)
    (num_of_nat 0xba1f5fafabf136119f34d9fba3d3eaddd1e68f8d682902b790fb1d637e31991c)"
  by (rule power_step [where e = "num_of_nat 0x1a4bd19a06c", OF two_n_f_4 folds_n])
    (simp_all only: folds_n_def pow_eval cert_simps num_simps)

lemma two_n_f: "two_to 0xfffffffffffffffffffffffffffffffebaaedce6af48a03bbfd25e8cd0364141 (num_of_nat 0xfffffffffffffffffffffffffffffffebaaedce6af48a03bbfd25e8cd0364140)
    (num_of_nat 0xfffffffffffffffffffffffffffffffebaaedce6af48a03bbfd25e8cd0364142)"
  by (rule power_step [where e = "num_of_nat 49472", OF two_n_f_5 folds_n])
    (simp_all only: folds_n_def pow_eval cert_simps num_simps)

lemma two_n_c0_0: "two_to 0xfffffffffffffffffffffffffffffffebaaedce6af48a03bbfd25e8cd0364141 (num_of_nat 0x1e5e6f23dc1)
    (num_of_nat 0xf91ce380f05d4f052d3c02de07318a11d926190b8a1c25d827a8de4a9283ad56)"
  by (rule power_step [where e = "num_of_nat 0x1e5e6f23dc1", OF power_start folds_n])
    (simp_all only: folds_n_def pow_eval cert_simps num_simps)

lemma two_n_c0_1: "two_to 0xfffffffffffffffffffffffffffffffebaaedce6af48a03bbfd25e8cd0364141 (num_of_nat 0x1e5e6f23dc1597dce0dd2)
    (num_of_nat 0x4d33705bae6bcc36462638f5d5ddb84379cdb684d09336c9e49c9ae44a19f0d9)"
  by (rule power_step [where e = "num_of_nat 0x1597dce0dd2", OF two_n_c0_0 folds_n])
    (simp_all only: folds_n_def pow_eval cert_simps num_simps)

lemma two_n_c0_2: "two_to 0xfffffffffffffffffffffffffffffffebaaedce6af48a03bbfd25e8cd0364141 (num_of_nat 0x1e5e6f23dc1597dce0dd28118be19e2)
    (num_of_nat 0xe1cb0c48ed103008ab0d7ee606076dcf514a2989044bf62a2a7af36e720c1b1d)"
  by (rule power_step [where e = "num_of_nat 0x18118be19e2", OF two_n_c0_1 folds_n])
    (simp_all only: folds_n_def pow_eval cert_simps num_simps)

lemma two_n_c0: "two_to 0xfffffffffffffffffffffffffffffffebaaedce6af48a03bbfd25e8cd0364141 (num_of_nat 0xf2f3791ee0acbee706e9408c5f0cf13469440)
    (num_of_nat 0xbf8ef18068f2b95b4ec1d89e969aaaf80d6a55b047c0187ebebfa98b6a4e7de2)"
  by (rule power_step [where e = "num_of_nat 0xb469440", OF two_n_c0_2 folds_n])
    (simp_all only: folds_n_def pow_eval cert_simps num_simps)

lemma prime_n: "prime_int 0xfffffffffffffffffffffffffffffffebaaedce6af48a03bbfd25e8cd0364141"
  by (rule pocklington_two [of _ "num_of_nat 0xfffffffffffffffffffffffffffffffebaaedce6af48a03bbfd25e8cd0364140" "num_of_nat 0xfffffffffffffffffffffffffffffffebaaedce6af48a03bbfd25e8cd0364142" 1 "[(0x10dbff26eab8198050172ee03275, num_of_nat 0xf2f3791ee0acbee706e9408c5f0cf13469440, num_of_nat 0xbf8ef18068f2b95b4ec1d89e969aaaf80d6a55b047c0187ebebfa98b6a4e7de2, 0x7e44a52d4b46b005ca417d91243e86645b66fffd04cce22537827794f1dcf541, 0x5e7bb86e5fdf5478542d5d10c793b0952af41b8a9baf728d11ec83bb8b3e6320)]"
    "0x10dbff26eab8198050172ee03275" "0xe691388d8a" "0xbcf6c2f4b07d9716cc10408f02e"])
    (simp_all add: two_n_f [simplified] two_n_c0 [simplified] prime_q109)

subsection \<open>Minus seven is no cube modulo the field prime\<close>

abbreviation seven_to :: "int \<Rightarrow> num \<Rightarrow> num \<Rightarrow> bool" where
  "seven_to \<equiv> power_is (num.Bit1 (num.Bit1 num.One))"

lemma seven_p_0: "seven_to 0xfffffffffffffffffffffffffffffffffffffffffffffffffffffffefffffc2f (num_of_nat 0x15555555555555555)
    (num_of_nat 0x6683adbbba76b1bbb662e8716051953d83f6fd356a211a707718073ea25bfe16e)"
  by (rule power_step [where e = "num_of_nat 0x15555555555555555", OF power_start [of "num.Bit1 (num.Bit1 num.One)"] folds_p])
    (simp_all only: folds_p_def pow_eval cert_simps num_simps)

lemma seven_p_1: "seven_to 0xfffffffffffffffffffffffffffffffffffffffffffffffffffffffefffffc2f (num_of_nat 0x155555555555555555555555555555555)
    (num_of_nat 0x357acd9d504af4eda58c6c04e5285fc5a91247db9fd8478546c8c22ad2dccea6a)"
  by (rule power_step [where e = "num_of_nat 0x15555555555555555", OF seven_p_0 folds_p])
    (simp_all only: folds_p_def pow_eval cert_simps num_simps)

lemma seven_p_2: "seven_to 0xfffffffffffffffffffffffffffffffffffffffffffffffffffffffefffffc2f (num_of_nat 0x1555555555555555555555555555555555555555555555555)
    (num_of_nat 0x49e82b65f14badd743584a539f01c6f003ed88c95c04e40356e7534b011e598b8)"
  by (rule power_step [where e = "num_of_nat 0x15555555555555555", OF seven_p_1 folds_p])
    (simp_all only: folds_p_def pow_eval cert_simps num_simps)

lemma seven_p: "seven_to 0xfffffffffffffffffffffffffffffffffffffffffffffffffffffffefffffc2f (num_of_nat 0x55555555555555555555555555555555555555555555555555555554fffffeba)
    (num_of_nat 0x7ae96a2b657c07106e64479eac3434e99cf0497512f58995c1396c28719501ee)"
  by (rule power_step [where e = "num_of_nat 0x55555554fffffeba", OF seven_p_2 folds_p])
    (simp_all only: folds_p_def pow_eval cert_simps num_simps)

lemma seven_power_ne_1: "(7::int) ^ 0x55555555555555555555555555555555555555555555555555555554fffffeba mod 0xfffffffffffffffffffffffffffffffffffffffffffffffffffffffefffffc2f \<noteq> 1"
proof -
  have eq: "(7::int) ^ 0x55555555555555555555555555555555555555555555555555555554fffffeba mod 0xfffffffffffffffffffffffffffffffffffffffffffffffffffffffefffffc2f = 0x7ae96a2b657c07106e64479eac3434e99cf0497512f58995c1396c28719501ee mod 0xfffffffffffffffffffffffffffffffffffffffffffffffffffffffefffffc2f"
    using seven_p unfolding power_is_def num_of_nat_numeral_eq .
  have "(0x7ae96a2b657c07106e64479eac3434e99cf0497512f58995c1396c28719501ee::int) mod 0xfffffffffffffffffffffffffffffffffffffffffffffffffffffffefffffc2f \<noteq> 1" by simp
  then show ?thesis unfolding eq .
qed

end
