(* ===== verification/Gf_P.thy ===== *)
theory Gf_P
  imports Field_Impl Prime_Cert
begin

text \<open>
  The prime field of the coordinates. \<open>gfp\<close> is the type of the residues modulo the characteristic,
  an instance of \<open>field\<close> by the primality of \<open>Prime_Cert\<close>; \<open>fe_abs\<close> maps a limb representation to
  the element it stands for. \<open>fe_rep m x a\<close> says that \<open>a\<close> represents \<open>x\<close> with magnitude at most \<open>m\<close>;
  the rules \<open>fe_rules\<close> are the contracts of the operations of \<open>field.h\<close> in these terms, and carry a
  straight-line sequence of field operations to the formula it computes and to its magnitude.
\<close>

subsection \<open>The type\<close>

typedef gfp = "{0..<secp256k1_p}"
  by (rule exI [of _ 0]) (simp add: p_pos)

setup_lifting type_definition_gfp

lemma prime_secp256k1_p: "prime_int secp256k1_p"
  using prime_p by (simp add: secp256k1_p_def)

lemma p_gt_1: "1 < secp256k1_p"
  by (simp add: secp256k1_p_def)

instantiation gfp :: "{zero, one, plus, minus, uminus, times}"
begin

lift_definition zero_gfp :: gfp is 0 by (simp add: p_pos)
lift_definition one_gfp :: gfp is 1 by (simp add: p_gt_1)
lift_definition plus_gfp :: "gfp \<Rightarrow> gfp \<Rightarrow> gfp" is "\<lambda>x y. (x + y) mod secp256k1_p" by (simp add: p_pos)
lift_definition minus_gfp :: "gfp \<Rightarrow> gfp \<Rightarrow> gfp" is "\<lambda>x y. (x - y) mod secp256k1_p" by (simp add: p_pos)
lift_definition uminus_gfp :: "gfp \<Rightarrow> gfp" is "\<lambda>x. - x mod secp256k1_p" by (simp add: p_pos)
lift_definition times_gfp :: "gfp \<Rightarrow> gfp \<Rightarrow> gfp" is "\<lambda>x y. x * y mod secp256k1_p" by (simp add: p_pos)

instance ..

end

instance gfp :: comm_ring_1
proof
  fix a b c :: gfp
  show "a + b + c = a + (b + c)" by transfer (simp add: mod_add_left_eq mod_add_right_eq add.assoc)
  show "a + b = b + a" by transfer (simp add: add.commute)
  show "0 + a = a" by transfer simp
  show "- a + a = 0" by transfer (simp add: mod_add_left_eq)
  show "a - b = a + - b" by transfer (simp add: mod_add_right_eq)
  show "a * b * c = a * (b * c)" by transfer (simp add: mod_mult_left_eq mod_mult_right_eq mult.assoc)
  show "a * b = b * a" by transfer (simp add: mult.commute)
  show "1 * a = a" by transfer simp
  show "(a + b) * c = a * c + b * c"
    by transfer (simp add: mod_mult_left_eq mod_add_left_eq mod_add_right_eq distrib_right)
  show "(0 :: gfp) \<noteq> 1" by transfer simp
qed

lift_definition gf :: "int \<Rightarrow> gfp" is "\<lambda>z. z mod secp256k1_p" by (simp add: p_pos)

lemma gf_eq_iff: "gf x = gf y \<longleftrightarrow> x mod secp256k1_p = y mod secp256k1_p"
  by transfer simp

lemma gf_hom:
  "gf (x + y) = gf x + gf y" "gf (x - y) = gf x - gf y" "gf (- x) = - gf x" "gf (x * y) = gf x * gf y"
  "gf 0 = 0" "gf 1 = 1"
  by (transfer; simp add: mod_add_eq mod_diff_eq mod_mult_eq mod_minus_eq p_gt_1)+

lemma gf_power: "gf (x ^ k) = gf x ^ k"
  by (induction k) (simp_all add: gf_hom)

lemma gf_surj: "\<exists>z. x = gf z \<and> 0 \<le> z \<and> z < secp256k1_p"
  by transfer (metis atLeastLessThan_iff mod_pos_pos_trivial)

lemma gf_numeral: "gf (numeral k) = numeral k"
proof -
  have "gf (int n) = of_nat n" for n by (induction n) (simp_all add: gf_hom)
  from this [of "numeral k"] show ?thesis by simp
qed

lemma gf_eq_0_iff: "gf z = 0 \<longleftrightarrow> secp256k1_p dvd z"
  using gf_eq_iff [of z 0] by (simp add: gf_hom mod_eq_0_iff_dvd)

lemma gfp_fermat: "x \<noteq> (0 :: gfp) \<Longrightarrow> x ^ (nat secp256k1_p - 1) = 1"
proof -
  assume x: "x \<noteq> 0"
  obtain z where z: "x = gf z" using gf_surj by blast
  then have "\<not> secp256k1_p dvd z" using x by (simp add: gf_eq_0_iff)
  then have "z ^ nat (secp256k1_p - 1) mod secp256k1_p = 1" by (rule fermat [OF prime_secp256k1_p])
  then have "gf (z ^ nat (secp256k1_p - 1)) = gf 1" using p_gt_1 by (simp add: gf_eq_iff)
  moreover have "nat (secp256k1_p - 1) = nat secp256k1_p - 1" using p_gt_1 by (simp add: nat_diff_distrib)
  ultimately show ?thesis by (simp only: z gf_power gf_hom)
qed

instantiation gfp :: field
begin

definition inverse_gfp :: "gfp \<Rightarrow> gfp" where
  "inverse_gfp x = x ^ (nat secp256k1_p - 2)"

definition divide_gfp :: "gfp \<Rightarrow> gfp \<Rightarrow> gfp" where
  "divide_gfp x y = x * inverse y"

instance
proof
  fix a b :: gfp
  have e: "nat secp256k1_p - 1 = Suc (nat secp256k1_p - 2)" by (simp add: secp256k1_p_def)
  show "inverse a * a = 1" if "a \<noteq> 0"
    using gfp_fermat [OF that, unfolded e] by (simp add: inverse_gfp_def mult.commute)
  show "a div b = a * inverse b" by (rule divide_gfp_def)
  show "inverse (0 :: gfp) = 0" by (simp add: inverse_gfp_def secp256k1_p_def)
qed

end


subsection \<open>Representation by limbs\<close>

definition fe_abs :: "secp256k1_fe \<Rightarrow> gfp" where
  "fe_abs a = gf (fe_val a)"

definition fe_rep :: "int \<Rightarrow> gfp \<Rightarrow> secp256k1_fe \<Rightarrow> bool" where
  "fe_rep m x a \<longleftrightarrow> fe_magnitude m a \<and> fe_abs a = x"

named_theorems fe_rules \<open>value and magnitude of the field operations\<close>

lemma fe_repI: "fe_rep k y a \<Longrightarrow> k \<le> m \<Longrightarrow> y = x \<Longrightarrow> fe_rep m x a"
  by (auto simp: fe_rep_def dest: fe_magnitude_mono)

lemma fe_rep_abs: "fe_rep m x a \<Longrightarrow> fe_abs a = x"
  by (simp add: fe_rep_def)

lemma fe_rep_magnitude: "fe_rep m x a \<Longrightarrow> fe_magnitude m a"
  by (simp add: fe_rep_def)

lemma fe_rep_nonneg: "fe_rep m x a \<Longrightarrow> 0 \<le> m"
  unfolding fe_rep_def fe_magnitude_iff using uint_ge_0 [of "n_0 a"] by linarith

lemma fe_abs_cong: "fe_val a mod secp256k1_p = z mod secp256k1_p \<Longrightarrow> fe_abs a = gf z"
  by (simp add: fe_abs_def gf_eq_iff)

lemma fe_rep_mul_ok: "fe_rep m x a \<Longrightarrow> m \<le> 8 \<Longrightarrow> fe_mul_ok a"
  by (auto simp: fe_rep_def intro: fe_magnitude_mul_ok)

lemma fe_rep_mul [fe_rules]:
  "fe_rep k x a \<Longrightarrow> fe_rep l y b \<Longrightarrow> k \<le> 8 \<Longrightarrow> l \<le> 8 \<Longrightarrow> fe_rep 1 (x * y) (secp256k1_fe_mul a b)"
  using secp256k1_fe_mul_val [OF fe_rep_mul_ok fe_rep_mul_ok, of k x a l y b]
  by (auto simp: fe_rep_def fe_reduced_magnitude gf_hom fe_abs_def dest: fe_abs_cong)

lemma fe_rep_sqr [fe_rules]: "fe_rep k x a \<Longrightarrow> k \<le> 8 \<Longrightarrow> fe_rep 1 (x * x) (secp256k1_fe_sqr a)"
  using secp256k1_fe_sqr_val [OF fe_rep_mul_ok, of k x a]
  by (auto simp: fe_rep_def fe_reduced_magnitude gf_hom fe_abs_def dest: fe_abs_cong)

lemma fe_rep_add [fe_rules]:
  "fe_rep k x a \<Longrightarrow> fe_rep l y b \<Longrightarrow> k + l \<le> 32 \<Longrightarrow> fe_rep (k + l) (x + y) (secp256k1_fe_add a b)"
  using secp256k1_fe_add_val [of k a l b] by (simp add: fe_rep_def fe_abs_def gf_hom)

lemma fe_rep_negate [fe_rules]:
  assumes "fe_rep k x a" and "k \<le> uint m" and "uint m \<le> 31"
  shows "fe_rep (uint m + 1) (- x) (secp256k1_fe_negate a m)"
proof -
  have "fe_magnitude (uint m) a" using assms(1,2) fe_magnitude_mono by (auto simp: fe_rep_def)
  note n = secp256k1_fe_negate_val [OF this assms(3)]
  have "gf (2 * (uint m + 1) * secp256k1_p - fe_val a) = - gf (fe_val a)"
    by (simp add: gf_hom gf_eq_0_iff [THEN iffD2, OF dvd_refl])
  then show ?thesis using n assms(1) by (simp add: fe_rep_def fe_abs_def)
qed

lemma fe_rep_mul_int [fe_rules]:
  "fe_rep k x a \<Longrightarrow> k * uint c \<le> 32 \<Longrightarrow> fe_rep (k * uint c) (gf (uint c) * x) (secp256k1_fe_mul_int a c)"
  using secp256k1_fe_mul_int_val [of k a c] fe_rep_nonneg [of k x a]
  by (simp add: fe_rep_def fe_abs_def gf_hom mult.commute)

lemma fe_normalized_magnitude: "fe_normalized a \<Longrightarrow> fe_magnitude 1 a"
proof -
  assume a: "fe_normalized a"
  have l: "\<forall>x \<in> set (fe_limbs a). uint x < 2 ^ 26" and v: "fe_val a < 2 ^ 256"
    using a by (simp_all add: fe_normalized_def secp256k1_p_def)
  have "fe_val a = lval 26 (butlast (fe_limbs a)) + 2 ^ 234 * uint (n_9 a)"
    by (simp add: fe_val_def fe_limbs_def)
  then have "2 ^ 234 * uint (n_9 a) < 2 ^ 256" using v lval_nonneg [of 26 "butlast (fe_limbs a)"] by linarith
  then have "uint (n_9 a) < 2 ^ 22" by simp
  then show ?thesis using l by (simp add: fe_magnitude_iff fe_limbs_def)
qed

lemma fe_rep_normalize [fe_rules]:
  assumes "fe_rep k x a" and "k \<le> 31"
  shows "fe_rep 1 x (secp256k1_fe_normalize_weak a)" and "fe_rep 1 x (secp256k1_fe_normalize a)"
    and "fe_rep 1 x (secp256k1_fe_normalize_var a)"
proof -
  have a: "fe_magnitude 31 a" using assms fe_magnitude_mono by (auto simp: fe_rep_def)
  show "fe_rep 1 x (secp256k1_fe_normalize_weak a)"
    using secp256k1_fe_normalize_weak_val [OF a] assms(1) by (auto simp: fe_rep_def fe_abs_def gf_eq_iff)
  show n: "fe_rep 1 x (secp256k1_fe_normalize a)"
    using secp256k1_fe_normalize_val [OF a] assms(1) fe_normalized_magnitude
    by (auto simp: fe_rep_def fe_abs_def gf_eq_iff)
  show "fe_rep 1 x (secp256k1_fe_normalize_var a)" using n by (simp add: secp256k1_fe_normalize_var_eq [OF a])
qed

lemma fe_rep_set_int [fe_rules]: "uint c \<le> 134217726 \<Longrightarrow> fe_rep 1 (gf (uint c)) (secp256k1_fe_set_int c)"
  by (simp add: fe_rep_def fe_abs_def secp256k1_fe_set_int_val fe_magnitude_set_int)

lemma fe_rep_cmov [fe_rules]:
  "fe_rep k x r \<Longrightarrow> fe_rep k y a \<Longrightarrow> fe_rep k (if b then y else x) (secp256k1_fe_cmov r a (of_bool b))"
  by (simp add: secp256k1_fe_cmov_eq)

lemma fe_rep_zero_test:
  assumes "fe_rep k x a" and "k \<le> 31"
  shows "secp256k1_fe_normalizes_to_zero a \<longleftrightarrow> x = 0" and "secp256k1_fe_normalizes_to_zero_var a \<longleftrightarrow> x = 0"
proof -
  have a: "fe_magnitude 31 a" using assms fe_magnitude_mono by (auto simp: fe_rep_def)
  then show "secp256k1_fe_normalizes_to_zero a \<longleftrightarrow> x = 0"
    using secp256k1_fe_normalizes_to_zero_iff [OF a] fe_rep_abs [OF assms(1)]
    by (auto simp: fe_abs_def gf_eq_0_iff mod_eq_0_iff_dvd)
  then show "secp256k1_fe_normalizes_to_zero_var a \<longleftrightarrow> x = 0"
    by (simp add: secp256k1_fe_normalizes_to_zero_var_eq)
qed

lemma fe_rep_equal:
  assumes "fe_rep 1 x a" and "fe_rep k y b" and "k \<le> 29"
  shows "secp256k1_fe_equal a b \<longleftrightarrow> x = y" and "secp256k1_fe_equal_var a b \<longleftrightarrow> x = y"
proof -
  have "fe_magnitude 29 b" using assms fe_magnitude_mono by (auto simp: fe_rep_def)
  then show "secp256k1_fe_equal a b \<longleftrightarrow> x = y"
    using secp256k1_fe_equal_iff [of a b] assms(1,2) by (auto simp: fe_rep_def fe_abs_def gf_eq_iff)
  then show "secp256k1_fe_equal_var a b \<longleftrightarrow> x = y" by (simp add: secp256k1_fe_equal_var_eq)
qed

lemma fe_rep_inv [fe_rules]:
  assumes "fe_rep k x a" and "k \<le> 8"
  shows "fe_rep 1 (inverse x) (secp256k1_fe_inv a)"
proof -
  have ok: "fe_mul_ok a" by (rule fe_rep_mul_ok [OF assms])
  show ?thesis
    using fe_repr.pw_mod [OF secp256k1_fe_inv_pw [OF ok]] secp256k1_fe_inv_mag [OF ok] assms(1)
    by (auto simp: fe_rep_def inverse_gfp_def gf_power fe_abs_def dest: fe_abs_cong)
qed

lemma fe_normalized_abs: "fe_normalized a \<Longrightarrow> fe_normalized b \<Longrightarrow> fe_abs a = fe_abs b \<longleftrightarrow> a = b"
  using fe_normalized_inject [of a b] fe_val_nonneg [of a] fe_val_nonneg [of b]
  by (auto simp: fe_abs_def gf_eq_iff fe_normalized_def)

end
