(* ===== verification/Curve.thy ===== *)
theory Curve
  imports Gf_P
begin

text \<open>
  The curve \<open>y^2 = x^3 + 7\<close> over \<open>gfp\<close>: affine points with the point at infinity, the chord-and-tangent
  addition, and the formulas in Jacobian coordinates that the library evaluates. A Jacobian triple
  \<open>(X, Y, Z)\<close> with \<open>Z\<close> not zero stands for \<open>(X / Z^2, Y / Z^3)\<close>.
\<close>

datatype point = Infinity | Pt gfp gfp

definition on_curve :: "point \<Rightarrow> bool" where
  "on_curve P \<longleftrightarrow> (case P of Infinity \<Rightarrow> True | Pt x y \<Rightarrow> y * y = x * x * x + 7)"

definition pneg :: "point \<Rightarrow> point" where
  "pneg P = (case P of Infinity \<Rightarrow> Infinity | Pt x y \<Rightarrow> Pt x (- y))"

text \<open>The third point on the line of slope \<open>l\<close>, reflected.\<close>

definition chord :: "gfp \<Rightarrow> gfp \<Rightarrow> gfp \<Rightarrow> gfp \<Rightarrow> point" where
  "chord l x1 y1 x2 = (let x3 = l * l - x1 - x2 in Pt x3 (l * (x1 - x3) - y1))"

fun padd :: "point \<Rightarrow> point \<Rightarrow> point" where
  "padd Infinity Q = Q"
| "padd P Infinity = P"
| "padd (Pt x1 y1) (Pt x2 y2) =
     (if x1 = x2
      then (if y1 + y2 = 0 then Infinity else chord (3 * x1 * x1 / (2 * y1)) x1 y1 x1)
      else chord ((y2 - y1) / (x2 - x1)) x1 y1 x2)"

definition jac :: "gfp \<Rightarrow> gfp \<Rightarrow> gfp \<Rightarrow> point" where
  "jac X Y Z = Pt (X / (Z * Z)) (Y / (Z * Z * Z))"

lemma two_nonzero: "(2 :: gfp) \<noteq> 0" "(3 :: gfp) \<noteq> 0" "(4 :: gfp) \<noteq> 0"
proof -
  have "gf 2 \<noteq> 0" "gf 3 \<noteq> 0" "gf 4 \<noteq> 0" unfolding gf_eq_0_iff by (auto simp: secp256k1_p_def dest!: zdvd_imp_le)
  then show "(2 :: gfp) \<noteq> 0" "(3 :: gfp) \<noteq> 0" "(4 :: gfp) \<noteq> 0" unfolding gf_numeral by simp_all
qed

lemma on_curve_simps [simp]:
  "on_curve Infinity" "on_curve (Pt x y) \<longleftrightarrow> y * y = x * x * x + 7"
  by (simp_all add: on_curve_def)

lemma double_zero_iff: "(y :: gfp) + y = 0 \<longleftrightarrow> y = 0"
  using two_nonzero(1) by (simp flip: mult_2)

lemma on_curve_same_x:
  "on_curve (Pt x y1) \<Longrightarrow> on_curve (Pt x y2) \<Longrightarrow> y1 = y2 \<or> y1 + y2 = 0"
proof -
  assume "on_curve (Pt x y1)" "on_curve (Pt x y2)"
  then have "(y1 - y2) * (y1 + y2) = 0" by (simp add: algebra_simps)
  then show ?thesis by simp
qed

lemma jac_scale: "Z \<noteq> 0 \<Longrightarrow> jac (x * (Z * Z)) (y * (Z * Z * Z)) Z = Pt x y"
  by (simp add: jac_def)

lemma jac_obtain:
  assumes "Z \<noteq> 0"
  obtains x y where "X = x * (Z * Z)" and "Y = y * (Z * Z * Z)" and "jac X Y Z = Pt x y"
  using assms by (intro that [of "X / (Z * Z)" "Y / (Z * Z * Z)"]) (simp_all add: jac_def)

lemma jac_eqI: "Z \<noteq> 0 \<Longrightarrow> X = x * (Z * Z) \<Longrightarrow> Y = y * (Z * Z * Z) \<Longrightarrow> jac X Y Z = Pt x y"
  by (simp add: jac_scale)

text \<open>The formulas of doubling and addition.\<close>

lemma double_formula:
  assumes "Z \<noteq> 0" and "Y \<noteq> 0"
  shows "jac (9 * X * X * X * X - 8 * X * Y * Y) (36 * X * X * X * Y * Y - 27 * X * X * X * X * X * X - 8 * Y * Y * Y * Y) (2 * Y * Z) =
    padd (jac X Y Z) (jac X Y Z)"
proof -
  obtain x y where xy: "X = x * (Z * Z)" "Y = y * (Z * Z * Z)" "jac X Y Z = Pt x y"
    using jac_obtain [OF assms(1)] by metis
  have y: "y \<noteq> 0" using assms(2) xy(2) by auto
  define l where "l = 3 * x * x / (2 * y)"
  have l: "l * (2 * y) = 3 * x * x" using y two_nonzero(1) by (simp add: l_def)
  have "jac (9 * X * X * X * X - 8 * X * Y * Y) (36 * X * X * X * Y * Y - 27 * X * X * X * X * X * X - 8 * Y * Y * Y * Y) (2 * Y * Z) =
      chord l x y x"
    unfolding chord_def Let_def
  proof (rule jac_eqI)
    show "2 * Y * Z \<noteq> 0" using assms two_nonzero(1) by simp
    have "(l * (2 * y)) * (l * (2 * y)) = 9 * x * x * x * x" unfolding l by simp
    then have l2: "4 * (l * l * (y * y)) = 9 * x * x * x * x" by (simp add: algebra_simps)
    show "9 * X * X * X * X - 8 * X * Y * Y = (l * l - x - x) * (2 * Y * Z * (2 * Y * Z))"
      unfolding xy using l2 by algebra
    show "36 * X * X * X * Y * Y - 27 * X * X * X * X * X * X - 8 * Y * Y * Y * Y =
        (l * (x - (l * l - x - x)) - y) * (2 * Y * Z * (2 * Y * Z) * (2 * Y * Z))"
      unfolding xy using l by algebra
  qed
  then show ?thesis using y two_nonzero(1) by (simp add: xy(3) double_zero_iff l_def)
qed


lemma add_formula:
  assumes "Z1 \<noteq> 0" and "Z2 \<noteq> 0" and H: "H = X2 * (Z1 * Z1) - X1 * (Z2 * Z2)" "H \<noteq> 0"
    and I: "I = Y2 * (Z1 * Z1) * Z1 - Y1 * (Z2 * Z2) * Z2"
  defines "X3 \<equiv> I * I - H * (H * H) - 2 * (X1 * (Z2 * Z2) * (H * H))"
  shows "jac X3 (I * (X1 * (Z2 * Z2) * (H * H) - X3) - H * (H * H) * (Y1 * (Z2 * Z2) * Z2)) (Z1 * (H * Z2)) =
    padd (jac X1 Y1 Z1) (jac X2 Y2 Z2)"
proof -
  obtain x1 y1 where 1: "X1 = x1 * (Z1 * Z1)" "Y1 = y1 * (Z1 * Z1 * Z1)" "jac X1 Y1 Z1 = Pt x1 y1"
    using jac_obtain [OF assms(1)] by metis
  obtain x2 y2 where 2: "X2 = x2 * (Z2 * Z2)" "Y2 = y2 * (Z2 * Z2 * Z2)" "jac X2 Y2 Z2 = Pt x2 y2"
    using jac_obtain [OF assms(2)] by metis
  define Z where "Z = Z1 * Z2"
  have h: "H = (x2 - x1) * (Z * Z)" unfolding H 1 2 Z_def by algebra
  have i: "I = (y2 - y1) * (Z * Z * Z)" unfolding I 1 2 Z_def by algebra
  have u: "X1 * (Z2 * Z2) = x1 * (Z * Z)" "Y1 * (Z2 * Z2) * Z2 = y1 * (Z * Z * Z)" "Z1 * (H * Z2) = H * Z"
    unfolding 1 2 Z_def by algebra+
  have x: "x1 \<noteq> x2" using H(2) h by auto
  define l where "l = (y2 - y1) / (x2 - x1)"
  have l: "l * (x2 - x1) = y2 - y1" using x by (simp add: l_def)
  have X3: "X3 = (l * l - x1 - x2) * (H * Z * (H * Z))"
    unfolding X3_def u i l [symmetric] h by algebra
  have "jac X3 (I * (X1 * (Z2 * Z2) * (H * H) - X3) - H * (H * H) * (Y1 * (Z2 * Z2) * Z2)) (Z1 * (H * Z2)) = chord l x1 y1 x2"
    unfolding chord_def Let_def u
  proof (rule jac_eqI)
    show "H * Z \<noteq> 0" using H(2) assms(1,2) by (simp add: Z_def)
    show "I * (x1 * (Z * Z) * (H * H) - X3) - H * (H * H) * (y1 * (Z * Z * Z)) =
        (l * (x1 - (l * l - x1 - x2)) - y1) * (H * Z * (H * Z) * (H * Z))"
      unfolding X3 i l [symmetric] h by algebra
  qed (rule X3)
  then show ?thesis using x by (simp add: 1(3) 2(3) l_def)
qed

text \<open>The unified formula, for two points of the curve with \<open>y1 + y2\<close> not zero, and its other form.\<close>

lemma slope_unified:
  assumes "y1 * y1 = x1 * x1 * x1 + (b :: gfp)" and "y2 * y2 = x2 * x2 * x2 + b" and "y1 + y2 \<noteq> 0"
  shows "padd (Pt x1 y1) (Pt x2 y2) = chord ((x1 * x1 + x1 * x2 + x2 * x2) / (y1 + y2)) x1 y1 x2"
proof (cases "x1 = x2")
  case True
  then have "(y1 - y2) * (y1 + y2) = 0" using assms(1,2) by (simp add: algebra_simps)
  then have "y1 = y2" using assms(3) by simp
  then show ?thesis using True assms(3) by (simp add: algebra_simps)
next
  case False
  have "(y2 - y1) * (y1 + y2) = (x1 * x1 + x1 * x2 + x2 * x2) * (x2 - x1)"
    using assms(1,2) by algebra
  then have "(y2 - y1) / (x2 - x1) = (x1 * x1 + x1 * x2 + x2 * x2) / (y1 + y2)"
    using False assms(3) by (simp add: frac_eq_eq)
  then show ?thesis using False by simp
qed

lemma padd_on_curve: "on_curve P \<Longrightarrow> on_curve Q \<Longrightarrow> on_curve (padd P Q)"
proof -
  have chord: "on_curve (chord l x1 y1 x2)"
    if "y1 * y1 = x1 * x1 * x1 + 7" "l * (x2 - x1) = y2 - y1" "y2 * y2 = x2 * x2 * x2 + 7" "x1 \<noteq> x2" for l x1 y1 x2 y2
  proof -
    have y2: "y2 = y1 + l * (x2 - x1)" using that(2) by simp
    have "(x2 - x1) * (2 * y1 * l + l * l * (x2 - x1) - (x1 * x1 + x1 * x2 + x2 * x2)) = 0"
      using that(1,3) unfolding y2 by algebra
    then have "2 * y1 * l + l * l * (x2 - x1) = x1 * x1 + x1 * x2 + x2 * x2" using that(4) by simp
    then show ?thesis using that(1) unfolding chord_def Let_def on_curve_simps by algebra
  qed
  have tangent: "on_curve (chord l x1 y1 x1)" if "y1 * y1 = x1 * x1 * x1 + 7" "l * (2 * y1) = 3 * x1 * x1" for l x1 y1
    using that unfolding chord_def Let_def on_curve_simps by algebra
  assume "on_curve P" "on_curve Q"
  then show ?thesis
  proof (cases P; cases Q)
    fix x1 y1 x2 y2
    assume PQ: "P = Pt x1 y1" "Q = Pt x2 y2"
    assume on: "on_curve P" "on_curve Q"
    show ?thesis
    proof (cases "x1 = x2")
      case True
      show ?thesis
      proof (cases "y1 + y2 = 0")
        case False
        then have "y1 = y2" using on_curve_same_x [of x1 y1 y2] on True PQ by auto
        then have "2 * y1 \<noteq> 0" using False by (metis mult_2)
        then have "on_curve (chord (3 * x1 * x1 / (2 * y1)) x1 y1 x1)"
          using on by (intro tangent) (simp_all add: PQ)
        then show ?thesis using True False by (simp add: PQ)
      qed (simp add: PQ True)
    next
      case False
      then have "on_curve (chord ((y2 - y1) / (x2 - x1)) x1 y1 x2)"
        using on by (intro chord [of y1 x1 _ x2 y2]) (simp_all add: PQ)
      then show ?thesis using False by (simp add: PQ)
    qed
  qed simp_all
qed

subsection \<open>No point of order two\<close>

text \<open>
  Minus seven is not a cube, so the curve has no point of order two: doubling never meets a vertical
  tangent, which is why the library's doubling formula needs no case for it.
\<close>

lemma p_numeral: "secp256k1_p = 0xfffffffffffffffffffffffffffffffffffffffffffffffffffffffefffffc2f"
  by (simp add: secp256k1_p_def)

lemma seven_power:
  obtains e :: nat where "nat secp256k1_p - 1 = 3 * e" and "even e" and "(7 :: int) ^ e mod secp256k1_p \<noteq> 1"
proof
  show "nat secp256k1_p - 1 = 3 * 0x55555555555555555555555555555555555555555555555555555554fffffeba"
    by (simp add: secp256k1_p_def)
  show "even (0x55555555555555555555555555555555555555555555555555555554fffffeba :: nat)" by simp
  show "(7 :: int) ^ 0x55555555555555555555555555555555555555555555555555555554fffffeba mod secp256k1_p \<noteq> 1"
    unfolding p_numeral by (rule seven_power_ne_1)
qed

lemma cube_ne_minus_7: "x * x * x + 7 \<noteq> (0 :: gfp)"
proof
  assume x: "x * x * x + 7 = 0"
  obtain e :: nat where e: "nat secp256k1_p - 1 = 3 * e" "even e" "(7 :: int) ^ e mod secp256k1_p \<noteq> 1"
    by (rule seven_power)
  have "gf 7 \<noteq> 0" unfolding gf_eq_0_iff by (auto simp: secp256k1_p_def dest!: zdvd_imp_le)
  then have "x \<noteq> 0" using x by (auto simp: gf_numeral)
  then have "x ^ (3 * e) = 1" using gfp_fermat e(1) by simp
  moreover have "x ^ 3 = - gf 7"
    using x by (simp add: gf_numeral power3_eq_cube eq_neg_iff_add_eq_0)
  ultimately have "(- gf 7) ^ e = 1" by (simp only: power_mult)
  then have "gf (7 ^ e) = gf 1" using e(2) by (simp only: power_minus_even gf_power gf_hom)
  then have "(7 :: int) ^ e mod secp256k1_p = 1 mod secp256k1_p" by (simp only: gf_eq_iff)
  then show False using e(3) p_gt_1 by simp
qed

lemma on_curve_y: "on_curve (Pt x y) \<Longrightarrow> y \<noteq> 0"
  using cube_ne_minus_7 [of x] by (auto simp: on_curve_def)

subsection \<open>Isomorphic curves\<close>

text \<open>
  Dropping a common denominator \<open>S\<close> of the \<open>z\<close> coordinates maps a point \<open>(x, y)\<close> to \<open>(x S^2, y S^3)\<close> on the
  curve \<open>y^2 = x^3 + 7 S^6\<close>. The addition formulas do not mention the constant, so they are the same there.
\<close>

definition on_iso :: "gfp \<Rightarrow> point \<Rightarrow> bool" where
  "on_iso S P \<longleftrightarrow> S \<noteq> 0 \<and>
     (case P of Infinity \<Rightarrow> True | Pt x y \<Rightarrow> y * y = x * x * x + 7 * (S * S * S * (S * S * S)))"

lemma on_iso_simps:
  "on_iso S Infinity \<longleftrightarrow> S \<noteq> 0" "on_iso S (Pt x y) \<longleftrightarrow> S \<noteq> 0 \<and> y * y = x * x * x + 7 * (S * S * S * (S * S * S))"
  by (simp_all add: on_iso_def)

lemma on_iso_1: "on_iso 1 P \<longleftrightarrow> on_curve P"
  by (cases P) (simp_all add: on_iso_simps)

lemma on_iso_nonzero: "on_iso S P \<Longrightarrow> S \<noteq> 0"
  by (simp add: on_iso_def)

definition scale_point :: "gfp \<Rightarrow> point \<Rightarrow> point" where
  "scale_point S P = (case P of Infinity \<Rightarrow> Infinity | Pt x y \<Rightarrow> Pt (x * (S * S)) (y * (S * S * S)))"

lemma scale_point_simps [simp]:
  "scale_point S Infinity = Infinity" "scale_point S (Pt x y) = Pt (x * (S * S)) (y * (S * S * S))"
  by (simp_all add: scale_point_def)

lemma scale_point_1 [simp]: "scale_point 1 P = P"
  by (cases P) simp_all

lemma on_iso_scale: "S \<noteq> 0 \<Longrightarrow> on_curve P \<Longrightarrow> on_iso S (scale_point S P)"
proof (cases P)
  fix x y
  assume S: "S \<noteq> 0" and P: "on_curve P" "P = Pt x y"
  have "y * (S * S * S) * (y * (S * S * S)) =
      x * (S * S) * (x * (S * S)) * (x * (S * S)) + 7 * (S * S * S * (S * S * S))"
    using P(1) unfolding P(2) on_curve_simps by algebra
  then show "on_iso S (scale_point S P)" unfolding P(2) scale_point_simps on_iso_simps using S by blast
qed (simp add: on_iso_simps)

lemma on_iso_unscale:
  assumes "on_iso S Q"
  obtains P where "on_curve P" and "Q = scale_point S P"
proof (cases Q)
  case (Pt x y)
  have S: "S \<noteq> 0" using assms by (rule on_iso_nonzero)
  define u v where "u = x / (S * S)" and "v = y / (S * S * S)"
  have xy: "x = u * (S * S)" "y = v * (S * S * S)" using S by (simp_all add: u_def v_def)
  have "(v * v - u * u * u - 7) * (S * S * S * (S * S * S)) = 0"
    using assms unfolding Pt xy on_iso_simps by algebra
  then have "v * v - u * u * u - 7 = 0" using S by simp
  then have "on_curve (Pt u v)" by (simp add: algebra_simps)
  then show ?thesis by (rule that) (simp add: Pt xy)
qed (auto intro: that [of Infinity])

lemma on_iso_y: "on_iso S (Pt x y) \<Longrightarrow> y \<noteq> 0"
proof -
  assume on: "on_iso S (Pt x y)"
  then obtain P where P: "on_curve P" "Pt x y = scale_point S P" by (rule on_iso_unscale)
  then obtain u v where "P = Pt u v" "y = v * (S * S * S)" by (cases P) auto
  then show ?thesis using P(1) on_curve_y on_iso_nonzero [OF on] by auto
qed

lemma on_iso_same_x: "on_iso S (Pt x y1) \<Longrightarrow> on_iso S (Pt x y2) \<Longrightarrow> y1 = y2 \<or> y1 + y2 = 0"
proof -
  assume "on_iso S (Pt x y1)" "on_iso S (Pt x y2)"
  then have "(y1 - y2) * (y1 + y2) = 0" by (simp add: on_iso_simps algebra_simps)
  then show ?thesis by simp
qed

lemma padd_scale:
  assumes "S \<noteq> 0"
  shows "padd (scale_point S P) (scale_point S Q) = scale_point S (padd P Q)"
proof (cases P; cases Q)
  fix x1 y1 x2 y2
  assume P: "P = Pt x1 y1" "Q = Pt x2 y2"
  have chord: "chord (l * S) (x1 * (S * S)) (y1 * (S * S * S)) (x2 * (S * S)) = scale_point S (chord l x1 y1 x2)" for l x2
    by (simp add: chord_def Let_def algebra_simps)
  have slope: "3 * (x1 * (S * S)) * (x1 * (S * S)) / (2 * (y1 * (S * S * S))) = 3 * x1 * x1 / (2 * y1) * S"
    "(y2 * (S * S * S) - y1 * (S * S * S)) / (x2 * (S * S) - x1 * (S * S)) = (y2 - y1) / (x2 - x1) * S"
    using assms by (simp_all add: divide_simps flip: left_diff_distrib)
  have z: "y1 * (S * S * S) + y2 * (S * S * S) = 0 \<longleftrightarrow> y1 + y2 = 0"
    using assms by (simp flip: distrib_right)
  show ?thesis using assms unfolding P scale_point_simps padd.simps slope z chord by simp
qed simp_all

end
