(* ===== verification/Group_Impl.thy ===== *)
theory Group_Impl
  imports Curve
begin

text \<open>
  Points of the curve in affine and Jacobian coordinates (\<open>group.h\<close>, \<open>group_impl.h\<close>). Where the
  source leaves a member of \<open>*r\<close> unwritten on some path, the old \<open>*r\<close> is the first argument. The
  optional result \<open>*rzr\<close> (the ratio of the new to the old \<open>z\<close>) is an \<open>option\<close>, \<open>None\<close> for \<open>NULL\<close>.
  In the source \<open>r\<close> may be the same object as \<open>a\<close>: every member of \<open>*a\<close> is read before the member of
  \<open>*r\<close> with its name is written, so the functions below, which read the old \<open>a\<close>, are what it computes.

  The specification is the chord-and-tangent addition \<open>padd\<close> on affine points over the field \<open>gfp\<close>.
\<close>

subsection \<open>Group elements\<close>

record secp256k1_ge =
  ge_x :: secp256k1_fe
  ge_y :: secp256k1_fe
  ge_infinity :: bool

record secp256k1_gej =
  gej_x :: secp256k1_fe
  gej_y :: secp256k1_fe
  gej_z :: secp256k1_fe
  gej_infinity :: bool

record secp256k1_ge_storage =
  gs_x :: secp256k1_fe_storage
  gs_y :: secp256k1_fe_storage

definition CURVE_B :: u32 where
  "CURVE_B = 7"

definition secp256k1_ge_const_g :: secp256k1_ge where
  "secp256k1_ge_const_g = \<lparr>
     ge_x = SECP256K1_FE_CONST 0x79BE667E 0xF9DCBBAC 0x55A06295 0xCE870B07 0x029BFCDB 0x2DCE28D9 0x59F2815B 0x16F81798,
     ge_y = SECP256K1_FE_CONST 0x483ADA77 0x26A3C465 0x5DA4FBFC 0x0E1108A8 0xFD17B448 0xA6855419 0x9C47D08F 0xFB10D4B8,
     ge_infinity = False\<rparr>"

subsection \<open>Conversions\<close>

definition secp256k1_ge_set_gej_zinv :: "secp256k1_gej \<Rightarrow> secp256k1_fe \<Rightarrow> secp256k1_ge" where
  "secp256k1_ge_set_gej_zinv a zi =
     (let zi2 = secp256k1_fe_sqr zi;
          zi3 = secp256k1_fe_mul zi2 zi
      in \<lparr>ge_x = secp256k1_fe_mul (gej_x a) zi2, ge_y = secp256k1_fe_mul (gej_y a) zi3, ge_infinity = gej_infinity a\<rparr>)"

definition secp256k1_ge_set_xy :: "secp256k1_fe \<Rightarrow> secp256k1_fe \<Rightarrow> secp256k1_ge" where
  "secp256k1_ge_set_xy x y = \<lparr>ge_x = x, ge_y = y, ge_infinity = False\<rparr>"

definition secp256k1_ge_is_infinity :: "secp256k1_ge \<Rightarrow> bool" where
  "secp256k1_ge_is_infinity a = ge_infinity a"

definition secp256k1_ge_neg :: "secp256k1_ge \<Rightarrow> secp256k1_ge" where
  "secp256k1_ge_neg a =
     (let r = a;
          r = r\<lparr>ge_y := secp256k1_fe_normalize_weak (ge_y r)\<rparr>
      in r\<lparr>ge_y := secp256k1_fe_negate (ge_y r) 1\<rparr>)"

text \<open>Both \<open>*r\<close> and \<open>*a\<close> are results.\<close>

definition secp256k1_ge_set_gej :: "secp256k1_gej \<Rightarrow> secp256k1_ge \<times> secp256k1_gej" where
  "secp256k1_ge_set_gej a =
     (let z = secp256k1_fe_inv (gej_z a);
          z2 = secp256k1_fe_sqr z;
          z3 = secp256k1_fe_mul z z2;
          x = secp256k1_fe_mul (gej_x a) z2;
          y = secp256k1_fe_mul (gej_y a) z3
      in (\<lparr>ge_x = x, ge_y = y, ge_infinity = gej_infinity a\<rparr>,
          a\<lparr>gej_x := x, gej_y := y, gej_z := secp256k1_fe_set_int 1\<rparr>))"

definition secp256k1_ge_set_gej_var :: "secp256k1_ge \<Rightarrow> secp256k1_gej \<Rightarrow> secp256k1_ge \<times> secp256k1_gej" where
  "secp256k1_ge_set_gej_var r a =
     (let r = r\<lparr>ge_infinity := gej_infinity a\<rparr>
      in if gej_infinity a then (r, a)
         else (let z = secp256k1_fe_inv_var (gej_z a);
                   z2 = secp256k1_fe_sqr z;
                   z3 = secp256k1_fe_mul z z2;
                   x = secp256k1_fe_mul (gej_x a) z2;
                   y = secp256k1_fe_mul (gej_y a) z3
               in (r\<lparr>ge_x := x, ge_y := y\<rparr>, a\<lparr>gej_x := x, gej_y := y, gej_z := secp256k1_fe_set_int 1\<rparr>)))"

text \<open>\<open>azi0\<close> is the uninitialised array the inverses are written to.\<close>

definition secp256k1_ge_set_all_gej_var ::
  "secp256k1_fe list \<Rightarrow> secp256k1_ge list \<Rightarrow> secp256k1_gej list \<Rightarrow> nat \<Rightarrow> secp256k1_ge list" where
  "secp256k1_ge_set_all_gej_var azi0 r a len =
     (let az = foldl (\<lambda>az i. if \<not> gej_infinity (a ! i) then az @ [gej_z (a ! i)] else az) [] [0..<len];
          count = length az;
          azi = secp256k1_fe_inv_all_var azi0 az count;
          (r, count) = foldl (\<lambda>(r, count) i.
              let r = r[i := (r ! i)\<lparr>ge_infinity := gej_infinity (a ! i)\<rparr>]
              in if \<not> gej_infinity (a ! i)
                 then (r[i := secp256k1_ge_set_gej_zinv (a ! i) (azi ! count)], count + 1)
                 else (r, count)) (r, 0) [0..<len]
      in r)"

fun table_down ::
  "secp256k1_gej list \<Rightarrow> secp256k1_fe list \<Rightarrow> nat \<Rightarrow> secp256k1_fe \<Rightarrow> secp256k1_ge list \<Rightarrow> secp256k1_ge list" where
  "table_down a zr 0 zi r = r"
| "table_down a zr (Suc i) zi r =
     (let zi = secp256k1_fe_mul zi (zr ! Suc i)
      in table_down a zr i zi (r[i := secp256k1_ge_set_gej_zinv (a ! i) zi]))"

definition secp256k1_ge_set_table_gej_var ::
  "secp256k1_ge list \<Rightarrow> secp256k1_gej list \<Rightarrow> secp256k1_fe list \<Rightarrow> nat \<Rightarrow> secp256k1_ge list" where
  "secp256k1_ge_set_table_gej_var r a zr len =
     (if len > 0
      then (let i = len - 1;
                zi = secp256k1_fe_inv (gej_z (a ! i));
                r = r[i := secp256k1_ge_set_gej_zinv (a ! i) zi]
            in table_down a zr i zi r)
      else r)"

fun globalz_down ::
  "nat \<Rightarrow> secp256k1_gej list \<Rightarrow> secp256k1_fe list \<Rightarrow> nat \<Rightarrow> secp256k1_fe \<Rightarrow> secp256k1_ge list \<Rightarrow> secp256k1_ge list" where
  "globalz_down len a zr 0 zs r = r"
| "globalz_down len a zr (Suc i) zs r =
     (let zs = (if Suc i \<noteq> len - 1 then secp256k1_fe_mul zs (zr ! Suc i) else zs)
      in globalz_down len a zr i zs (r[i := secp256k1_ge_set_gej_zinv (a ! i) zs]))"

text \<open>The table and \<open>*globalz\<close>.\<close>

definition secp256k1_ge_globalz_set_table_gej ::
  "nat \<Rightarrow> secp256k1_ge list \<Rightarrow> secp256k1_fe \<Rightarrow> secp256k1_gej list \<Rightarrow> secp256k1_fe list \<Rightarrow>
   secp256k1_ge list \<times> secp256k1_fe" where
  "secp256k1_ge_globalz_set_table_gej len r globalz a zr =
     (if len > 0
      then (let i = len - 1;
                r = r[i := \<lparr>ge_x = gej_x (a ! i), ge_y = gej_y (a ! i), ge_infinity = False\<rparr>];
                globalz = gej_z (a ! i);
                zs = zr ! i
            in (globalz_down len a zr i zs r, globalz))
      else (r, globalz))"

definition secp256k1_gej_set_infinity :: secp256k1_gej where
  "secp256k1_gej_set_infinity =
     \<lparr>gej_x = secp256k1_fe_clear, gej_y = secp256k1_fe_clear, gej_z = secp256k1_fe_clear, gej_infinity = True\<rparr>"

definition secp256k1_gej_clear :: secp256k1_gej where
  "secp256k1_gej_clear =
     \<lparr>gej_x = secp256k1_fe_clear, gej_y = secp256k1_fe_clear, gej_z = secp256k1_fe_clear, gej_infinity = False\<rparr>"

definition secp256k1_ge_clear :: secp256k1_ge where
  "secp256k1_ge_clear = \<lparr>ge_x = secp256k1_fe_clear, ge_y = secp256k1_fe_clear, ge_infinity = False\<rparr>"

definition secp256k1_ge_set_xquad :: "secp256k1_fe \<Rightarrow> secp256k1_ge \<times> bool" where
  "secp256k1_ge_set_xquad x =
     (let x2 = secp256k1_fe_sqr x;
          x3 = secp256k1_fe_mul x x2;
          c = secp256k1_fe_set_int CURVE_B;
          c = secp256k1_fe_add c x3;
          (y, ok) = secp256k1_fe_sqrt c
      in (\<lparr>ge_x = x, ge_y = y, ge_infinity = False\<rparr>, ok))"

definition secp256k1_ge_set_xo_var :: "secp256k1_fe \<Rightarrow> u32 \<Rightarrow> secp256k1_ge \<times> bool" where
  "secp256k1_ge_set_xo_var x oddness =
     (let (r, ok) = secp256k1_ge_set_xquad x
      in if \<not> ok then (r, False)
         else (let r = r\<lparr>ge_y := secp256k1_fe_normalize_var (ge_y r)\<rparr>;
                   r = (if secp256k1_fe_is_odd (ge_y r) \<noteq> oddness
                        then r\<lparr>ge_y := secp256k1_fe_negate (ge_y r) 1\<rparr> else r)
               in (r, True)))"

definition secp256k1_gej_set_ge :: "secp256k1_ge \<Rightarrow> secp256k1_gej" where
  "secp256k1_gej_set_ge a =
     \<lparr>gej_x = ge_x a, gej_y = ge_y a, gej_z = secp256k1_fe_set_int 1, gej_infinity = ge_infinity a\<rparr>"

definition secp256k1_gej_eq_x_var :: "secp256k1_fe \<Rightarrow> secp256k1_gej \<Rightarrow> bool" where
  "secp256k1_gej_eq_x_var x a =
     (let r = secp256k1_fe_sqr (gej_z a);
          r = secp256k1_fe_mul r x;
          r2 = gej_x a;
          r2 = secp256k1_fe_normalize_weak r2
      in secp256k1_fe_equal_var r r2)"

definition secp256k1_gej_neg :: "secp256k1_gej \<Rightarrow> secp256k1_gej" where
  "secp256k1_gej_neg a =
     (let y = gej_y a;
          y = secp256k1_fe_normalize_weak y;
          y = secp256k1_fe_negate y 1
      in \<lparr>gej_x = gej_x a, gej_y = y, gej_z = gej_z a, gej_infinity = gej_infinity a\<rparr>)"

definition secp256k1_gej_is_infinity :: "secp256k1_gej \<Rightarrow> bool" where
  "secp256k1_gej_is_infinity a = gej_infinity a"

definition secp256k1_gej_is_valid_var :: "secp256k1_gej \<Rightarrow> bool" where
  "secp256k1_gej_is_valid_var a =
     (if gej_infinity a then False
      else (let y2 = secp256k1_fe_sqr (gej_y a);
                x3 = secp256k1_fe_sqr (gej_x a);
                x3 = secp256k1_fe_mul x3 (gej_x a);
                z2 = secp256k1_fe_sqr (gej_z a);
                z6 = secp256k1_fe_sqr z2;
                z6 = secp256k1_fe_mul z6 z2;
                z6 = secp256k1_fe_mul_int z6 CURVE_B;
                x3 = secp256k1_fe_add x3 z6;
                x3 = secp256k1_fe_normalize_weak x3
            in secp256k1_fe_equal_var y2 x3))"

definition secp256k1_ge_is_valid_var :: "secp256k1_ge \<Rightarrow> bool" where
  "secp256k1_ge_is_valid_var a =
     (if ge_infinity a then False
      else (let y2 = secp256k1_fe_sqr (ge_y a);
                x3 = secp256k1_fe_sqr (ge_x a);
                x3 = secp256k1_fe_mul x3 (ge_x a);
                c = secp256k1_fe_set_int CURVE_B;
                x3 = secp256k1_fe_add x3 c;
                x3 = secp256k1_fe_normalize_weak x3
            in secp256k1_fe_equal_var y2 x3))"

subsection \<open>Doubling and addition\<close>

definition secp256k1_gej_double_var ::
  "secp256k1_gej \<Rightarrow> secp256k1_gej \<Rightarrow> secp256k1_fe option \<Rightarrow> secp256k1_gej \<times> secp256k1_fe option" where
  "secp256k1_gej_double_var r a rzr =
     (let r = r\<lparr>gej_infinity := gej_infinity a\<rparr>
      in if gej_infinity r then (r, map_option (\<lambda>_. secp256k1_fe_set_int 1) rzr)
         else (let rzr = map_option (\<lambda>_. secp256k1_fe_mul_int (secp256k1_fe_normalize_weak (gej_y a)) 2) rzr;
                   rz = secp256k1_fe_mul (gej_z a) (gej_y a);
                   rz = secp256k1_fe_mul_int rz 2;
                   t1 = secp256k1_fe_sqr (gej_x a);
                   t1 = secp256k1_fe_mul_int t1 3;
                   t2 = secp256k1_fe_sqr t1;
                   t3 = secp256k1_fe_sqr (gej_y a);
                   t3 = secp256k1_fe_mul_int t3 2;
                   t4 = secp256k1_fe_sqr t3;
                   t4 = secp256k1_fe_mul_int t4 2;
                   t3 = secp256k1_fe_mul t3 (gej_x a);
                   rx = t3;
                   rx = secp256k1_fe_mul_int rx 4;
                   rx = secp256k1_fe_negate rx 4;
                   rx = secp256k1_fe_add rx t2;
                   t2 = secp256k1_fe_negate t2 1;
                   t3 = secp256k1_fe_mul_int t3 6;
                   t3 = secp256k1_fe_add t3 t2;
                   ry = secp256k1_fe_mul t1 t3;
                   t2 = secp256k1_fe_negate t4 2;
                   ry = secp256k1_fe_add ry t2
               in (r\<lparr>gej_x := rx, gej_y := ry, gej_z := rz\<rparr>, rzr)))"

definition secp256k1_gej_double_nonzero ::
  "secp256k1_gej \<Rightarrow> secp256k1_gej \<Rightarrow> secp256k1_fe option \<Rightarrow> secp256k1_gej \<times> secp256k1_fe option" where
  "secp256k1_gej_double_nonzero r a rzr = secp256k1_gej_double_var r a rzr"

definition secp256k1_gej_add_var ::
  "secp256k1_gej \<Rightarrow> secp256k1_gej \<Rightarrow> secp256k1_gej \<Rightarrow> secp256k1_fe option \<Rightarrow> secp256k1_gej \<times> secp256k1_fe option" where
  "secp256k1_gej_add_var r a b rzr =
     (if gej_infinity a then (b, rzr)
      else if gej_infinity b then (a, map_option (\<lambda>_. secp256k1_fe_set_int 1) rzr)
      else (let r = r\<lparr>gej_infinity := False\<rparr>;
                z22 = secp256k1_fe_sqr (gej_z b);
                z12 = secp256k1_fe_sqr (gej_z a);
                u1 = secp256k1_fe_mul (gej_x a) z22;
                u2 = secp256k1_fe_mul (gej_x b) z12;
                s1 = secp256k1_fe_mul (gej_y a) z22;
                s1 = secp256k1_fe_mul s1 (gej_z b);
                s2 = secp256k1_fe_mul (gej_y b) z12;
                s2 = secp256k1_fe_mul s2 (gej_z a);
                h = secp256k1_fe_negate u1 1;
                h = secp256k1_fe_add h u2;
                i = secp256k1_fe_negate s1 1;
                i = secp256k1_fe_add i s2
            in if secp256k1_fe_normalizes_to_zero_var h
               then (if secp256k1_fe_normalizes_to_zero_var i
                     then secp256k1_gej_double_var r a rzr
                     else (r\<lparr>gej_infinity := True\<rparr>, map_option (\<lambda>_. secp256k1_fe_set_int 0) rzr))
               else (let i2 = secp256k1_fe_sqr i;
                         h2 = secp256k1_fe_sqr h;
                         h3 = secp256k1_fe_mul h h2;
                         h = secp256k1_fe_mul h (gej_z b);
                         rzr = map_option (\<lambda>_. h) rzr;
                         rz = secp256k1_fe_mul (gej_z a) h;
                         t = secp256k1_fe_mul u1 h2;
                         rx = t;
                         rx = secp256k1_fe_mul_int rx 2;
                         rx = secp256k1_fe_add rx h3;
                         rx = secp256k1_fe_negate rx 3;
                         rx = secp256k1_fe_add rx i2;
                         ry = secp256k1_fe_negate rx 5;
                         ry = secp256k1_fe_add ry t;
                         ry = secp256k1_fe_mul ry i;
                         h3 = secp256k1_fe_mul h3 s1;
                         h3 = secp256k1_fe_negate h3 1;
                         ry = secp256k1_fe_add ry h3
                     in (r\<lparr>gej_x := rx, gej_y := ry, gej_z := rz\<rparr>, rzr))))"

definition secp256k1_gej_add_ge_var ::
  "secp256k1_gej \<Rightarrow> secp256k1_gej \<Rightarrow> secp256k1_ge \<Rightarrow> secp256k1_fe option \<Rightarrow> secp256k1_gej \<times> secp256k1_fe option" where
  "secp256k1_gej_add_ge_var r a b rzr =
     (if gej_infinity a then (secp256k1_gej_set_ge b, rzr)
      else if ge_infinity b then (a, map_option (\<lambda>_. secp256k1_fe_set_int 1) rzr)
      else (let r = r\<lparr>gej_infinity := False\<rparr>;
                z12 = secp256k1_fe_sqr (gej_z a);
                u1 = secp256k1_fe_normalize_weak (gej_x a);
                u2 = secp256k1_fe_mul (ge_x b) z12;
                s1 = secp256k1_fe_normalize_weak (gej_y a);
                s2 = secp256k1_fe_mul (ge_y b) z12;
                s2 = secp256k1_fe_mul s2 (gej_z a);
                h = secp256k1_fe_negate u1 1;
                h = secp256k1_fe_add h u2;
                i = secp256k1_fe_negate s1 1;
                i = secp256k1_fe_add i s2
            in if secp256k1_fe_normalizes_to_zero_var h
               then (if secp256k1_fe_normalizes_to_zero_var i
                     then secp256k1_gej_double_var r a rzr
                     else (r\<lparr>gej_infinity := True\<rparr>, map_option (\<lambda>_. secp256k1_fe_set_int 0) rzr))
               else (let i2 = secp256k1_fe_sqr i;
                         h2 = secp256k1_fe_sqr h;
                         h3 = secp256k1_fe_mul h h2;
                         rzr = map_option (\<lambda>_. h) rzr;
                         rz = secp256k1_fe_mul (gej_z a) h;
                         t = secp256k1_fe_mul u1 h2;
                         rx = t;
                         rx = secp256k1_fe_mul_int rx 2;
                         rx = secp256k1_fe_add rx h3;
                         rx = secp256k1_fe_negate rx 3;
                         rx = secp256k1_fe_add rx i2;
                         ry = secp256k1_fe_negate rx 5;
                         ry = secp256k1_fe_add ry t;
                         ry = secp256k1_fe_mul ry i;
                         h3 = secp256k1_fe_mul h3 s1;
                         h3 = secp256k1_fe_negate h3 1;
                         ry = secp256k1_fe_add ry h3
                     in (r\<lparr>gej_x := rx, gej_y := ry, gej_z := rz\<rparr>, rzr))))"

definition secp256k1_gej_add_zinv_var ::
  "secp256k1_gej \<Rightarrow> secp256k1_gej \<Rightarrow> secp256k1_ge \<Rightarrow> secp256k1_fe \<Rightarrow> secp256k1_gej" where
  "secp256k1_gej_add_zinv_var r a b bzinv =
     (if ge_infinity b then a
      else if gej_infinity a
      then (let bzinv2 = secp256k1_fe_sqr bzinv;
                bzinv3 = secp256k1_fe_mul bzinv2 bzinv
            in \<lparr>gej_x = secp256k1_fe_mul (ge_x b) bzinv2, gej_y = secp256k1_fe_mul (ge_y b) bzinv3,
                gej_z = secp256k1_fe_set_int 1, gej_infinity = ge_infinity b\<rparr>)
      else (let r = r\<lparr>gej_infinity := False\<rparr>;
                az = secp256k1_fe_mul (gej_z a) bzinv;
                z12 = secp256k1_fe_sqr az;
                u1 = secp256k1_fe_normalize_weak (gej_x a);
                u2 = secp256k1_fe_mul (ge_x b) z12;
                s1 = secp256k1_fe_normalize_weak (gej_y a);
                s2 = secp256k1_fe_mul (ge_y b) z12;
                s2 = secp256k1_fe_mul s2 az;
                h = secp256k1_fe_negate u1 1;
                h = secp256k1_fe_add h u2;
                i = secp256k1_fe_negate s1 1;
                i = secp256k1_fe_add i s2
            in if secp256k1_fe_normalizes_to_zero_var h
               then (if secp256k1_fe_normalizes_to_zero_var i
                     then fst (secp256k1_gej_double_var r a None)
                     else r\<lparr>gej_infinity := True\<rparr>)
               else (let i2 = secp256k1_fe_sqr i;
                         h2 = secp256k1_fe_sqr h;
                         h3 = secp256k1_fe_mul h h2;
                         rz = gej_z a;
                         rz = secp256k1_fe_mul rz h;
                         t = secp256k1_fe_mul u1 h2;
                         rx = t;
                         rx = secp256k1_fe_mul_int rx 2;
                         rx = secp256k1_fe_add rx h3;
                         rx = secp256k1_fe_negate rx 3;
                         rx = secp256k1_fe_add rx i2;
                         ry = secp256k1_fe_negate rx 5;
                         ry = secp256k1_fe_add ry t;
                         ry = secp256k1_fe_mul ry i;
                         h3 = secp256k1_fe_mul h3 s1;
                         h3 = secp256k1_fe_negate h3 1;
                         ry = secp256k1_fe_add ry h3
                     in r\<lparr>gej_x := rx, gej_y := ry, gej_z := rz\<rparr>)))"

text \<open>The constant-time addition of a Jacobian and an affine point. A C truth value that is passed as
  a \<open>flag\<close> is \<open>of_bool\<close> of the condition.\<close>

definition secp256k1_gej_add_ge :: "secp256k1_gej \<Rightarrow> secp256k1_ge \<Rightarrow> secp256k1_gej" where
  "secp256k1_gej_add_ge a b =
     (let fe_1 = SECP256K1_FE_CONST 0 0 0 0 0 0 0 1;
          zz = secp256k1_fe_sqr (gej_z a);
          u1 = secp256k1_fe_normalize_weak (gej_x a);
          u2 = secp256k1_fe_mul (ge_x b) zz;
          s1 = secp256k1_fe_normalize_weak (gej_y a);
          s2 = secp256k1_fe_mul (ge_y b) zz;
          s2 = secp256k1_fe_mul s2 (gej_z a);
          t = secp256k1_fe_add u1 u2;
          m = secp256k1_fe_add s1 s2;
          rr = secp256k1_fe_sqr t;
          m_alt = secp256k1_fe_negate u2 1;
          tt = secp256k1_fe_mul u1 m_alt;
          rr = secp256k1_fe_add rr tt;
          degenerate = (secp256k1_fe_normalizes_to_zero m \<and> secp256k1_fe_normalizes_to_zero rr);
          rr_alt = s1;
          rr_alt = secp256k1_fe_mul_int rr_alt 2;
          m_alt = secp256k1_fe_add m_alt u1;
          rr_alt = secp256k1_fe_cmov rr_alt rr (of_bool (\<not> degenerate));
          m_alt = secp256k1_fe_cmov m_alt m (of_bool (\<not> degenerate));
          n = secp256k1_fe_sqr m_alt;
          q = secp256k1_fe_mul n t;
          n = secp256k1_fe_sqr n;
          n = secp256k1_fe_cmov n m (of_bool degenerate);
          t = secp256k1_fe_sqr rr_alt;
          rz = secp256k1_fe_mul (gej_z a) m_alt;
          infinity = (secp256k1_fe_normalizes_to_zero rz \<and> \<not> gej_infinity a);
          rz = secp256k1_fe_mul_int rz 2;
          q = secp256k1_fe_negate q 1;
          t = secp256k1_fe_add t q;
          t = secp256k1_fe_normalize_weak t;
          rx = t;
          t = secp256k1_fe_mul_int t 2;
          t = secp256k1_fe_add t q;
          t = secp256k1_fe_mul t rr_alt;
          t = secp256k1_fe_add t n;
          ry = secp256k1_fe_negate t 3;
          ry = secp256k1_fe_normalize_weak ry;
          rx = secp256k1_fe_mul_int rx 4;
          ry = secp256k1_fe_mul_int ry 4;
          rx = secp256k1_fe_cmov rx (ge_x b) (of_bool (gej_infinity a));
          ry = secp256k1_fe_cmov ry (ge_y b) (of_bool (gej_infinity a));
          rz = secp256k1_fe_cmov rz fe_1 (of_bool (gej_infinity a))
      in \<lparr>gej_x = rx, gej_y = ry, gej_z = rz, gej_infinity = infinity\<rparr>)"

definition secp256k1_gej_rescale :: "secp256k1_gej \<Rightarrow> secp256k1_fe \<Rightarrow> secp256k1_gej" where
  "secp256k1_gej_rescale r s =
     (let zz = secp256k1_fe_sqr s;
          r = r\<lparr>gej_x := secp256k1_fe_mul (gej_x r) zz\<rparr>;
          r = r\<lparr>gej_y := secp256k1_fe_mul (gej_y r) zz\<rparr>;
          r = r\<lparr>gej_y := secp256k1_fe_mul (gej_y r) s\<rparr>
      in r\<lparr>gej_z := secp256k1_fe_mul (gej_z r) s\<rparr>)"

subsection \<open>Storage\<close>

definition secp256k1_ge_to_storage :: "secp256k1_ge \<Rightarrow> secp256k1_ge_storage" where
  "secp256k1_ge_to_storage a =
     (let x = secp256k1_fe_normalize (ge_x a);
          y = secp256k1_fe_normalize (ge_y a)
      in \<lparr>gs_x = secp256k1_fe_to_storage x, gs_y = secp256k1_fe_to_storage y\<rparr>)"

definition secp256k1_ge_from_storage :: "secp256k1_ge_storage \<Rightarrow> secp256k1_ge" where
  "secp256k1_ge_from_storage a =
     \<lparr>ge_x = secp256k1_fe_from_storage (gs_x a), ge_y = secp256k1_fe_from_storage (gs_y a), ge_infinity = False\<rparr>"

definition secp256k1_ge_storage_cmov ::
  "secp256k1_ge_storage \<Rightarrow> secp256k1_ge_storage \<Rightarrow> u32 \<Rightarrow> secp256k1_ge_storage" where
  "secp256k1_ge_storage_cmov r a flag =
     \<lparr>gs_x = secp256k1_fe_storage_cmov (gs_x r) (gs_x a) flag, gs_y = secp256k1_fe_storage_cmov (gs_y r) (gs_y a) flag\<rparr>"

definition secp256k1_gej_has_quad_y_var :: "secp256k1_gej \<Rightarrow> bool" where
  "secp256k1_gej_has_quad_y_var a =
     (if gej_infinity a then False
      else secp256k1_fe_is_quad_var (secp256k1_fe_mul (gej_y a) (gej_z a)))"

subsection \<open>Abstraction\<close>

text \<open>A Jacobian element that is not at infinity has coordinates of magnitude at most 8, the bound of
  the multiplication, and \<open>z\<close> not zero; the members of an element at infinity are arbitrary.\<close>

definition gej_ok :: "secp256k1_gej \<Rightarrow> bool" where
  "gej_ok a \<longleftrightarrow> gej_infinity a \<or>
     fe_magnitude 8 (gej_x a) \<and> fe_magnitude 8 (gej_y a) \<and> fe_magnitude 8 (gej_z a) \<and> fe_abs (gej_z a) \<noteq> 0"

definition gej_abs :: "secp256k1_gej \<Rightarrow> point" where
  "gej_abs a = (if gej_infinity a then Infinity
     else jac (fe_abs (gej_x a)) (fe_abs (gej_y a)) (fe_abs (gej_z a)))"

definition ge_ok :: "secp256k1_ge \<Rightarrow> bool" where
  "ge_ok a \<longleftrightarrow> ge_infinity a \<or> fe_magnitude 8 (ge_x a) \<and> fe_magnitude 8 (ge_y a)"

definition ge_abs :: "secp256k1_ge \<Rightarrow> point" where
  "ge_abs a = (if ge_infinity a then Infinity else Pt (fe_abs (ge_x a)) (fe_abs (ge_y a)))"

lemma fe_rep_self: "fe_magnitude m a \<Longrightarrow> fe_rep m (fe_abs a) a"
  by (simp add: fe_rep_def)

lemma gej_ok_finite:
  assumes "gej_ok a" and "\<not> gej_infinity a"
  shows "fe_rep 8 (fe_abs (gej_x a)) (gej_x a)" "fe_rep 8 (fe_abs (gej_y a)) (gej_y a)"
    "fe_rep 8 (fe_abs (gej_z a)) (gej_z a)" "fe_abs (gej_z a) \<noteq> 0"
    "gej_abs a = jac (fe_abs (gej_x a)) (fe_abs (gej_y a)) (fe_abs (gej_z a))"
  using assms by (simp_all add: gej_ok_def gej_abs_def fe_rep_self)

lemma gejI:
  assumes "fe_rep k X (gej_x r)" and "fe_rep l Y (gej_y r)" and "fe_rep m Z (gej_z r)"
    and "k \<le> 8" and "l \<le> 8" and "m \<le> 8" and "Z \<noteq> 0" and "\<not> gej_infinity r"
  shows "gej_ok r \<and> gej_abs r = jac X Y Z"
  using assms fe_magnitude_mono [of _ _ 8] by (auto simp: gej_ok_def gej_abs_def fe_rep_def)


lemma jac_y: "Z \<noteq> 0 \<Longrightarrow> on_iso S (jac X Y Z) \<Longrightarrow> Y \<noteq> 0"
  using on_iso_y [of S "X / (Z * Z)" "Y / (Z * Z * Z)"] by (auto simp: jac_def)

subsection \<open>Doubling\<close>

lemma double_var_refines:
  assumes "gej_ok a" and "on_iso S (gej_abs a)"
  shows "gej_ok (fst (secp256k1_gej_double_var r a rzr)) \<and>
    gej_abs (fst (secp256k1_gej_double_var r a rzr)) = padd (gej_abs a) (gej_abs a)"
proof (cases "gej_infinity a")
  case True
  then show ?thesis by (simp add: secp256k1_gej_double_var_def gej_ok_def gej_abs_def)
next
  case False
  define X Y Z where "X = fe_abs (gej_x a)" and "Y = fe_abs (gej_y a)" and "Z = fe_abs (gej_z a)"
  note a = gej_ok_finite [OF assms(1) False, folded X_def Y_def Z_def]
  have Y: "Y \<noteq> 0" using jac_y [OF a(4)] assms(2) a(5) by metis
  define d where "d = fst (secp256k1_gej_double_var r a rzr)"
  have "gej_ok d \<and> gej_abs d = jac (9 * X * X * X * X - 8 * X * Y * Y)
      (36 * X * X * X * Y * Y - 27 * X * X * X * X * X * X - 8 * Y * Y * Y * Y) (2 * Y * Z)"
  proof (rule gejI)
    show "fe_rep 6 (9 * X * X * X * X - 8 * X * Y * Y) (gej_x d)"
      unfolding d_def secp256k1_gej_double_var_def Let_def
      by (simp add: False, rule fe_repI, (rule fe_rules a | simp; fail)+, simp add: gf_numeral)
    show "fe_rep 4 (36 * X * X * X * Y * Y - 27 * X * X * X * X * X * X - 8 * Y * Y * Y * Y) (gej_y d)"
      unfolding d_def secp256k1_gej_double_var_def Let_def
      by (simp add: False, rule fe_repI, (rule fe_rules a | simp; fail)+, simp add: gf_numeral, algebra)
    show "fe_rep 2 (2 * Y * Z) (gej_z d)"
      unfolding d_def secp256k1_gej_double_var_def Let_def
      by (simp add: False, rule fe_repI, (rule fe_rules a | simp; fail)+, simp add: gf_numeral)
    show "2 * Y * Z \<noteq> 0" using Y a(4) two_nonzero(1) by simp
    show "\<not> gej_infinity d" using False by (simp add: d_def secp256k1_gej_double_var_def Let_def)
  qed simp_all
  then show ?thesis using double_formula [OF a(4) Y, of X] by (simp add: a(5) d_def)
qed


subsection \<open>Addition\<close>

text \<open>The last lines of the three variable-time additions, with \<open>u1\<close>, \<open>s1\<close>, \<open>h\<close> and \<open>i\<close> as computed
  there.\<close>

lemma add_tail:
  assumes "fe_rep 1 U u1" and "fe_rep 1 S s1" and "fe_rep 3 H h" and "fe_rep 3 I i"
  defines "X \<equiv> I * I - H * (H * H) - 2 * (U * (H * H))"
  shows "fe_rep 5 X (secp256k1_fe_add (secp256k1_fe_negate (secp256k1_fe_add (secp256k1_fe_mul_int
      (secp256k1_fe_mul u1 (secp256k1_fe_sqr h)) 2) (secp256k1_fe_mul h (secp256k1_fe_sqr h))) 3) (secp256k1_fe_sqr i))"
    and "fe_rep 5 X rx \<Longrightarrow> fe_rep 3 (I * (U * (H * H) - X) - H * (H * H) * S)
      (secp256k1_fe_add (secp256k1_fe_mul (secp256k1_fe_add (secp256k1_fe_negate rx 5)
        (secp256k1_fe_mul u1 (secp256k1_fe_sqr h))) i)
        (secp256k1_fe_negate (secp256k1_fe_mul (secp256k1_fe_mul h (secp256k1_fe_sqr h)) s1) 1))"
proof -
  show "fe_rep 5 X (secp256k1_fe_add (secp256k1_fe_negate (secp256k1_fe_add (secp256k1_fe_mul_int
      (secp256k1_fe_mul u1 (secp256k1_fe_sqr h)) 2) (secp256k1_fe_mul h (secp256k1_fe_sqr h))) 3) (secp256k1_fe_sqr i))"
    unfolding X_def by (rule fe_repI, (rule fe_rules assms(1-4) | simp; fail)+, simp add: gf_numeral)
  assume rx: "fe_rep 5 X rx"
  show "fe_rep 3 (I * (U * (H * H) - X) - H * (H * H) * S)
      (secp256k1_fe_add (secp256k1_fe_mul (secp256k1_fe_add (secp256k1_fe_negate rx 5)
        (secp256k1_fe_mul u1 (secp256k1_fe_sqr h))) i)
        (secp256k1_fe_negate (secp256k1_fe_mul (secp256k1_fe_mul h (secp256k1_fe_sqr h)) s1) 1))"
    by (rule fe_repI, (rule fe_rules assms(1-4) rx | simp; fail)+, (simp add: algebra_simps)?)
qed

lemma negate_add:
  assumes "fe_rep 1 x a" and "fe_rep 1 y b"
  shows "fe_rep 3 (y - x) (secp256k1_fe_add (secp256k1_fe_negate a 1) b)"
  by (rule fe_repI, (rule fe_rules assms | simp; fail)+)

lemma jac_eq_x: "Z1 \<noteq> 0 \<Longrightarrow> Z2 \<noteq> 0 \<Longrightarrow> X2 * (Z1 * Z1) - X1 * (Z2 * Z2) = 0 \<Longrightarrow> X1 / (Z1 * Z1) = X2 / (Z2 * Z2)"
  for Z1 :: gfp
  by (simp add: frac_eq_eq)

lemma jac_eq_y: "Z1 \<noteq> 0 \<Longrightarrow> Z2 \<noteq> 0 \<Longrightarrow>
    Y2 * (Z1 * Z1) * Z1 - Y1 * (Z2 * Z2) * Z2 = 0 \<longleftrightarrow> Y1 / (Z1 * Z1 * Z1) = Y2 / (Z2 * Z2 * Z2)"
  for Z1 :: gfp
  by (auto simp: frac_eq_eq mult_ac)

text \<open>The two degenerate cases.\<close>

lemma add_same_x:
  assumes "Z1 \<noteq> 0" and "Z2 \<noteq> 0" and "X2 * (Z1 * Z1) - X1 * (Z2 * Z2) = 0"
    and "on_iso S (jac X1 Y1 Z1)" and "on_iso S (jac X2 Y2 Z2)"
  shows "Y2 * (Z1 * Z1) * Z1 - Y1 * (Z2 * Z2) * Z2 = 0 \<Longrightarrow> jac X1 Y1 Z1 = jac X2 Y2 Z2"
    and "Y2 * (Z1 * Z1) * Z1 - Y1 * (Z2 * Z2) * Z2 \<noteq> 0 \<Longrightarrow> padd (jac X1 Y1 Z1) (jac X2 Y2 Z2) = Infinity"
  using jac_eq_x [OF assms(1-3)] jac_eq_y [OF assms(1,2), of Y2 Y1] on_iso_same_x assms(4,5)
  by (auto simp: jac_def)

lemma add_var_refines:
  assumes "gej_ok a" and "gej_ok b" and "on_iso S (gej_abs a)" and "on_iso S (gej_abs b)"
  shows "gej_ok (fst (secp256k1_gej_add_var r a b rzr)) \<and>
    gej_abs (fst (secp256k1_gej_add_var r a b rzr)) = padd (gej_abs a) (gej_abs b)"
proof (cases "gej_infinity a \<or> gej_infinity b")
  case True
  then show ?thesis using assms
    by (cases "gej_abs a") (auto simp: secp256k1_gej_add_var_def gej_abs_def)
next
  case False
  define X1 Y1 Z1 where "X1 = fe_abs (gej_x a)" and "Y1 = fe_abs (gej_y a)" and "Z1 = fe_abs (gej_z a)"
  define X2 Y2 Z2 where "X2 = fe_abs (gej_x b)" and "Y2 = fe_abs (gej_y b)" and "Z2 = fe_abs (gej_z b)"
  have na: "\<not> gej_infinity a" "\<not> gej_infinity b" using False by auto
  note a = gej_ok_finite [OF assms(1) na(1), folded X1_def Y1_def Z1_def]
  note b = gej_ok_finite [OF assms(2) na(2), folded X2_def Y2_def Z2_def]
  define H I where "H = X2 * (Z1 * Z1) - X1 * (Z2 * Z2)" and "I = Y2 * (Z1 * Z1) * Z1 - Y1 * (Z2 * Z2) * Z2"
  define u1 where "u1 = secp256k1_fe_mul (gej_x a) (secp256k1_fe_sqr (gej_z b))"
  define s1 where "s1 = secp256k1_fe_mul (secp256k1_fe_mul (gej_y a) (secp256k1_fe_sqr (gej_z b))) (gej_z b)"
  define h where "h = secp256k1_fe_add (secp256k1_fe_negate u1 1) (secp256k1_fe_mul (gej_x b) (secp256k1_fe_sqr (gej_z a)))"
  define i where "i = secp256k1_fe_add (secp256k1_fe_negate s1 1)
    (secp256k1_fe_mul (secp256k1_fe_mul (gej_y b) (secp256k1_fe_sqr (gej_z a))) (gej_z a))"
  have u: "fe_rep 1 (X1 * (Z2 * Z2)) u1" unfolding u1_def by (rule fe_rules a b | simp)+
  have s: "fe_rep 1 (Y1 * (Z2 * Z2) * Z2) s1" unfolding s1_def by (rule fe_rules a b | simp)+
  have h: "fe_rep 3 H h" unfolding h_def H_def by (rule negate_add [OF u], (rule fe_rules a b | simp)+)
  have i: "fe_rep 3 I i" unfolding i_def I_def by (rule negate_add [OF s], (rule fe_rules a b | simp)+)
  have z: "secp256k1_fe_normalizes_to_zero_var h \<longleftrightarrow> H = 0" "secp256k1_fe_normalizes_to_zero_var i \<longleftrightarrow> I = 0"
    using fe_rep_zero_test(2) [OF h] fe_rep_zero_test(2) [OF i] by simp_all
  note run = secp256k1_gej_add_var_def [of r a b rzr, unfolded Let_def, folded u1_def s1_def, folded h_def i_def, unfolded z]
  show ?thesis
  proof (cases "H = 0")
    case H: True
    note same = add_same_x [OF a(4) b(4) H [unfolded H_def] assms(3) [unfolded a(5)] assms(4) [unfolded b(5)], folded I_def]
    show ?thesis
    proof (cases "I = 0")
      case True
      then show ?thesis
        using double_var_refines [OF assms(1,3), of "r\<lparr>gej_infinity := False\<rparr>" rzr] same(1) H
        by (simp add: run na a(5) b(5))
    next
      case False
      then show ?thesis using same(2) H by (simp add: run na a(5) b(5) gej_ok_def) (simp add: gej_abs_def)
    qed
  next
    case H: False
    define d where "d = fst (secp256k1_gej_add_var r a b rzr)"
    note tail = add_tail [OF u s h i]
    have "gej_ok d \<and> gej_abs d = padd (jac X1 Y1 Z1) (jac X2 Y2 Z2)"
      unfolding add_formula [OF a(4) b(4) H_def H I_def, symmetric]
    proof (rule gejI)
      show x: "fe_rep 5 (I * I - H * (H * H) - 2 * (X1 * (Z2 * Z2) * (H * H))) (gej_x d)"
        using tail(1) H by (simp add: d_def run na)
      show "fe_rep 3 (I * (X1 * (Z2 * Z2) * (H * H) - (I * I - H * (H * H) - 2 * (X1 * (Z2 * Z2) * (H * H)))) -
          H * (H * H) * (Y1 * (Z2 * Z2) * Z2)) (gej_y d)"
        using tail(2) [OF x] H by (simp add: d_def run na)
      show "fe_rep 1 (Z1 * (H * Z2)) (gej_z d)"
        using H by (simp add: d_def run na) (rule fe_rules a b h | simp)+
      show "Z1 * (H * Z2) \<noteq> 0" using a(4) b(4) H by simp
      show "\<not> gej_infinity d" using H by (simp add: d_def run na)
    qed simp_all
    then show ?thesis by (simp add: d_def a(5) b(5))
  qed
qed

lemma ge_ok_finite:
  assumes "ge_ok b" and "\<not> ge_infinity b"
  shows "fe_rep 8 (fe_abs (ge_x b)) (ge_x b)" "fe_rep 8 (fe_abs (ge_y b)) (ge_y b)"
    "ge_abs b = Pt (fe_abs (ge_x b)) (fe_abs (ge_y b))"
  using assms by (simp_all add: ge_ok_def ge_abs_def fe_rep_self)

lemma jac_1: "jac x y 1 = Pt x y"
  by (simp add: jac_def)

lemma jac_rescale: "k \<noteq> 0 \<Longrightarrow> jac (X * (k * k)) (Y * (k * k * k)) (Z * k) = jac X Y Z"
  by (simp add: jac_def mult_ac)

lemma gf_uint_1: "gf (uint 1) = 1"
  by (simp add: gf_hom)

lemma gej_set_ge_refines:
  assumes "ge_ok b"
  shows "gej_ok (secp256k1_gej_set_ge b) \<and> gej_abs (secp256k1_gej_set_ge b) = ge_abs b"
proof (cases "ge_infinity b")
  case False
  have "fe_rep 1 1 (secp256k1_fe_set_int 1)" using fe_rep_set_int [of 1] by (simp add: gf_hom)
  then show ?thesis
    using assms False fe_magnitude_mono [of 1 _ 8]
    by (auto simp: secp256k1_gej_set_ge_def gej_ok_def ge_ok_def gej_abs_def ge_abs_def fe_rep_def jac_1)
qed (simp add: secp256k1_gej_set_ge_def gej_ok_def gej_abs_def ge_abs_def)

lemma add_ge_var_refines:
  assumes "gej_ok a" and "ge_ok b" and "on_iso S (gej_abs a)" and "on_iso S (ge_abs b)"
  shows "gej_ok (fst (secp256k1_gej_add_ge_var r a b rzr)) \<and>
    gej_abs (fst (secp256k1_gej_add_ge_var r a b rzr)) = padd (gej_abs a) (ge_abs b)"
proof (cases "gej_infinity a \<or> ge_infinity b")
  case True
  then show ?thesis using assms gej_set_ge_refines [OF assms(2)]
    by (cases "gej_abs a") (auto simp: secp256k1_gej_add_ge_var_def gej_abs_def ge_abs_def)
next
  case False
  define X1 Y1 Z1 where "X1 = fe_abs (gej_x a)" and "Y1 = fe_abs (gej_y a)" and "Z1 = fe_abs (gej_z a)"
  define x2 y2 where "x2 = fe_abs (ge_x b)" and "y2 = fe_abs (ge_y b)"
  have na: "\<not> gej_infinity a" "\<not> ge_infinity b" using False by auto
  note a = gej_ok_finite [OF assms(1) na(1), folded X1_def Y1_def Z1_def]
  note b = ge_ok_finite [OF assms(2) na(2), folded x2_def y2_def, folded jac_1]
  define H I where "H = x2 * (Z1 * Z1) - X1" and "I = y2 * (Z1 * Z1) * Z1 - Y1"
  have HI: "H = x2 * (Z1 * Z1) - X1 * (1 * 1)" "I = y2 * (Z1 * Z1) * Z1 - Y1 * (1 * 1) * 1"
    by (simp_all add: H_def I_def)
  define u1 where "u1 = secp256k1_fe_normalize_weak (gej_x a)"
  define s1 where "s1 = secp256k1_fe_normalize_weak (gej_y a)"
  define h where "h = secp256k1_fe_add (secp256k1_fe_negate u1 1) (secp256k1_fe_mul (ge_x b) (secp256k1_fe_sqr (gej_z a)))"
  define i where "i = secp256k1_fe_add (secp256k1_fe_negate s1 1)
    (secp256k1_fe_mul (secp256k1_fe_mul (ge_y b) (secp256k1_fe_sqr (gej_z a))) (gej_z a))"
  have u: "fe_rep 1 X1 u1" unfolding u1_def by (rule fe_rules a b | simp)+
  have s: "fe_rep 1 Y1 s1" unfolding s1_def by (rule fe_rules a b | simp)+
  have h: "fe_rep 3 H h" unfolding h_def H_def by (rule negate_add [OF u], (rule fe_rules a b | simp)+)
  have i: "fe_rep 3 I i" unfolding i_def I_def by (rule negate_add [OF s], (rule fe_rules a b | simp)+)
  have z: "secp256k1_fe_normalizes_to_zero_var h \<longleftrightarrow> H = 0" "secp256k1_fe_normalizes_to_zero_var i \<longleftrightarrow> I = 0"
    using fe_rep_zero_test(2) [OF h] fe_rep_zero_test(2) [OF i] by simp_all
  note run = secp256k1_gej_add_ge_var_def [of r a b rzr, unfolded Let_def, folded u1_def s1_def, folded h_def i_def, unfolded z]
  have one: "(1 :: gfp) \<noteq> 0" by simp
  show ?thesis
  proof (cases "H = 0")
    case H: True
    note same = add_same_x [OF a(4) one H [unfolded HI] assms(3) [unfolded a(5)] assms(4) [unfolded b(3)], folded HI]
    show ?thesis
    proof (cases "I = 0")
      case True
      then show ?thesis
        using double_var_refines [OF assms(1,3), of "r\<lparr>gej_infinity := False\<rparr>" rzr] same(1) H
        by (simp add: run na a(5) b(3))
    next
      case False
      then show ?thesis using same(2) H by (simp add: run na a(5) b(3) gej_ok_def) (simp add: gej_abs_def)
    qed
  next
    case H: False
    define d where "d = fst (secp256k1_gej_add_ge_var r a b rzr)"
    note tail = add_tail [OF u s h i]
    note formula = add_formula [OF a(4) one HI(1) H HI(2), unfolded mult_1_right]
    have "gej_ok d \<and> gej_abs d = padd (jac X1 Y1 Z1) (jac x2 y2 1)"
      unfolding formula [symmetric]
    proof (rule gejI)
      show x: "fe_rep 5 (I * I - H * (H * H) - 2 * (X1 * (H * H))) (gej_x d)"
        using tail(1) H by (simp add: d_def run na)
      show "fe_rep 3 (I * (X1 * (H * H) - (I * I - H * (H * H) - 2 * (X1 * (H * H)))) - H * (H * H) * Y1) (gej_y d)"
        using tail(2) [OF x] H by (simp add: d_def run na)
      show "fe_rep 1 (Z1 * H) (gej_z d)"
        using H by (simp add: d_def run na) (rule fe_rules a b h | simp)+
      show "Z1 * H \<noteq> 0" using a(4) H by simp
      show "\<not> gej_infinity d" using H by (simp add: d_def run na)
    qed simp_all
    then show ?thesis by (simp add: d_def a(5) b(3))
  qed
qed

text \<open>\<open>bzinv\<close> is the inverse of the \<open>z\<close> that goes with the coordinates of \<open>b\<close>.\<close>

lemma add_zinv_var_refines:
  assumes "gej_ok a" and "ge_ok b" and "on_iso S (gej_abs a)"
    and "fe_rep 8 (inverse Zb) bzinv" and "Zb \<noteq> 0"
    and "B = (if ge_infinity b then Infinity else jac (fe_abs (ge_x b)) (fe_abs (ge_y b)) Zb)" and "on_iso S B"
  shows "gej_ok (secp256k1_gej_add_zinv_var r a b bzinv) \<and>
    gej_abs (secp256k1_gej_add_zinv_var r a b bzinv) = padd (gej_abs a) B"
proof (cases "gej_infinity a \<or> ge_infinity b")
  case True
  show ?thesis
  proof (cases "ge_infinity b")
    case True
    then show ?thesis using assms(1,6) by (cases "gej_abs a") (auto simp: secp256k1_gej_add_zinv_var_def)
  next
    case False
    then have inf: "gej_infinity a" using True by simp
    note b = ge_ok_finite [OF assms(2) False]
    define d where "d = secp256k1_gej_add_zinv_var r a b bzinv"
    have "gej_ok d \<and> gej_abs d = jac (fe_abs (ge_x b) * (inverse Zb * inverse Zb))
        (fe_abs (ge_y b) * (inverse Zb * inverse Zb * inverse Zb)) 1"
    proof (rule gejI)
      show "fe_rep 1 (fe_abs (ge_x b) * (inverse Zb * inverse Zb)) (gej_x d)"
        "fe_rep 1 (fe_abs (ge_y b) * (inverse Zb * inverse Zb * inverse Zb)) (gej_y d)"
        using False inf by (simp_all add: d_def secp256k1_gej_add_zinv_var_def Let_def) (rule fe_rules b assms(4) | simp)+
      show "fe_rep 1 1 (gej_z d)"
        using False inf fe_rep_set_int [of 1] by (simp add: d_def secp256k1_gej_add_zinv_var_def Let_def gf_hom)
      show "\<not> gej_infinity d" using False inf by (simp add: d_def secp256k1_gej_add_zinv_var_def Let_def)
    qed simp_all
    then show ?thesis using False inf assms(5,6) by (simp add: d_def gej_abs_def jac_def divide_inverse)
  qed
next
  case False
  define X1 Y1 Z1 where "X1 = fe_abs (gej_x a)" and "Y1 = fe_abs (gej_y a)" and "Z1 = fe_abs (gej_z a)"
  define x2 y2 where "x2 = fe_abs (ge_x b)" and "y2 = fe_abs (ge_y b)"
  define W where "W = Z1 * inverse Zb"
  have na: "\<not> gej_infinity a" "\<not> ge_infinity b" using False by auto
  note a = gej_ok_finite [OF assms(1) na(1), folded X1_def Y1_def Z1_def]
  note b = ge_ok_finite(1,2) [OF assms(2) na(2), folded x2_def y2_def]
  have B: "B = jac x2 y2 Zb" using assms(6) na(2) by (simp add: x2_def y2_def)
  define H I where "H = x2 * (W * W) - X1" and "I = y2 * (W * W) * W - Y1"
  have Z1: "Z1 = W * Zb" using assms(5) by (simp add: W_def)
  have HI: "H * (Zb * Zb) = x2 * (Z1 * Z1) - X1 * (Zb * Zb)" "I * (Zb * Zb * Zb) = y2 * (Z1 * Z1) * Z1 - Y1 * (Zb * Zb) * Zb"
    by (simp_all add: H_def I_def Z1 algebra_simps)
  define az where "az = secp256k1_fe_mul (gej_z a) bzinv"
  define u1 where "u1 = secp256k1_fe_normalize_weak (gej_x a)"
  define s1 where "s1 = secp256k1_fe_normalize_weak (gej_y a)"
  define h where "h = secp256k1_fe_add (secp256k1_fe_negate u1 1) (secp256k1_fe_mul (ge_x b) (secp256k1_fe_sqr az))"
  define i where "i = secp256k1_fe_add (secp256k1_fe_negate s1 1)
    (secp256k1_fe_mul (secp256k1_fe_mul (ge_y b) (secp256k1_fe_sqr az)) az)"
  have w: "fe_rep 1 W az" unfolding az_def W_def by (rule fe_rules a assms(4) | simp)+
  have u: "fe_rep 1 X1 u1" unfolding u1_def by (rule fe_rules a b | simp)+
  have s: "fe_rep 1 Y1 s1" unfolding s1_def by (rule fe_rules a b | simp)+
  have h: "fe_rep 3 H h" unfolding h_def H_def by (rule negate_add [OF u], (rule fe_rules w b | simp)+)
  have i: "fe_rep 3 I i" unfolding i_def I_def by (rule negate_add [OF s], (rule fe_rules w b | simp)+)
  have z: "secp256k1_fe_normalizes_to_zero_var h \<longleftrightarrow> H = 0" "secp256k1_fe_normalizes_to_zero_var i \<longleftrightarrow> I = 0"
    using fe_rep_zero_test(2) [OF h] fe_rep_zero_test(2) [OF i] by simp_all
  note run = secp256k1_gej_add_zinv_var_def [of r a b bzinv, unfolded Let_def, folded az_def, folded u1_def s1_def, folded h_def i_def, unfolded z]
  show ?thesis
  proof (cases "H = 0")
    case H: True
    then have H': "x2 * (Z1 * Z1) - X1 * (Zb * Zb) = 0" using HI(1) by simp
    note same = add_same_x [OF a(4) assms(5) H' assms(3) [unfolded a(5)] assms(7) [unfolded B], folded HI]
    show ?thesis
    proof (cases "I = 0")
      case True
      then show ?thesis
        using double_var_refines [OF assms(1,3), of "r\<lparr>gej_infinity := False\<rparr>" None] same(1) H
        by (simp add: run na a(5) B)
    next
      case False
      then show ?thesis using same(2) H assms(5) by (simp add: run na a(5) B gej_ok_def) (simp add: gej_abs_def)
    qed
  next
    case H: False
    define d where "d = secp256k1_gej_add_zinv_var r a b bzinv"
    define X3 Y3 where "X3 = I * I - H * (H * H) - 2 * (X1 * (H * H))" and "Y3 = I * (X1 * (H * H) - X3) - H * (H * H) * Y1"
    note tail = add_tail [OF u s h i, folded X3_def]
    have "H * (Zb * Zb) \<noteq> 0" using H assms(5) by simp
    note formula = add_formula [OF a(4) assms(5) HI(1) this HI(2)]
    define k where "k = Zb * Zb * Zb"
    have e: "X3 * (k * k) = I * (Zb * Zb * Zb) * (I * (Zb * Zb * Zb)) - H * (Zb * Zb) * (H * (Zb * Zb) * (H * (Zb * Zb))) -
        2 * (X1 * (Zb * Zb) * (H * (Zb * Zb) * (H * (Zb * Zb))))"
      unfolding X3_def k_def by algebra
    have "padd (jac X1 Y1 Z1) (jac x2 y2 Zb) = jac (X3 * (k * k)) (Y3 * (k * k * k)) (Z1 * H * k)"
      unfolding formula [symmetric] e [symmetric] Y3_def k_def
      by (intro arg_cong3 [where f = jac] refl) algebra+
    also have "\<dots> = jac X3 Y3 (Z1 * H)" using assms(5) by (intro jac_rescale) (simp add: k_def)
    finally have sum: "padd (jac X1 Y1 Z1) (jac x2 y2 Zb) = jac X3 Y3 (Z1 * H)" .
    have "gej_ok d \<and> gej_abs d = jac X3 Y3 (Z1 * H)"
    proof (rule gejI)
      show x: "fe_rep 5 X3 (gej_x d)" using tail(1) H by (simp add: d_def run na)
      show "fe_rep 3 Y3 (gej_y d)" unfolding Y3_def using tail(2) [OF x] H by (simp add: d_def run na)
      show "fe_rep 1 (Z1 * H) (gej_z d)"
        using H by (simp add: d_def run na) (rule fe_rules a b h | simp)+
      show "Z1 * H \<noteq> 0" using a(4) H by simp
      show "\<not> gej_infinity d" using H by (simp add: d_def run na)
    qed simp_all
    then show ?thesis by (simp add: d_def a(5) B sum)
  qed
qed

subsection \<open>The constant-time addition\<close>

text \<open>\<open>mu\<close> and \<open>rho\<close> are the denominator and the numerator of the slope, \<open>mm\<close> is \<open>S1 + S2\<close>.\<close>

lemma unified_formula:
  assumes Z: "Z \<noteq> (0 :: gfp)" and mu: "mu \<noteq> 0" and rho: "rho = l * Z * mu" and l: "l * (x2 - x1) = y2 - y1"
    and Q: "Q = mu * mu * ((x1 + x2) * (Z * Z))" and mm: "mm = (y1 + y2) * (Z * Z * Z)"
  shows "jac (4 * (rho * rho - Q)) (- 4 * ((2 * (rho * rho - Q) - Q) * rho + mm * (mu * mu * mu))) (2 * (Z * mu)) =
    chord l x1 y1 x2"
  unfolding chord_def Let_def
proof (rule jac_eqI)
  show "2 * (Z * mu) \<noteq> 0" using Z mu two_nonzero(1) by simp
  show "4 * (rho * rho - Q) = (l * l - x1 - x2) * (2 * (Z * mu) * (2 * (Z * mu)))"
    unfolding rho Q by algebra
  show "- 4 * ((2 * (rho * rho - Q) - Q) * rho + mm * (mu * mu * mu)) =
      (l * (x1 - (l * l - x1 - x2)) - y1) * (2 * (Z * mu) * (2 * (Z * mu)) * (2 * (Z * mu)))"
    unfolding rho Q mm using l by algebra
qed

lemma add_ge_refines:
  assumes "gej_ok a" and "ge_ok b" and "on_iso S (gej_abs a)" and "on_iso S (ge_abs b)" and nb: "\<not> ge_infinity b"
  shows "gej_ok (secp256k1_gej_add_ge a b) \<and> gej_abs (secp256k1_gej_add_ge a b) = padd (gej_abs a) (ge_abs b)"
proof -
  note b = ge_ok_finite [OF assms(2) nb]
  have fe_1: "SECP256K1_FE_CONST 0 0 0 0 0 0 0 1 = secp256k1_fe_set_int 1"
    by (simp add: SECP256K1_FE_CONST_def secp256k1_fe_set_int_def)
  have one: "fe_rep 1 1 (secp256k1_fe_set_int 1)" using fe_rep_set_int [of 1] by (simp add: gf_hom)
  show ?thesis
  proof (cases "gej_infinity a")
    case True
    define d where "d = secp256k1_gej_add_ge a b"
    have d: "gej_x d = ge_x b" "gej_y d = ge_y b" "gej_z d = secp256k1_fe_set_int 1" "\<not> gej_infinity d"
      using True by (simp_all add: d_def secp256k1_gej_add_ge_def Let_def secp256k1_fe_cmov_eq fe_1)
    have "gej_ok d \<and> gej_abs d = jac (fe_abs (ge_x b)) (fe_abs (ge_y b)) 1"
      by (rule gejI [where k = 8 and l = 8 and m = 1]) (simp_all add: d b one)
    then show ?thesis using True b(3) by (simp add: d_def gej_abs_def jac_1)
  next
    case na: False
    define X1 Y1 Z where "X1 = fe_abs (gej_x a)" and "Y1 = fe_abs (gej_y a)" and "Z = fe_abs (gej_z a)"
    note a = gej_ok_finite [OF assms(1) na, folded X1_def Y1_def Z_def]
    obtain x1 y1 where 1: "X1 = x1 * (Z * Z)" "Y1 = y1 * (Z * Z * Z)" "jac X1 Y1 Z = Pt x1 y1"
      using jac_obtain [OF a(4)] by metis
    define x2 y2 where "x2 = fe_abs (ge_x b)" and "y2 = fe_abs (ge_y b)"
    note b = b [folded x2_def y2_def]
    have on: "y1 * y1 = x1 * x1 * x1 + 7 * (S * S * S * (S * S * S))" "y2 * y2 = x2 * x2 * x2 + 7 * (S * S * S * (S * S * S))"
      using assms(3,4) by (simp_all add: a(5) 1(3) b(3) on_iso_simps)
    define T M R where "T = X1 + x2 * (Z * Z)" and "M = Y1 + y2 * (Z * Z) * Z"
      and "R = T * T - X1 * (x2 * (Z * Z))"
    have TMR: "T = (x1 + x2) * (Z * Z)" "M = (y1 + y2) * (Z * Z * Z)"
      "R = (x1 * x1 + x1 * x2 + x2 * x2) * (Z * Z * (Z * Z))"
      unfolding R_def T_def M_def 1 by algebra+
    define deg where "deg \<longleftrightarrow> M = 0 \<and> R = 0"
    define mu rho where "mu = (if deg then X1 - x2 * (Z * Z) else M)" and "rho = (if deg then 2 * Y1 else R)"
    define u1 where "u1 = secp256k1_fe_normalize_weak (gej_x a)"
    define u2 where "u2 = secp256k1_fe_mul (ge_x b) (secp256k1_fe_sqr (gej_z a))"
    define s1 where "s1 = secp256k1_fe_normalize_weak (gej_y a)"
    define s2 where "s2 = secp256k1_fe_mul (secp256k1_fe_mul (ge_y b) (secp256k1_fe_sqr (gej_z a))) (gej_z a)"
    define t where "t = secp256k1_fe_add u1 u2"
    define m where "m = secp256k1_fe_add s1 s2"
    define rr where "rr = secp256k1_fe_add (secp256k1_fe_sqr t) (secp256k1_fe_mul u1 (secp256k1_fe_negate u2 1))"
    have u1: "fe_rep 1 X1 u1" unfolding u1_def by (rule fe_rules a b | simp)+
    have u2: "fe_rep 1 (x2 * (Z * Z)) u2" unfolding u2_def by (rule fe_rules a b | simp)+
    have s1: "fe_rep 1 Y1 s1" unfolding s1_def by (rule fe_rules a b | simp)+
    have s2: "fe_rep 1 (y2 * (Z * Z) * Z) s2" unfolding s2_def by (rule fe_rules a b | simp)+
    have t: "fe_rep 2 T t" unfolding t_def T_def by (rule fe_repI, (rule fe_rules u1 u2 | simp; fail)+)
    have m: "fe_rep 2 M m" unfolding m_def M_def by (rule fe_repI, (rule fe_rules s1 s2 | simp; fail)+)
    have rr: "fe_rep 2 R rr" unfolding rr_def R_def by (rule fe_repI, (rule fe_rules u1 u2 t | simp; fail)+)
    have deg: "(secp256k1_fe_normalizes_to_zero m \<and> secp256k1_fe_normalizes_to_zero rr) \<longleftrightarrow> deg"
      using fe_rep_zero_test(1) [OF m] fe_rep_zero_test(1) [OF rr] by (simp add: deg_def)
    define ra where "ra = secp256k1_fe_cmov (secp256k1_fe_mul_int s1 2) rr (of_bool (\<not> deg))"
    define ma where "ma = secp256k1_fe_cmov (secp256k1_fe_add (secp256k1_fe_negate u2 1) u1) m (of_bool (\<not> deg))"
    have ra: "fe_rep 2 rho ra"
    proof -
      have "fe_rep 2 (2 * Y1) (secp256k1_fe_mul_int s1 2)"
        by (rule fe_repI, (rule fe_rules s1 | simp add: gf_numeral; fail)+)
      from fe_rep_cmov [OF this rr, of "\<not> deg"] show ?thesis by (cases deg) (simp_all add: ra_def rho_def)
    qed
    have ma: "fe_rep 3 mu ma"
    proof -
      have "fe_rep 3 (X1 - x2 * (Z * Z)) (secp256k1_fe_add (secp256k1_fe_negate u2 1) u1)"
        by (rule negate_add [OF u2 u1])
      from fe_rep_cmov [OF this fe_repI [OF m, of 3 M], of "\<not> deg"] show ?thesis
        by (cases deg) (simp_all add: ma_def mu_def)
    qed
    define q where "q = secp256k1_fe_negate (secp256k1_fe_mul (secp256k1_fe_sqr ma) t) 1"
    define n where "n = secp256k1_fe_cmov (secp256k1_fe_sqr (secp256k1_fe_sqr ma)) m (of_bool deg)"
    define Q where "Q = mu * mu * T"
    have q: "fe_rep 2 (- Q) q" unfolding q_def Q_def by (rule fe_repI, (rule fe_rules ma t | simp; fail)+)
    have n: "fe_rep 2 (M * (mu * mu * mu)) n"
    proof -
      have "fe_rep 2 (mu * mu * (mu * mu)) (secp256k1_fe_sqr (secp256k1_fe_sqr ma))"
        by (rule fe_repI, (rule fe_rules ma | simp; fail)+)
      from fe_rep_cmov [OF this m, of deg] show ?thesis
        by (cases deg) (auto simp: n_def deg_def mu_def mult_ac)
    qed
    define x3 where "x3 = secp256k1_fe_normalize_weak (secp256k1_fe_add (secp256k1_fe_sqr ra) q)"
    have x3: "fe_rep 1 (rho * rho - Q) x3" unfolding x3_def by (rule fe_repI, (rule fe_rules ra q | simp; fail)+)
    define d where "d = secp256k1_gej_add_ge a b"
    note run = secp256k1_gej_add_ge_def [of a b, unfolded Let_def, folded u1_def u2_def s1_def s2_def,
        folded t_def m_def, folded rr_def, unfolded deg, folded ra_def ma_def, folded q_def n_def, folded x3_def]
    have dx: "fe_rep 4 (4 * (rho * rho - Q)) (gej_x d)"
      by (simp only: d_def run secp256k1_gej.simps na of_bool_eq secp256k1_fe_cmov_eq [OF disjI1, OF refl] if_False zero_neq_one)
        (rule fe_repI, (rule fe_rules x3 | simp add: gf_numeral; fail)+)
    have dy: "fe_rep 4 (- 4 * ((2 * (rho * rho - Q) - Q) * rho + M * (mu * mu * mu))) (gej_y d)"
      by (simp only: d_def run secp256k1_gej.simps na of_bool_eq secp256k1_fe_cmov_eq [OF disjI1, OF refl] if_False zero_neq_one)
        (rule fe_repI, (rule fe_rules x3 q ra n | simp add: gf_numeral; fail)+, (simp add: gf_numeral algebra_simps)?)
    have rz: "fe_rep 1 (Z * mu) (secp256k1_fe_mul (gej_z a) ma)" by (rule fe_rules a ma | simp)+
    have dz: "fe_rep 2 (2 * (Z * mu)) (gej_z d)"
      by (simp only: d_def run secp256k1_gej.simps na of_bool_eq secp256k1_fe_cmov_eq [OF disjI1, OF refl] if_False zero_neq_one)
        (rule fe_repI, (rule fe_rules rz | simp add: gf_numeral; fail)+)
    have inf: "gej_infinity d \<longleftrightarrow> mu = 0"
      using na fe_rep_zero_test(1) [OF rz] a(4) by (simp add: d_def run)
    have cubes: "(x1 - x2) * (x1 * x1 + x1 * x2 + x2 * x2) = (y1 - y2) * (y1 + y2)"
      using on by algebra
    have M0: "M = 0 \<longleftrightarrow> y1 + y2 = 0" and R0: "R = 0 \<longleftrightarrow> x1 * x1 + x1 * x2 + x2 * x2 = 0"
      using a(4) by (simp_all add: TMR)
    show ?thesis
    proof (cases "mu = 0")
      case True
      have "x1 = x2 \<and> y1 + y2 = 0"
      proof (cases deg)
        case d: True
        then have "x1 * (Z * Z) = x2 * (Z * Z)" using True by (simp add: mu_def 1(1))
        then show ?thesis using d M0 a(4) by (simp add: deg_def)
      next
        case d: False
        then have "y1 + y2 = 0" "x1 * x1 + x1 * x2 + x2 * x2 \<noteq> 0"
          using True M0 R0 by (auto simp: mu_def deg_def)
        then show ?thesis using cubes by simp
      qed
      moreover have "gej_ok d" "gej_abs d = Infinity" using True inf by (simp_all add: gej_ok_def gej_abs_def)
      ultimately show ?thesis by (simp add: a(5) 1(3) b(3) flip: d_def)
    next
      case False
      define l where "l = (if deg then (y2 - y1) / (x2 - x1) else (x1 * x1 + x1 * x2 + x2 * x2) / (y1 + y2))"
      have l: "l * (x2 - x1) = y2 - y1 \<and> rho = l * Z * mu \<and> padd (Pt x1 y1) (Pt x2 y2) = chord l x1 y1 x2"
      proof (cases deg)
        case d: True
        have "x1 \<noteq> x2" using False d by (auto simp: mu_def 1(1))
        moreover have y: "y2 = - y1" using d M0 by (simp add: deg_def add_eq_0_iff)
        moreover have "(- y1 - y1) / (x2 - x1) * Z * (x1 * (Z * Z) - x2 * (Z * Z)) = 2 * (y1 * (Z * Z * Z))"
        proof -
          have "(- y1 - y1) / (x2 - x1) * Z * (x1 * (Z * Z) - x2 * (Z * Z)) =
              ((- y1 - y1) / (x2 - x1) * (x2 - x1)) * (- (Z * Z * Z))" by algebra
          also have "\<dots> = (- y1 - y1) * (- (Z * Z * Z))" using \<open>x1 \<noteq> x2\<close> by simp
          finally show ?thesis by algebra
        qed
        ultimately show ?thesis using d by (simp add: l_def mu_def rho_def 1)
      next
        case d: False
        then have y: "y1 + y2 \<noteq> 0" using False M0 by (simp add: mu_def)
        have "l * (x2 - x1) * (y1 + y2) = (y2 - y1) * (y1 + y2)"
          using d y cubes by (simp add: l_def) algebra
        then have "l * (x2 - x1) = y2 - y1" using y by simp
        moreover have "rho = l * Z * mu"
        proof -
          have "l * (y1 + y2) = x1 * x1 + x1 * x2 + x2 * x2" using d y by (simp add: l_def)
          then show ?thesis using d by (simp add: rho_def mu_def TMR)
        qed
        moreover have "padd (Pt x1 y1) (Pt x2 y2) = chord l x1 y1 x2"
          using slope_unified [OF on y] d by (simp add: l_def)
        ultimately show ?thesis by blast
      qed
      have "gej_ok d \<and> gej_abs d = chord l x1 y1 x2"
        unfolding unified_formula [OF a(4) False conjunct1 [OF conjunct2 [OF l]] conjunct1 [OF l] Q_def [unfolded TMR] TMR(2), symmetric]
      proof (rule gejI [OF dx dy dz])
        show "2 * (Z * mu) \<noteq> 0" using False a(4) two_nonzero(1) by simp
        show "\<not> gej_infinity d" using False inf by simp
      qed simp_all
      then show ?thesis using l by (simp add: d_def a(5) 1(3) b(3))
    qed
  qed
qed

subsection \<open>The generator\<close>

lemma ge_const_g_limbs:
  "ge_x secp256k1_ge_const_g = \<lparr>n_0 = 0x2f81798, n_1 = 0xa056c5, n_2 = 0x28d959f, n_3 = 0x36cb738, n_4 = 0x3029bfc,
     n_5 = 0x3a1c2c1, n_6 = 0x206295c, n_7 = 0x2eeb156, n_8 = 0x27ef9dc, n_9 = 0x1e6f99\<rparr>"
  "ge_y secp256k1_ge_const_g = \<lparr>n_0 = 0x310d4b8, n_1 = 0x1f423fe, n_2 = 0x14199c4, n_3 = 0x1229a15, n_4 = 0xfd17b4,
     n_5 = 0x384422a, n_6 = 0x24fbfc0, n_7 = 0x3119576, n_8 = 0x27726a3, n_9 = 0x120eb6\<rparr>"
  "ge_infinity secp256k1_ge_const_g = False"
  by (simp_all add: secp256k1_ge_const_g_def SECP256K1_FE_CONST_def)

lemma ge_const_g_val:
  "fe_val (ge_x secp256k1_ge_const_g) = 0x79be667ef9dcbbac55a06295ce870b07029bfcdb2dce28d959f2815b16f81798"
  "fe_val (ge_y secp256k1_ge_const_g) = 0x483ada7726a3c4655da4fbfc0e1108a8fd17b448a68554199c47d08ffb10d4b8"
  by (simp_all add: ge_const_g_limbs fe_val_def fe_limbs_def)

lemma ge_const_g_ok: "fe_magnitude 1 (ge_x secp256k1_ge_const_g)" "fe_magnitude 1 (ge_y secp256k1_ge_const_g)"
    "ge_ok secp256k1_ge_const_g"
proof -
  show m: "fe_magnitude 1 (ge_x secp256k1_ge_const_g)" "fe_magnitude 1 (ge_y secp256k1_ge_const_g)"
    by (simp_all add: ge_const_g_limbs fe_magnitude_iff)
  show "ge_ok secp256k1_ge_const_g"
    using fe_magnitude_mono [OF m(1), of 8] fe_magnitude_mono [OF m(2), of 8] by (simp add: ge_ok_def)
qed

lemma ge_const_g_on_curve: "on_curve (ge_abs secp256k1_ge_const_g)"
proof -
  have sq: "(0x483ada7726a3c4655da4fbfc0e1108a8fd17b448a68554199c47d08ffb10d4b8 :: int) * 0x483ada7726a3c4655da4fbfc0e1108a8fd17b448a68554199c47d08ffb10d4b8 - 0x1b888e01a06e974017a28a5b4da436169761c9730b7aeedf75fc60f687b46e0cf2cb11667f795d5569482640fe5f628939467a01a612b023500d0161e9730279a7561043af6197798e41b7432458463e64fa81158907322dc330562697d0d600 - 7 = - 0x1b888e01a06e974017a28a5b4da436169761c9730b7aeedf75fc60f6a33cfc7792fe74711f025d590b10e57f1b3a7ce38ffc4c885c515894b45c19c9f413e5e9 * 0xfffffffffffffffffffffffffffffffffffffffffffffffffffffffefffffc2f"
    by simp
  have cube: "(0x79be667ef9dcbbac55a06295ce870b07029bfcdb2dce28d959f2815b16f81798 :: int) * 0x79be667ef9dcbbac55a06295ce870b07029bfcdb2dce28d959f2815b16f81798 = 0x39e58a8055b6fb264b75ec8c646509784204ac15a8c24e05babc9729ab9b055c3a9458e4ce3289560a38e08ba8175a9446ce14e608245ab3a9978a8bd8acaa40"
    "(0x39e58a8055b6fb264b75ec8c646509784204ac15a8c24e05babc9729ab9b055c3a9458e4ce3289560a38e08ba8175a9446ce14e608245ab3a9978a8bd8acaa40 :: int) * 0x79be667ef9dcbbac55a06295ce870b07029bfcdb2dce28d959f2815b16f81798 = 0x1b888e01a06e974017a28a5b4da436169761c9730b7aeedf75fc60f687b46e0cf2cb11667f795d5569482640fe5f628939467a01a612b023500d0161e9730279a7561043af6197798e41b7432458463e64fa81158907322dc330562697d0d600" by simp_all
  have "secp256k1_p dvd 0x483ada7726a3c4655da4fbfc0e1108a8fd17b448a68554199c47d08ffb10d4b8 * 0x483ada7726a3c4655da4fbfc0e1108a8fd17b448a68554199c47d08ffb10d4b8 - 0x79be667ef9dcbbac55a06295ce870b07029bfcdb2dce28d959f2815b16f81798 * 0x79be667ef9dcbbac55a06295ce870b07029bfcdb2dce28d959f2815b16f81798 * 0x79be667ef9dcbbac55a06295ce870b07029bfcdb2dce28d959f2815b16f81798 - 7"
    unfolding cube sq p_numeral by (rule dvd_triv_right)
  then have "gf (0x483ada7726a3c4655da4fbfc0e1108a8fd17b448a68554199c47d08ffb10d4b8 * 0x483ada7726a3c4655da4fbfc0e1108a8fd17b448a68554199c47d08ffb10d4b8 - 0x79be667ef9dcbbac55a06295ce870b07029bfcdb2dce28d959f2815b16f81798 * 0x79be667ef9dcbbac55a06295ce870b07029bfcdb2dce28d959f2815b16f81798 * 0x79be667ef9dcbbac55a06295ce870b07029bfcdb2dce28d959f2815b16f81798 - 7) = 0"
    by (simp only: gf_eq_0_iff)
  then show ?thesis
    unfolding ge_abs_def on_curve_def fe_abs_def ge_const_g_val ge_const_g_limbs(3)
    by (simp only: gf_hom gf_numeral if_False point.case) (simp only: diff_diff_eq right_minus_eq)
qed

end
