(* ===== verification/Curve_Group.thy ===== *)
theory Curve_Group
  imports Curve
begin

text \<open>
  The points of the curve are an abelian group. \<open>on_line a P Q R\<close> says that the line of slope \<open>a\<close> meets
  the curve in \<open>P\<close>, \<open>Q\<close> and the reflection of \<open>R\<close>, with multiplicity: it is what chord and tangent have
  in common, so that associativity needs no case distinction between them. The proof rests on the
  slopes being additive: with \<open>a\<close> for \<open>P, Q\<close>, \<open>b\<close> for \<open>Q, R\<close>, \<open>c\<close> for \<open>P + Q, R\<close> and \<open>d\<close> for \<open>P, Q + R\<close>,
  \<open>a + c = b + d\<close>.
\<close>

subsection \<open>Lines\<close>

definition on_line :: "gfp \<Rightarrow> gfp \<Rightarrow> gfp \<Rightarrow> gfp \<Rightarrow> gfp \<Rightarrow> gfp \<Rightarrow> gfp \<Rightarrow> bool" where
  "on_line a x1 y1 x2 y2 x3 y3 \<longleftrightarrow>
     y2 = y1 + a * (x2 - x1) \<and> y3 = - (y1 + a * (x3 - x1)) \<and> x1 + x2 + x3 = a * a \<and>
     x1 * x2 + x2 * x3 + x3 * x1 = - (2 * a * (y1 - a * x1))"

lemma on_line_padd:
  assumes l: "on_line a x1 y1 x2 y2 x3 y3" and c: "on_curve (Pt x1 y1)"
  shows "padd (Pt x1 y1) (Pt x2 y2) = Pt x3 y3"
proof -
  have x3: "x3 = a * a - x1 - x2" and y3: "y3 = a * (x1 - x3) - y1" and y2: "y2 - y1 = a * (x2 - x1)"
    using l unfolding on_line_def by algebra+
  have chord: "chord a x1 y1 x2 = Pt x3 y3" by (simp add: chord_def x3 y3)
  show ?thesis
  proof (cases "x1 = x2")
    case True
    have y: "y1 \<noteq> 0" by (rule on_curve_y [OF c])
    have "a * (2 * y1) = 3 * x1 * x1" using l True unfolding on_line_def by algebra
    then have "3 * x1 * x1 / (2 * y1) = a" using y two_nonzero(1) by (simp add: nonzero_divide_eq_eq)
    then show ?thesis using True y2 y chord two_nonzero(1) by (simp add: double_zero_iff)
  next
    case False
    then have "(y2 - y1) / (x2 - x1) = a" using y2 by (simp add: nonzero_divide_eq_eq)
    then show ?thesis using False chord by simp
  qed
qed

lemma padd_on_line:
  assumes "on_curve (Pt x1 y1)" and "on_curve (Pt x2 y2)" and "\<not> (x1 = x2 \<and> y1 + y2 = 0)"
  obtains a x3 y3 where "on_line a x1 y1 x2 y2 x3 y3" and "padd (Pt x1 y1) (Pt x2 y2) = Pt x3 y3"
proof -
  have c: "y1 * y1 = x1 * x1 * x1 + 7" "y2 * y2 = x2 * x2 * x2 + 7" using assms by simp_all
  obtain a where a: "y2 = y1 + a * (x2 - x1)" "a * (y1 + y2) = x1 * x1 + x1 * x2 + x2 * x2"
  proof (cases "x1 = x2")
    case True
    then have "y1 = y2" using on_curve_same_x assms by blast
    moreover have "y1 \<noteq> 0" by (rule on_curve_y [OF assms(1)])
    ultimately show ?thesis using True two_nonzero(1)
      by (intro that [of "3 * x1 * x1 / (2 * y1)"]) (simp_all flip: mult_2)
  next
    case False
    define a where "a = (y2 - y1) / (x2 - x1)"
    have a: "a * (x2 - x1) = y2 - y1" using False by (simp add: a_def)
    have "(a * (y1 + y2) - (x1 * x1 + x1 * x2 + x2 * x2)) * (x2 - x1) = 0" using a c by algebra
    then have "a * (y1 + y2) = x1 * x1 + x1 * x2 + x2 * x2" using False by simp
    with a show ?thesis by (intro that [of a]) simp_all
  qed
  define x3 y3 where "x3 = a * a - x1 - x2" and "y3 = - (y1 + a * (x3 - x1))"
  have "x1 * x2 + x2 * x3 + x3 * x1 = - (2 * a * (y1 - a * x1))"
    using a unfolding x3_def by algebra
  then have l: "on_line a x1 y1 x2 y2 x3 y3"
    using a(1) by (simp add: on_line_def x3_def y3_def)
  show ?thesis by (rule that [OF l on_line_padd [OF l assms(1)]])
qed

subsection \<open>Group laws\<close>

lemma padd_commute: "on_curve P \<Longrightarrow> on_curve Q \<Longrightarrow> padd P Q = padd Q P"
proof (cases P; cases Q)
  fix x1 y1 x2 y2
  assume c: "on_curve P" "on_curve Q" and P: "P = Pt x1 y1" "Q = Pt x2 y2"
  show ?thesis
  proof (cases "x1 = x2")
    case True
    then show ?thesis using on_curve_same_x c unfolding P by (auto simp: add.commute)
  next
    case False
    obtain a x3 y3 where l: "on_line a x1 y1 x2 y2 x3 y3" and s: "padd P Q = Pt x3 y3"
      using padd_on_line c False unfolding P by metis
    have "on_line a x2 y2 x1 y1 x3 y3" using l unfolding on_line_def by algebra
    then show ?thesis using on_line_padd c s unfolding P by metis
  qed
qed auto

lemma on_curve_pneg [simp]: "on_curve (pneg P) \<longleftrightarrow> on_curve P"
  by (cases P) (simp_all add: pneg_def)

lemma pneg_simps [simp]: "pneg Infinity = Infinity" "pneg (Pt x y) = Pt x (- y)"
  by (simp_all add: pneg_def)

lemma pneg_pneg [simp]: "pneg (pneg P) = P"
  by (cases P) simp_all

lemma padd_pneg: "padd P (pneg P) = Infinity" "padd (pneg P) P = Infinity"
  by (cases P; simp)+

lemma padd_Infinity: "padd P Infinity = P"
  by (cases P) simp_all

lemma padd_eq_Infinity: "padd P Q = Infinity \<longleftrightarrow> Q = pneg P"
  by (cases P; cases Q) (auto simp: chord_def Let_def add_eq_0_iff)

lemma padd_cancel:
  assumes "on_curve P" and "on_curve Q"
  shows "padd (pneg P) (padd P Q) = Q"
proof (cases "P = Infinity \<or> Q = Infinity \<or> padd P Q = Infinity")
  case True
  then show ?thesis by (auto simp: padd_pneg padd_Infinity padd_eq_Infinity)
next
  case False
  then obtain x1 y1 x2 y2 where P: "P = Pt x1 y1" "Q = Pt x2 y2" by (metis point.exhaust)
  have "\<not> (x1 = x2 \<and> y1 + y2 = 0)" using False unfolding P by auto
  then obtain a x3 y3 where l: "on_line a x1 y1 x2 y2 x3 y3" and s: "padd P Q = Pt x3 y3"
    using padd_on_line assms unfolding P by metis
  have "on_line (- a) x1 (- y1) x3 y3 x2 y2" using l unfolding on_line_def by algebra
  then have "padd (Pt x1 (- y1)) (Pt x3 y3) = Pt x2 y2" using assms(1) P(1) by (intro on_line_padd) auto
  then show ?thesis using s by (simp add: P)
qed

text \<open>Coordinates relative to the middle point: \<open>u, v, s, t\<close> are the offsets of \<open>P\<close>, \<open>R\<close>, \<open>P + Q\<close> and
  \<open>Q + R\<close>.\<close>

lemma slopes_add_chord:
  fixes a b c d :: gfp
  assumes "u + s = a * a - m" "u * s = q - 2 * y * a" "v + t = b * b - m" "v * t = q - 2 * y * b"
    and "c * (v - s) = 2 * y + b * v + a * s" "d * (u - t) = 2 * y + a * u + b * t" "v \<noteq> s" "u \<noteq> t"
  shows "a + c = b + d"
proof -
  have "(v - s) * (u - t) * (a + c - b - d) = 0" using assms(1-6) by algebra
  then show ?thesis using assms(7,8) by (simp add: diff_diff_eq)
qed

lemma slopes_add_tangent:
  fixes a b c d :: gfp
  assumes "u + s = a * a - m" "u * s = q - 2 * y * a" "s + t = b * b - m" "s * t = q - 2 * y * b"
    and "c * (2 * (y + b * s)) = q + 2 * m * s + 3 * s * s" "d * (u - t) = 2 * y + a * u + b * t"
    and "y + b * s = - (y + a * s)" "y + b * s \<noteq> 0" "u \<noteq> t"
  shows "a + c = b + d"
proof -
  have ut: "u - t = (a - b) * (a + b)" using assms(1,3) by algebra
  then have ab: "a + b \<noteq> 0" using assms(9) by auto
  have "(a + b) * ((d + b) * (a - b) - (u - s)) = 0" using assms(6,7) ut by algebra
  then have d: "(d + b) * (a - b) = u - s" using ab by simp
  have "2 * ((y + b * s) * (a + c - b - d)) = 0" using d assms(1-5,7) by algebra
  then have "(y + b * s) * (a + c - b - d) = 0" using two_nonzero(1) by simp
  then show ?thesis using assms(8) by (simp add: diff_diff_eq)
qed

lemma third_points_agree:
  fixes a b c d :: gfp
  assumes "u + s = a * a - m" "u * s = q - 2 * y * a" "v + t = b * b - m" "v * t = q - 2 * y * b"
    and "a + c = b + d" "c * (v - s) = 2 * y + b * v + a * s" "d * (u - t) = 2 * y + a * u + b * t"
    and "v \<noteq> s \<or> u \<noteq> t"
  shows "c * c - s - v = d * d - u - t" and "(b - a) * (c * c - m - s - v) = (b - c) * (u - v)"
proof -
  have "(c * c - s - v - (d * d - u - t)) * (v - s) = 0" "(c * c - s - v - (d * d - u - t)) * (u - t) = 0"
    using assms(1-7) by algebra+
  then show 1: "c * c - s - v = d * d - u - t" using assms(8) by auto
  have "((b - a) * (c * c - m - s - v) - (b - c) * (u - v)) * (v - s) = 0"
    "((b - a) * (c * c - m - s - v) - (b - c) * (u - v)) * (u - t) = 0"
    using assms(1-7) by algebra+
  then show "(b - a) * (c * c - m - s - v) = (b - c) * (u - v)" using assms(8) by auto
qed

text \<open>Associativity when no sum on the way is infinity.\<close>

lemma on_line_offsets:
  assumes "on_line a x1 y1 x2 y2 x3 y3"
  shows "(x1 - x2) + (x3 - x2) = a * a - 3 * x2" "(x1 - x2) * (x3 - x2) = 3 * x2 * x2 - 2 * y2 * a"
    "y1 = y2 + a * (x1 - x2)" "y3 = - (y2 + a * (x3 - x2))"
  using assms unfolding on_line_def by algebra+

lemma padd_assoc_lines:
  assumes a: "on_line a x1 y1 x2 y2 x4 y4" and b: "on_line b x3 y3 x2 y2 x5 y5"
    and c: "on_line c x4 y4 x3 y3 x6 y6" and d: "on_line d x5 y5 x1 y1 x7 y7"
    and on: "on_curve (Pt x1 y1)" "on_curve (Pt x2 y2)" "on_curve (Pt x3 y3)" "on_curve (Pt x4 y4)" "on_curve (Pt x5 y5)"
  shows "Pt x6 y6 = Pt x7 y7"
proof -
  define u v s t m q where "u = x1 - x2" and "v = x3 - x2" and "s = x4 - x2" and "t = x5 - x2"
    and "m = 3 * x2" and "q = 3 * x2 * x2"
  note A = on_line_offsets [OF a, folded u_def v_def s_def t_def m_def q_def]
  note B = on_line_offsets [OF b, folded u_def v_def s_def t_def m_def q_def]
  have cc: "c * (v - s) = 2 * y2 + b * v + a * s" using c A(4) B(3) unfolding on_line_def v_def s_def by algebra
  have dd: "d * (u - t) = 2 * y2 + a * u + b * t" using d A(3) B(4) unfolding on_line_def u_def t_def by algebra
  have y: "y1 \<noteq> 0" "y2 \<noteq> 0" "y3 \<noteq> 0" "y4 \<noteq> 0" "y5 \<noteq> 0" using on on_curve_y by blast+
  have ne: "v \<noteq> s \<or> u \<noteq> t"
  proof (rule ccontr)
    assume "\<not> (v \<noteq> s \<or> u \<noteq> t)"
    then have "v = s" "u = t" by simp_all
    then have "v * t = u * s" by simp
    then have "q - 2 * y2 * b = q - 2 * y2 * a" unfolding A(2) B(2) .
    then have "b = a" using y(2) two_nonzero(1) by simp
    moreover have "2 * y2 + (a + b) * s = 0" using cc \<open>v = s\<close> by (simp add: algebra_simps)
    ultimately have "a = b" and e: "2 * y2 + (a + b) * s = 0" by simp_all
    have "2 * y4 = 0" using e A(4) unfolding \<open>a = b\<close> by algebra
    then show False using y(4) two_nonzero(1) by simp
  qed
  have slopes: "a + c = b + d"
  proof (cases "v = s")
    case False
    show ?thesis
    proof (cases "u = t")
      case True
      have t: "d * (2 * (y2 + a * t)) = q + 2 * m * t + 3 * t * t" "y2 + a * t = y1" "y1 = - (y2 + b * t)"
        using d A(3) B(4) True unfolding on_line_def u_def t_def m_def q_def by algebra+
      have A': "t + s = a * a - m" "t * s = q - 2 * y2 * a" using A(1,2) True by simp_all
      have "y2 + a * t = - (y2 + b * t)" "y2 + a * t \<noteq> 0" using t(2,3) y(1) by metis+
      then have "b + d = a + c" by (rule slopes_add_tangent [OF B(1,2) A' t(1) cc _ _ False])
      then show ?thesis by simp
    next
      case u: False
      show ?thesis by (rule slopes_add_chord [OF A(1,2) B(1,2) cc dd False u])
    qed
  next
    case True
    have t: "c * (2 * (y2 + b * s)) = q + 2 * m * s + 3 * s * s" "y2 + b * s = y3" "y2 + b * s = - (y2 + a * s)"
      using c A(4) B(3) True unfolding on_line_def v_def s_def m_def q_def by algebra+
    have B': "s + t = b * b - m" "s * t = q - 2 * y2 * b" using B(1,2) True by simp_all
    have "y2 + b * s \<noteq> 0" unfolding t(2) by (rule y(3))
    moreover have "u \<noteq> t" using ne True by blast
    ultimately show ?thesis by (rule slopes_add_tangent [OF A(1,2) B' t(1) dd t(3)])
  qed
  note third = third_points_agree [OF A(1,2) B(1,2) slopes cc dd ne]
  have x6: "x6 = c * c - s - v - 2 * x2" using c unfolding on_line_def s_def v_def by algebra
  have x7: "x7 = d * d - u - t - 2 * x2" using d unfolding on_line_def u_def t_def by algebra
  have x: "x6 = x7" unfolding x6 x7 using third(1) by simp
  have X: "x6 - x2 = c * c - m - s - v" unfolding x6 m_def by algebra
  have y6: "y6 = - (y3 + c * (x6 - x3))" and y7: "y7 = - (y1 + d * (x7 - x1))"
    using c d unfolding on_line_def by algebra+
  have d': "d = a + c - b" using slopes by (simp add: eq_diff_eq add.commute)
  have "y6 - y7 = - ((b - a) * (x6 - x2) - (b - c) * (u - v))"
    unfolding y6 y7 d' A(3) B(3) x u_def v_def by (simp add: algebra_simps)
  then have "y6 = y7" unfolding X third(2) by simp
  with x show ?thesis by simp
qed

lemma pneg_padd:
  assumes "on_curve P" and "on_curve Q"
  shows "pneg (padd P Q) = padd (pneg P) (pneg Q)"
proof (cases "P = Infinity \<or> Q = Infinity \<or> Q = pneg P")
  case True
  then show ?thesis by (auto simp: padd_Infinity padd_pneg)
next
  case False
  then obtain x1 y1 x2 y2 where P: "P = Pt x1 y1" "Q = Pt x2 y2" by (metis point.exhaust)
  then have "\<not> (x1 = x2 \<and> y1 + y2 = 0)" using False by (auto simp: add_eq_0_iff)
  then obtain a x3 y3 where l: "on_line a x1 y1 x2 y2 x3 y3" and s: "padd P Q = Pt x3 y3"
    using padd_on_line assms unfolding P by metis
  have "on_line (- a) x1 (- y1) x2 (- y2) x3 (- y3)" using l unfolding on_line_def by algebra
  then have "padd (Pt x1 (- y1)) (Pt x2 (- y2)) = Pt x3 (- y3)" using assms(1) P(1) by (intro on_line_padd) auto
  then show ?thesis using s by (simp add: P)
qed

theorem padd_assoc:
  assumes P: "on_curve P" and Q: "on_curve Q" and R: "on_curve R"
  shows "padd (padd P Q) R = padd P (padd Q R)"
proof -
  have cancel: "padd P' (padd (pneg P') Q') = Q'" if "on_curve P'" "on_curve Q'" for P' Q'
    using padd_cancel [of "pneg P'" Q'] that by simp
  have cancel': "padd P' (padd Q' (pneg P')) = Q'" if "on_curve P'" "on_curve Q'" for P' Q'
    using cancel [OF that] padd_commute [of "pneg P'" Q'] that by simp
  consider "P = Infinity \<or> Q = Infinity \<or> R = Infinity" | "Q = pneg P" | "R = pneg Q" | "R = pneg (padd P Q)"
    | "P = pneg (padd Q R)" | "P \<noteq> Infinity" "Q \<noteq> Infinity" "R \<noteq> Infinity" "padd P Q \<noteq> Infinity" "padd Q R \<noteq> Infinity"
      "padd (padd P Q) R \<noteq> Infinity" "padd P (padd Q R) \<noteq> Infinity"
    unfolding padd_eq_Infinity by (metis pneg_pneg)
  then show ?thesis
  proof cases
    case 1
    then show ?thesis by (auto simp: padd_Infinity)
  next
    case 2
    then show ?thesis using cancel [OF P R] by (simp add: padd_pneg)
  next
    case 3
    have "padd (padd P Q) (pneg Q) = padd (pneg Q) (padd Q P)"
      using padd_commute [OF P Q] padd_commute [of "padd P Q" "pneg Q"] padd_on_curve P Q by simp
    then show ?thesis using padd_cancel [OF Q P] 3 by (simp add: padd_pneg padd_Infinity)
  next
    case 4
    then have "padd Q R = pneg P" using cancel' [of Q "pneg P"] pneg_padd P Q by simp
    then show ?thesis using 4 by (simp add: padd_pneg)
  next
    case 5
    then have "padd P Q = pneg R"
      using padd_commute [of P Q] cancel [of Q "pneg R"] pneg_padd [OF Q R] P Q R by simp
    then show ?thesis using 5 by (simp add: padd_pneg)
  next
    case 6
    then obtain x1 y1 x2 y2 x3 y3 x4 y4 x5 y5 where
      p: "P = Pt x1 y1" "Q = Pt x2 y2" "R = Pt x3 y3" "padd P Q = Pt x4 y4" "padd Q R = Pt x5 y5"
      by (metis point.exhaust)
    have on: "on_curve (Pt x1 y1)" "on_curve (Pt x2 y2)" "on_curve (Pt x3 y3)" "on_curve (Pt x4 y4)" "on_curve (Pt x5 y5)"
      using P Q R padd_on_curve [OF P Q] padd_on_curve [OF Q R] unfolding p(4,5) by (simp_all only: p(1-3))
    have line: "\<exists>a x3 y3. on_line a x1 y1 x2 y2 x3 y3 \<and> padd (Pt x1 y1) (Pt x2 y2) = Pt x3 y3"
      if "on_curve (Pt x1 y1)" "on_curve (Pt x2 y2)" "padd (Pt x1 y1) (Pt x2 y2) \<noteq> Infinity" for x1 y1 x2 y2
      using padd_on_line [OF that(1,2)] that(3) by (metis padd.simps(3))
    obtain a where a: "on_line a x1 y1 x2 y2 x4 y4" using line on(1,2) 6(4) p by (metis point.inject)
    obtain b where b: "on_line b x3 y3 x2 y2 x5 y5"
      using line [of x3 y3 x2 y2] on(2,3) 6(5) p padd_commute [OF Q R] by (metis point.inject)
    obtain c x6 y6 where c: "on_line c x4 y4 x3 y3 x6 y6" "padd (padd P Q) R = Pt x6 y6"
      using line [of x4 y4 x3 y3] on(3,4) 6(6) p by metis
    obtain d x7 y7 where d: "on_line d x5 y5 x1 y1 x7 y7" "padd P (padd Q R) = Pt x7 y7"
      using line [of x5 y5 x1 y1] on(1,5) 6(7) p padd_commute [OF on(1,5)] by metis
    show ?thesis using padd_assoc_lines [OF a b c(1) d(1) on] c(2) d(2) by simp
  qed
qed

subsection \<open>The type of the points\<close>

typedef epoint = "{P. on_curve P}"
  morphisms point_of epoint_of by (rule exI [of _ Infinity]) simp

setup_lifting type_definition_epoint

instantiation epoint :: ab_group_add
begin

lift_definition zero_epoint :: epoint is Infinity by simp
lift_definition plus_epoint :: "epoint \<Rightarrow> epoint \<Rightarrow> epoint" is padd by (rule padd_on_curve)
lift_definition uminus_epoint :: "epoint \<Rightarrow> epoint" is pneg by simp
definition minus_epoint :: "epoint \<Rightarrow> epoint \<Rightarrow> epoint" where "minus_epoint P Q = P + - Q"

instance
proof
  fix P Q R :: epoint
  show "P + Q + R = P + (Q + R)" by transfer (rule padd_assoc)
  show "P + Q = Q + P" by transfer (rule padd_commute)
  show "0 + P = P" by transfer simp
  show "- P + P = 0" by transfer (rule padd_pneg(2))
  show "P - Q = P + - Q" by (rule minus_epoint_def)
qed

end

lemma on_curve_point_of [simp]: "on_curve (point_of P)"
  using point_of [of P] by simp

lemma point_of_plus: "point_of (P + Q) = padd (point_of P) (point_of Q)"
  by (rule plus_epoint.rep_eq)

lemma point_of_uminus: "point_of (- P) = pneg (point_of P)"
  by (rule uminus_epoint.rep_eq)

lemma point_of_zero [simp]: "point_of 0 = Infinity"
  by (rule zero_epoint.rep_eq)

lemma point_of_eq_Infinity [simp]: "point_of P = Infinity \<longleftrightarrow> P = 0"
  by transfer simp

lemma point_of_epoint_of: "on_curve P \<Longrightarrow> point_of (epoint_of P) = P"
  by (simp add: epoint_of_inverse)

lemma no_point_of_order_two: "P + P = 0 \<longleftrightarrow> P = (0 :: epoint)"
proof
  assume "P + P = 0"
  then have "point_of P = pneg (point_of P)" by transfer (simp add: padd_eq_Infinity)
  then show "P = 0" using on_curve_point_of [of P] on_curve_y two_nonzero(1)
    by (cases "point_of P") (auto simp del: on_curve_simps simp: eq_neg_iff_add_eq_0 double_zero_iff)
qed simp

subsection \<open>Multiples\<close>

fun nmul :: "nat \<Rightarrow> epoint \<Rightarrow> epoint" where
  "nmul 0 P = 0"
| "nmul (Suc k) P = P + nmul k P"

definition zmul :: "int \<Rightarrow> epoint \<Rightarrow> epoint" where
  "zmul k P = (if 0 \<le> k then nmul (nat k) P else - nmul (nat (- k)) P)"

lemma zmul_0 [simp]: "zmul 0 P = 0"
  by (simp add: zmul_def)

lemma zmul_1 [simp]: "zmul 1 P = P"
  by (simp add: zmul_def nat_1)

lemma zmul_zero [simp]: "zmul k 0 = 0"
proof -
  have "nmul j 0 = 0" for j by (induction j) simp_all
  then show ?thesis by (simp add: zmul_def)
qed

lemma zmul_uminus: "zmul (- k) P = - zmul k P"
  by (simp add: zmul_def)

lemma zmul_plus_1: "zmul (k + 1) P = P + zmul k P"
proof (cases "0 \<le> k")
  case True
  then have "nat (k + 1) = Suc (nat k)" by simp
  then show ?thesis using True by (simp add: zmul_def)
next
  case False
  then obtain j where j: "k = - int (Suc j)" by (metis not_le negD)
  show ?thesis
  proof (cases j)
    case 0
    then show ?thesis by (simp add: j zmul_def)
  next
    case (Suc i)
    have "nat (- (k + 1)) = j" "nat (- k) = Suc j" "\<not> 0 \<le> k + 1" using Suc by (simp_all add: j)
    then show ?thesis using False by (simp add: zmul_def)
  qed
qed

lemma zmul_1_plus: "zmul (1 + k) P = P + zmul k P"
  using zmul_plus_1 [of k P] by (simp only: add.commute)

lemma zmul_add: "zmul (j + k) P = zmul j P + zmul k P"
proof (induction j rule: int_induct [where k = 0])
  case (step1 i)
  have "zmul (i + 1 + k) P = P + zmul (i + k) P" using zmul_plus_1 [of "i + k" P] by (simp add: add_ac)
  then show ?case using step1 by (simp add: zmul_plus_1 zmul_1_plus add_ac)
next
  case (step2 i)
  have "zmul (i + k) P = P + zmul (i - 1 + k) P" using zmul_plus_1 [of "i - 1 + k" P] by (simp add: algebra_simps)
  moreover have "zmul i P = P + zmul (i - 1) P" using zmul_plus_1 [of "i - 1" P] by simp
  ultimately show ?case using step2 by (simp add: add_ac)
qed simp

lemma zmul_diff: "zmul (j - k) P = zmul j P - zmul k P"
  using zmul_add [of j "- k" P] by (simp add: zmul_uminus)

lemma zmul_distrib: "zmul k (P + Q) = zmul k P + zmul k Q"
proof (induction k rule: int_induct [where k = 0])
  case (step1 i)
  then show ?case by (simp add: zmul_plus_1 zmul_1_plus add_ac)
next
  case (step2 i)
  then show ?case by (simp add: zmul_diff algebra_simps)
qed simp

lemma zmul_minus: "zmul k (- P) = - zmul k P"
  using zmul_distrib [of k P "- P"] by (simp add: eq_neg_iff_add_eq_0 add.commute)

lemma zmul_diff_right: "zmul k (P - Q) = zmul k P - zmul k Q"
  using zmul_distrib [of k P "- Q"] by (simp add: zmul_minus)

lemma zmul_mult: "zmul (j * k) P = zmul j (zmul k P)"
proof (induction j rule: int_induct [where k = 0])
  case (step1 i)
  then show ?case by (simp add: distrib_right zmul_add zmul_plus_1)
next
  case (step2 i)
  then show ?case by (simp add: left_diff_distrib zmul_diff)
qed simp

lemma zmul_2: "zmul 2 P = P + P"
  using zmul_add [of 1 1 P] by simp

lemmas zmul_linear = zmul_add zmul_diff zmul_uminus zmul_distrib zmul_minus zmul_diff_right zmul_mult

end
