(* ===== verification/Curve_Order.thy ===== *)
theory Curve_Order
  imports Scalar_Impl Group_Impl Curve_Group
begin

text \<open>
  The curve has exactly \<open>n\<close> points, the prime \<open>secp256k1_n\<close> of \<open>Scalar_8x32\<close>, so multiplication by scalars
  modulo \<open>n\<close> is well defined on every point. A point is killed by \<open>n\<close> because an element of norm \<open>n\<close> of
  the endomorphism ring kills the generator, which a chain of certified additions shows; the number
  of points is a multiple of \<open>n\<close>, odd, and at most \<open>2 * p + 1\<close>.
\<close>

subsection \<open>The endomorphism\<close>

definition beta :: gfp where
  "beta = numeral (num_of_nat 0x7ae96a2b657c07106e64479eac3434e99cf0497512f58995c1396c28719501ee)"

lemma beta_sum: "beta * beta + beta + 1 = 0"
proof -
  have "(0x7ae96a2b657c07106e64479eac3434e99cf0497512f58995c1396c28719501ee :: int) * 0x7ae96a2b657c07106e64479eac3434e99cf0497512f58995c1396c28719501ee
      + 0x7ae96a2b657c07106e64479eac3434e99cf0497512f58995c1396c28719501ee + 1 = 0x3b034e03cbc0e9e67adf9b678b2ea8201dd5ea436049fdc542a0960dd5579c3d * secp256k1_p"
    unfolding p_numeral by simp
  then have "gf (0x7ae96a2b657c07106e64479eac3434e99cf0497512f58995c1396c28719501ee * 0x7ae96a2b657c07106e64479eac3434e99cf0497512f58995c1396c28719501ee
      + 0x7ae96a2b657c07106e64479eac3434e99cf0497512f58995c1396c28719501ee + 1) = 0"
    unfolding gf_eq_0_iff by (metis dvd_triv_right)
  then show ?thesis unfolding beta_def num_of_nat_numeral_eq by (simp only: gf_hom gf_numeral)
qed

lemma beta_cube: "beta * beta * beta = 1"
  using beta_sum by algebra

lift_definition phi :: "epoint \<Rightarrow> epoint" is "\<lambda>P. case P of Infinity \<Rightarrow> Infinity | Pt x y \<Rightarrow> Pt (beta * x) y"
proof -
  have "(beta * x) * (beta * x) * (beta * x) = x * x * x" for x using beta_cube by algebra
  then show "on_curve P \<Longrightarrow> on_curve (case P of Infinity \<Rightarrow> Infinity | Pt x y \<Rightarrow> Pt (beta * x) y)" for P
    by (cases P) (simp_all only: on_curve_simps point.case)
qed

lemma phi_zero [simp]: "phi 0 = 0"
  by transfer simp

lemma point_of_phi: "point_of P = Pt x y \<Longrightarrow> point_of (phi P) = Pt (beta * x) y"
  by transfer simp

lemma phi_add: "phi (P + Q) = phi P + phi Q"
proof (cases "P = 0 \<or> Q = 0 \<or> Q = - P")
  case True
  moreover have "phi (- P) = - phi P" by transfer (simp split: point.split)
  ultimately show ?thesis by auto
next
  case False
  then obtain x1 y1 x2 y2 where p: "point_of P = Pt x1 y1" "point_of Q = Pt x2 y2"
    by (metis point.exhaust point_of_eq_Infinity)
  have c: "on_curve (Pt x1 y1)" "on_curve (Pt x2 y2)" using on_curve_point_of p by metis+
  have "\<not> (x1 = x2 \<and> y1 + y2 = 0)"
  proof
    assume "x1 = x2 \<and> y1 + y2 = 0"
    then have "point_of Q = point_of (- P)" by (auto simp: p point_of_uminus add_eq_0_iff)
    then show False using False by (simp add: point_of_inject)
  qed
  then obtain a x3 y3 where l: "on_line a x1 y1 x2 y2 x3 y3" and s: "padd (Pt x1 y1) (Pt x2 y2) = Pt x3 y3"
    using padd_on_line c by blast
  have "on_line (a * (beta * beta)) (beta * x1) y1 (beta * x2) y2 (beta * x3) y3"
    using l beta_cube unfolding on_line_def by algebra
  moreover have "on_curve (Pt (beta * x1) y1)" using on_curve_point_of [of "phi P"] point_of_phi [OF p(1)] by simp
  ultimately have "padd (Pt (beta * x1) y1) (Pt (beta * x2) y2) = Pt (beta * x3) y3" by (rule on_line_padd)
  moreover have "point_of (P + Q) = Pt x3 y3" using s by (simp add: point_of_plus p)
  ultimately have "point_of (phi (P + Q)) = point_of (phi P + phi Q)"
    using p by (simp add: point_of_phi point_of_plus)
  then show ?thesis by (simp add: point_of_inject)
qed

lemma phi_minus: "phi (- P) = - phi P"
  using phi_add [of P "- P"] by (simp add: eq_neg_iff_add_eq_0 add.commute)

lemma phi_zmul: "phi (zmul k P) = zmul k (phi P)"
proof (induction k rule: int_induct [where k = 0])
  case (step1 i)
  then show ?case by (simp add: zmul_plus_1 phi_add)
next
  case (step2 i)
  have "phi (zmul i P) = phi P + phi (zmul (i - 1) P)" using zmul_plus_1 [of "i - 1" P] by (simp add: phi_add)
  moreover have "zmul i (phi P) = phi P + zmul (i - 1) (phi P)" using zmul_plus_1 [of "i - 1" "phi P"] by simp
  ultimately show ?case using step2 by simp
qed simp

text \<open>The three points with the same \<open>y\<close> lie on a horizontal line.\<close>

lemma phi_sum: "P + phi P + phi (phi P) = 0"
proof (cases "P = 0")
  case False
  then obtain x y where p: "point_of P = Pt x y" by (metis point.exhaust point_of_eq_Infinity)
  have "on_line 0 x y (beta * x) y (beta * (beta * x)) (- y)"
    using beta_sum unfolding on_line_def by algebra
  moreover have "on_curve (Pt x y)" using on_curve_point_of [of P] p by (simp only:)
  ultimately have "padd (Pt x y) (Pt (beta * x) y) = Pt (beta * (beta * x)) (- y)" by (rule on_line_padd)
  then have "point_of (P + phi P) = Pt (beta * (beta * x)) (- y)"
    by (simp only: point_of_plus p point_of_phi [OF p])
  then have "point_of (P + phi P) = point_of (- phi (phi P))"
    using point_of_phi [OF point_of_phi [OF p]] by (simp add: point_of_uminus)
  then have "P + phi P = - phi (phi P)" by (simp only: point_of_inject)
  then show ?thesis by simp
qed simp

subsection \<open>Certified steps\<close>

text \<open>\<open>point_at x y P\<close>: the coordinates of \<open>P\<close> are the residues of two numerals. A congruence modulo \<open>p\<close> is
  checked as an equality of numerals with a multiple of \<open>p\<close> on each side.\<close>

definition p_num :: num where
  "p_num = num_of_nat 0xfffffffffffffffffffffffffffffffffffffffffffffffffffffffefffffc2f"

definition residue :: "num \<Rightarrow> gfp" where
  "residue a = numeral a"

definition point_at :: "num \<Rightarrow> num \<Rightarrow> epoint \<Rightarrow> bool" where
  "point_at x y P \<longleftrightarrow> point_of P = Pt (residue x) (residue y)"

definition mul_p :: "num \<Rightarrow> num \<Rightarrow> num option" where
  "mul_p a b = fold_red (folds folds_p) (Some (nprod a b))"

definition sqr_p :: "num \<Rightarrow> num option" where
  "sqr_p a = fold_red (folds folds_p) (osqr (Some a))"

fun cong_p :: "num option \<Rightarrow> num \<Rightarrow> num \<Rightarrow> num \<Rightarrow> bool" where
  "cong_p (Some z) j a k \<longleftrightarrow> nsum z (nprod j p_num) = nsum a (nprod k p_num)"
| "cong_p None j a k \<longleftrightarrow> False"

lemma p_num_gfp: "residue p_num = 0"
proof -
  have "gf (numeral p_num) = 0"
    unfolding gf_eq_0_iff p_num_def num_of_nat_numeral_eq p_numeral by (rule dvd_refl)
  then show ?thesis by (simp only: gf_numeral residue_def)
qed

lemma nsum_gfp: "residue (nsum a b) = (residue a + residue b :: gfp)"
  by (simp only: nsum_def residue_def numeral_add)

lemma nprod_gfp: "residue (nprod a b) = (residue a * residue b :: gfp)"
  by (simp only: nprod_def residue_def numeral_mult)

lemma nprod_p_gfp: "residue (nprod k p_num) = (0 :: gfp)"
  by (simp only: nprod_gfp p_num_gfp mult_zero_right)

lemma nsum_p_gfp: "nsum a (nprod j p_num) = nsum b (nprod k p_num) \<Longrightarrow> residue a = (residue b :: gfp)"
  by (drule arg_cong [where f = residue]) (simp only: nsum_gfp nprod_p_gfp add_0_right)

lemma folds_p_ok: "\<forall>(m, c) \<in> set (folds folds_p). pow2_num m \<and> numeral m mod secp256k1_p = numeral c mod secp256k1_p"
proof -
  have "numeral m mod secp256k1_p = numeral c mod secp256k1_p" if "(m, c, d) \<in> set folds_p" for m c d
  proof -
    have "numeral m = d * secp256k1_p + numeral c"
      using folds_p that unfolding p_numeral by (auto simp: good_folds_def)
    then show ?thesis by (simp only: mod_mult_self3)
  qed
  then show ?thesis using folds_p by (auto simp: good_folds_def)
qed

lemma fold_red_gfp: "fold_red (folds folds_p) (Some w) = Some z \<Longrightarrow> residue z = residue w"
proof -
  assume "fold_red (folds folds_p) (Some w) = Some z"
  then have "numeral z mod secp256k1_p = numeral w mod secp256k1_p"
    using red_mod [OF folds_p_ok, of "Some w"] by simp
  then have "gf (numeral z) = gf (numeral w)" by (simp only: gf_eq_iff)
  then show ?thesis by (simp only: gf_numeral residue_def)
qed

lemma sqr_gfp: "residue (Num.sqr a) = residue a * residue a"
  unfolding residue_def sqr_conv_mult by (rule numeral_mult)

lemma mul_p_gfp: "mul_p a b = Some z \<Longrightarrow> residue z = (residue a * residue b :: gfp)"
  by (drule fold_red_gfp [of "nprod a b" z, folded mul_p_def]) (simp only: nprod_gfp)

lemma sqr_p_gfp: "sqr_p a = Some z \<Longrightarrow> residue z = (residue a * residue a :: gfp)"
  using fold_red_gfp [of "Num.sqr a" z] by (simp add: sqr_p_def sqr_gfp)

lemma cong_mul_p: "cong_p (mul_p a b) j c k \<Longrightarrow> residue a * residue b = (residue c :: gfp)"
  by (cases "mul_p a b") (simp_all, metis mul_p_gfp nsum_p_gfp)

lemma cong_sqr_p: "cong_p (sqr_p a) j c k \<Longrightarrow> residue a * residue a = (residue c :: gfp)"
  by (cases "sqr_p a") (simp_all, metis sqr_p_gfp nsum_p_gfp)

lemma cong_sum_p: "cong_p (Some (nsum a b)) j c k \<Longrightarrow> residue a + residue b = residue c"
  using nsum_p_gfp [of "nsum a b" j c k] by (simp add: nsum_gfp)

lemma cong_gfp: "nsum a b = nsum c (nprod k p_num) \<Longrightarrow> residue a + residue b = (residue c :: gfp)"
  by (drule arg_cong [where f = residue]) (simp only: nsum_gfp nprod_p_gfp add_0_right)

lemma residue_nonzero: "e < p_num \<Longrightarrow> residue e \<noteq> 0"
proof
  assume e: "e < p_num" and z: "residue e = 0"
  then have "gf (numeral e) = 0" by (simp only: gf_numeral residue_def)
  then have "secp256k1_p dvd numeral e" by (simp only: gf_eq_0_iff)
  then have "secp256k1_p \<le> numeral e" by (rule zdvd_imp_le) simp
  moreover have "(numeral e :: int) < numeral p_num" using e by simp
  ultimately show False unfolding p_num_def num_of_nat_numeral_eq p_numeral by linarith
qed

text \<open>The doubling of \<open>(x, y)\<close> with slope \<open>l / 2\<close> of the tangent given as \<open>l\<close>, and the step that doubles and adds
  \<open>(u, v)\<close> as \<open>(P + Q) + P\<close>, without the second coordinate of the intermediate point.\<close>

definition double_cert ::
  "num \<Rightarrow> num \<Rightarrow> num \<Rightarrow> num \<Rightarrow> num \<Rightarrow> num \<Rightarrow> num \<times> num \<times> num \<times> num \<times> num \<times> num \<times> num \<Rightarrow> bool" where
  "double_cert x y l d x3 y3 = (\<lambda>(j0, j1, j2, j3, j4, j5, j6).
     (case sqr_p x of None \<Rightarrow> False
      | Some v \<Rightarrow> cong_p (mul_p (num.Bit0 l) y) j0 (nprod (num.Bit1 num.One) v) j1) \<and>
     cong_p (sqr_p l) j2 (nsum x3 (num.Bit0 x)) j3 \<and>
     nsum d x3 = nsum x (nprod j4 p_num) \<and>
     cong_p (mul_p l d) j5 (nsum y3 y) j6)"

definition chord_cert ::
  "num \<Rightarrow> num \<Rightarrow> num \<Rightarrow> num \<Rightarrow> num \<Rightarrow> num \<Rightarrow> num \<Rightarrow> num \<times> num \<times> num \<times> num \<times> num \<times> num \<Rightarrow> bool" where
  "chord_cert x y u v e l x1 = (\<lambda>(j0, j1, j2, j3, j4, j5).
     e < p_num \<and> cong_p (Some (nsum e x)) j0 u j1 \<and>
     (case mul_p l e of None \<Rightarrow> False | Some z \<Rightarrow> cong_p (Some (nsum z y)) j2 v j3) \<and>
     cong_p (sqr_p l) j4 (nsum x1 (nsum x u)) j5)"

definition double_add_cert ::
  "num \<Rightarrow> num \<Rightarrow> num \<Rightarrow> num \<Rightarrow> num \<Rightarrow> num \<Rightarrow> num \<Rightarrow> num \<Rightarrow>
   num \<times> num \<times> num \<times> num \<times> num \<times> num \<times> num \<times> num \<times> num \<times> num \<times> num \<Rightarrow> bool" where
  "double_add_cert x y l1 x1 e l2 x3 y3 = (\<lambda>(d, j0, j1, j2, j3, j4, j5, j6, j7, j8, j9).
     e < p_num \<and> cong_p (Some (nsum e x1)) j0 x j1 \<and>
     cong_p (mul_p (nsum l1 l2) e) j2 (num.Bit0 y) j3 \<and>
     cong_p (sqr_p l2) j4 (nsum x3 (nsum x x1)) j5 \<and>
     cong_p (Some (nsum d x3)) j6 x j7 \<and>
     cong_p (mul_p l2 d) j8 (nsum y3 y) j9)"

lemma residue_bits: "residue (num.Bit0 a) = 2 * residue a" "residue (num.Bit1 num.One) = 3"
  unfolding residue_def mult_2 by (rule numeral_Bit0, rule refl)

lemma point_at_plus:
  assumes "point_at x y P" and "point_of Q = Pt u v" and "u \<noteq> residue x" and "l * (u - residue x) = v - residue y"
  shows "point_of (P + Q) = chord l (residue x) (residue y) u"
proof -
  have "l = (v - residue y) / (u - residue x)" using assms(3,4) by (simp add: nonzero_eq_divide_eq)
  then show ?thesis using assms(1,2,3) by (simp add: point_of_plus point_at_def)
qed

lemma double_step:
  assumes P: "point_at x y P" and c: "double_cert x y l d x3 y3 (j0, j1, j2, j3, j4, j5, j6)"
  shows "point_at x3 y3 (P + P)"
proof -
  have on: "on_curve (Pt (residue x) (residue y))" using P on_curve_point_of [of P] by (simp add: point_at_def)
  obtain v where v: "sqr_p x = Some v" "cong_p (mul_p (num.Bit0 l) y) j0 (nprod (num.Bit1 num.One) v) j1"
    using c by (auto simp: double_cert_def split: option.splits)
  have y: "residue y \<noteq> (0 :: gfp)" by (rule on_curve_y [OF on])
  have l: "2 * residue l * residue y = (3 * (residue x * residue x) :: gfp)"
    using cong_mul_p [OF v(2)] unfolding nprod_gfp residue_bits sqr_p_gfp [OF v(1)] .
  then have s: "3 * residue x * residue x / (2 * residue y) = (residue l :: gfp)"
    using y two_nonzero(1) by (simp add: nonzero_divide_eq_eq mult_ac)
  have x3: "residue l * residue l = (residue x3 + 2 * residue x :: gfp)"
    and d: "residue d + residue x3 = (residue x :: gfp)" and y3: "residue l * residue d = (residue y3 + residue y :: gfp)"
    using c cong_sqr_p [of l] cong_mul_p [of l d] cong_gfp [of d x3 x]
    by (auto simp: double_cert_def nsum_gfp residue_bits)
  have "point_of (P + P) = chord (residue l) (residue x) (residue y) (residue x)"
    using P y s two_nonzero(1) by (simp add: point_of_plus point_at_def double_zero_iff)
  moreover have "residue x3 = (residue l * residue l - residue x - residue x :: gfp)" using x3 by algebra
  moreover have "residue y3 = (residue l * (residue x - residue x3) - residue y :: gfp)" using y3 d by algebra
  ultimately show ?thesis by (simp add: point_at_def chord_def Let_def)
qed

lemma chord_step:
  assumes P: "point_at x y P" and Q: "point_at u v Q" and c: "chord_cert x y u v e l x1 (j0, j1, j2, j3, j4, j5)"
  shows "point_of (P + Q) = Pt (residue x1) (residue l * (residue x - residue x1) - residue y)"
proof -
  obtain z where z: "mul_p l e = Some z" "cong_p (Some (nsum z y)) j2 v j3"
    using c by (auto simp: chord_cert_def split: option.splits)
  have c': "e < p_num" "cong_p (Some (nsum e x)) j0 u j1" "cong_p (sqr_p l) j4 (nsum x1 (nsum x u)) j5"
    using c unfolding chord_cert_def prod.case by blast+
  have l: "residue l * residue e + residue y = residue v"
    using cong_sum_p [OF z(2)] unfolding mul_p_gfp [OF z(1)] .
  have ne: "residue e \<noteq> 0" by (rule residue_nonzero [OF c'(1)])
  note e = cong_sum_p [OF c'(2)]
  have m: "residue l * residue l = residue x1 + (residue x + residue u)"
    using cong_sqr_p [OF c'(3)] by (simp only: nsum_gfp)
  have "residue u - residue x = residue e" "residue v - residue y = residue l * residue e" by (simp_all flip: e l)
  then have eq: "residue l * (residue u - residue x) = residue v - residue y" by simp
  have ux: "residue u \<noteq> residue x" using ne e by auto
  have "point_of (P + Q) = chord (residue l) (residue x) (residue y) (residue u)"
    using P Q ux eq by (intro point_at_plus) (simp_all add: point_at_def)
  moreover have "residue x1 = (residue l * residue l - residue x - residue u :: gfp)" using m by algebra
  ultimately show ?thesis by (simp add: chord_def Let_def)
qed

lemma double_add_step:
  assumes P: "point_at x y P" and Q: "point_at u v Q" and chord: "chord_cert x y u v e1 l1 x1 (k0, k1, k2, k3, k4, k5)"
    and c: "double_add_cert x y l1 x1 e l2 x3 y3 (d, j0, j1, j2, j3, j4, j5, j6, j7, j8, j9)"
  shows "point_at x3 y3 (P + P + Q)"
proof -
  have c': "e < p_num" "cong_p (Some (nsum e x1)) j0 x j1" "cong_p (mul_p (nsum l1 l2) e) j2 (num.Bit0 y) j3"
    "cong_p (sqr_p l2) j4 (nsum x3 (nsum x x1)) j5" "cong_p (Some (nsum d x3)) j6 x j7"
    "cong_p (mul_p l2 d) j8 (nsum y3 y) j9"
    using c unfolding double_add_cert_def prod.case by blast+
  have ne: "residue e \<noteq> 0" by (rule residue_nonzero [OF c'(1)])
  note e = cong_sum_p [OF c'(2)] cong_sum_p [OF c'(5)]
  note m = cong_mul_p [OF c'(3), unfolded nsum_gfp residue_bits] cong_sqr_p [OF c'(4), unfolded nsum_gfp]
    cong_mul_p [OF c'(6), unfolded nsum_gfp]
  have "point_of (P + (P + Q)) = chord (residue l2) (residue x) (residue y) (residue x1)"
  proof (rule point_at_plus [OF P chord_step [OF P Q chord]])
    show "residue x1 \<noteq> (residue x :: gfp)" using ne e(1) by auto
    show "residue l2 * (residue x1 - residue x) = residue l1 * (residue x - residue x1) - residue y - (residue y :: gfp)"
      using m(1) e(1) by algebra
  qed
  moreover have "residue x3 = (residue l2 * residue l2 - residue x - residue x1 :: gfp)" using m(2) by algebra
  moreover have "residue y3 = (residue l2 * (residue x - residue x3) - residue y :: gfp)" using m(3) e(2) by algebra
  ultimately have "point_at x3 y3 (P + (P + Q))" by (simp add: point_at_def chord_def Let_def)
  then show ?thesis by (simp only: add.assoc)
qed

subsection \<open>The generator has order \<open>n\<close>\<close>

definition gen :: epoint where
  "gen = epoint_of (ge_abs secp256k1_ge_const_g)"

lemma point_of_gen: "point_of gen = ge_abs secp256k1_ge_const_g"
  unfolding gen_def by (rule point_of_epoint_of [OF ge_const_g_on_curve])

lemma gen_nonzero: "gen \<noteq> 0"
proof -
  have "point_of gen \<noteq> Infinity" by (simp add: point_of_gen ge_abs_def ge_const_g_limbs(3))
  then show ?thesis by simp
qed

text \<open>\<open>cm a b\<close>: the multiple of the generator by \<open>a + b * phi\<close>.\<close>

definition cm :: "int \<Rightarrow> int \<Rightarrow> epoint" where
  "cm a b = zmul a gen + zmul b (phi gen)"

lemma cm_double: "cm (2 * a) (2 * b) = cm a b + cm a b"
  by (simp add: cm_def zmul_mult zmul_2 zmul_distrib add_ac)

lemma cm_add: "cm (a + c) (b + d) = cm a b + cm c d"
  by (simp add: cm_def zmul_add add_ac)

lemma cm_minus: "cm (- a) (- b) = - cm a b"
  by (simp add: cm_def zmul_uminus)

lemma point_at_minus:
  assumes "point_at x y P" and "nsum y y' = p_num"
  shows "point_at x y' (- P)"
proof -
  have "residue y + residue y' = 0" using assms(2) p_num_gfp by (metis nsum_gfp)
  then have "residue y' = - (residue y :: gfp)" by (simp add: eq_neg_iff_add_eq_0 add.commute)
  then show ?thesis using assms(1) by (simp add: point_at_def point_of_uminus)
qed

lemma point_at_phi:
  assumes "point_at x y P" and "cong_p (mul_p (num_of_nat 0x7ae96a2b657c07106e64479eac3434e99cf0497512f58995c1396c28719501ee) x) j x' k"
  shows "point_at x' y (phi P)"
  using assms point_of_phi [of P "residue x" "residue y"] cong_mul_p [OF assms(2)]
  by (simp add: point_at_def beta_def residue_def)

lemma double_cm:
  assumes "point_at x y (cm a b)" and "double_cert x y l d x3 y3 (j0, j1, j2, j3, j4, j5, j6)" and "2 * a = a'" and "2 * b = b'"
  shows "point_at x3 y3 (cm a' b')"
  using double_step [OF assms(1,2)] unfolding assms(3,4) [symmetric] cm_double .

lemma double_add_cm:
  assumes "point_at x y (cm a b)" and "point_at u v (cm s t)" and "chord_cert x y u v e1 l1 x1 (k0, k1, k2, k3, k4, k5)"
    and "double_add_cert x y l1 x1 e l2 x3 y3 (d, j0, j1, j2, j3, j4, j5, j6, j7, j8, j9)" and "2 * a + s = a'" and "2 * b + t = b'"
  shows "point_at x3 y3 (cm a' b')"
  using double_add_step [OF assms(1-4)] unfolding assms(5,6) [symmetric] cm_add cm_double .

lemmas cert_eval = double_cert_def chord_cert_def double_add_cert_def mul_p_def sqr_p_def cong_p.simps p_num_def folds_p_def
  pow_eval cert_simps option.case less_num_simps le_num_simps simp_thms

lemma gen_1: "point_at (num_of_nat 0x79be667ef9dcbbac55a06295ce870b07029bfcdb2dce28d959f2815b16f81798) (num_of_nat 0x483ada7726a3c4655da4fbfc0e1108a8fd17b448a68554199c47d08ffb10d4b8) (cm 1 0)"
  unfolding point_at_def cm_def
  by (simp add: point_of_gen ge_abs_def ge_const_g_limbs(3) fe_abs_def ge_const_g_val gf_numeral num_of_nat_numeral_eq residue_def)

lemma cm_w: "cm 0 1 = phi (cm 1 0)" "cm (- 1) (- 1) = phi (cm 0 1)"
proof -
  have "phi (phi gen) = - (gen + phi gen)" using phi_sum [of gen] by (metis add_eq_0_iff)
  then show "cm 0 1 = phi (cm 1 0)" "cm (- 1) (- 1) = phi (cm 0 1)" by (simp_all add: cm_def zmul_uminus)
qed

lemma gen_w: "point_at (num_of_nat 0xbcace2e99da01887ab0102b696902325872844067f15e98da7bba04400b88fcb) (num_of_nat 0x483ada7726a3c4655da4fbfc0e1108a8fd17b448a68554199c47d08ffb10d4b8) (cm 0 1)"
  unfolding cm_w(1) by (rule point_at_phi [OF gen_1, of "num.One" _ "num.One"]) (simp only: cert_eval)

lemma gen_w2: "point_at (num_of_nat 0xc994b69768832bcbff5e9ab39ae8d1d3763bbf1e531bed98fe51de5ee84f50fb) (num_of_nat 0x483ada7726a3c4655da4fbfc0e1108a8fd17b448a68554199c47d08ffb10d4b8) (cm (- 1) (- 1))"
  unfolding cm_w(2) by (rule point_at_phi [OF gen_w, of "num.One" _ "num.One"]) (simp only: cert_eval)

lemma gen_m1: "point_at (num_of_nat 0x79be667ef9dcbbac55a06295ce870b07029bfcdb2dce28d959f2815b16f81798) (num_of_nat 0xb7c52588d95c3b9aa25b0403f1eef75702e84bb7597aabe663b82f6f04ef2777) (cm (- 1) 0)"
  using point_at_minus [OF gen_1, of "num_of_nat 0xb7c52588d95c3b9aa25b0403f1eef75702e84bb7597aabe663b82f6f04ef2777"] cm_minus [of 1 0] by (simp add: p_num_def nsum_def num_of_nat_numeral_eq)

lemma gen_mw: "point_at (num_of_nat 0xbcace2e99da01887ab0102b696902325872844067f15e98da7bba04400b88fcb) (num_of_nat 0xb7c52588d95c3b9aa25b0403f1eef75702e84bb7597aabe663b82f6f04ef2777) (cm 0 (- 1))"
  using point_at_minus [OF gen_w, of "num_of_nat 0xb7c52588d95c3b9aa25b0403f1eef75702e84bb7597aabe663b82f6f04ef2777"] cm_minus [of 0 1] by (simp add: p_num_def nsum_def num_of_nat_numeral_eq)

lemma gen_mw2: "point_at (num_of_nat 0xc994b69768832bcbff5e9ab39ae8d1d3763bbf1e531bed98fe51de5ee84f50fb) (num_of_nat 0xb7c52588d95c3b9aa25b0403f1eef75702e84bb7597aabe663b82f6f04ef2777) (cm 1 1)"
  using point_at_minus [OF gen_w2, of "num_of_nat 0xb7c52588d95c3b9aa25b0403f1eef75702e84bb7597aabe663b82f6f04ef2777"] cm_minus [of "- 1" "- 1"] by (simp add: p_num_def nsum_def num_of_nat_numeral_eq)

lemma order_0: "point_at (num_of_nat 0xc360a6d0b34ce6df4135ee7d59f87b33d2fad8cce43837ef3e995b6ed89250e1) (num_of_nat 0xe51e970159c23cc65c3a7be6b99315110809cd9acd992f1edc9bce55af301705) (cm 0 (- 2))"
  by (rule double_cm [OF gen_mw, of
      "num_of_nat 0x7df05feaa87293a98919fb7954ca25dfe4cf7571715512745288cd5285cbcc89" "num_of_nat 0xf94c3c18ea5331a869cb14393c97a7f1b42d6b399addb19e692244d428263b19" _ _
      "num_of_nat 2" "num.One" "num_of_nat 3" "num.One" "num.One" "num_of_nat 2" "num.One"])
    ((simp only: cert_eval; fail) | simp)+

lemma order_1: "point_at (num_of_nat 0x1b77921f0d3829075c45faf8b90e324b714c30b5ab4871275bde5b333b306100) (num_of_nat 0xae1266c15f2baa48a9bd1df6715aebb7269851cc404201bf30168422b88c630d) (cm 0 (- 4))"
  by (rule double_cm [OF order_0, of
      "num_of_nat 0x53577aa6b6ce62c27bb968c9387620b6112ea60e4e7ea6e65b54848b0ae78dd3" "num_of_nat 0x1a7e914b1a614bdd7e4eff384a0ea48e861aea81738efc6c7e2bb003a9d61ec10" _ _
      "num_of_nat 3" "num.One" "num_of_nat 2" "num.One" "num.One" "num_of_nat 2" "num.One"])
    ((simp only: cert_eval; fail) | simp)+

lemma order_2: "point_at (num_of_nat 0xfde9f0a5fc339c4c9ede87499ce905cf3c83f4855630b904f12e02e421e0a94d) (num_of_nat 0x8378eb19537d0da80ec984be76bf2085490d17368ee0ab492fd8f179e46375ca) (cm 1 (- 7))"
  by (rule double_add_cm [OF order_1 gen_mw2, of
      "num_of_nat 0xae1d24785b4b02c4a3189fbae1da9f8804ef8e68a7d37c71a273832bad1eeffb" "num_of_nat 0xa6ff5e3e1ad218c48fdd70b138eeabe9ff8cd31c31034e6e9240b1ccca600e09" "num_of_nat 0xa7dad633cf238f95fea9b0238af992b0841082ff8b4919a254ca421dfa812369"
      "num.One" "num.One" "num.One" "num.One" "num_of_nat 2" "num.One"
      "num_of_nat 0x739cbbeb3e1499715d9c4ad52e149f9aed3badb61fff57850714191440af39c6" "num_of_nat 0x156284d5376f4c4e53f066e18506d9d444da58cec935f71316468a1a05601b91" _ _
      "num_of_nat 0x1d8da17911048cbabd6773af1c252c7c34c83c305517b8226ab0584e194fb3e2"
      "num.One" "num_of_nat 2" "num_of_nat 2" "num.One" "num_of_nat 2" "num.One" "num.One" "num_of_nat 2" "num_of_nat 2" "num.One"])
    ((simp only: cert_eval; fail) | simp)+

lemma order_3: "point_at (num_of_nat 0x8f53bc847db1b710eb32faf14f4399ca7890169c923acebb2594044479d97613) (num_of_nat 0x20ed64663e88025e19280ec14a530b40a61626318fab8a53f6ddb2c5342248a5) (cm 3 (- 14))"
  by (rule double_add_cm [OF order_2 gen_1, of
      "num_of_nat 0x7bd475d8fda91f5fb6c1db4c319e0537c6180855d79d6fd468c47e75f5176a7a" "num_of_nat 0xbf4b899932d764fa439ee16e8fc4554099ff271bd0ec99f074e0c5d2346dd925" "num_of_nat 0x9f5cc04d7b28e2da279d8df7ab2a38ae9c10f9d68810e6723f9d6ee8076a25b8"
      "num.One" "num_of_nat 2" "num.One" "num_of_nat 2" "num_of_nat 3" "num.One"
      "num_of_nat 0x5e8d3058810ab9727740f951f1becd20a072faaece1fd292b19093fc1a768395" "num_of_nat 0x27c6a1b168095ba91a06acec4956e8d62ac64494128cfe59cf49bd709204922b" _ _
      "num_of_nat 0x6e9634217e81e53bb3ab8c584da56c04c3f3dde8c3f5ea49cb99fe9fa807333a"
      "num.One" "num.One" "num_of_nat 2" "num.One" "num_of_nat 3" "num.One" "num.One" "num.One" "num.One" "num.One"])
    ((simp only: cert_eval; fail) | simp)+

lemma order_4: "point_at (num_of_nat 0xfa4c95718cb89c28c86eabc327788cfb4d351dd711b4930a57325e982b14dcf0) (num_of_nat 0x9ab7e78b0293213b20c2fc84ddc3400f395c1752a284af750c196d2a3b7e998c) (cm 6 (- 28))"
  by (rule double_cm [OF order_3, of
      "num_of_nat 0x5ee7ab06eb5f43fe11dfd0bbb39c2e5139049b10f8080b768d47a86dc7a00ebd" "num_of_nat 0x95072712f0f91ae822c44f2e27cb0ccf2b5af8c580863bb0ce61a5ab4ec49552" _ _
      "num_of_nat 3" "num.One" "num_of_nat 3" "num.One" "num.One" "num.One" "num.One"])
    ((simp only: cert_eval; fail) | simp)+

lemma order_5: "point_at (num_of_nat 0x926ece93230f997bf01decea7e5d634c76c4d5aa0aea4ec8ea96f4b5efc75c26) (num_of_nat 0x6dfb01961731d6ad74113429c099b11dea138fcb123721eece5670ce3aed0ca5) (cm 12 (- 57))"
  by (rule double_add_cm [OF order_4 gen_mw, of
      "num_of_nat 0xc2604d7810e77c5ee29256f36f17962a39f3262f6d615683508941aad5a3af0a" "num_of_nat 0xeddf9b4b0e650f1749ad3ca8500ce81912ae4ec16c3b6ff8074b4f6aa7be0afd" "num_of_nat 0xbff1325745488124ff1ea53a974fb36e4f9079ed23e58b39e9f08d46ba2361f2"
      "num.One" "num_of_nat 2" "num.One" "num.One" "num_of_nat 3" "num.One"
      "num_of_nat 0x3a5b631a47701b03c95006889028d98cfda4a3e9edcf07d06d41d15170f17afe" "num_of_nat 0xab628bcf705b8f7ccfb829d66ef217ae5c59e649b8c2f0f559d123f9df47b128" _ _
      "num_of_nat 0x67ddc6de69a902acd850bed8a91b29aed670482d06ca44416c9b69e23b4d80ca"
      "num.One" "num.One" "num_of_nat 2" "num.One" "num_of_nat 3" "num.One" "num.One" "num.One" "num_of_nat 2" "num.One"])
    ((simp only: cert_eval; fail) | simp)+

lemma order_6: "point_at (num_of_nat 0xc55ade76f1682598c571bd0699f40d94aa802a49ad8daeae9c8b6b35c1b698f8) (num_of_nat 0xac9de2ba9d73507be709380e91681b10b64e4f2cbb20dc609b2037856600ec63) (cm 24 (- 114))"
  by (rule double_cm [OF order_5, of
      "num_of_nat 0x8ebff27598fd2f1750f25937345a0564fffee9d3dcd8529f560e25e7aa0f9f4a" "num_of_nat 0xcd13f01c31a773e32aac2fe3e46955b7cc44ab605d5ca01a4e0b897f2e10bf5d" _ _
      "num_of_nat 3" "num.One" "num_of_nat 2" "num.One" "num.One" "num_of_nat 2" "num.One"])
    ((simp only: cert_eval; fail) | simp)+

lemma order_7: "point_at (num_of_nat 0xc57a426d47d5d31fb268ca88838b970dbe875f372c649706329c826d6ad5fbb4) (num_of_nat 0x91a3d643f88482f23d1f15fed4798d1ebf231bfc3b1fd70608a9ac4dfd2018af) (cm 49 (- 228))"
  by (rule double_add_cm [OF order_6 gen_1, of
      "num_of_nat 0xb463880808749613902ea58f3492fd72581bd29180407a2abd67162455417acf" "num_of_nat 0xe4a7946338d37a818b3d9fe56a3aca0fbafe991eb3ae28fc8a6291112e4aecbf" "num_of_nat 0x11736d8a5aecf22c6b1837d4d95ebe462bd09d7ad61f6a4b79fb87d16d5ec90e"
      "num.One" "num_of_nat 2" "num.One" "num_of_nat 2" "num_of_nat 2" "num.One"
      "num_of_nat 0xb3e770ec967b336c5a598531c0954f4e7eaf8cced76e4463228fe3645457cfea" "num_of_nat 0xe2bddab97e62b7addca7898ed958c6d5f21e1cead12a1023ba9ae571768ac144" _ _
      "num_of_nat 0xffe09c09a99252791308f27e16687686ebf8cb12812917a869eee8c756e09973"
      "num.One" "num.One" "num_of_nat 2" "num.One" "num_of_nat 2" "num.One" "num.One" "num_of_nat 2" "num_of_nat 2" "num.One"])
    ((simp only: cert_eval; fail) | simp)+

lemma order_8: "point_at (num_of_nat 0xb7cd5f6edf8689ec32333e65fe1a72d01010d79f0a079bbdf42806c0c7a61f5a) (num_of_nat 0xee1de780c942077d44db1b1e02870decb3a7fbbe9890f6038246fc4b4a878986) (cm 97 (- 457))"
  by (rule double_add_cm [OF order_7 gen_w2, of
      "num_of_nat 0x41a742a20ad58ac4cf5d02b175d3ac5b7b45fe726b75692cbb55bf17d795547" "num_of_nat 0xf1b58a96d0c01208cb4a87858a0b03e105b9675aa4e6f0fc6ec573169cc4ce73" "num_of_nat 0xa426aa6b843da8130d70d41d35b88c38cfd98c54451f39751b3ed037a27caf25"
      "num.One" "num.One" "num.One" "num_of_nat 2" "num_of_nat 3" "num.One"
      "num_of_nat 0x21539801c3982b0ca4f7f66b4dd30ad4eeadd2e2e7455d91175db235c8594c8f" "num_of_nat 0x675bc3c931311d057767ff3635a2c1e2c3bac6ba0e54350d271f3d5182663a0f" _ _
      "num_of_nat 0xdace2fe684f493380358c228571243dae768798225cfb483e747baca32fdc5a"
      "num.One" "num.One" "num_of_nat 2" "num.One" "num_of_nat 3" "num.One" "num.One" "num.One" "num_of_nat 2" "num.One"])
    ((simp only: cert_eval; fail) | simp)+

lemma order_9: "point_at (num_of_nat 0xe0fb339d3af1c9d4117d723b3cbb91097af32f29fa7edd59e579c10fbfb79492) (num_of_nat 0xe72b0ed96d30fa3e987df02e76512bc7256ac307f032d35e458cea9069ff677a) (cm 194 (- 913))"
  by (rule double_add_cm [OF order_8 gen_w, of
      "num_of_nat 0x4df837abe198e9b78cdc4509875b05577176c67750e4dcfb393998339127071" "num_of_nat 0x1c9083253e708b268f46c56ffa10ac7d524d3c33e80827c7f1a7954f42069ad8" "num_of_nat 0xc6dde4a050a18be76d9238f3f150e369ac76f06823cc5d69b156cc766047f674"
      "num.One" "num.One" "num.One" "num_of_nat 2" "num_of_nat 3" "num.One"
      "num_of_nat 0xf0ef7ace8ee4fe04c4a105720cc98f666399e736e63b3e5442d13a49675e2515" "num_of_nat 0x68ab51c983c6588b5ec64f9f11fab974454326ec88bf6e4bd267559470186826" _ _
      "num_of_nat 0xd6d22bd1a494c01820b5cc2ac15ee1c6951da8750f88be640eae45b007ee86f7"
      "num.One" "num_of_nat 2" "num_of_nat 2" "num.One" "num_of_nat 3" "num.One" "num.One" "num_of_nat 2" "num_of_nat 2" "num.One"])
    ((simp only: cert_eval; fail) | simp)+

lemma order_10: "point_at (num_of_nat 0xf6c4d080197ef886b4bc291a30c71fc5ef004375b28d4d5aaf8f59a5908cdd70) (num_of_nat 0x6d7fd2455216bca9be74aba905dbebb6d922608820f92aa364014e4a8202cd4e) (cm 388 (- 1826))"
  by (rule double_cm [OF order_9, of
      "num_of_nat 0x6d72d1d7f12a83bf88fab1fe8ada3839c0a7213c7af72dddc6538332eea55f11" "num_of_nat 0xea36631d2172d14d5cc149210bf471438bf2ebb447f18fff35ea67692f2ab351" _ _
      "num_of_nat 2" "num.One" "num_of_nat 3" "num.One" "num.One" "num_of_nat 2" "num.One"])
    ((simp only: cert_eval; fail) | simp)+

lemma order_11: "point_at (num_of_nat 0x19d18ed10b948b302571227570cdf9bd4b4b597e9ddfa8b2214c0854d407c787) (num_of_nat 0x5da2b79a2f657bbe33643f4fab01d519ac1b9b212d82e868e2295a2a94796dfb) (cm 776 (- 3652))"
  by (rule double_cm [OF order_10, of
      "num_of_nat 0xce1174750bef4e0205d08bce8ac1894592e8425a3c946c99c37d3ecf03099d60" "num_of_nat 0x1dcf341af0dea6d568f4b06a4bff92608a3b4e9f714ada4a88e43514fbc851218" _ _
      "num.One" "num.One" "num_of_nat 3" "num.One" "num.One" "num.One" "num.One"])
    ((simp only: cert_eval; fail) | simp)+

lemma order_12: "point_at (num_of_nat 0x3247b1ec3e42a0aa0defed595fce6ff44f4fd8e7f616c3745ac1e44da9b0c628) (num_of_nat 0x96b4495752993d1ca49b5f16e547ac9efa0a904d50e13e574a794d6e4dad9249) (cm 1553 (- 7304))"
  by (rule double_add_cm [OF order_11 gen_1, of
      "num_of_nat 0x5fecd7adee48307c302f40205db91149b750a35c8fee802738a6790642f05011" "num_of_nat 0x871bb8f19461e9a6a34c2042ddf252b4dc64aab06df40d97113aa915aff61276" "num_of_nat 0x3a8d72ad2084907a7b7f7029c6065b44fdde4c0ac2282cba199317db20d61302"
      "num.One" "num.One" "num.One" "num_of_nat 2" "num.One" "num.One"
      "num_of_nat 0xdf441c23eb0ffab5a9f1b24baac79e784d6d0d73dbb77bf807b8f078b331b0b4" "num_of_nat 0xd4cd52eb02867a18ac3e9c2e61475b11d87dc045650cb8851e3a9f7e0d3cd157" _ _
      "num_of_nat 0xe789dce4cd51ea861781351c10ff89c8fbfb8096a7c8e53dc68a24062a56fd8e"
      "num.One" "num_of_nat 2" "num.One" "num.One" "num.One" "num.One" "num.One" "num_of_nat 2" "num.One" "num.One"])
    ((simp only: cert_eval; fail) | simp)+

lemma order_13: "point_at (num_of_nat 0xf37b9507f5ea29975916dac9bea5ec22c2a85fc7dde2866c3af3e94ece60ce93) (num_of_nat 0x9fe65e49ccabf58382536795074aaa92cb1fe3ae4f2a775b53afc7087d80d8e2) (cm 3105 (- 14609))"
  by (rule double_add_cm [OF order_12 gen_w2, of
      "num_of_nat 0x974d04ab2a408b21f16ead5a3b1a61df26ebe6365d052a24a38ffa113e9e8ad3" "num_of_nat 0x47bb033294d376e8bb13c3352bcf4a627d02734801d0760e93b969df8fc1cf76" "num_of_nat 0x85338c7ef5f1a728e10cbdbeb1a20f7aee5f8afdb53a67bfecee71d94d3018ee"
      "num.One" "num.One" "num.One" "num_of_nat 2" "num_of_nat 2" "num.One"
      "num_of_nat 0xad14256d4850f9812ce32f9aae2c607960f04dea40dc5bb46dd372735c80a969" "num_of_nat 0x3c9bb8e7329be3e75c4ab0d2fda50715542ee48542eaea4a070672d06c0f0a17" _ _
      "num_of_nat 0x3ecc1ce448587712b4d9128fa12883d18ca7792018343d081fcdfafddb4ff3c4"
      "num.One" "num_of_nat 2" "num_of_nat 2" "num.One" "num_of_nat 2" "num.One" "num.One" "num_of_nat 2" "num_of_nat 2" "num.One"])
    ((simp only: cert_eval; fail) | simp)+

lemma order_14: "point_at (num_of_nat 0xe8b6acb8b6fdccd6ecabc2c907b230013c4beba3dcfa6f8a699a4256c10f81cb) (num_of_nat 0xa5ff8621e0d947006825b31ddb2867962749f6c8495cce5805790e2995c4ce48) (cm 6211 (- 29218))"
  by (rule double_add_cm [OF order_13 gen_1, of
      "num_of_nat 0x8642d17703f29214fc8987cc0fe11ee43ff39d134feba26d1efe980b48974534" "num_of_nat 0x6abf62c00f489367df9b63936065b3a7f81ae9b9e1940e7341727feb216527c8" "num_of_nat 0x2d2b8d74b6bf4ad35975488bcf2ea292cf1bb51e28dfadbb167a77c0bd839798"
      "num.One" "num_of_nat 2" "num.One" "num_of_nat 2" "num_of_nat 2" "num.One"
      "num_of_nat 0xc65007933f2adec3ffa1923def77498ff38caaa9b502d8b12479718e10dd36fb" "num_of_nat 0x9e37fd6784892552c428f32c271898dc91ac157c17878e3791a9c1b47fd68ee7" _ _
      "num_of_nat 0xac4e84f3eec5cc06c6b1800b6f3bc21865c742400e816e1d159a6f80d514cc8"
      "num.One" "num.One" "num_of_nat 2" "num.One" "num_of_nat 3" "num.One" "num.One" "num.One" "num_of_nat 2" "num.One"])
    ((simp only: cert_eval; fail) | simp)+

lemma order_15: "point_at (num_of_nat 0x72a0f442f17a2a64cfabe8b33ab9ddda9e9b2aa08f7a7df1ca2e08c3d58500d9) (num_of_nat 0xa378e61fe0cef24a9fc6981eafca41906a816fb0b3df862fa580e543964926c9) (cm 12422 (- 58436))"
  by (rule double_cm [OF order_14, of
      "num_of_nat 0x4f135e2aa9820e37bf093e12223542734bc65c57493200e629cff88f8f3312c2" "num_of_nat 0x17615b875c583a2721cffda15ccf852269db0c1034d7ff1989f6c3991eb8a7d21" _ _
      "num_of_nat 2" "num.One" "num_of_nat 3" "num.One" "num.One" "num_of_nat 2" "num.One"])
    ((simp only: cert_eval; fail) | simp)+

lemma order_16: "point_at (num_of_nat 0x9def983585296ebe5e830b27badf85765eb32e437051c9fbf73ce51107dfa425) (num_of_nat 0x784f5697c6814fa9fd6c8f37cc982d3d215c3cd3a37718fc103a9bb131a25970) (cm 24845 (- 116871))"
  by (rule double_add_cm [OF order_15 gen_mw2, of
      "num_of_nat 0x56f3c254770901672fb2b200602ef3f8d7a0947dc3a16fa73423d59b12ca5022" "num_of_nat 0x436d4f5b43dd51b09764964643e4fe882b6209b1bc830dc6324ebe5b43054a68" "num_of_nat 0x5830064a5b6902aeab18139c2375c6ebbb7d78189ee09fcb0ca133ab5c82a333"
      "num.One" "num.One" "num.One" "num.One" "num_of_nat 2" "num.One"
      "num_of_nat 0x1a70edf8961127b62493d517174416eee31db287f099de26bd8cd51879025da6" "num_of_nat 0xd13837857cd329ede47b5dd4fd95bf7779d43a3e26d6ebc416acbd144a35b336" _ _
      "num_of_nat 0xd4b15c0d6c50bba67128dd8b7fda58643fe7fc5d1f28b3f5d2f123b1cda558e3"
      "num.One" "num.One" "num_of_nat 2" "num.One" "num_of_nat 2" "num.One" "num.One" "num_of_nat 2" "num_of_nat 2" "num.One"])
    ((simp only: cert_eval; fail) | simp)+

lemma order_17: "point_at (num_of_nat 0xef25f4ce31d866088c6bc2bbf8707f38ebd362976d5e25ab8de9b6e7254d6489) (num_of_nat 0xb0e6382c564bf0f09e9f3129dda72e7f1bedb2a3d8282684bd1d54b7a4c27a23) (cm 49691 (- 233742))"
  by (rule double_add_cm [OF order_16 gen_1, of
      "num_of_nat 0xdbcece4974b34cedf71d576e13a78590a3e8ce97bd7c5edd62b59c490f186fa2" "num_of_nat 0x8a5d4aff801aae964949ab80421934073949f1fda99214b3c5967d1b4e1ff9a7" "num_of_nat 0x169bfef2dd86699b5291e4e171a77692acb5bfb2ba23f63143b59b5938fd4243"
      "num.One" "num_of_nat 2" "num.One" "num_of_nat 2" "num_of_nat 2" "num.One"
      "num_of_nat 0x87539942a7a305230bf1264649380ee3b1fd6e90b62dd3cab38749b7cee261e2" "num_of_nat 0x2d4c5c2073517c96e79f662b12c1ca4b459e565c0d3a86d2a6fef7296607af4f" _ _
      "num_of_nat 0xaec9a367535108b5d217486bc26f063d72dfcbac02f3a45069532e28e2923bcb"
      "num.One" "num.One" "num.One" "num.One" "num_of_nat 2" "num.One" "num.One" "num_of_nat 2" "num_of_nat 2" "num.One"])
    ((simp only: cert_eval; fail) | simp)+

lemma order_18: "point_at (num_of_nat 0x880c601b80d7f1d13c1ca7d75619bb927cf6ec5d3f5d30cea08b00c6e9fcd45c) (num_of_nat 0xbaa05e2913451c0f5887fd6803c9a749f69b14f44bb38bdb4107273ad1418804) (cm 99382 (- 467484))"
  by (rule double_cm [OF order_17, of
      "num_of_nat 0x378a2bc656efbac5175a1d1d80b528b0222324bd66dab89331fe5a7ec54fbb1a" "num_of_nat 0x1671994b2b1007437504f1ae4a256c3a66edc763a2e00f4dced5eb61f3b508c5c" _ _
      "num_of_nat 3" "num.One" "num_of_nat 3" "num.One" "num.One" "num_of_nat 2" "num.One"])
    ((simp only: cert_eval; fail) | simp)+

lemma order_19: "point_at (num_of_nat 0x3d5d277aef045425504dac4438ab4a3f974d82c4e870f6e1cc71de17c579eca8) (num_of_nat 0xf17f57547a512f575c8cd46eb9cbc2a80312b3df1c76bedc928902fd7c6203fc) (cm 198765 (- 934968))"
  by (rule double_add_cm [OF order_18 gen_1, of
      "num_of_nat 0xf1b206637904c9db1983babe786d4f7485a5107dee70f80ab96780932cfb3f6b" "num_of_nat 0x93cc13af195b73a1ecf4fa6f871180cf89c3a5be5e1ad46a879501a8e497079" "num_of_nat 0x5321446b1abffb531b936ac9e97ee406f226be99e45775cdaef2684cf1159117"
      "num.One" "num_of_nat 2" "num.One" "num_of_nat 2" "num_of_nat 2" "num.One"
      "num_of_nat 0x34eb1bb06617f67e20893d0d6c9ad78b8ad02dc35b05bb00f1989879f8e74345" "num_of_nat 0x5664355f89c120c181d31f994730c751e14d54a5f076a88d113250e83da27100" _ _
      "num_of_nat 0x4aaf38a091d39dabebcefb931d6e7152e5a9699856ec39ecd41922af2482e7b4"
      "num.One" "num.One" "num_of_nat 2" "num.One" "num_of_nat 2" "num.One" "num.One" "num.One" "num_of_nat 2" "num.One"])
    ((simp only: cert_eval; fail) | simp)+

lemma order_20: "point_at (num_of_nat 0x6b2abea48bed3e2ae060e077cf44eabda3a90a3aecb96aa3d16b1f7a52ed7b9d) (num_of_nat 0xd763db10406547871dad72b17a82a3a32b047c9ee8084b22919dc0e4e38802b6) (cm 397530 (- 0x1c8870))"
  by (rule double_cm [OF order_19, of
      "num_of_nat 0x39a5ac47428d605dc9ceb54cdf3f4527e8934647218f4ba461150561801278e7" "num_of_nat 0xd23268d6631715fa6feccbcc69665f81f3a47889fbb78c3dfb06be9c728c6d3a" _ _
      "num_of_nat 2" "num.One" "num.One" "num.One" "num.One" "num_of_nat 2" "num.One"])
    ((simp only: cert_eval; fail) | simp)+

lemma order_21: "point_at (num_of_nat 0xc5eefca323644cf96000720df86b45eae1881eb3281e203dff11d7f01c78c81e) (num_of_nat 0x78d899916b74b69ba49ab5e51ca753edc7092bbcb0b1356aa4ab4a714d22ff8) (cm 795060 (- 0x3910e0))"
  by (rule double_cm [OF order_20, of
      "num_of_nat 0x8b3b3411149e4e0c4e69b9ff0de96bfbf69eef16a86a3fcdba92e9f61f698a82" "num_of_nat 0xa53bc2016888f13180606e69d6d9a4d2c220eb87c49b4a65d25947893674afae" _ _
      "num.One" "num.One" "num_of_nat 2" "num.One" "num.One" "num.One" "num.One"])
    ((simp only: cert_eval; fail) | simp)+

lemma order_22: "point_at (num_of_nat 0x65ea9bbd2944bc80c9f6792d4a6de4d23401fcd5715971dd709b302e6522878) (num_of_nat 0xd918cb035418dd806254e62019662af8a988cd77d185108a7985134278a3a226) (cm 0x184369 (- 0x7221c0))"
  by (rule double_add_cm [OF order_21 gen_1, of
      "num_of_nat 0xb3cf69dbd6786eb2f59ff087d61bc51c2113de2805b0089b5ae0a969fa7f4ba9" "num_of_nat 0x90a266c6e74ccd734bff32feea235bf0d158935a1edaba036997774b112e6a48" "num_of_nat 0xe41caafc729f03d6732e5a76584826cdaa6b3d0a8c5707f6ea837e700265fe31"
      "num.One" "num_of_nat 2" "num.One" "num.One" "num_of_nat 3" "num.One"
      "num_of_nat 0xe1d251a6b0c54922ecd21797a0231f1d371ce1a89bc71847148e597f1a12c61c" "num_of_nat 0xb817531b5f73d02f52426fa783d7baf47700c7e468c2135a5b380d2aae3dc388" _ _
      "num_of_nat 0xbf9052e750d0013153610a7b23c4679dbe47fee5d1088920280824ed36269fa6"
      "num.One" "num_of_nat 2" "num.One" "num.One" "num_of_nat 2" "num.One" "num.One" "num.One" "num.One" "num.One"])
    ((simp only: cert_eval; fail) | simp)+

lemma order_23: "point_at (num_of_nat 0xf281d99a6d57cb87c004c183b6acd9cfb3e7062ddf3a14457a4ea548b2293e5a) (num_of_nat 0xea2baa2877e0ba50bf52b052181115d813da335bba235cb78f439fec832011c9) (cm 0x3086d2 (- 0xe4437f))"
  by (rule double_add_cm [OF order_22 gen_w, of
      "num_of_nat 0xb64e392dcb0bccbf9e619b23c1e944d863e824392800526fd0b1ed411a666753" "num_of_nat 0x3b74af751642ba4a33a797925a51a2e4944d98a0083681a68a7f3f1fdd1f1ec1" "num_of_nat 0xdf99e3bad21fd75b53b02daf1310a0b4cfdb3f8332c434e851b4118e49612306"
      "num.One" "num.One" "num.One" "num_of_nat 2" "num_of_nat 2" "num.One"
      "num_of_nat 0x26c4c6010074746cb8ef39e3c1963d985364e04a245162358555a1739cf101a1" "num_of_nat 0x576cf3900d8219547e7e0e0f5121d4e3195ae3581a075a3a4ac17c0f06f4a7e6" _ _
      "num_of_nat 0x13dcd021653c80404c9aa60f1dfa047d6f59199f77db82d85cbb0db93428e64d"
      "num.One" "num_of_nat 2" "num_of_nat 2" "num.One" "num_of_nat 2" "num.One" "num.One" "num_of_nat 2" "num_of_nat 2" "num.One"])
    ((simp only: cert_eval; fail) | simp)+

lemma order_24: "point_at (num_of_nat 0xd4afe48cc908e0142cd660745b0fc9e589078f1a8903ac7fd400bf71e74ba14c) (num_of_nat 0xd0752b7f661d90cd82ff1e13d7d9fe9855fe263fc1634443d0417de42f953841) (cm 0x610da4 (- 0x1c886fe))"
  by (rule double_cm [OF order_23, of
      "num_of_nat 0x9be59cd7f71693ee42291470a456642ffb4eeb32c15b0ef8f644d6df5e00ef5b" "num_of_nat 0x11dd1f50da44eeb73932e610f5b9d0fea2adf7713563667c5a64de5d5cadd993d" _ _
      "num_of_nat 2" "num.One" "num_of_nat 3" "num.One" "num.One" "num_of_nat 2" "num.One"])
    ((simp only: cert_eval; fail) | simp)+

lemma order_25: "point_at (num_of_nat 0x4c2eb003ee5b041a20a08574b2a537493b078053373c50374513ac8f219db747) (num_of_nat 0xc32c4ff39b7ce91642ac52e93a538d419760bff13f3ff522c0f09021990ef36a) (cm 0xc21b48 (- 0x3910dfc))"
  by (rule double_cm [OF order_24, of
      "num_of_nat 0xf239c8842c696175bb698f4269af5fde0a3cb94efe9e70cac747b2a729bdb7f2" "num_of_nat 0x188813488daaddbfa0c35daffa86a929c4e000ec751c75c488eed12e1c5ade634" _ _
      "num_of_nat 2" "num.One" "num_of_nat 2" "num.One" "num.One" "num_of_nat 2" "num.One"])
    ((simp only: cert_eval; fail) | simp)+

lemma order_26: "point_at (num_of_nat 0xe877117c34d233f54091207651a990ca142876976bfe7c85958d24c4a5b991dd) (num_of_nat 0xa6ddda251af7eaa0d513bccd6e63ab8401dde31b4a0f6d153c62b38f6cd80baa) (cm 0x1843691 (- 0x7221bf7))"
  by (rule double_add_cm [OF order_25 gen_mw2, of
      "num_of_nat 0x7d6606937a2827b1debe153ee8439a8a3b343ecb1bdf9d61b93e31cfc6b199b4" "num_of_nat 0x3a6096dc0eb78e4d4a3d121d07d6a28a6ff6b98d74dc47ffc48a70435fd56804" "num_of_nat 0xfb5f5b158b2def8f40e7c8046667b2af96012e95aaf31bd41f6f5ae60b3c480b"
      "num.One" "num.One" "num.One" "num_of_nat 2" "num_of_nat 3" "num.One"
      "num_of_nat 0x50cf54ee632d148adfb8bd704c3d8499a50651bd8c49346325a451a816616b6b" "num_of_nat 0x7a02c65a25af0791bbf9af67cbcf0bf592524c37f5f2b406dc2808fbf91e56bf" _ _
      "num_of_nat 0x63b79e87b988d024e00f64fe60fba67f26df09bbcb3dd3b1af8687c97be42199"
      "num.One" "num_of_nat 2" "num_of_nat 2" "num.One" "num_of_nat 3" "num.One" "num.One" "num_of_nat 2" "num_of_nat 2" "num.One"])
    ((simp only: cert_eval; fail) | simp)+

lemma order_27: "point_at (num_of_nat 0x85444610b2715173b5d366e54722f15733c345364c76e39df541e4a200e4cfac) (num_of_nat 0x18af264b91e5ec50176d263b93ff54f2f522d23a3c4d205bd406ea1e188cdd8c) (cm 0x3086d22 (- 0xe4437ee))"
  by (rule double_cm [OF order_26, of
      "num_of_nat 0xefa8199c1332a034284a07b1f781342c82da64b3140cf277242facb06b3bc254" "num_of_nat 0x16332cb6b8260e2818abdb9910a869f72e06531611f8798e7a04b4021a4d4be60" _ _
      "num_of_nat 3" "num.One" "num_of_nat 3" "num.One" "num.One" "num.One" "num.One"])
    ((simp only: cert_eval; fail) | simp)+

lemma order_28: "point_at (num_of_nat 0x61c3303a7533a96739ab966262674b93bbdfd177be7bf63928d6bb27b8d885a8) (num_of_nat 0xe579c3539e8f8ab9b44313e7ced058fb35ac02987df005cf33b460ad896606a4) (cm 0x610da44 (- 0x1c886fdb))"
  by (rule double_add_cm [OF order_27 gen_w, of
      "num_of_nat 0x37689cd8eb2ec713f52d9bd14f6d31ce5364fed0329f05efb279bba1ffd3c01f" "num_of_nat 0xd47884b63c010b7682c0e5e4729fe1a7e4792d7bbd2e855d0fa5f9740f668a7a" "num_of_nat 0x2eedadb4f034d2dffc71faaa2eb95e6a35e2ac0dab962a725e2496a22e3fef82"
      "num.One" "num.One" "num.One" "num.One" "num_of_nat 2" "num.One"
      "num_of_nat 0x5656985bc23c7e93b9616c3b186992ecfde09928a0e0b92b971d4dffd2a4e02a" "num_of_nat 0xd61a458b342f3491b0cdd28b3bb0a60604adcb1c065caf296e453a3259e296ed" _ _
      "num_of_nat 0x238115d63d3da80c7c27d082e4bba5c377e373be8dfaed64cc6b297a480c4a04"
      "num.One" "num.One" "num.One" "num.One" "num_of_nat 2" "num.One" "num.One" "num.One" "num.One" "num.One"])
    ((simp only: cert_eval; fail) | simp)+

lemma order_29: "point_at (num_of_nat 0xdf0cbc229488a20dc63ee1c43dd49c426aa7e89b6182d865b2f29613f75db947) (num_of_nat 0xac03e2b372b192bafb8956c95dbbcc38e0d6ca90f172a0b1f2488831b0eebf72) (cm 0xc21b488 (- 0x3910dfb6))"
  by (rule double_cm [OF order_28, of
      "num_of_nat 0x85efe5932125ee41ea1778ebe3cfafffdffbfd6c62462ca6e0147df1a440c3be" "num_of_nat 0x82b67417e0ab0759736cb49e2492af515137e8dc5cf91dd375e42512c17ac890" _ _
      "num_of_nat 2" "num.One" "num_of_nat 2" "num.One" "num.One" "num_of_nat 2" "num.One"])
    ((simp only: cert_eval; fail) | simp)+

lemma order_30: "point_at (num_of_nat 0x40043d33ce75787d7902161535e35cb8b77d34ea54c366939bc3bcd9485e0a01) (num_of_nat 0xfa8c3a423de6293650222b0f618acac66c0f8f0f4ca1066b7f36a91a02029702) (cm 0x18436911 (- 0x7221bf6b))"
  by (rule double_add_cm [OF order_29 gen_mw2, of
      "num_of_nat 0xea87fa74d3fa89be391fb8ef5d1435910b93d682f19915334b5f4849f0f193e3" "num_of_nat 0xbef543473366015df59338407a5bf2dd97789b13f0d5336e1ce12a0126fa7f3a" "num_of_nat 0x2f57be37e95b05db8aa84d3b3d297662040467bf539e5e0ce0c6a85af9df4e94"
      "num.One" "num_of_nat 2" "num.One" "num.One" "num_of_nat 2" "num.One"
      "num_of_nat 0xafb4fdeaab2d9c323b96948900ab25e066a380dc0de47a58d22bedb8fd7e6ab3" "num_of_nat 0x5dddb56726af57fbb7f07b93dc8cb0a1c97fffca4b75982c32f48ebcc0ce224f" _ _
      "num_of_nat 0x9f087eeec61329904d3ccbaf07f13f89b32ab3b10cbf71d2172ed93aaeffaf46"
      "num.One" "num.One" "num_of_nat 2" "num.One" "num_of_nat 2" "num.One" "num.One" "num.One" "num_of_nat 2" "num.One"])
    ((simp only: cert_eval; fail) | simp)+

lemma order_31: "point_at (num_of_nat 0x483f1d72750d753e43a19c8b7c1b91882b2dceefbdf3c999cf68b754de524de) (num_of_nat 0x4f4384c25498243681348474ed25e8af892eafb8b92709a1f92b27084bff7a96) (cm 0x3086d222 (- 0xe4437ed6))"
  by (rule double_cm [OF order_30, of
      "num_of_nat 0x887e053b965dcb3fb7964fd8c1a396174cb62c8b3d10d6144c0c00b15cc660d5" "num_of_nat 0x13b804b5ca724a12994c7fc4c7e21a3a034ca57fb58e429f9fecd3162fa78e152" _ _
      "num.One" "num.One" "num.One" "num.One" "num.One" "num_of_nat 2" "num.One"])
    ((simp only: cert_eval; fail) | simp)+

lemma order_32: "point_at (num_of_nat 0x2a3385d537a36806877730930cad1332282ad2aeee05ce659936073d5d9dfb6b) (num_of_nat 0x50cda4e219cf7081a10fef7fd2618fb0b7505212cc043241dd3ab43dc406fce4) (cm 0x610da443 (- 0x1c886fdac))"
  by (rule double_add_cm [OF order_31 gen_m1, of
      "num_of_nat 0x753a74a7d28be458716648cd16c551ee7fe91fec31eeec3fbcfbf5e5c912f2ba" "num_of_nat 0x63d32150f1b91bd287232093f8a00ffc28cb4a7de7933af26acc4a923a33b1ad" "num_of_nat 0x2c3e80940b37ae997a48e9de754ee12eea1b5b13bbcba43353b72b8f8197dfc1"
      "num.One" "num.One" "num.One" "num.One" "num.One" "num.One"
      "num_of_nat 0xd84571431c1928ba69f12fea4272d7e9989781db40139866493f5fe4cc4d414c" "num_of_nat 0x23d12363aaf1bbccea4b6520f1c94afb972463831478372d9e8ccc997e65f144" _ _
      "num_of_nat 0xda506c01efad6f4d5cc2e935ab14a5e65a880a400dd96e3403c08436f04725a2"
      "num.One" "num_of_nat 2" "num.One" "num.One" "num.One" "num.One" "num.One" "num_of_nat 2" "num.One" "num.One"])
    ((simp only: cert_eval; fail) | simp)+

lemma order_33: "point_at (num_of_nat 0x1370da03a8fb2882cefbb865df7ea0169186fd90352f76f5e95713dde834143b) (num_of_nat 0xa8ea463d6a7019d6a32c82272eb207ded9cedb93e923819131a3470f13c4b3da) (cm 0xc21b4886 (- 0x3910dfb58))"
  by (rule double_cm [OF order_32, of
      "num_of_nat 0xb675df46f5626f5ef732839f01b6f74b8bfae19a82940cf2690c544c770e66a5" "num_of_nat 0x116c2abd18ea83f83b87b782d2d2e731b96a3d51eb8d6576fafdef35e7569e35f" _ _
      "num_of_nat 3" "num.One" "num.One" "num.One" "num.One" "num.One" "num.One"])
    ((simp only: cert_eval; fail) | simp)+

lemma order_34: "point_at (num_of_nat 0xb0746ea0dd6832330c5661ed8dbbdd9e1b53646754dd806ae17df18bcf632807) (num_of_nat 0x58114a7830ff16d378386c42d0bd513a66e6b0a0c709f946ad2c311fb8ce9531) (cm 0x18436910d (- 0x7221bf6b0))"
  by (rule double_add_cm [OF order_33 gen_1, of
      "num_of_nat 0x664d8c7b50e1932986a4aa2fef086af07114ff4af89eb1e3709b6d7d2ec4035d" "num_of_nat 0x18cedc3478ff1e28d65647441eef18470665404873bd41cd4f77fe1e7cbf9e56" "num_of_nat 0xd3e5f9d847281fdd1f3552c96e98dfd1160ef9d70921a50b46621aa370cf931d"
      "num.One" "num.One" "num.One" "num_of_nat 2" "num_of_nat 2" "num.One"
      "num_of_nat 0x3f8ae02b61d308a5afc6659c70e5c0457b7803b92c0dd1eaa2f4f93977647d4d" "num_of_nat 0x550f72dc82e1b1964fa7ef37ae2eeaca58d93db6d98fa765e64470f5a970f3cc" _ _
      "num_of_nat 0x62fc6b62cb92f64fc2a5567851c2c27876339928e051f68b07d9225118d0e863"
      "num.One" "num_of_nat 2" "num_of_nat 2" "num.One" "num_of_nat 2" "num.One" "num.One" "num_of_nat 2" "num_of_nat 2" "num.One"])
    ((simp only: cert_eval; fail) | simp)+

lemma order_35: "point_at (num_of_nat 0x4eacc39adf3f3a900ff0a0b8868a096d85702e8cb90065f03a041238f47d204f) (num_of_nat 0xd82e1c014db1fcf43bc209ad4b27ebfc8cc6952e6ad918b36eaf8e9b19c863e9) (cm 0x3086d221a (- 0xe4437ed60))"
  by (rule double_cm [OF order_34, of
      "num_of_nat 0xd7ee1b64c873f94cf3bb779539d150578e39b3fbb2fa1c1cc5ec772e05e5b083" "num_of_nat 0x161c7ab05fe28f7a2fc65c1350731d43095e335da9bdd1a7aa779df51dae603e7" _ _
      "num_of_nat 2" "num.One" "num_of_nat 2" "num.One" "num.One" "num_of_nat 2" "num.One"])
    ((simp only: cert_eval; fail) | simp)+

lemma order_36: "point_at (num_of_nat 0xd6f6fc5c30ce5b19dfafa79fcedd6248f0522b9931ee4cb70a7e6085b6213a39) (num_of_nat 0x82613a780aa0cf99de9b88961bbd66c6584272177d8b6e6a3e642073e460614b) (cm 0x610da4435 (- 0x1c886fdac0))"
  by (rule double_add_cm [OF order_35 gen_1, of
      "num_of_nat 0x2b11a2e41a9d811c45afc1dd47fd01997d2bce4e74cdc2e91fee6f22227af749" "num_of_nat 0xdb81b5747a5af2286335022f02669ecfcc5bf42c32b20ba1493b28a6c552735a" "num_of_nat 0xf4f83167dee39726da3c0b3eb2a7f49ea48023636ab8146ea0bff09b21031209"
      "num.One" "num.One" "num.One" "num_of_nat 2" "num_of_nat 2" "num.One"
      "num_of_nat 0x59b49233005ba36935b49579d3e214cee0f00b294e4851819944219cd37a0a75" "num_of_nat 0x813ef2d1c61177e88cf7d557e4e593806c17b68e257fad4fc8f34274077cb959" _ _
      "num_of_nat 0x77b5c73eae70df763040f918b7aca724951e02f3871219392f85b1b23e5be245"
      "num.One" "num_of_nat 2" "num_of_nat 2" "num.One" "num_of_nat 3" "num.One" "num.One" "num_of_nat 2" "num_of_nat 2" "num.One"])
    ((simp only: cert_eval; fail) | simp)+

lemma order_37: "point_at (num_of_nat 0xd182b706f130ccbd6c65823ba74921d7f493885f24aba293bd8190f46e982467) (num_of_nat 0x31dce0f642816ed235ce28fd875d8a2e22a84c8615987fc4d78c5c19babc1c3) (cm 0xc21b4886a (- 0x3910dfb580))"
  by (rule double_cm [OF order_36, of
      "num_of_nat 0xf40ce960165038517a942b6e283da580ce0e6cb637533739eb20b36be5260275" "num_of_nat 0x1057445553f9d8e5c734a256427944070fbbea33a0d42aa234cfccf9047891201" _ _
      "num_of_nat 2" "num.One" "num_of_nat 3" "num.One" "num.One" "num.One" "num.One"])
    ((simp only: cert_eval; fail) | simp)+

lemma order_38: "point_at (num_of_nat 0xdcce86cf4abb32f6ff27f319e56ea4dc21403106754543d583d17a50475cfb47) (num_of_nat 0x9c1c49abae7b4210d2736438bedb883242bf3157be60f6ba6eac4850c4d7bc4a) (cm 0x18436910d4 (- 0x7221bf6b00))"
  by (rule double_cm [OF order_37, of
      "num_of_nat 0xa7b0a8aadb3ccfbced6b0ea9a45476ccd630e70a1ba4f173ba9aacfc929db481" "num_of_nat 0xf4b43037a67599c66d3d8f21c1da7cfbd3535758af665ebe39b016a3273b254f" _ _
      "num_of_nat 3" "num.One" "num_of_nat 3" "num.One" "num.One" "num.One" "num.One"])
    ((simp only: cert_eval; fail) | simp)+

lemma order_39: "point_at (num_of_nat 0x858f443417f0617a01c044d0cc559b17fbb3995bf9ab51aa460ea5fb8407a754) (num_of_nat 0x52c8dc3b16555cb4d3e47413bc71c3d100dea5ff85b832cef0fbd1656855e49b) (cm 0x3086d221a8 (- 0xe4437ed601))"
  by (rule double_add_cm [OF order_38 gen_mw, of
      "num_of_nat 0xdfde5c1a52e4e590abd90f9cb1217e4965e8130009d0a5b823ea25f2b95b90b3" "num_of_nat 0x5adb777df2153c2c207f46c613be47079043443fb08163fb3aaaede8f0397b8a" "num_of_nat 0xeab478059c5c90eeba2f2f621baf2e4eca73c3e042195aaab4f720abeb9c6ff4"
      "num.One" "num_of_nat 2" "num.One" "num.One" "num_of_nat 3" "num.One"
      "num_of_nat 0xf21a0ec9ae5ea20844f8c3b7c9bf768d56cc6d26332be92aceda59a35bc08782" "num_of_nat 0x38e06f4b78b3b76bb820500d4aa724294f75f23b84e92ef2f16c1ec4853a9495" _ _
      "num_of_nat 0x573f429b32cad17cfd67ae49191909c4258c97aa7b99f22b3dc2d454c35553f3"
      "num.One" "num_of_nat 2" "num_of_nat 2" "num.One" "num_of_nat 3" "num.One" "num.One" "num.One" "num.One" "num.One"])
    ((simp only: cert_eval; fail) | simp)+

lemma order_40: "point_at (num_of_nat 0x30d55636a636514eedea07930172463050357e04b09ca97df8e90ba57927c94) (num_of_nat 0xebce818d22b81071fc5bcb43056b17e8022f182cd0508a474656b79ddfade9f8) (cm 0x610da44350 (- 0x1c886fdac02))"
  by (rule double_cm [OF order_39, of
      "num_of_nat 0x1a6ebf8696357d41dc8be63369f921e3778d0ee88e29879725464b329872e096" "num_of_nat 0x18281eed0ad8cfc6512e1a4579c3e76b4f6b0417baea18712668015402c7526ef" _ _
      "num.One" "num.One" "num_of_nat 2" "num.One" "num.One" "num_of_nat 2" "num.One"])
    ((simp only: cert_eval; fail) | simp)+

lemma order_41: "point_at (num_of_nat 0xf07e4c70bbfefef208b00358f0a8e6aa3f97598189c1b0812d572422891a86c7) (num_of_nat 0x2d10f7e2a47e6dd54e287f232ea3346c97239b508247c2317558a35bc44ed6d7) (cm 0xc21b4886a0 (- 0x3910dfb5804))"
  by (rule double_cm [OF order_40, of
      "num_of_nat 0x3c00fafc5db63dc1bc821955b7ee2f1a89da32e9a4044106e079f4d8206ef379" "num_of_nat 0x128f08f2ae646622e62e9d203f6e3db8c56bfe5ec1481a16b2376c96ce77f1fc" _ _
      "num_of_nat 3" "num.One" "num.One" "num.One" "num.One" "num_of_nat 2" "num.One"])
    ((simp only: cert_eval; fail) | simp)+

lemma order_42: "point_at (num_of_nat 0xb4e42856d4f4feee136389504097a6fb36a93c56574138d1ec7d9cb6990778cb) (num_of_nat 0xceb4f272c35e84ffeaad994428695b1f4e1b26937ae306d24df6ca2c3d1c19c) (cm 0x18436910d3f (- 0x7221bf6b008))"
  by (rule double_add_cm [OF order_41 gen_m1, of
      "num_of_nat 0x89401a0e3dddbcba4cf05f3cddde245cc304a359a40c78582c9b5d378ddd8d00" "num_of_nat 0x621e63a26e8da793ed5722996d5a747ee62c577505a20d55918bdec7c569a0df" "num_of_nat 0xac133e83b32e7f1889a08998b0b91cdd029f2f5a3ebc5bd497f223f591e4afd2"
      "num.One" "num_of_nat 2" "num.One" "num.One" "num_of_nat 3" "num.One"
      "num_of_nat 0x446b0ded08d07fd97f0f79c03fefc9cd3cf82a274b0554ac9565002cf735d6f5" "num_of_nat 0x198b17f12f4f30450c96903c9b61a2f936b21f758d223334c793097d51d2ca9b" _ _
      "num_of_nat 0x3b9a2419e70a0003f54c7a08b0113faf08ee1d2b328077af40d9876bf0130dfc"
      "num.One" "num.One" "num.One" "num.One" "num_of_nat 3" "num.One" "num.One" "num.One" "num.One" "num.One"])
    ((simp only: cert_eval; fail) | simp)+

lemma order_43: "point_at (num_of_nat 0x6ea02e1e9f5578dffd6c5ba8592753cce9c656b74ab132f209dab003ce9715de) (num_of_nat 0x78e0e5d28f80fc4ab15fc6797dc8b542f22966f63f19779e4b44c8a2039d6d39) (cm 0x3086d221a7d (- 0xe4437ed6011))"
  by (rule double_add_cm [OF order_42 gen_w2, of
      "num_of_nat 0x14b08e40938e2cddebfb11635a512ad83f9282c7fbdab4c711d441a84f47d830" "num_of_nat 0xdb7c8be20a7ffb062a1c68e13ffb84a25668b97dacca619742c9a8447892a10c" "num_of_nat 0xfa68fb49df9319b721c7b7cf6a13d75ed94ec7d1d1b0e56c3cf13262b2c53da4"
      "num.One" "num.One" "num.One" "num.One" "num_of_nat 3" "num.One"
      "num_of_nat 0xba7b2d0cf561e536f19bd180d683cf9c5d5a748485905365af8c6a52e6423756" "num_of_nat 0xca2930d6453bd041265e4d8b40553db2fa726f90a0acf85dfd08e77c6f234828" _ _
      "num_of_nat 0x4643fa38359f860e15f72da7e770532e4ce2e59f0c9005dfe2a2ecb2ca7062ed"
      "num.One" "num_of_nat 2" "num.One" "num.One" "num_of_nat 3" "num.One" "num.One" "num.One" "num.One" "num.One"])
    ((simp only: cert_eval; fail) | simp)+

lemma order_44: "point_at (num_of_nat 0x873d00f72f55c978399452f07895f18077a68f6fa380cdddcb7d6bb094bbe94a) (num_of_nat 0x8ba0a8e08fe8d9f7c6e569e5b40d2b4b439ed4c50c6368b940368bf94f545696) (cm 0x610da4434fa (- 0x1c886fdac022))"
  by (rule double_cm [OF order_43, of
      "num_of_nat 0xf139842c782e96be17748c5d64989e27723ccc678b9b991cdbcda2f7d277d12e" "num_of_nat 0xe7632d276fffaf67c3d808b7e091624c721fc747a73065143e5d445239db28c3" _ _
      "num_of_nat 2" "num.One" "num_of_nat 2" "num.One" "num.One" "num_of_nat 2" "num.One"])
    ((simp only: cert_eval; fail) | simp)+

lemma order_45: "point_at (num_of_nat 0x882c0e8dfe8dba163442e347c0610cb9ff17c09efcd5ab95921101812b4253e0) (num_of_nat 0x19b069ef40c83a8941ef4d8b5f98999a3c0e4b16e4272ba6b3f8c121b394b0d0) (cm 0xc21b48869f5 (- 0x3910dfb58044))"
  by (rule double_add_cm [OF order_44 gen_1, of
      "num_of_nat 0xf2816587ca86f2341c0c0fa555f119868af56d6b8a4d5afb8e7515a9823c2a7d" "num_of_nat 0x100a3c940c3ce656d3984a8b1461fb509501eff07f79363d2aaded2e7c931f25" "num_of_nat 0x570b0bc54bf409a3f33ec063b0b656144d10b7b1f5dc21c691339fdf1503efd4"
      "num.One" "num_of_nat 2" "num.One" "num_of_nat 2" "num_of_nat 2" "num.One"
      "num_of_nat 0x3031f531e361bfd44655928cc7df9b6c2a95d7bdada4ac173a49cbd17fb7f976" "num_of_nat 0x23801ba5a5472c060a8bfa5368c011840fa5380a256638b661727a7651406356" _ _
      "num_of_nat 0xff10f26930c80f6205516fa8b834e4c6788eced0a6ab2248396c6a2e69799199"
      "num.One" "num.One" "num_of_nat 2" "num.One" "num_of_nat 2" "num.One" "num.One" "num_of_nat 2" "num.One" "num.One"])
    ((simp only: cert_eval; fail) | simp)+

lemma order_46: "point_at (num_of_nat 0x4a35b04a6e478aa6de8a8db93cb8ae14ecd58de8e8be74f1a90a444f900ab6e7) (num_of_nat 0x643b2190f05445eca4f0eb8814a9696d30f7023f250ed75fc7c12504cb38b802) (cm 0x18436910d3ea (- 0x7221bf6b0087))"
  by (rule double_add_cm [OF order_45 gen_w, of
      "num_of_nat 0x3480d45b9f125e7176be1f6ed62f166b8810836782403df815aa9ec2d5763beb" "num_of_nat 0xb5c218138706551822ce476e8ebbc217b52aeab8b3289dd2741fa8dffc5d0dd8" "num_of_nat 0xeba8ab16ec9588240137bf34a4a8189ae1b70d70ce041196af9053269cdc976f"
      "num.One" "num.One" "num.One" "num.One" "num_of_nat 3" "num.One"
      "num_of_nat 0x9c83637711f831f2330b24131bb8f41f1d60b32e2ed199fee280ae598e65b8a0" "num_of_nat 0xf928073b5e8ac5635ac9caa4cc60dbc2ccd9100f0ecc5dadb458447dda5632ae" _ _
      "num_of_nat 0x3df65e4390462f6f55b8558e83a85ea5124232b6141736a3e906bd319b379cf9"
      "num.One" "num_of_nat 2" "num.One" "num.One" "num_of_nat 2" "num.One" "num.One" "num.One" "num.One" "num.One"])
    ((simp only: cert_eval; fail) | simp)+

lemma order_47: "point_at (num_of_nat 0xe32cd8ff315f363781fbedf49d5c555f98469707d3cbbc05dfe34240fff53616) (num_of_nat 0xa1d3010d6c856bffe20d709eebba73de21896ea657c54657704b30cce726f6b2) (cm 0x3086d221a7d5 (- 0xe4437ed6010e))"
  by (rule double_add_cm [OF order_46 gen_1, of
      "num_of_nat 0x2f88b6348b9531057715d4dc91ce5cf215c66ef2450fb3e7b0e83d0b86ed60b1" "num_of_nat 0x4d85b6e99666c6ec3232a9d37aad96581123fefa09bc3b6837fe63280ad68c63" "num_of_nat 0x34b0ac3e405aba61aea9ee5cd88d1603f29d6c7be07951ed9e43d7390b461be1"
      "num.One" "num.One" "num.One" "num_of_nat 2" "num.One" "num.One"
      "num_of_nat 0x1585040c2decd0452fe09f5c642b9810fa38216d084523040ac66d1684c49b06" "num_of_nat 0xcb38011ebf4164cf1d379472e17855dbc5ccbb335b70ed10c98e88d3df011c84" _ _
      "num_of_nat 0x6708d74b3ce8546f5c8e9fc49f5c58b5548ef6e114f2b8ebc927020d90157d00"
      "num.One" "num.One" "num.One" "num.One" "num_of_nat 2" "num.One" "num.One" "num_of_nat 2" "num_of_nat 2" "num.One"])
    ((simp only: cert_eval; fail) | simp)+

lemma order_48: "point_at (num_of_nat 0xadbd4f25a8effe4f553ea172e5bbfc920b8024882143d2d829d79edb137bece1) (num_of_nat 0xc2940050e35ae1635857de41931b146e29d88af3ac4c34f262ac84790fa53de7) (cm 0x610da4434fa9 (- 0x1c886fdac021d))"
  by (rule double_add_cm [OF order_47 gen_w2, of
      "num_of_nat 0xe667dd983723f5947d62acbefd8c7c73ddf528167f5031931e6e9c1ce85a1714" "num_of_nat 0xbaa699ee4bdc28b778b0488674160c6cf5f2208b74d080cda01ea2995e5b2453" "num_of_nat 0x74129f37b6df6ebf76e5a8260a4b855d9d2649c441d3b2ac5a434156fa30d32a"
      "num.One" "num_of_nat 2" "num.One" "num_of_nat 2" "num_of_nat 3" "num.One"
      "num_of_nat 0x6f1a39c77a7fc7780b1645ce9310d001fb204d4391f8095985a000ea05c462ec" "num_of_nat 0xfa42a3f2127e050b6979aee924429dc33d01654726b36ff6f5944236e735ec36" _ _
      "num_of_nat 0x356f89d9886f37e82cbd4c81b7a058cd8cc6727fb287e92db60ba365ec794935"
      "num.One" "num.One" "num_of_nat 2" "num.One" "num_of_nat 3" "num.One" "num.One" "num.One" "num_of_nat 2" "num.One"])
    ((simp only: cert_eval; fail) | simp)+

lemma order_49: "point_at (num_of_nat 0xec25284c9c90dd189d4fd0296fe51a653afb48cb8b7e7472d4f851c2153675b0) (num_of_nat 0x51ef92fd9f328bbc34d8e7740299f5a7f87ab19fde01dab47c0cf65ea2f17a49) (cm 0xc21b48869f52 (- 0x3910dfb58043a))"
  by (rule double_cm [OF order_48, of
      "num_of_nat 0x7846a9f56793d2737562ca80202078c8d48faadfc9ea6588f561f6010e482bad" "num_of_nat 0xc19826d90c5f2136b7eed14975d6e22cd084dbbc95c55e6554df4d17fe457360" _ _
      "num_of_nat 2" "num.One" "num_of_nat 3" "num.One" "num.One" "num_of_nat 2" "num.One"])
    ((simp only: cert_eval; fail) | simp)+

lemma order_50: "point_at (num_of_nat 0x989cdfad4b24e2fb0d05e3f62af91c1b6943f44c16764571312ba4b72605b985) (num_of_nat 0x581b21febd5e103e5ebf3eaa8e1e5d695c4b03d59f0a3dcabafb07c5f490428c) (cm 0x18436910d3ea4 (- 0x7221bf6b00874))"
  by (rule double_cm [OF order_49, of
      "num_of_nat 0x2fd8a5c8fc98011a7fb6c9224d502890a0897dca8b8311cfdc3cb7fdcfd7f70b" "num_of_nat 0x15388489f516bfa1d9049ec3344ebfe49d1b7547f75082f01a3ccad09ef30b85a" _ _
      "num_of_nat 3" "num.One" "num_of_nat 3" "num.One" "num.One" "num.One" "num.One"])
    ((simp only: cert_eval; fail) | simp)+

lemma order_51: "point_at (num_of_nat 0xfd1cfb5154fdc87c881fb2f4107d1d0dc9095e2ebd7181480617dda0ab4a0874) (num_of_nat 0xfbfbccfb7603fff538a73cca9e99b576c00b3acaa03172c9672b6796d204245b) (cm 0x3086d221a7d47 (- 0xe4437ed6010e8))"
  by (rule double_add_cm [OF order_50 gen_m1, of
      "num_of_nat 0xe12186d1aeb7d8b1489a7e9fa38deeeb9958088f1757e36828c6dca2f0f25a42" "num_of_nat 0x52d444e7899bb77c19c48531e98b0c4a68bc3569018e3366093802af9a9f936b" "num_of_nat 0xf61d45a64a40ba06ad1e6184305c8900016d54f76429615dcc3e160d26a50932"
      "num.One" "num_of_nat 2" "num.One" "num.One" "num_of_nat 3" "num.One"
      "num_of_nat 0xa27f9a0700e428f45fe78271fa9c931b67d69f54b24ce41364ed8ea8ff60ac82" "num_of_nat 0xd67aec6af212987f05eca0ebfa9aa57eddbb84159d37ed51009b579cbcddb072" _ _
      "num_of_nat 0x9b7fe45bf6271a7e84e631021a7bff0da03a961d5904c4292b13c7157abbad40"
      "num.One" "num_of_nat 2" "num.One" "num.One" "num_of_nat 3" "num.One" "num.One" "num_of_nat 2" "num_of_nat 2" "num.One"])
    ((simp only: cert_eval; fail) | simp)+

lemma order_52: "point_at (num_of_nat 0xf58755aff4a9ffd82b88770fe08cc881b9cb9aa7359cf0c83788163d41ba14a9) (num_of_nat 0xd5770619ad7e97f16a4658b70e97cc6cf8766f844efe7b58e6cb4d5a8c234bc1) (cm 0x610da4434fa8d (- 0x1c886fdac021d1))"
  by (rule double_add_cm [OF order_51 gen_w2, of
      "num_of_nat 0xcc77bb461385634f773ee7bf8a6bb4c5ad3260ef95aa6c50f83a00bd3d0544b6" "num_of_nat 0x489f2c2d1117d3650ba4d64c85c1de6d729545d907a176fad5fc06bb31fe07d6" "num_of_nat 0x734aa89b31d1641175c64e9f2b725aaa1c6eebe99155fdd20c95c1c1ccaafc45"
      "num.One" "num_of_nat 2" "num.One" "num_of_nat 2" "num_of_nat 3" "num.One"
      "num_of_nat 0x89d252b6232c646b12596454e50ac263ac9a72452c1b8375f9821bdede9f0c2f" "num_of_nat 0x15c17688bf99acae63705d0aaff158a15dea4acdb03097dd20d34007a2ec7eab" _ _
      "num_of_nat 0x795a5a16053c8a45c973be42ff0548c0f3dc38787d4907fce8fc763698ff3cb"
      "num.One" "num.One" "num_of_nat 2" "num.One" "num_of_nat 3" "num.One" "num.One" "num.One" "num_of_nat 2" "num.One"])
    ((simp only: cert_eval; fail) | simp)+

lemma order_53: "point_at (num_of_nat 0x3781f20931f70fea5d2ea92cabac23137b1763c464276b21d3a8d54ae1c9093e) (num_of_nat 0x14713c377db474e102e5e9539a220c77f66bfca10052e4ab6b41d7b417de4175) (cm 0xc21b48869f51b (- 0x3910dfb58043a2))"
  by (rule double_add_cm [OF order_52 gen_1, of
      "num_of_nat 0x843710cf0532bbd42a17eb85edfa428548d06233f8313811226a6b1cd53dff1e" "num_of_nat 0xc54f50f2cd9887d9a6a44ab1a890eef59af55b830554f979f2d549698dab9419" "num_of_nat 0xe6465764c921cdb5eb50b7fb3fa735dce18697df22556abad5c4a8326fededd0"
      "num.One" "num_of_nat 2" "num.One" "num_of_nat 2" "num_of_nat 3" "num.One"
      "num_of_nat 0xf40fe4b2b8832224037bf14a0e592a4d84502c81347860d61c36e0ad1cc26d9" "num_of_nat 0x5b5c7e56a5f83ea69cb98df7e810b3511ab66a7322cb8895cec6b9e0dc1d70fc" _ _
      "num_of_nat 0xbe0563a6c2b2efedce59cde334e0a56e3eb436e2d17585a663df40f25ff10b6b"
      "num.One" "num.One" "num_of_nat 2" "num.One" "num_of_nat 3" "num.One" "num.One" "num.One" "num.One" "num.One"])
    ((simp only: cert_eval; fail) | simp)+

lemma order_54: "point_at (num_of_nat 0x9ecab66d618e079ce6a69156ed0b0730ecc101cad4201508fb234608674713e) (num_of_nat 0x14b870895d091a8d6e85559318d86f99f559cf8e6e7b597350563140c431702e) (cm 0x18436910d3ea36 (- 0x7221bf6b008744))"
  by (rule double_cm [OF order_53, of
      "num_of_nat 0xd287b9a70349d67d89cc4af865c8c0fb4dd8651f089c749d5ebba67e8146d56d" "num_of_nat 0x12d9546a25bde2f708ec440173cdb72a06c4b53a7b6e569d143f6a0e95b54942f" _ _
      "num_of_nat 2" "num.One" "num.One" "num.One" "num.One" "num.One" "num.One"])
    ((simp only: cert_eval; fail) | simp)+

lemma order_55: "point_at (num_of_nat 0xc3f33f1d969a396142c5c9eb3618cb492c1ed573e476b71e4225d99eb59d2ea5) (num_of_nat 0x390a22d18ff53589d9e1d79d7d5953c53839824c52d555ce3d80733fde9478e8) (cm 0x3086d221a7d46c (- 0xe4437ed6010e88))"
  by (rule double_cm [OF order_54, of
      "num_of_nat 0x65ccce919d183cece2be5a23778dc16edb232ac10e0d1c1d8e3dcfe887a6d318" "num_of_nat 0x45f96c493f7ea7188ba49f2a38b7e529e2ad3aa8c8cb4a324d8c5ac0d0d73ec8" _ _
      "num_of_nat 3" "num.One" "num.One" "num.One" "num.One" "num.One" "num.One"])
    ((simp only: cert_eval; fail) | simp)+

lemma order_56: "point_at (num_of_nat 0xf1902e8ca2e597f9118768f2a40c25646e163547d427993163fe80beed57be00) (num_of_nat 0xbc94996ddfc9824817ef377a376c57fe5d716d5158badc52a3bf387e41f8ebfa) (cm 0x610da4434fa8d8 (- 0x1c886fdac021d10))"
  by (rule double_cm [OF order_55, of
      "num_of_nat 0x6c4965aa573dcb04cb0e6c216f6752419061ab904885eb17b80744547471ffc2" "num_of_nat 0xd2631090f3b4a168313e60f8920ca5e4be08a02c104f1decde2758dec8456cd4" _ _
      "num_of_nat 3" "num.One" "num_of_nat 3" "num.One" "num.One" "num.One" "num.One"])
    ((simp only: cert_eval; fail) | simp)+

lemma order_57: "point_at (num_of_nat 0x1f4fbcd49a58b199a67031bec5a211b845a7e1aedc923ca191e2334df4eea4ef) (num_of_nat 0x342d90ff532d53086f0d6bda65ab7d798acf9ada19653cc7f44b76f6c61eb7ca) (cm 0xc21b48869f51af (- 0x3910dfb58043a21))"
  by (rule double_add_cm [OF order_56 gen_w2, of
      "num_of_nat 0xd804880ac59d93d2edd731c0f6dcac6f082589d67ef454679a535d9efaf78f2a" "num_of_nat 0x1e89958b433d12dc6c3c0d2bda4326ac6a8311166b17806d361ceee765948b9b" "num_of_nat 0x47df79e6735155722a5e994c50534bf1cf502a2f99002d373cf708efad454a79"
      "num.One" "num_of_nat 2" "num.One" "num_of_nat 2" "num_of_nat 3" "num.One"
      "num_of_nat 0xa9b0b4a62f944286e728cfa653b8d9729ec60b183b276bfa270777cf40127387" "num_of_nat 0xcd10d5c959fcf29bd87a277ec8a07302455c4a6cb32685e4baed775524fb5e43" _ _
      "num_of_nat 0xd24071b8088ce65f6b173733de6a13ac286e5398f7955c8fd21c4d70f8691911"
      "num.One" "num.One" "num_of_nat 2" "num.One" "num_of_nat 2" "num.One" "num.One" "num.One" "num.One" "num.One"])
    ((simp only: cert_eval; fail) | simp)+

lemma order_58: "point_at (num_of_nat 0x8cc3c64015a91c5ed8c3286f8d1d4fe0ffed9f09e714ddc1ca6a5dad34c56ec1) (num_of_nat 0x364fdf1b5d0f7331a533b1083dd5f1780e74422b4e4386e931166cb3cb364547) (cm 0x18436910d3ea35e (- 0x7221bf6b0087442))"
  by (rule double_cm [OF order_57, of
      "num_of_nat 0x85a5849a73c83963aa5c9a3db21b550f6049f8b768fad7e526fe71e06daa1819" "num_of_nat 0x928bf69484af953acdad094f3884c1d745ba42a4f57d5edfc777d59fc029325d" _ _
      "num_of_nat 2" "num.One" "num.One" "num.One" "num.One" "num.One" "num.One"])
    ((simp only: cert_eval; fail) | simp)+

lemma order_59: "point_at (num_of_nat 0x67b09a4b6cb253bd05609203441251ae67611050b3f98885cb780f497a4c8d89) (num_of_nat 0xdf73bbe44700312b62f6e047dfab86a3acb8a5dca725fc59de1e5653b82b1836) (cm 0x3086d221a7d46bd (- 0xe4437ed6010e883))"
  by (rule double_add_cm [OF order_58 gen_mw2, of
      "num_of_nat 0x3cd0f05752da0f6d269b72440dcb81f2764e20146c070fd733e780b1b389e23a" "num_of_nat 0x82327c078213dc55742f8f930c27558317558ad8552719601096d148b4df9ec3" "num_of_nat 0x89c45db58d791eac9a9ee8282a53c2984194bf5b89e3e4a47f239fe81a0a11d0"
      "num.One" "num.One" "num.One" "num.One" "num_of_nat 2" "num.One"
      "num_of_nat 0x2ff688a882ffdb23e24404762c98d48be58dfae5d30f91d4b46bdc51abb5cf1" "num_of_nat 0xd6de7031455821fc57f731997012d0f6f2c3e8566e201333e01ca38a60e36548" _ _
      "num_of_nat 0x25132bf4a8f6c8a1d362966c490afe32988c8eb9331b553bfef24e63ba78e138"
      "num.One" "num.One" "num.One" "num.One" "num_of_nat 2" "num.One" "num.One" "num.One" "num_of_nat 2" "num.One"])
    ((simp only: cert_eval; fail) | simp)+

lemma order_60: "point_at (num_of_nat 0x525325c0c27996100b5dab824f2b55ecd3857fe203302396b6d45d8ae5572605) (num_of_nat 0xbf91954f4eaa0de0838531bc919e0f36db7fcc463e7ccfef93b8a604e15cc941) (cm 0x610da4434fa8d7a (- 0x1c886fdac021d105))"
  by (rule double_add_cm [OF order_59 gen_w, of
      "num_of_nat 0x54fc489e30edc4caa5a070b3527dd1771fc733b5cb1c6107dc4390fa866c0242" "num_of_nat 0x87abaf2e79bff00d96b492f7547820a05e60ef82e3bf5eac250a78980cd2d8c5" "num_of_nat 0x810c2903f96ddd95dc595db622ff2025378293b5b6ded448ea4ac2b124de2fab"
      "num.One" "num.One" "num.One" "num_of_nat 2" "num_of_nat 2" "num.One"
      "num_of_nat 0xe6a47147734476272907344d211331892fde7c9afd1ab43ce12d4c97556e5a0d" "num_of_nat 0x7c0642dd0d18d438cc83c45f78f8460318283be23126766b312ede187d2cccf3" _ _
      "num_of_nat 0x155d748aaa38bdacfa02e680f4e6fbc193db906eb0c964ef14a3b1be94f56784"
      "num.One" "num_of_nat 2" "num_of_nat 2" "num.One" "num_of_nat 2" "num.One" "num.One" "num.One" "num_of_nat 2" "num.One"])
    ((simp only: cert_eval; fail) | simp)+

lemma order_61: "point_at (num_of_nat 0x41dcfdd6de2da769a7d80d7dec2c1d6c92fa1dece137c3d4b63bca7e417c9d15) (num_of_nat 0x6f517950f6377a67e7002efa29981b0605d2336d45ea965499d26fae81fc3542) (cm 0xc21b48869f51af4 (- 0x3910dfb58043a20a))"
  by (rule double_cm [OF order_60, of
      "num_of_nat 0x6d98bcab5bc6468936136c1183e22f8ddd5f47d63ef22b30c3f38c77cd099a1e" "num_of_nat 0x1107627e9e44beea663859e0462ff3880408b61f521f85fc20098930ba3da851f" _ _
      "num_of_nat 3" "num.One" "num.One" "num.One" "num.One" "num_of_nat 2" "num.One"])
    ((simp only: cert_eval; fail) | simp)+

lemma order_62: "point_at (num_of_nat 0x33d0959fe539d948a5c7a544d4d8508c7bc3d10282a2b322bdb5cd1194ae0ec8) (num_of_nat 0x5878c4f55fee0a4fb5193b949fe862c3e1349a24cf9b581b6a81c45f74a51826) (cm 0x18436910d3ea35e7 (- 0x7221bf6b00874414))"
  by (rule double_add_cm [OF order_61 gen_m1, of
      "num_of_nat 0x37e168a81baf1442adc85517e25aed9a6fa1deee4c966504a3b6b6dcd57b7a83" "num_of_nat 0x512c5e9ff92fcedb39a7b80fddb3b107da4bf294d4632dd8d8f1e3a2bd5d7a9f" "num_of_nat 0x658d0eec324c6e03cafb4409d3d2cc4ce980f595c69d39391a4dfee09fd9af2b"
      "num.One" "num.One" "num.One" "num.One" "num_of_nat 2" "num.One"
      "num_of_nat 0xdc4feeeaabe13965dcdcc9741859511fa97928571a9a8a9b9bedcb9ca1a2ea19" "num_of_nat 0x76f0c384892de0d03ef50b0a77af87e3499004341d77a433e82aa51bb844c08" _ _
      "num_of_nat 0xe0c6836f8f3ce21021068391753cce017364cea5e9510b1f885fd6cacce8e4d"
      "num.One" "num_of_nat 2" "num.One" "num.One" "num.One" "num.One" "num.One" "num.One" "num.One" "num.One"])
    ((simp only: cert_eval; fail) | simp)+

lemma order_63: "point_at (num_of_nat 0x13eafde28393c8d16b2d7d0f284155f5482270bb5c700c411515612f77cc06a) (num_of_nat 0xbd6155bcd9d28e9bc863842b2e52f8cbb10e3b988cc0b1a64f6f1a3cdb01e8e3) (cm 0x3086d221a7d46bce (- 0xe4437ed6010e8828))"
  by (rule double_cm [OF order_62, of
      "num_of_nat 0x65d67a2ed328840d5aea116bb0f7483432d47894c656aabcd6d66202e5770625" "num_of_nat 0x13291e5c1bd009cbb8f14cd73e2543b2d2741a9f6ccdbb25eac6476fd9d314a8d" _ _
      "num.One" "num.One" "num.One" "num.One" "num.One" "num_of_nat 2" "num.One"])
    ((simp only: cert_eval; fail) | simp)+

lemma order_64: "point_at (num_of_nat 0xd4c599dd0cbc05f757473810665e67d4d14334ec8adfd89183863507ea716292) (num_of_nat 0x8d63119aeceb8bcc0d64b7f54972372b2b8c68d3b0bad8d920f990fdd29555ba) (cm 0x610da4434fa8d79c (- 0x1c886fdac021d1051))"
  by (rule double_add_cm [OF order_63 gen_mw, of
      "num_of_nat 0xbb6e330b7566dbfa944e2ae5a40c0dc632a61cfac94ee8c9966a4a31093bcf61" "num_of_nat 0x733bb78bb9c42b13bc90f46b9067c2c4de29a136081c25e424420cb069ec88b1" "num_of_nat 0xc23dbcc262b6def79b9ea97bccdb98769b65fc63fc90b975166ff40f2f8c9650"
      "num.One" "num.One" "num.One" "num_of_nat 2" "num_of_nat 2" "num.One"
      "num_of_nat 0x3f00f31bc5825d957b142e5525a87ce8b91c2aa7b936474efae16202c7f02649" "num_of_nat 0x6af5d20a2923bf1cef571ec8b89e8a9298faedc1d320002eb7ff84b39a2e493f" _ _
      "num_of_nat 0x2c7916011b7d3695bf6b9fc08c25ad8a833ef21f2ae728328dcb210a0d0b5a07"
      "num.One" "num_of_nat 2" "num_of_nat 2" "num.One" "num_of_nat 2" "num.One" "num.One" "num_of_nat 2" "num_of_nat 2" "num.One"])
    ((simp only: cert_eval; fail) | simp)+

lemma order_65: "point_at (num_of_nat 0xd8b6653c13a137ab2c1c6c7ad36a6c2c8091207980def49dbb7d60c0cae96349) (num_of_nat 0x66230a27fe1115a77df2efecb78b2482d6087185370bee92291d56a52565f636) (cm 0xc21b48869f51af38 (- 0x3910dfb58043a20a2))"
  by (rule double_cm [OF order_64, of
      "num_of_nat 0x726329e2cfa738de020de5f94017857b820802594caac3e423a5cc27a331fe72" "num_of_nat 0xfc0f34a0f91ace4c2b2acb9592f3fba850b214730a00e3f3c808d4461f87fb78" _ _
      "num_of_nat 3" "num.One" "num_of_nat 3" "num.One" "num.One" "num.One" "num.One"])
    ((simp only: cert_eval; fail) | simp)+

lemma order_66: "point_at (num_of_nat 0x2d18a4e3c01a9266d84cfe753fec82dff176b610305e7ee731fbed9b6faf2135) (num_of_nat 0xb685737dc603e89792481a03a77789226bdcbdabe56a27cf403e296da54f896b) (cm 0x18436910d3ea35e6f (- 0x7221bf6b008744144))"
  by (rule double_add_cm [OF order_65 gen_m1, of
      "num_of_nat 0xa1080142e63b84012983f61afb1c9eda820adc61acef343b9e7520994c0eb07e" "num_of_nat 0x63c36e6f1cba6a9c479570ca0815a43f7b383273968df92f4d7016eb326737d7" "num_of_nat 0xa5ded8ac51da8e7c8c0b9057829ed2fa9c16285a3c3dd9ad9f6c332b737cf70f"
      "num.One" "num_of_nat 2" "num.One" "num.One" "num_of_nat 2" "num.One"
      "num_of_nat 0x32d78c8fc1c6a92ea010dc2350cb9931e47af81f44a11af01c112d95576c6c3a" "num_of_nat 0xcf62a115390104cd906a0df2b79b245649fe99b4a1238aed1d4efdb8db72fd26" _ _
      "num_of_nat 0xab9dc0585386a54453cf6e05937de94c8f1a6a69508075b6898173255b3a4214"
      "num.One" "num.One" "num.One" "num.One" "num_of_nat 2" "num.One" "num.One" "num.One" "num_of_nat 2" "num.One"])
    ((simp only: cert_eval; fail) | simp)+

lemma order_67: "point_at (num_of_nat 0x7992ca8ae67131a4a5479acab61b310d08e7a588171034e703c4ef1640dab983) (num_of_nat 0x1936404f0a0395b02c9c90adeb45a3f0a25f8e805ca74c797137039c918b5652) (cm 0x3086d221a7d46bcde (- 0xe4437ed6010e88287))"
  by (rule double_add_cm [OF order_66 gen_w, of
      "num_of_nat 0x8f943e05dd858620d2b4044156a3a04595b18df64eb76aa675bfb2a891096e96" "num_of_nat 0xade6b870f844b431378e58580fc764147fed23c85738c601313cc8a4049f4633" "num_of_nat 0x19c003f6e0efad840fecf0be0def26842e0eb0423cf0405eb23c272b764bb0a2"
      "num.One" "num.One" "num.One" "num_of_nat 2" "num_of_nat 2" "num.One"
      "num_of_nat 0x1358a0ecdf2ae4e2c8600db731fd5c5bc36805cdf36e3e887fbfc66ff9637093" "num_of_nat 0xc66b285eba646076ab09da13407a16827be81ca78318ae4d037347147ea2518b" _ _
      "num_of_nat 0xb385da58d9a960c2330563aa89d151d2e88f1088194e4a002e36fe842ed463e1"
      "num.One" "num.One" "num_of_nat 2" "num.One" "num.One" "num.One" "num.One" "num_of_nat 2" "num.One" "num.One"])
    ((simp only: cert_eval; fail) | simp)+

lemma order_68: "point_at (num_of_nat 0x4f05bb4fc674ae74f14bf1cb39a9e00aeb5a7676a9a0c4cdf529835ac76d2a9d) (num_of_nat 0xf07d3461cdb2b49f05f9afa400f5e787a123f5e6bdc30b5cf0a8b1e0d56a519a) (cm 0x610da4434fa8d79bd (- 0x1c886fdac021d1050e))"
  by (rule double_add_cm [OF order_67 gen_1, of
      "num_of_nat 0x2b9bf4136b8a07b058c7cb186bd9f9f9b4575316bdf3f2562d9244d61d5e15" "num_of_nat 0x1ef1bb02cf6d5432ed194697bf67a3937c8c4ebae3df6e3bfac1de3f02ac5212" "num_of_nat 0x41e89658f75cfb7565b2c66b1494bb81a88bcca9c457ed764bb3ed11c6611258"
      "num.One" "num.One" "num.One" "num.One" "num_of_nat 2" "num.One"
      "num_of_nat 0x37aa3431ef14362f3f94d45fa186758b605bd8de52b84770b81102047a79a72b" "num_of_nat 0x7795e5265e951086f490c35ac730103c5ec4142a0028c6fe4da14346f6ec90aa" _ _
      "num_of_nat 0x2a8d0f3b1ffc832fb3fba8ff7c7151021d8d2f116d6f70190e9b6bbb796d8ee6"
      "num.One" "num.One" "num.One" "num.One" "num_of_nat 2" "num.One" "num.One" "num.One" "num_of_nat 2" "num.One"])
    ((simp only: cert_eval; fail) | simp)+

lemma order_69: "point_at (num_of_nat 0x9c737135ddc665fa12cbbdd7bc6df7fb58eedf9946742fe818db1183c9dfb521) (num_of_nat 0xca74710f9f9df71a4c1c922259a94db0ace6663916189c9c820dd49f74e77158) (cm 0xc21b48869f51af37a (- 0x3910dfb58043a20a1c))"
  by (rule double_cm [OF order_68, of
      "num_of_nat 0x84dfb03cb5be3bd2913b8106643b7ee3ab51bd7f8a21182781a57159c970c023" "num_of_nat 0xb2924a19e8ae487ade8033f37d3be80f926b96dd632c94e5dc4e71d5fd8d71ab" _ _
      "num_of_nat 3" "num.One" "num_of_nat 2" "num.One" "num.One" "num_of_nat 2" "num.One"])
    ((simp only: cert_eval; fail) | simp)+

lemma order_70: "point_at (num_of_nat 0xe68be2b364f15a2e95ae195f40139cb0144e73322a41d9110bda0f0a2fbf8f7d) (num_of_nat 0xf80745a302c5afcd001a6c5b4ed9766885f9646fca6def55bb861eaa368dc472) (cm 0x18436910d3ea35e6f4 (- 0x7221bf6b0087441438))"
  by (rule double_cm [OF order_69, of
      "num_of_nat 0x43d8b8cf1fead3a067b359de96b454cd11b5924e434a4624c7e2f5b52da126b9" "num_of_nat 0xb5e78e8278d50bcb7d1da4787c5a5b4b44a06c671c3256d70d0102789a2021d3" _ _
      "num.One" "num.One" "num_of_nat 3" "num.One" "num.One" "num_of_nat 2" "num.One"])
    ((simp only: cert_eval; fail) | simp)+

lemma order_71: "point_at (num_of_nat 0x8486eaeeafee82dcc529afbd090377994df9e1b02efe4691551e724dc6d1c21f) (num_of_nat 0xdd86a487dfef3b61c0e757e11a4281d20df5f3495dfc69b9668601d6aeecd1a9) (cm 0x3086d221a7d46bcde8 (- 0xe4437ed6010e882870))"
  by (rule double_cm [OF order_70, of
      "num_of_nat 0xba21d74e9b8d0e479f98ba986439f0a0025d221478b58713b0be97490eccd1f6" "num_of_nat 0x16204f7c4b502d751d08469a237102516c6549181fb43927fb6bb9cbb68edc98d" _ _
      "num_of_nat 3" "num.One" "num_of_nat 3" "num.One" "num.One" "num_of_nat 2" "num.One"])
    ((simp only: cert_eval; fail) | simp)+

lemma order_72: "point_at (num_of_nat 0x12ee2a337c1789d8826533505ce68ed71655bd1cfe6e44def2e5aa89a4cbb30b) (num_of_nat 0x9159bd335912eb1797ce7ec15b02dabcf89bc1efe1e8c6d1e9b78eeb5954695e) (cm 0x610da4434fa8d79bd1 (- 0x1c886fdac021d1050df))"
  by (rule double_add_cm [OF order_71 gen_mw2, of
      "num_of_nat 0x450dcba8b894a8ef3a34eaf691e55a3a2841dd6e241da707a9336c11217d8edc" "num_of_nat 0x89e59856be1f06f9408566617d30313d6f9b318d21790f0278aec3f0e9b3572" "num_of_nat 0xdd18269458ab31985aaa8a5219bf622f4c789cf6d739dfe43e9f6ce0105c65c2"
      "num.One" "num.One" "num.One" "num_of_nat 2" "num_of_nat 3" "num.One"
      "num_of_nat 0xa76ec45a574351446a7f256aef44156a018144b957c466ad167f056cb675588c" "num_of_nat 0x22595a278563fbeca654d37ef63ae2ff8e9268d4421236113068c8a995b943df" _ _
      "num_of_nat 0x7198c0bb33d6f90442c47c6cac1ce8c237a42493309001b26238c7c422060f14"
      "num.One" "num_of_nat 2" "num_of_nat 2" "num.One" "num_of_nat 2" "num.One" "num.One" "num.One" "num_of_nat 2" "num.One"])
    ((simp only: cert_eval; fail) | simp)+

lemma order_73: "point_at (num_of_nat 0x3a0de639e3a9adbf3c8637b6ee8f994f0831767a4916d97ec4acd56d25a1860d) (num_of_nat 0xff2045db4c1d8bbd30f0e676ba2f1e493bd6887c73ec917253cd5b68303ced1f) (cm 0xc21b48869f51af37a2 (- 0x3910dfb58043a20a1bd))"
  by (rule double_add_cm [OF order_72 gen_w, of
      "num_of_nat 0xa9beb8b621888eaf289bcf6639a9944e70d286e980a7a4aeb4d5f5ba5becdcc0" "num_of_nat 0xcafd59df0453c8d888bc4d2ebd34aedca76c71cd3f9476c954fc2ec7ac143c2e" "num_of_nat 0xa04153c13f0b0e83b5c28dee3078a62a824edfb3eb762559a891b35187ed979"
      "num.One" "num.One" "num.One" "num_of_nat 2" "num.One" "num.One"
      "num_of_nat 0x8ea14f76826d8f047090a7179df04746e30cf21bfb6e289585c8f548c4cd992" "num_of_nat 0x1c2d85ec3ef7270062d5687cf1346bd045a33f6c7732ab05c3b074a5c7b1463b" _ _
      "num_of_nat 0xd8e043f9986ddc1945defb996e56f5880e2446a2b5576b602e38d51b7f2a292d"
      "num.One" "num.One" "num_of_nat 2" "num.One" "num.One" "num.One" "num.One" "num_of_nat 2" "num_of_nat 2" "num.One"])
    ((simp only: cert_eval; fail) | simp)+

lemma order_74: "point_at (num_of_nat 0xdbfebd1c2ed2f891df6c6d7356fb30183fe90af5b4664d15fb4bb08ec26f0fe3) (num_of_nat 0x4ea697ac746ba4e4cd121bc0bd0143b647d72276abe1d7eebc66ec5bd6e94384) (cm 0x18436910d3ea35e6f44 (- 0x7221bf6b0087441437a))"
  by (rule double_cm [OF order_73, of
      "num_of_nat 0x8a94f315995f2cbd31d575ec9d02eca1fd418dccbbd0f21b6bf857f0912e0050" "num_of_nat 0x5e0f291db4d6b52d5d19ca4397946936c8486b8494b08c68c96124dd63327259" _ _
      "num_of_nat 2" "num.One" "num_of_nat 2" "num.One" "num.One" "num_of_nat 2" "num.One"])
    ((simp only: cert_eval; fail) | simp)+

lemma order_75: "point_at (num_of_nat 0x55dbe4bec4736ea33d74c37926c19a94c4ba4d610886e90635bf9dcdb8cac17d) (num_of_nat 0xe99bc72315c28e466898d708061dcc5eddc52056769388547ef39a7eaec8a2e0) (cm 0x3086d221a7d46bcde87 (- 0xe4437ed6010e88286f5))"
  by (rule double_add_cm [OF order_74 gen_w2, of
      "num_of_nat 0xed95f97b39b0333a1ff22d4043eda1bb3652b4289eb5a08303062dcf25e03d47" "num_of_nat 0x80a3363b40bce8d7b90a4951488e9f3bdca767e72b3ef19430bcbb55586ac6d" "num_of_nat 0x6c399055a46ecf50d40989cfa3ca94540f3a013cc610bccc5e21516e17db1b03"
      "num.One" "num_of_nat 2" "num.One" "num_of_nat 2" "num_of_nat 3" "num.One"
      "num_of_nat 0x6fc52cc68a6429410b62e3a3b3309bc430af09b8ee5590499d2a5f20aa93f4e0" "num_of_nat 0x83a76d34404ab5b5c92461271212b426ecbe2a66bea9caf7ff9235b9774969e" _ _
      "num_of_nat 0x8622d85d6a5f89eea1f7a9fa303995837b2ebd94abdf640fc58c12c109a44e66"
      "num.One" "num.One" "num.One" "num.One" "num_of_nat 2" "num.One" "num.One" "num.One" "num_of_nat 2" "num.One"])
    ((simp only: cert_eval; fail) | simp)+

lemma order_76: "point_at (num_of_nat 0x93743bbfd6d478f2e9cf46476cdd963202d6e5c64f0f76ebb9bfd6b1b1102793) (num_of_nat 0x2c1beda3929b3698c3963c0a0c5724d18a9647643f0008d7759fe19434c867c3) (cm 0x610da4434fa8d79bd0e (- 0x1c886fdac021d1050dea))"
  by (rule double_cm [OF order_75, of
      "num_of_nat 0xc6351a3bc523646932b0a6467182c2bfa50ae59909317c924be00764f8356753" "num_of_nat 0xc267a8feed9ef5b053a57d31b9e40462c1e3679ab977721a7bffc71b07ba9619" _ _
      "num_of_nat 2" "num.One" "num_of_nat 2" "num.One" "num.One" "num_of_nat 2" "num.One"])
    ((simp only: cert_eval; fail) | simp)+

lemma order_77: "point_at (num_of_nat 0xe996dad643363b839b4d2087c10e0a4a9f90d95eafa5ee3c59118542f602634c) (num_of_nat 0xe62a5cff9382f1d9fe84dde9b8fd378e0086030df0694e0a3dbc0c087557d6be) (cm 0xc21b48869f51af37a1b (- 0x3910dfb58043a20a1bd5))"
  by (rule double_add_cm [OF order_76 gen_w2, of
      "num_of_nat 0x36207ad791aeb2d9158f546c2e0b3ba17364d958040c76ad449207ad373f2968" "num_of_nat 0xa7dedfebf945a5f3a38ac5dd7bda5d19fb51e55eb6fef6b6be65a13b635a835" "num_of_nat 0xa797bcf596604584f357e82c44798f331c451b8dcaceeab0fc6b63dda8d9390"
      "num.One" "num.One" "num.One" "num.One" "num_of_nat 2" "num.One"
      "num_of_nat 0x88fabff07d6e749a9a99c7c4a895fd3ed112940d72628840a9f92073d6829403" "num_of_nat 0x460bc471fb46fd673fe7c945c3407bc528136a2fd032faddad78271730cbfe" _ _
      "num_of_nat 0xa9dd60e9939e3d6f4e8225bfabcf8be763460c679f6988af60ae516dbb0dc076"
      "num.One" "num.One" "num.One" "num.One" "num_of_nat 2" "num.One" "num.One" "num_of_nat 2" "num_of_nat 2" "num.One"])
    ((simp only: cert_eval; fail) | simp)+

lemma order_78: "point_at (num_of_nat 0x420754864897168f68f1aeab6e951b134ebfce6d92f73e1c6cd044be92435fa5) (num_of_nat 0x2d41d28c578f5007e4dad0499d9d283d5bb09c83d2154de956c589e387413896) (cm 0x18436910d3ea35e6f436 (- 0x7221bf6b0087441437aa))"
  by (rule double_cm [OF order_77, of
      "num_of_nat 0xdce9e59be00a075d7aef8d297f2c02e93250af6c9de0b35117f3b8fda00cf4ce" "num_of_nat 0x1a78f864ffa9f24f4325b71dc5278ef3750d10af11caeb01fec41408363beffd6" _ _
      "num_of_nat 3" "num.One" "num_of_nat 3" "num.One" "num.One" "num_of_nat 2" "num.One"])
    ((simp only: cert_eval; fail) | simp)+

lemma order_79: "point_at (num_of_nat 0x8f4017ab0092b89431ba994f5b356229e5133eb7f9bb93894b897e04a869bea1) (num_of_nat 0x8580d4102c5d1e26924982465dba8319c8dc5fe664f82a3a79a3678de3f2afa9) (cm 0x3086d221a7d46bcde86d (- 0xe4437ed6010e88286f54))"
  by (rule double_add_cm [OF order_78 gen_1, of
      "num_of_nat 0x37b711f8b145a51cecaeb3ea5ff1eff3b3dc2e6d9ad6eabced223c9c84b4b7f3" "num_of_nat 0x6c1c975ab23ef528c32fc32f9431c4ab2db2d7ed91601e896eb1c9ae358bee" "num_of_nat 0xd15fcca1f8893dc750bc3103bca71cb3368b6666927836fb0ff3af400507011a"
      "num.One" "num.One" "num.One" "num.One" "num_of_nat 2" "num.One"
      "num_of_nat 0x70a787e4500dd8c818357da7b1edfe6018346807007f07215cdc957d8d3c5aba" "num_of_nat 0x6b13a28a24ceb92644b7b7ae477306989cfea89b0535fef160bd9b89ebb4aa21" _ _
      "num_of_nat 0xb2c73cdb48045dfb3737155c135fb8e969ac8fb5993baa932146c6b8e9d99d33"
      "num.One" "num_of_nat 2" "num.One" "num.One" "num_of_nat 2" "num.One" "num.One" "num_of_nat 2" "num.One" "num.One"])
    ((simp only: cert_eval; fail) | simp)+

lemma order_80: "point_at (num_of_nat 0x1881ef866046cfbc720d1236288b9deddcba5a6722636e7829604240742c653) (num_of_nat 0x2406d569b8185eec41a87fba2f0a60215b2bcce68de4049e05f23831be957cc3) (cm 0x610da4434fa8d79bd0d9 (- 0x1c886fdac021d1050dea9))"
  by (rule double_add_cm [OF order_79 gen_w2, of
      "num_of_nat 0x3a549eec67f07337cda401643fb36fa99128806659605a0fb2c8605a3fe5925a" "num_of_nat 0x21c636f64fe8cd68d7f988c4d1df08be38604973855c7bc16fa05537eaf38f0" "num_of_nat 0xa1295cf10c950b8adb3784c9c9b72b9b48d9e860f527066b9abb5078cbc62f4e"
      "num.One" "num.One" "num.One" "num_of_nat 2" "num_of_nat 2" "num.One"
      "num_of_nat 0xee16bab9f3fdad0956831485917e368e9c39565704948d1db0ce2d8adca38b82" "num_of_nat 0xd8c7e3e2618250ca83569aa92e036cdbed002f0ff76eecb4df91438a11536410" _ _
      "num_of_nat 0x8db7f8b29a8e4b986a99c82bf8aca84b0747991187955ca1c8f379e0a126f84e"
      "num.One" "num_of_nat 2" "num_of_nat 2" "num.One" "num_of_nat 2" "num.One" "num.One" "num.One" "num.One" "num.One"])
    ((simp only: cert_eval; fail) | simp)+

lemma order_81: "point_at (num_of_nat 0x86e6ba2d452949f57940fb5cd86c9e1fbf953bb5ba1985899a30581a22c7ae0f) (num_of_nat 0x1a71661f07e7765fad00a5c9e4119da0e59a3fe8d668be039405bea59f3a777e) (cm 0xc21b48869f51af37a1b2 (- 0x3910dfb58043a20a1bd52))"
  by (rule double_cm [OF order_80, of
      "num_of_nat 0x946060032ce92eafa3cfb69fc84c570252ea304082a25aee30e12a112ccb65a6" "num_of_nat 0x7aa164cb20db23064ddfd5c68a1c1bbf1e3669f0b80cb15de865ac08e47b1473" _ _
      "num_of_nat 3" "num.One" "num.One" "num.One" "num.One" "num.One" "num.One"])
    ((simp only: cert_eval; fail) | simp)+

lemma order_82: "point_at (num_of_nat 0x2650232e3c09ecae2bcdd30b6cd2d6cee2f4cf9a3488c3e63ea634c3539c7b6) (num_of_nat 0x6b31ef4dd1be322ff30433157cc671d1c0802c63d1feb27a9bca83547406c68a) (cm 0x18436910d3ea35e6f4364 (- 0x7221bf6b0087441437aa4))"
  by (rule double_cm [OF order_81, of
      "num_of_nat 0x2342c5a0249fca53bffebea094027c9a0e68630e8a50d563bd7f231c89edc983" "num_of_nat 0x18481b7fa6168ab2a96841e2c219f70b2d165eebc16d0f94b3645f4cced8de288" _ _
      "num_of_nat 2" "num.One" "num_of_nat 2" "num.One" "num.One" "num.One" "num.One"])
    ((simp only: cert_eval; fail) | simp)+

lemma order_83: "point_at (num_of_nat 0xb40de0803bbb393961b10587bbbbf87373008cd8f20a2040be728cd9c0666291) (num_of_nat 0xd473f4c8316470b9ff68ddfca780a6b16c2762ccd967afa7abad6f5fccc0d90) (cm 0x3086d221a7d46bcde86c9 (- 0xe4437ed6010e88286f548))"
  by (rule double_add_cm [OF order_82 gen_1, of
      "num_of_nat 0x7759644c161c1ce172e3856517b9dd9a146cafe18a859c9af6081e0ee1be4fe2" "num_of_nat 0x9b3b3318ae0a750dadc75dcce78dcb3d5e928a97bf1b22641dd0431f4033ec6c" "num_of_nat 0x7dfa245ef77db5c84d0a72cf2c491fdf7e7ba982e813266ccacdc19e6ee255d"
      "num.One" "num.One" "num.One" "num_of_nat 2" "num.One" "num.One"
      "num_of_nat 0xfa855fecf448c36e5dec3603c4089b6ef647926174c759d7973d87314e4b9e88" "num_of_nat 0x2ea43fdf3f8f52d3602c5a66f393585813d7eecca2e9aaa80e8fca10f6563cfc" _ _
      "num_of_nat 0x4e5721b2a8056591810bd7a8fb1134f97b2ec020b13e6bfda577d67174d36154"
      "num.One" "num_of_nat 2" "num.One" "num.One" "num.One" "num.One" "num.One" "num_of_nat 2" "num.One" "num.One"])
    ((simp only: cert_eval; fail) | simp)+

lemma order_84: "point_at (num_of_nat 0xa172dfe11abd3bf17edd0e726c45120a79823fa950d65ab6355cc49aea889160) (num_of_nat 0x523409e654fce53d1c68e3ce33517250234fe911611ea8a1897e4239e1a19e09) (cm 0x610da4434fa8d79bd0d92 (- 0x1c886fdac021d1050dea90))"
  by (rule double_cm [OF order_83, of
      "num_of_nat 0x9b334234077236f3326d66f159e793d736cc24b2953711b5db90932357185812" "num_of_nat 0x1129b009f20fdfd47e2d3f7154f76e668f97e4d2fa133c58a8915c83dd5ddcd60" _ _
      "num.One" "num.One" "num_of_nat 3" "num.One" "num.One" "num.One" "num.One"])
    ((simp only: cert_eval; fail) | simp)+

lemma order_85: "point_at (num_of_nat 0xe5202f6f36192e9fd9be64de34f6da8839620461ca6bda6e05627ee1324d8c41) (num_of_nat 0x2913babbcc950ed2ed1db5c3be64ca019d64443a704a499bea0c5567a8aa020) (cm 0xc21b48869f51af37a1b24 (- 0x3910dfb58043a20a1bd520))"
  by (rule double_cm [OF order_84, of
      "num_of_nat 0x3020f4e0e0940515aa3f812ca6071fdaa2edb08ae3b5d72ee80e06deabc3af54" "num_of_nat 0xbc52b071e4a40d51a51ea994374e378240203b47866a80482ffa45b8b83b014e" _ _
      "num_of_nat 3" "num.One" "num_of_nat 3" "num.One" "num.One" "num.One" "num.One"])
    ((simp only: cert_eval; fail) | simp)+

lemma order_86: "point_at (num_of_nat 0x1df888637a22bf4bcc7de4b60e99d3f85b92326af8f79a6d536fea6836f8dc07) (num_of_nat 0x16cf2ae0dec78bb79c416e4d937cb20dd2c19a0c90471c80ec97dd6340d1da05) (cm 0x18436910d3ea35e6f43648 (- 0x7221bf6b0087441437aa40))"
  by (rule double_cm [OF order_85, of
      "num_of_nat 0x2c16bec4bc766c496b536932de7731fb9eab4dbc6eb9c9cc32dc11df601b07ff" "num_of_nat 0x1c727a70bbbf66f540d408028265d068fddcfd1f6d1744000b1f29477fb54ac69" _ _
      "num.One" "num.One" "num_of_nat 2" "num.One" "num.One" "num.One" "num.One"])
    ((simp only: cert_eval; fail) | simp)+

lemma order_87: "point_at (num_of_nat 0x6f00407a780193b46fb269ee7dc2dce275309a140811eb2083e02cf8c3ec4efc) (num_of_nat 0x5882ebae76db4978045234dd7ee32a83ea305ee733aaa2bbc13102e127daee8) (cm 0x3086d221a7d46bcde86c91 (- 0xe4437ed6010e88286f5480))"
  by (rule double_add_cm [OF order_86 gen_1, of
      "num_of_nat 0x5bc5de1b7fb9fc6089227ddfbfed370ea709ca7034d68e6c068296f2dfff3b91" "num_of_nat 0x5feddd45d706af8b1db60336848f5fa2d0baa95b48038c601c5614bd64c37061" "num_of_nat 0xcdbba9ed26cb03c9230b29590b58331cbedf9384abfdb085ff99396049f154dd"
      "num.One" "num.One" "num.One" "num.One" "num_of_nat 2" "num.One"
      "num_of_nat 0x503cde765357bb82a972bb5d0341a0db9cb29ee64cf9e9e753d6b106ed078359" "num_of_nat 0xee55829d622f19ada4f7ec9b39aa735589a441218d6a9c378d40c8180e4d99b" _ _
      "num_of_nat 0xaef847e902212b975ccb7ac790d6f715e6619856f0e5af4ccf8fbd6e730c893a"
      "num.One" "num_of_nat 2" "num.One" "num.One" "num_of_nat 2" "num.One" "num.One" "num_of_nat 2" "num.One" "num.One"])
    ((simp only: cert_eval; fail) | simp)+

lemma order_88: "point_at (num_of_nat 0xec2b6500639bf10835ca3daae320b24474e11ac991d2ddad06f8b67bc50ad86c) (num_of_nat 0xbcacf5544f90c80e45a6aed58193a3e9ddf5bbbed4857cb0071a315deccafaca) (cm 0x610da4434fa8d79bd0d922 (- 0x1c886fdac021d1050dea8ff))"
  by (rule double_add_cm [OF order_87 gen_w, of
      "num_of_nat 0x4daca26f259e84d33b4e98c818cd464311f7a9f27703fe6d23db734b3ccc40cf" "num_of_nat 0xe3e981835f5f0c1723becca0514b252207965730d3030b3e9278f91b9dcfaa1f" "num_of_nat 0x8e94d41f784635797ba2b9fcc7e58d21e30f1ed7e1966e7bdf6ad0da4db1b3ad"
      "num.One" "num.One" "num.One" "num.One" "num_of_nat 2" "num.One"
      "num_of_nat 0xe06b6c5affbb5e3af40faff1b5dd4fc092217b3c267b7ca4a4755c1d763a977e" "num_of_nat 0x242f6369bd3702915180d6c4296080aad32fed2c262bea659409d0c4b062651e" _ _
      "num_of_nat 0x82d4db7a1465a2ac39e82c439aa22a9e004f7f4a763f0d737ce7767bfee172bf"
      "num.One" "num_of_nat 2" "num.One" "num.One" "num_of_nat 2" "num.One" "num.One" "num_of_nat 2" "num.One" "num.One"])
    ((simp only: cert_eval; fail) | simp)+

lemma order_89: "point_at (num_of_nat 0x7776fe29f77b37b8e2b113878e23a6105b4d9379610a70cdbdd9b7e550afa319) (num_of_nat 0x68f448e234506440d13fa8b3e76e12a84cf727d7694c9c1514d6b0522a7ba2b) (cm 0xc21b48869f51af37a1b244 (- 0x3910dfb58043a20a1bd51fe))"
  by (rule double_cm [OF order_88, of
      "num_of_nat 0x7004b97e8a5c49112b1497875fd084fd78e75ffa947f125314bd5f50b8896123" "num_of_nat 0x174b466d66c20b94f53192a2354fd0c341993875030c86cdf491efe95745b3182" _ _
      "num.One" "num.One" "num_of_nat 3" "num.One" "num.One" "num.One" "num.One"])
    ((simp only: cert_eval; fail) | simp)+

lemma order_90: "point_at (num_of_nat 0x336d03087f8a360547244fd43a4402b0ce3c1a2a4451bb73940d042b4550b8a8) (num_of_nat 0x1b0e9d699e6dccd75cfe6b0a9f3f2606028b048b05bc3e61a357371618ec9727) (cm 0x18436910d3ea35e6f436487 (- 0x7221bf6b0087441437aa3fd))"
  by (rule double_add_cm [OF order_89 gen_w2, of
      "num_of_nat 0x521db86d7107f4131cad872c0cc52bc31aee2ba4f2117ccb40782679979fade2" "num_of_nat 0x808f836ce56a2e29e2b300358e62deac1f61b8e644d596a07e0364f372c8ebd4" "num_of_nat 0x56302763a7d29ecab1d4d3ce08fdec40d8cddd92d57887858bb2d6bcbaa792"
      "num.One" "num.One" "num.One" "num.One" "num_of_nat 2" "num.One"
      "num_of_nat 0x7720ce0293d3651a17ff3eb3c01aa8241a74c59bce34f846384e050e93f4fb87" "num_of_nat 0xd308717ca131950bb30616122f1b7605a09b5f511007414d0a477d4f851fe863" _ _
      "num_of_nat 0x4409fb2177f101b39b8cc3b353dfa35f8d11794f1cb8b55a29ccb3ba0b5eea71"
      "num.One" "num.One" "num.One" "num.One" "num.One" "num.One" "num.One" "num.One" "num.One" "num.One"])
    ((simp only: cert_eval; fail) | simp)+

lemma order_91: "point_at (num_of_nat 0x1ec741c9e31a25d2c2f745c4c3f7ed7adbfea648bfb2ce7b830488f7aa096d2e) (num_of_nat 0x1a99a451df8aa57cadfb9aef72784d5195e4ca76f9a8bff7dfea208a0025e9e1) (cm 0x3086d221a7d46bcde86c90e (- 0xe4437ed6010e88286f547fa))"
  by (rule double_cm [OF order_90, of
      "num_of_nat 0xc0f2a410ffc5d6addac236ab0bcb740f0260e7a279397041b104ffb576ac52c8" "num_of_nat 0x114a5c13e9c701032842d0a0f764c1535f23d73e1849eecf811087b329b4747a9" _ _
      "num.One" "num.One" "num.One" "num.One" "num.One" "num.One" "num.One"])
    ((simp only: cert_eval; fail) | simp)+

lemma order_92: "point_at (num_of_nat 0xb93209738435d5abc2297aae654676d0f7e2a63da7949be3310f1545269a9ab8) (num_of_nat 0x478eefdedc057a1b298c15bb76a7dd1ba44933dee98bb6c7f0f131139b236d90) (cm 0x610da4434fa8d79bd0d921c (- 0x1c886fdac021d1050dea8ff5))"
  by (rule double_add_cm [OF order_91 gen_mw, of
      "num_of_nat 0x9de5a11fba85f2b4e809bcf1d29835aaab299dbdbf631b1224b7174c56af229d" "num_of_nat 0x8c5517b30eaf7137bcfe52fded42e7eb4c2781f493ded2a05d2f0b18c14f1323" "num_of_nat 0xdf3471015ebe98666207343d3512b5c3101644e07e5cb9e80420d9b7116d7ee6"
      "num.One" "num.One" "num.One" "num.One" "num_of_nat 2" "num.One"
      "num_of_nat 0x3f92d0c8845b8d6c60f011878ee537b7cbe86168415614937ee3af3f989bea77" "num_of_nat 0x7288400d972f499871c4eb2b3639ab712e6cb2e287ebb3ecf933f9c4e86b1b1d" _ _
      "num_of_nat 0x659538565ee4502700cdcb165eb176a9e41c000b181e329851f573b1836ecea5"
      "num.One" "num_of_nat 2" "num.One" "num.One" "num_of_nat 2" "num.One" "num.One" "num_of_nat 2" "num.One" "num.One"])
    ((simp only: cert_eval; fail) | simp)+

lemma order_93: "point_at (num_of_nat 0x957b2e8cabdfffea0bf507c5a5511b5644f2adec49aa12e9750f97e4e0447e72) (num_of_nat 0x75292540a0172ed2fac8be13226fdd7801b9d57cce628d969a16277f47f9ff5) (cm 0xc21b48869f51af37a1b2439 (- 0x3910dfb58043a20a1bd51fea))"
  by (rule double_add_cm [OF order_92 gen_1, of
      "num_of_nat 0xc08c5d0b75a6e6009376e7e7694094360ab9569d86398cf628e36c14f05d790f" "num_of_nat 0xed5996d5b452c3d72e3062df666aa58b806923eb2249ddf1f6a2bda85e752bbd" "num_of_nat 0xaf34ebddbf01d195ce948742b521f534b4a7fbd4d2dffc12632d51faa8c2a89c"
      "num.One" "num_of_nat 2" "num.One" "num.One" "num_of_nat 2" "num.One"
      "num_of_nat 0x9fd1d95c5340415f394f36bb024819c433aaa68d4b49fd0cde1c34a7dd7f21c" "num_of_nat 0xafbe9fda4f4536cc75dce5f41fdc31dd0b81fb1beba610b77d6f2a4d0a719886" _ _
      "num_of_nat 0x23b6dae6d855d5c1b63472e8bff55b7ab2eff8515dea88f9bbff7d6046561c46"
      "num.One" "num.One" "num.One" "num.One" "num_of_nat 2" "num.One" "num.One" "num.One" "num.One" "num.One"])
    ((simp only: cert_eval; fail) | simp)+

lemma order_94: "point_at (num_of_nat 0x589803c3d0254a43f0f78e18070f9679bc71ddee41d174a8336e02e236b5c1c1) (num_of_nat 0xcbb7268717a97c9260850b844708d826fd88d54c10d9b5e57cad8e496e70f582) (cm 0x18436910d3ea35e6f4364872 (- 0x7221bf6b0087441437aa3fd4))"
  by (rule double_cm [OF order_93, of
      "num_of_nat 0x57032455b206ac299befa9834414fd3b4c69366ea2283197ed36b72a23236d0d" "num_of_nat 0x13ce32ac8dbbab5a61afd79ad9e4184dc8880cffe07d89e4141a19501a98eb8e0" _ _
      "num_of_nat 2" "num.One" "num_of_nat 2" "num.One" "num.One" "num.One" "num.One"])
    ((simp only: cert_eval; fail) | simp)+

lemma order_95: "point_at (num_of_nat 0x823e6ddec25cd6aa73a7096ec8df690e8009cc32431bdd6e8b137ae3b5095124) (num_of_nat 0x7a5806f3f12bed979654078f7381bb561d5557d207baf9e459fa160c3cce9784) (cm 0x3086d221a7d46bcde86c90e4 (- 0xe4437ed6010e88286f547fa9))"
  by (rule double_add_cm [OF order_94 gen_mw, of
      "num_of_nat 0x6414df25cd7ace43ba09749e8f808cabcab666183d4474e5744d9d61ca02ce0a" "num_of_nat 0xd30608bf3293de46837be9e24fe9544b2aebb4440cb811bb1f1e07c5621ff7e4" "num_of_nat 0x709b24bd995bb65282ccd5840051cfa7d36959226437ded1d1d111a1c8afb50a"
      "num.One" "num.One" "num.One" "num_of_nat 2" "num_of_nat 2" "num.One"
      "num_of_nat 0xe7fcdf0636c993f16e2ab89406bdc6d1e90884cbdd9995d6619cf13f6e0608e6" "num_of_nat 0x15ff8dcf52fc946582bb199c5b4ed97f604c84b532691aa177eb483181ee5716" _ _
      "num_of_nat 0xd65995e50dc873997d5084a93e302d6b3c6811bbfeb59739a85a87fd81ac6ccc"
      "num.One" "num_of_nat 2" "num_of_nat 2" "num.One" "num_of_nat 2" "num.One" "num.One" "num_of_nat 2" "num_of_nat 2" "num.One"])
    ((simp only: cert_eval; fail) | simp)+

lemma order_96: "point_at (num_of_nat 0x6fc000fe55ba9d6c19f591705b3262baa7159a1654b3ed4be75d76384b2bdc9d) (num_of_nat 0x9bb1ca70dd380e563a0b6cb93de6c8b3d0c617f3899526960ba2114d67e30ede) (cm 0x610da4434fa8d79bd0d921c9 (- 0x1c886fdac021d1050dea8ff52))"
  by (rule double_add_cm [OF order_95 gen_1, of
      "num_of_nat 0xf77ff8a0377fe501e1f9592705a7a1f8829230a8eab24b6acedf067661eec2a3" "num_of_nat 0xc8d022fdbb61246c3a463b9daa359f9f22151de00414b37ed28bf536831595a" "num_of_nat 0x329e3078d2da2a0178f3c50ebb30a92f8cb7f02efff16546e1516dbd120f036e"
      "num.One" "num_of_nat 2" "num.One" "num_of_nat 2" "num_of_nat 2" "num.One"
      "num_of_nat 0x4fa03d65ef82aca8fab344600daebfdef351dc03432a7827a9c20d26a2fa4db6" "num_of_nat 0x93d6d7e48b7fcc992f464e664ea45aabd21264965393eae25c370d84ccbdcaf1" _ _
      "num_of_nat 0x127e6ce06ca2393e59b177fe6dad0653d8f4321bee67f022a3b604ab69dd7487"
      "num.One" "num.One" "num.One" "num.One" "num_of_nat 2" "num.One" "num.One" "num.One" "num_of_nat 2" "num.One"])
    ((simp only: cert_eval; fail) | simp)+

lemma order_97: "point_at (num_of_nat 0x9946417f6af5d4948841a2e0a96704f6422eeed6a50b94ad8c6df40c1d0ae838) (num_of_nat 0x70e0be86de0b7cc50e825600e4af80735669778a6facdfcc91309aabc8fc6cfa) (cm 0xc21b48869f51af37a1b24392 (- 0x3910dfb58043a20a1bd51fea4))"
  by (rule double_cm [OF order_96, of
      "num_of_nat 0x8a04968e57a999cb5982a6b33922ade2410580a4576e4fdc128cb13e5cdde3c9" "num_of_nat 0xd679bf7eeac4c8d791b3ee8fb1cb5dc464e6ab3fafa8589e5aef822b2e20f094" _ _
      "num.One" "num.One" "num_of_nat 2" "num.One" "num.One" "num_of_nat 2" "num.One"])
    ((simp only: cert_eval; fail) | simp)+

lemma order_98: "point_at (num_of_nat 0x14e6ded583e75b92afabc7b6fc22c87557ca241045d1f39cb95b8be88d32f13a) (num_of_nat 0x403e4b4e2c0fa80bee310cce53799f75c27832f9aa3206ade0227f81d77ca0e1) (cm 0x18436910d3ea35e6f43648725 (- 0x7221bf6b0087441437aa3fd48))"
  by (rule double_add_cm [OF order_97 gen_1, of
      "num_of_nat 0xe07824ff8ee6e717cd5ebfb525200610c06d0e0488c2942bcd848d4df9ed2b8f" "num_of_nat 0xd122ff0c89ce93c581e4d20f48a95f8981363ce26537921c2221f602c014c2c1" "num_of_nat 0xff1092a344def8ff33d14405805bb82d59e8b26f8f4214b60870c628173835bc"
      "num.One" "num_of_nat 2" "num.One" "num_of_nat 2" "num_of_nat 3" "num.One"
      "num_of_nat 0x9a35aedc2616db9554705edb290b4cc8e8463c6715c97ff783fd2de305d2aeab" "num_of_nat 0x645541e874a42a0cd1c989c34df74f8fcc5f7518b88172f88f786235e420ac43" _ _
      "num_of_nat 0x845f62a9e70e7901d895db29ad443c80ea64cac65f39a110d31268238fd7f6fe"
      "num.One" "num_of_nat 2" "num.One" "num.One" "num_of_nat 2" "num.One" "num.One" "num.One" "num.One" "num.One"])
    ((simp only: cert_eval; fail) | simp)+

lemma order_99: "point_at (num_of_nat 0x15e57e20b8ff483dc36528fca6f6d7c7111d74229f51791e7d74fb3e58fbeec0) (num_of_nat 0x6625c73849fe822f998e02531e32cb1cedb4e2ed6b484b15944a29fa06335368) (cm 0x3086d221a7d46bcde86c90e49 (- 0xe4437ed6010e88286f547fa91))"
  by (rule double_add_cm [OF order_98 gen_w2, of
      "num_of_nat 0xb4add7c1e49bd0394fb2d2fc9ec6095e1e719b0e0d49f9fc44f652765b1c5fc1" "num_of_nat 0xd5f446318b3c3315bf57f4601cf5587b61da0c650db83e121c2356c0e121b719" "num_of_nat 0x94dcd6954cb0c2fc304228e0d5b4a0e705d550ea9e12166f9d8244ec27637f51"
      "num.One" "num.One" "num.One" "num.One" "num_of_nat 2" "num.One"
      "num_of_nat 0x800a0840373698967f699ed6266e278e51f4d325a7bfdd2d1bd946fb65cf6e18" "num_of_nat 0x335c90a81dd5f12b3b58e368ec7864af7caa6221b1e0b3f54b49c7bf3a0e6e05" _ _
      "num_of_nat 0xff0160b4cae81354ec469eba552bf0ae46acafeda6807a7e3be690a93436fea9"
      "num.One" "num_of_nat 2" "num.One" "num.One" "num.One" "num.One" "num.One" "num_of_nat 2" "num.One" "num.One"])
    ((simp only: cert_eval; fail) | simp)+

lemma order_100: "point_at (num_of_nat 0x6808e90399c0e6bdef4357b1cb487d564f141e047e2f977c442f9629403ed8d1) (num_of_nat 0xcd4a251e1813590255499cb231482c6041de905147f7cb8d1753da128c8ff651) (cm 0x610da4434fa8d79bd0d921c92 (- 0x1c886fdac021d1050dea8ff522))"
  by (rule double_cm [OF order_99, of
      "num_of_nat 0xf0d72e3014739a26e0d6b0dd504e6d2e06a915973eb44c5e15d5be2ebcb0e773" "num_of_nat 0xaddc951d1f3e617fd421d14adbae5a70c209561e2121e1a23945651418bd121e" _ _
      "num_of_nat 2" "num.One" "num.One" "num.One" "num.One" "num_of_nat 2" "num.One"])
    ((simp only: cert_eval; fail) | simp)+

lemma order_101: "point_at (num_of_nat 0x95823f1711b944e2a9e94e6fa935b28e60d7a89a9d34d2623a08cc31c48d0072) (num_of_nat 0x22658a561e7554967d2997d002bd7e2265bb972c9ec7cbca1babbeb8dab596b9) (cm 0xc21b48869f51af37a1b243924 (- 0x3910dfb58043a20a1bd51fea43))"
  by (rule double_add_cm [OF order_100 gen_w, of
      "num_of_nat 0x54a3f9e603df31c9bbbdab04cb47a5cf3814260200e65211638c0a1ac079b6fa" "num_of_nat 0x387a49a8a8420337617207b0d66eeb238716fdad161491edc31102ac09e707a9" "num_of_nat 0x50b65cb2d29ea6fd486d26e3d223ac5de99311094b599377afd625551ec2d628"
      "num.One" "num.One" "num.One" "num_of_nat 2" "num_of_nat 2" "num.One"
      "num_of_nat 0x17528c50c7223fc0a6d630cdf924d0f865810cfb32d60404945970d4217c02a9" "num_of_nat 0x2cbcca98ac5c6e95a71f67fe4d3379e5192551f9f653838b42751dfa1e2ed042" _ _
      "num_of_nat 0xd286a9ec8807a1db455a09422212cac7ee3c7569e0fac51a0a26c9f67bb1d48e"
      "num.One" "num.One" "num_of_nat 2" "num.One" "num_of_nat 2" "num.One" "num.One" "num_of_nat 2" "num.One" "num.One"])
    ((simp only: cert_eval; fail) | simp)+

lemma order_102: "point_at (num_of_nat 0xe1d176373b8ee361b6b23220f7ed03af2b5647fd82aeab1313f6c0a5c1c44da7) (num_of_nat 0x414d830cc5bd025300cc5aa71d48a14a723725e791391ffd7b6b6327cbf2d0d8) (cm 0x18436910d3ea35e6f436487249 (- 0x7221bf6b0087441437aa3fd486))"
  by (rule double_add_cm [OF order_101 gen_1, of
      "num_of_nat 0xe43c2767e82376c9abb7142625515878a1c45440909956771fe9b528526b1355" "num_of_nat 0xb432284dc250e43b76180824eff3885fd28a55c241a24c00a642a4063471de64" "num_of_nat 0xe6fe8864c2d46e9a3762c0c51145cee7258d220f12d9339f73b8d0761cbb8e4f"
      "num.One" "num_of_nat 2" "num.One" "num.One" "num_of_nat 2" "num.One"
      "num_of_nat 0xae83b6b24ee4d64872868daa97efe3a73b4a868b8a5b9ec2c64ffbbaa7d16e52" "num_of_nat 0x1017cf88caf9333c3961f76d24961781eea34bf3e4839e817fd42a3e543e9dfd" _ _
      "num_of_nat 0xb3b0c8dfd62a6180f3371c4eb148aedf3581609d1a86274f26120b8b02c8aefa"
      "num.One" "num_of_nat 2" "num.One" "num.One" "num_of_nat 3" "num.One" "num.One" "num_of_nat 2" "num.One" "num.One"])
    ((simp only: cert_eval; fail) | simp)+

lemma order_103: "point_at (num_of_nat 0xf05e795b348992a7fe4e7d04a4a8c1e9efbe1c9e993893571eaded32fca8c859) (num_of_nat 0x9f5ffba2a3bf78f8f88d4fcebe6ea5b9d8ca7336f2ccbf8d580c6a9926cf7346) (cm 0x3086d221a7d46bcde86c90e492 (- 0xe4437ed6010e88286f547fa90b))"
  by (rule double_add_cm [OF order_102 gen_w, of
      "num_of_nat 0xdadb6cb262113525f44ed0959ea31f765bd1fc08fc673e7a93c4df9d3ef43e53" "num_of_nat 0x66ddd41bb9427d3466b97e4f2e5ad59a189105b8a74f822776d800c71ca7298d" "num_of_nat 0xe57e52622ad01085a7d6c2e25d43353eae1fe6bc381c925be2b21287dce1dd0b"
      "num.One" "num_of_nat 2" "num.One" "num.One" "num_of_nat 3" "num.One"
      "num_of_nat 0xfc5323d510bed2dc0edb6f3e9aa9ce707d3661414a9218b73144ae1ce4e26ccb" "num_of_nat 0xd3b009492dada8305e3a36fc990678060ece56b77e338a1e77d6772d9f76370e" _ _
      "num_of_nat 0xf172fcdc070550b9b863b51c534441c53b982b5ee97617bbf548d371c51b817d"
      "num.One" "num_of_nat 2" "num.One" "num.One" "num_of_nat 3" "num.One" "num.One" "num_of_nat 2" "num.One" "num.One"])
    ((simp only: cert_eval; fail) | simp)+

lemma order_104: "point_at (num_of_nat 0xdb80219eac1bf30ca73bf68cfcdc9c3790934b973d4c21091c32a9c879ee666e) (num_of_nat 0x2c7bfb7d26a034a1b254b11fb43ddb37d4f214c6b92b54a2697276e7c4cf2516) (cm 0x610da4434fa8d79bd0d921c925 (- 0x1c886fdac021d1050dea8ff5216))"
  by (rule double_add_cm [OF order_103 gen_1, of
      "num_of_nat 0x895fed23c55329045751e59129de491d12dde03c949595823b4494271a4f4b6e" "num_of_nat 0x2acd0df48ff1b352f3d924377a1f7904e748c516d693adcc077c6d9ecd1bfe15" "num_of_nat 0xcce8a1386f0558981a9f5b968ac848c0c7fec5d1fdf8c917648a251df5da347b"
      "num.One" "num_of_nat 2" "num.One" "num_of_nat 2" "num_of_nat 3" "num.One"
      "num_of_nat 0x2375d822c5843a0fe3af216e19e0792927bf56cc9b3fca3fba23c81506ce93de" "num_of_nat 0x19f3bad084a2c0a03f888162256fe1db3f20c7405df66677da437b2b99509efd" _ _
      "num_of_nat 0x14de57bc886d9f9b57128677a7cc25b25f2ad1075bec724e027b436a82ba61eb"
      "num.One" "num.One" "num_of_nat 2" "num.One" "num_of_nat 3" "num.One" "num.One" "num.One" "num.One" "num.One"])
    ((simp only: cert_eval; fail) | simp)+

lemma order_105: "point_at (num_of_nat 0x408925ffdc22d7a73ac970566f099324e52b2c9401c34e1c30f5545db9f1aa0d) (num_of_nat 0x4e34ddf0dabc588e394d6b83e7d3fe61123b2797d991ac8c0b27121afaeb3227) (cm 0xc21b48869f51af37a1b243924a (- 0x3910dfb58043a20a1bd51fea42b))"
  by (rule double_add_cm [OF order_104 gen_w, of
      "num_of_nat 0xe12cc14af184257b03c50c2999b386edf694f86f41c9c8848b88f67a86ca258c" "num_of_nat 0x9e68d68445b9e10fab15a8f2b2fa50b30450d3a606798362aa87effc16a031fd" "num_of_nat 0x6be79777f105419d66f724e0b1dc66d70ea36c383ad3c784f205e827318ab1ab"
      "num.One" "num_of_nat 2" "num.One" "num.One" "num_of_nat 3" "num.One"
      "num_of_nat 0x6f988a26bb16b16f4044d1ac4b00356081efdf5f027859842a2cc1a14863b4c3" "num_of_nat 0xb4a6c5ef32aaa765d174ee354cb6731041b91e17cc77858e902a19c6a16a167d" _ _
      "num_of_nat 0x9af6fb9ecff91b656c7286368dd30912ab681f033b88d2eceb3d556abffcbc61"
      "num.One" "num.One" "num.One" "num.One" "num_of_nat 2" "num.One" "num.One" "num.One" "num.One" "num.One"])
    ((simp only: cert_eval; fail) | simp)+

lemma order_106: "point_at (num_of_nat 0x3617011f94e8b7626b616fbcd467f816d5c38e8760e04e5b3dc1da4a0d3dfeee) (num_of_nat 0xca12f57d1f079c66e0d0082186ccb56b15dda1533c6bf412204470027136a596) (cm 0x18436910d3ea35e6f4364872494 (- 0x7221bf6b0087441437aa3fd4856))"
  by (rule double_cm [OF order_105, of
      "num_of_nat 0x54843b8e932453b121470965385e8520874de2ba7184e40761a98379130f21d5" "num_of_nat 0x10a7224e0473a2044cf6800999aa19b0e0f679e0ca0e2ffc0f3337a12acb3a74e" _ _
      "num_of_nat 3" "num.One" "num.One" "num.One" "num.One" "num_of_nat 2" "num.One"])
    ((simp only: cert_eval; fail) | simp)+

lemma order_107: "point_at (num_of_nat 0x36c4d3244f0d1f41c3bf367bf2fed4a5085a7478115477ceb10f410ef78da304) (num_of_nat 0xc2d2881436a82cecb6e38369a3a75fb0047e017bebcb907ae4ab42ea4689d735) (cm 0x3086d221a7d46bcde86c90e4928 (- 0xe4437ed6010e88286f547fa90ac))"
  by (rule double_cm [OF order_106, of
      "num_of_nat 0xdd126a127277bae737571b7da916b0dc9360ec80222ca93eec2c852c4094aeb1" "num_of_nat 0xff522dfb45db9820a7a23940e1692371cd691a0f4f8bd68c8cb2993a15b05819" _ _
      "num_of_nat 2" "num.One" "num.One" "num.One" "num.One" "num_of_nat 2" "num.One"])
    ((simp only: cert_eval; fail) | simp)+

lemma order_108: "point_at (num_of_nat 0xf9068748bb3a0751d00c1c02abc6674a898a3602c48d16f0f1c946e85b0b71da) (num_of_nat 0x3090fdd4a7b276bf14691573b0ad9c41ed80e87d2b95e414f9cb28cebc6e6da7) (cm 0x610da4434fa8d79bd0d921c9250 (- 0x1c886fdac021d1050dea8ff52158))"
  by (rule double_cm [OF order_107, of
      "num_of_nat 0x321940ee7b8a81809e95489db25eefcc12858b62fc6d9f33c2b32429af3fd69e" "num_of_nat 0x3dbe4bdb93d317eff3b31a7947386d5a7ed03e754cc760ddbf45fa259c822d59" _ _
      "num_of_nat 2" "num.One" "num_of_nat 2" "num.One" "num.One" "num.One" "num.One"])
    ((simp only: cert_eval; fail) | simp)+

lemma order_109: "point_at (num_of_nat 0x46f08b403c3c4b2db874fadcbcf0d186f7788715be6c23a27b959f390953901c) (num_of_nat 0x3c145f374b576f3ceef2672e6cad6533f4c42c0a7d9f4e36cab1f2462b63be63) (cm 0xc21b48869f51af37a1b243924a1 (- 0x3910dfb58043a20a1bd51fea42b0))"
  by (rule double_add_cm [OF order_108 gen_1, of
      "num_of_nat 0x80b7df363ea2b45a8594469322c0a3bc7911c6d8694111e868293a71bbeca1ed" "num_of_nat 0x7e7593b8c514002f723fba58d35591f6f1e6721fb772190859b493b483df6a88" "num_of_nat 0x775ca20402338a44b506aa992e7d3e58d02d7e0270ce306bd1e1c3836525ccf"
      "num.One" "num_of_nat 2" "num.One" "num.One" "num_of_nat 2" "num.One"
      "num_of_nat 0xf190bd287b16cead84bbb15918de9364fc875e229d8033ea34ab2ab024b9150b" "num_of_nat 0x4f1d81e13b46d6a0e94172e6733ac0ea0498ff7ba30e0b5ffa3f33050198d61e" _ _
      "num_of_nat 0xb215fc087efdbc2417972125eed595c39211aeed0620f34e7633a7af51b7e1be"
      "num.One" "num.One" "num.One" "num.One" "num_of_nat 2" "num.One" "num.One" "num.One" "num.One" "num.One"])
    ((simp only: cert_eval; fail) | simp)+

lemma order_110: "point_at (num_of_nat 0x9bde3ee986980d62f9dd1c56b31d918872fab40ca7c3224d5765ea532c147c73) (num_of_nat 0x43004b51eed37ae7a79603a84d1862c3cc25c9d2f854521663d45822ceba1) (cm 0x18436910d3ea35e6f43648724942 (- 0x7221bf6b0087441437aa3fd48560))"
  by (rule double_cm [OF order_109, of
      "num_of_nat 0x77028d66dd9be91c437b71f8bd8a24d53e3336fff7bf15c6a6c17e4ae037226f" "num_of_nat 0xab124c56b5a43dcabe97de8609d33ffe847dd30916a90155242fb4e4dd3f0fd8" _ _
      "num_of_nat 2" "num.One" "num_of_nat 2" "num.One" "num.One" "num.One" "num.One"])
    ((simp only: cert_eval; fail) | simp)+

lemma order_111: "point_at (num_of_nat 0xc495ab829645adb5ea6ebcd6011deab30299d7ceaf47249aa685faa6c4ddc1c0) (num_of_nat 0xe850cd699f17b56d5d631067550ba12f1676f71d1ef464e811e541e6381b1fd2) (cm 0x3086d221a7d46bcde86c90e49285 (- 0xe4437ed6010e88286f547fa90ac0))"
  by (rule double_add_cm [OF order_110 gen_1, of
      "num_of_nat 0xdde027957344ae495bc3463f1b69797e8fa148ce860b068c028c9706eae39754" "num_of_nat 0xab8633414abaad3498cd22af136a77565b8e4ff2c8c2367c70404623124d2af0" "num_of_nat 0x1c44d6eb487f8299849037d127f3cf0275722581b7c28b7e380591bbc6a296d"
      "num.One" "num_of_nat 2" "num.One" "num.One" "num_of_nat 2" "num.One"
      "num_of_nat 0x9a19f17ad2101539619418d9a09e54984ba391b48c46f99573e591376faa5306" "num_of_nat 0xff8b4e6ee9076cffdb993d3d5ebaa53120efedfd69bdc214955bb2f9a245b06e" _ _
      "num_of_nat 0xd7489366f0525fad0f6e5f80b1ffa6d57060dc3df87bfdb2b0dfefab6736b6e2"
      "num.One" "num.One" "num.One" "num.One" "num_of_nat 2" "num.One" "num.One" "num_of_nat 2" "num.One" "num.One"])
    ((simp only: cert_eval; fail) | simp)+

lemma order_112: "point_at (num_of_nat 0xda6120247ca7cd64fd93af0aa682ec468d2563e96a964d04d968618c5d9483a0) (num_of_nat 0x88e6f7a9dce032e394104fc8189830a4d2c2bf32ce758646e857e87591e23bfd) (cm 0x610da4434fa8d79bd0d921c9250a (- 0x1c886fdac021d1050dea8ff521580))"
  by (rule double_cm [OF order_111, of
      "num_of_nat 0x240ebc025899b1047da1f4d83f4d38f7222208f4c6e0ad6338a4497355de8b01" "num_of_nat 0xea348b5e199de050ecdb0dcb5a9afe6c757473e544b0d795cd1d991967493a4f" _ _
      "num.One" "num.One" "num_of_nat 3" "num.One" "num.One" "num_of_nat 2" "num.One"])
    ((simp only: cert_eval; fail) | simp)+

lemma order_113: "point_at (num_of_nat 0x54ff859bf6665541b595f8a408dd5abab2a68a95faecf729cedaf6b464181dbd) (num_of_nat 0x4e3363a0a42bf1745a59de625e42d81796e41e292450be3f68caa114444f6874) (cm 0xc21b48869f51af37a1b243924a14 (- 0x3910dfb58043a20a1bd51fea42aff))"
  by (rule double_add_cm [OF order_112 gen_w, of
      "num_of_nat 0xe24bc2c520f84b22ad6d53abf00d36defa02e01d147f9c88ce533eb6a324085a" "num_of_nat 0x87b103541aeb1d08cb5901bff1a6860b220bd587df1ac3e115c936592acd995" "num_of_nat 0xa13b5cfe043b68b894fde9d20fca6b630aaf1366786965e5ed0a418b3cf5a8a9"
      "num.One" "num_of_nat 2" "num.One" "num_of_nat 2" "num_of_nat 3" "num.One"
      "num_of_nat 0x3925c326786c64ac6895c53896b880e382765082f22ce71eec5e2001209edaf7" "num_of_nat 0x566a8b67dd5ab1e126dfa9a1b6ef00e06bf692775104bc969fbe03330e252b25" _ _
      "num_of_nat 0x85619a888641782347fdb6669da5918bda7ed9536fa955db0a8d6ad7f97c65e3"
      "num.One" "num.One" "num_of_nat 2" "num.One" "num_of_nat 2" "num.One" "num.One" "num.One" "num.One" "num.One"])
    ((simp only: cert_eval; fail) | simp)+

lemma order_114: "point_at (num_of_nat 0xed9e26352430d4d0bf320d5dce3faf649e201a90e0eb36127b0dbd7801819515) (num_of_nat 0x12f50df5d460153294548497e92ce798f94fda010b84830c832e8dea94db5934) (cm 0x18436910d3ea35e6f436487249427 (- 0x7221bf6b0087441437aa3fd4855ff))"
  by (rule double_add_cm [OF order_113 gen_w2, of
      "num_of_nat 0x749530fb721cd68a49c8a20f920b7718c3953488582ef66f2f76e7aa8437333e" "num_of_nat 0x82cfa995ade7a5f7179c9f0bf1886448bd0aeffc4065e9aa301db6e8a171eaab" "num_of_nat 0xb2d68038fbbb574caea55aeb35dad2d76f45b619ebfe6425a88319705579d558"
      "num.One" "num.One" "num.One" "num_of_nat 2" "num_of_nat 2" "num.One"
      "num_of_nat 0xa2290562faaafdf506f09db8d30287e34360d47c0eee93042657dd430e9e4494" "num_of_nat 0xbd9de383d17b8c9b7d0193fe8c6f89160a48548276d97889c861183b70106a45" _ _
      "num_of_nat 0x67615f66d2358070f663eb463a9dab56148670051a01c11753cd393b629684d7"
      "num.One" "num_of_nat 2" "num.One" "num.One" "num_of_nat 2" "num.One" "num.One" "num_of_nat 2" "num.One" "num.One"])
    ((simp only: cert_eval; fail) | simp)+

lemma order_115: "point_at (num_of_nat 0xcc52fd85317f77e7c64b67adcf02731caf4b9f2386598e499659da4f436026f) (num_of_nat 0x3798132bc8b7fa01b137d726cb20a26168c07dd21effbde0d3ea895def3be832) (cm 0x3086d221a7d46bcde86c90e49284f (- 0xe4437ed6010e88286f547fa90abfe))"
  by (rule double_add_cm [OF order_114 gen_1, of
      "num_of_nat 0x8c204049d5abe6db966e553800475ba2647be24a4ce2f2c6dee4c3e215767eb2" "num_of_nat 0x428cb125cb05abfe69ffe4a418a6719b7d682833ea379c431bafcf8fa57d344b" "num_of_nat 0x5692ec5ed0f4b56f74007658feccfcb8a9613f7eee8560de77afc0168d7496d3"
      "num.One" "num_of_nat 2" "num.One" "num.One" "num_of_nat 2" "num.One"
      "num_of_nat 0x970b39d6533c1f614b319704cf72b2abf4bedb11f265d534035dfd61740cfe42" "num_of_nat 0x2982d39f0745b82e656f583f1df58b4ad164519488d525b8419c1106f21100d3" _ _
      "num_of_nat 0xe0d8f65cd118dd5242cd56e2f14f8832d32b609ea8859d2de1a81fd30d4b92a6"
      "num.One" "num.One" "num.One" "num.One" "num_of_nat 2" "num.One" "num.One" "num.One" "num.One" "num.One"])
    ((simp only: cert_eval; fail) | simp)+

lemma order_116: "point_at (num_of_nat 0x66c0d568756e2d839380e376c052c3a0a2595785c695745dc1793e295af364ff) (num_of_nat 0x7d947de7511fe56514ae49622a1c152bbf3cc5d4ef61d03642a91bc7cb5d4299) (cm 0x610da4434fa8d79bd0d921c92509e (- 0x1c886fdac021d1050dea8ff52157fc))"
  by (rule double_cm [OF order_115, of
      "num_of_nat 0x59caacdaf2ef28f60751934e81218d8a717d0cffdff81793427e110b11f754fd" "num_of_nat 0xa6045a6fdda9c9fae8e3d3041c9d6391289b626c71d02486d7ec5f7a9942999f" _ _
      "num_of_nat 3" "num.One" "num.One" "num.One" "num.One" "num.One" "num.One"])
    ((simp only: cert_eval; fail) | simp)+

lemma order_117: "point_at (num_of_nat 0x3e7cf06a7ca56ba14b381fe56695c71ed325c9d6b9ab292e4f8530f34077bf7e) (num_of_nat 0x3afb1c4ec0213d9786f8372726b0e7b3fc37bf0cfaee0a4c7c8b1fd7361a740) (cm 0xc21b48869f51af37a1b243924a13b (- 0x3910dfb58043a20a1bd51fea42aff9))"
  by (rule double_add_cm [OF order_116 gen_w2, of
      "num_of_nat 0x62d3e12ef314fe486bddb73cda960e32d3e267988c86793b3cd8a0358d5bebfc" "num_of_nat 0xc5c10646dda56832d11035bc498be81e9ea563686b3b1a8ca345965595a035be" "num_of_nat 0xc307afb44a1b6725a2dd2c18f75122cee548876cf89836cea85f0ef28d9efea9"
      "num.One" "num.One" "num.One" "num_of_nat 2" "num_of_nat 2" "num.One"
      "num_of_nat 0xa3b925b42b52c65df0a3b75dc901a0d1bd10d018cdfd3d8f191a2f35cd546285" "num_of_nat 0x56a314c93c1dcdbf0a1afbca87bb6f541beaf4da48ef753569ffd6a3bdc40160" _ _
      "num_of_nat 0x2843e4fdf8c8c1e24848c39159bcfc81cf338daf0cea4b2f71f40d361a7ba581"
      "num.One" "num_of_nat 2" "num.One" "num.One" "num_of_nat 2" "num.One" "num.One" "num.One" "num.One" "num.One"])
    ((simp only: cert_eval; fail) | simp)+

lemma order_118: "point_at (num_of_nat 0xcbf33a18a763ef8f35b2b6e64eb49d825409e36141aa371f00d059372de70994) (num_of_nat 0x9e74683ca71ba2b2bb21afb3a13ca45d0f168c88371999c7ddc9996974ca0427) (cm 0x18436910d3ea35e6f4364872494276 (- 0x7221bf6b0087441437aa3fd4855ff2))"
  by (rule double_cm [OF order_117, of
      "num_of_nat 0x236c8c1fb436c162e3b1a7d6f1df28a361d349b60f26cbc2fd2e97903e55f3ca" "num_of_nat 0x7289b651d5417c12158568ff17e1299c7f1be6757800f20f4eb4d7bb1290b219" _ _
      "num_of_nat 3" "num.One" "num_of_nat 2" "num.One" "num.One" "num.One" "num.One"])
    ((simp only: cert_eval; fail) | simp)+

lemma order_119: "point_at (num_of_nat 0x55b0234f41a1c8f24f9945d78fca03e59855555dc9e1f6eec7c1e7a2426339e8) (num_of_nat 0x15f46c42f28eaffcf8aaf8e663298063eaa03043aa1eecfe7af8e1ceeb32d550) (cm 0x3086d221a7d46bcde86c90e49284eb (- 0xe4437ed6010e88286f547fa90abfe5))"
  by (rule double_add_cm [OF order_118 gen_w2, of
      "num_of_nat 0xfda17c7ec11f3c3cc9abe3cd4c3434512231dbbd1171b679fd818526ba684396" "num_of_nat 0x3243ccfb7552a518e4c3bbd6cb3f346c4edb8de4466ef62beac1f59def783b17" "num_of_nat 0xece77b35621877afb51196650fac11cde18875972ddeb0435da73a0f706000b2"
      "num.One" "num_of_nat 2" "num.One" "num_of_nat 2" "num_of_nat 3" "num.One"
      "num_of_nat 0xdf0bbee3454b77df80a120813f088bb472816dca13cb86dba3291f26bd870511" "num_of_nat 0x573236e383e4709323d04598da4dc136aef2104f49123ea8545c8c3c747a10db" _ _
      "num_of_nat 0x764316c965c2269ce619710ebeea999cbbb48e0377c84030390e7194eb83cfac"
      "num.One" "num_of_nat 2" "num_of_nat 2" "num.One" "num_of_nat 3" "num.One" "num.One" "num.One" "num.One" "num.One"])
    ((simp only: cert_eval; fail) | simp)+

lemma order_120: "point_at (num_of_nat 0x3b63cb0d5633980eaa17f4c03b2cfdff1a8b0ee22b10a708f741581e601ad550) (num_of_nat 0x32f9a1383a4786802822fc0d47c31aac458395a41aa08f80bba0433f0d772e1e) (cm 0x610da4434fa8d79bd0d921c92509d6 (- 0x1c886fdac021d1050dea8ff52157fca))"
  by (rule double_cm [OF order_119, of
      "num_of_nat 0x64bb527a289dda1f502b7b0b9670f8d17f3683deaa9380df75afc92123a3d7e9" "num_of_nat 0x11a4c5841eb6e30e3a5815117549d05e67dca467b9ed14fe5d0808f82e24860c7" _ _
      "num_of_nat 3" "num.One" "num.One" "num.One" "num.One" "num.One" "num.One"])
    ((simp only: cert_eval; fail) | simp)+

lemma order_121: "point_at (num_of_nat 0xc8c5876b3696f9931c97fa9dd35d761e5c1a8fe9eda5bf111c77fed425057c63) (num_of_nat 0x98dfef978a5caf7932adba11bd466950545e6fef5d70831b2a644f699f1a0ec5) (cm 0xc21b48869f51af37a1b243924a13ac (- 0x3910dfb58043a20a1bd51fea42aff93))"
  by (rule double_add_cm [OF order_120 gen_w, of
      "num_of_nat 0x814917dc476c807900e90df65b6325266c9d352454054284b07a4825a09dba7b" "num_of_nat 0x71ff9ae89d5a557562527ec4ae137d91e7415470d929627c1e13291d1a26caed" "num_of_nat 0x62cfaf22fb96dac89613fc9fe3442d826b5a8764d412a0c17c20143ca6bea861"
      "num.One" "num.One" "num.One" "num.One" "num_of_nat 2" "num.One"
      "num_of_nat 0xd8941bea5a9cbd461403f82057e8d07caf30877d56fe06477b2143e0b95c291e" "num_of_nat 0xf885465247bb3ca7b4b698f30f65fc2920d22e1da2359757da534e4abe50a309" _ _
      "num_of_nat 0x729e43a21f9c9e7b8d7ffa2267cf87e0be707ef83d6ae7f7dac959493b15551c"
      "num.One" "num_of_nat 2" "num.One" "num.One" "num_of_nat 2" "num.One" "num.One" "num_of_nat 2" "num.One" "num.One"])
    ((simp only: cert_eval; fail) | simp)+

lemma order_122: "point_at (num_of_nat 0xeb42d690ec70f77a451d0508cb8b3a4701a090279af12a1b989deb1dc25e2f2a) (num_of_nat 0xd192843e022c372be25fa56cb867c7880dbebdf9ebfab4c0d643d202bb11d1ed) (cm 0x18436910d3ea35e6f43648724942759 (- 0x7221bf6b0087441437aa3fd4855ff26))"
  by (rule double_add_cm [OF order_121 gen_1, of
      "num_of_nat 0xb0f8df13c345c219390867f7fb2994e8a6816cf1402869c83d7a8285f1f29764" "num_of_nat 0xc233ffcafd1e8a8135c32a7742e953c3170852ade9f41455b71a17747714d03f" "num_of_nat 0x7f6847779ef509b63224c291d846ee2cf78874956543e807eb9cc56272b64546"
      "num.One" "num_of_nat 2" "num.One" "num_of_nat 2" "num_of_nat 2" "num.One"
      "num_of_nat 0x495d3ff397a1efdcea73380bfb1687f164921b548861d70930db3971b24f371d" "num_of_nat 0x5d102251f0e08fc52238165b5bb51e2facfd3cd29175b661cf567d75419fd0f3" _ _
      "num_of_nat 0xdd82b0da4a260218d77af59507d23bd75a79ffc252b494f583da13b562a74968"
      "num.One" "num.One" "num_of_nat 2" "num.One" "num_of_nat 3" "num.One" "num.One" "num_of_nat 2" "num_of_nat 2" "num.One"])
    ((simp only: cert_eval; fail) | simp)+

lemma order_123: "point_at (num_of_nat 0x36bd272cafd8e5ba6e8abbc9d9ed05fde8e39908f5e5f1240932cfbf35877771) (num_of_nat 0x8fe40ca9d5c7571a64770dd82fc440cf88448bc142edb72a4d8679777c8fddc) (cm 0x3086d221a7d46bcde86c90e49284eb2 (- 0xe4437ed6010e88286f547fa90abfe4c))"
  by (rule double_cm [OF order_122, of
      "num_of_nat 0xbdc82178c7f86e705c142854815d49e29fa3dc0a0050c0ae2f665a34378a04f4" "num_of_nat 0x1b485af643c9811bfd692493ef19e344918bcf71ea50b38f78f6b1b5d8cd6b3e8" _ _
      "num_of_nat 2" "num.One" "num_of_nat 3" "num.One" "num.One" "num.One" "num.One"])
    ((simp only: cert_eval; fail) | simp)+

lemma order_124: "point_at (num_of_nat 0x2e73bd84a08c41c3da360726f11f392b43f1c132af4968be1b88cae3528153ff) (num_of_nat 0xee61ded1204764e55d463c21e73301ec749aa9e846104877a78401e1f68bfad2) (cm 0x610da4434fa8d79bd0d921c92509d63 (- 0x1c886fdac021d1050dea8ff52157fc98))"
  by (rule double_add_cm [OF order_123 gen_m1, of
      "num_of_nat 0x43013f524a03d5f1e715a6cbf49a050919b863d237e837b550bfb19be170a027" "num_of_nat 0xec1bd1bdb7075f12629008abe51c1828d6786a0f44a3b13e49b98d85f6da6621" "num_of_nat 0xc0627a1e5ca592325144bc0d28a450de00c12673c74dfdc6624034a746d6ab40"
      "num.One" "num.One" "num.One" "num.One" "num_of_nat 2" "num.One"
      "num_of_nat 0x765aad0e533353881d45ffbcb148b51fe82272952e97f35da6f29b16eeb0c860" "num_of_nat 0x5a66c7dfda0d6738038b6740607f1cbc3079fb5d24cd382a578ff606393be4dd" _ _
      "num_of_nat 0x84969a80f4ca3f69454b4a2e8cdccd2a4f1d7d6469c8865edaa04dbe3062372"
      "num.One" "num_of_nat 2" "num.One" "num.One" "num_of_nat 2" "num.One" "num.One" "num.One" "num.One" "num.One"])
    ((simp only: cert_eval; fail) | simp)+

lemma order_125: "point_at (num_of_nat 0xee38067db0c7811d0a5b131dde99217caeb39cc3bf3ae9ed8690e8c13a3991b7) (num_of_nat 0x8ebbbff6e6ddd78cf327dc85b6f0145d501c2d82833eec943681bc61eccceeda) (cm 0xc21b48869f51af37a1b243924a13ac5 (- 0x3910dfb58043a20a1bd51fea42aff931))"
  by (rule double_add_cm [OF order_124 gen_w2, of
      "num_of_nat 0x9b20f912c7f6ea082528938ca9c998a83249fdeba3d284dae2c9137b95cdfcfc" "num_of_nat 0xc7f54aa51eeb17455e20c27365811b740e498375c73dfd3f62df5ffe05b91713" "num_of_nat 0xc2f6e9b0348b72cc45937016d2c4a8d98bce85a33601eb6ace0bbb800ebca12e"
      "num.One" "num.One" "num.One" "num_of_nat 2" "num_of_nat 2" "num.One"
      "num_of_nat 0x6b7cd3d46c00cef794a297101e5a9051b8233b8f79477d534d7d0f6243c4af00" "num_of_nat 0xf29aa882cf72cc7c42eddcc07051a7731b6c57f7d62a8c83afdf53aadd59f79b" _ _
      "num_of_nat 0x403bb706efc4c0a6cfdaf409128617ae953e246ef00e7ed094f7e2211847be77"
      "num.One" "num_of_nat 2" "num_of_nat 2" "num.One" "num_of_nat 2" "num.One" "num.One" "num_of_nat 2" "num_of_nat 2" "num.One"])
    ((simp only: cert_eval; fail) | simp)+

lemma order_126: "point_at (num_of_nat 0xe484db4013e80e83052b1267603def814791291a8a098469934ed0bc5f7e2739) (num_of_nat 0xc0c686408d517dfd67c2367651380d00d126e4229631fd03f8ff35eef1a61e3c) (cm 0x18436910d3ea35e6f43648724942758a (- 0x7221bf6b0087441437aa3fd4855ff262))"
  by (rule double_cm [OF order_125, of
      "num_of_nat 0xe1d301976fb399add38a5dd05f54cb8db6a6e85c3fc58875514735e895da7af6" "num_of_nat 0x109b32b3d9cdf729a053000b67e5b31fb672273a935316583f3421803dabb66ad" _ _
      "num.One" "num.One" "num_of_nat 3" "num.One" "num.One" "num_of_nat 2" "num.One"])
    ((simp only: cert_eval; fail) | simp)+

lemma order_127: "point_at (num_of_nat 0xc994b69768832bcbff5e9ab39ae8d1d3763bbf1e531bed98fe51de5ee84f50fb) (num_of_nat 0x483ada7726a3c4655da4fbfc0e1108a8fd17b448a68554199c47d08ffb10d4b8) (cm 0x3086d221a7d46bcde86c90e49284eb14 (- 0xe4437ed6010e88286f547fa90abfe4c4))"
  by (rule double_cm [OF order_126, of
      "num_of_nat 0x968c0ffb15f4a01415d996da8f13efb2fba8e419d3a2337e2ba82987c6a62c49" "num_of_nat 0x11af024a8ab64e2b705cc77b3c5551dadd15569fc36ed96d094fcf25c772ed26d" _ _
      "num_of_nat 2" "num.One" "num_of_nat 3" "num.One" "num.One" "num_of_nat 2" "num.One"])
    ((simp only: cert_eval; fail) | simp)+

lemma cm_zero: "cm 0x3086d221a7d46bcde86c90e49284eb15 (- 0xe4437ed6010e88286f547fa90abfe4c3) = 0"
proof -
  have "point_of (cm 0x3086d221a7d46bcde86c90e49284eb14 (- 0xe4437ed6010e88286f547fa90abfe4c4)) = point_of (- cm 1 1)"
    using order_127 gen_w2 cm_minus [of 1 1] by (simp add: point_at_def)
  then have "cm 0x3086d221a7d46bcde86c90e49284eb14 (- 0xe4437ed6010e88286f547fa90abfe4c4) + cm 1 1 = 0" by (simp add: point_of_inject)
  then show ?thesis using cm_add [of "0x3086d221a7d46bcde86c90e49284eb14" 1 "- 0xe4437ed6010e88286f547fa90abfe4c4" 1] by simp
qed

subsection \<open>The number of points\<close>

lemma cm_norm:
  assumes "cm a b = 0"
  shows "zmul (a * a - a * b + b * b) gen = 0"
proof -
  have 0: "zmul a gen + zmul b (phi gen) = 0" using assms by (simp only: cm_def)
  have p2: "phi (phi gen) = - (gen + phi gen)" using phi_sum [of gen] by (metis add_eq_0_iff)
  have 1: "zmul a (phi gen) + zmul b (phi (phi gen)) = 0"
    using arg_cong [OF 0, of phi] by (simp add: phi_add phi_zmul)
  have "phi (phi (phi gen)) = - (phi gen + phi (phi gen))" using phi_sum [of "phi gen"] by (metis add_eq_0_iff)
  then have "phi (phi (phi gen)) = gen" unfolding p2 by simp
  then have 2: "zmul a (phi (phi gen)) + zmul b gen = 0"
    using arg_cong [OF 1, of phi] by (simp add: phi_add phi_zmul)
  have "zmul (a * a - a * b + b * b) gen =
      zmul a (zmul a gen + zmul b (phi gen)) + zmul b (zmul a (phi (phi gen)) + zmul b gen)"
    unfolding p2 by (simp add: zmul_add zmul_diff zmul_distrib zmul_minus zmul_diff_right zmul_mult [symmetric] mult.commute [of b a])
  then show ?thesis unfolding 0 2 by simp
qed

lemma zmul_n_gen: "zmul secp256k1_n gen = 0"
proof -
  have "secp256k1_n = 0x3086d221a7d46bcde86c90e49284eb15 * 0x3086d221a7d46bcde86c90e49284eb15 -
      0x3086d221a7d46bcde86c90e49284eb15 * (- 0xe4437ed6010e88286f547fa90abfe4c3) +
      (- 0xe4437ed6010e88286f547fa90abfe4c3) * (- 0xe4437ed6010e88286f547fa90abfe4c3)"
    by (simp add: secp256k1_n_def)
  then show ?thesis using cm_norm [OF cm_zero] by (simp only:)
qed

lemma card_gfp: "card (UNIV :: gfp set) = nat secp256k1_p" "finite (UNIV :: gfp set)"
  using type_definition.card [OF type_definition_gfp] finite_imageI [of "{0..<secp256k1_p}" Abs_gfp] type_definition.univ [OF type_definition_gfp]
  by (simp_all del: finite_imageI)

lemma epoint_same_x: "point_of P = Pt x y \<Longrightarrow> point_of Q = Pt x z \<Longrightarrow> Q = P \<or> Q = - P"
proof -
  assume p: "point_of P = Pt x y" "point_of Q = Pt x z"
  then have "y = z \<or> y + z = 0" using on_curve_same_x on_curve_point_of by metis
  then have "point_of Q = point_of P \<or> point_of Q = point_of (- P)"
    by (auto simp: p point_of_uminus add_eq_0_iff)
  then show ?thesis by (simp only: point_of_inject)
qed

lemma finite_epoint: "finite (UNIV :: epoint set)" and card_epoint: "int (card (UNIV :: epoint set)) \<le> 2 * secp256k1_p + 1"
proof -
  define S where "S x = {P. \<exists>y. point_of P = Pt x y}" for x
  have S: "finite (S x) \<and> card (S x) \<le> 2" for x
  proof (cases "S x = {}")
    case False
    then obtain P where "P \<in> S x" by blast
    then have sub: "S x \<subseteq> {P, - P}" using epoint_same_x unfolding S_def by blast
    then have "card (S x) \<le> card {P, - P}" by (intro card_mono) simp_all
    also have "\<dots> \<le> 2" by (simp add: card_insert_if)
    finally show ?thesis using finite_subset [OF sub] by simp
  qed simp
  have U: "UNIV = insert 0 (\<Union>x. S x)"
    unfolding S_def using point_of_eq_Infinity by (auto, metis point.exhaust)
  have fin: "finite (\<Union>x. S x)" using S card_gfp(2) by simp
  then show "finite (UNIV :: epoint set)" unfolding U by simp
  have "card (\<Union>x. S x) \<le> (\<Sum>x\<in>UNIV. card (S x))" by (rule card_UN_le [OF card_gfp(2)])
  also have "\<dots> \<le> (\<Sum>x\<in>(UNIV :: gfp set). 2)" using S by (intro sum_mono) simp
  also have "\<dots> = 2 * nat secp256k1_p" by (simp add: card_gfp(1))
  finally have "card (\<Union>x. S x) \<le> 2 * nat secp256k1_p" .
  moreover have "card (UNIV :: epoint set) \<le> Suc (card (\<Union>x. S x))" unfolding U by (rule card_insert_le_m1) simp_all
  ultimately show "int (card (UNIV :: epoint set)) \<le> 2 * secp256k1_p + 1" using p_gt_1 by linarith
qed

text \<open>Lagrange, by adding a point to every point.\<close>

lemma zmul_card: "zmul (int (card (UNIV :: epoint set))) P = 0"
proof -
  have const: "(\<Sum>Q\<in>A. P) = zmul (int (card A)) P" if "finite A" for A :: "epoint set"
    using that by (induction A rule: finite_induct) (simp_all add: zmul_1_plus)
  have "(\<Sum>Q\<in>UNIV. Q) = (\<Sum>Q\<in>UNIV. Q + P)"
    by (rule sum.reindex_bij_betw [symmetric]) (simp add: bij_plus_right)
  also have "\<dots> = (\<Sum>Q\<in>UNIV. Q) + zmul (int (card (UNIV :: epoint set))) P"
    by (simp add: sum.distrib const [OF finite_epoint])
  finally show ?thesis by simp
qed

lemma even_card_involution:
  assumes "finite A" and "\<And>x. x \<in> A \<Longrightarrow> f x \<in> A \<and> f (f x) = x \<and> f x \<noteq> x"
  shows "even (card A)"
  using assms
proof (induction "card A" arbitrary: A rule: less_induct)
  case less
  show ?case
  proof (cases "A = {}")
    case False
    then obtain x where x: "x \<in> A" by blast
    define B where "B = A - {x, f x}"
    have fx: "f x \<in> A" "f x \<noteq> x" "f (f x) = x" using less(3) [OF x] by simp_all
    have c: "card A = card B + 2"
      using x fx less(2) card_Diff_subset [of "{x, f x}" A] card_mono [of A "{x, f x}"] by (simp add: B_def)
    have "f y \<in> B \<and> f (f y) = y \<and> f y \<noteq> y" if "y \<in> B" for y
      using less(3) [of y] that fx(3) unfolding B_def by (metis Diff_iff insert_iff empty_iff)
    then have "even (card B)" using less(1) [of B] less(2) c by (simp add: B_def)
    then show ?thesis by (simp add: c)
  qed simp
qed

lemma odd_card_epoint: "odd (card (UNIV :: epoint set))"
proof -
  have "even (card (UNIV - {0 :: epoint}))"
  proof (rule even_card_involution [where f = uminus])
    show "- x \<in> UNIV - {0} \<and> - (- x) = x \<and> - x \<noteq> x" if "x \<in> UNIV - {0 :: epoint}" for x
      using that no_point_of_order_two [of x] by (auto simp: eq_neg_iff_add_eq_0 [symmetric] neg_eq_iff_add_eq_0)
  qed (simp add: finite_epoint)
  then show ?thesis using finite_epoint card_Suc_Diff1 [OF finite_epoint, of 0] by (metis UNIV_I even_Suc)
qed

lemma prime_secp256k1_n: "prime_int secp256k1_n"
  using prime_n by (simp add: secp256k1_n_def)

lemma zmul_coprime:
  assumes "zmul a P = 0" and "zmul b P = 0" and "coprime a b"
  shows "P = 0"
proof -
  have "gcd a b = 1" using assms(3) by (rule coprime_imp_gcd_eq_1)
  then obtain u v where "u * a + v * b = 1" using bezout_int [of a b] by metis
  then have "zmul (u * a + v * b) P = P" by (simp only: zmul_1)
  then show ?thesis by (simp only: zmul_add zmul_mult assms(1,2) zmul_zero add_0_left)
qed

theorem card_curve: "int (card (UNIV :: epoint set)) = secp256k1_n"
proof -
  define N where "N = int (card (UNIV :: epoint set))"
  have "secp256k1_n dvd N"
  proof (rule ccontr)
    assume "\<not> secp256k1_n dvd N"
    then have "coprime secp256k1_n N" by (rule prime_int_coprime [OF prime_secp256k1_n])
    then have "gen = 0" by (rule zmul_coprime [OF zmul_n_gen zmul_card [of gen, folded N_def]])
    then show False using gen_nonzero by contradiction
  qed
  then obtain k where k: "N = secp256k1_n * k" by blast
  have pos: "0 < N" using finite_epoint unfolding N_def by (simp add: card_gt_0_iff)
  have "0 < k" using pos k order_bounds(3) by (simp add: zero_less_mult_iff)
  moreover have "k < 3"
  proof (rule ccontr)
    assume "\<not> k < 3"
    then have "secp256k1_n * 3 \<le> N" unfolding k using order_bounds(3) by (intro mult_left_mono) simp_all
    then show False using card_epoint unfolding N_def by (simp add: secp256k1_n_def secp256k1_p_def)
  qed
  moreover have "k \<noteq> 2" using odd_card_epoint k by (metis N_def dvd_triv_right even_of_nat)
  ultimately have "k = 1" by simp
  then show ?thesis using k by (simp add: N_def)
qed

theorem zmul_n: "zmul secp256k1_n P = 0"
  using zmul_card [of P] by (simp only: card_curve)

lemma zmul_mod_n: "zmul (k mod secp256k1_n) P = zmul k P"
proof -
  have "zmul k P = zmul (k div secp256k1_n * secp256k1_n + k mod secp256k1_n) P" by simp
  also have "\<dots> = zmul (k mod secp256k1_n) P" by (simp only: zmul_add zmul_mult zmul_n zmul_zero add_0_left)
  finally show ?thesis ..
qed

lemma zmul_cong: "j mod secp256k1_n = k mod secp256k1_n \<Longrightarrow> zmul j P = zmul k P"
  by (metis zmul_mod_n)

lemma zmul_eq_0_iff: "zmul k P = 0 \<longleftrightarrow> secp256k1_n dvd k \<or> P = 0"
proof
  assume "zmul k P = 0"
  then show "secp256k1_n dvd k \<or> P = 0"
    using zmul_coprime [of secp256k1_n P k] zmul_n prime_int_coprime [OF prime_secp256k1_n, of k] by blast
next
  assume "secp256k1_n dvd k \<or> P = 0"
  then show "zmul k P = 0" by (auto simp: zmul_mult mult.commute [of secp256k1_n] zmul_n)
qed

end
