(* ===== verification/Group_Rep.thy ===== *)
theory Group_Rep
  imports Curve_Order
begin

text \<open>
  Group elements against the group of the curve. \<open>gej_rep S P a\<close> says that the Jacobian element \<open>a\<close> stands
  for the point \<open>P\<close> after its \<open>z\<close> coordinate has been multiplied by \<open>S\<close>: the source calls this an
  isomorphic curve, and computes there to save multiplications. \<open>S = 1\<close> is the plain meaning. With these
  relations the operations of \<open>group_impl.h\<close> are the addition, doubling and negation of \<open>epoint\<close>.

  The locale \<open>shift_add\<close> is the contract of the scalar multiplications: one step multiplies by a constant,
  one adds a digit's multiple. The second half of the theory is about the tables of points that are
  linked by the ratios of their \<open>z\<close> coordinates.
\<close>

subsection \<open>Representation\<close>

definition gej_rep :: "gfp \<Rightarrow> epoint \<Rightarrow> secp256k1_gej \<Rightarrow> bool" where
  "gej_rep S P a \<longleftrightarrow> S \<noteq> 0 \<and> gej_ok a \<and> gej_abs a = scale_point S (point_of P)"

definition ge_rep :: "gfp \<Rightarrow> epoint \<Rightarrow> secp256k1_ge \<Rightarrow> bool" where
  "ge_rep S P a \<longleftrightarrow> S \<noteq> 0 \<and> ge_ok a \<and> ge_abs a = scale_point S (point_of P)"

lemma scale_point_eq_Infinity [simp]: "scale_point S P = Infinity \<longleftrightarrow> P = Infinity"
  by (cases P) simp_all

lemma gej_abs_Infinity: "gej_abs a = Infinity \<longleftrightarrow> gej_infinity a"
  by (simp add: gej_abs_def jac_def)

lemma ge_abs_Infinity: "ge_abs a = Infinity \<longleftrightarrow> ge_infinity a"
  by (simp add: ge_abs_def)

lemma gej_rep_infinity: "gej_rep S P a \<Longrightarrow> gej_infinity a \<longleftrightarrow> P = 0"
  by (simp add: gej_rep_def flip: gej_abs_Infinity)

lemma ge_rep_infinity: "ge_rep S P a \<Longrightarrow> ge_infinity a \<longleftrightarrow> P = 0"
  by (simp add: ge_rep_def flip: ge_abs_Infinity)

lemma gej_rep_on_iso: "gej_rep S P a \<Longrightarrow> on_iso S (gej_abs a)"
  by (simp add: gej_rep_def on_iso_scale)

lemma ge_rep_on_iso: "ge_rep S P a \<Longrightarrow> on_iso S (ge_abs a)"
  by (simp add: ge_rep_def on_iso_scale)

lemma gej_rep_unique: "gej_rep 1 P a \<Longrightarrow> gej_rep 1 Q a \<Longrightarrow> P = Q"
  by (simp add: gej_rep_def point_of_inject)

lemma ge_rep_unique: "ge_rep 1 P a \<Longrightarrow> ge_rep 1 Q a \<Longrightarrow> P = Q"
  by (simp add: ge_rep_def point_of_inject)

lemma gej_rep_ok: "gej_rep S P a \<Longrightarrow> gej_ok a" and gej_rep_abs: "gej_rep S P a \<Longrightarrow> gej_abs a = scale_point S (point_of P)"
  by (simp_all add: gej_rep_def)

lemma ge_rep_ok: "ge_rep S P a \<Longrightarrow> ge_ok a" and ge_rep_abs: "ge_rep S P a \<Longrightarrow> ge_abs a = scale_point S (point_of P)"
  by (simp_all add: ge_rep_def)

lemma gej_rep_set_infinity: "S \<noteq> 0 \<Longrightarrow> gej_rep S 0 secp256k1_gej_set_infinity"
  by (simp add: gej_rep_def gej_ok_def gej_abs_def secp256k1_gej_set_infinity_def)

lemma gej_rep_double: "gej_rep S P a \<Longrightarrow> gej_rep S (P + P) (fst (secp256k1_gej_double_var r a rzr))"
  using double_var_refines [OF gej_rep_ok gej_rep_on_iso, of S P a S P r rzr]
  by (auto simp: gej_rep_def padd_scale point_of_plus)

lemma gej_rep_add_var:
  assumes "gej_rep S P a" and "gej_rep S Q b"
  shows "gej_rep S (P + Q) (fst (secp256k1_gej_add_var r a b rzr))"
  using add_var_refines [OF gej_rep_ok gej_rep_ok gej_rep_on_iso gej_rep_on_iso, OF assms assms] assms
  by (auto simp: gej_rep_def padd_scale point_of_plus)

lemma gej_rep_add_ge_var:
  assumes "gej_rep S P a" and "ge_rep S Q b"
  shows "gej_rep S (P + Q) (fst (secp256k1_gej_add_ge_var r a b rzr))"
  using add_ge_var_refines [OF gej_rep_ok ge_rep_ok gej_rep_on_iso ge_rep_on_iso, OF assms assms] assms
  by (auto simp: gej_rep_def ge_rep_def padd_scale point_of_plus)

lemma gej_rep_add_ge:
  assumes "gej_rep S P a" and "ge_rep S Q b" and "Q \<noteq> 0"
  shows "gej_rep S (P + Q) (secp256k1_gej_add_ge a b)"
proof -
  have "\<not> ge_infinity b" using ge_rep_infinity [OF assms(2)] assms(3) by simp
  from add_ge_refines [OF gej_rep_ok ge_rep_ok gej_rep_on_iso ge_rep_on_iso this, OF assms(1,2,1,2)] show ?thesis
    using assms by (auto simp: gej_rep_def ge_rep_def padd_scale point_of_plus)
qed

lemma gej_rep_add_zinv:
  assumes "gej_rep S P a" and "ge_rep 1 Q b" and "fe_rep 8 S bzinv"
  shows "gej_rep S (P + Q) (secp256k1_gej_add_zinv_var r a b bzinv)"
proof -
  have S: "S \<noteq> 0" using assms(1) by (simp add: gej_rep_def)
  define B where "B = (if ge_infinity b then Infinity else jac (fe_abs (ge_x b)) (fe_abs (ge_y b)) (inverse S))"
  have "B = scale_point S (ge_abs b)"
    using S by (auto simp: B_def ge_abs_def jac_def field_simps)
  then have B: "B = scale_point S (point_of Q)" using ge_rep_abs [OF assms(2)] by simp
  then have on: "on_iso S B" using S by (simp add: on_iso_scale)
  have "fe_rep 8 (inverse (inverse S)) bzinv" using assms(3) S by simp
  from add_zinv_var_refines [OF gej_rep_ok ge_rep_ok gej_rep_on_iso this _ B_def on, OF assms(1,2,1)] S
  show ?thesis using assms(1) by (auto simp: gej_rep_def B padd_scale point_of_plus)
qed

lemma gej_rep_set_ge: "ge_rep S P b \<Longrightarrow> gej_rep S P (secp256k1_gej_set_ge b)"
  using gej_set_ge_refines [of b] by (simp add: gej_rep_def ge_rep_def)

lemma ge_rep_gen: "ge_rep 1 gen secp256k1_ge_const_g"
  by (simp add: ge_rep_def ge_const_g_ok gen_def point_of_epoint_of ge_const_g_on_curve)

subsection \<open>Negation\<close>

lemma fe_rep_weak_negate:
  assumes "fe_rep 8 x a"
  shows "fe_rep 8 (- x) (secp256k1_fe_negate (secp256k1_fe_normalize_weak a) 1)"
  by (rule fe_repI, (rule fe_rules assms | simp; fail)+)

lemma scale_point_pneg: "scale_point S (pneg P) = pneg (scale_point S P)"
  by (cases P) simp_all

lemma pneg_jac: "jac X (- Y) Z = pneg (jac X Y Z)"
  by (simp add: jac_def)

lemma gej_rep_neg:
  assumes "gej_rep S P a"
  shows "gej_rep S (- P) (secp256k1_gej_neg a)"
proof (cases "gej_infinity a")
  case True
  then show ?thesis using assms gej_rep_infinity [OF assms]
    by (simp add: gej_rep_def gej_ok_def gej_abs_def secp256k1_gej_neg_def)
next
  case False
  note a = gej_ok_finite [OF gej_rep_ok [OF assms] False]
  have "gej_ok (secp256k1_gej_neg a) \<and>
      gej_abs (secp256k1_gej_neg a) = jac (fe_abs (gej_x a)) (- fe_abs (gej_y a)) (fe_abs (gej_z a))"
    by (rule gejI [where k = 8 and l = 8 and m = 8])
      (simp_all add: secp256k1_gej_neg_def Let_def a fe_rep_weak_negate False)
  then show ?thesis using assms a(5) by (simp add: gej_rep_def pneg_jac point_of_uminus scale_point_pneg)
qed

lemma ge_rep_neg:
  assumes "ge_rep S P a"
  shows "ge_rep S (- P) (secp256k1_ge_neg a)"
proof (cases "ge_infinity a")
  case True
  then show ?thesis using assms ge_rep_infinity [OF assms]
    by (simp add: ge_rep_def ge_ok_def ge_abs_def secp256k1_ge_neg_def)
next
  case False
  note a = ge_ok_finite [OF ge_rep_ok [OF assms] False]
  have "fe_rep 8 (- fe_abs (ge_y a)) (ge_y (secp256k1_ge_neg a))"
    using fe_rep_weak_negate [OF a(2)] by (simp add: secp256k1_ge_neg_def)
  then show ?thesis using assms a False
    by (simp add: ge_rep_def ge_ok_def ge_abs_def fe_rep_def secp256k1_ge_neg_def point_of_uminus scale_point_pneg
        flip: ge_rep_abs [OF assms])
qed

subsection \<open>Conversions\<close>

text \<open>A point without its \<open>z\<close> coordinate: \<open>(x, y)\<close> is the point \<open>P\<close> scaled by \<open>T\<close>.\<close>

definition xy_rep :: "gfp \<Rightarrow> epoint \<Rightarrow> secp256k1_gej \<Rightarrow> bool" where
  "xy_rep T P a \<longleftrightarrow> T \<noteq> 0 \<and> \<not> gej_infinity a \<and> fe_magnitude 8 (gej_x a) \<and> fe_magnitude 8 (gej_y a) \<and>
     Pt (fe_abs (gej_x a)) (fe_abs (gej_y a)) = scale_point T (point_of P)"

lemma Pt_scale_jac: "S \<noteq> 0 \<Longrightarrow> Z \<noteq> 0 \<Longrightarrow> jac X Y Z = scale_point S P \<longleftrightarrow> Pt X Y = scale_point (S * Z) P"
  by (cases P) (auto simp: jac_def field_simps)

lemma gej_rep_xy:
  assumes "gej_rep S P a" and "P \<noteq> 0"
  shows "xy_rep (S * fe_abs (gej_z a)) P a"
proof -
  have fin: "\<not> gej_infinity a" using gej_rep_infinity [OF assms(1)] assms(2) by simp
  have S: "S \<noteq> 0" using assms(1) by (simp add: gej_rep_def)
  note a = gej_ok_finite [OF gej_rep_ok [OF assms(1)] fin]
  have "jac (fe_abs (gej_x a)) (fe_abs (gej_y a)) (fe_abs (gej_z a)) = scale_point S (point_of P)"
    using gej_rep_abs [OF assms(1)] a(5) by simp
  then show ?thesis using a fin S by (simp add: xy_rep_def Pt_scale_jac [OF S a(4)] fe_rep_def)
qed

lemma xy_rep_gej:
  assumes "xy_rep T P a" and "fe_rep 8 Z (gej_z a)" and "Z \<noteq> 0"
  shows "gej_rep (T / Z) P a"
proof -
  have T: "T / Z \<noteq> 0" "T / Z * Z = T" using assms by (simp_all add: xy_rep_def)
  have "jac (fe_abs (gej_x a)) (fe_abs (gej_y a)) Z = scale_point (T / Z) (point_of P)"
    using assms(1) by (simp add: Pt_scale_jac [OF T(1) assms(3), unfolded T(2)] xy_rep_def)
  then show ?thesis using assms T(1)
    by (auto simp: gej_rep_def gej_ok_def gej_abs_def xy_rep_def fe_rep_def)
qed

lemma scale_scale: "scale_point k (scale_point T P) = scale_point (T * k) P"
  by (cases P) (simp_all add: mult_ac)

lemma ge_rep_rescale:
  assumes "xy_rep T P a" and "k \<noteq> 0" and "\<not> ge_infinity b"
    and x: "fe_rep 1 (fe_abs (gej_x a) * (k * k)) (ge_x b)" and y: "fe_rep 1 (fe_abs (gej_y a) * (k * k * k)) (ge_y b)"
  shows "ge_rep (T * k) P b"
proof -
  have "ge_abs b = scale_point k (Pt (fe_abs (gej_x a)) (fe_abs (gej_y a)))"
    using x y assms(3) by (simp add: ge_abs_def fe_rep_def)
  then have "ge_abs b = scale_point (T * k) (point_of P)"
    using assms(1) by (simp only: xy_rep_def scale_scale)
  moreover have "ge_ok b" using x y fe_magnitude_mono [of 1 _ 8] by (auto simp: ge_ok_def fe_rep_def)
  ultimately show ?thesis using assms(1,2) by (simp add: ge_rep_def xy_rep_def)
qed

lemma ge_rep_zinv:
  assumes "xy_rep T P a" and "fe_rep 8 k zi" and "k \<noteq> 0"
  shows "ge_rep (T * k) P (secp256k1_ge_set_gej_zinv a zi)"
    and "fe_magnitude 1 (ge_x (secp256k1_ge_set_gej_zinv a zi))" "fe_magnitude 1 (ge_y (secp256k1_ge_set_gej_zinv a zi))"
proof -
  define b where "b = secp256k1_ge_set_gej_zinv a zi"
  have a: "fe_rep 8 (fe_abs (gej_x a)) (gej_x a)" "fe_rep 8 (fe_abs (gej_y a)) (gej_y a)"
    using assms(1) by (simp_all add: xy_rep_def fe_rep_self)
  have x: "fe_rep 1 (fe_abs (gej_x a) * (k * k)) (ge_x b)"
    unfolding b_def secp256k1_ge_set_gej_zinv_def Let_def by simp (rule fe_rules a assms(2) | simp)+
  have y: "fe_rep 1 (fe_abs (gej_y a) * (k * k * k)) (ge_y b)"
    unfolding b_def secp256k1_ge_set_gej_zinv_def Let_def by simp (rule fe_rules a assms(2) | simp)+
  have fin: "\<not> ge_infinity b" using assms(1) by (simp add: b_def secp256k1_ge_set_gej_zinv_def Let_def xy_rep_def)
  show "ge_rep (T * k) P (secp256k1_ge_set_gej_zinv a zi)"
    using ge_rep_rescale [OF assms(1,3) fin x y] by (simp add: b_def)
  show "fe_magnitude 1 (ge_x (secp256k1_ge_set_gej_zinv a zi))" "fe_magnitude 1 (ge_y (secp256k1_ge_set_gej_zinv a zi))"
    using x y by (simp_all add: b_def fe_rep_def)
qed

lemma ge_rep_xy:
  assumes "xy_rep T P a"
  shows "ge_rep T P \<lparr>ge_x = gej_x a, ge_y = gej_y a, ge_infinity = False\<rparr>"
  using assms by (simp add: xy_rep_def ge_rep_def ge_ok_def ge_abs_def)

text \<open>The ratio that a mixed addition returns in \<open>*rzr\<close>, for two points that are neither equal nor
  opposite.\<close>

lemma add_ge_var_ratio:
  assumes a: "gej_rep S P a" and b: "ge_rep S Q b" and PQ: "P \<noteq> 0" "Q \<noteq> 0" "P \<noteq> Q" "P \<noteq> - Q"
  obtains h H where "snd (secp256k1_gej_add_ge_var r a b (Some zr)) = Some h" "fe_rep 8 H h" "H \<noteq> 0"
    "fe_rep 8 (fe_abs (gej_z a) * H) (gej_z (fst (secp256k1_gej_add_ge_var r a b (Some zr))))"
proof -
  have na: "\<not> gej_infinity a" "\<not> ge_infinity b"
    using PQ gej_rep_infinity [OF a] ge_rep_infinity [OF b] by simp_all
  define X1 Y1 Z1 where "X1 = fe_abs (gej_x a)" and "Y1 = fe_abs (gej_y a)" and "Z1 = fe_abs (gej_z a)"
  define x2 y2 where "x2 = fe_abs (ge_x b)" and "y2 = fe_abs (ge_y b)"
  note af = gej_ok_finite [OF gej_rep_ok [OF a] na(1), folded X1_def Y1_def Z1_def]
  note bf = ge_ok_finite [OF ge_rep_ok [OF b] na(2), folded x2_def y2_def]
  define h where "h = secp256k1_fe_add (secp256k1_fe_negate (secp256k1_fe_normalize_weak (gej_x a)) 1)
    (secp256k1_fe_mul (ge_x b) (secp256k1_fe_sqr (gej_z a)))"
  have u: "fe_rep 1 X1 (secp256k1_fe_normalize_weak (gej_x a))" by (rule fe_rules af | simp)+
  have h: "fe_rep 3 (x2 * (Z1 * Z1) - X1) h"
    unfolding h_def by (rule negate_add [OF u], (rule fe_rules af bf | simp)+)
  have "x2 * (Z1 * Z1) - X1 \<noteq> 0"
  proof
    assume "x2 * (Z1 * Z1) - X1 = 0"
    then have x: "X1 / (Z1 * Z1) = x2" using af(4) by (simp add: field_simps)
    have "on_iso S (Pt x2 (Y1 / (Z1 * Z1 * Z1)))" "on_iso S (Pt x2 y2)"
      using gej_rep_on_iso [OF a] ge_rep_on_iso [OF b] by (simp_all add: af(5) bf(3) jac_def x)
    then have "gej_abs a = ge_abs b \<or> gej_abs a = pneg (ge_abs b)"
      using on_iso_same_x by (auto simp: af(5) bf(3) jac_def x eq_neg_iff_add_eq_0)
    moreover have "scale_point S U = scale_point S V \<longleftrightarrow> U = V" for U V
      using a by (cases U; cases V) (auto simp: gej_rep_def)
    ultimately have "P = Q \<or> P = - Q"
      unfolding gej_rep_abs [OF a] ge_rep_abs [OF b] scale_point_pneg [symmetric] point_of_uminus [symmetric]
      by (simp add: point_of_inject)
    then show False using PQ by blast
  qed
  moreover from this have "\<not> secp256k1_fe_normalizes_to_zero_var h" using fe_rep_zero_test(2) [OF h] by simp
  then have "snd (secp256k1_gej_add_ge_var r a b (Some zr)) = Some h"
    "gej_z (fst (secp256k1_gej_add_ge_var r a b (Some zr))) = secp256k1_fe_mul (gej_z a) h"
    using na by (simp_all add: secp256k1_gej_add_ge_var_def Let_def flip: h_def)
  moreover have "fe_rep 8 (Z1 * (x2 * (Z1 * Z1) - X1)) (secp256k1_fe_mul (gej_z a) h)"
    by (rule fe_repI, (rule fe_rules af h | simp; fail)+)
  moreover have "fe_rep 8 (x2 * (Z1 * Z1) - X1) h" by (rule fe_repI [OF h]) simp_all
  ultimately show ?thesis using that by (simp add: Z1_def)
qed

subsection \<open>Tables linked by ratios\<close>

text \<open>\<open>T i\<close> is the scale of the \<open>i\<close>-th entry, and \<open>zr ! Suc i\<close> the ratio of two of them.\<close>

definition linked_table :: "(nat \<Rightarrow> gfp) \<Rightarrow> (nat \<Rightarrow> epoint) \<Rightarrow> nat \<Rightarrow> secp256k1_gej list \<Rightarrow> secp256k1_fe list \<Rightarrow> bool" where
  "linked_table T Q n a zr \<longleftrightarrow> (\<forall>i<n. xy_rep (T i) (Q i) (a ! i)) \<and>
     (\<forall>i. Suc i < n \<longrightarrow> fe_rep 8 (T (Suc i) / T i) (zr ! Suc i))"

lemma table_down_rep:
  assumes "linked_table T Q n a zr" and "i < n" and "fe_rep 8 (K / T i) zi" and "K \<noteq> 0" and "i \<le> length r"
  shows "length (table_down a zr i zi r) = length r \<and>
    (\<forall>j<i. ge_rep K (Q j) (table_down a zr i zi r ! j) \<and> fe_magnitude 1 (ge_x (table_down a zr i zi r ! j)) \<and>
       fe_magnitude 1 (ge_y (table_down a zr i zi r ! j))) \<and>
    (\<forall>j. i \<le> j \<longrightarrow> table_down a zr i zi r ! j = r ! j)"
  using assms
proof (induction i arbitrary: zi r)
  case (Suc i)
  define z where "z = secp256k1_fe_mul zi (zr ! Suc i)"
  have T: "T i \<noteq> 0" "T (Suc i) \<noteq> 0" using Suc.prems(1,2) by (simp_all add: linked_table_def xy_rep_def)
  have zr: "fe_rep 8 (T (Suc i) / T i) (zr ! Suc i)" using Suc.prems(1,2) by (simp add: linked_table_def)
  have z: "fe_rep 8 (K / T i) z"
    unfolding z_def by (rule fe_repI, rule fe_rep_mul [OF Suc.prems(3) zr]) (simp_all add: T)
  have xy: "xy_rep (T i) (Q i) (a ! i)" using Suc.prems(1,2) by (simp add: linked_table_def)
  have "K / T i \<noteq> 0" using Suc.prems(4) T by simp
  note b = ge_rep_zinv [OF xy z this]
  have K: "T i * (K / T i) = K" using T by simp
  have "table_down a zr (Suc i) zi r = table_down a zr i z (r[i := secp256k1_ge_set_gej_zinv (a ! i) z])"
    by (simp add: z_def Let_def)
  moreover note Suc.IH [OF Suc.prems(1) Suc_lessD [OF Suc.prems(2)] z Suc.prems(4),
      of "r[i := secp256k1_ge_set_gej_zinv (a ! i) z]"]
  ultimately show ?case using Suc.prems(5) b [unfolded K] by (auto simp: less_Suc_eq)
qed simp

lemma set_table_gej_var_rep:
  assumes "linked_table T Q n a zr" and "0 < n" and "fe_rep 8 (T (n - 1)) (gej_z (a ! (n - 1)))" and "n \<le> length r"
  shows "\<forall>j<n. ge_rep 1 (Q j) (secp256k1_ge_set_table_gej_var r a zr n ! j)"
    and "length (secp256k1_ge_set_table_gej_var r a zr n) = length r"
proof -
  define zi where "zi = secp256k1_fe_inv (gej_z (a ! (n - 1)))"
  have zi: "fe_rep 8 (1 / T (n - 1)) zi"
    unfolding zi_def by (rule fe_repI, rule fe_rep_inv [OF assms(3)]) (simp_all add: divide_inverse)
  have xy: "xy_rep (T (n - 1)) (Q (n - 1)) (a ! (n - 1))" using assms(1,2) by (simp add: linked_table_def)
  then have T: "T (n - 1) \<noteq> 0" by (simp add: xy_rep_def)
  have last: "ge_rep 1 (Q (n - 1)) (secp256k1_ge_set_gej_zinv (a ! (n - 1)) zi)"
    using ge_rep_zinv(1) [OF xy zi] T by simp
  define r' where "r' = r[n - 1 := secp256k1_ge_set_gej_zinv (a ! (n - 1)) zi]"
  have eq: "secp256k1_ge_set_table_gej_var r a zr n = table_down a zr (n - 1) zi r'"
    using assms(2) by (simp add: secp256k1_ge_set_table_gej_var_def Let_def zi_def r'_def)
  have n: "n - 1 < n" "n - 1 \<le> length r'" using assms(2,4) by (simp_all add: r'_def)
  note d = table_down_rep [OF assms(1) n(1) zi one_neq_zero n(2)]
  show "length (secp256k1_ge_set_table_gej_var r a zr n) = length r" using d by (simp add: eq r'_def)
  show "\<forall>j<n. ge_rep 1 (Q j) (secp256k1_ge_set_table_gej_var r a zr n ! j)"
  proof (intro allI impI)
    fix j
    assume "j < n"
    then consider "j < n - 1" | "j = n - 1" by linarith
    then show "ge_rep 1 (Q j) (secp256k1_ge_set_table_gej_var r a zr n ! j)"
      using d last assms(2,4) unfolding eq by cases (auto simp: r'_def)
  qed
qed

lemma globalz_down_rep:
  assumes "linked_table T Q n a zr" and "i < n" and "i \<le> length r" and "T (n - 1) \<noteq> 0"
    and "i = n - 1 \<longrightarrow> zs = zr ! i" and "i \<noteq> n - 1 \<longrightarrow> fe_rep 8 (T (n - 1) / T i) zs"
  shows "length (globalz_down n a zr i zs r) = length r \<and>
    (\<forall>j<i. ge_rep (T (n - 1)) (Q j) (globalz_down n a zr i zs r ! j)) \<and>
    (\<forall>j. i \<le> j \<longrightarrow> globalz_down n a zr i zs r ! j = r ! j)"
  using assms
proof (induction i arbitrary: zs r)
  case (Suc i)
  define z where "z = (if Suc i \<noteq> n - 1 then secp256k1_fe_mul zs (zr ! Suc i) else zs)"
  have T: "T i \<noteq> 0" "T (Suc i) \<noteq> 0" using Suc.prems(1,2) by (simp_all add: linked_table_def xy_rep_def)
  have zr: "fe_rep 8 (T (Suc i) / T i) (zr ! Suc i)" using Suc.prems(1,2) by (simp add: linked_table_def)
  have z: "fe_rep 8 (T (n - 1) / T i) z"
  proof (cases "Suc i = n - 1")
    case True
    then show ?thesis using zr Suc.prems(5) unfolding True by (simp add: z_def True)
  next
    case False
    have "fe_rep 1 (T (n - 1) / T (Suc i) * (T (Suc i) / T i)) (secp256k1_fe_mul zs (zr ! Suc i))"
      using fe_rep_mul [OF mp [OF Suc.prems(6) False] zr] by simp
    then have "fe_rep 8 (T (n - 1) / T i) (secp256k1_fe_mul zs (zr ! Suc i))"
      by (rule fe_repI) (simp_all add: T)
    then show ?thesis using False by (simp add: z_def)
  qed
  have xy: "xy_rep (T i) (Q i) (a ! i)" using Suc.prems(1,2) by (simp add: linked_table_def)
  have "T (n - 1) / T i \<noteq> 0" using Suc.prems(4) T by simp
  note b = ge_rep_zinv(1) [OF xy z this]
  have K: "T i * (T (n - 1) / T i) = T (n - 1)" using T by simp
  have "globalz_down n a zr (Suc i) zs r = globalz_down n a zr i z (r[i := secp256k1_ge_set_gej_zinv (a ! i) z])"
    by (simp add: z_def Let_def)
  moreover have "i \<noteq> n - 1" using Suc.prems(2) by simp
  moreover note Suc.IH [OF Suc.prems(1) Suc_lessD [OF Suc.prems(2)] _ Suc.prems(4),
      of "r[i := secp256k1_ge_set_gej_zinv (a ! i) z]" z]
  ultimately show ?case using Suc.prems(3) z b [unfolded K] by (auto simp: less_Suc_eq)
qed simp

lemma globalz_set_table_gej_rep:
  assumes "linked_table T Q n a zr" and "0 < n" and "fe_rep 8 (T (n - 1)) (gej_z (a ! (n - 1)))" and "n \<le> length r"
  shows "\<forall>j<n. ge_rep (T (n - 1)) (Q j) (fst (secp256k1_ge_globalz_set_table_gej n r globalz a zr) ! j)"
    and "length (fst (secp256k1_ge_globalz_set_table_gej n r globalz a zr)) = length r"
    and "fe_rep 8 (T (n - 1)) (snd (secp256k1_ge_globalz_set_table_gej n r globalz a zr))"
proof -
  have xy: "xy_rep (T (n - 1)) (Q (n - 1)) (a ! (n - 1))" using assms(1,2) by (simp add: linked_table_def)
  then have T: "T (n - 1) \<noteq> 0" by (simp add: xy_rep_def)
  define r' where "r' = r[n - 1 := \<lparr>ge_x = gej_x (a ! (n - 1)), ge_y = gej_y (a ! (n - 1)), ge_infinity = False\<rparr>]"
  have eq: "secp256k1_ge_globalz_set_table_gej n r globalz a zr =
      (globalz_down n a zr (n - 1) (zr ! (n - 1)) r', gej_z (a ! (n - 1)))"
    using assms(2) by (simp add: secp256k1_ge_globalz_set_table_gej_def Let_def r'_def)
  have n: "n - 1 < n" "n - 1 \<le> length r'" using assms(2,4) by (simp_all add: r'_def)
  note d = globalz_down_rep [OF assms(1) n T, of "zr ! (n - 1)", simplified]
  show "length (fst (secp256k1_ge_globalz_set_table_gej n r globalz a zr)) = length r" using d by (simp add: eq r'_def)
  show "fe_rep 8 (T (n - 1)) (snd (secp256k1_ge_globalz_set_table_gej n r globalz a zr))" using assms(3) by (simp add: eq)
  show "\<forall>j<n. ge_rep (T (n - 1)) (Q j) (fst (secp256k1_ge_globalz_set_table_gej n r globalz a zr) ! j)"
  proof (intro allI impI)
    fix j
    assume "j < n"
    then consider "j < n - 1" | "j = n - 1" by linarith
    then show "ge_rep (T (n - 1)) (Q j) (fst (secp256k1_ge_globalz_set_table_gej n r globalz a zr) ! j)"
      using d ge_rep_xy [OF xy] assms(2,4) unfolding eq by cases (auto simp: r'_def)
  qed
qed

subsection \<open>Storage\<close>

definition gs_rep :: "epoint \<Rightarrow> secp256k1_ge_storage \<Rightarrow> bool" where
  "gs_rep P s \<longleftrightarrow> ge_rep 1 P (secp256k1_ge_from_storage s)"

lemma fe_magnitude_from_storage: "fe_magnitude 1 (secp256k1_fe_from_storage s)"
proof -
  have "uint (n_9 (secp256k1_fe_from_storage s)) < 2 ^ 22"
  proof -
    have "uint (s_7 s) < 2 ^ 32" using uint_lt2p [of "s_7 s"] by simp
    then have "uint (s_7 s) div 1024 < 4194304" by simp
    then show ?thesis by (simp add: secp256k1_fe_from_storage_def drop_bit_eq_div uint_div)
  qed
  then show ?thesis using secp256k1_fe_from_storage_val(2) [of s]
    by (auto simp: fe_magnitude_iff fe_limbs_def)
qed

lemma fe_from_to_storage:
  assumes "fe_magnitude 8 a"
  shows "fe_abs (secp256k1_fe_from_storage (secp256k1_fe_to_storage (secp256k1_fe_normalize a))) = fe_abs a"
proof -
  have a: "fe_magnitude 31 a" by (rule fe_magnitude_mono [OF assms]) simp
  note n = secp256k1_fe_normalize_val [OF a]
  have v: "fe_val (secp256k1_fe_from_storage (secp256k1_fe_to_storage (secp256k1_fe_normalize a))) =
      fe_val (secp256k1_fe_normalize a)"
    unfolding secp256k1_fe_from_storage_val(1)
    by (rule secp256k1_fe_to_storage_val) (use n in \<open>auto simp: fe_normalized_def secp256k1_p_def\<close>)
  then show ?thesis
    using fe_rep_abs [OF fe_rep_normalize(2) [OF fe_rep_self [OF a]]] by (simp add: fe_abs_def)
qed

lemma gs_rep_to_storage:
  assumes "ge_rep 1 P b" and "P \<noteq> 0"
  shows "gs_rep P (secp256k1_ge_to_storage b)"
proof -
  have fin: "\<not> ge_infinity b" using ge_rep_infinity [OF assms(1)] assms(2) by simp
  then have m: "fe_magnitude 8 (ge_x b)" "fe_magnitude 8 (ge_y b)"
    using ge_rep_ok [OF assms(1)] by (simp_all add: ge_ok_def)
  define c where "c = secp256k1_ge_from_storage (secp256k1_ge_to_storage b)"
  have c: "ge_x c = secp256k1_fe_from_storage (secp256k1_fe_to_storage (secp256k1_fe_normalize (ge_x b)))"
    "ge_y c = secp256k1_fe_from_storage (secp256k1_fe_to_storage (secp256k1_fe_normalize (ge_y b)))" "\<not> ge_infinity c"
    by (simp_all add: c_def secp256k1_ge_from_storage_def secp256k1_ge_to_storage_def Let_def)
  have "ge_abs c = ge_abs b" using fin m c by (simp add: ge_abs_def fe_from_to_storage)
  moreover have "ge_ok c" using c fe_magnitude_mono [OF fe_magnitude_from_storage, of 8] by (simp add: ge_ok_def)
  ultimately show ?thesis using assms(1) by (simp add: gs_rep_def ge_rep_def c_def)
qed

lemma gs_rep_nonzero: "gs_rep P s \<Longrightarrow> P \<noteq> 0"
  using ge_rep_infinity [of 1 P "secp256k1_ge_from_storage s"]
  by (simp add: gs_rep_def secp256k1_ge_from_storage_def)

lemma storage_cmov: "secp256k1_ge_storage_cmov r a (of_bool b) = (if b then a else r)"
  by (cases r; cases a) (simp add: secp256k1_ge_storage_cmov_def secp256k1_fe_storage_cmov_eq)

subsection \<open>Jacobian to affine\<close>

lemma ge_rep_set_gej:
  assumes "gej_rep 1 P a"
  shows "ge_rep 1 P (fst (secp256k1_ge_set_gej a))" and "gej_rep 1 P (snd (secp256k1_ge_set_gej a))"
    and "P \<noteq> 0 \<Longrightarrow> fe_magnitude 1 (ge_x (fst (secp256k1_ge_set_gej a))) \<and> fe_magnitude 1 (ge_y (fst (secp256k1_ge_set_gej a)))"
proof -
  define b c where "b = fst (secp256k1_ge_set_gej a)" and "c = snd (secp256k1_ge_set_gej a)"
  have "ge_rep 1 P b \<and> gej_rep 1 P c \<and> (P \<noteq> 0 \<longrightarrow> fe_magnitude 1 (ge_x b) \<and> fe_magnitude 1 (ge_y b))"
  proof (cases "P = 0")
    case True
    then have "gej_infinity a" using gej_rep_infinity [OF assms] by simp
    then show ?thesis using True
      by (simp add: b_def c_def secp256k1_ge_set_gej_def Let_def ge_rep_def gej_rep_def ge_ok_def gej_ok_def ge_abs_def gej_abs_def)
  next
    case False
    then have fin: "\<not> gej_infinity a" using gej_rep_infinity [OF assms] by simp
    note a = gej_ok_finite [OF gej_rep_ok [OF assms] fin]
    define z where "z = secp256k1_fe_inv (gej_z a)"
    have z: "fe_rep 1 (inverse (fe_abs (gej_z a))) z" unfolding z_def by (rule fe_rep_inv [OF a(3)]) simp
    define k where "k = inverse (fe_abs (gej_z a))"
    note z = z [folded k_def]
    have k: "k \<noteq> 0" "fe_abs (gej_z a) * k = 1" using a(4) by (simp_all add: k_def)
    have fx: "ge_x b = secp256k1_fe_mul (gej_x a) (secp256k1_fe_sqr z)"
      "ge_y b = secp256k1_fe_mul (gej_y a) (secp256k1_fe_mul z (secp256k1_fe_sqr z))" "\<not> ge_infinity b"
      using fin by (simp_all add: b_def z_def secp256k1_ge_set_gej_def Let_def)
    have x: "fe_rep 1 (fe_abs (gej_x a) * (k * k)) (ge_x b)"
      unfolding fx by (rule fe_rules a z | simp)+
    have "fe_rep 1 (fe_abs (gej_y a) * (k * (k * k))) (ge_y b)"
      unfolding fx by (rule fe_rules a z | simp)+
    then have y: "fe_rep 1 (fe_abs (gej_y a) * (k * k * k)) (ge_y b)" by (simp only: mult.assoc)
    have b: "ge_rep 1 P b" "fe_magnitude 1 (ge_x b)" "fe_magnitude 1 (ge_y b)"
      using ge_rep_rescale [OF gej_rep_xy [OF assms False] k(1) fx(3) x y] x y
      by (simp_all add: k(2) fe_rep_def)
    have "c = secp256k1_gej_set_ge b" using fin
      by (simp add: b_def c_def secp256k1_ge_set_gej_def Let_def secp256k1_gej_set_ge_def)
    then show ?thesis using b gej_rep_set_ge [OF b(1)] by simp
  qed
  then show "ge_rep 1 P (fst (secp256k1_ge_set_gej a))" "gej_rep 1 P (snd (secp256k1_ge_set_gej a))"
    "P \<noteq> 0 \<Longrightarrow> fe_magnitude 1 (ge_x (fst (secp256k1_ge_set_gej a))) \<and> fe_magnitude 1 (ge_y (fst (secp256k1_ge_set_gej a)))"
    by (simp_all add: b_def c_def)
qed

lemma ge_set_gej_var_finite:
  "\<not> gej_infinity a \<Longrightarrow> secp256k1_ge_set_gej_var r a = secp256k1_ge_set_gej a"
  by (simp add: secp256k1_ge_set_gej_var_def secp256k1_ge_set_gej_def secp256k1_fe_inv_var_def Let_def)

lemma ge_rep_set_gej_var:
  assumes "gej_rep 1 P a"
  shows "ge_rep 1 P (fst (secp256k1_ge_set_gej_var r a))" and "gej_rep 1 P (snd (secp256k1_ge_set_gej_var r a))"
proof -
  have "ge_rep 1 P (fst (secp256k1_ge_set_gej_var r a)) \<and> gej_rep 1 P (snd (secp256k1_ge_set_gej_var r a))"
  proof (cases "gej_infinity a")
    case True
    then show ?thesis using assms gej_rep_infinity [OF assms]
      by (simp add: secp256k1_ge_set_gej_var_def ge_rep_def ge_ok_def ge_abs_def)
  qed (simp add: ge_set_gej_var_finite ge_rep_set_gej [OF assms])
  then show "ge_rep 1 P (fst (secp256k1_ge_set_gej_var r a))" "gej_rep 1 P (snd (secp256k1_ge_set_gej_var r a))" by simp_all
qed

subsection \<open>Batch inversion and conversion\<close>

definition prefix_product :: "(nat \<Rightarrow> gfp) \<Rightarrow> nat \<Rightarrow> gfp" where
  "prefix_product x i = (\<Prod>j\<le>i. x j)"

lemma prefix_product_simps: "prefix_product x 0 = x 0" "prefix_product x (Suc i) = prefix_product x i * x (Suc i)"
  by (simp_all add: prefix_product_def mult.commute)

lemma prefix_product_nonzero: "(\<And>j. j \<le> i \<Longrightarrow> x j \<noteq> 0) \<Longrightarrow> prefix_product x i \<noteq> 0"
  by (simp add: prefix_product_def)

lemma inv_all_up_rep:
  assumes "\<And>j. j < n \<Longrightarrow> fe_rep 8 (x j) (a ! j)" and "n \<le> length r"
  shows "1 \<le> k \<Longrightarrow> k \<le> n \<Longrightarrow>
    (\<forall>j<k. fe_rep 8 (prefix_product x j)
       (foldl (\<lambda>r i. r[i := secp256k1_fe_mul (r ! (i - 1)) (a ! i)]) (r[0 := a ! 0]) [1..<k] ! j)) \<and>
    length (foldl (\<lambda>r i. r[i := secp256k1_fe_mul (r ! (i - 1)) (a ! i)]) (r[0 := a ! 0]) [1..<k]) = length r"
proof (induction k rule: dec_induct)
  case base
  then show ?case using assms by (cases r) (auto simp: prefix_product_simps)
next
  case (step k)
  define q where "q = foldl (\<lambda>r i. r[i := secp256k1_fe_mul (r ! (i - 1)) (a ! i)]) (r[0 := a ! 0]) [1..<k]"
  have q: "fe_rep 8 (prefix_product x j) (q ! j)" if "j < k" for j
    using step.IH step.prems that by (simp add: q_def)
  have len: "length q = length r" using step.IH step.prems by (simp add: q_def)
  obtain m where m: "k = Suc m" using step.hyps by (cases k) auto
  have "fe_rep 1 (prefix_product x m * x k) (secp256k1_fe_mul (q ! m) (a ! k))"
    using fe_rep_mul [OF q [of m] assms(1) [of k]] m step.prems by simp
  then have new: "fe_rep 8 (prefix_product x k) (secp256k1_fe_mul (q ! m) (a ! k))"
    by (rule fe_repI) (simp_all add: m prefix_product_simps)
  have "foldl (\<lambda>r i. r[i := secp256k1_fe_mul (r ! (i - 1)) (a ! i)]) (r[0 := a ! 0]) [1..<Suc k] =
      q[k := secp256k1_fe_mul (q ! m) (a ! k)]" using step.hyps by (simp add: q_def m)
  then show ?case using q new len step.prems assms(2) by (auto simp: less_Suc_eq nth_list_update)
qed

lemma inv_all_down_rep:
  assumes "\<And>j. j < n \<Longrightarrow> fe_rep 8 (x j) (a ! j)" and "\<And>j. j < n \<Longrightarrow> x j \<noteq> 0"
  shows "i < n \<Longrightarrow> i < length r \<Longrightarrow> fe_rep 8 (inverse (prefix_product x i)) u \<Longrightarrow>
    (\<And>j. j \<le> i \<Longrightarrow> fe_rep 8 (prefix_product x j) (r ! j)) \<Longrightarrow>
    inv_all_down a i (r, u) = (r', u') \<Longrightarrow>
    length r' = length r \<and> fe_rep 8 (inverse (x 0)) u' \<and> (\<forall>j. 0 < j \<and> j \<le> i \<longrightarrow> fe_rep 8 (inverse (x j)) (r' ! j)) \<and>
    (\<forall>j>i. r' ! j = r ! j)"
proof (induction i arbitrary: r u)
  case 0
  then show ?case by (simp add: prefix_product_simps)
next
  case (Suc i)
  define v where "v = secp256k1_fe_mul (r ! i) u"
  define w where "w = secp256k1_fe_mul u (a ! Suc i)"
  have nz: "prefix_product x i \<noteq> 0" "x (Suc i) \<noteq> 0"
    using assms(2) Suc.prems(1) prefix_product_nonzero [of i x] by simp_all
  have "fe_rep 1 (prefix_product x i * inverse (prefix_product x (Suc i))) v"
    unfolding v_def using fe_rep_mul [OF Suc.prems(4) [of i] Suc.prems(3)] by simp
  then have v: "fe_rep 8 (inverse (x (Suc i))) v"
    by (rule fe_repI) (simp_all add: prefix_product_simps nz field_simps)
  have "fe_rep 1 (inverse (prefix_product x (Suc i)) * x (Suc i)) w"
    unfolding w_def using fe_rep_mul [OF Suc.prems(3) assms(1) [OF Suc.prems(1)]] by simp
  then have w: "fe_rep 8 (inverse (prefix_product x i)) w"
    by (rule fe_repI) (simp_all add: prefix_product_simps nz field_simps)
  have run: "inv_all_down a i (r[Suc i := v], w) = (r', u')"
    using Suc.prems(5) by (simp add: v_def w_def Let_def)
  have rest: "fe_rep 8 (prefix_product x j) (r[Suc i := v] ! j)" if "j \<le> i" for j
    using Suc.prems(4) [of j] that by simp
  have "i < n" "i < length (r[Suc i := v])" using Suc.prems(1,2) by simp_all
  note IH = Suc.IH [OF this w rest run]
  moreover have "r' ! Suc i = v" using IH Suc.prems(2) by simp
  ultimately show ?case using v by (auto simp: le_Suc_eq)
qed

lemma fe_rep_inv_all:
  assumes "\<And>j. j < n \<Longrightarrow> fe_rep 8 (x j) (a ! j)" and "\<And>j. j < n \<Longrightarrow> x j \<noteq> 0" and "n \<le> length r" and "i < n"
  shows "fe_rep 8 (inverse (x i)) (secp256k1_fe_inv_all_var r a n ! i)"
proof -
  define q where "q = foldl (\<lambda>r i. r[i := secp256k1_fe_mul (r ! (i - 1)) (a ! i)]) (r[0 := a ! 0]) [1..<n]"
  have n: "1 \<le> n" "n - 1 < n" using assms(4) by simp_all
  have q: "fe_rep 8 (prefix_product x j) (q ! j)" if "j < n" for j
    using inv_all_up_rep [OF assms(1,3) n(1) order_refl] that unfolding q_def by blast
  have len: "length q = length r" using inv_all_up_rep [OF assms(1,3) n(1) order_refl] unfolding q_def by blast
  define u where "u = secp256k1_fe_inv_var (q ! (n - 1))"
  have u: "fe_rep 8 (inverse (prefix_product x (n - 1))) u"
    unfolding u_def secp256k1_fe_inv_var_def by (rule fe_repI, rule fe_rep_inv [OF q [OF n(2)]]) simp_all
  obtain r' u' where d: "inv_all_down a (n - 1) (q, u) = (r', u')" by fastforce
  have eq: "secp256k1_fe_inv_all_var r a n = r'[0 := u']"
    using n(1) d by (simp add: secp256k1_fe_inv_all_var_def Let_def q_def u_def)
  have lq: "n - 1 < length q" using len n assms(3) by simp
  have qj: "fe_rep 8 (prefix_product x j) (q ! j)" if "j \<le> n - 1" for j using q that n(1) by simp
  from inv_all_down_rep [OF assms(1,2) n(2) lq u qj d]
  have r': "length r' = length r" "fe_rep 8 (inverse (x 0)) u'"
    "\<forall>j. 0 < j \<and> j \<le> n - 1 \<longrightarrow> fe_rep 8 (inverse (x j)) (r' ! j)" using len by simp_all
  show ?thesis
  proof (cases "i = 0")
    case True
    then show ?thesis using r' assms(3,4) by (cases r') (auto simp: eq)
  next
    case False
    then show ?thesis using r' assms(4) by (simp add: eq)
  qed
qed

text \<open>With no entry at infinity every entry is inverted.\<close>

lemma set_all_gej_var_rep:
  assumes a: "\<And>i. i < n \<Longrightarrow> gej_rep 1 (Q i) (a ! i)" and Q: "\<And>i. i < n \<Longrightarrow> Q i \<noteq> 0"
    and len: "n \<le> length azi0" "n \<le> length r"
  shows "\<forall>i<n. ge_rep 1 (Q i) (secp256k1_ge_set_all_gej_var azi0 r a n ! i)"
proof -
  have fin: "\<not> gej_infinity (a ! i)" if "i < n" for i using gej_rep_infinity [OF a [OF that]] Q [OF that] by simp
  have az: "foldl (\<lambda>az i. if \<not> gej_infinity (a ! i) then az @ [gej_z (a ! i)] else az) [] [0..<m] =
      map (\<lambda>i. gej_z (a ! i)) [0..<m]" if "m \<le> n" for m
    using that fin by (induction m) simp_all
  define azi where "azi = secp256k1_fe_inv_all_var azi0 (map (\<lambda>i. gej_z (a ! i)) [0..<n]) n"
  note f = gej_ok_finite [OF gej_rep_ok [OF a] fin]
  have azi: "fe_rep 8 (inverse (fe_abs (gej_z (a ! i)))) (azi ! i)" if "i < n" for i
    unfolding azi_def by (rule fe_rep_inv_all [OF _ _ len(1) that]) (use f in \<open>simp_all\<close>)
  define g where "g = (\<lambda>i. secp256k1_ge_set_gej_zinv (a ! i) (azi ! i))"
  have g: "ge_rep 1 (Q i) (g i)" if "i < n" for i
    using ge_rep_zinv(1) [OF gej_rep_xy [OF a Q] azi, OF that that that] f(4) [OF that that] by (simp add: g_def)
  have loop: "foldl (\<lambda>(r, count) i.
              let r = r[i := (r ! i)\<lparr>ge_infinity := gej_infinity (a ! i)\<rparr>]
              in if \<not> gej_infinity (a ! i)
                 then (r[i := secp256k1_ge_set_gej_zinv (a ! i) (azi ! count)], count + 1)
                 else (r, count)) (r, 0) [0..<m] = (map g [0..<m] @ drop m r, m)" if "m \<le> n" for m
    using that
  proof (induction m)
    case (Suc m)
    then have "drop m r = r ! m # drop (Suc m) r" using len by (simp add: Cons_nth_drop_Suc)
    then show ?case using Suc fin [of m] by (simp add: Let_def list_update_append g_def)
  qed simp
  have "secp256k1_ge_set_all_gej_var azi0 r a n = map g [0..<n] @ drop n r"
    unfolding secp256k1_ge_set_all_gej_var_def Let_def az [OF order_refl] length_map length_upt diff_zero azi_def [symmetric]
      loop [OF order_refl, unfolded Let_def] prod.case ..
  then show ?thesis using g by (simp add: nth_append)
qed

subsection \<open>Scalar multiplication by shifting and adding\<close>

text \<open>
  The contract of the loops that go down the digits of a scalar. \<open>shift\<close> multiplies by the base of the
  digits; adding the multiple for a digit is the loop's own.
\<close>

locale shift_add =
  fixes base :: int and rep :: "epoint \<Rightarrow> 'r \<Rightarrow> bool" and shift :: "'r \<Rightarrow> 'r"
  assumes shift: "rep P r \<Longrightarrow> rep (zmul base P) (shift r)"
begin

lemma loop:
  assumes "\<And>i P r. i < n \<Longrightarrow> rep P r \<Longrightarrow> rep (P + D i) (f i r)" and "rep P r"
  shows "rep (zmul (base ^ n) P + (\<Sum>i<n. zmul (base ^ i) (D i))) (foldl (\<lambda>r i. f i (shift r)) r (rev [0..<n]))"
  using assms
proof (induction n arbitrary: P r)
  case (Suc n)
  have "rep (zmul base P + D n) (f n (shift r))" using Suc.prems shift by blast
  from Suc.IH [OF _ this] Suc.prems(1)
  have "rep (zmul (base ^ n) (zmul base P + D n) + (\<Sum>i<n. zmul (base ^ i) (D i)))
      (foldl (\<lambda>r i. f i (shift r)) (f n (shift r)) (rev [0..<n]))" by simp
  moreover have "zmul (base ^ n) (zmul base P) = zmul (base ^ Suc n) P"
    by (simp add: mult.commute [of base] flip: zmul_mult)
  ultimately show ?case by (simp add: zmul_distrib add_ac)
qed simp

lemma loop_digits:
  assumes "\<And>i P r. i < n \<Longrightarrow> rep P r \<Longrightarrow> rep (P + zmul (d i) A) (f i r)" and "rep P r"
  shows "rep (zmul (base ^ n) P + zmul (\<Sum>i<n. base ^ i * d i) A) (foldl (\<lambda>r i. f i (shift r)) r (rev [0..<n]))"
proof -
  have "zmul (\<Sum>i<n. base ^ i * d i) A = (\<Sum>i<n. zmul (base ^ i) (zmul (d i) A))"
    by (induction n) (simp_all add: zmul_add zmul_mult)
  then show ?thesis using loop [OF assms] by simp
qed

end

text \<open>Doubling in the representation is the base 2.\<close>

interpretation binary: shift_add 2 "gej_rep S" "\<lambda>r. fst (secp256k1_gej_double_var r r None)" for S
  by unfold_locales (simp add: zmul_2 gej_rep_double)

end
