(* ===== verification/Scalar_Field.thy ===== *)
theory Scalar_Field
  imports Curve_Order
begin

text \<open>
  The scalars as the field of the residues modulo the group order, which is prime: the contracts of the
  scalar operations on reduced scalars, and the inverse as an inverse.
\<close>

definition scalar_ok :: "secp256k1_scalar \<Rightarrow> bool" where
  "scalar_ok a \<longleftrightarrow> scalar_val a < secp256k1_n"

named_theorems scalar_vals \<open>values of the results of scalar operations\<close>

lemma n_pos: "0 < secp256k1_n" "secp256k1_n \<noteq> 0"
  by (simp_all add: secp256k1_n_def)

lemma scalar_val_nonneg [simp]: "0 \<le> scalar_val a"
  by (simp add: scalar_val_def lval_nonneg)

lemma scalar_ok_mod: "scalar_ok a \<Longrightarrow> scalar_val a mod secp256k1_n = scalar_val a"
  by (simp add: scalar_ok_def)

lemma scalar_okI: "scalar_val a = x mod secp256k1_n \<Longrightarrow> scalar_ok a"
  by (simp add: scalar_ok_def n_pos)

lemma scalar_add_val [scalar_vals]:
  assumes "scalar_ok a" and "scalar_ok b"
  shows "scalar_val (fst (secp256k1_scalar_add a b)) = (scalar_val a + scalar_val b) mod secp256k1_n"
  by (rule secp256k1_scalar_add_val(1) [where overflow = "snd (secp256k1_scalar_add a b)"])
    (use assms in \<open>simp_all add: scalar_ok_def\<close>)

lemma scalar_mul_val [scalar_vals]:
  "scalar_val (secp256k1_scalar_mul a b) = scalar_val a * scalar_val b mod secp256k1_n"
  by (rule secp256k1_scalar_mul_val)

lemma scalar_negate_val [scalar_vals]:
  "scalar_ok a \<Longrightarrow> scalar_val (secp256k1_scalar_negate a) = (- scalar_val a) mod secp256k1_n"
  by (simp add: scalar_ok_def secp256k1_scalar_negate_val)

lemma scalar_set_b32_val [scalar_vals]:
  "length b = 32 \<Longrightarrow> scalar_val (fst (secp256k1_scalar_set_b32 b)) = be_val b mod secp256k1_n"
  by (rule secp256k1_scalar_set_b32_val(1))

lemma scalar_ok_ops [simp]:
  "scalar_ok a \<Longrightarrow> scalar_ok b \<Longrightarrow> scalar_ok (fst (secp256k1_scalar_add a b))"
  "scalar_ok (secp256k1_scalar_mul a b)"
  "scalar_ok a \<Longrightarrow> scalar_ok (secp256k1_scalar_negate a)"
  "length c = 32 \<Longrightarrow> scalar_ok (fst (secp256k1_scalar_set_b32 c))"
  by (rule scalar_okI, erule (1) scalar_vals, rule scalar_okI, rule scalar_vals,
      rule scalar_okI, erule scalar_vals, rule scalar_okI, erule scalar_vals)

lemma scalar_inverse_ok [simp]: "scalar_ok (secp256k1_scalar_inverse a)"
  by (rule scalar_okI [OF secp256k1_scalar_inverse_val])

lemma n_dvd_scalar: "scalar_ok a \<Longrightarrow> secp256k1_n dvd scalar_val a \<longleftrightarrow> scalar_val a = 0"
  using scalar_ok_mod [of a] by (auto simp: dvd_eq_mod_eq_0)

lemma scalar_inverse_mod:
  assumes "\<not> secp256k1_n dvd scalar_val a"
  shows "scalar_val a * scalar_val (secp256k1_scalar_inverse a) mod secp256k1_n = 1"
proof -
  have e: "nat (secp256k1_n - 1) = Suc (nat secp256k1_n - 2)" by (simp add: secp256k1_n_def)
  have "scalar_val a * scalar_val (secp256k1_scalar_inverse a) mod secp256k1_n =
      scalar_val a * scalar_val a ^ (nat secp256k1_n - 2) mod secp256k1_n"
    by (simp only: secp256k1_scalar_inverse_val mod_mult_right_eq)
  also have "\<dots> = scalar_val a ^ nat (secp256k1_n - 1) mod secp256k1_n" by (simp only: e power_Suc)
  also have "\<dots> = 1" by (rule fermat [OF prime_secp256k1_n assms])
  finally show ?thesis .
qed

lemma scalar_inverse_val_0: "scalar_val a = 0 \<Longrightarrow> scalar_val (secp256k1_scalar_inverse a) = 0"
  by (simp add: secp256k1_scalar_inverse_val secp256k1_n_def)

lemma scalar_inverse_var_eq: "secp256k1_scalar_inverse_var a = secp256k1_scalar_inverse a"
  by (simp add: secp256k1_scalar_inverse_var_def)

lemma mod_n_cancel:
  assumes "\<not> secp256k1_n dvd k" and "k * x mod secp256k1_n = k * y mod secp256k1_n"
  shows "x mod secp256k1_n = y mod secp256k1_n"
proof -
  have "secp256k1_n dvd k * (x - y)"
    using assms(2) by (simp add: mod_eq_dvd_iff right_diff_distrib)
  then have "secp256k1_n dvd x - y"
    using assms(1) prime_int_dvd_mult [OF prime_secp256k1_n] by blast
  then show ?thesis by (simp add: mod_eq_dvd_iff)
qed

lemma n_dvd_mult: "secp256k1_n dvd a * b \<longleftrightarrow> secp256k1_n dvd a \<or> secp256k1_n dvd b"
  by (rule prime_int_dvd_mult [OF prime_secp256k1_n])

end
