(* ===== verification/Hash.thy ===== *)
theory Hash
  imports Secp_Prelude
begin

text \<open>
  SHA-256, HMAC-SHA256 and the RFC 6979 generator (\<open>hash_impl.h\<close>). The compression function is
  modelled as it is unrolled in the source: eight \<open>Round\<close> calls bring the roles of the variables
  \<open>a\<close> to \<open>h\<close> back to where they were, so the sixty-four calls are eight times \<open>rounds8\<close>, and the
  sixteen assignments \<open>w0 += ...\<close> to \<open>w15 += ...\<close> of a group are \<open>schedule16\<close> (the assignments do
  not depend on the rounds they are interleaved with). A buffer of bytes is a list; \<open>memcpy\<close> into
  a buffer at an offset is \<open>buf_write\<close>. The words of the buffer are read as on a little-endian
  machine and swapped by \<open>BE32\<close>. \<open>size_t\<close> is 64 bits wide.

  The specification side is the definition of the standards: the message schedule and the round
  function of FIPS 180-4, padding to whole blocks, \<open>HMAC\<close> by its formula. The interface
  \<open>stream_hash\<close> is what a client of an incremental hash relies on.
\<close>

subsection \<open>Functions of a round\<close>

definition Ch :: "u32 \<Rightarrow> u32 \<Rightarrow> u32 \<Rightarrow> u32" where
  "Ch x y z = z XOR (x AND (y XOR z))"

definition Maj :: "u32 \<Rightarrow> u32 \<Rightarrow> u32 \<Rightarrow> u32" where
  "Maj x y z = (x AND y) OR (z AND (x OR y))"

definition Sigma0 :: "u32 \<Rightarrow> u32" where
  "Sigma0 x = ((drop_bit 2 x OR push_bit 30 x) XOR (drop_bit 13 x OR push_bit 19 x)) XOR
     (drop_bit 22 x OR push_bit 10 x)"

definition Sigma1 :: "u32 \<Rightarrow> u32" where
  "Sigma1 x = ((drop_bit 6 x OR push_bit 26 x) XOR (drop_bit 11 x OR push_bit 21 x)) XOR
     (drop_bit 25 x OR push_bit 7 x)"

definition sigma0 :: "u32 \<Rightarrow> u32" where
  "sigma0 x = ((drop_bit 7 x OR push_bit 25 x) XOR (drop_bit 18 x OR push_bit 14 x)) XOR drop_bit 3 x"

definition sigma1 :: "u32 \<Rightarrow> u32" where
  "sigma1 x = ((drop_bit 17 x OR push_bit 15 x) XOR (drop_bit 19 x OR push_bit 13 x)) XOR drop_bit 10 x"

text \<open>The new values of \<open>d\<close> and \<open>h\<close>.\<close>

definition Round ::
  "u32 \<Rightarrow> u32 \<Rightarrow> u32 \<Rightarrow> u32 \<Rightarrow> u32 \<Rightarrow> u32 \<Rightarrow> u32 \<Rightarrow> u32 \<Rightarrow> u32 \<Rightarrow> u32 \<Rightarrow> u32 \<times> u32" where
  "Round a b c d e f g h k w =
     (let t1 = h + Sigma1 e + Ch e f g + k + w;
          t2 = Sigma0 a + Maj a b c
      in (d + t1, t1 + t2))"

definition BE32 :: "u32 \<Rightarrow> u32" where
  "BE32 p = ((push_bit 24 (p AND 0xFF) OR push_bit 8 (p AND 0xFF00)) OR drop_bit 8 (p AND 0xFF0000)) OR
     drop_bit 24 (p AND 0xFF000000)"

definition round_constants :: "u32 list" where
  "round_constants =
    [0x428a2f98, 0x71374491, 0xb5c0fbcf, 0xe9b5dba5, 0x3956c25b, 0x59f111f1, 0x923f82a4, 0xab1c5ed5,
     0xd807aa98, 0x12835b01, 0x243185be, 0x550c7dc3, 0x72be5d74, 0x80deb1fe, 0x9bdc06a7, 0xc19bf174,
     0xe49b69c1, 0xefbe4786, 0x0fc19dc6, 0x240ca1cc, 0x2de92c6f, 0x4a7484aa, 0x5cb0a9dc, 0x76f988da,
     0x983e5152, 0xa831c66d, 0xb00327c8, 0xbf597fc7, 0xc6e00bf3, 0xd5a79147, 0x06ca6351, 0x14292967,
     0x27b70a85, 0x2e1b2138, 0x4d2c6dfc, 0x53380d13, 0x650a7354, 0x766a0abb, 0x81c2c92e, 0x92722c85,
     0xa2bfe8a1, 0xa81a664b, 0xc24b8b70, 0xc76c51a3, 0xd192e819, 0xd6990624, 0xf40e3585, 0x106aa070,
     0x19a4c116, 0x1e376c08, 0x2748774c, 0x34b0bcb5, 0x391c0cb3, 0x4ed8aa4a, 0x5b9cca4f, 0x682e6ff3,
     0x748f82ee, 0x78a5636f, 0x84c87814, 0x8cc70208, 0x90befffa, 0xa4506ceb, 0xbef9a3f7, 0xc67178f2]"

subsection \<open>The compression function\<close>

type_synonym st8 = "u32 \<times> u32 \<times> u32 \<times> u32 \<times> u32 \<times> u32 \<times> u32 \<times> u32"

definition rounds8 :: "u32 list \<Rightarrow> u32 list \<Rightarrow> st8 \<Rightarrow> st8" where
  "rounds8 k w = (\<lambda>(a, b, c, d, e, f, g, h).
     (let (d, h) = Round a b c d e f g h (k ! 0) (w ! 0);
          (c, g) = Round h a b c d e f g (k ! 1) (w ! 1);
          (b, f) = Round g h a b c d e f (k ! 2) (w ! 2);
          (a, e) = Round f g h a b c d e (k ! 3) (w ! 3);
          (h, d) = Round e f g h a b c d (k ! 4) (w ! 4);
          (g, c) = Round d e f g h a b c (k ! 5) (w ! 5);
          (f, b) = Round c d e f g h a b (k ! 6) (w ! 6);
          (e, a) = Round b c d e f g h a (k ! 7) (w ! 7)
      in (a, b, c, d, e, f, g, h)))"

definition schedule16 :: "u32 list \<Rightarrow> u32 list" where
  "schedule16 w =
     (let w0 = w ! 0; w1 = w ! 1; w2 = w ! 2; w3 = w ! 3; w4 = w ! 4; w5 = w ! 5; w6 = w ! 6; w7 = w ! 7;
          w8 = w ! 8; w9 = w ! 9; w10 = w ! 10; w11 = w ! 11; w12 = w ! 12; w13 = w ! 13; w14 = w ! 14; w15 = w ! 15;
          w0 = w0 + (sigma1 w14 + w9 + sigma0 w1);
          w1 = w1 + (sigma1 w15 + w10 + sigma0 w2);
          w2 = w2 + (sigma1 w0 + w11 + sigma0 w3);
          w3 = w3 + (sigma1 w1 + w12 + sigma0 w4);
          w4 = w4 + (sigma1 w2 + w13 + sigma0 w5);
          w5 = w5 + (sigma1 w3 + w14 + sigma0 w6);
          w6 = w6 + (sigma1 w4 + w15 + sigma0 w7);
          w7 = w7 + (sigma1 w5 + w0 + sigma0 w8);
          w8 = w8 + (sigma1 w6 + w1 + sigma0 w9);
          w9 = w9 + (sigma1 w7 + w2 + sigma0 w10);
          w10 = w10 + (sigma1 w8 + w3 + sigma0 w11);
          w11 = w11 + (sigma1 w9 + w4 + sigma0 w12);
          w12 = w12 + (sigma1 w10 + w5 + sigma0 w13);
          w13 = w13 + (sigma1 w11 + w6 + sigma0 w14);
          w14 = w14 + (sigma1 w12 + w7 + sigma0 w15);
          w15 = w15 + (sigma1 w13 + w8 + sigma0 w0)
      in [w0, w1, w2, w3, w4, w5, w6, w7, w8, w9, w10, w11, w12, w13, w14, w15])"

definition rounds16 :: "u32 list \<Rightarrow> u32 list \<Rightarrow> st8 \<Rightarrow> st8" where
  "rounds16 k w st = rounds8 (drop 8 k) (drop 8 w) (rounds8 (take 8 k) (take 8 w) st)"

definition secp256k1_sha256_transform :: "u32 list \<Rightarrow> u32 list \<Rightarrow> u32 list" where
  "secp256k1_sha256_transform s chunk =
     (let st = (s ! 0, s ! 1, s ! 2, s ! 3, s ! 4, s ! 5, s ! 6, s ! 7);
          w = map BE32 chunk;
          st = rounds16 (take 16 round_constants) w st;
          w = schedule16 w;
          st = rounds16 (take 16 (drop 16 round_constants)) w st;
          w = schedule16 w;
          st = rounds16 (take 16 (drop 32 round_constants)) w st;
          w = schedule16 w;
          (a, b, c, d, e, f, g, h) = rounds16 (take 16 (drop 48 round_constants)) w st
      in [s ! 0 + a, s ! 1 + b, s ! 2 + c, s ! 3 + d, s ! 4 + e, s ! 5 + f, s ! 6 + g, s ! 7 + h])"

subsection \<open>The hash object\<close>

record secp256k1_sha256_t =
  hash_s :: "u32 list"
  hash_buf :: "u8 list"
  hash_bytes :: u64

definition secp256k1_sha256_initialize :: "secp256k1_sha256_t \<Rightarrow> secp256k1_sha256_t" where
  "secp256k1_sha256_initialize hash = hash\<lparr>hash_s :=
     [0x6a09e667, 0xbb67ae85, 0x3c6ef372, 0xa54ff53a, 0x510e527f, 0x9b05688c, 0x1f83d9ab, 0x5be0cd19],
     hash_bytes := 0\<rparr>"

definition le_word :: "u8 list \<Rightarrow> nat \<Rightarrow> u32" where
  "le_word buf i = ((ucast (buf ! (4 * i)) OR push_bit 8 (ucast (buf ! (4 * i + 1)))) OR
     push_bit 16 (ucast (buf ! (4 * i + 2)))) OR push_bit 24 (ucast (buf ! (4 * i + 3)))"

definition buf_words :: "u8 list \<Rightarrow> u32 list" where
  "buf_words buf = map (le_word buf) [0..<16]"

text \<open>The loop of \<open>secp256k1_sha256_write\<close> and the copy of what remains.\<close>

function write_loop :: "u32 list \<Rightarrow> u8 list \<Rightarrow> nat \<Rightarrow> u8 list \<Rightarrow> u32 list \<times> u8 list" where
  "write_loop s buf bufsize data =
     (if bufsize + length data \<ge> 64
      then (let buf = buf_write buf bufsize (take (64 - bufsize) data);
                data = drop (64 - bufsize) data;
                s = secp256k1_sha256_transform s (buf_words buf)
            in write_loop s buf 0 data)
      else (s, if data \<noteq> [] then buf_write buf bufsize data else buf))"
  by pat_completeness auto
termination by (relation "measure (\<lambda>(s, buf, bufsize, data). bufsize + length data)") auto

declare write_loop.simps [simp del]

definition secp256k1_sha256_write :: "secp256k1_sha256_t \<Rightarrow> u8 list \<Rightarrow> secp256k1_sha256_t" where
  "secp256k1_sha256_write hash data =
     (let bufsize = hash_bytes hash AND 0x3F;
          bytes = hash_bytes hash + of_nat (length data);
          (s, buf) = write_loop (hash_s hash) (hash_buf hash) (unat bufsize) data
      in hash\<lparr>hash_s := s, hash_buf := buf, hash_bytes := bytes\<rparr>)"

text \<open>The bytes of a word in memory, lowest first.\<close>

definition word_bytes :: "u32 \<Rightarrow> u8 list" where
  "word_bytes w = [ucast w, ucast (drop_bit 8 w), ucast (drop_bit 16 w), ucast (drop_bit 24 w)]"

definition sha256_pad :: "u8 list" where
  "sha256_pad = 0x80 # replicate 63 0"

definition secp256k1_sha256_finalize :: "secp256k1_sha256_t \<Rightarrow> secp256k1_sha256_t \<times> u8 list" where
  "secp256k1_sha256_finalize hash =
     (let sizedesc0 = BE32 (ucast (drop_bit 29 (hash_bytes hash)));
          sizedesc1 = BE32 (ucast (push_bit 3 (hash_bytes hash)));
          hash = secp256k1_sha256_write hash (take (unat (1 + (119 - hash_bytes hash mod 64) mod 64)) sha256_pad);
          hash = secp256k1_sha256_write hash (word_bytes sizedesc0 @ word_bytes sizedesc1);
          out = map BE32 (hash_s hash)
      in (hash\<lparr>hash_s := replicate 8 0\<rparr>, concat (map word_bytes out)))"

subsection \<open>HMAC\<close>

record secp256k1_hmac_sha256_t =
  hmac_inner :: secp256k1_sha256_t
  hmac_outer :: secp256k1_sha256_t

definition hmac_rkey :: "secp256k1_sha256_t \<Rightarrow> u8 list \<Rightarrow> u8 list" where
  "hmac_rkey sha256 key =
     (if length key \<le> 64 then key @ replicate (64 - length key) 0
      else (let sha256 = secp256k1_sha256_initialize sha256;
                sha256 = secp256k1_sha256_write sha256 key;
                (sha256, rkey) = secp256k1_sha256_finalize sha256
            in rkey @ replicate 32 0))"

text \<open>The argument \<open>sha256\<close> is the uninitialised local variable of that name.\<close>

definition secp256k1_hmac_sha256_initialize ::
  "secp256k1_sha256_t \<Rightarrow> secp256k1_hmac_sha256_t \<Rightarrow> u8 list \<Rightarrow> secp256k1_hmac_sha256_t" where
  "secp256k1_hmac_sha256_initialize sha256 hash key =
     (let rkey = hmac_rkey sha256 key;
          outer = secp256k1_sha256_initialize (hmac_outer hash);
          rkey = map (\<lambda>b. b XOR 0x5c) rkey;
          outer = secp256k1_sha256_write outer rkey;
          inner = secp256k1_sha256_initialize (hmac_inner hash);
          rkey = map (\<lambda>b. b XOR (0x5c XOR 0x36)) rkey;
          inner = secp256k1_sha256_write inner rkey
      in \<lparr>hmac_inner = inner, hmac_outer = outer\<rparr>)"

definition secp256k1_hmac_sha256_write ::
  "secp256k1_hmac_sha256_t \<Rightarrow> u8 list \<Rightarrow> secp256k1_hmac_sha256_t" where
  "secp256k1_hmac_sha256_write hash data =
     hash\<lparr>hmac_inner := secp256k1_sha256_write (hmac_inner hash) data\<rparr>"

definition secp256k1_hmac_sha256_finalize ::
  "secp256k1_hmac_sha256_t \<Rightarrow> secp256k1_hmac_sha256_t \<times> u8 list" where
  "secp256k1_hmac_sha256_finalize hash =
     (let (inner, temp) = secp256k1_sha256_finalize (hmac_inner hash);
          outer = secp256k1_sha256_write (hmac_outer hash) temp;
          (outer, out32) = secp256k1_sha256_finalize outer
      in (\<lparr>hmac_inner = inner, hmac_outer = outer\<rparr>, out32))"

subsection \<open>The RFC 6979 generator\<close>

record secp256k1_rfc6979_hmac_sha256_t =
  rng_v :: "u8 list"
  rng_k :: "u8 list"
  rng_retry :: bool

text \<open>A run of \<open>initialize\<close>, some \<open>write\<close>s and \<open>finalize\<close> on the local variable \<open>hmac\<close>; what the
  variable and the \<open>sha256\<close> inside hold before is arbitrary.\<close>

definition hmac_run :: "secp256k1_sha256_t \<Rightarrow> secp256k1_hmac_sha256_t \<Rightarrow> u8 list \<Rightarrow> u8 list list \<Rightarrow> u8 list" where
  "hmac_run sha256 hmac key parts =
     snd (secp256k1_hmac_sha256_finalize
       (foldl secp256k1_hmac_sha256_write (secp256k1_hmac_sha256_initialize sha256 hmac key) parts))"

definition secp256k1_rfc6979_hmac_sha256_initialize ::
  "secp256k1_sha256_t \<Rightarrow> secp256k1_hmac_sha256_t \<Rightarrow> u8 list \<Rightarrow> secp256k1_rfc6979_hmac_sha256_t" where
  "secp256k1_rfc6979_hmac_sha256_initialize sha256 hmac key =
     (let v = replicate 32 0x01;
          k = replicate 32 0x00;
          k = hmac_run sha256 hmac k [v, [0x00], key];
          v = hmac_run sha256 hmac k [v];
          k = hmac_run sha256 hmac k [v, [0x01], key];
          v = hmac_run sha256 hmac k [v]
      in \<lparr>rng_v = v, rng_k = k, rng_retry = False\<rparr>)"

function generate_loop ::
  "secp256k1_sha256_t \<Rightarrow> secp256k1_hmac_sha256_t \<Rightarrow> u8 list \<Rightarrow> u8 list \<Rightarrow> nat \<Rightarrow> u8 list \<times> u8 list" where
  "generate_loop sha256 hmac k v outlen =
     (if outlen > 0
      then (let v = hmac_run sha256 hmac k [v];
                now = (if outlen > 32 then 32 else outlen);
                (out, v') = generate_loop sha256 hmac k v (outlen - now)
            in (take now v @ out, v'))
      else ([], v))"
  by pat_completeness auto
termination by (relation "measure (\<lambda>(sha256, hmac, k, v, outlen). outlen)") auto

declare generate_loop.simps [simp del]

definition secp256k1_rfc6979_hmac_sha256_generate ::
  "secp256k1_sha256_t \<Rightarrow> secp256k1_hmac_sha256_t \<Rightarrow> secp256k1_rfc6979_hmac_sha256_t \<Rightarrow> nat \<Rightarrow>
   secp256k1_rfc6979_hmac_sha256_t \<times> u8 list" where
  "secp256k1_rfc6979_hmac_sha256_generate sha256 hmac rng outlen =
     (let (k, v) = (if rng_retry rng
             then (let k = hmac_run sha256 hmac (rng_k rng) [rng_v rng, [0x00]];
                       v = hmac_run sha256 hmac k [rng_v rng]
                   in (k, v))
             else (rng_k rng, rng_v rng));
          (out, v) = generate_loop sha256 hmac k v outlen
      in (\<lparr>rng_v = v, rng_k = k, rng_retry = True\<rparr>, out))"

definition secp256k1_rfc6979_hmac_sha256_finalize ::
  "secp256k1_rfc6979_hmac_sha256_t \<Rightarrow> secp256k1_rfc6979_hmac_sha256_t" where
  "secp256k1_rfc6979_hmac_sha256_finalize rng = \<lparr>rng_v = replicate 32 0, rng_k = replicate 32 0, rng_retry = False\<rparr>"

subsection \<open>The standard's round\<close>

definition fips_Ch :: "u32 \<Rightarrow> u32 \<Rightarrow> u32 \<Rightarrow> u32" where
  "fips_Ch x y z = (x AND y) XOR (NOT x AND z)"

definition fips_Maj :: "u32 \<Rightarrow> u32 \<Rightarrow> u32 \<Rightarrow> u32" where
  "fips_Maj x y z = ((x AND y) XOR (x AND z)) XOR (y AND z)"

definition fips_Sigma0 :: "u32 \<Rightarrow> u32" where
  "fips_Sigma0 x = (word_rotr 2 x XOR word_rotr 13 x) XOR word_rotr 22 x"

definition fips_Sigma1 :: "u32 \<Rightarrow> u32" where
  "fips_Sigma1 x = (word_rotr 6 x XOR word_rotr 11 x) XOR word_rotr 25 x"

definition fips_sigma0 :: "u32 \<Rightarrow> u32" where
  "fips_sigma0 x = (word_rotr 7 x XOR word_rotr 18 x) XOR drop_bit 3 x"

definition fips_sigma1 :: "u32 \<Rightarrow> u32" where
  "fips_sigma1 x = (word_rotr 17 x XOR word_rotr 19 x) XOR drop_bit 10 x"

fun fips_W :: "u32 list \<Rightarrow> nat \<Rightarrow> u32" where
  "fips_W M t = (if t < 16 then M ! t
     else fips_sigma1 (fips_W M (t - 2)) + fips_W M (t - 7) + fips_sigma0 (fips_W M (t - 15)) + fips_W M (t - 16))"

declare fips_W.simps [simp del]

fun fips_step :: "u32 \<Rightarrow> u32 \<Rightarrow> st8 \<Rightarrow> st8" where
  "fips_step K W (a, b, c, d, e, f, g, h) =
     (let T1 = h + fips_Sigma1 e + fips_Ch e f g + K + W;
          T2 = fips_Sigma0 a + fips_Maj a b c
      in (T1 + T2, a, b, c, d + T1, e, f, g))"

definition fips_compress :: "u32 list \<Rightarrow> u32 list \<Rightarrow> u32 list" where
  "fips_compress H M =
     (let (a, b, c, d, e, f, g, h) =
            foldl (\<lambda>st t. fips_step (round_constants ! t) (fips_W M t) st)
              (H ! 0, H ! 1, H ! 2, H ! 3, H ! 4, H ! 5, H ! 6, H ! 7) [0..<64]
      in [H ! 0 + a, H ! 1 + b, H ! 2 + c, H ! 3 + d, H ! 4 + e, H ! 5 + f, H ! 6 + g, H ! 7 + h])"

subsection \<open>The macros compute the standard's functions\<close>

lemma Ch_fips: "Ch x y z = fips_Ch x y z"
  by (rule bit_eqI) (auto simp: Ch_def fips_Ch_def bit_simps)

lemma Maj_fips: "Maj x y z = fips_Maj x y z"
  by (rule bit_eqI) (auto simp: Maj_def fips_Maj_def bit_simps)

lemma rotate_rotr:
  fixes x :: u32
  assumes "0 < n" and "n < 32"
  shows "drop_bit n x OR push_bit (32 - n) x = word_rotr n x"
proof (rule bit_eqI)
  fix k
  assume "possible_bit TYPE(u32) k"
  then have k: "k < 32" by simp
  show "bit (drop_bit n x OR push_bit (32 - n) x) k \<longleftrightarrow> bit (word_rotr n x) k"
  proof (cases "k < 32 - n")
    case True
    then have "(k + n) mod 32 = k + n" by simp
    then show ?thesis using True k assms
      by (simp add: bit_or_iff bit_drop_bit_eq bit_push_bit_iff bit_word_rotr_iff add.commute del: drop_bit_eq_div push_bit_eq_mult)
  next
    case False
    then have "(k + n) mod 32 = k - (32 - n)" using k assms by (simp add: mod_if)
    moreover have "\<not> bit x (n + k)" using False bit_imp_le_length [of x "n + k"] by auto
    ultimately show ?thesis using False k assms
      by (simp add: bit_or_iff bit_drop_bit_eq bit_push_bit_iff bit_word_rotr_iff add.commute del: drop_bit_eq_div push_bit_eq_mult)
  qed
qed

lemma Sigma0_fips: "Sigma0 x = fips_Sigma0 x"
  unfolding Sigma0_def fips_Sigma0_def
  using rotate_rotr [of 2 x] rotate_rotr [of 13 x] rotate_rotr [of 22 x] by (simp del: drop_bit_eq_div push_bit_eq_mult)

lemma Sigma1_fips: "Sigma1 x = fips_Sigma1 x"
  unfolding Sigma1_def fips_Sigma1_def
  using rotate_rotr [of 6 x] rotate_rotr [of 11 x] rotate_rotr [of 25 x] by (simp del: drop_bit_eq_div push_bit_eq_mult)

lemma sigma0_fips: "sigma0 x = fips_sigma0 x"
  unfolding sigma0_def fips_sigma0_def
  using rotate_rotr [of 7 x] rotate_rotr [of 18 x] by (simp del: drop_bit_eq_div push_bit_eq_mult)

lemma sigma1_fips: "sigma1 x = fips_sigma1 x"
  unfolding sigma1_def fips_sigma1_def
  using rotate_rotr [of 17 x] rotate_rotr [of 19 x] by (simp del: drop_bit_eq_div push_bit_eq_mult)

lemma fips_step_Round:
  "fips_step k w (a, b, c, d, e, f, g, h) =
     (let (d', h') = Round a b c d e f g h k w in (h', a, b, c, d', e, f, g))"
  by (simp add: Round_def Let_def Ch_fips Maj_fips Sigma0_fips Sigma1_fips)

lemma rounds8_fips:
  "rounds8 k w st = foldl (\<lambda>st i. fips_step (k ! i) (w ! i) st) st [0..<8]"
proof -
  obtain a b c d e f g h where st: "st = (a, b, c, d, e, f, g, h)" by (metis prod.exhaust)
  have u: "[0..<8 :: nat] = [0, 1, 2, 3, 4, 5, 6, 7]" by (simp add: upt_rec)
  obtain d1 h1 where r0: "Round a b c d e f g h (k ! 0) (w ! 0) = (d1, h1)" by fastforce
  obtain c1 g1 where r1: "Round h1 a b c d1 e f g (k ! 1) (w ! 1) = (c1, g1)" by fastforce
  obtain b1 f1 where r2: "Round g1 h1 a b c1 d1 e f (k ! 2) (w ! 2) = (b1, f1)" by fastforce
  obtain a1 e1 where r3: "Round f1 g1 h1 a b1 c1 d1 e (k ! 3) (w ! 3) = (a1, e1)" by fastforce
  obtain h2 d2 where r4: "Round e1 f1 g1 h1 a1 b1 c1 d1 (k ! 4) (w ! 4) = (h2, d2)" by fastforce
  obtain g2 c2 where r5: "Round d2 e1 f1 g1 h2 a1 b1 c1 (k ! 5) (w ! 5) = (g2, c2)" by fastforce
  obtain f2 b2 where r6: "Round c2 d2 e1 f1 g2 h2 a1 b1 (k ! 6) (w ! 6) = (f2, b2)" by fastforce
  obtain e2 a2 where r7: "Round b2 c2 d2 e1 f2 g2 h2 a1 (k ! 7) (w ! 7) = (e2, a2)" by fastforce
  note r = r0 r1 r2 r3 r4 r5 r6 r7
  show ?thesis
    unfolding st u rounds8_def foldl_Cons foldl_Nil fips_step_Round prod.case
    by (simp only: r Let_def prod.case fips_step_Round)
qed

subsection \<open>The message schedule\<close>

lemma fips_W_step:
  "fips_W M (t + 16) = fips_W M t + (sigma1 (fips_W M (t + 14)) + fips_W M (t + 9) + sigma0 (fips_W M (t + 1)))"
  by (subst fips_W.simps) (simp add: sigma0_fips sigma1_fips ac_simps)

lemma schedule16_fips:
  "schedule16 (map (\<lambda>i. fips_W M (b + i)) [0..<16]) = map (\<lambda>i. fips_W M (b + 16 + i)) [0..<16]"
proof -
  define u where "u = (\<lambda>i. fips_W M (b + i))"
  define v where "v = (\<lambda>i. fips_W M (b + 16 + i))"
  have s: "u i + (sigma1 (if i < 2 then u (i + 14) else v (i - 2)) + (if i < 7 then u (i + 9) else v (i - 7)) +
      sigma0 (if i < 15 then u (i + 1) else v (i - 15))) = v i" for i
  proof -
    have "v i = fips_W M (b + i + 16)" by (simp add: v_def ac_simps)
    also have "\<dots> = u i + (sigma1 (fips_W M (b + i + 14)) + fips_W M (b + i + 9) + sigma0 (fips_W M (b + i + 1)))"
      by (simp only: fips_W_step u_def)
    finally show ?thesis
      by (simp add: u_def v_def ac_simps)
  qed
  have e:
    "u 0 + (sigma1 (u 14) + u 9 + sigma0 (u 1)) = v 0"
    "u 1 + (sigma1 (u 15) + u 10 + sigma0 (u 2)) = v 1"
    "u 2 + (sigma1 (v 0) + u 11 + sigma0 (u 3)) = v 2"
    "u 3 + (sigma1 (v 1) + u 12 + sigma0 (u 4)) = v 3"
    "u 4 + (sigma1 (v 2) + u 13 + sigma0 (u 5)) = v 4"
    "u 5 + (sigma1 (v 3) + u 14 + sigma0 (u 6)) = v 5"
    "u 6 + (sigma1 (v 4) + u 15 + sigma0 (u 7)) = v 6"
    "u 7 + (sigma1 (v 5) + v 0 + sigma0 (u 8)) = v 7"
    "u 8 + (sigma1 (v 6) + v 1 + sigma0 (u 9)) = v 8"
    "u 9 + (sigma1 (v 7) + v 2 + sigma0 (u 10)) = v 9"
    "u 10 + (sigma1 (v 8) + v 3 + sigma0 (u 11)) = v 10"
    "u 11 + (sigma1 (v 9) + v 4 + sigma0 (u 12)) = v 11"
    "u 12 + (sigma1 (v 10) + v 5 + sigma0 (u 13)) = v 12"
    "u 13 + (sigma1 (v 11) + v 6 + sigma0 (u 14)) = v 13"
    "u 14 + (sigma1 (v 12) + v 7 + sigma0 (u 15)) = v 14"
    "u 15 + (sigma1 (v 13) + v 8 + sigma0 (v 0)) = v 15"
    using s [of 0] s [of 1] s [of 2] s [of 3] s [of 4] s [of 5] s [of 6] s [of 7] s [of 8] s [of 9]
      s [of 10] s [of 11] s [of 12] s [of 13] s [of 14] s [of 15] by simp_all (simp add: numeral_2_eq_2)
  have l: "map f [0..<16] = [f 0, f 1, f 2, f 3, f 4, f 5, f 6, f 7, f 8, f 9, f 10, f 11, f 12, f 13, f 14, f 15]"
    for f :: "nat \<Rightarrow> u32" by (simp add: upt_rec numeral_eq_Suc)
  have n: "schedule16 [u 0, u 1, u 2, u 3, u 4, u 5, u 6, u 7, u 8, u 9, u 10, u 11, u 12, u 13, u 14, u 15] =
      [v 0, v 1, v 2, v 3, v 4, v 5, v 6, v 7, v 8, v 9, v 10, v 11, v 12, v 13, v 14, v 15]"
    unfolding schedule16_def
    by (simp add: Let_def e [unfolded One_nat_def])
  show ?thesis unfolding u_def [symmetric] v_def [symmetric] l by (rule n)
qed

subsection \<open>The compression function is the standard's\<close>

lemma foldl_upt_shift:
  "foldl (\<lambda>st i. F i st) st [a..<a + n] = foldl (\<lambda>st i. F (a + i) st) st [0..<n]"
  by (induction n) simp_all

lemma rounds16_fips:
  assumes "length k = 16" and "length w = 16"
  shows "rounds16 k w st = foldl (\<lambda>st i. fips_step (k ! i) (w ! i) st) st [0..<16]"
proof -
  have u: "[0..<16 :: nat] = [0..<8] @ [8..<8 + 8]" by (simp add: upt_rec)
  have "foldl (\<lambda>st i. fips_step (k ! i) (w ! i) st) st [0..<16] =
      foldl (\<lambda>st i. fips_step (k ! i) (w ! i) st) (foldl (\<lambda>st i. fips_step (k ! i) (w ! i) st) st [0..<8]) [8..<8 + 8]"
    unfolding u foldl_append ..
  also have "foldl (\<lambda>st i. fips_step (k ! i) (w ! i) st) st [0..<8] =
      foldl (\<lambda>st i. fips_step (take 8 k ! i) (take 8 w ! i) st) st [0..<8]"
    by (rule foldl_cong) auto
  also have "foldl (\<lambda>st i. fips_step (k ! i) (w ! i) st) st' [8..<8 + 8] =
      foldl (\<lambda>st i. fips_step (drop 8 k ! i) (drop 8 w ! i) st) st' [0..<8]" for st'
    unfolding foldl_upt_shift using assms by (intro foldl_cong) auto
  finally show ?thesis by (simp add: rounds16_def rounds8_fips)
qed

lemma secp256k1_sha256_transform_fips:
  assumes "length chunk = 16"
  shows "secp256k1_sha256_transform s chunk = fips_compress s (map BE32 chunk)"
proof -
  define M where "M = map BE32 chunk"
  define W where "W = (\<lambda>b. map (\<lambda>i. fips_W M (b + i)) [0..<16])"
  define st0 where "st0 = (s ! 0, s ! 1, s ! 2, s ! 3, s ! 4, s ! 5, s ! 6, s ! 7)"
  define F where "F = (\<lambda>n. foldl (\<lambda>st t. fips_step (round_constants ! t) (fips_W M t) st) st0 [0..<n])"
  have K: "length round_constants = 64" by (simp add: round_constants_def)
  have W0: "M = W 0"
    using assms by (intro nth_equalityI) (simp_all add: M_def W_def fips_W.simps)
  have W': "schedule16 (W b) = W (b + 16)" for b unfolding W_def by (rule schedule16_fips)
  have R: "rounds16 (take 16 (drop b round_constants)) (W b) (F b) = F (b + 16)" if "b + 16 \<le> 64" for b
  proof -
    have "rounds16 (take 16 (drop b round_constants)) (W b) (F b) =
        foldl (\<lambda>st i. fips_step (round_constants ! (b + i)) (fips_W M (b + i)) st) (F b) [0..<16]"
      using that K by (subst rounds16_fips) (auto simp: W_def intro!: foldl_cong)
    also have "\<dots> = foldl (\<lambda>st t. fips_step (round_constants ! t) (fips_W M t) st) (F b) [b..<b + 16]"
      by (rule foldl_upt_shift [symmetric])
    also have "\<dots> = F (b + 16)"
      unfolding F_def foldl_append [symmetric] by (subst upt_add_eq_append [of 0 b 16, symmetric]) simp_all
    finally show ?thesis .
  qed
  have F0: "F 0 = st0" by (simp add: F_def)
  have "secp256k1_sha256_transform s chunk =
      (let (a, b, c, d, e, f, g, h) = F 64
       in [s ! 0 + a, s ! 1 + b, s ! 2 + c, s ! 3 + d, s ! 4 + e, s ! 5 + f, s ! 6 + g, s ! 7 + h])"
    unfolding secp256k1_sha256_transform_def M_def [symmetric] st0_def [symmetric] Let_def W0 F0 [symmetric]
    using R [of 0] R [of 16] R [of 32] R [of 48] by (simp add: W')
  then show ?thesis by (simp add: fips_compress_def F_def st0_def M_def)
qed

subsection \<open>Blocks\<close>

definition be_word :: "u8 list \<Rightarrow> nat \<Rightarrow> u32" where
  "be_word b i = ((push_bit 24 (ucast (b ! (4 * i))) OR push_bit 16 (ucast (b ! (4 * i + 1)))) OR
     push_bit 8 (ucast (b ! (4 * i + 2)))) OR ucast (b ! (4 * i + 3))"

definition block_words :: "u8 list \<Rightarrow> u32 list" where
  "block_words b = map (be_word b) [0..<16]"

function fips_blocks :: "u32 list \<Rightarrow> u8 list \<Rightarrow> u32 list" where
  "fips_blocks H m = (if length m < 64 then H
     else fips_blocks (fips_compress H (block_words (take 64 m))) (drop 64 m))"
  by pat_completeness auto
termination by (relation "measure (\<lambda>(H, m). length m)") auto

declare fips_blocks.simps [simp del]

definition block_tail :: "u8 list \<Rightarrow> u8 list" where
  "block_tail m = drop (64 * (length m div 64)) m"

lemma bit_ucast8: "bit (ucast (b :: u8) :: u32) k \<longleftrightarrow> bit b k"
  by (auto simp: bit_unsigned_iff dest: bit_imp_le_length)

lemma BE32_le_word: "BE32 (le_word buf i) = be_word buf i"
proof -
  have b8: "bit (0xFF :: u32) k \<longleftrightarrow> k < 8" "bit (0xFF00 :: u32) k \<longleftrightarrow> 8 \<le> k \<and> k < 16"
    "bit (0xFF0000 :: u32) k \<longleftrightarrow> 16 \<le> k \<and> k < 24" "bit (0xFF000000 :: u32) k \<longleftrightarrow> 24 \<le> k \<and> k < 32" for k
  proof -
    have "(0xFF :: u32) = mask 8" "(0xFF00 :: u32) = push_bit 8 (mask 8)" "(0xFF0000 :: u32) = push_bit 16 (mask 8)"
      "(0xFF000000 :: u32) = push_bit 24 (mask 8)" by (simp_all add: mask_eq_exp_minus_1)
    then show "bit (0xFF :: u32) k \<longleftrightarrow> k < 8" "bit (0xFF00 :: u32) k \<longleftrightarrow> 8 \<le> k \<and> k < 16"
      "bit (0xFF0000 :: u32) k \<longleftrightarrow> 16 \<le> k \<and> k < 24" "bit (0xFF000000 :: u32) k \<longleftrightarrow> 24 \<le> k \<and> k < 32"
      by (auto simp only: bit_push_bit_iff bit_mask_iff possible_bit_def) auto
  qed
  have s8: "bit (x :: u8) k \<Longrightarrow> k < 8" for x k using bit_imp_le_length [of x k] by simp
  define b0 b1 b2 b3 where "b0 = buf ! (4 * i)" and "b1 = buf ! (4 * i + 1)" and "b2 = buf ! (4 * i + 2)"
    and "b3 = buf ! (4 * i + 3)"
  have le: "bit (le_word buf i) k \<longleftrightarrow> bit b0 k \<or> 8 \<le> k \<and> bit b1 (k - 8) \<or> 16 \<le> k \<and> bit b2 (k - 16) \<or>
      24 \<le> k \<and> bit b3 (k - 24)" for k
    unfolding le_word_def b0_def b1_def b2_def b3_def
    by (auto simp: bit_or_iff bit_push_bit_iff bit_ucast8 simp del: push_bit_eq_mult dest: s8)
  show ?thesis
  proof (rule bit_eqI)
    fix k
    assume "possible_bit TYPE(u32) k"
    then have k: "k < 32" by simp
    have be: "bit (be_word buf i) k \<longleftrightarrow> 24 \<le> k \<and> bit b0 (k - 24) \<or> 16 \<le> k \<and> bit b1 (k - 16) \<or>
        8 \<le> k \<and> bit b2 (k - 8) \<or> bit b3 k"
      unfolding be_word_def b0_def b1_def b2_def b3_def using k
      by (auto simp: bit_or_iff bit_push_bit_iff bit_ucast8 simp del: push_bit_eq_mult)
    have p: "bit (push_bit 24 (le_word buf i AND 0xFF)) k \<longleftrightarrow> 24 \<le> k \<and> bit b0 (k - 24)"
      "bit (push_bit 8 (le_word buf i AND 0xFF00)) k \<longleftrightarrow> 16 \<le> k \<and> bit b1 (k - 16)"
      "bit (drop_bit 8 (le_word buf i AND 0xFF0000)) k \<longleftrightarrow> 8 \<le> k \<and> bit b2 (k - 8)"
      "bit (drop_bit 24 (le_word buf i AND 0xFF000000)) k \<longleftrightarrow> bit b3 k"
      unfolding bit_push_bit_iff bit_drop_bit_eq bit_and_iff b8 le
      using k s8 [of b0 k] s8 [of b0 "k - 8"] s8 [of b0 "k - 24"] s8 [of b1 "k - 8"] s8 [of b1 "k - 16"] s8 [of b1 k]
        s8 [of b2 "k - 8"] s8 [of b2 "k - 16"] s8 [of b3 k] s8 [of b3 "k - 24"]
        s8 [of b0 "8 + k"] s8 [of b1 "8 + k - 8"] s8 [of b2 "8 + k - 16"] s8 [of b3 "8 + k - 24"]
        s8 [of b0 "24 + k"] s8 [of b1 "24 + k - 8"] s8 [of b2 "24 + k - 16"] s8 [of b3 "24 + k - 24"]
        s8 [of b1 "k - 8 - 8"] s8 [of b2 "k - 8 - 16"] s8 [of b3 "k - 8 - 24"]
      by auto
    show "bit (BE32 (le_word buf i)) k \<longleftrightarrow> bit (be_word buf i) k"
      unfolding BE32_def bit_or_iff p be by blast
  qed
qed

lemma map_BE32_buf_words: "map BE32 (buf_words buf) = block_words buf"
  by (simp add: buf_words_def block_words_def BE32_le_word)

lemma fips_blocks_short: "length m < 64 \<Longrightarrow> fips_blocks H m = H"
  by (subst fips_blocks.simps) simp

lemma fips_blocks_long:
  "64 \<le> length m \<Longrightarrow> fips_blocks H m = fips_blocks (fips_compress H (block_words (take 64 m))) (drop 64 m)"
  by (subst fips_blocks.simps) simp

lemma block_tail_drop: "64 \<le> length m \<Longrightarrow> block_tail m = block_tail (drop 64 m)"
proof -
  assume "64 \<le> length m"
  then have "length m div 64 = Suc ((length m - 64) div 64)" by (simp add: le_div_geq)
  then show ?thesis by (simp add: block_tail_def add.commute)
qed

lemma length_block_tail: "length (block_tail m) = length m mod 64"
  by (simp add: block_tail_def minus_mult_div_eq_mod)

lemma block_tail_short: "length m < 64 \<Longrightarrow> block_tail m = m"
  by (simp add: block_tail_def)

lemma fips_blocks_append: "fips_blocks H (m @ d) = fips_blocks (fips_blocks H m) (block_tail m @ d)"
proof (induction H m rule: fips_blocks.induct)
  case (1 H m)
  show ?case
  proof (cases "length m < 64")
    case True
    then show ?thesis by (simp add: fips_blocks_short block_tail_short)
  next
    case False
    then show ?thesis using 1 by (simp add: fips_blocks_long block_tail_drop)
  qed
qed

lemma block_tail_append: "block_tail (m @ d) = block_tail (block_tail m @ d)"
proof (induction m rule: length_induct)
  case (1 m)
  show ?case
  proof (cases "length m < 64")
    case True
    then show ?thesis by (simp add: block_tail_short)
  next
    case False
    then have "length (drop 64 m) < length m" by simp
    then have ih: "block_tail (drop 64 m @ d) = block_tail (block_tail (drop 64 m) @ d)" using 1 by blast
    have "block_tail (m @ d) = block_tail (drop 64 m @ d)" using False by (subst block_tail_drop) auto
    then show ?thesis using False ih by (simp add: block_tail_drop [of m])
  qed
qed

subsection \<open>Streaming\<close>

lemma write_loop_fips:
  assumes "length buf = 64" and "bufsize < 64" and "take bufsize buf = pre"
  shows "fst (write_loop s buf bufsize data) = fips_blocks s (pre @ data) \<and>
    length (snd (write_loop s buf bufsize data)) = 64 \<and>
    take (length (pre @ data) mod 64) (snd (write_loop s buf bufsize data)) = block_tail (pre @ data)"
  using assms
proof (induction s buf bufsize data arbitrary: pre rule: write_loop.induct)
  case (1 s buf bufsize data)
  have pre: "length pre = bufsize" using 1(2-4) by auto
  show ?case
  proof (cases "64 \<le> bufsize + length data")
    case True
    define buf' where "buf' = buf_write buf bufsize (take (64 - bufsize) data)"
    have b': "buf' = take 64 (pre @ data)"
      using True 1(2-4) pre by (simp add: buf'_def buf_write_def)
    have d: "drop (64 - bufsize) data = drop 64 (pre @ data)" using 1(3) pre by simp
    have tr: "secp256k1_sha256_transform s (buf_words buf') = fips_compress s (block_words (take 64 (pre @ data)))"
      by (simp add: secp256k1_sha256_transform_fips map_BE32_buf_words b' buf_words_def)
        (simp add: map_BE32_buf_words [unfolded buf_words_def, simplified map_map])
    have run: "write_loop s buf bufsize data =
        write_loop (fips_compress s (block_words (take 64 (pre @ data)))) buf' 0 (drop 64 (pre @ data))"
      using True by (subst write_loop.simps) (simp only: Let_def buf'_def [symmetric] tr d if_True)
    have len: "length buf' = 64" using True pre by (simp add: b')
    have "length (pre @ data) mod 64 = length (drop 64 (pre @ data)) mod 64"
      using True pre 1(3) by (simp add: le_mod_geq add.commute)
    then show ?thesis
      unfolding run using 1(1) [OF True refl refl refl, folded buf'_def, unfolded tr d, of "[]"] len True pre
      by (simp add: fips_blocks_long block_tail_drop)
  next
    case False
    then show ?thesis
      using 1(2-4) pre by (subst (1 2 3) write_loop.simps) (auto simp: fips_blocks_short block_tail_short buf_write_def)
  qed
qed

subsection \<open>The interface of an incremental hash\<close>

locale stream_hash =
  fixes repr :: "'h \<Rightarrow> u8 list \<Rightarrow> bool"
    and upd :: "'h \<Rightarrow> u8 list \<Rightarrow> 'h"
    and fin :: "'h \<Rightarrow> 'h \<times> u8 list"
    and H :: "u8 list \<Rightarrow> u8 list"
    and limit :: nat
  assumes write_repr: "repr h m \<Longrightarrow> repr (upd h d) (m @ d)"
    and fin_out: "repr h m \<Longrightarrow> length m < limit \<Longrightarrow> snd (fin h) = H m"
begin

lemma writes_repr: "repr h m \<Longrightarrow> repr (foldl upd h parts) (m @ concat parts)"
proof (induction parts arbitrary: h m)
  case (Cons p ps)
  then show ?case using Cons.IH [OF write_repr [OF Cons.prems]] by simp
qed simp

lemma run_out:
  assumes "repr h m" and "length (m @ concat parts) < limit"
  shows "snd (fin (foldl upd h parts)) = H (m @ concat parts)"
  using fin_out [OF writes_repr [OF assms(1)]] assms(2) by blast

end

subsection \<open>SHA-256 of the standard\<close>

definition fips_H0 :: "u32 list" where
  "fips_H0 = [0x6a09e667, 0xbb67ae85, 0x3c6ef372, 0xa54ff53a, 0x510e527f, 0x9b05688c, 0x1f83d9ab, 0x5be0cd19]"

definition be_bytes32 :: "u32 \<Rightarrow> u8 list" where
  "be_bytes32 w = [ucast (drop_bit 24 w), ucast (drop_bit 16 w), ucast (drop_bit 8 w), ucast w]"

definition fips_pad :: "u8 list \<Rightarrow> u8 list" where
  "fips_pad m =
     (let L = (of_nat (8 * length m) :: u64);
          k = nat ((55 - int (length m)) mod 64)
      in m @ 0x80 # replicate k 0 @ be_bytes32 (ucast (drop_bit 32 L)) @ be_bytes32 (ucast L))"

definition fips_sha256 :: "u8 list \<Rightarrow> u8 list" where
  "fips_sha256 m = concat (map be_bytes32 (fips_blocks fips_H0 (fips_pad m)))"

definition sha_repr :: "secp256k1_sha256_t \<Rightarrow> u8 list \<Rightarrow> bool" where
  "sha_repr h m \<longleftrightarrow> length (hash_buf h) = 64 \<and> hash_bytes h = of_nat (length m) \<and>
     hash_s h = fips_blocks fips_H0 m \<and> take (length m mod 64) (hash_buf h) = block_tail m"

lemma sha_repr_initialize: "length (hash_buf h) = 64 \<Longrightarrow> sha_repr (secp256k1_sha256_initialize h) []"
  by (simp add: sha_repr_def secp256k1_sha256_initialize_def fips_blocks_short fips_H0_def block_tail_def)

lemma unat_bufsize: "unat ((of_nat n :: u64) AND 0x3F) = n mod 64"
proof -
  have "unat ((of_nat n :: u64) AND 0x3F) = unat (of_nat n :: u64) mod 2 ^ 6"
    by (rule unat_and_mask) (simp add: mask_eq_exp_minus_1)
  also have "\<dots> = n mod 2 ^ 64 mod 2 ^ 6" by (simp add: unat_of_nat)
  also have "\<dots> = n mod 64" by (simp add: mod_mod_cancel)
  finally show ?thesis .
qed

lemma sha_repr_write: "sha_repr h m \<Longrightarrow> sha_repr (secp256k1_sha256_write h d) (m @ d)"
proof -
  assume h: "sha_repr h m"
  obtain s buf where w: "write_loop (hash_s h) (hash_buf h) (length m mod 64) d = (s, buf)" by fastforce
  have res: "secp256k1_sha256_write h d = h\<lparr>hash_s := s, hash_buf := buf, hash_bytes := of_nat (length (m @ d))\<rparr>"
    using h w by (simp add: secp256k1_sha256_write_def sha_repr_def unat_bufsize Let_def)
  have loop: "s = fips_blocks (hash_s h) (block_tail m @ d)" "length buf = 64"
    "take (length (block_tail m @ d) mod 64) buf = block_tail (block_tail m @ d)"
    using write_loop_fips [of "hash_buf h" "length m mod 64" "block_tail m" "hash_s h" d] h w
    by (simp_all add: sha_repr_def)
  have "length (block_tail m @ d) mod 64 = length (m @ d) mod 64"
    by (simp add: length_block_tail mod_add_left_eq)
  then show ?thesis
    using loop h unfolding res
    by (simp add: sha_repr_def fips_blocks_append [of _ m d] block_tail_append [of m d])
qed

lemma bit_byte_masks:
  "bit (0xFF :: u32) k \<longleftrightarrow> k < 8" "bit (0xFF00 :: u32) k \<longleftrightarrow> 8 \<le> k \<and> k < 16"
  "bit (0xFF0000 :: u32) k \<longleftrightarrow> 16 \<le> k \<and> k < 24" "bit (0xFF000000 :: u32) k \<longleftrightarrow> 24 \<le> k \<and> k < 32"
proof -
  have "(0xFF :: u32) = mask 8" "(0xFF00 :: u32) = push_bit 8 (mask 8)" "(0xFF0000 :: u32) = push_bit 16 (mask 8)"
    "(0xFF000000 :: u32) = push_bit 24 (mask 8)" by (simp_all add: mask_eq_exp_minus_1)
  then show "bit (0xFF :: u32) k \<longleftrightarrow> k < 8" "bit (0xFF00 :: u32) k \<longleftrightarrow> 8 \<le> k \<and> k < 16"
    "bit (0xFF0000 :: u32) k \<longleftrightarrow> 16 \<le> k \<and> k < 24" "bit (0xFF000000 :: u32) k \<longleftrightarrow> 24 \<le> k \<and> k < 32"
    by (auto simp only: bit_push_bit_iff bit_mask_iff possible_bit_def) auto
qed

lemma bit_BE32:
  assumes "n < 8"
  shows "bit (BE32 w) n \<longleftrightarrow> bit w (24 + n)" "bit (BE32 w) (8 + n) \<longleftrightarrow> bit w (16 + n)"
    "bit (BE32 w) (16 + n) \<longleftrightarrow> bit w (8 + n)" "bit (BE32 w) (24 + n) \<longleftrightarrow> bit w n"
  using assms unfolding BE32_def bit_or_iff bit_push_bit_iff bit_drop_bit_eq bit_and_iff bit_byte_masks
  by auto

lemma word_bytes_BE32: "word_bytes (BE32 w) = be_bytes32 w"
proof -
  have u: "(ucast x :: u8) = ucast y \<longleftrightarrow> (\<forall>n < 8. bit x n \<longleftrightarrow> bit y n)" for x y :: u32
    by (auto simp: bit_eq_iff bit_unsigned_iff)
  show ?thesis
    unfolding word_bytes_def be_bytes32_def list.inject u using bit_BE32 [of _ w]
    by (auto simp: bit_drop_bit_eq simp del: drop_bit_eq_div)
qed

lemma pad_length:
  fixes n :: nat
  shows "unat (1 + (119 - (of_nat n :: u64) mod 64) mod 64) = Suc (nat ((55 - int n) mod 64))"
proof -
  define r where "r = n mod 64"
  have u: "unat ((of_nat n :: u64) mod 64) = r"
    by (simp add: unat_mod unat_of_nat mod_mod_cancel r_def)
  have u': "unat (of_nat n :: u64) mod 64 = r" by (simp add: unat_of_nat mod_mod_cancel r_def)
  have "(of_nat n :: u64) mod 64 \<le> 119" using u by (simp add: word_le_nat_alt r_def less_imp_le)
  then have v: "unat ((119 - (of_nat n :: u64) mod 64) mod 64) = (119 - r) mod 64"
    by (simp add: unat_mod unat_sub u')
  have "unat (1 + (119 - (of_nat n :: u64) mod 64) mod 64) = Suc ((119 - r) mod 64)"
    using v by (simp add: unat_word_ariths)
  moreover have "int ((119 - r) mod 64) = (55 - int n) mod 64"
  proof -
    have "r \<le> 119" unfolding r_def using mod_less_divisor [of 64 n] by simp
    then have "int ((119 - r) mod 64) = (119 - int n mod 64) mod 64" by (simp add: zmod_int r_def)
    also have "\<dots> = (55 - int n + 64) mod 64" by (simp add: mod_diff_right_eq)
    also have "\<dots> = (55 - int n) mod 64" by (simp only: mod_add_self2)
    finally show ?thesis .
  qed
  ultimately show ?thesis by simp
qed

lemma sha_finalize:
  assumes h: "sha_repr h m" and m: "length m < 2 ^ 61"
  shows "snd (secp256k1_sha256_finalize h) = fips_sha256 m"
proof -
  define k where "k = nat ((55 - int (length m)) mod 64)"
  define L where "L = (of_nat (8 * length m) :: u64)"
  have b: "hash_bytes h = of_nat (length m)" using h by (simp add: sha_repr_def)
  have k: "k \<le> 63" unfolding k_def by (simp add: nat_le_iff)
  have pad: "take (Suc k) sha256_pad = 0x80 # replicate k 0"
    using k by (simp add: sha256_pad_def)
  have fp: "fips_pad m = m @ (0x80 # replicate k 0) @ be_bytes32 (ucast (drop_bit 32 L)) @ be_bytes32 (ucast L)"
    unfolding fips_pad_def Let_def L_def k_def by (simp only: append_Cons)
  have hi: "ucast (drop_bit 29 (hash_bytes h)) = (ucast (drop_bit 32 L) :: u32)"
  proof -
    have "unat (hash_bytes h) = length m" "unat L = 8 * length m"
      using m unfolding b L_def unat_of_nat by simp_all
    then have "int (unat (hash_bytes h)) = int (length m)" "int (unat L) = int (8 * length m)" by simp_all
    then have "uint (hash_bytes h) = int (length m)" "uint L = 8 * int (length m)" by simp_all
    moreover have "8 * int (length m) div 2 ^ 32 = int (length m) div 2 ^ 29"
      using div_mult_mult1 [of 8 "int (length m)" "2 ^ 29"] by simp
    ultimately show ?thesis by (simp add: word_uint_eq_iff uint_trunc uint_shr del: drop_bit_eq_div)
  qed
  have lo: "ucast (push_bit 3 (hash_bytes h)) = (ucast L :: u32)"
    by (simp add: b L_def push_bit_eq_mult mult.commute)
  have "sha_repr (secp256k1_sha256_write (secp256k1_sha256_write h (take (Suc k) sha256_pad))
      (be_bytes32 (ucast (drop_bit 32 L)) @ be_bytes32 (ucast L))) (fips_pad m)"
    unfolding fp pad append.assoc [symmetric, of m] by (intro sha_repr_write h)
  moreover have "snd (secp256k1_sha256_finalize h) = concat (map word_bytes (map BE32 (hash_s
      (secp256k1_sha256_write (secp256k1_sha256_write h (take (Suc k) sha256_pad))
      (be_bytes32 (ucast (drop_bit 32 L)) @ be_bytes32 (ucast L))))))"
    unfolding secp256k1_sha256_finalize_def Let_def hi lo word_bytes_BE32 snd_conv
    unfolding b pad_length k_def [symmetric] ..
  ultimately show ?thesis
    by (simp add: sha_repr_def fips_sha256_def word_bytes_BE32 comp_def)
qed

interpretation sha: stream_hash sha_repr secp256k1_sha256_write secp256k1_sha256_finalize fips_sha256 "2 ^ 61"
  by unfold_locales (rule sha_repr_write, assumption, rule sha_finalize)

subsection \<open>HMAC of the standard\<close>

definition hmac_block :: "u8 list \<Rightarrow> u8 list" where
  "hmac_block key = (if length key \<le> 64 then key @ replicate (64 - length key) 0
     else fips_sha256 key @ replicate 32 0)"

definition rfc_hmac :: "u8 list \<Rightarrow> u8 list \<Rightarrow> u8 list" where
  "rfc_hmac key m = fips_sha256 (map (\<lambda>b. b XOR 0x5c) (hmac_block key) @
     fips_sha256 (map (\<lambda>b. b XOR 0x36) (hmac_block key) @ m))"

definition hmac_repr :: "u8 list \<Rightarrow> secp256k1_hmac_sha256_t \<Rightarrow> u8 list \<Rightarrow> bool" where
  "hmac_repr key h m \<longleftrightarrow> sha_repr (hmac_inner h) (map (\<lambda>b. b XOR 0x36) (hmac_block key) @ m) \<and>
     sha_repr (hmac_outer h) (map (\<lambda>b. b XOR 0x5c) (hmac_block key))"

lemma length_fips_compress: "length (fips_compress H M) = 8"
  by (simp add: fips_compress_def split: prod.split)

lemma length_fips_blocks: "length H = 8 \<Longrightarrow> length (fips_blocks H m) = 8"
proof (induction H m rule: fips_blocks.induct)
  case (1 H m)
  then show ?case
    by (cases "length m < 64") (simp_all add: fips_blocks_short fips_blocks_long length_fips_compress)
qed

lemma length_fips_sha256: "length (fips_sha256 m) = 32"
proof -
  have "length (concat (map be_bytes32 ws)) = 4 * length ws" for ws
    by (induction ws) (simp_all add: be_bytes32_def)
  then show ?thesis by (simp add: fips_sha256_def length_fips_blocks fips_H0_def)
qed

lemma length_hmac_block: "length (hmac_block key) = 64"
  by (simp add: hmac_block_def length_fips_sha256)

definition sha_ok :: "secp256k1_sha256_t \<Rightarrow> bool" where
  "sha_ok h \<longleftrightarrow> length (hash_buf h) = 64"

definition hmac_ok :: "secp256k1_hmac_sha256_t \<Rightarrow> bool" where
  "hmac_ok h \<longleftrightarrow> sha_ok (hmac_inner h) \<and> sha_ok (hmac_outer h)"

lemma hmac_rkey_block:
  assumes "sha_ok sha256" and "length key < 2 ^ 61"
  shows "hmac_rkey sha256 key = hmac_block key"
proof -
  have r: "sha_repr (secp256k1_sha256_write (secp256k1_sha256_initialize sha256) key) key"
    using sha_repr_write [OF sha_repr_initialize [of sha256], of key] assms(1) by (simp add: sha_ok_def)
  show ?thesis
    using sha_finalize [OF r assms(2)] by (auto simp: hmac_rkey_def hmac_block_def Let_def split: prod.splits)
qed

lemma hmac_initialize_repr:
  assumes "sha_ok sha256" and "hmac_ok h" and "length key < 2 ^ 61"
  shows "hmac_repr key (secp256k1_hmac_sha256_initialize sha256 h key) []"
proof -
  have i: "length (hash_buf (hmac_inner h)) = 64" "length (hash_buf (hmac_outer h)) = 64"
    using assms(2) by (simp_all add: hmac_ok_def sha_ok_def)
  have x: "(\<lambda>b :: u8. b XOR (0x5c XOR 0x36)) \<circ> (\<lambda>b. b XOR 0x5c) = (\<lambda>b. b XOR 0x36)"
    by (auto simp: fun_eq_iff xor.assoc)
  show ?thesis
    using sha_repr_write [OF sha_repr_initialize [OF i(1)]] sha_repr_write [OF sha_repr_initialize [OF i(2)]]
    unfolding hmac_repr_def secp256k1_hmac_sha256_initialize_def hmac_rkey_block [OF assms(1,3)] Let_def map_map x
    by simp
qed

interpretation hmac: stream_hash "hmac_repr key" secp256k1_hmac_sha256_write secp256k1_hmac_sha256_finalize
  "rfc_hmac key" "2 ^ 61 - 64" for key
proof
  fix h m d
  assume "hmac_repr key h m"
  then show "hmac_repr key (secp256k1_hmac_sha256_write h d) (m @ d)"
    using sha_repr_write [of "hmac_inner h" "map (\<lambda>b. b XOR 0x36) (hmac_block key) @ m" d] by (auto simp: hmac_repr_def secp256k1_hmac_sha256_write_def)
next
  fix h m
  assume h: "hmac_repr key h m" and m: "length m < 2 ^ 61 - 64"
  define i where "i = map (\<lambda>b. b XOR 0x36) (hmac_block key) @ m"
  define o' where "o' = map (\<lambda>b. b XOR 0x5c) (hmac_block key)"
  have "length i < 2 ^ 61" using m by (simp add: i_def length_hmac_block)
  then have fi: "snd (secp256k1_sha256_finalize (hmac_inner h)) = fips_sha256 i"
    using h by (intro sha_finalize) (simp_all add: hmac_repr_def i_def)
  have "sha_repr (secp256k1_sha256_write (hmac_outer h) (fips_sha256 i)) (o' @ fips_sha256 i)"
    using h by (intro sha_repr_write) (simp add: hmac_repr_def o'_def)
  then have fo: "snd (secp256k1_sha256_finalize (secp256k1_sha256_write (hmac_outer h) (fips_sha256 i))) =
      fips_sha256 (o' @ fips_sha256 i)"
    by (rule sha_finalize) (simp add: o'_def length_hmac_block length_fips_sha256)
  show "snd (secp256k1_hmac_sha256_finalize h) = rfc_hmac key m"
    using fi fo by (auto simp: secp256k1_hmac_sha256_finalize_def rfc_hmac_def i_def o'_def Let_def split: prod.splits)
qed

subsection \<open>The generator of RFC 6979\<close>

lemma hmac_run_eq:
  assumes "sha_ok sha256" and "hmac_ok hmac" and "length key < 2 ^ 61" and "length (concat parts) < 2 ^ 61 - 64"
  shows "hmac_run sha256 hmac key parts = rfc_hmac key (concat parts)"
  using hmac.run_out [OF hmac_initialize_repr [OF assms(1-3)], of parts] assms(4)
  by (simp add: hmac_run_def)

lemma length_rfc_hmac: "length (rfc_hmac key m) = 32"
  by (simp add: rfc_hmac_def length_fips_sha256)

text \<open>Step h of RFC 6979 section 3.2 with \<open>T\<close> collected until it has enough bytes.\<close>

fun rfc_bytes :: "u8 list \<Rightarrow> nat \<Rightarrow> u8 list \<Rightarrow> u8 list" where
  "rfc_bytes K 0 V = []"
| "rfc_bytes K (Suc n) V = rfc_hmac K V @ rfc_bytes K n (rfc_hmac K V)"

lemma generate_loop_eq:
  assumes "sha_ok sha256" and "hmac_ok hmac" and "length k = 32" and "length v = 32"
  shows "generate_loop sha256 hmac k v n =
    (take n (rfc_bytes k ((n + 31) div 32) v), (rfc_hmac k ^^ ((n + 31) div 32)) v)"
  using assms(4)
proof (induction n arbitrary: v rule: less_induct)
  case (less n)
  show ?case
  proof (cases "n = 0")
    case True
    then show ?thesis by (subst generate_loop.simps) simp
  next
    case False
    define w where "w = rfc_hmac k v"
    have w: "hmac_run sha256 hmac k [v] = w" "length w = 32"
      using hmac_run_eq [OF assms(1,2), of k "[v]"] less.prems assms(3) by (simp_all add: w_def length_rfc_hmac)
    define now where "now = (if n > 32 then 32 else n)"
    have ih: "generate_loop sha256 hmac k w (n - now) =
        (take (n - now) (rfc_bytes k ((n - now + 31) div 32) w), (rfc_hmac k ^^ ((n - now + 31) div 32)) w)"
      using False w(2) by (intro less.IH) (simp_all add: now_def)
    have d: "(n + 31) div 32 = Suc ((n - now + 31) div 32)" using False by (auto simp: now_def)
    have "generate_loop sha256 hmac k v n = (take now w @ take (n - now) (rfc_bytes k ((n - now + 31) div 32) w),
        (rfc_hmac k ^^ ((n - now + 31) div 32)) w)"
      using False by (subst generate_loop.simps) (simp add: w(1) now_def [symmetric] ih Let_def)
    moreover have "take n (rfc_bytes k ((n + 31) div 32) v) = take now w @ take (n - now) (rfc_bytes k ((n - now + 31) div 32) w)"
      unfolding d using w(2) by (auto simp: w_def [symmetric] now_def)
    moreover have "(rfc_hmac k ^^ ((n + 31) div 32)) v = (rfc_hmac k ^^ ((n - now + 31) div 32)) w"
      unfolding d by (simp add: w_def funpow_swap1)
    ultimately show ?thesis by simp
  qed
qed

definition rfc_init :: "u8 list \<Rightarrow> u8 list \<times> u8 list" where
  "rfc_init key =
     (let V = replicate 32 0x01;
          K = replicate 32 0x00;
          K = rfc_hmac K (V @ [0x00] @ key);
          V = rfc_hmac K V;
          K = rfc_hmac K (V @ [0x01] @ key);
          V = rfc_hmac K V
      in (K, V))"

definition rng_ok :: "secp256k1_rfc6979_hmac_sha256_t \<Rightarrow> bool" where
  "rng_ok rng \<longleftrightarrow> length (rng_k rng) = 32 \<and> length (rng_v rng) = 32"

lemma rfc6979_initialize_eq:
  assumes "sha_ok sha256" and "hmac_ok hmac" and "length key < 2 ^ 60"
  shows "secp256k1_rfc6979_hmac_sha256_initialize sha256 hmac key =
    \<lparr>rng_v = snd (rfc_init key), rng_k = fst (rfc_init key), rng_retry = False\<rparr>"
proof -
  have run: "hmac_run sha256 hmac k parts = rfc_hmac k (concat parts)"
    if "length k = 32" "length (concat parts) < 2 ^ 61 - 64" for k parts
    using that by (intro hmac_run_eq [OF assms(1,2)]) simp_all
  show ?thesis
    using assms(3)
    by (simp add: secp256k1_rfc6979_hmac_sha256_initialize_def rfc_init_def Let_def run length_rfc_hmac)
qed

lemma rfc6979_generate_eq:
  assumes "sha_ok sha256" and "hmac_ok hmac" and "rng_ok rng"
  defines "K \<equiv> (if rng_retry rng then rfc_hmac (rng_k rng) (rng_v rng @ [0x00]) else rng_k rng)"
  defines "V \<equiv> (if rng_retry rng then rfc_hmac K (rng_v rng) else rng_v rng)"
  shows "secp256k1_rfc6979_hmac_sha256_generate sha256 hmac rng n =
    (\<lparr>rng_v = (rfc_hmac K ^^ ((n + 31) div 32)) V, rng_k = K, rng_retry = True\<rparr>,
     take n (rfc_bytes K ((n + 31) div 32) V))"
proof -
  have run: "hmac_run sha256 hmac k parts = rfc_hmac k (concat parts)"
    if "length k = 32" "length (concat parts) < 2 ^ 61 - 64" for k parts
    using that by (intro hmac_run_eq [OF assms(1,2)]) simp_all
  have len: "length K = 32" "length V = 32"
    using assms(3) by (simp_all add: K_def V_def length_rfc_hmac rng_ok_def)
  have "(if rng_retry rng
             then (let k = hmac_run sha256 hmac (rng_k rng) [rng_v rng, [0x00]];
                       v = hmac_run sha256 hmac k [rng_v rng]
                   in (k, v))
             else (rng_k rng, rng_v rng)) = (K, V)"
    using assms(3) by (simp add: K_def V_def run length_rfc_hmac rng_ok_def Let_def)
  then show ?thesis
    unfolding secp256k1_rfc6979_hmac_sha256_generate_def
    by (simp add: generate_loop_eq [OF assms(1,2) len])
qed

end
