(* ===== verification/Ecmult_Gen.thy ===== *)
theory Ecmult_Gen
  imports Group_Rep Scalar_Field Hash
begin

text \<open>
  Multiplication of the generator by a secret scalar (\<open>ecmult_gen.h\<close>, \<open>ecmult_gen_impl.h\<close>), built without
  a static table: 64 windows of four bits, each a table of 16 points that carries a multiple of a point
  \<open>U\<close> whose multiples cancel in the sum, read through conditional moves, and a blinding scalar with the
  matching starting point. Uninitialised arrays and memory are arguments, as in \<open>Ecmult\<close>.
\<close>

subsection \<open>The context\<close>

text \<open>\<open>prec\<close> is \<open>None\<close> for \<open>NULL\<close>, otherwise the 64 rows of 16 entries.\<close>

record secp256k1_ecmult_gen_context =
  prec :: "secp256k1_ge_storage list list option"
  blind :: secp256k1_scalar
  initial :: secp256k1_gej

definition secp256k1_ecmult_gen_context_init :: "secp256k1_ecmult_gen_context \<Rightarrow> secp256k1_ecmult_gen_context" where
  "secp256k1_ecmult_gen_context_init ctx = ctx\<lparr>prec := None\<rparr>"

definition secp256k1_ecmult_gen_context_is_built :: "secp256k1_ecmult_gen_context \<Rightarrow> bool" where
  "secp256k1_ecmult_gen_context_is_built ctx \<longleftrightarrow> prec ctx \<noteq> None"

definition secp256k1_ecmult_gen_context_clone ::
  "secp256k1_ecmult_gen_context \<Rightarrow> secp256k1_ecmult_gen_context \<Rightarrow> secp256k1_ecmult_gen_context" where
  "secp256k1_ecmult_gen_context_clone dst src =
     (case prec src of None \<Rightarrow> dst\<lparr>prec := None\<rparr>
      | Some tab \<Rightarrow> dst\<lparr>prec := Some tab, initial := initial src, blind := blind src\<rparr>)"

definition secp256k1_ecmult_gen_context_clear :: "secp256k1_ecmult_gen_context \<Rightarrow> secp256k1_ecmult_gen_context" where
  "secp256k1_ecmult_gen_context_clear ctx =
     ctx\<lparr>blind := secp256k1_scalar_clear, initial := secp256k1_gej_clear, prec := None\<rparr>"

subsection \<open>Multiplication\<close>

text \<open>The entry \<open>bits\<close> of a row, by a conditional move over the whole row; \<open>adds\<close> keeps its value between
  the rows.\<close>

definition gen_select :: "secp256k1_ge_storage list \<Rightarrow> u32 \<Rightarrow> secp256k1_ge_storage \<Rightarrow> secp256k1_ge_storage" where
  "gen_select row bits adds =
     foldl (\<lambda>adds i. secp256k1_ge_storage_cmov adds (row ! i) (of_bool (word_of_nat i = bits))) adds [0..<16]"

definition secp256k1_ecmult_gen :: "secp256k1_ecmult_gen_context \<Rightarrow> secp256k1_scalar \<Rightarrow> secp256k1_gej" where
  "secp256k1_ecmult_gen ctx gn =
     (let adds = \<lparr>gs_x = \<lparr>s_0 = 0, s_1 = 0, s_2 = 0, s_3 = 0, s_4 = 0, s_5 = 0, s_6 = 0, s_7 = 0\<rparr>,
                  gs_y = \<lparr>s_0 = 0, s_1 = 0, s_2 = 0, s_3 = 0, s_4 = 0, s_5 = 0, s_6 = 0, s_7 = 0\<rparr>\<rparr>;
          r = initial ctx;
          gnb = fst (secp256k1_scalar_add gn (blind ctx));
          (r, adds) = foldl (\<lambda>(r, adds) j.
              let bits = secp256k1_scalar_get_bits gnb (word_of_nat (j * 4)) 4;
                  adds = gen_select (the (prec ctx) ! j) bits adds;
                  add = secp256k1_ge_from_storage adds
              in (secp256k1_gej_add_ge r add, adds)) (r, adds) [0..<64]
      in r)"

subsection \<open>Blinding\<close>

text \<open>One round of each of the two \<open>do\<close> loops, the value and whether to retry. \<open>sha256\<close> and \<open>hmac\<close> stand
  for the uninitialised locals of the generator.\<close>

definition blind_scale_round ::
  "secp256k1_sha256_t \<Rightarrow> secp256k1_hmac_sha256_t \<Rightarrow> secp256k1_rfc6979_hmac_sha256_t \<Rightarrow>
   secp256k1_rfc6979_hmac_sha256_t \<times> secp256k1_fe \<times> bool" where
  "blind_scale_round sha256 hmac rng =
     (let (rng, nonce32) = secp256k1_rfc6979_hmac_sha256_generate sha256 hmac rng 32;
          (s, ok) = secp256k1_fe_set_b32 nonce32;
          retry = \<not> ok;
          retry = (retry \<or> secp256k1_fe_is_zero s)
      in (rng, s, retry))"

definition blind_scalar_round ::
  "secp256k1_sha256_t \<Rightarrow> secp256k1_hmac_sha256_t \<Rightarrow> secp256k1_rfc6979_hmac_sha256_t \<Rightarrow>
   secp256k1_rfc6979_hmac_sha256_t \<times> secp256k1_scalar \<times> bool" where
  "blind_scalar_round sha256 hmac rng =
     (let (rng, nonce32) = secp256k1_rfc6979_hmac_sha256_generate sha256 hmac rng 32;
          (b, overflow) = secp256k1_scalar_set_b32 nonce32;
          retry = (overflow \<noteq> 0);
          retry = (retry \<or> secp256k1_scalar_is_zero b)
      in (rng, b, retry))"

text \<open>A \<open>do ... while (retry)\<close> loop over such a round; it may run forever, which is \<open>None\<close>.\<close>

partial_function (option) retry_loop :: "('g \<Rightarrow> 'g \<times> 'v \<times> bool) \<Rightarrow> 'g \<Rightarrow> ('g \<times> 'v) option" where
  "retry_loop round rng =
     (let (rng, v, retry) = round rng in if retry then retry_loop round rng else Some (rng, v))"

text \<open>Without a seed the starting point and the blinding value are reset; the generator is keyed with the
  previous value and the seed.\<close>

definition blind_reset :: "secp256k1_ecmult_gen_context \<Rightarrow> u8 list option \<Rightarrow> secp256k1_ecmult_gen_context" where
  "blind_reset ctx seed32 =
     (case seed32 of
        None \<Rightarrow> ctx\<lparr>initial := secp256k1_gej_neg (secp256k1_gej_set_ge secp256k1_ge_const_g),
                   blind := secp256k1_scalar_set_int 1\<rparr>
      | Some _ \<Rightarrow> ctx)"

definition blind_rng ::
  "secp256k1_sha256_t \<Rightarrow> secp256k1_hmac_sha256_t \<Rightarrow> secp256k1_ecmult_gen_context \<Rightarrow> u8 list option \<Rightarrow>
   secp256k1_rfc6979_hmac_sha256_t" where
  "blind_rng sha256 hmac ctx seed32 =
     (let nonce32 = secp256k1_scalar_get_b32 (blind ctx);
          keydata = buf_write (replicate 64 0) 0 nonce32;
          keydata = (case seed32 of None \<Rightarrow> keydata | Some seed \<Rightarrow> buf_write keydata 32 (take 32 seed))
      in secp256k1_rfc6979_hmac_sha256_initialize sha256 hmac (take (if seed32 \<noteq> None then 64 else 32) keydata))"

definition secp256k1_ecmult_gen_blind ::
  "secp256k1_sha256_t \<Rightarrow> secp256k1_hmac_sha256_t \<Rightarrow> secp256k1_ecmult_gen_context \<Rightarrow> u8 list option \<Rightarrow>
   secp256k1_ecmult_gen_context option" where
  "secp256k1_ecmult_gen_blind sha256 hmac ctx seed32 =
     (let ctx = blind_reset ctx seed32;
          rng = blind_rng sha256 hmac ctx seed32
      in Option.bind (retry_loop (blind_scale_round sha256 hmac) rng) (\<lambda>(rng, s).
         let ctx = ctx\<lparr>initial := secp256k1_gej_rescale (initial ctx) s\<rparr>
         in Option.bind (retry_loop (blind_scalar_round sha256 hmac) rng) (\<lambda>(rng, b).
            let gb = secp256k1_ecmult_gen ctx b;
                b = secp256k1_scalar_negate b;
                ctx = ctx\<lparr>blind := b\<rparr>
            in Some (ctx\<lparr>initial := gb\<rparr>))))"

subsection \<open>Building the table\<close>

text \<open>The unknown-scalar point: \<open>x\<close> is the 32 characters of a sentence, and the generator is added.\<close>

definition nums_b32 :: "u8 list" where
  "nums_b32 = map (\<lambda>c. word_of_nat (of_char c)) ''The scalar for this x is unknown''"

definition gen_nums :: "secp256k1_gej" where
  "gen_nums =
     (let nums_x = fst (secp256k1_fe_set_b32 nums_b32);
          nums_ge = fst (secp256k1_ge_set_xo_var nums_x 0);
          nums_gej = secp256k1_gej_set_ge nums_ge
      in fst (secp256k1_gej_add_ge_var nums_gej nums_gej secp256k1_ge_const_g None))"

definition gen_row :: "secp256k1_gej list \<Rightarrow> nat \<Rightarrow> secp256k1_gej \<Rightarrow> secp256k1_gej \<Rightarrow> secp256k1_gej list" where
  "gen_row precj j numsbase gbase =
     foldl (\<lambda>precj i. precj[j * 16 + i :=
         fst (secp256k1_gej_add_var (precj ! (j * 16 + i)) (precj ! (j * 16 + i - 1)) gbase None)])
       (precj[j * 16 := numsbase]) [1..<16]"

definition gen_step ::
  "secp256k1_gej \<Rightarrow> secp256k1_gej list \<times> secp256k1_gej \<times> secp256k1_gej \<Rightarrow> nat \<Rightarrow>
   secp256k1_gej list \<times> secp256k1_gej \<times> secp256k1_gej" where
  "gen_step nums_gej = (\<lambda>(precj, gbase, numsbase) j.
     let precj = gen_row precj j numsbase gbase;
         gbase = foldl (\<lambda>gbase i. fst (secp256k1_gej_double_var gbase gbase None)) gbase [0..<4];
         numsbase = fst (secp256k1_gej_double_var numsbase numsbase None);
         numsbase = (if j = 62
           then (let numsbase = secp256k1_gej_neg numsbase
                 in fst (secp256k1_gej_add_var numsbase numsbase nums_gej None))
           else numsbase)
     in (precj, gbase, numsbase))"

text \<open>From the generator and the unknown point to the stored rows.\<close>

definition gen_prec ::
  "secp256k1_gej list \<Rightarrow> secp256k1_fe list \<Rightarrow> secp256k1_ge list \<Rightarrow> secp256k1_ge_storage list list \<Rightarrow>
   secp256k1_gej \<Rightarrow> secp256k1_gej \<Rightarrow> secp256k1_ge_storage list list" where
  "gen_prec precj azi0 pre mem gj nums_gej =
     (let (precj, gbase, numsbase) = foldl (gen_step nums_gej) (precj, gj, nums_gej) [0..<64];
          pre = secp256k1_ge_set_all_gej_var azi0 pre precj 1024
      in foldl (\<lambda>mem j. foldl (\<lambda>mem i. mem[j := (mem ! j)[i := secp256k1_ge_to_storage (pre ! (j * 16 + i))]])
           mem [0..<16]) mem [0..<64])"

definition secp256k1_ecmult_gen_context_build ::
  "secp256k1_gej list \<Rightarrow> secp256k1_fe list \<Rightarrow> secp256k1_ge list \<Rightarrow> secp256k1_ge_storage list list \<Rightarrow>
   secp256k1_sha256_t \<Rightarrow> secp256k1_hmac_sha256_t \<Rightarrow> secp256k1_ecmult_gen_context \<Rightarrow>
   secp256k1_ecmult_gen_context option" where
  "secp256k1_ecmult_gen_context_build precj azi0 pre mem sha256 hmac ctx =
     (if prec ctx \<noteq> None then Some ctx
      else (let gj = secp256k1_gej_set_ge secp256k1_ge_const_g;
                nums_gej = gen_nums;
                ctx = ctx\<lparr>prec := Some (gen_prec precj azi0 pre mem gj nums_gej)\<rparr>
            in secp256k1_ecmult_gen_blind sha256 hmac ctx None))"

subsection \<open>What a context holds\<close>

definition nums_coeff :: "nat \<Rightarrow> int" where
  "nums_coeff j = (if j = 63 then 1 - 2 ^ 63 else 2 ^ j)"

definition gen_entry :: "epoint \<Rightarrow> nat \<Rightarrow> nat \<Rightarrow> epoint" where
  "gen_entry U j i = zmul (int i * 16 ^ j) gen + zmul (nums_coeff j) U"

definition gen_table :: "epoint \<Rightarrow> secp256k1_ge_storage list list \<Rightarrow> bool" where
  "gen_table U tab \<longleftrightarrow> (\<forall>j<64. \<forall>i<16. gs_rep (gen_entry U j i) (tab ! j ! i))"

definition ecmult_gen_context_ok :: "secp256k1_ecmult_gen_context \<Rightarrow> bool" where
  "ecmult_gen_context_ok ctx \<longleftrightarrow> (\<exists>tab U. prec ctx = Some tab \<and> gen_table U tab) \<and>
     scalar_val (blind ctx) < secp256k1_n \<and> gej_rep 1 (zmul (- scalar_val (blind ctx)) gen) (initial ctx)"

lemma nums_coeff_sum: "(\<Sum>j<64. nums_coeff j) = 0"
proof -
  have "(\<Sum>j<k. nums_coeff j) = 2 ^ k - 1" if "k \<le> 63" for k
    using that by (induction k) (simp_all add: nums_coeff_def)
  from this [of 63] show ?thesis
    using sum.lessThan_Suc [of nums_coeff 63] by (simp add: nums_coeff_def numeral_nat)
qed

lemma sum_digits: "0 \<le> V \<Longrightarrow> V < 16 ^ n \<Longrightarrow> (\<Sum>j<n. V div 16 ^ j mod 16 * 16 ^ j) = V" for V :: int
proof -
  assume V: "0 \<le> V" "V < 16 ^ n"
  have "(\<Sum>j<k. V div 16 ^ j mod 16 * 16 ^ j) = V mod 16 ^ k" for k
  proof (induction k)
    case (Suc k)
    have "V mod (16 ^ k * 16) = 16 ^ k * (V div 16 ^ k mod 16) + V mod 16 ^ k"
      by (rule zmod_zmult2_eq) simp
    then show ?case using Suc by (simp add: mult.commute)
  qed simp
  then show ?thesis using V by simp
qed

lemma gen_select_eq:
  assumes "k < 16"
  shows "gen_select row (word_of_nat k) adds = row ! k"
proof -
  have eq: "(word_of_nat i :: u32) = word_of_nat k \<longleftrightarrow> i = k" if "i < 16" for i
    using that assms by (simp add: word_of_nat_eq_iff take_bit_nat_eq_self)
  have "foldl (\<lambda>adds i. secp256k1_ge_storage_cmov adds (row ! i) (of_bool ((word_of_nat i :: u32) = word_of_nat k))) adds [0..<m] =
      (if k < m then row ! k else adds)" if "m \<le> 16" for m
    using that
  proof (induction m)
    case (Suc m)
    then show ?case using eq [of m] by (auto simp: storage_cmov)
  qed simp
  then show ?thesis using assms by (simp add: gen_select_def)
qed

lemma unat_u32: "k < 2 ^ 32 \<Longrightarrow> unat (word_of_nat k :: u32) = k"
  by (simp add: unat_of_nat)

lemma u32_of_nat_nat: "0 \<le> d \<Longrightarrow> word_of_nat (nat d) = (word_of_int d :: u32)"
  using of_int_of_nat_eq [of "nat d", where 'a = u32] by simp

lemma ecmult_gen_rep:
  assumes ctx: "ecmult_gen_context_ok ctx" and gn: "scalar_val gn < secp256k1_n"
  shows "gej_rep 1 (zmul (scalar_val gn) gen) (secp256k1_ecmult_gen ctx gn)"
proof -
  obtain tab U where tab: "prec ctx = Some tab" "gen_table U tab"
    and b: "scalar_val (blind ctx) < secp256k1_n" "gej_rep 1 (zmul (- scalar_val (blind ctx)) gen) (initial ctx)"
    using ctx by (auto simp: ecmult_gen_context_ok_def)
  define gnb where "gnb = fst (secp256k1_scalar_add gn (blind ctx))"
  define V where "V = scalar_val gnb"
  have V: "V = (scalar_val gn + scalar_val (blind ctx)) mod secp256k1_n"
    using scalar_add_val [of gn "blind ctx"] b(1) gn by (simp add: V_def gnb_def scalar_ok_def)
  have Vb: "0 \<le> V" "V < 16 ^ 64"
  proof -
    have "V < secp256k1_n" unfolding V by (rule pos_mod_bound) (rule n_pos)
    also have "secp256k1_n < 16 ^ 64" by (simp add: secp256k1_n_def)
    finally show "V < 16 ^ 64" .
    show "0 \<le> V" by (simp add: V_def)
  qed
  define step where "step = (\<lambda>(r, adds) j.
              let bits = secp256k1_scalar_get_bits gnb (word_of_nat (j * 4)) 4;
                  adds = gen_select (tab ! j) bits adds;
                  add = secp256k1_ge_from_storage adds
              in (secp256k1_gej_add_ge r add, adds))"
  have bits: "secp256k1_scalar_get_bits gnb (word_of_nat (j * 4)) 4 = word_of_nat (nat (V div 16 ^ j mod 16))" if "j < 64" for j
  proof -
    have u: "unat (word_of_nat (j * 4) :: u32) = j * 4"
      using that by (intro unat_u32) simp
    have "4 * (j mod 8) = j * 4 mod 32" using mult_mod_right [of 4 j 8] by (simp add: mult.commute)
    moreover have "j mod 8 < 8" by simp
    ultimately have "j * 4 mod 32 + 4 \<le> 32" by linarith
    moreover have "j * 4 < 256" using that by simp
    ultimately have "uint (secp256k1_scalar_get_bits gnb (word_of_nat (j * 4)) 4) = take_bit 4 (drop_bit (j * 4) V)"
      using secp256k1_scalar_get_bits_eq [of 4 "word_of_nat (j * 4)" gnb] unfolding u V_def by simp
    moreover have "(2 :: int) ^ (j * 4) = 16 ^ j" by (simp add: power_mult mult.commute [of j])
    ultimately have "uint (secp256k1_scalar_get_bits gnb (word_of_nat (j * 4)) 4) = V div 16 ^ j mod 16"
      by (simp add: take_bit_eq_mod drop_bit_eq_div)
    then have "secp256k1_scalar_get_bits gnb (word_of_nat (j * 4)) 4 = word_of_int (V div 16 ^ j mod 16)"
      by (metis word_of_int_uint)
    then show ?thesis by (simp only: u32_of_nat_nat pos_mod_sign zero_less_numeral)
  qed
  have loop: "gej_rep 1 (zmul (- scalar_val (blind ctx)) gen + (\<Sum>j<k. gen_entry U j (nat (V div 16 ^ j mod 16))))
      (fst (foldl step (initial ctx, adds0) [0..<k]))" if "k \<le> 64" for k adds0
    using that
  proof (induction k)
    case 0
    then show ?case using b(2) by simp
  next
    case (Suc k)
    obtain r adds where ra: "foldl step (initial ctx, adds0) [0..<k] = (r, adds)" by fastforce
    define d where "d = nat (V div 16 ^ k mod 16)"
    have d: "d < 16" by (simp add: d_def nat_less_iff)
    have "step (r, adds) k = (secp256k1_gej_add_ge r (secp256k1_ge_from_storage (tab ! k ! d)), tab ! k ! d)"
      using bits [of k] Suc.prems gen_select_eq [OF d] by (simp add: step_def Let_def d_def)
    moreover have gs: "gs_rep (gen_entry U k d) (tab ! k ! d)" using tab(2) d Suc.prems by (simp add: gen_table_def)
    moreover have "gej_rep 1 (zmul (- scalar_val (blind ctx)) gen + (\<Sum>j<k. gen_entry U j (nat (V div 16 ^ j mod 16)))) r"
      using Suc ra by simp
    note gej_rep_add_ge [OF this gs [unfolded gs_rep_def] gs_rep_nonzero [OF gs]]
    ultimately show ?case using ra by (simp add: d_def add.assoc)
  qed
  have "(\<Sum>j<k. gen_entry U j (nat (V div 16 ^ j mod 16))) =
      zmul (\<Sum>j<k. V div 16 ^ j mod 16 * 16 ^ j) gen + zmul (\<Sum>j<k. nums_coeff j) U" for k
    by (induction k) (simp_all add: gen_entry_def zmul_add add_ac)
  from this [of 64] have sum: "(\<Sum>j<64. gen_entry U j (nat (V div 16 ^ j mod 16))) = zmul V gen"
    unfolding nums_coeff_sum sum_digits [OF Vb] by simp
  have "zmul (- scalar_val (blind ctx)) gen + zmul V gen = zmul (- scalar_val (blind ctx) + V) gen"
    by (simp only: zmul_add)
  also have "\<dots> = zmul (scalar_val gn) gen"
    by (rule zmul_cong) (simp add: V mod_simps)
  finally have total: "zmul (- scalar_val (blind ctx)) gen + zmul V gen = zmul (scalar_val gn) gen" .
  have run: "secp256k1_ecmult_gen ctx gn = fst (foldl step (initial ctx,
      \<lparr>gs_x = \<lparr>s_0 = 0, s_1 = 0, s_2 = 0, s_3 = 0, s_4 = 0, s_5 = 0, s_6 = 0, s_7 = 0\<rparr>,
       gs_y = \<lparr>s_0 = 0, s_1 = 0, s_2 = 0, s_3 = 0, s_4 = 0, s_5 = 0, s_6 = 0, s_7 = 0\<rparr>\<rparr>) [0..<64])"
    by (simp add: secp256k1_ecmult_gen_def tab(1) gnb_def step_def case_prod_beta' Let_def)
  show ?thesis unfolding run using loop [OF order_refl] by (simp only: sum total)
qed

subsection \<open>Blinding keeps the meaning of the context\<close>

text \<open>The state of the generator after \<open>k\<close> rounds. The loop returns exactly when some round does not ask
  for another one, and then with the result of the first such round.\<close>

primrec rounds :: "('g \<Rightarrow> 'g \<times> 'v \<times> bool) \<Rightarrow> nat \<Rightarrow> 'g \<Rightarrow> 'g" where
  "rounds round 0 g = g"
| "rounds round (Suc k) g = rounds round k (fst (round g))"

lemma retry_loop_unfold:
  "retry_loop round g = (if snd (snd (round g)) then retry_loop round (fst (round g)) else Some (fst (round g), fst (snd (round g))))"
  by (subst retry_loop.simps) (simp add: case_prod_beta Let_def)

lemma retry_loop_first:
  assumes "\<not> snd (snd (round (rounds round k g)))" and "\<forall>i<k. snd (snd (round (rounds round i g)))"
  shows "retry_loop round g = Some (fst (round (rounds round k g)), fst (snd (round (rounds round k g))))"
  using assms
proof (induction k arbitrary: g)
  case 0
  then show ?case by (subst retry_loop_unfold) simp
next
  case (Suc k)
  have "snd (snd (round g))" using Suc.prems(2) by force
  moreover have "\<forall>i<k. snd (snd (round (rounds round i (fst (round g)))))" using Suc.prems(2) by force
  ultimately show ?case using Suc.IH [of "fst (round g)"] Suc.prems(1) by (subst retry_loop_unfold) simp
qed

lemma retry_loop_stops:
  assumes "retry_loop round g = Some y"
  shows "\<exists>k. \<not> snd (snd (round (rounds round k g)))"
proof (rule retry_loop.raw_induct [where P = "\<lambda>r g y. \<exists>k. \<not> snd (snd (r (rounds r k g)))", OF _ assms])
  fix loop :: "('g \<Rightarrow> 'g \<times> 'v \<times> bool) \<Rightarrow> 'g \<Rightarrow> ('g \<times> 'v) option" and round :: "'g \<Rightarrow> 'g \<times> 'v \<times> bool" and g y
  assume IH: "\<And>r g y. loop r g = Some y \<Longrightarrow> \<exists>k. \<not> snd (snd (r (rounds r k g)))"
    and eq: "(let (g', v, retry) = round g in if retry then loop round g' else Some (g', v)) = Some y"
  show "\<exists>k. \<not> snd (snd (round (rounds round k g)))"
  proof (cases "snd (snd (round g))")
    case True
    then have "loop round (fst (round g)) = Some y" using eq by (simp add: case_prod_beta Let_def)
    then obtain k where "\<not> snd (snd (round (rounds round k (fst (round g)))))" using IH by blast
    then have "\<not> snd (snd (round (rounds round (Suc k) g)))" by simp
    then show ?thesis ..
  next
    case False
    then have "\<not> snd (snd (round (rounds round 0 g)))" by simp
    then show ?thesis ..
  qed
qed

lemma retry_loop_result:
  assumes "retry_loop round g = Some (h, v)"
  shows "\<exists>k. round (rounds round k g) = (h, v, False) \<and> (\<forall>i<k. snd (snd (round (rounds round i g))))"
proof -
  define k where "k = (LEAST k. \<not> snd (snd (round (rounds round k g))))"
  have k: "\<not> snd (snd (round (rounds round k g)))" "\<forall>i<k. snd (snd (round (rounds round i g)))"
    using LeastI_ex [OF retry_loop_stops [OF assms]] not_less_Least unfolding k_def by blast+
  then show ?thesis using retry_loop_first [OF k] assms by (intro exI [of _ k]) (simp add: prod_eq_iff)
qed

lemma retry_loop_None_iff: "retry_loop round g = None \<longleftrightarrow> (\<forall>k. snd (snd (round (rounds round k g))))"
proof
  assume none: "retry_loop round g = None"
  show "\<forall>k. snd (snd (round (rounds round k g)))"
  proof (rule ccontr)
    assume "\<not> (\<forall>k. snd (snd (round (rounds round k g))))"
    then have ex: "\<exists>k. \<not> snd (snd (round (rounds round k g)))" by blast
    define k where "k = (LEAST k. \<not> snd (snd (round (rounds round k g))))"
    have "\<not> snd (snd (round (rounds round k g)))" "\<forall>i<k. snd (snd (round (rounds round i g)))"
      using LeastI_ex [OF ex] not_less_Least unfolding k_def by blast+
    then show False using retry_loop_first none by (metis option.distinct(1))
  qed
next
  assume all: "\<forall>k. snd (snd (round (rounds round k g)))"
  show "retry_loop round g = None"
  proof (cases "retry_loop round g")
    case (Some y)
    from retry_loop_stops [OF this] all show ?thesis by blast
  qed
qed

text \<open>The starting point rescaled by a nonzero field element stands for the same point.\<close>

lemma gej_rescale_rep:
  assumes a: "gej_rep 1 P a" and s: "fe_rep 8 x s" "x \<noteq> 0"
  shows "gej_rep 1 P (secp256k1_gej_rescale a s)"
proof (cases "gej_infinity a")
  case True
  then show ?thesis using a gej_rep_infinity [OF a]
    by (simp add: gej_rep_def gej_ok_def gej_abs_def secp256k1_gej_rescale_def Let_def)
next
  case False
  note f = gej_ok_finite [OF gej_rep_ok [OF a] False]
  define d where "d = secp256k1_gej_rescale a s"
  have "gej_ok d \<and> gej_abs d = jac (fe_abs (gej_x a) * (x * x)) (fe_abs (gej_y a) * (x * x) * x) (fe_abs (gej_z a) * x)"
  proof (rule gejI [where k = 1 and l = 1 and m = 1])
    show "fe_rep 1 (fe_abs (gej_x a) * (x * x)) (gej_x d)"
      unfolding d_def secp256k1_gej_rescale_def Let_def by simp (rule fe_rules f s | simp)+
    show "fe_rep 1 (fe_abs (gej_y a) * (x * x) * x) (gej_y d)"
      unfolding d_def secp256k1_gej_rescale_def Let_def by simp (rule fe_rules f s | simp)+
    show "fe_rep 1 (fe_abs (gej_z a) * x) (gej_z d)"
      unfolding d_def secp256k1_gej_rescale_def Let_def by simp (rule fe_rules f s | simp)+
    show "\<not> gej_infinity d" using False by (simp add: d_def secp256k1_gej_rescale_def Let_def)
  qed (use f(4) s(2) in simp_all)
  then show ?thesis using a f(5) jac_rescale [OF s(2), of "fe_abs (gej_x a)" "fe_abs (gej_y a)" "fe_abs (gej_z a)"]
    by (simp add: gej_rep_def d_def mult.assoc)
qed

lemma length_rfc_bytes: "length (rfc_bytes K n V) = 32 * n"
  by (induction n arbitrary: V) (simp_all add: length_rfc_hmac)

lemma length_rfc_hmac_pow: "length V = 32 \<Longrightarrow> length ((rfc_hmac K ^^ n) V) = 32"
  by (cases n) (simp_all add: length_rfc_hmac)

lemma rfc6979_generate_ok:
  assumes "sha_ok sha256" and "hmac_ok hmac" and "rng_ok rng"
  shows "length (snd (secp256k1_rfc6979_hmac_sha256_generate sha256 hmac rng n)) = n"
    and "rng_ok (fst (secp256k1_rfc6979_hmac_sha256_generate sha256 hmac rng n))"
proof -
  have "n \<le> 32 * ((n + 31) div 32)" by presburger
  then show "length (snd (secp256k1_rfc6979_hmac_sha256_generate sha256 hmac rng n)) = n"
    unfolding rfc6979_generate_eq [OF assms] by (simp add: length_rfc_bytes)
  show "rng_ok (fst (secp256k1_rfc6979_hmac_sha256_generate sha256 hmac rng n))"
    using assms(3) unfolding rfc6979_generate_eq [OF assms]
    by (auto simp: rng_ok_def length_rfc_hmac length_rfc_hmac_pow)
qed

lemma rfc6979_initialize_ok:
  "sha_ok sha256 \<Longrightarrow> hmac_ok hmac \<Longrightarrow> length key < 2 ^ 60 \<Longrightarrow>
    rng_ok (secp256k1_rfc6979_hmac_sha256_initialize sha256 hmac key)"
  by (simp add: rfc6979_initialize_eq rng_ok_def rfc_init_def Let_def length_rfc_hmac)

lemma rounds_inv: "Inv g \<Longrightarrow> (\<And>g. Inv g \<Longrightarrow> Inv (fst (round g))) \<Longrightarrow> Inv (rounds round k g)"
  by (induction k arbitrary: g) simp_all

lemma rounds_Suc_end: "round (rounds round k g) = (h, v, c) \<Longrightarrow> rounds round (Suc k) g = h"
  by (induction k arbitrary: g) simp_all

lemma blind_scale_value:
  assumes ok: "sha_ok sha256" "hmac_ok hmac" "rng_ok g" and "blind_scale_round sha256 hmac g = (h, s, False)"
  shows "\<exists>x. fe_rep 8 x s \<and> x \<noteq> 0"
proof -
  obtain g' nonce where n: "secp256k1_rfc6979_hmac_sha256_generate sha256 hmac g 32 = (g', nonce)" by fastforce
  have len: "length nonce = 32" using rfc6979_generate_ok(1) [OF ok, of 32] by (simp add: n)
  note b = secp256k1_fe_set_b32_val [OF len]
  have s: "s = fst (secp256k1_fe_set_b32 nonce)" and ok: "snd (secp256k1_fe_set_b32 nonce)" "\<not> secp256k1_fe_is_zero s"
    using assms(4) by (auto simp: blind_scale_round_def n Let_def case_prod_beta)
  have nrm: "fe_normalized s" using b ok(1) by (simp add: fe_normalized_def s)
  have "fe_val s \<noteq> 0" using ok(2) secp256k1_fe_is_zero_iff [of s] by simp
  then have "fe_abs s \<noteq> 0" using nrm fe_val_nonneg [of s]
    by (auto simp: fe_abs_def gf_eq_0_iff fe_normalized_def dest: zdvd_imp_le)
  moreover have "fe_rep 8 (fe_abs s) s"
    using fe_magnitude_mono [OF fe_normalized_magnitude [OF nrm], of 8] by (simp add: fe_rep_self)
  ultimately show ?thesis by blast
qed

lemma blind_scalar_value:
  assumes ok: "sha_ok sha256" "hmac_ok hmac" "rng_ok g" and "blind_scalar_round sha256 hmac g = (h, b, False)"
  shows "scalar_ok b \<and> scalar_val b \<noteq> 0"
proof -
  obtain g' nonce where n: "secp256k1_rfc6979_hmac_sha256_generate sha256 hmac g 32 = (g', nonce)" by fastforce
  have len: "length nonce = 32" using rfc6979_generate_ok(1) [OF ok, of 32] by (simp add: n)
  have b: "b = fst (secp256k1_scalar_set_b32 nonce)" "\<not> secp256k1_scalar_is_zero b"
    using assms(4) by (auto simp: blind_scalar_round_def n Let_def case_prod_beta)
  show ?thesis using b(2) scalar_ok_ops(4) [OF len] by (simp add: b(1) secp256k1_scalar_is_zero_eq)
qed

lemma blind_rounds_ok:
  assumes "sha_ok sha256" and "hmac_ok hmac" and "rng_ok g"
  shows "rng_ok (rounds (blind_scale_round sha256 hmac) k g)" and "rng_ok (rounds (blind_scalar_round sha256 hmac) k g)"
proof -
  have "rng_ok (fst (blind_scale_round sha256 hmac h))" "rng_ok (fst (blind_scalar_round sha256 hmac h))" if "rng_ok h" for h
    using rfc6979_generate_ok(2) [OF assms(1,2) that, of 32]
    by (simp_all add: blind_scale_round_def blind_scalar_round_def case_prod_beta Let_def)
  then show "rng_ok (rounds (blind_scale_round sha256 hmac) k g)" "rng_ok (rounds (blind_scalar_round sha256 hmac) k g)"
    using assms(3) by (auto intro: rounds_inv [where Inv = rng_ok])
qed

lemma scalar_set_int_val: "scalar_val (secp256k1_scalar_set_int 1) = 1"
  by (simp add: secp256k1_scalar_set_int_def scalar_val_def scalar_limbs_def)

lemma blind_none_ok:
  "gen_table U tab \<Longrightarrow> ecmult_gen_context_ok \<lparr>prec = Some tab, blind = secp256k1_scalar_set_int 1,
     initial = secp256k1_gej_neg (secp256k1_gej_set_ge secp256k1_ge_const_g)\<rparr>"
  using gej_rep_neg [OF gej_rep_set_ge [OF ge_rep_gen]]
  by (auto simp: ecmult_gen_context_ok_def scalar_set_int_val secp256k1_n_def zmul_uminus)

text \<open>Whatever the seed, when the loops end the context means the same as before.\<close>

lemma ecmult_gen_blind_ok:
  assumes frame: "sha_ok sha256" "hmac_ok hmac" and tab: "prec ctx = Some tab" "gen_table U tab" and seed: "seed32 \<noteq> None \<Longrightarrow> ecmult_gen_context_ok ctx"
    and res: "secp256k1_ecmult_gen_blind sha256 hmac ctx seed32 = Some ctx'"
  shows "ecmult_gen_context_ok ctx' \<and> prec ctx' = Some tab \<and> scalar_val (blind ctx') \<noteq> 0"
proof -
  define ctx1 where "ctx1 = blind_reset ctx seed32"
  have ok1: "ecmult_gen_context_ok ctx1" "prec ctx1 = Some tab"
    using tab seed blind_none_ok [OF tab(2)]
    by (auto simp: ctx1_def blind_reset_def ecmult_gen_context_ok_def split: option.splits)
  define rng0 where "rng0 = blind_rng sha256 hmac ctx1 seed32"
  have rng0: "rng_ok rng0" unfolding rng0_def blind_rng_def Let_def
    by (rule rfc6979_initialize_ok [OF frame]) (simp add: min_def)
  obtain rng1 s rng2 b where loops:
      "retry_loop (blind_scale_round sha256 hmac) rng0 = Some (rng1, s)"
      "retry_loop (blind_scalar_round sha256 hmac) rng1 = Some (rng2, b)"
    and ctx': "ctx' = (let ctx2 = ctx1\<lparr>initial := secp256k1_gej_rescale (initial ctx1) s\<rparr>
        in ctx2\<lparr>blind := secp256k1_scalar_negate b, initial := secp256k1_ecmult_gen ctx2 b\<rparr>)"
    using res unfolding secp256k1_ecmult_gen_blind_def ctx1_def [symmetric]
    by (auto simp: Let_def bind_eq_Some_conv rng0_def)
  obtain k1 where k1: "blind_scale_round sha256 hmac (rounds (blind_scale_round sha256 hmac) k1 rng0) = (rng1, s, False)"
    using retry_loop_result [OF loops(1)] by blast
  obtain k2 where k2: "blind_scalar_round sha256 hmac (rounds (blind_scalar_round sha256 hmac) k2 rng1) = (rng2, b, False)"
    using retry_loop_result [OF loops(2)] by blast
  have rng1: "rng_ok rng1" using blind_rounds_ok(1) [OF frame rng0, of "Suc k1"] k1 rounds_Suc_end by metis
  obtain x where x: "fe_rep 8 x s" "x \<noteq> 0"
    using blind_scale_value [OF frame blind_rounds_ok(1) [OF frame rng0] k1] by blast
  have b: "scalar_ok b" "scalar_val b \<noteq> 0"
    using blind_scalar_value [OF frame blind_rounds_ok(2) [OF frame rng1] k2] by blast+
  define ctx2 where "ctx2 = ctx1\<lparr>initial := secp256k1_gej_rescale (initial ctx1) s\<rparr>"
  have ok2: "ecmult_gen_context_ok ctx2" "prec ctx2 = Some tab"
    using ok1 gej_rescale_rep [OF _ x] by (auto simp: ctx2_def ecmult_gen_context_ok_def)
  have nb: "scalar_val (secp256k1_scalar_negate b) = (- scalar_val b) mod secp256k1_n"
    by (rule scalar_negate_val [OF b(1)])
  have "gej_rep 1 (zmul (scalar_val b) gen) (secp256k1_ecmult_gen ctx2 b)"
    by (rule ecmult_gen_rep [OF ok2(1)]) (use b(1) in \<open>simp add: scalar_ok_def\<close>)
  moreover have "zmul (- scalar_val (secp256k1_scalar_negate b)) gen = zmul (scalar_val b) gen"
    by (rule zmul_cong) (simp add: nb mod_simps)
  ultimately have "ecmult_gen_context_ok ctx'"
    using ok2 scalar_ok_ops(3) [OF b(1)]
    by (auto simp: ctx' ctx2_def [symmetric] Let_def ecmult_gen_context_ok_def scalar_ok_def)
  moreover have "scalar_val (secp256k1_scalar_negate b) \<noteq> 0"
    using n_dvd_scalar [OF b(1)] b(2) by (simp add: nb mod_eq_0_iff_dvd)
  ultimately show ?thesis using ok2(2) by (simp add: ctx' ctx2_def [symmetric] Let_def)
qed

text \<open>What a run of the blinding does in every case: it runs forever only when one of the loops rejects
  all the values that the generator yields.\<close>

lemma ecmult_gen_blind_None_iff:
  "secp256k1_ecmult_gen_blind sha256 hmac ctx seed32 = None \<longleftrightarrow>
    (let rng = blind_rng sha256 hmac (blind_reset ctx seed32) seed32;
         scale = blind_scale_round sha256 hmac; scalar = blind_scalar_round sha256 hmac
     in (\<forall>k. snd (snd (scale (rounds scale k rng)))) \<or>
        (\<exists>rng1 s. retry_loop scale rng = Some (rng1, s) \<and> (\<forall>k. snd (snd (scalar (rounds scalar k rng1))))))"
  unfolding secp256k1_ecmult_gen_blind_def Let_def retry_loop_None_iff [symmetric]
  by (cases "retry_loop (blind_scale_round sha256 hmac) (blind_rng sha256 hmac (blind_reset ctx seed32) seed32)")
    (auto simp: case_prod_beta bind_eq_None_conv)

subsection \<open>The table that is built\<close>

text \<open>The point that the loop adds into row \<open>j\<close>, and the next one.\<close>

lemma gen_row_rep:
  assumes nb: "gej_rep 1 (zmul c U) numsbase" and gb: "gej_rep 1 (zmul (16 ^ j) gen) gbase"
    and len: "j * 16 + 16 \<le> length precj"
  shows "length (gen_row precj j numsbase gbase) = length precj"
    and "\<forall>i<16. gej_rep 1 (zmul (int i * 16 ^ j) gen + zmul c U) (gen_row precj j numsbase gbase ! (j * 16 + i))"
    and "\<forall>k < j * 16. gen_row precj j numsbase gbase ! k = precj ! k"
proof -
  define f where "f = (\<lambda>precj i. precj[j * 16 + i :=
         fst (secp256k1_gej_add_var (precj ! (j * 16 + i)) (precj ! (j * 16 + i - 1)) gbase None)])"
  have inv: "1 \<le> m \<Longrightarrow> m \<le> 16 \<Longrightarrow> length (foldl f (precj[j * 16 := numsbase]) [1..<m]) = length precj \<and>
      (\<forall>i<m. gej_rep 1 (zmul (int i * 16 ^ j) gen + zmul c U) (foldl f (precj[j * 16 := numsbase]) [1..<m] ! (j * 16 + i))) \<and>
      (\<forall>k < j * 16. foldl f (precj[j * 16 := numsbase]) [1..<m] ! k = precj ! k)" for m
  proof (induction m rule: dec_induct)
    case base
    then show ?case using nb len by simp
  next
    case (step m)
    define q where "q = foldl f (precj[j * 16 := numsbase]) [1..<m]"
    have q: "length q = length precj" "\<And>i. i < m \<Longrightarrow> gej_rep 1 (zmul (int i * 16 ^ j) gen + zmul c U) (q ! (j * 16 + i))"
      "\<And>k. k < j * 16 \<Longrightarrow> q ! k = precj ! k"
      using step.IH step.prems by (auto simp: q_def)
    obtain k where k: "m = Suc k" using step.hyps(1) by (cases m) auto
    have "gej_rep 1 (zmul (int k * 16 ^ j) gen + zmul c U + zmul (16 ^ j) gen)
        (fst (secp256k1_gej_add_var (q ! (j * 16 + m)) (q ! (j * 16 + k)) gbase None))"
      using q(2) [of k] k by (intro gej_rep_add_var gb) simp
    moreover have "zmul (int k * 16 ^ j) gen + zmul c U + zmul (16 ^ j) gen = zmul (int m * 16 ^ j) gen + zmul c U"
      by (simp add: k distrib_right zmul_add add_ac)
    ultimately have "gej_rep 1 (zmul (int m * 16 ^ j) gen + zmul c U) (f q m ! (j * 16 + m))"
      using len step.prems q(1) by (simp add: f_def k)
    moreover have "foldl f (precj[j * 16 := numsbase]) [1..<Suc m] = f q m" using step.hyps(1) by (simp add: q_def)
    ultimately show ?case using q by (auto simp: f_def less_Suc_eq)
  qed
  have run: "gen_row precj j numsbase gbase = foldl f (precj[j * 16 := numsbase]) [1..<16]"
    by (simp only: gen_row_def f_def)
  show "length (gen_row precj j numsbase gbase) = length precj"
    "\<forall>i<16. gej_rep 1 (zmul (int i * 16 ^ j) gen + zmul c U) (gen_row precj j numsbase gbase ! (j * 16 + i))"
    "\<forall>k < j * 16. gen_row precj j numsbase gbase ! k = precj ! k"
    unfolding run using inv [of 16] by simp_all
qed

lemma gen_step_rep:
  assumes nums: "gej_rep 1 U nums_gej"
    and nb: "gej_rep 1 (zmul (nums_coeff j) U) numsbase" and gb: "gej_rep 1 (zmul (16 ^ j) gen) gbase"
    and run: "gen_step nums_gej (precj, gbase, numsbase) j = (precj', gbase', numsbase')" and j: "j < 64"
  shows "precj' = gen_row precj j numsbase gbase" and "gej_rep 1 (zmul (16 ^ Suc j) gen) gbase'"
    and "Suc j < 64 \<Longrightarrow> gej_rep 1 (zmul (nums_coeff (Suc j)) U) numsbase'"
proof -
  have z2: "zmul k P + zmul k P = zmul (2 * k) P" for k P by (simp add: zmul_mult zmul_2)
  show "precj' = gen_row precj j numsbase gbase" using run by (simp add: gen_step_def Let_def)
  have d: "gej_rep 1 (zmul (2 * k) P) (fst (secp256k1_gej_double_var a a None))" if "gej_rep 1 (zmul k P) a" for k P a
    using gej_rep_double [OF that] by (simp add: z2)
  have up: "[0..<4] = [0, 1, 2, 3::nat]" by (simp add: upt_rec)
  have "gej_rep 1 (zmul (2 * (2 * (2 * (2 * 16 ^ j)))) gen) gbase'"
    using d [OF d [OF d [OF d [OF gb]]]] run by (simp add: gen_step_def Let_def up)
  then show "gej_rep 1 (zmul (16 ^ Suc j) gen) gbase'" by simp
  note nd = d [OF nb]
  show "gej_rep 1 (zmul (nums_coeff (Suc j)) U) numsbase'" if "Suc j < 64"
  proof (cases "j = 62")
    case True
    define nn where "nn = secp256k1_gej_neg (fst (secp256k1_gej_double_var numsbase numsbase None))"
    have "numsbase' = fst (secp256k1_gej_add_var nn nn nums_gej None)"
      using run True by (simp add: gen_step_def Let_def nn_def)
    then have "gej_rep 1 (- zmul (2 * nums_coeff j) U + U) numsbase'"
      using gej_rep_add_var [OF gej_rep_neg [OF nd] nums] by (simp only: nn_def)
    moreover have "- zmul (2 * nums_coeff j) U + U = zmul (- (2 * nums_coeff j) + 1) U"
      by (simp only: zmul_add zmul_uminus zmul_1)
    ultimately show ?thesis using True by (simp add: nums_coeff_def)
  next
    case False
    then have "2 * nums_coeff j = nums_coeff (Suc j)" using that by (simp add: nums_coeff_def)
    then show ?thesis using nd run False by (simp add: gen_step_def Let_def)
  qed
qed

lemma gen_loop_rep:
  assumes nums: "gej_rep 1 U nums_gej" and gj: "gej_rep 1 gen gj" and len: "1024 \<le> length precj0" and m: "m \<le> 64"
  shows "\<exists>precj gbase numsbase. foldl (gen_step nums_gej) (precj0, gj, nums_gej) [0..<m] = (precj, gbase, numsbase) \<and>
    length precj = length precj0 \<and> (\<forall>j<m. \<forall>i<16. gej_rep 1 (gen_entry U j i) (precj ! (j * 16 + i))) \<and>
    gej_rep 1 (zmul (16 ^ m) gen) gbase \<and> (m < 64 \<longrightarrow> gej_rep 1 (zmul (nums_coeff m) U) numsbase)"
  using m
proof (induction m)
  case 0
  then show ?case using nums gj by (simp add: nums_coeff_def)
next
  case (Suc m)
  then obtain precj gbase numsbase where IH:
      "foldl (gen_step nums_gej) (precj0, gj, nums_gej) [0..<m] = (precj, gbase, numsbase)" "length precj = length precj0"
      "\<forall>j<m. \<forall>i<16. gej_rep 1 (gen_entry U j i) (precj ! (j * 16 + i))"
      "gej_rep 1 (zmul (16 ^ m) gen) gbase" "gej_rep 1 (zmul (nums_coeff m) U) numsbase" by auto
  obtain p g nb where s: "gen_step nums_gej (precj, gbase, numsbase) m = (p, g, nb)" by (rule prod_cases3)
  have m: "m < 64" "m * 16 + 16 \<le> length precj" using Suc.prems IH(2) len by simp_all
  note st = gen_step_rep [OF nums IH(5,4) s m(1)]
  note row = gen_row_rep [OF IH(5,4) m(2)]
  have old: "gej_rep 1 (gen_entry U j i) (p ! (j * 16 + i))" if "j < Suc m" "i < 16" for j i
  proof (cases "j = m")
    case True
    then show ?thesis using row(2) that(2) by (simp add: st(1) gen_entry_def)
  next
    case False
    then have "j * 16 + i < m * 16" using that by simp
    then show ?thesis using row(3) IH(3) that False by (simp add: st(1))
  qed
  show ?case using IH(1,2) s st(2,3) row(1) old by (simp add: st(1))
qed

lemma foldl_row:
  assumes "j < length mem" and "k \<le> length (mem ! j)"
  shows "foldl (\<lambda>mem i. mem[j := (mem ! j)[i := f i]]) mem [0..<k] = mem[j := map f [0..<k] @ drop k (mem ! j)]"
  using assms(2)
proof (induction k)
  case (Suc k)
  then have "drop k (mem ! j) = mem ! j ! k # drop (Suc k) (mem ! j)" by (simp add: Cons_nth_drop_Suc)
  then show ?case using Suc assms(1) by (simp add: list_update_append)
qed simp

lemma foldl_rows:
  assumes "n \<le> length mem" and "\<forall>j<n. length (mem ! j) = k"
  shows "foldl (\<lambda>mem j. foldl (\<lambda>mem i. mem[j := (mem ! j)[i := f j i]]) mem [0..<k]) mem [0..<n] =
    map (\<lambda>j. map (f j) [0..<k]) [0..<n] @ drop n mem"
  using assms
proof (induction n)
  case (Suc n)
  then have d: "drop n mem = mem ! n # drop (Suc n) mem" by (simp add: Cons_nth_drop_Suc)
  show ?case using Suc by (simp add: foldl_row d nth_append list_update_append)
qed simp

lemma gen_prec_rep:
  assumes nums: "gej_rep 1 U nums_gej" and gj: "gej_rep 1 gen gj"
    and fin: "\<forall>j<64. \<forall>i<16. gen_entry U j i \<noteq> 0"
    and len: "1024 \<le> length precj" "1024 \<le> length azi0" "1024 \<le> length pre" "64 \<le> length mem" "\<forall>j<64. length (mem ! j) = 16"
  shows "gen_table U (gen_prec precj azi0 pre mem gj nums_gej)"
proof -
  obtain precj' gbase numsbase where run:
      "foldl (gen_step nums_gej) (precj, gj, nums_gej) [0..<64] = (precj', gbase, numsbase)"
      "\<forall>j<64. \<forall>i<16. gej_rep 1 (gen_entry U j i) (precj' ! (j * 16 + i))"
    using gen_loop_rep [OF nums gj len(1) order_refl] by auto
  have split_index: "k div 16 < 64" "k mod 16 < 16" "k div 16 * 16 + k mod 16 = k" if "k < 1024" for k :: nat
    using that by simp_all
  define Q where "Q = (\<lambda>k. gen_entry U (k div 16) (k mod 16))"
  define pre' where "pre' = secp256k1_ge_set_all_gej_var azi0 pre precj' 1024"
  have "\<forall>k<1024. ge_rep 1 (Q k) (pre' ! k)"
    unfolding pre'_def
  proof (rule set_all_gej_var_rep [OF _ _ len(2,3)])
    show "gej_rep 1 (Q k) (precj' ! k)" if "k < 1024" for k
      using run(2) [rule_format, OF split_index(1,2), OF that that] unfolding split_index(3) [OF that] Q_def .
    show "Q k \<noteq> 0" if "k < 1024" for k
      using fin [rule_format, OF split_index(1,2), OF that that] unfolding Q_def .
  qed
  then have entry: "gs_rep (gen_entry U j i) (secp256k1_ge_to_storage (pre' ! (j * 16 + i)))" if "j < 64" "i < 16" for j i
  proof -
    have "j * 16 + i < 1024" using that by simp
    with \<open>\<forall>k<1024. ge_rep 1 (Q k) (pre' ! k)\<close> have "ge_rep 1 (Q (j * 16 + i)) (pre' ! (j * 16 + i))" by blast
    then have "ge_rep 1 (gen_entry U j i) (pre' ! (j * 16 + i))" using that by (simp add: Q_def)
    then show ?thesis using fin that by (intro gs_rep_to_storage) simp_all
  qed
  have "gen_prec precj azi0 pre mem gj nums_gej =
      map (\<lambda>j. map (\<lambda>i. secp256k1_ge_to_storage (pre' ! (j * 16 + i))) [0..<16]) [0..<64] @ drop 64 mem"
    unfolding gen_prec_def run(1) Let_def prod.case pre'_def [symmetric] by (rule foldl_rows [OF len(4,5)])
  then show ?thesis using entry by (simp add: gen_table_def nth_append)
qed

text \<open>The context that the source builds, for any point in the place of the unknown one: the table and, by
  the reset of the blinding, its meaning. The source's own point has no known scalar, so that no entry is
  at infinity is a hypothesis on it.\<close>

definition gen_context :: "secp256k1_ge_storage list list \<Rightarrow> secp256k1_ecmult_gen_context" where
  "gen_context tab = \<lparr>prec = Some tab, blind = secp256k1_scalar_set_int 1,
     initial = secp256k1_gej_neg (secp256k1_gej_set_ge secp256k1_ge_const_g)\<rparr>"

lemma gen_context_ok: "gen_table U tab \<Longrightarrow> ecmult_gen_context_ok (gen_context tab)"
  unfolding gen_context_def by (rule blind_none_ok)

lemma ecmult_gen_context_build_ok:
  assumes nums: "gej_rep 1 U gen_nums" and fin: "\<forall>j<64. \<forall>i<16. gen_entry U j i \<noteq> 0"
    and len: "1024 \<le> length precj" "1024 \<le> length azi0" "1024 \<le> length pre" "64 \<le> length mem" "\<forall>j<64. length (mem ! j) = 16"
    and frame: "sha_ok sha256" "hmac_ok hmac" and "prec ctx = None"
    and res: "secp256k1_ecmult_gen_context_build precj azi0 pre mem sha256 hmac ctx = Some ctx'"
  shows "ecmult_gen_context_ok ctx'"
proof -
  note tab = gen_prec_rep [OF nums gej_rep_set_ge [OF ge_rep_gen] fin len]
  show ?thesis
    using ecmult_gen_blind_ok [OF frame _ tab, of "ctx\<lparr>prec := Some (gen_prec precj azi0 pre mem
        (secp256k1_gej_set_ge secp256k1_ge_const_g) gen_nums)\<rparr>" None] res assms(10)
    by (simp add: secp256k1_ecmult_gen_context_build_def Let_def)
qed

text \<open>With the generator as the extra point every scalar of the table is known and the hypothesis holds.\<close>

lemma small_nonzero_multiple: "k \<noteq> 0 \<Longrightarrow> \<bar>k\<bar> < secp256k1_n \<Longrightarrow> zmul k gen \<noteq> 0"
  using dvd_imp_le_int [of k secp256k1_n] gen_nonzero by (auto simp: zmul_eq_0_iff)

lemma gen_entry_gen: "j < 64 \<Longrightarrow> i < 16 \<Longrightarrow> gen_entry gen j i \<noteq> 0"
proof -
  assume j: "j < 64" and i: "i < 16"
  have "gen_entry gen j i = zmul (int i * 16 ^ j + nums_coeff j) gen" by (simp add: gen_entry_def zmul_add)
  moreover have "zmul (int i * 16 ^ j + nums_coeff j) gen \<noteq> 0"
  proof (rule small_nonzero_multiple)
    have p: "(1 :: int) \<le> 16 ^ j" "(16 :: int) ^ j \<le> 16 ^ 63" "(2 :: int) ^ j \<le> 2 ^ 63" "(0 :: int) < 2 ^ j"
      using j power_increasing [of j 63 "16 :: int"] power_increasing [of j 63 "2 :: int"] by simp_all
    have m: "0 \<le> int i * 16 ^ j" "int i * 16 ^ j \<le> 15 * 16 ^ 63"
      using mult_mono [of "int i" 15 "16 ^ j" "16 ^ 63"] i p by simp_all
    have c: "j = 63 \<Longrightarrow> i \<noteq> 0 \<Longrightarrow> 16 ^ 63 \<le> int i * 16 ^ j" by simp
    show "int i * 16 ^ j + nums_coeff j \<noteq> 0"
    proof (cases "j = 63")
      case True
      then show ?thesis using c by (cases "i = 0") (auto simp: nums_coeff_def)
    next
      case False
      have "0 < int i * 16 ^ j + 2 ^ j" using m(1) p(4) by (rule add_nonneg_pos)
      then have "int i * 16 ^ j + 2 ^ j \<noteq> 0" by (rule less_imp_neq [symmetric])
      then show ?thesis using False by (simp only: nums_coeff_def if_False not_False_eq_True)
    qed
    show "\<bar>int i * 16 ^ j + nums_coeff j\<bar> < secp256k1_n"
    proof -
      define a b :: int where "a = int i * 16 ^ j" and "b = 2 ^ j"
      have "0 \<le> a" "a \<le> 15 * 16 ^ 63" "0 < b" "b \<le> 2 ^ 63" using m p(3,4) by (simp_all add: a_def b_def)
      then show ?thesis by (simp add: nums_coeff_def a_def [symmetric] b_def [symmetric] secp256k1_n_def abs_less_iff)
    qed
  qed
  ultimately show ?thesis by simp
qed

lemma gen_context_gen_ok:
  assumes "1024 \<le> length precj" "1024 \<le> length azi0" "1024 \<le> length pre" "64 \<le> length mem" "\<forall>j<64. length (mem ! j) = 16"
  shows "ecmult_gen_context_ok (gen_context (gen_prec precj azi0 pre mem
    (secp256k1_gej_set_ge secp256k1_ge_const_g) (secp256k1_gej_set_ge secp256k1_ge_const_g)))"
  using gen_prec_rep [OF gej_rep_set_ge [OF ge_rep_gen] gej_rep_set_ge [OF ge_rep_gen] _ assms] gen_entry_gen
  by (blast intro: gen_context_ok)

end
