(* ===== verification/Ecmult.thy ===== *)
theory Ecmult
  imports Group_Rep
begin

text \<open>
  The double multiplication \<open>na * A + ng * G\<close> of \<open>ecmult_impl.h\<close> (\<open>ecmult.h\<close>), as built without the
  endomorphism: tables of odd multiples, the signed window form of the scalars, and the loop over it.
  An array the source declares without initialising it, or gets from \<open>checked_malloc\<close>, is an argument;
  the allocation is taken to succeed.
\<close>

subsection \<open>Tables of odd multiples\<close>

definition WINDOW_A :: nat where
  "WINDOW_A = 5"

definition WINDOW_G :: nat where
  "WINDOW_G = 16"

definition ECMULT_TABLE_SIZE :: "nat \<Rightarrow> nat" where
  "ECMULT_TABLE_SIZE w = 2 ^ (w - 2)"

text \<open>\<open>d_x\<close>, \<open>d_y\<close> and so on are members of locals that the source declares uninitialised and writes in
  full; only the old value of \<open>d\<close> is passed to the doubling.\<close>

definition secp256k1_ecmult_odd_multiples_table ::
  "secp256k1_gej \<Rightarrow> nat \<Rightarrow> secp256k1_gej list \<Rightarrow> secp256k1_fe list \<Rightarrow> secp256k1_gej \<Rightarrow> secp256k1_gej list \<times> secp256k1_fe list" where
  "secp256k1_ecmult_odd_multiples_table d n prej zr a =
     (let d = fst (secp256k1_gej_double_var d a None);
          d_ge = \<lparr>ge_x = gej_x d, ge_y = gej_y d, ge_infinity = False\<rparr>;
          a_ge = secp256k1_ge_set_gej_zinv a (gej_z d);
          prej = prej[0 := \<lparr>gej_x = ge_x a_ge, gej_y = ge_y a_ge, gej_z = gej_z a, gej_infinity = False\<rparr>];
          zr = zr[0 := gej_z d];
          (prej, zr) = foldl (\<lambda>(prej, zr) i.
              let (r, rzr) = secp256k1_gej_add_ge_var (prej ! i) (prej ! (i - 1)) d_ge (Some (zr ! i))
              in (prej[i := r], zr[i := the rzr])) (prej, zr) [1..<n];
          last = prej ! (n - 1)
      in (prej[n - 1 := last\<lparr>gej_z := secp256k1_fe_mul (gej_z last) (gej_z d)\<rparr>], zr))"

definition secp256k1_ecmult_odd_multiples_table_globalz_windowa ::
  "secp256k1_gej \<Rightarrow> secp256k1_gej list \<Rightarrow> secp256k1_fe list \<Rightarrow> secp256k1_ge list \<Rightarrow> secp256k1_fe \<Rightarrow> secp256k1_gej \<Rightarrow>
   secp256k1_ge list \<times> secp256k1_fe" where
  "secp256k1_ecmult_odd_multiples_table_globalz_windowa d prej zr pre globalz a =
     (let (prej, zr) = secp256k1_ecmult_odd_multiples_table d (ECMULT_TABLE_SIZE WINDOW_A) prej zr a
      in secp256k1_ge_globalz_set_table_gej (ECMULT_TABLE_SIZE WINDOW_A) pre globalz prej zr)"

definition secp256k1_ecmult_odd_multiples_table_storage_var ::
  "secp256k1_gej \<Rightarrow> secp256k1_gej list \<Rightarrow> secp256k1_fe list \<Rightarrow> secp256k1_ge list \<Rightarrow> nat \<Rightarrow> secp256k1_ge_storage list \<Rightarrow>
   secp256k1_gej \<Rightarrow> secp256k1_ge_storage list" where
  "secp256k1_ecmult_odd_multiples_table_storage_var d prej zr prea n pre a =
     (let (prej, zr) = secp256k1_ecmult_odd_multiples_table d n prej zr a;
          prea = secp256k1_ge_set_table_gej_var prea prej zr n
      in foldl (\<lambda>pre i. pre[i := secp256k1_ge_to_storage (prea ! i)]) pre [0..<n])"

text \<open>An odd digit selects an entry or its negation.\<close>

definition ECMULT_TABLE_GET_GE :: "secp256k1_ge list \<Rightarrow> int \<Rightarrow> secp256k1_ge" where
  "ECMULT_TABLE_GET_GE pre n =
     (if n > 0 then pre ! nat ((n - 1) div 2) else secp256k1_ge_neg (pre ! nat ((- n - 1) div 2)))"

definition ECMULT_TABLE_GET_GE_STORAGE :: "secp256k1_ge_storage list \<Rightarrow> int \<Rightarrow> secp256k1_ge" where
  "ECMULT_TABLE_GET_GE_STORAGE pre n =
     (if n > 0 then secp256k1_ge_from_storage (pre ! nat ((n - 1) div 2))
      else (let r = secp256k1_ge_from_storage (pre ! nat ((- n - 1) div 2)) in secp256k1_ge_neg r))"

subsection \<open>The context\<close>

text \<open>The pointer \<open>pre_g\<close> to a table in memory: \<open>None\<close> is \<open>NULL\<close>.\<close>

record secp256k1_ecmult_context =
  pre_g :: "secp256k1_ge_storage list option"

definition secp256k1_ecmult_context_init :: secp256k1_ecmult_context where
  "secp256k1_ecmult_context_init = \<lparr>pre_g = None\<rparr>"

definition secp256k1_ecmult_context_build ::
  "secp256k1_gej \<Rightarrow> secp256k1_gej list \<Rightarrow> secp256k1_fe list \<Rightarrow> secp256k1_ge list \<Rightarrow> secp256k1_ge_storage list \<Rightarrow>
   secp256k1_ecmult_context \<Rightarrow> secp256k1_ecmult_context" where
  "secp256k1_ecmult_context_build d prej zr prea mem ctx =
     (if pre_g ctx \<noteq> None then ctx
      else (let gj = secp256k1_gej_set_ge secp256k1_ge_const_g
            in ctx\<lparr>pre_g := Some (secp256k1_ecmult_odd_multiples_table_storage_var d prej zr prea
                 (ECMULT_TABLE_SIZE WINDOW_G) mem gj)\<rparr>))"

text \<open>The clone copies the table into new memory; \<open>clear\<close> frees it and resets the pointer.\<close>

definition secp256k1_ecmult_context_clone :: "secp256k1_ecmult_context \<Rightarrow> secp256k1_ecmult_context \<Rightarrow> secp256k1_ecmult_context" where
  "secp256k1_ecmult_context_clone dst src =
     (case pre_g src of None \<Rightarrow> dst\<lparr>pre_g := None\<rparr>
      | Some tab \<Rightarrow> dst\<lparr>pre_g := Some (take (ECMULT_TABLE_SIZE WINDOW_G) tab)\<rparr>)"

definition secp256k1_ecmult_context_is_built :: "secp256k1_ecmult_context \<Rightarrow> bool" where
  "secp256k1_ecmult_context_is_built ctx \<longleftrightarrow> pre_g ctx \<noteq> None"

definition secp256k1_ecmult_context_clear :: "secp256k1_ecmult_context \<Rightarrow> secp256k1_ecmult_context" where
  "secp256k1_ecmult_context_clear ctx = secp256k1_ecmult_context_init"

subsection \<open>The signed window form\<close>

text \<open>The loop of the conversion. \<open>word\<close> is computed in unsigned arithmetic and converted to \<open>int\<close>. A
  window of width 0 would shift by a negative amount, so the loop stops there.\<close>

function wnaf_loop ::
  "nat \<Rightarrow> nat \<Rightarrow> secp256k1_scalar \<Rightarrow> int \<Rightarrow> nat \<Rightarrow> int \<Rightarrow> int \<Rightarrow> int list \<Rightarrow> int list \<times> int" where
  "wnaf_loop len w s sign pos carry last_set_bit wnaf =
     (if pos < len \<and> 0 < w
      then (if secp256k1_scalar_get_bits s (word_of_nat pos) 1 = word_of_int carry
            then wnaf_loop len w s sign (pos + 1) carry last_set_bit wnaf
            else (let now = w;
                      now = (if now > len - pos then len - pos else now);
                      word = sint (secp256k1_scalar_get_bits_var s (word_of_nat pos) (word_of_nat now) + word_of_int carry);
                      carry = drop_bit (w - 1) word AND 1;
                      word = word - push_bit w carry
                  in wnaf_loop len w s sign (pos + now) carry (int pos) (wnaf[pos := sign * word])))
      else (wnaf, last_set_bit))"
  by pat_completeness auto
termination
  by (relation "measure (\<lambda>(len, w, s, sign, pos, carry, last_set_bit, wnaf). len - pos)") auto

declare wnaf_loop.simps [simp del]

definition secp256k1_ecmult_wnaf :: "int list \<Rightarrow> nat \<Rightarrow> secp256k1_scalar \<Rightarrow> nat \<Rightarrow> int list \<times> int" where
  "secp256k1_ecmult_wnaf wnaf len a w =
     (let s = a;
          wnaf = replicate len 0 @ drop len wnaf;
          (s, sign) = (if secp256k1_scalar_get_bits s 255 1 \<noteq> 0 then (secp256k1_scalar_negate s, - 1) else (s, 1));
          (wnaf, last_set_bit) = wnaf_loop len w s sign 0 0 (- 1) wnaf
      in (wnaf, last_set_bit + 1))"

subsection \<open>The double multiplication\<close>

text \<open>The uninitialised locals of the frame.\<close>

record ecmult_frame =
  fr_d :: secp256k1_gej
  fr_prej :: "secp256k1_gej list"
  fr_zr :: "secp256k1_fe list"
  fr_pre_a :: "secp256k1_ge list"
  fr_Z :: secp256k1_fe
  fr_wnaf_na :: "int list"
  fr_wnaf_ng :: "int list"

definition ecmult_step ::
  "secp256k1_ge list \<Rightarrow> secp256k1_ge_storage list \<Rightarrow> secp256k1_fe \<Rightarrow> int list \<Rightarrow> int \<Rightarrow> int list \<Rightarrow> int \<Rightarrow> nat \<Rightarrow>
   secp256k1_gej \<Rightarrow> secp256k1_gej" where
  "ecmult_step pre_a pre_g_tab Z wnaf_na bits_na wnaf_ng bits_ng i r =
     (let r = (if int i < bits_na \<and> wnaf_na ! i \<noteq> 0
               then fst (secp256k1_gej_add_ge_var r r (ECMULT_TABLE_GET_GE pre_a (wnaf_na ! i)) None) else r)
      in if int i < bits_ng \<and> wnaf_ng ! i \<noteq> 0
         then secp256k1_gej_add_zinv_var r r (ECMULT_TABLE_GET_GE_STORAGE pre_g_tab (wnaf_ng ! i)) Z else r)"

definition secp256k1_ecmult ::
  "ecmult_frame \<Rightarrow> secp256k1_ecmult_context \<Rightarrow> secp256k1_gej \<Rightarrow> secp256k1_scalar \<Rightarrow> secp256k1_scalar \<Rightarrow> secp256k1_gej" where
  "secp256k1_ecmult fr ctx a na ng =
     (let (wnaf_na, bits_na) = secp256k1_ecmult_wnaf (fr_wnaf_na fr) 256 na WINDOW_A;
          bits = bits_na;
          (pre_a, Z) = secp256k1_ecmult_odd_multiples_table_globalz_windowa
            (fr_d fr) (fr_prej fr) (fr_zr fr) (fr_pre_a fr) (fr_Z fr) a;
          (wnaf_ng, bits_ng) = secp256k1_ecmult_wnaf (fr_wnaf_ng fr) 256 ng WINDOW_G;
          bits = (if bits_ng > bits then bits_ng else bits);
          r = secp256k1_gej_set_infinity;
          r = foldl (\<lambda>r i. ecmult_step pre_a (the (pre_g ctx)) Z wnaf_na bits_na wnaf_ng bits_ng i
                (fst (secp256k1_gej_double_var r r None))) r (rev [0..<nat bits])
      in if \<not> gej_infinity r then r\<lparr>gej_z := secp256k1_fe_mul (gej_z r) Z\<rparr> else r)"

subsection \<open>What the tables hold\<close>

definition odd_multiple :: "epoint \<Rightarrow> nat \<Rightarrow> epoint" where
  "odd_multiple P i = zmul (2 * int i + 1) P"

lemma odd_multiple_0 [simp]: "odd_multiple P 0 = P"
  by (simp add: odd_multiple_def)

lemma odd_multiple_Suc: "odd_multiple P (Suc i) = odd_multiple P i + (P + P)"
proof -
  have "2 * int (Suc i) + 1 = (2 * int i + 1) + 2" by simp
  then show ?thesis unfolding odd_multiple_def by (simp only: zmul_add zmul_2)
qed

lemma small_multiple_nonzero: "P \<noteq> 0 \<Longrightarrow> 0 < k \<Longrightarrow> k < 2 ^ 20 \<Longrightarrow> zmul k P \<noteq> 0"
  using zdvd_imp_le [of secp256k1_n k] by (auto simp: zmul_eq_0_iff secp256k1_n_def)

lemma odd_multiple_distinct:
  assumes "P \<noteq> 0" and "i < 2 ^ 15"
  shows "odd_multiple P i \<noteq> 0" "odd_multiple P i \<noteq> P + P" "odd_multiple P i \<noteq> - (P + P)"
proof -
  show "odd_multiple P i \<noteq> 0"
    using small_multiple_nonzero [OF assms(1), of "2 * int i + 1"] assms(2) by (simp add: odd_multiple_def)
  have "odd_multiple P i - (P + P) = zmul (2 * int i + 1 - 2) P"
    by (simp only: odd_multiple_def zmul_diff zmul_2)
  moreover have "zmul (2 * int i + 1 - 2) P \<noteq> 0"
  proof (cases i)
    case 0
    then show ?thesis using assms(1) by (simp add: zmul_uminus)
  next
    case (Suc j)
    then show ?thesis using small_multiple_nonzero [OF assms(1), of "2 * int i + 1 - 2"] assms(2) by simp
  qed
  ultimately show "odd_multiple P i \<noteq> P + P" by auto
  have "odd_multiple P i + (P + P) = zmul (2 * int i + 1 + 2) P"
    by (simp only: odd_multiple_def zmul_add zmul_2)
  moreover have "zmul (2 * int i + 1 + 2) P \<noteq> 0"
    by (rule small_multiple_nonzero [OF assms(1)]) (use assms(2) in simp_all)
  ultimately show "odd_multiple P i \<noteq> - (P + P)" by (auto simp: eq_neg_iff_add_eq_0)
qed

text \<open>The loop of the table, on the isomorphic curve where twice the point is affine.\<close>

lemma odd_multiples_loop:
  assumes d: "ge_rep S (P + P) d_ge" and P: "P \<noteq> 0" and m: "1 \<le> m" "m \<le> n" "n < 2 ^ 15"
    and len: "n \<le> length prej0" "n \<le> length zr0"
    and a: "gej_rep S P (prej0 ! 0)"
  defines "step \<equiv> \<lambda>(prej, zr) i. let (r, rzr) = secp256k1_gej_add_ge_var (prej ! i) (prej ! (i - 1)) d_ge (Some (zr ! i))
              in (prej[i := r], zr[i := the rzr])"
  shows "\<exists>prej zr. foldl step (prej0, zr0) [1..<m] = (prej, zr) \<and> length prej = length prej0 \<and> length zr = length zr0 \<and>
    (\<forall>i<m. gej_rep S (odd_multiple P i) (prej ! i)) \<and>
    (\<forall>i. Suc i < m \<longrightarrow> fe_rep 8 (fe_abs (gej_z (prej ! Suc i)) / fe_abs (gej_z (prej ! i))) (zr ! Suc i))"
  using m(1,2)
proof (induction m rule: dec_induct)
  case base
  then show ?case using a by simp
next
  case (step m)
  then obtain prej zr where IH: "foldl step (prej0, zr0) [1..<m] = (prej, zr)" "length prej = length prej0"
    "length zr = length zr0" "\<forall>i<m. gej_rep S (odd_multiple P i) (prej ! i)"
    "\<forall>i. Suc i < m \<longrightarrow> fe_rep 8 (fe_abs (gej_z (prej ! Suc i)) / fe_abs (gej_z (prej ! i))) (zr ! Suc i)"
    by fastforce
  obtain k where k: "m = Suc k" using step.hyps(1) by (cases m) auto
  have prev: "gej_rep S (odd_multiple P k) (prej ! k)" using IH(4) k by simp
  define r where "r = fst (secp256k1_gej_add_ge_var (prej ! m) (prej ! k) d_ge (Some (zr ! m)))"
  have kb: "k < 2 ^ 15" using step.prems m(3) k by simp
  obtain h H where h: "snd (secp256k1_gej_add_ge_var (prej ! m) (prej ! k) d_ge (Some (zr ! m))) = Some h"
    "fe_rep 8 H h" "H \<noteq> 0" "fe_rep 8 (fe_abs (gej_z (prej ! k)) * H) (gej_z r)"
    using add_ge_var_ratio [OF prev d odd_multiple_distinct(1) [OF P kb] _ odd_multiple_distinct(2,3) [OF P kb],
        of "prej ! m" "zr ! m"] no_point_of_order_two [of P] P unfolding r_def by metis
  have r: "gej_rep S (odd_multiple P m) r"
    using gej_rep_add_ge_var [OF prev d, of "prej ! m" "Some (zr ! m)"] by (simp add: r_def k odd_multiple_Suc)
  have z: "fe_abs (gej_z (prej ! k)) \<noteq> 0"
    using gej_ok_finite(4) [OF gej_rep_ok [OF prev]] gej_rep_infinity [OF prev] odd_multiple_distinct(1) [OF P kb] by simp
  have ratio: "fe_rep 8 (fe_abs (gej_z r) / fe_abs (gej_z (prej ! k))) h"
    using h(2) z by (simp add: fe_rep_abs [OF h(4)])
  have run: "secp256k1_gej_add_ge_var (prej ! m) (prej ! (m - 1)) d_ge (Some (zr ! m)) = (r, Some h)"
    using h(1) by (simp add: r_def k prod_eq_iff)
  have "foldl step (prej0, zr0) [1..<Suc m] = (prej[m := r], zr[m := h])"
    using step.hyps(1) IH(1) by (simp add: step_def run [simplified])
  moreover have "m < length prej" "m < length zr" using step.prems IH(2,3) len m(2) by simp_all
  ultimately show ?case
    using IH(2-5) r ratio k by (auto simp: less_Suc_eq nth_list_update)
qed

lemma odd_multiples_table_rep:
  assumes a: "gej_rep 1 P a" and P: "P \<noteq> 0" and n: "0 < n" "n < 2 ^ 15" and len: "n \<le> length prej0" "n \<le> length zr0"
  obtains T prej zr where "secp256k1_ecmult_odd_multiples_table d0 n prej0 zr0 a = (prej, zr)"
    "linked_table T (odd_multiple P) n prej zr" "fe_rep 8 (T (n - 1)) (gej_z (prej ! (n - 1)))"
proof -
  define d where "d = fst (secp256k1_gej_double_var d0 a None)"
  define Z where "Z = fe_abs (gej_z d)"
  have d: "gej_rep 1 (P + P) d" unfolding d_def by (rule gej_rep_double [OF a])
  have PP: "P + P \<noteq> 0" using P no_point_of_order_two by simp
  have dfin: "\<not> gej_infinity d" using gej_rep_infinity [OF d] PP by simp
  note df = gej_ok_finite [OF gej_rep_ok [OF d] dfin, folded Z_def]
  define d_ge where "d_ge = \<lparr>ge_x = gej_x d, ge_y = gej_y d, ge_infinity = False\<rparr>"
  have d_ge: "ge_rep Z (P + P) d_ge"
    using ge_rep_xy [OF gej_rep_xy [OF d PP]] by (simp add: d_ge_def Z_def)
  have afin: "\<not> gej_infinity a" using gej_rep_infinity [OF a] P by simp
  note af = gej_ok_finite [OF gej_rep_ok [OF a] afin]
  define a_ge where "a_ge = secp256k1_ge_set_gej_zinv a (gej_z d)"
  note a_ge = ge_rep_zinv [OF gej_rep_xy [OF a P] df(3,4), folded a_ge_def]
  define p0 where "p0 = \<lparr>gej_x = ge_x a_ge, gej_y = ge_y a_ge, gej_z = gej_z a, gej_infinity = False\<rparr>"
  have "xy_rep (fe_abs (gej_z a) * Z) P p0"
    using a_ge gej_rep_xy [OF a P] df(4) ge_rep_infinity [OF a_ge(1)] P
    by (auto simp: p0_def xy_rep_def ge_rep_def ge_ok_def ge_abs_def)
  from xy_rep_gej [OF this, of "fe_abs (gej_z a)"] af have p0: "gej_rep Z P p0" by (simp add: p0_def)
  have nth0: "gej_rep Z P (prej0[0 := p0] ! 0)" using p0 n len by (cases prej0) auto
  have n1: "1 \<le> n" using n(1) by simp
  obtain prej zr where loop: "foldl (\<lambda>(prej, zr) i.
        let (r, rzr) = secp256k1_gej_add_ge_var (prej ! i) (prej ! (i - 1)) d_ge (Some (zr ! i))
        in (prej[i := r], zr[i := the rzr])) (prej0[0 := p0], zr0[0 := gej_z d]) [1..<n] = (prej, zr)"
      "length prej = length prej0" "\<forall>i<n. gej_rep Z (odd_multiple P i) (prej ! i)"
      "\<forall>i. Suc i < n \<longrightarrow> fe_rep 8 (fe_abs (gej_z (prej ! Suc i)) / fe_abs (gej_z (prej ! i))) (zr ! Suc i)"
    using odd_multiples_loop [OF d_ge P n1 order_refl n(2) _ _ nth0, of "zr0[0 := gej_z d]"] len by auto
  define last where "last = prej ! (n - 1)"
  define prej' where "prej' = prej[n - 1 := last\<lparr>gej_z := secp256k1_fe_mul (gej_z last) (gej_z d)\<rparr>]"
  define T where "T = (\<lambda>i. Z * fe_abs (gej_z (prej ! i)))"
  have i15: "i < 2 ^ 15" if "i < n" for i using that n by simp
  have xy: "xy_rep (T i) (odd_multiple P i) (prej ! i)" if "i < n" for i
    unfolding T_def using gej_rep_xy loop(3) odd_multiple_distinct(1) [OF P i15 [OF that]] that by blast
  have xy': "xy_rep (T i) (odd_multiple P i) (prej' ! i)" if "i < n" for i
    using xy [OF that] that loop(2) len by (cases "i = n - 1") (simp_all add: prej'_def last_def xy_rep_def)
  have "linked_table T (odd_multiple P) n prej' zr"
    using xy' loop(4) df(4) by (auto simp: linked_table_def T_def)
  moreover have "fe_rep 8 (T (n - 1)) (gej_z (prej' ! (n - 1)))"
  proof -
    have l: "gej_rep Z (odd_multiple P (n - 1)) last" using loop(3) n(1) by (simp add: last_def)
    then have lf: "\<not> gej_infinity last"
      using gej_rep_infinity [OF l] odd_multiple_distinct(1) [OF P i15, of "n - 1"] n(1) by simp
    have "fe_rep 1 (fe_abs (gej_z last) * Z) (secp256k1_fe_mul (gej_z last) (gej_z d))"
      using fe_rep_mul [OF gej_ok_finite(3) [OF gej_rep_ok [OF l] lf] df(3)] by simp
    then have "fe_rep 8 (T (n - 1)) (secp256k1_fe_mul (gej_z last) (gej_z d))"
      by (rule fe_repI) (simp_all add: T_def last_def mult.commute)
    then show ?thesis using n len loop(2) by (simp add: prej'_def)
  qed
  moreover have "secp256k1_ecmult_odd_multiples_table d0 n prej0 zr0 a = (prej', zr)"
    unfolding secp256k1_ecmult_odd_multiples_table_def Let_def
    unfolding d_def [symmetric] d_ge_def [symmetric] a_ge_def [symmetric] p0_def [symmetric] loop(1) [unfolded Let_def]
    by (simp add: prej'_def last_def)
  ultimately show ?thesis by (rule that [rotated 1])
qed

lemma odd_multiples_table_globalz_rep:
  assumes a: "gej_rep 1 P a" and P: "P \<noteq> 0"
    and len: "ECMULT_TABLE_SIZE WINDOW_A \<le> length prej" "ECMULT_TABLE_SIZE WINDOW_A \<le> length zr"
      "ECMULT_TABLE_SIZE WINDOW_A \<le> length pre"
  obtains Z pre' globalz' where
    "secp256k1_ecmult_odd_multiples_table_globalz_windowa d prej zr pre globalz a = (pre', globalz')"
    "Z \<noteq> 0" "fe_rep 8 Z globalz'" "\<forall>i < ECMULT_TABLE_SIZE WINDOW_A. ge_rep Z (odd_multiple P i) (pre' ! i)"
    "length pre' = length pre"
proof -
  have n: "0 < ECMULT_TABLE_SIZE WINDOW_A" "ECMULT_TABLE_SIZE WINDOW_A < 2 ^ 15"
    by (simp_all add: ECMULT_TABLE_SIZE_def WINDOW_A_def)
  obtain T prej' zr' where t: "secp256k1_ecmult_odd_multiples_table d (ECMULT_TABLE_SIZE WINDOW_A) prej zr a = (prej', zr')"
    "linked_table T (odd_multiple P) (ECMULT_TABLE_SIZE WINDOW_A) prej' zr'"
    "fe_rep 8 (T (ECMULT_TABLE_SIZE WINDOW_A - 1)) (gej_z (prej' ! (ECMULT_TABLE_SIZE WINDOW_A - 1)))"
    by (rule odd_multiples_table_rep [OF a P n len(1,2)])
  note g = globalz_set_table_gej_rep [OF t(2) n(1) t(3) len(3), of globalz]
  define R where "R = secp256k1_ge_globalz_set_table_gej (ECMULT_TABLE_SIZE WINDOW_A) pre globalz prej' zr'"
  have "secp256k1_ecmult_odd_multiples_table_globalz_windowa d prej zr pre globalz a = (fst R, snd R)"
    by (simp add: secp256k1_ecmult_odd_multiples_table_globalz_windowa_def t(1) R_def)
  moreover have "T (ECMULT_TABLE_SIZE WINDOW_A - 1) \<noteq> 0"
    using t(2) n(1) by (simp add: linked_table_def xy_rep_def)
  ultimately show ?thesis using that g unfolding R_def [symmetric] by blast
qed

lemma foldl_update_map:
  "n \<le> length xs \<Longrightarrow> foldl (\<lambda>xs i. xs[i := f i]) xs [0..<n] = map f [0..<n] @ drop n xs"
proof (induction n)
  case (Suc n)
  then have "drop n xs = xs ! n # drop (Suc n) xs" by (simp add: Cons_nth_drop_Suc)
  then show ?case using Suc by (simp add: list_update_append)
qed simp

definition odd_storage_table :: "epoint \<Rightarrow> nat \<Rightarrow> secp256k1_ge_storage list \<Rightarrow> bool" where
  "odd_storage_table P n tab \<longleftrightarrow> n \<le> length tab \<and> (\<forall>i<n. gs_rep (odd_multiple P i) (tab ! i))"

lemma odd_multiples_table_storage_rep:
  assumes a: "gej_rep 1 P a" and P: "P \<noteq> 0" and n: "0 < n" "n < 2 ^ 15"
    and len: "n \<le> length prej" "n \<le> length zr" "n \<le> length prea" "n \<le> length pre"
  shows "odd_storage_table P n (secp256k1_ecmult_odd_multiples_table_storage_var d prej zr prea n pre a)"
proof -
  obtain T prej' zr' where t: "secp256k1_ecmult_odd_multiples_table d n prej zr a = (prej', zr')"
    "linked_table T (odd_multiple P) n prej' zr'" "fe_rep 8 (T (n - 1)) (gej_z (prej' ! (n - 1)))"
    by (rule odd_multiples_table_rep [OF a P n len(1,2)])
  note g = set_table_gej_var_rep [OF t(2) n(1) t(3) len(3)]
  have "gs_rep (odd_multiple P i) (secp256k1_ge_to_storage (secp256k1_ge_set_table_gej_var prea prej' zr' n ! i))" if "i < n" for i
    using g(1) that n(2) by (intro gs_rep_to_storage odd_multiple_distinct(1) [OF P]) simp_all
  then show ?thesis using len(4)
    by (simp add: secp256k1_ecmult_odd_multiples_table_storage_var_def t(1) foldl_update_map odd_storage_table_def nth_append)
qed

text \<open>A table entry selected by an odd digit is the multiple for that digit.\<close>

lemma odd_digit:
  assumes "odd n" and "\<bar>n\<bar> < 2 ^ (w - 1)" and "2 \<le> w"
  shows "n > 0 \<Longrightarrow> nat ((n - 1) div 2) < ECMULT_TABLE_SIZE w \<and> zmul n P = odd_multiple P (nat ((n - 1) div 2))"
    and "\<not> n > 0 \<Longrightarrow> nat ((- n - 1) div 2) < ECMULT_TABLE_SIZE w \<and> zmul n P = - odd_multiple P (nat ((- n - 1) div 2))"
proof -
  have "(2 :: int) ^ (w - 1) = 2 * 2 ^ (w - 2)" using assms(3) by (simp flip: power_Suc)
  then have b: "\<bar>n\<bar> < 2 * 2 ^ (w - 2)" using assms(2) by simp
  obtain k where k: "n = 2 * k + 1" using assms(1) by (rule oddE)
  show "nat ((n - 1) div 2) < ECMULT_TABLE_SIZE w \<and> zmul n P = odd_multiple P (nat ((n - 1) div 2))" if "n > 0"
    using that b k by (simp add: odd_multiple_def ECMULT_TABLE_SIZE_def nat_less_iff)
  show "nat ((- n - 1) div 2) < ECMULT_TABLE_SIZE w \<and> zmul n P = - odd_multiple P (nat ((- n - 1) div 2))" if "\<not> n > 0"
  proof -
    have m: "(- n - 1) div 2 = - k - 1" "0 \<le> - k - 1" using that k by simp_all
    have "2 * int (nat ((- n - 1) div 2)) + 1 = - n" using m k by simp
    then have "odd_multiple P (nat ((- n - 1) div 2)) = - zmul n P"
      unfolding odd_multiple_def by (simp only: zmul_uminus)
    then show ?thesis using m b k by (simp add: ECMULT_TABLE_SIZE_def nat_less_iff)
  qed
qed

subsection \<open>Correctness of the signed window form\<close>

lemma get_bits_1: "p < 256 \<Longrightarrow> secp256k1_scalar_get_bits s (word_of_nat p) 1 = word_of_int ((scalar_val s div 2 ^ p) mod 2)"
proof -
  assume p: "p < 256"
  then have u: "unat (word_of_nat p :: u32) = p" by (simp add: unat_of_nat)
  have "uint (secp256k1_scalar_get_bits s (word_of_nat p) 1) = (scalar_val s div 2 ^ p) mod 2"
    using secp256k1_scalar_get_bits_eq [of 1 "word_of_nat p" s] p
    by (simp add: u take_bit_eq_mod drop_bit_eq_div)
  then show ?thesis by (metis word_of_int_uint)
qed

lemma get_bits_window:
  assumes "0 < k" and "k < 32" and "p + k \<le> 256"
  shows "uint (secp256k1_scalar_get_bits_var s (word_of_nat p) (word_of_nat k)) = (scalar_val s div 2 ^ p) mod 2 ^ k"
proof -
  have u: "unat (word_of_nat p :: u32) = p" "unat (word_of_nat k :: u32) = k"
    using assms by (simp_all add: unat_of_nat)
  show ?thesis
    using secp256k1_scalar_get_bits_var_eq [of "word_of_nat k" "word_of_nat p" s] assms
    by (simp add: u take_bit_eq_mod drop_bit_eq_div)
qed

definition digit_value :: "nat \<Rightarrow> int list \<Rightarrow> int" where
  "digit_value n ds = (\<Sum>i<n. 2 ^ i * ds ! i)"

lemma digit_value_update:
  assumes "p < n" and "n \<le> length ds" and "ds ! p = 0"
  shows "digit_value n (ds[p := d]) = digit_value n ds + 2 ^ p * d"
proof -
  have "digit_value n (ds[p := d]) = (\<Sum>i<n. 2 ^ i * ds ! i + (if i = p then 2 ^ p * d else 0))"
    unfolding digit_value_def using assms by (intro sum.cong) (auto simp: nth_list_update)
  then show ?thesis using assms(1) by (simp add: sum.distrib digit_value_def)
qed

text \<open>The state of the loop at bit \<open>pos\<close>: the digits so far and the carry make up the low bits, the digits
  are zero or odd and small, and \<open>w\<close> apart.\<close>

definition wnaf_inv :: "nat \<Rightarrow> nat \<Rightarrow> int \<Rightarrow> int \<Rightarrow> nat \<Rightarrow> int \<Rightarrow> int \<Rightarrow> int list \<Rightarrow> bool" where
  "wnaf_inv len w V sign pos carry lst ds \<longleftrightarrow>
     pos \<le> len \<and> len \<le> length ds \<and> (carry = 0 \<or> carry = 1 \<and> pos < len) \<and>
     digit_value len ds = sign * (V mod 2 ^ pos - carry * 2 ^ pos) \<and>
     (\<forall>i<len. ds ! i \<noteq> 0 \<longrightarrow> odd (ds ! i) \<and> \<bar>ds ! i\<bar> < 2 ^ (w - 1) \<and> i < pos \<and> int i \<le> lst \<and> (i + w \<le> pos \<or> pos = len)) \<and>
     (\<forall>i<len. \<forall>j<len. ds ! i \<noteq> 0 \<longrightarrow> ds ! j \<noteq> 0 \<longrightarrow> i < j \<longrightarrow> i + w \<le> j) \<and>
     (lst = - 1 \<or> 0 \<le> lst \<and> lst < int len \<and> ds ! nat lst \<noteq> 0)"

lemma mod_bit_split: "V mod 2 ^ (p + k) = V mod 2 ^ p + 2 ^ p * ((V div 2 ^ p) mod 2 ^ k)" for V :: int
  unfolding power_add by (simp only: zmod_zmult2_eq [OF zero_le_power, OF zero_le_numeral] add.commute)

lemma wnaf_skip:
  assumes inv: "wnaf_inv len w V sign pos carry lst ds" and p: "pos < len" and top: "0 \<le> V" "V < 2 ^ (len - 1)"
    and bit: "(V div 2 ^ pos) mod 2 = carry"
  shows "wnaf_inv len w V sign (pos + 1) carry lst ds"
proof -
  have "V mod 2 ^ (pos + 1) = V mod 2 ^ pos + 2 ^ pos * carry"
    using mod_bit_split [of V pos 1] bit by simp
  then have "V mod 2 ^ pos - carry * 2 ^ pos = V mod 2 ^ (pos + 1) - carry * 2 ^ (pos + 1)" by simp
  moreover have "carry = 0 \<or> carry = 1 \<and> pos + 1 < len"
  proof (cases "pos = len - 1")
    case True
    then have "V div 2 ^ pos = 0" using top by (simp add: div_pos_pos_trivial)
    then show ?thesis using bit by simp
  next
    case False
    then show ?thesis using inv p by (auto simp: wnaf_inv_def)
  qed
  ultimately show ?thesis using inv p by (auto simp: wnaf_inv_def)
qed

lemma wnaf_digit:
  assumes inv: "wnaf_inv len w V sign pos carry lst ds" and p: "pos < len" and top: "0 \<le> V" "V < 2 ^ (len - 1)"
    and w: "2 \<le> w" and sign: "sign = 1 \<or> sign = - 1"
    and bit: "(V div 2 ^ pos) mod 2 \<noteq> carry"
    and now: "now = (if w > len - pos then len - pos else w)"
    and word: "word = (V div 2 ^ pos) mod 2 ^ now + carry"
    and carry': "carry' = (word div 2 ^ (w - 1)) mod 2"
  shows "wnaf_inv len w V sign (pos + now) carry' (int pos) (ds[pos := sign * (word - carry' * 2 ^ w)])"
    and "odd word" and "0 < word" and "word < 2 ^ now"
proof -
  define F where "F = (V div 2 ^ pos) mod 2 ^ now"
  have n: "1 \<le> now" "now \<le> w" "pos + now \<le> len" using w p by (auto simp: now)
  have c: "carry = 0 \<or> carry = 1" using inv by (auto simp: wnaf_inv_def)
  have "F mod 2 = (V div 2 ^ pos) mod 2"
    using n(1) by (simp add: F_def mod_mod_cancel le_imp_power_dvd [of 1, simplified])
  then have F2: "F mod 2 \<noteq> carry" using bit by simp
  have Fb: "0 \<le> F" "F < 2 ^ now" by (simp_all add: F_def)
  have even_pow: "even ((2 :: int) ^ now)" using n(1) by simp
  have wF: "word = F + carry" by (simp add: word F_def)
  show o: "odd word" using c F2 unfolding wF by presburger
  have "0 \<le> word" using Fb c by (auto simp: wF)
  moreover have "word \<noteq> 0" using o by auto
  ultimately show pos_word: "0 < word" by simp
  have "word \<le> 2 ^ now" using Fb c by (auto simp: wF)
  then show wb: "word < 2 ^ now" using o even_pow by (metis order_le_less)
  have P2: "(2 :: int) ^ w = 2 * 2 ^ (w - 1)" using w by (simp flip: power_Suc)
  have wbw: "word < 2 * 2 ^ (w - 1)"
  proof -
    have "(2 :: int) ^ now \<le> 2 ^ w" by (rule power_increasing [OF n(2)]) simp
    then show ?thesis using wb unfolding P2 [symmetric] by (rule order_less_le_trans [rotated])
  qed
  have cc: "carry' = (if word < 2 ^ (w - 1) then 0 else 1)"
  proof (cases "word < 2 ^ (w - 1)")
    case True
    then show ?thesis using pos_word by (simp add: carry' div_pos_pos_trivial)
  next
    case False
    then have "word div 2 ^ (w - 1) = 1" using wbw by (intro int_div_pos_eq [of _ _ _ "word - 2 ^ (w - 1)"]) auto
    then show ?thesis using False by (simp add: carry')
  qed
  have neq: "word \<noteq> 2 ^ (w - 1)" using o w by (auto simp: even_power)
  define d where "d = sign * (word - carry' * 2 ^ w)"
  have d_odd: "odd d" using o sign w by (auto simp: d_def)
  have d_small: "\<bar>d\<bar> < 2 ^ (w - 1)" using sign cc wbw pos_word neq by (auto simp: d_def P2 abs_mult)
  have fin: "carry' = 0 \<or> carry' = 1 \<and> pos + now < len \<and> now = w"
  proof (cases "word < 2 ^ (w - 1)")
    case True
    then show ?thesis by (simp add: cc)
  next
    case False
    then have "now = w"
    proof (rule_tac ccontr)
      assume "now \<noteq> w"
      then have "now \<le> w - 1" using n(2) by simp
      then have "(2 :: int) ^ now \<le> 2 ^ (w - 1)" by (rule power_increasing) simp
      then show False using wb False by (simp only: not_less)
    qed
    moreover have "pos + now \<noteq> len"
    proof
      assume e: "pos + now = len"
      have "w - 1 + pos = len - 1" using e \<open>now = w\<close> w by simp
      then have lt: "V < 2 ^ (w - 1) * 2 ^ pos" using top(2) by (simp only: power_add [symmetric])
      have le: "V div 2 ^ pos * 2 ^ pos \<le> V" by (simp flip: minus_mod_eq_div_mult)
      have "V div 2 ^ pos < 2 ^ (w - 1)"
        by (rule mult_right_less_imp_less [OF le_less_trans [OF le lt]]) simp
      moreover have "0 \<le> V div 2 ^ pos" using top(1) by (simp add: pos_imp_zdiv_nonneg_iff)
      ultimately have F: "F < 2 ^ (w - 1)"
        unfolding F_def by (intro order_le_less_trans [OF zmod_le_nonneg_dividend])
      have "even ((2 :: int) ^ (w - 1))" using w by simp
      then have "F + carry \<noteq> 2 ^ (w - 1)" using o unfolding wF by metis
      moreover have "F + carry \<le> 2 ^ (w - 1)" using F c by auto
      ultimately have "F + carry < 2 ^ (w - 1)" by simp
      then show False using False by (simp add: wF)
    qed
    ultimately show ?thesis using n(3) False by (simp add: cc)
  qed
  have z: "ds ! pos = 0" using inv p by (auto simp: wnaf_inv_def)
  have "V mod 2 ^ (pos + now) = V mod 2 ^ pos + 2 ^ pos * F" by (simp add: mod_bit_split F_def)
  moreover have "digit_value len ds = sign * (V mod 2 ^ pos - carry * 2 ^ pos)" using inv by (simp add: wnaf_inv_def)
  moreover have "carry' * 2 ^ w = carry' * 2 ^ now" using fin by auto
  ultimately have dv: "digit_value len (ds[pos := d]) = sign * (V mod 2 ^ (pos + now) - carry' * 2 ^ (pos + now))"
    using inv p z by (subst digit_value_update)
      (auto simp: wnaf_inv_def d_def wF power_add algebra_simps)
  have d0: "d \<noteq> 0" using d_odd by auto
  have nw: "now = w \<or> pos + now = len" using p by (simp add: now)
  have len: "len \<le> length ds"
    and old: "ds ! i \<noteq> 0 \<Longrightarrow> i < len \<Longrightarrow> odd (ds ! i) \<and> \<bar>ds ! i\<bar> < 2 ^ (w - 1) \<and> i < pos \<and> i + w \<le> pos"
    and old2: "ds ! i \<noteq> 0 \<Longrightarrow> ds ! j \<noteq> 0 \<Longrightarrow> i < len \<Longrightarrow> j < len \<Longrightarrow> i < j \<Longrightarrow> i + w \<le> j" for i j
    using inv p unfolding wnaf_inv_def by blast+
  have new: "ds[pos := d] ! i = (if i = pos then d else ds ! i)" for i
    using p len by (simp add: nth_list_update)
  have i1: "odd (ds[pos := d] ! i) \<and> \<bar>ds[pos := d] ! i\<bar> < 2 ^ (w - 1) \<and>
      i < pos + now \<and> int i \<le> int pos \<and> (i + w \<le> pos + now \<or> pos + now = len)"
    if "i < len" "ds[pos := d] ! i \<noteq> 0" for i
    using that d_odd d_small n(1) nw old [of i] unfolding new by (cases "i = pos") auto
  have i2: "i + w \<le> j" if "i < len" "j < len" "ds[pos := d] ! i \<noteq> 0" "ds[pos := d] ! j \<noteq> 0" "i < j" for i j
    using that old [of i] old [of j] old2 [of i j] unfolding new by (cases "i = pos"; cases "j = pos") auto
  show "wnaf_inv len w V sign (pos + now) carry' (int pos) (ds[pos := sign * (word - carry' * 2 ^ w)])"
    unfolding d_def [symmetric] wnaf_inv_def
  proof (intro conjI)
    show "pos + now \<le> len" "carry' = 0 \<or> carry' = 1 \<and> pos + now < len" "len \<le> length (ds[pos := d])"
      using n(3) fin len by auto
    show "int pos = - 1 \<or> 0 \<le> int pos \<and> int pos < int len \<and> ds[pos := d] ! nat (int pos) \<noteq> 0"
      using p d0 new by simp
  qed (use dv i1 i2 in blast)+
qed

lemma wnaf_loop_inv:
  assumes top: "scalar_val s < 2 ^ (len - 1)" and w: "2 \<le> w" "w < 31" and len: "len \<le> 256"
    and sign: "sign = 1 \<or> sign = - 1"
  shows "wnaf_inv len w (scalar_val s) sign pos carry lst ds \<Longrightarrow>
    \<exists>ds' lst'. wnaf_loop len w s sign pos carry lst ds = (ds', lst') \<and> wnaf_inv len w (scalar_val s) sign len 0 lst' ds'"
proof (induction "len - pos" arbitrary: pos carry lst ds rule: less_induct)
  case less
  define V where "V = scalar_val s"
  note inv = less.prems [folded V_def]
  have V: "0 \<le> V" "V < 2 ^ (len - 1)" using top by (simp_all add: V_def scalar_val_def lval_nonneg)
  have le: "pos \<le> len" and c: "carry = 0 \<or> carry = 1" using inv by (auto simp: wnaf_inv_def)
  show ?case
  proof (cases "pos < len")
    case False
    then have "pos = len" using le by simp
    moreover have "carry = 0" using inv False by (auto simp: wnaf_inv_def)
    ultimately show ?thesis using inv by (simp add: wnaf_loop.simps V_def)
  next
    case True
    have p: "pos < 256" using True len by simp
    have test: "secp256k1_scalar_get_bits s (word_of_nat pos) 1 = word_of_int carry \<longleftrightarrow> V div 2 ^ pos mod 2 = carry"
      using c unfolding get_bits_1 [OF p] V_def [symmetric]
      by (cases "V div 2 ^ pos mod 2 = 0") (auto simp: not_mod_2_eq_0_eq_1)
    show ?thesis
    proof (cases "V div 2 ^ pos mod 2 = carry")
      case bit: True
      have "wnaf_loop len w s sign pos carry lst ds = wnaf_loop len w s sign (pos + 1) carry lst ds"
        using True bit w by (subst wnaf_loop.simps) (simp add: test)
      then show ?thesis
        using less.hyps [of "pos + 1" carry lst ds] wnaf_skip [OF inv True V bit] True by (simp add: V_def)
    next
      case bit: False
      define now where "now = (if w > len - pos then len - pos else w)"
      define word where "word = V div 2 ^ pos mod 2 ^ now + carry"
      define carry' where "carry' = (word div 2 ^ (w - 1)) mod 2"
      note step = wnaf_digit [OF inv True V w(1) sign bit now_def word_def carry'_def]
      have n: "0 < now" "now < 31" "pos + now \<le> 256" using True w len by (auto simp: now_def)
      have P: "(2 :: int) ^ now \<le> 2 ^ 30" using n(2) by (intro power_increasing) simp_all
      have "sint (secp256k1_scalar_get_bits_var s (word_of_nat pos) (word_of_nat now) + word_of_int carry) = word"
      proof -
        have "uint (word_of_int carry :: u32) = carry" using c by auto
        then have "uint (secp256k1_scalar_get_bits_var s (word_of_nat pos) (word_of_nat now) + word_of_int carry) = word"
          using get_bits_window [of now pos s] n step(3,4) P
          by (simp add: uint_word_ariths word_def V_def)
        then show ?thesis using step(3,4) P by (simp add: sint_uint signed_take_bit_int_eq_self)
      qed
      moreover have "drop_bit (w - 1) word AND 1 = carry'"
        by (simp add: carry'_def drop_bit_eq_div and_one_eq)
      ultimately have "wnaf_loop len w s sign pos carry lst ds =
          wnaf_loop len w s sign (pos + now) carry' (int pos) (ds[pos := sign * (word - carry' * 2 ^ w)])"
        using True bit w by (subst wnaf_loop.simps) (simp add: test Let_def now_def [symmetric] push_bit_eq_mult)
      then show ?thesis
        using less.hyps [of "pos + now" carry' "int pos" "ds[pos := sign * (word - carry' * 2 ^ w)]"] step(1) n(1) True
        by (simp add: V_def)
    qed
  qed
qed

text \<open>What the caller relies on: the digits make up the scalar, or the scalar minus the order for the upper
  half of the scalars; the count is one more than the index of the last digit that is not zero.\<close>

definition wnaf_digits :: "nat \<Rightarrow> nat \<Rightarrow> int \<Rightarrow> int list \<Rightarrow> int \<Rightarrow> bool" where
  "wnaf_digits len w v ds cnt \<longleftrightarrow>
     digit_value (nat cnt) ds = v \<and> 0 \<le> cnt \<and> cnt \<le> int len \<and>
     (\<forall>i<len. ds ! i \<noteq> 0 \<longrightarrow> odd (ds ! i) \<and> \<bar>ds ! i\<bar> < 2 ^ (w - 1) \<and> int i < cnt) \<and>
     (\<forall>i<len. \<forall>j<len. ds ! i \<noteq> 0 \<longrightarrow> ds ! j \<noteq> 0 \<longrightarrow> i < j \<longrightarrow> i + w \<le> j) \<and>
     (0 < cnt \<longrightarrow> ds ! nat (cnt - 1) \<noteq> 0)"

lemma digit_value_trim:
  assumes "m \<le> n" and "\<forall>i<n. ds ! i \<noteq> 0 \<longrightarrow> i < m"
  shows "digit_value m ds = digit_value n ds"
  unfolding digit_value_def using assms by (intro sum.mono_neutral_left) auto

lemma wnaf_inv_digits:
  assumes inv: "wnaf_inv len w V sign len 0 lst ds" and V: "0 \<le> V" "V < 2 ^ len"
  shows "wnaf_digits len w (sign * V) ds (lst + 1)"
proof -
  have l: "- 1 \<le> lst" "lst < int len" "\<forall>i<len. ds ! i \<noteq> 0 \<longrightarrow> int i \<le> lst"
    "0 \<le> lst \<longrightarrow> ds ! nat lst \<noteq> 0" using inv by (auto simp: wnaf_inv_def)
  have "digit_value (nat (lst + 1)) ds = digit_value len ds"
    by (rule digit_value_trim) (use l in \<open>auto simp: nat_less_iff\<close>)
  moreover have "digit_value len ds = sign * V" using inv V by (simp add: wnaf_inv_def)
  ultimately show ?thesis using inv l by (auto simp: wnaf_digits_def wnaf_inv_def)
qed

lemma ecmult_wnaf_digits:
  assumes a: "scalar_val a < secp256k1_n" and w: "2 \<le> w" "w < 31"
  defines "v \<equiv> (if scalar_val a < 2 ^ 255 then scalar_val a else scalar_val a - secp256k1_n)"
  shows "\<exists>ds cnt. secp256k1_ecmult_wnaf wnaf 256 a w = (ds, cnt) \<and> wnaf_digits 256 w v ds cnt"
proof -
  have a0: "0 \<le> scalar_val a" by (simp add: scalar_val_def lval_nonneg)
  define neg where "neg \<longleftrightarrow> \<not> scalar_val a < 2 ^ 255"
  define s where "s = (if neg then secp256k1_scalar_negate a else a)"
  define sign :: int where "sign = (if neg then - 1 else 1)"
  have "scalar_val a div 2 ^ 255 = of_bool neg"
  proof (cases neg)
    case True
    have "scalar_val a < 2 * 2 ^ 255" using a by (simp add: secp256k1_n_def)
    then have "scalar_val a div 2 ^ 255 = 1"
      using True by (intro int_div_pos_eq [of _ _ _ "scalar_val a - 2 ^ 255"]) (auto simp: neg_def)
    then show ?thesis using True by simp
  qed (use a0 in \<open>simp add: neg_def div_pos_pos_trivial\<close>)
  then have hi: "secp256k1_scalar_get_bits a 255 1 \<noteq> 0 \<longleftrightarrow> neg"
    using get_bits_1 [of 255 a] by simp
  have neg_val: "scalar_val (secp256k1_scalar_negate a) = secp256k1_n - scalar_val a" if neg
  proof -
    have "0 < scalar_val a" using that by (simp add: neg_def)
    then have "(- scalar_val a) mod secp256k1_n = secp256k1_n - scalar_val a"
      using a by (simp add: zmod_zminus1_eq_if)
    then show ?thesis using a by (simp add: secp256k1_scalar_negate_val)
  qed
  have s: "scalar_val s < 2 ^ 255" "0 \<le> scalar_val s" "sign * scalar_val s = v"
    using neg_val by (auto simp: s_def sign_def v_def neg_def secp256k1_n_def scalar_val_def lval_nonneg)
  have sign: "sign = 1 \<or> sign = - 1" by (simp add: sign_def)
  have init: "wnaf_inv 256 w (scalar_val s) sign 0 0 (- 1) (replicate 256 0 @ drop 256 wnaf)"
    by (simp add: wnaf_inv_def digit_value_def nth_append)
  obtain ds lst where loop: "wnaf_loop 256 w s sign 0 0 (- 1) (replicate 256 0 @ drop 256 wnaf) = (ds, lst)"
    "wnaf_inv 256 w (scalar_val s) sign 256 0 lst ds"
    using wnaf_loop_inv [OF _ w _ sign init] s(1) by auto
  have "secp256k1_ecmult_wnaf wnaf 256 a w = (ds, lst + 1)"
    using loop(1) by (simp add: secp256k1_ecmult_wnaf_def Let_def hi s_def sign_def split: if_splits)
  moreover have "wnaf_digits 256 w v ds (lst + 1)"
    using wnaf_inv_digits [OF loop(2)] s by simp
  ultimately show ?thesis by blast
qed

subsection \<open>Correctness of the double multiplication\<close>

definition ecmult_context_ok :: "secp256k1_ecmult_context \<Rightarrow> bool" where
  "ecmult_context_ok ctx \<longleftrightarrow>
     (\<exists>tab. pre_g ctx = Some tab \<and> odd_storage_table gen (ECMULT_TABLE_SIZE WINDOW_G) tab)"

definition ecmult_frame_ok :: "ecmult_frame \<Rightarrow> bool" where
  "ecmult_frame_ok fr \<longleftrightarrow> length (fr_prej fr) = ECMULT_TABLE_SIZE WINDOW_A \<and>
     length (fr_zr fr) = ECMULT_TABLE_SIZE WINDOW_A \<and> length (fr_pre_a fr) = ECMULT_TABLE_SIZE WINDOW_A"

lemma table_get_rep:
  assumes "\<forall>i < ECMULT_TABLE_SIZE w. ge_rep S (odd_multiple P i) (pre ! i)"
    and "odd n" "\<bar>n\<bar> < 2 ^ (w - 1)" "2 \<le> w"
  shows "ge_rep S (zmul n P) (ECMULT_TABLE_GET_GE pre n)"
proof (cases "n > 0")
  case True
  then show ?thesis using odd_digit(1) [OF assms(2-4), of P] assms(1) by (simp add: ECMULT_TABLE_GET_GE_def)
next
  case False
  then show ?thesis using odd_digit(2) [OF assms(2-4), of P] assms(1) by (simp add: ECMULT_TABLE_GET_GE_def ge_rep_neg)
qed

lemma table_get_storage_rep:
  assumes "odd_storage_table P (ECMULT_TABLE_SIZE w) tab"
    and "odd n" "\<bar>n\<bar> < 2 ^ (w - 1)" "2 \<le> w"
  shows "ge_rep 1 (zmul n P) (ECMULT_TABLE_GET_GE_STORAGE tab n)"
proof (cases "n > 0")
  case True
  then show ?thesis using odd_digit(1) [OF assms(2-4), of P] assms(1)
    by (simp add: ECMULT_TABLE_GET_GE_STORAGE_def odd_storage_table_def gs_rep_def)
next
  case False
  then show ?thesis using odd_digit(2) [OF assms(2-4), of P] assms(1)
    by (simp add: ECMULT_TABLE_GET_GE_STORAGE_def odd_storage_table_def gs_rep_def ge_rep_neg)
qed

lemma ecmult_step_rep:
  assumes "\<forall>i < ECMULT_TABLE_SIZE WINDOW_A. ge_rep Z (odd_multiple A i) (pre_a ! i)"
    and "odd_storage_table gen (ECMULT_TABLE_SIZE WINDOW_G) tab" and "fe_rep 8 Z fz"
    and "wnaf_digits 256 WINDOW_A va da ca" and "wnaf_digits 256 WINDOW_G vg dg cg"
    and "gej_rep Z P r" and "i < 256"
  shows "gej_rep Z (P + (zmul (da ! i) A + zmul (dg ! i) gen)) (ecmult_step pre_a tab fz da ca dg cg i r)"
proof -
  have w: "2 \<le> WINDOW_A" "2 \<le> WINDOW_G" by (simp_all add: WINDOW_A_def WINDOW_G_def)
  define r1 where "r1 = (if int i < ca \<and> da ! i \<noteq> 0
               then fst (secp256k1_gej_add_ge_var r r (ECMULT_TABLE_GET_GE pre_a (da ! i)) None) else r)"
  have r1: "gej_rep Z (P + zmul (da ! i) A) r1"
  proof (cases "da ! i = 0")
    case False
    then have "odd (da ! i)" "\<bar>da ! i\<bar> < 2 ^ (WINDOW_A - 1)" "int i < ca" using assms(4,7) by (auto simp: wnaf_digits_def)
    then show ?thesis using gej_rep_add_ge_var [OF assms(6) table_get_rep [OF assms(1) _ _ w(1)]] False
      by (simp add: r1_def)
  qed (use assms(6) in \<open>simp add: r1_def\<close>)
  show ?thesis
  proof (cases "dg ! i = 0")
    case True
    then show ?thesis using r1 by (simp add: ecmult_step_def r1_def)
  next
    case False
    then have d: "odd (dg ! i)" "\<bar>dg ! i\<bar> < 2 ^ (WINDOW_G - 1)" "int i < cg" using assms(5,7) by (auto simp: wnaf_digits_def)
    have "gej_rep Z (P + zmul (da ! i) A + zmul (dg ! i) gen)
        (secp256k1_gej_add_zinv_var r1 r1 (ECMULT_TABLE_GET_GE_STORAGE tab (dg ! i)) fz)"
      by (rule gej_rep_add_zinv [OF r1 table_get_storage_rep [OF assms(2) d(1,2) w(2)] assms(3)])
    then show ?thesis using False d(3) by (simp add: ecmult_step_def r1_def [symmetric] add.assoc)
  qed
qed

lemma digit_value_more: "wnaf_digits len w v ds cnt \<Longrightarrow> cnt \<le> int m \<Longrightarrow> m \<le> len \<Longrightarrow> digit_value m ds = v"
proof -
  assume d: "wnaf_digits len w v ds cnt" and m: "cnt \<le> int m" "m \<le> len"
  have "digit_value (nat cnt) ds = digit_value m ds"
  proof (rule digit_value_trim)
    show "nat cnt \<le> m" using m(1) by simp
    show "\<forall>i<m. ds ! i \<noteq> 0 \<longrightarrow> i < nat cnt"
      using d m(2) unfolding wnaf_digits_def zless_nat_eq_int_zless by (meson order_less_le_trans)
  qed
  then show ?thesis using d by (simp add: wnaf_digits_def)
qed

text \<open>Back from the isomorphic curve.\<close>

lemma gej_rep_rescale_z:
  assumes "gej_rep Z P r" and "fe_rep 8 Z fz"
  shows "gej_rep 1 P (if \<not> gej_infinity r then r\<lparr>gej_z := secp256k1_fe_mul (gej_z r) fz\<rparr> else r)"
proof (cases "gej_infinity r")
  case True
  then show ?thesis using assms(1) gej_rep_infinity [OF assms(1)] by (simp add: gej_rep_def)
next
  case False
  then have "P \<noteq> 0" using gej_rep_infinity [OF assms(1)] by simp
  note xy = gej_rep_xy [OF assms(1) this]
  note f = gej_ok_finite [OF gej_rep_ok [OF assms(1)] False]
  define r' where "r' = r\<lparr>gej_z := secp256k1_fe_mul (gej_z r) fz\<rparr>"
  have "fe_rep 1 (fe_abs (gej_z r) * Z) (gej_z r')" using fe_rep_mul [OF f(3) assms(2)] by (simp add: r'_def)
  then have z: "fe_rep 8 (Z * fe_abs (gej_z r)) (gej_z r')" by (rule fe_repI) simp_all
  have xy': "xy_rep (Z * fe_abs (gej_z r)) P r'" using xy by (simp add: xy_rep_def r'_def)
  then have T: "Z * fe_abs (gej_z r) \<noteq> 0" by (simp add: xy_rep_def)
  from xy_rep_gej [OF xy' z T] T have "gej_rep 1 P r'" by simp
  then show ?thesis using False by (simp add: r'_def)
qed

theorem ecmult_rep:
  assumes fr: "ecmult_frame_ok fr" and ctx: "ecmult_context_ok ctx" and a: "gej_rep 1 A a" "A \<noteq> 0"
    and na: "scalar_val na < secp256k1_n" and ng: "scalar_val ng < secp256k1_n"
  shows "gej_rep 1 (zmul (scalar_val na) A + zmul (scalar_val ng) gen) (secp256k1_ecmult fr ctx a na ng)"
proof -
  obtain tab where tab: "pre_g ctx = Some tab" "odd_storage_table gen (ECMULT_TABLE_SIZE WINDOW_G) tab"
    using ctx by (auto simp: ecmult_context_ok_def)
  define va where "va = (if scalar_val na < 2 ^ 255 then scalar_val na else scalar_val na - secp256k1_n)"
  define vg where "vg = (if scalar_val ng < 2 ^ 255 then scalar_val ng else scalar_val ng - secp256k1_n)"
  have w: "2 \<le> WINDOW_A" "WINDOW_A < 31" "2 \<le> WINDOW_G" "WINDOW_G < 31" by (simp_all add: WINDOW_A_def WINDOW_G_def)
  obtain da ca where da: "secp256k1_ecmult_wnaf (fr_wnaf_na fr) 256 na WINDOW_A = (da, ca)" "wnaf_digits 256 WINDOW_A va da ca"
    using ecmult_wnaf_digits [OF na w(1,2)] unfolding va_def by blast
  obtain dg cg where dg: "secp256k1_ecmult_wnaf (fr_wnaf_ng fr) 256 ng WINDOW_G = (dg, cg)" "wnaf_digits 256 WINDOW_G vg dg cg"
    using ecmult_wnaf_digits [OF ng w(3,4)] unfolding vg_def by blast
  obtain Z pre_a fz where t: "secp256k1_ecmult_odd_multiples_table_globalz_windowa
      (fr_d fr) (fr_prej fr) (fr_zr fr) (fr_pre_a fr) (fr_Z fr) a = (pre_a, fz)"
    "Z \<noteq> 0" "fe_rep 8 Z fz" "\<forall>i < ECMULT_TABLE_SIZE WINDOW_A. ge_rep Z (odd_multiple A i) (pre_a ! i)"
    "length pre_a = length (fr_pre_a fr)"
    by (rule odd_multiples_table_globalz_rep [OF a, of "fr_prej fr" "fr_zr fr" "fr_pre_a fr" "fr_d fr" "fr_Z fr"])
      (use fr in \<open>simp_all add: ecmult_frame_ok_def\<close>)
  define bits where "bits = (if cg > ca then cg else ca)"
  have b: "ca \<le> int (nat bits)" "cg \<le> int (nat bits)" "nat bits \<le> 256"
    using da(2) dg(2) by (auto simp: bits_def wnaf_digits_def)
  define r where "r = foldl (\<lambda>r i. ecmult_step pre_a tab fz da ca dg cg i (fst (secp256k1_gej_double_var r r None)))
      secp256k1_gej_set_infinity (rev [0..<nat bits])"
  have "gej_rep Z (zmul (2 ^ nat bits) 0 + (\<Sum>i<nat bits. zmul (2 ^ i) (zmul (da ! i) A + zmul (dg ! i) gen))) r"
    unfolding r_def
    by (rule binary.loop) (use ecmult_step_rep [OF t(4) tab(2) t(3) da(2) dg(2)] b(3) gej_rep_set_infinity [OF t(2)] in auto)
  moreover have "(\<Sum>i<m. zmul (2 ^ i) (zmul (da ! i) A + zmul (dg ! i) gen)) =
      zmul (digit_value m da) A + zmul (digit_value m dg) gen" for m
    by (induction m) (simp_all add: digit_value_def zmul_add zmul_mult zmul_distrib add_ac)
  ultimately have r: "gej_rep Z (zmul va A + zmul vg gen) r"
    using digit_value_more [OF da(2) b(1,3)] digit_value_more [OF dg(2) b(2,3)] by simp
  have red: "zmul va A = zmul (scalar_val na) A" "zmul vg gen = zmul (scalar_val ng) gen"
    by (auto simp: va_def vg_def intro: zmul_cong)
  have run: "secp256k1_ecmult fr ctx a na ng =
      (if \<not> gej_infinity r then r\<lparr>gej_z := secp256k1_fe_mul (gej_z r) fz\<rparr> else r)"
    unfolding secp256k1_ecmult_def Let_def da(1) dg(1) t(1) tab(1) by (simp add: r_def bits_def)
  show ?thesis
    using gej_rep_rescale_z [OF r t(3)] unfolding run red by simp
qed

subsection \<open>Correctness of the context\<close>

theorem ecmult_context_build_ok:
  assumes "length prej = ECMULT_TABLE_SIZE WINDOW_G" and "length zr = ECMULT_TABLE_SIZE WINDOW_G"
    and "length prea = ECMULT_TABLE_SIZE WINDOW_G" and "length mem = ECMULT_TABLE_SIZE WINDOW_G"
  shows "ecmult_context_ok (secp256k1_ecmult_context_build d prej zr prea mem secp256k1_ecmult_context_init)"
proof -
  have n: "0 < ECMULT_TABLE_SIZE WINDOW_G" "ECMULT_TABLE_SIZE WINDOW_G < 2 ^ 15"
    by (simp_all add: ECMULT_TABLE_SIZE_def WINDOW_G_def)
  note tab = odd_multiples_table_storage_rep [OF gej_rep_set_ge [OF ge_rep_gen] gen_nonzero n]
  show ?thesis using tab [of prej zr prea mem d] assms
    by (simp add: ecmult_context_ok_def secp256k1_ecmult_context_build_def secp256k1_ecmult_context_init_def Let_def)
qed

lemma ecmult_context_clone_ok:
  "ecmult_context_ok src \<Longrightarrow> ecmult_context_ok (secp256k1_ecmult_context_clone dst src)"
  by (auto simp: ecmult_context_ok_def secp256k1_ecmult_context_clone_def odd_storage_table_def)

end
