(* ===== verification/Curve_Coords.thy ===== *)
theory Curve_Coords
  imports Group_Rep
begin

text \<open>
  Coordinates as numbers: the residue of a field element, the affine coordinates of a point, and what the
  operations of \<open>group_impl.h\<close> and \<open>field_impl.h\<close> that look at single coordinates decide about them: the
  square root, the point with a given \<open>x\<close>, the validity tests and the comparison of an \<open>x\<close> coordinate.
\<close>

subsection \<open>Residues\<close>

definition gf_val :: "gfp \<Rightarrow> int" where
  "gf_val = Rep_gfp"

lemma gf_val_bounds [simp]: "0 \<le> gf_val x" "gf_val x < secp256k1_p"
  using Rep_gfp [of x] by (simp_all add: gf_val_def)

lemma gf_val_gf: "gf_val (gf z) = z mod secp256k1_p"
  by (simp add: gf_val_def gf.rep_eq)

lemma gf_gf_val [simp]: "gf (gf_val x) = x"
proof -
  obtain z where "x = gf z" "0 \<le> z" "z < secp256k1_p" using gf_surj by blast
  then show ?thesis by (simp add: gf_val_gf)
qed

lemma gf_val_inject: "gf_val x = gf_val y \<longleftrightarrow> x = y"
  by (metis gf_gf_val)

lemma gf_val_0_iff: "gf_val x = 0 \<longleftrightarrow> x = 0"
  using gf_val_inject [of x 0] gf_val_gf [of 0] by (simp add: gf_hom)

lemma gf_val_uminus: "x \<noteq> 0 \<Longrightarrow> gf_val (- x) = secp256k1_p - gf_val x"
proof -
  assume "x \<noteq> 0"
  then have pos: "0 < gf_val x" using gf_val_0_iff [of x] gf_val_bounds(1) [of x] by linarith
  have "gf (- gf_val x) = - x" by (simp add: gf_hom)
  then have "gf_val (- x) = (- gf_val x) mod secp256k1_p" by (metis gf_val_gf)
  also have "\<dots> = (secp256k1_p - gf_val x) mod secp256k1_p" by (metis add.commute mod_add_self2 uminus_add_conv_diff)
  also have "\<dots> = secp256k1_p - gf_val x" using pos less_imp_le [OF gf_val_bounds(2) [of x]] by (intro mod_pos_pos_trivial) simp_all
  finally show ?thesis .
qed

lemma odd_gf_val_uminus: "x \<noteq> 0 \<Longrightarrow> odd (gf_val (- x)) \<longleftrightarrow> even (gf_val x)"
proof -
  assume "x \<noteq> 0"
  then have "gf_val (- x) = secp256k1_p - gf_val x" by (rule gf_val_uminus)
  moreover have "odd secp256k1_p" by (simp add: secp256k1_p_def)
  ultimately show ?thesis by (simp add: even_diff)
qed

lemma fe_val_normalized: "fe_normalized a \<Longrightarrow> fe_val a = gf_val (fe_abs a)"
  using fe_val_nonneg [of a] by (simp add: fe_normalized_def fe_abs_def gf_val_gf)

lemma fe_normalize_rep_canonical:
  assumes "fe_rep k x a" and "k \<le> 31"
  shows "fe_normalized (secp256k1_fe_normalize a)" "fe_val (secp256k1_fe_normalize a) = gf_val x"
    "fe_rep 1 x (secp256k1_fe_normalize a)" "secp256k1_fe_normalize_var a = secp256k1_fe_normalize a"
proof -
  have a: "fe_magnitude 31 a" using fe_magnitude_mono [OF fe_rep_magnitude [OF assms(1)] assms(2)] .
  show n: "fe_normalized (secp256k1_fe_normalize a)" using secp256k1_fe_normalize_val [OF a] by simp
  show r: "fe_rep 1 x (secp256k1_fe_normalize a)" by (rule fe_rep_normalize(2) [OF assms])
  show "fe_val (secp256k1_fe_normalize a) = gf_val x"
    using fe_val_normalized [OF n] fe_rep_abs [OF r] by simp
  show "secp256k1_fe_normalize_var a = secp256k1_fe_normalize a" by (rule secp256k1_fe_normalize_var_eq [OF a])
qed

lemma fe_normalized_b32:
  assumes "fe_normalized a"
  shows "be_val (secp256k1_fe_get_b32 a) = fe_val a" "length (secp256k1_fe_get_b32 a) = 32"
  using assms secp256k1_fe_get_b32_val [of a] by (auto simp: fe_normalized_def secp256k1_p_def)

lemma fe_set_b32_rep:
  assumes "length a = 32" and "be_val a < secp256k1_p"
  shows "fe_normalized (fst (secp256k1_fe_set_b32 a))" "fe_rep 1 (gf (be_val a)) (fst (secp256k1_fe_set_b32 a))"
proof -
  note v = secp256k1_fe_set_b32_val [OF assms(1)]
  show n: "fe_normalized (fst (secp256k1_fe_set_b32 a))" using v assms(2) by (simp add: fe_normalized_def)
  show "fe_rep 1 (gf (be_val a)) (fst (secp256k1_fe_set_b32 a))"
    using fe_normalized_magnitude [OF n] v(1) by (simp add: fe_rep_def fe_abs_def)
qed

subsection \<open>Square roots\<close>

definition gf_sqrt :: "gfp \<Rightarrow> gfp" where
  "gf_sqrt x = x ^ ((nat secp256k1_p + 1) div 4)"

lemma gf_sqrt_square: "gf_sqrt (y * y) * gf_sqrt (y * y) = y * y"
proof (cases "y = 0")
  case True
  then show ?thesis by (simp add: gf_sqrt_def secp256k1_p_def)
next
  case False
  define e where "e = (nat secp256k1_p + 1) div 4"
  have e: "4 * e = (nat secp256k1_p - 1) + 2" by (simp add: e_def secp256k1_p_def)
  have "gf_sqrt (y * y) * gf_sqrt (y * y) = (y ^ 2) ^ e * (y ^ 2) ^ e" by (simp only: gf_sqrt_def e_def power2_eq_square)
  also have "\<dots> = y ^ (2 * e + 2 * e)" by (simp only: power_mult power_add)
  also have "2 * e + 2 * e = (nat secp256k1_p - 1) + 2" using e by simp
  also have "y ^ (nat secp256k1_p - 1 + 2) = y * y" by (simp only: power_add gfp_fermat [OF False] power2_eq_square mult_1_left)
  finally show ?thesis .
qed

lemma secp256k1_fe_sqrt_mag: "fe_mul_ok a \<Longrightarrow> fe_magnitude 1 (fst (secp256k1_fe_sqrt a))"
  unfolding secp256k1_fe_sqrt_def Let_def fst_conv
  by (rule fe_reduced_magnitude, rule secp256k1_fe_sqr_val(1),
      rule fe_repr.pw_ok, (rule pw_rules fe_chain_pw | assumption)+)

lemma fe_sqrt_rep:
  assumes "fe_rep 8 x a"
  shows "fe_rep 1 (gf_sqrt x) (fst (secp256k1_fe_sqrt a))"
    and "snd (secp256k1_fe_sqrt a) \<longleftrightarrow> (\<exists>y. y * y = x)"
    and "snd (secp256k1_fe_sqrt a) \<Longrightarrow> gf_sqrt x * gf_sqrt x = x"
proof -
  have ok: "fe_mul_ok a" by (rule fe_rep_mul_ok [OF assms]) simp
  show r: "fe_rep 1 (gf_sqrt x) (fst (secp256k1_fe_sqrt a))"
    using fe_repr.pw_mod [OF secp256k1_fe_sqrt_pw [OF ok]] secp256k1_fe_sqrt_mag [OF ok] assms
    by (auto simp: fe_rep_def gf_sqrt_def gf_power fe_abs_def dest: fe_abs_cong)
  have "snd (secp256k1_fe_sqrt a) \<longleftrightarrow> gf_sqrt x * gf_sqrt x = x"
    using secp256k1_fe_sqrt_check [OF fe_rep_magnitude [OF assms], of "fst (secp256k1_fe_sqrt a)" "snd (secp256k1_fe_sqrt a)"]
      fe_rep_abs [OF r] fe_rep_abs [OF assms]
    by (auto simp: fe_abs_def gf_eq_iff [symmetric] gf_hom)
  then show "snd (secp256k1_fe_sqrt a) \<longleftrightarrow> (\<exists>y. y * y = x)"
    "snd (secp256k1_fe_sqrt a) \<Longrightarrow> gf_sqrt x * gf_sqrt x = x"
    using gf_sqrt_square by auto
qed

subsection \<open>Coordinates of points\<close>

definition x_of :: "epoint \<Rightarrow> int" where
  "x_of P = (case point_of P of Infinity \<Rightarrow> 0 | Pt x y \<Rightarrow> gf_val x)"

definition y_of :: "epoint \<Rightarrow> int" where
  "y_of P = (case point_of P of Infinity \<Rightarrow> 0 | Pt x y \<Rightarrow> gf_val y)"

lemma xy_of_Pt: "point_of P = Pt x y \<Longrightarrow> x_of P = gf_val x \<and> y_of P = gf_val y"
  by (simp add: x_of_def y_of_def)

lemma x_of_bounds: "0 \<le> x_of P" "x_of P < secp256k1_p"
  by (simp_all add: x_of_def p_pos split: point.split)

lemma y_of_bounds: "0 \<le> y_of P" "y_of P < secp256k1_p"
  by (simp_all add: y_of_def p_pos split: point.split)

lemma epoint_eq_iff: "P \<noteq> 0 \<Longrightarrow> Q \<noteq> 0 \<Longrightarrow> x_of P = x_of Q \<Longrightarrow> y_of P = y_of Q \<Longrightarrow> P = Q"
  by (cases "point_of P"; cases "point_of Q")
    (auto simp: x_of_def y_of_def gf_val_inject simp flip: point_of_inject point_of_eq_Infinity)

lemma x_of_uminus [simp]: "x_of (- P) = x_of P"
  by (cases "point_of P") (simp_all add: x_of_def point_of_uminus)

lemma odd_y_of_uminus: "P \<noteq> 0 \<Longrightarrow> odd (y_of (- P)) \<longleftrightarrow> even (y_of P)"
proof -
  assume "P \<noteq> 0"
  then obtain u v where uv: "point_of P = Pt u v" by (cases "point_of P") auto
  have "v \<noteq> 0" using on_curve_point_of [of P] uv on_curve_y by metis
  then show ?thesis using odd_gf_val_uminus by (simp add: y_of_def point_of_uminus uv)
qed

lemma epoint_same_x_of: "P \<noteq> 0 \<Longrightarrow> Q \<noteq> 0 \<Longrightarrow> x_of P = x_of Q \<Longrightarrow> Q = P \<or> Q = - P"
  using point_of_eq_Infinity [of P] point_of_eq_Infinity [of Q]
  by (cases "point_of P"; cases "point_of Q") (auto simp: x_of_def gf_val_inject dest: epoint_same_x)

lemma epoint_parity_unique:
  "P \<noteq> 0 \<Longrightarrow> Q \<noteq> 0 \<Longrightarrow> x_of P = x_of Q \<Longrightarrow> (odd (y_of P) \<longleftrightarrow> odd (y_of Q)) \<Longrightarrow> P = Q"
  using epoint_same_x_of [of P Q] odd_y_of_uminus [of P] by auto

lemma ge_rep_coords:
  assumes "ge_rep 1 P a" and "P \<noteq> 0"
  shows "fe_rep 8 (gf (x_of P)) (ge_x a)" "fe_rep 8 (gf (y_of P)) (ge_y a)" "\<not> ge_infinity a"
    "point_of P = Pt (gf (x_of P)) (gf (y_of P))"
proof -
  show fin: "\<not> ge_infinity a" using ge_rep_infinity [OF assms(1)] assms(2) by simp
  note f = ge_ok_finite [OF ge_rep_ok [OF assms(1)] fin]
  have P: "point_of P = Pt (fe_abs (ge_x a)) (fe_abs (ge_y a))" using f(3) ge_rep_abs [OF assms(1)] by simp
  then show "fe_rep 8 (gf (x_of P)) (ge_x a)" "fe_rep 8 (gf (y_of P)) (ge_y a)"
    "point_of P = Pt (gf (x_of P)) (gf (y_of P))"
    using f by (simp_all add: x_of_def y_of_def)
qed

text \<open>A pair of field elements that satisfies the equation of the curve is a point.\<close>

lemma ge_rep_Pt:
  assumes "fe_rep 8 x (ge_x a)" and "fe_rep 8 y (ge_y a)" and "\<not> ge_infinity a" and "on_curve (Pt x y)"
  shows "ge_rep 1 (epoint_of (Pt x y)) a" "point_of (epoint_of (Pt x y)) = Pt x y" "epoint_of (Pt x y) \<noteq> 0"
proof -
  show P: "point_of (epoint_of (Pt x y)) = Pt x y" by (rule point_of_epoint_of [OF assms(4)])
  then show "epoint_of (Pt x y) \<noteq> 0" by (metis point.distinct(1) point_of_zero)
  show "ge_rep 1 (epoint_of (Pt x y)) a"
    using assms P by (simp add: ge_rep_def ge_ok_def ge_abs_def fe_rep_def)
qed

subsection \<open>Tests and lifting\<close>

lemma fe_rep_curve_b: "fe_rep 1 7 (secp256k1_fe_set_int CURVE_B)"
  using fe_rep_set_int [of CURVE_B] by (simp add: CURVE_B_def gf_numeral)

lemma ge_set_xquad_rep:
  assumes x: "fe_rep 8 x f"
  obtains y where "ge_x (fst (secp256k1_ge_set_xquad f)) = f" "fe_rep 1 y (ge_y (fst (secp256k1_ge_set_xquad f)))"
    "\<not> ge_infinity (fst (secp256k1_ge_set_xquad f))"
    "snd (secp256k1_ge_set_xquad f) \<longleftrightarrow> (\<exists>y. on_curve (Pt x y))"
    "snd (secp256k1_ge_set_xquad f) \<longrightarrow> on_curve (Pt x y)"
proof -
  define c where "c = secp256k1_fe_add (secp256k1_fe_set_int CURVE_B) (secp256k1_fe_mul f (secp256k1_fe_sqr f))"
  have c: "fe_rep 8 (x * x * x + 7) c"
    unfolding c_def by (rule fe_repI, (rule fe_rep_curve_b fe_rules x | simp add: algebra_simps; fail)+)
  have eq: "secp256k1_ge_set_xquad f = (\<lparr>ge_x = f, ge_y = fst (secp256k1_fe_sqrt c), ge_infinity = False\<rparr>, snd (secp256k1_fe_sqrt c))"
    by (simp add: secp256k1_ge_set_xquad_def Let_def c_def case_prod_beta)
  note s = fe_sqrt_rep [OF c]
  show ?thesis
    by (rule that [of "gf_sqrt (x * x * x + 7)"]) (use s in \<open>simp_all add: eq on_curve_simps\<close>)
qed

lemma ge_set_xo_var_rep:
  assumes x: "fe_rep 8 x f" and odd: "oddness = 0 \<or> oddness = 1"
  shows "snd (secp256k1_ge_set_xo_var f oddness) \<longleftrightarrow> (\<exists>y. on_curve (Pt x y))"
    and "snd (secp256k1_ge_set_xo_var f oddness) \<Longrightarrow>
      \<exists>P. P \<noteq> 0 \<and> ge_rep 1 P (fst (secp256k1_ge_set_xo_var f oddness)) \<and> x_of P = gf_val x \<and>
        (odd (y_of P) \<longleftrightarrow> oddness = 1)"
proof -
  obtain y where q: "ge_x (fst (secp256k1_ge_set_xquad f)) = f" "fe_rep 1 y (ge_y (fst (secp256k1_ge_set_xquad f)))"
    "\<not> ge_infinity (fst (secp256k1_ge_set_xquad f))"
    "snd (secp256k1_ge_set_xquad f) \<longleftrightarrow> (\<exists>y. on_curve (Pt x y))"
    "snd (secp256k1_ge_set_xquad f) \<longrightarrow> on_curve (Pt x y)"
    by (rule ge_set_xquad_rep [OF x])
  define r where "r = fst (secp256k1_ge_set_xquad f)"
  show "snd (secp256k1_ge_set_xo_var f oddness) \<longleftrightarrow> (\<exists>y. on_curve (Pt x y))"
    using q(4) by (auto simp: secp256k1_ge_set_xo_var_def case_prod_beta Let_def)
  assume ok: "snd (secp256k1_ge_set_xo_var f oddness)"
  then have okq: "snd (secp256k1_ge_set_xquad f)"
    by (auto simp: secp256k1_ge_set_xo_var_def case_prod_beta Let_def split: if_splits)
  have on: "on_curve (Pt x y)" using q(5) okq by blast
  then have y0: "y \<noteq> 0" by (rule on_curve_y)
  define yn where "yn = secp256k1_fe_normalize_var (ge_y r)"
  note n = fe_normalize_rep_canonical [OF q(2), folded r_def]
  have yn: "fe_rep 1 y yn" "fe_val yn = gf_val y" using n by (simp_all add: yn_def)
  have is_odd: "secp256k1_fe_is_odd yn = of_bool (odd (gf_val y))" by (simp add: secp256k1_fe_is_odd_eq yn(2))
  define z where "z = (if odd (gf_val y) \<longleftrightarrow> oddness = 1 then y else - y)"
  have res: "fst (secp256k1_ge_set_xo_var f oddness) =
      (if odd (gf_val y) \<longleftrightarrow> oddness = 1 then r\<lparr>ge_y := yn\<rparr> else r\<lparr>ge_y := secp256k1_fe_negate yn 1\<rparr>)"
    using okq odd is_odd by (auto simp: secp256k1_ge_set_xo_var_def case_prod_beta Let_def r_def [symmetric] yn_def [symmetric])
  have neg: "fe_rep 8 (- y) (secp256k1_fe_negate yn 1)"
    by (rule fe_repI, (rule fe_rules yn(1) | simp; fail)+)
  have z: "fe_rep 8 z (ge_y (fst (secp256k1_ge_set_xo_var f oddness)))"
    using fe_repI [OF yn(1), of 8 y] neg by (simp add: res z_def)
  have onz: "on_curve (Pt x z)" using on by (simp add: z_def on_curve_simps)
  have fx: "fe_rep 8 x (ge_x (fst (secp256k1_ge_set_xo_var f oddness)))" "\<not> ge_infinity (fst (secp256k1_ge_set_xo_var f oddness))"
    using q(1,3) x by (simp_all add: res r_def)
  note P = ge_rep_Pt [OF fx(1) z fx(2) onz]
  have "odd (gf_val z) \<longleftrightarrow> oddness = 1" using odd_gf_val_uminus [OF y0] by (auto simp: z_def)
  then show "\<exists>P. P \<noteq> 0 \<and> ge_rep 1 P (fst (secp256k1_ge_set_xo_var f oddness)) \<and> x_of P = gf_val x \<and>
        (odd (y_of P) \<longleftrightarrow> oddness = 1)"
    using P xy_of_Pt [OF P(2)] by (intro exI [of _ "epoint_of (Pt x z)"]) simp
qed

lemma ge_is_valid_var_rep:
  assumes "fe_rep 8 x (ge_x a)" and "fe_rep 8 y (ge_y a)" and fin: "\<not> ge_infinity a"
  shows "secp256k1_ge_is_valid_var a \<longleftrightarrow> on_curve (Pt x y)"
proof -
  define x3 where "x3 = secp256k1_fe_normalize_weak (secp256k1_fe_add
    (secp256k1_fe_mul (secp256k1_fe_sqr (ge_x a)) (ge_x a)) (secp256k1_fe_set_int CURVE_B))"
  have x3: "fe_rep 1 (x * x * x + 7) x3"
    unfolding x3_def by (rule fe_repI, (rule fe_rep_curve_b fe_rules assms | simp; fail)+)
  have y2: "fe_rep 1 (y * y) (secp256k1_fe_sqr (ge_y a))" by (rule fe_rules assms | simp)+
  have "secp256k1_ge_is_valid_var a = secp256k1_fe_equal_var (secp256k1_fe_sqr (ge_y a)) x3"
    using fin by (simp add: secp256k1_ge_is_valid_var_def Let_def x3_def)
  also have "\<dots> \<longleftrightarrow> y * y = x * x * x + 7" using fe_rep_equal(2) [OF y2 x3] by simp
  finally show ?thesis by (simp add: on_curve_simps)
qed

lemma gej_eq_x_var_rep:
  assumes "gej_rep 1 P a" and "P \<noteq> 0" and "fe_rep 8 x f"
  shows "secp256k1_gej_eq_x_var f a \<longleftrightarrow> x_of P = gf_val x"
proof -
  have fin: "\<not> gej_infinity a" using gej_rep_infinity [OF assms(1)] assms(2) by simp
  note a = gej_ok_finite [OF gej_rep_ok [OF assms(1)] fin]
  define X Z where "X = fe_abs (gej_x a)" and "Z = fe_abs (gej_z a)"
  have P: "point_of P = jac X (fe_abs (gej_y a)) Z"
    using a(5) gej_rep_abs [OF assms(1)] by (simp add: X_def Z_def)
  have xP: "x_of P = gf_val (X / (Z * Z))" using P by (simp add: x_of_def jac_def)
  have r: "fe_rep 1 (Z * Z * x) (secp256k1_fe_mul (secp256k1_fe_sqr (gej_z a)) f)"
    unfolding Z_def by (rule fe_rules a assms(3) | simp)+
  have r2: "fe_rep 1 X (secp256k1_fe_normalize_weak (gej_x a))" unfolding X_def by (rule fe_rules a | simp)+
  have "secp256k1_gej_eq_x_var f a \<longleftrightarrow> Z * Z * x = X"
    using fe_rep_equal(2) [OF r r2] by (simp add: secp256k1_gej_eq_x_var_def Let_def)
  also have "\<dots> \<longleftrightarrow> X / (Z * Z) = x" using a(4) by (auto simp: Z_def [symmetric] field_simps)
  finally show ?thesis by (simp add: xP gf_val_inject)
qed

subsection \<open>No point has \<open>x\<close> coordinate zero\<close>

text \<open>Seven is no square modulo the field prime, by Euler's criterion: the library takes a public key with
  \<open>x\<close> coordinate zero for a sign of an uninitialised object.\<close>

lemma seven_h_0: "seven_to 0xfffffffffffffffffffffffffffffffffffffffffffffffffffffffefffffc2f (num_of_nat 0x1ffffffffffffffff)
    (num_of_nat 0x44cd59cec0a8c0ede57b1e4fb490dedd31a4186cad77b12aacda05d02db12e61d)"
  by (rule power_step [where e = "num_of_nat 0x1ffffffffffffffff", OF power_start [of "num.Bit1 (num.Bit1 num.One)"] folds_p])
    (simp_all only: folds_p_def pow_eval cert_simps num_simps)

lemma seven_h_1: "seven_to 0xfffffffffffffffffffffffffffffffffffffffffffffffffffffffefffffc2f (num_of_nat 0x1ffffffffffffffffffffffffffffffff)
    (num_of_nat 0x129410c158914397b372a1f03ad07934400373f4ee322fe55e9c0198868bfc78d)"
  by (rule power_step [where e = "num_of_nat 0x1ffffffffffffffff", OF seven_h_0 folds_p])
    (simp_all only: folds_p_def pow_eval cert_simps num_simps)

lemma seven_h_2: "seven_to 0xfffffffffffffffffffffffffffffffffffffffffffffffffffffffefffffc2f (num_of_nat 0x1ffffffffffffffffffffffffffffffffffffffffffffffff)
    (num_of_nat 0x372a1c17d283dff1164d1aeb29978128f9cc3ae9d1ba6328c60c5677234956a4f)"
  by (rule power_step [where e = "num_of_nat 0x1ffffffffffffffff", OF seven_h_1 folds_p])
    (simp_all only: folds_p_def pow_eval cert_simps num_simps)

lemma seven_h: "seven_to 0xfffffffffffffffffffffffffffffffffffffffffffffffffffffffefffffc2f (num_of_nat 0x7fffffffffffffffffffffffffffffffffffffffffffffffffffffff7ffffe17)
    (num_of_nat 0xfffffffffffffffffffffffffffffffffffffffffffffffffffffffefffffc2e)"
  by (rule power_step [where e = "num_of_nat 0x7fffffff7ffffe17", OF seven_h_2 folds_p])
    (simp_all only: folds_p_def pow_eval cert_simps num_simps)

lemma seven_no_square: "y * y \<noteq> (7 :: gfp)"
proof
  define e :: nat where "e = 0x7fffffffffffffffffffffffffffffffffffffffffffffffffffffff7ffffe17"
  assume y: "y * y = 7"
  have "gf 7 \<noteq> 0" unfolding gf_eq_0_iff by (auto simp: secp256k1_p_def dest!: zdvd_imp_le)
  then have "y \<noteq> 0" using y by (auto simp: gf_numeral)
  then have "y ^ (2 * e) = 1" using gfp_fermat [of y] by (simp add: e_def secp256k1_p_def)
  then have "gf (7 ^ e) = gf 1" using y by (simp add: power_mult power2_eq_square gf_power gf_numeral gf_hom)
  then have "(7 :: int) ^ e mod secp256k1_p = 1 mod secp256k1_p" by (simp only: gf_eq_iff)
  moreover have "(7 :: int) ^ e mod secp256k1_p = 0xfffffffffffffffffffffffffffffffffffffffffffffffffffffffefffffc2e mod secp256k1_p"
    using seven_h unfolding power_is_def num_of_nat_numeral_eq p_numeral e_def .
  ultimately show False by (simp add: secp256k1_p_def)
qed

lemma x_of_nonzero: "P \<noteq> 0 \<Longrightarrow> x_of P \<noteq> 0"
proof
  assume "P \<noteq> 0" and x: "x_of P = 0"
  then obtain u v where uv: "point_of P = Pt u v" by (cases "point_of P") auto
  have "u = gf (x_of P)" using xy_of_Pt [OF uv] by simp
  then have "u = 0" by (simp add: x gf_hom)
  then have "v * v = 7" using on_curve_point_of [of P] by (simp add: uv on_curve_def)
  then show False by (simp add: seven_no_square)
qed

end
