(* ===== verification/Ecdsa.thy ===== *)
theory Ecdsa
  imports Ecmult_Gen Ecmult Curve_Coords Scalar_Field
begin

text \<open>
  Verification and signing (\<open>ecdsa_impl.h\<close>), and the recovery of the public key
  (\<open>modules/recovery/main_impl.h\<close>). A signature \<open>(r, s)\<close> of the number \<open>z\<close> is valid for the key \<open>Q\<close> when
  the point \<open>R\<close> with \<open>s * R = z * G + r * Q\<close> is not at infinity and its \<open>x\<close> coordinate is \<open>r\<close> modulo the
  order (SEC 1, 4.1.4, with the inverse of \<open>s\<close> moved to the other side).
\<close>

definition secp256k1_ecdsa_const_order_as_fe :: secp256k1_fe where
  "secp256k1_ecdsa_const_order_as_fe =
     SECP256K1_FE_CONST 0xFFFFFFFF 0xFFFFFFFF 0xFFFFFFFF 0xFFFFFFFE 0xBAAEDCE6 0xAF48A03B 0xBFD25E8C 0xD0364141"

definition secp256k1_ecdsa_const_p_minus_order :: secp256k1_fe where
  "secp256k1_ecdsa_const_p_minus_order = SECP256K1_FE_CONST 0 0 0 1 0x45512319 0x50B75FC4 0x402DA172 0x2FC9BAEE"

definition secp256k1_ecdsa_sig_verify ::
  "ecmult_frame \<Rightarrow> secp256k1_ecmult_context \<Rightarrow> secp256k1_scalar \<Rightarrow> secp256k1_scalar \<Rightarrow> secp256k1_ge \<Rightarrow>
   secp256k1_scalar \<Rightarrow> bool" where
  "secp256k1_ecdsa_sig_verify fr ctx sigr sigs pubkey msg =
     (if secp256k1_scalar_is_zero sigr \<or> secp256k1_scalar_is_zero sigs then False
      else (let sn = secp256k1_scalar_inverse_var sigs;
                u1 = secp256k1_scalar_mul sn msg;
                u2 = secp256k1_scalar_mul sn sigr;
                pubkeyj = secp256k1_gej_set_ge pubkey;
                pr = secp256k1_ecmult fr ctx pubkeyj u2 u1
            in if secp256k1_gej_is_infinity pr then False
               else (let c = secp256k1_scalar_get_b32 sigr;
                         xr = fst (secp256k1_fe_set_b32 c)
                     in if secp256k1_gej_eq_x_var xr pr then True
                        else if secp256k1_fe_cmp_var xr secp256k1_ecdsa_const_p_minus_order \<ge> 0 then False
                        else (let xr = secp256k1_fe_add xr secp256k1_ecdsa_const_order_as_fe
                              in if secp256k1_gej_eq_x_var xr pr then True else False))))"

text \<open>\<open>*sigr\<close>, \<open>*sigs\<close>, \<open>*recid\<close> (when the pointer is not \<open>NULL\<close>) and the return value.\<close>

definition secp256k1_ecdsa_sig_sign ::
  "secp256k1_ecmult_gen_context \<Rightarrow> secp256k1_scalar \<Rightarrow> secp256k1_scalar \<Rightarrow> secp256k1_scalar \<Rightarrow> int option \<Rightarrow>
   secp256k1_scalar \<times> secp256k1_scalar \<times> int option \<times> bool" where
  "secp256k1_ecdsa_sig_sign ctx seckey msg nonce recid =
     (let rp = secp256k1_ecmult_gen ctx nonce;
          r = fst (secp256k1_ge_set_gej rp);
          r = r\<lparr>ge_x := secp256k1_fe_normalize (ge_x r)\<rparr>;
          r = r\<lparr>ge_y := secp256k1_fe_normalize (ge_y r)\<rparr>;
          b = secp256k1_fe_get_b32 (ge_x r);
          (sigr, overflow) = secp256k1_scalar_set_b32 b;
          recid = map_option (\<lambda>_. (if overflow \<noteq> 0 then 2 else 0) OR (if secp256k1_fe_is_odd (ge_y r) \<noteq> 0 then 1 else 0)) recid;
          n = secp256k1_scalar_mul sigr seckey;
          n = fst (secp256k1_scalar_add n msg);
          sigs = secp256k1_scalar_inverse nonce;
          sigs = secp256k1_scalar_mul sigs n
      in if secp256k1_scalar_is_zero sigs then (sigr, sigs, recid, False)
         else if secp256k1_scalar_is_high sigs \<noteq> 0
         then (sigr, secp256k1_scalar_negate sigs, map_option (\<lambda>i. i XOR 1) recid, True)
         else (sigr, sigs, recid, True))"

text \<open>\<open>*pubkey\<close> and the return value; the \<open>int\<close> \<open>recid\<close> is tested bit by bit.\<close>

definition secp256k1_ecdsa_sig_recover ::
  "ecmult_frame \<Rightarrow> secp256k1_ecmult_context \<Rightarrow> secp256k1_scalar \<Rightarrow> secp256k1_scalar \<Rightarrow> secp256k1_ge \<Rightarrow>
   secp256k1_scalar \<Rightarrow> int \<Rightarrow> secp256k1_ge \<times> bool" where
  "secp256k1_ecdsa_sig_recover fr ctx sigr sigs pubkey msg recid =
     (if secp256k1_scalar_is_zero sigr \<or> secp256k1_scalar_is_zero sigs then (pubkey, False)
      else (let brx = secp256k1_scalar_get_b32 sigr;
                fx = fst (secp256k1_fe_set_b32 brx)
            in if recid AND 2 \<noteq> 0 \<and> secp256k1_fe_cmp_var fx secp256k1_ecdsa_const_p_minus_order \<ge> 0 then (pubkey, False)
               else (let fx = (if recid AND 2 \<noteq> 0 then secp256k1_fe_add fx secp256k1_ecdsa_const_order_as_fe else fx);
                         (x, ok) = secp256k1_ge_set_xo_var fx (word_of_int (recid AND 1))
                     in if \<not> ok then (pubkey, False)
                        else (let xj = secp256k1_gej_set_ge x;
                                  rn = secp256k1_scalar_inverse_var sigr;
                                  u1 = secp256k1_scalar_mul rn msg;
                                  u1 = secp256k1_scalar_negate u1;
                                  u2 = secp256k1_scalar_mul rn sigs;
                                  qj = secp256k1_ecmult fr ctx xj u2 u1;
                                  pubkey = fst (secp256k1_ge_set_gej_var pubkey qj)
                              in (pubkey, \<not> secp256k1_gej_is_infinity qj)))))"

subsection \<open>Specification\<close>

definition ecdsa_valid :: "int \<Rightarrow> int \<Rightarrow> int \<Rightarrow> epoint \<Rightarrow> bool" where
  "ecdsa_valid z r s Q \<longleftrightarrow> 0 < r \<and> r < secp256k1_n \<and> 0 < s \<and> s < secp256k1_n \<and>
     (\<exists>R. R \<noteq> 0 \<and> zmul s R = zmul z gen + zmul r Q \<and> x_of R mod secp256k1_n = r)"

lemma zmul_cancel:
  assumes "\<not> secp256k1_n dvd s" and "zmul s P = zmul s Q"
  shows "P = Q"
proof -
  have "zmul s (P - Q) = 0" using assms(2) by (simp add: zmul_diff_right)
  then show ?thesis using assms(1) by (simp add: zmul_eq_0_iff)
qed

lemma zmul_inverse:
  assumes "k * w mod secp256k1_n = 1"
  shows "zmul k (zmul w P) = P"
proof -
  have "zmul (k * w) P = zmul 1 P" by (rule zmul_cong) (use assms in \<open>simp add: secp256k1_n_def\<close>)
  then show ?thesis by (simp add: zmul_mult)
qed

lemma scalar_fe_rep:
  assumes "scalar_ok a"
  shows "fe_rep 1 (gf (scalar_val a)) (fst (secp256k1_fe_set_b32 (secp256k1_scalar_get_b32 a)))"
    and "fe_normalized (fst (secp256k1_fe_set_b32 (secp256k1_scalar_get_b32 a)))"
    and "fe_val (fst (secp256k1_fe_set_b32 (secp256k1_scalar_get_b32 a))) = scalar_val a"
proof -
  have v: "be_val (secp256k1_scalar_get_b32 a) < secp256k1_p"
    using assms by (simp add: secp256k1_scalar_get_b32_val scalar_ok_def secp256k1_n_def secp256k1_p_def)
  show "fe_rep 1 (gf (scalar_val a)) (fst (secp256k1_fe_set_b32 (secp256k1_scalar_get_b32 a)))"
    "fe_normalized (fst (secp256k1_fe_set_b32 (secp256k1_scalar_get_b32 a)))"
    "fe_val (fst (secp256k1_fe_set_b32 (secp256k1_scalar_get_b32 a))) = scalar_val a"
    using fe_set_b32_rep [OF length_get_b32 v] secp256k1_fe_set_b32_val(1) [OF length_get_b32]
    by (simp_all add: secp256k1_scalar_get_b32_val)
qed

lemma order_as_fe: "fe_rep 1 (gf secp256k1_n) secp256k1_ecdsa_const_order_as_fe"
  by (simp add: fe_rep_def fe_abs_def secp256k1_ecdsa_const_order_as_fe_def SECP256K1_FE_CONST_def fe_magnitude_iff
      fe_val_def fe_limbs_def secp256k1_n_def)

lemma p_minus_order: "fe_normalized secp256k1_ecdsa_const_p_minus_order"
  "fe_val secp256k1_ecdsa_const_p_minus_order = secp256k1_p - secp256k1_n"
  by (simp_all add: fe_normalized_def secp256k1_ecdsa_const_p_minus_order_def SECP256K1_FE_CONST_def
      fe_val_def fe_limbs_def secp256k1_n_def secp256k1_p_def)

lemma cmp_p_minus_order:
  assumes "scalar_ok a"
  shows "secp256k1_fe_cmp_var (fst (secp256k1_fe_set_b32 (secp256k1_scalar_get_b32 a))) secp256k1_ecdsa_const_p_minus_order \<ge> 0 \<longleftrightarrow>
    secp256k1_p - secp256k1_n \<le> scalar_val a"
  using secp256k1_fe_cmp_var_eq [OF scalar_fe_rep(2) [OF assms] p_minus_order(1)] scalar_fe_rep(3) [OF assms] p_minus_order(2)
  by (simp add: sgn_if)

lemma x_mod_n: "0 \<le> x \<Longrightarrow> x < secp256k1_p \<Longrightarrow> x mod secp256k1_n = (if x < secp256k1_n then x else x - secp256k1_n)"
proof -
  assume x: "0 \<le> x" "x < secp256k1_p"
  have "secp256k1_p < 2 * secp256k1_n" by (simp add: secp256k1_p_def secp256k1_n_def)
  then have "(x - secp256k1_n) mod secp256k1_n = x - secp256k1_n" if "\<not> x < secp256k1_n"
    using that x by (intro mod_pos_pos_trivial) linarith+
  moreover have "(x - secp256k1_n) mod secp256k1_n = x mod secp256k1_n" by simp
  ultimately show ?thesis using x by simp
qed

lemma x_mod_n_eq:
  assumes "0 \<le> r" and "r < secp256k1_n" and "0 \<le> x" and "x < secp256k1_p"
  shows "x mod secp256k1_n = r \<longleftrightarrow> x = r \<or> r < secp256k1_p - secp256k1_n \<and> x = r + secp256k1_n"
  using assms by (auto simp: x_mod_n)

subsection \<open>Verification\<close>

lemma ecdsa_valid_at:
  assumes sn: "s * sn mod secp256k1_n = 1" and s: "0 < s" "s < secp256k1_n" and r: "0 < r" "r < secp256k1_n"
  shows "ecdsa_valid z r s Q \<longleftrightarrow>
    (let R = zmul (sn * r) Q + zmul (sn * z) gen in R \<noteq> 0 \<and> x_of R mod secp256k1_n = r)"
proof -
  define R where "R = zmul (sn * r) Q + zmul (sn * z) gen"
  have nd: "\<not> secp256k1_n dvd s" using s zdvd_imp_le [of secp256k1_n s] by auto
  have "zmul s R = zmul s (zmul sn (zmul r Q + zmul z gen))"
    by (simp only: R_def zmul_distrib zmul_mult)
  then have sR: "zmul s R = zmul z gen + zmul r Q" by (simp only: zmul_inverse [OF sn] add.commute)
  have "R' = R" if "zmul s R' = zmul z gen + zmul r Q" for R'
    by (rule zmul_cancel [OF nd]) (simp only: that sR)
  then have "(\<exists>R'. R' \<noteq> 0 \<and> zmul s R' = zmul z gen + zmul r Q \<and> x_of R' mod secp256k1_n = r) \<longleftrightarrow>
      R \<noteq> 0 \<and> x_of R mod secp256k1_n = r" using sR by blast
  then show ?thesis unfolding ecdsa_valid_def Let_def R_def [symmetric] using s r by blast
qed

lemma ecdsa_sig_verify_iff:
  assumes fr: "ecmult_frame_ok fr" and ctx: "ecmult_context_ok ctx" and Q: "ge_rep 1 Q pubkey" "Q \<noteq> 0"
    and ok: "scalar_ok sigr" "scalar_ok sigs" "scalar_ok msg"
  shows "secp256k1_ecdsa_sig_verify fr ctx sigr sigs pubkey msg \<longleftrightarrow>
    ecdsa_valid (scalar_val msg) (scalar_val sigr) (scalar_val sigs) Q"
proof (cases "scalar_val sigr = 0 \<or> scalar_val sigs = 0")
  case True
  then show ?thesis by (auto simp: secp256k1_ecdsa_sig_verify_def secp256k1_scalar_is_zero_eq ecdsa_valid_def)
next
  case False
  define z r s where "z = scalar_val msg" and "r = scalar_val sigr" and "s = scalar_val sigs"
  have rs: "0 < r" "r < secp256k1_n" "0 < s" "s < secp256k1_n"
    using False ok scalar_val_nonneg [of sigr] scalar_val_nonneg [of sigs]
    by (auto simp: r_def s_def scalar_ok_def less_le)
  define sn where "sn = secp256k1_scalar_inverse sigs"
  have inv: "s * scalar_val sn mod secp256k1_n = 1"
    using scalar_inverse_mod [of sigs] n_dvd_scalar [OF ok(2)] False by (simp add: sn_def s_def)
  define u1 u2 where "u1 = secp256k1_scalar_mul sn msg" and "u2 = secp256k1_scalar_mul sn sigr"
  define R where "R = zmul (scalar_val sn * r) Q + zmul (scalar_val sn * z) gen"
  define pr where "pr = secp256k1_ecmult fr ctx (secp256k1_gej_set_ge pubkey) u2 u1"
  have u: "scalar_val u1 = scalar_val sn * z mod secp256k1_n" "scalar_val u2 = scalar_val sn * r mod secp256k1_n"
    by (simp_all add: u1_def u2_def scalar_mul_val z_def r_def)
  have uok: "scalar_val u1 < secp256k1_n" "scalar_val u2 < secp256k1_n" using n_pos by (simp_all add: u)
  have pr: "gej_rep 1 R pr"
    using ecmult_rep [OF fr ctx gej_rep_set_ge [OF Q(1)] Q(2) uok(2,1)] by (simp add: pr_def R_def u zmul_mod_n)
  define xr where "xr = fst (secp256k1_fe_set_b32 (secp256k1_scalar_get_b32 sigr))"
  note x = scalar_fe_rep [OF ok(1), folded xr_def r_def]
  have run: "secp256k1_ecdsa_sig_verify fr ctx sigr sigs pubkey msg \<longleftrightarrow> \<not> gej_infinity pr \<and>
      (secp256k1_gej_eq_x_var xr pr \<or> \<not> (secp256k1_fe_cmp_var xr secp256k1_ecdsa_const_p_minus_order \<ge> 0) \<and>
       secp256k1_gej_eq_x_var (secp256k1_fe_add xr secp256k1_ecdsa_const_order_as_fe) pr)"
    using False by (simp add: secp256k1_ecdsa_sig_verify_def secp256k1_scalar_is_zero_eq Let_def scalar_inverse_var_eq
        secp256k1_gej_is_infinity_def sn_def u1_def u2_def pr_def xr_def)
  have "secp256k1_ecdsa_sig_verify fr ctx sigr sigs pubkey msg \<longleftrightarrow> R \<noteq> 0 \<and> x_of R mod secp256k1_n = r"
  proof (cases "R = 0")
    case True
    then show ?thesis using run gej_rep_infinity [OF pr] by simp
  next
    case R: False
    have cmp: "secp256k1_fe_cmp_var xr secp256k1_ecdsa_const_p_minus_order \<ge> 0 \<longleftrightarrow> secp256k1_p - secp256k1_n \<le> r"
      using cmp_p_minus_order [OF ok(1)] by (simp add: xr_def r_def)
    have p: "r < secp256k1_p" using rs by (simp add: secp256k1_p_def secp256k1_n_def)
    have "fe_rep 8 (gf r) xr" by (rule fe_repI [OF x(1)]) simp_all
    from gej_eq_x_var_rep [OF pr R this] have eq1: "secp256k1_gej_eq_x_var xr pr \<longleftrightarrow> x_of R = r"
      using rs p by (simp add: gf_val_gf)
    have "fe_rep 8 (gf (r + secp256k1_n)) (secp256k1_fe_add xr secp256k1_ecdsa_const_order_as_fe)"
      by (rule fe_repI, rule fe_rep_add [OF x(1) order_as_fe]) (simp_all add: gf_hom)
    from gej_eq_x_var_rep [OF pr R this]
    have eq2: "secp256k1_gej_eq_x_var (secp256k1_fe_add xr secp256k1_ecdsa_const_order_as_fe) pr \<longleftrightarrow> x_of R = r + secp256k1_n"
      if "r < secp256k1_p - secp256k1_n"
      using that rs n_pos by (simp add: gf_val_gf)
    show ?thesis
      using run R gej_rep_infinity [OF pr] eq1 eq2 cmp x_mod_n_eq [OF less_imp_le [OF rs(1)] rs(2) x_of_bounds, of R] by auto
  qed
  then show ?thesis using ecdsa_valid_at [OF inv rs(3,4,1,2), of z Q] by (simp add: R_def z_def r_def s_def Let_def)
qed

subsection \<open>Signing\<close>

lemma ecdsa_valid_negate: "ecdsa_valid z r s Q \<Longrightarrow> ecdsa_valid z r (secp256k1_n - s) Q"
proof -
  assume v: "ecdsa_valid z r s Q"
  then obtain R where R: "R \<noteq> 0" "zmul s R = zmul z gen + zmul r Q" "x_of R mod secp256k1_n = r"
    by (auto simp: ecdsa_valid_def)
  have "zmul (secp256k1_n - s) (- R) = zmul s R"
    by (simp only: zmul_minus zmul_diff zmul_n) simp
  moreover have "x_of (- R) = x_of R" by simp
  moreover have "- R \<noteq> 0" using R(1) by simp
  ultimately show ?thesis using v R by (auto simp: ecdsa_valid_def intro!: exI [of _ "- R"])
qed

lemma ecdsa_sign_equation:
  assumes "k * w mod secp256k1_n = 1"
  shows "zmul (w * (r * d + z)) (zmul k gen) = zmul z gen + zmul r (zmul d gen)"
proof -
  have "zmul (w * (r * d + z)) (zmul k gen) = zmul (r * d + z) (zmul k (zmul w gen))"
    by (simp only: zmul_mult [symmetric] mult_ac)
  also have "\<dots> = zmul z gen + zmul r (zmul d gen)"
    unfolding zmul_inverse [OF assms] by (simp only: zmul_add zmul_mult add.commute)
  finally show ?thesis .
qed

lemma ecdsa_sign_valid:
  assumes k: "\<not> secp256k1_n dvd k" "k * w mod secp256k1_n = 1"
    and r: "r = x_of (zmul k gen) mod secp256k1_n" "r \<noteq> 0" and s: "s = w * (r * d + z) mod secp256k1_n" "s \<noteq> 0"
  shows "ecdsa_valid z r s (zmul d gen)"
proof -
  have R0: "zmul k gen \<noteq> 0" using k(1) gen_nonzero by (simp add: zmul_eq_0_iff)
  have "zmul s (zmul k gen) = zmul z gen + zmul r (zmul d gen)"
    unfolding s(1) zmul_mod_n by (rule ecdsa_sign_equation [OF k(2)])
  moreover have "0 \<le> r" "r < secp256k1_n" "0 \<le> s" "s < secp256k1_n" using n_pos(1) by (simp_all add: r s)
  moreover have "x_of (zmul k gen) mod secp256k1_n = r" using r(1) by simp
  ultimately show ?thesis using r(2) s(2) R0 unfolding ecdsa_valid_def by (auto intro!: exI [of _ "zmul k gen"])
qed

text \<open>The outputs of a signing run as numbers: \<open>s0\<close> before the choice of the lower half.\<close>

lemma ecdsa_sig_sign_vals:
  assumes ctx: "ecmult_gen_context_ok ctx" and ok: "scalar_ok seckey" "scalar_ok msg" "scalar_ok nonce"
    and k: "scalar_val nonce \<noteq> 0"
    and run: "secp256k1_ecdsa_sig_sign ctx seckey msg nonce recid = (sigr, sigs, recid', ret)"
  defines "R \<equiv> zmul (scalar_val nonce) gen"
  defines "s0 \<equiv> scalar_val (secp256k1_scalar_inverse nonce) *
      (x_of R mod secp256k1_n * scalar_val seckey + scalar_val msg) mod secp256k1_n"
  shows "scalar_val sigr = x_of R mod secp256k1_n" and "scalar_ok sigr" and "scalar_ok sigs"
    and "ret \<longleftrightarrow> s0 \<noteq> 0" and "scalar_val sigs = (if secp256k1_n div 2 < s0 then secp256k1_n - s0 else s0)"
    and "ret \<Longrightarrow> recid' = map_option (\<lambda>_. (if secp256k1_n \<le> x_of R then 2 else 0) +
      (if odd (y_of R) \<noteq> (secp256k1_n div 2 < s0) then 1 else 0)) recid"
proof -
  define rp where "rp = secp256k1_ecmult_gen ctx nonce"
  have rp: "gej_rep 1 R rp" unfolding rp_def R_def by (rule ecmult_gen_rep [OF ctx]) (use ok(3) in \<open>simp add: scalar_ok_def\<close>)
  have R: "R \<noteq> 0" using k n_dvd_scalar [OF ok(3)] gen_nonzero by (simp add: R_def zmul_eq_0_iff)
  define ra where "ra = fst (secp256k1_ge_set_gej rp)"
  note c = ge_rep_coords [OF ge_rep_set_gej(1) [OF rp] R, folded ra_def]
  define x y where "x = secp256k1_fe_normalize (ge_x ra)" and "y = secp256k1_fe_normalize (ge_y ra)"
  note nx = fe_normalize_rep_canonical [OF c(1), folded x_def] and ny = fe_normalize_rep_canonical [OF c(2), folded y_def]
  have fx: "fe_val x = x_of R" "fe_val y = y_of R" using nx(2) ny(2) x_of_bounds y_of_bounds by (simp_all add: gf_val_gf)
  define b where "b = secp256k1_fe_get_b32 x"
  have b: "length b = 32" "be_val b = x_of R" using fe_normalized_b32 [OF nx(1)] fx by (simp_all add: b_def)
  define sr where "sr = fst (secp256k1_scalar_set_b32 b)"
  have sr: "scalar_val sr = x_of R mod secp256k1_n" "scalar_ok sr"
    using scalar_set_b32_val [OF b(1)] scalar_ok_ops(4) [OF b(1)] by (simp_all add: sr_def b(2))
  have ov: "snd (secp256k1_scalar_set_b32 b) \<noteq> 0 \<longleftrightarrow> secp256k1_n \<le> x_of R"
    using secp256k1_scalar_set_b32_val(2) [OF b(1)] by (simp add: b(2))
  define ss where "ss = secp256k1_scalar_mul (secp256k1_scalar_inverse nonce)
      (fst (secp256k1_scalar_add (secp256k1_scalar_mul sr seckey) msg))"
  have ss: "scalar_val ss = s0" "scalar_ok ss"
    using scalar_add_val [of "secp256k1_scalar_mul sr seckey" msg] ok(2)
    by (simp_all add: ss_def s0_def scalar_mul_val sr(1) mod_add_left_eq mod_mult_right_eq)
  have high: "secp256k1_scalar_is_high ss \<noteq> 0 \<longleftrightarrow> secp256k1_n div 2 < s0"
    by (simp add: secp256k1_scalar_is_high_eq ss(1))
  have s0: "0 \<le> s0" "s0 < secp256k1_n" using n_pos(1) by (simp_all add: s0_def)
  have neg: "scalar_val (secp256k1_scalar_negate ss) = secp256k1_n - s0" if "secp256k1_n div 2 < s0"
  proof -
    have "0 < s0" using that by (simp add: secp256k1_n_def)
    then have "(- s0) mod secp256k1_n = secp256k1_n - s0" using s0 by (simp add: zmod_zminus1_eq_if)
    then show ?thesis using scalar_negate_val [OF ss(2)] by (simp add: ss(1))
  qed
  define ri :: int where "ri = (if secp256k1_n \<le> x_of R then 2 else 0) OR (if odd (y_of R) then 1 else 0)"
  have res: "secp256k1_ecdsa_sig_sign ctx seckey msg nonce recid =
      (if s0 = 0 then (sr, ss, map_option (\<lambda>_. ri) recid, False)
       else if secp256k1_n div 2 < s0 then (sr, secp256k1_scalar_negate ss, map_option (\<lambda>i. i XOR 1) (map_option (\<lambda>_. ri) recid), True)
       else (sr, ss, map_option (\<lambda>_. ri) recid, True))"
  proof -
    obtain sr' o' where set: "secp256k1_scalar_set_b32 b = (sr', o')" by fastforce
    have "sr' = sr" "o' \<noteq> 0 \<longleftrightarrow> secp256k1_n \<le> x_of R" using set ov by (simp_all add: sr_def)
    then show ?thesis
      unfolding secp256k1_ecdsa_sig_sign_def Let_def rp_def [symmetric] ra_def [symmetric]
      using set high ss(1)
      by (simp add: x_def [symmetric] y_def [symmetric] b_def [symmetric] ss_def [symmetric] secp256k1_fe_is_odd_eq fx
          secp256k1_scalar_is_zero_eq ri_def)
  qed
  show "scalar_val sigr = x_of R mod secp256k1_n" "scalar_ok sigr" "scalar_ok sigs" "ret \<longleftrightarrow> s0 \<noteq> 0"
    using run sr ss unfolding res by (auto split: if_splits)
  show "scalar_val sigs = (if secp256k1_n div 2 < s0 then secp256k1_n - s0 else s0)"
    using run ss neg n_pos unfolding res by (auto split: if_splits)
  have "ri = (if secp256k1_n \<le> x_of R then 2 else 0) + (if odd (y_of R) then 1 else 0)"
    "ri XOR 1 = (if secp256k1_n \<le> x_of R then 2 else 0) + (if odd (y_of R) then 0 else 1)"
    by (simp_all add: ri_def)
  then show "ret \<Longrightarrow> recid' = map_option (\<lambda>_. (if secp256k1_n \<le> x_of R then 2 else 0) +
      (if odd (y_of R) \<noteq> (secp256k1_n div 2 < s0) then 1 else 0)) recid"
    using run unfolding res by (auto simp: option.map_comp o_def split: if_splits)
qed

text \<open>A run that returns 1 with \<open>r\<close> not zero (the condition that the source leaves to its caller) is a
  valid signature for the public key, with \<open>s\<close> in the lower half.\<close>

lemma ecdsa_sig_sign_valid:
  assumes ctx: "ecmult_gen_context_ok ctx" and ok: "scalar_ok seckey" "scalar_ok msg" "scalar_ok nonce"
    and k: "scalar_val nonce \<noteq> 0"
    and run: "secp256k1_ecdsa_sig_sign ctx seckey msg nonce recid = (sigr, sigs, recid', True)" and r: "scalar_val sigr \<noteq> 0"
  shows "ecdsa_valid (scalar_val msg) (scalar_val sigr) (scalar_val sigs) (zmul (scalar_val seckey) gen)"
    and "scalar_val sigs \<le> secp256k1_n div 2"
proof -
  note v = ecdsa_sig_sign_vals [OF ctx ok k run]
  define w where "w = scalar_val (secp256k1_scalar_inverse nonce)"
  define s0 where "s0 = w * (scalar_val sigr * scalar_val seckey + scalar_val msg) mod secp256k1_n"
  have s0: "s0 \<noteq> 0" "scalar_val sigs = (if secp256k1_n div 2 < s0 then secp256k1_n - s0 else s0)"
    using v(4,5) unfolding v(1) [symmetric] w_def [symmetric] s0_def [symmetric] by simp_all
  have nd: "\<not> secp256k1_n dvd scalar_val nonce" using k n_dvd_scalar [OF ok(3)] by simp
  have valid: "ecdsa_valid (scalar_val msg) (scalar_val sigr) s0 (zmul (scalar_val seckey) gen)"
    by (rule ecdsa_sign_valid [OF nd scalar_inverse_mod [OF nd, folded w_def] v(1) r s0_def s0(1)])
  then show "ecdsa_valid (scalar_val msg) (scalar_val sigr) (scalar_val sigs) (zmul (scalar_val seckey) gen)"
    using ecdsa_valid_negate [OF valid] by (simp add: s0(2))
  have "s0 < secp256k1_n" using valid by (simp add: ecdsa_valid_def)
  then show "scalar_val sigs \<le> secp256k1_n div 2" unfolding s0(2) by (simp add: secp256k1_n_def)
qed

subsection \<open>Signing and verifying\<close>

lemma ecdsa_sign_then_verify:
  assumes fr: "ecmult_frame_ok fr" and vctx: "ecmult_context_ok vctx" and ctx: "ecmult_gen_context_ok ctx"
    and ok: "scalar_ok seckey" "scalar_ok msg" "scalar_ok nonce" and k: "scalar_val nonce \<noteq> 0" and d: "scalar_val seckey \<noteq> 0"
    and run: "secp256k1_ecdsa_sig_sign ctx seckey msg nonce recid = (sigr, sigs, recid', True)" and r: "scalar_val sigr \<noteq> 0"
    and pub: "pubkey = fst (secp256k1_ge_set_gej (secp256k1_ecmult_gen ctx seckey))"
  shows "secp256k1_ecdsa_sig_verify fr vctx sigr sigs pubkey msg"
proof -
  have "gej_rep 1 (zmul (scalar_val seckey) gen) (secp256k1_ecmult_gen ctx seckey)"
    by (rule ecmult_gen_rep [OF ctx]) (use ok(1) in \<open>simp add: scalar_ok_def\<close>)
  note Q = ge_rep_set_gej(1) [OF this, folded pub]
  have nz: "zmul (scalar_val seckey) gen \<noteq> 0"
    using d n_dvd_scalar [OF ok(1)] gen_nonzero by (simp add: zmul_eq_0_iff)
  note v = ecdsa_sig_sign_vals(2,3) [OF ctx ok k run]
  show ?thesis
    unfolding ecdsa_sig_verify_iff [OF fr vctx Q nz v ok(2)]
    by (rule ecdsa_sig_sign_valid(1) [OF ctx ok k run r])
qed

subsection \<open>Recovery\<close>

text \<open>The key that a signature with a recovery number determines: bit 0 gives the parity of \<open>y\<close>, bit 1
  says that the \<open>x\<close> coordinate was reduced modulo the order.\<close>

definition ecdsa_recovers :: "int \<Rightarrow> int \<Rightarrow> int \<Rightarrow> int \<Rightarrow> epoint \<Rightarrow> bool" where
  "ecdsa_recovers z r s recid Q \<longleftrightarrow> 0 < r \<and> r < secp256k1_n \<and> 0 < s \<and> s < secp256k1_n \<and> Q \<noteq> 0 \<and>
     (\<exists>R. R \<noteq> 0 \<and> x_of R = r + (if recid AND 2 \<noteq> 0 then secp256k1_n else 0) \<and> (odd (y_of R) \<longleftrightarrow> recid AND 1 = 1) \<and>
       zmul s R = zmul z gen + zmul r Q)"

lemma ecdsa_recovers_valid: "ecdsa_recovers z r s recid Q \<Longrightarrow> ecdsa_valid z r s Q"
  by (auto simp: ecdsa_recovers_def ecdsa_valid_def split: if_splits)

lemma ecdsa_recovers_unique:
  assumes "ecdsa_recovers z r s recid Q" and "ecdsa_recovers z r s recid Q'"
  shows "Q = Q'"
proof -
  obtain R R' where R: "R \<noteq> 0" "R' \<noteq> 0" "x_of R = x_of R'" "odd (y_of R) \<longleftrightarrow> odd (y_of R')"
    and s: "zmul s R = zmul z gen + zmul r Q" "zmul s R' = zmul z gen + zmul r Q'"
    using assms unfolding ecdsa_recovers_def by metis
  have nd: "\<not> secp256k1_n dvd r" using assms(1) zdvd_imp_le [of secp256k1_n r] by (auto simp: ecdsa_recovers_def)
  have "R = R'" by (rule epoint_parity_unique [OF R])
  then have "zmul r Q = zmul r Q'" using s by (metis add_left_cancel)
  then show ?thesis by (rule zmul_cancel [OF nd])
qed

lemma ecdsa_recover_eq:
  assumes rn: "r * w mod secp256k1_n = 1"
  shows "zmul (w * s mod secp256k1_n) R + zmul (- (w * z mod secp256k1_n) mod secp256k1_n) gen = Q \<longleftrightarrow>
    zmul s R = zmul z gen + zmul r Q"
proof -
  define Q' where "Q' = zmul (w * s mod secp256k1_n) R + zmul (- (w * z mod secp256k1_n) mod secp256k1_n) gen"
  have "Q' = zmul w (zmul s R - zmul z gen)"
    by (simp only: Q'_def zmul_mod_n zmul_uminus zmul_mult zmul_diff_right) (simp only: diff_conv_add_uminus)
  then have e: "zmul r Q' = zmul s R - zmul z gen" by (simp only: zmul_inverse [OF rn])
  have nd: "\<not> secp256k1_n dvd r"
  proof
    assume "secp256k1_n dvd r"
    then have "r * w mod secp256k1_n = 0" by simp
    then show False using rn by simp
  qed
  have "Q' = Q \<longleftrightarrow> zmul r Q' = zmul r Q" using zmul_cancel [OF nd] by blast
  also have "\<dots> \<longleftrightarrow> zmul s R = zmul z gen + zmul r Q" unfolding e by (auto simp: algebra_simps)
  finally show ?thesis by (simp only: Q'_def)
qed

text \<open>The routine succeeds exactly when there is such a key, and returns it.\<close>

lemma ecdsa_sig_recover_sound:
  fixes recid :: int and pubkey :: secp256k1_ge
  assumes fr: "ecmult_frame_ok fr" and ctx: "ecmult_context_ok ctx"
    and ok: "scalar_ok sigr" "scalar_ok sigs" "scalar_ok msg"
  defines "out \<equiv> secp256k1_ecdsa_sig_recover fr ctx sigr sigs pubkey msg recid"
  shows "snd out \<longleftrightarrow> (\<exists>Q. ecdsa_recovers (scalar_val msg) (scalar_val sigr) (scalar_val sigs) recid Q)"
    and "snd out \<Longrightarrow> \<exists>Q. ecdsa_recovers (scalar_val msg) (scalar_val sigr) (scalar_val sigs) recid Q \<and> ge_rep 1 Q (fst out)"
proof -
  define z r s where "z = scalar_val msg" and "r = scalar_val sigr" and "s = scalar_val sigs"
  define hi where "hi = (recid AND 2 \<noteq> 0)"
  have "(snd out \<longleftrightarrow> (\<exists>Q. ecdsa_recovers z r s recid Q)) \<and>
      (snd out \<longrightarrow> (\<exists>Q. ecdsa_recovers z r s recid Q \<and> ge_rep 1 Q (fst out)))"
  proof (cases "r = 0 \<or> s = 0")
    case True
    then show ?thesis by (auto simp: out_def secp256k1_ecdsa_sig_recover_def secp256k1_scalar_is_zero_eq ecdsa_recovers_def r_def s_def)
  next
    case False
    then have rs: "0 < r" "r < secp256k1_n" "0 < s" "s < secp256k1_n"
      using ok scalar_val_nonneg [of sigr] scalar_val_nonneg [of sigs] by (auto simp: r_def s_def scalar_ok_def less_le)
    define fx where "fx = fst (secp256k1_fe_set_b32 (secp256k1_scalar_get_b32 sigr))"
    note x = scalar_fe_rep [OF ok(1), folded fx_def r_def]
    have cmp: "secp256k1_fe_cmp_var fx secp256k1_ecdsa_const_p_minus_order \<ge> 0 \<longleftrightarrow> secp256k1_p - secp256k1_n \<le> r"
      using cmp_p_minus_order [OF ok(1)] by (simp add: fx_def r_def)
    define xx where "xx = r + (if hi then secp256k1_n else 0)"
    show ?thesis
    proof (cases "xx < secp256k1_p")
      case big: False
      have "hi" "secp256k1_p - secp256k1_n \<le> r"
        using big rs by (auto simp: xx_def secp256k1_p_def secp256k1_n_def split: if_splits)
      then have "\<not> snd out" using False cmp
        by (simp add: out_def secp256k1_ecdsa_sig_recover_def secp256k1_scalar_is_zero_eq r_def s_def hi_def Let_def fx_def)
      moreover have "\<not> ecdsa_recovers z r s recid Q" for Q
        using big x_of_bounds(2) unfolding ecdsa_recovers_def xx_def hi_def by metis
      ultimately show ?thesis by blast
    next
      case small: True
      define f where "f = (if hi then secp256k1_fe_add fx secp256k1_ecdsa_const_order_as_fe else fx)"
      have f: "fe_rep 8 (gf xx) f"
      proof (cases hi)
        case True
        have "fe_rep 8 (gf (r + secp256k1_n)) (secp256k1_fe_add fx secp256k1_ecdsa_const_order_as_fe)"
          by (rule fe_repI, rule fe_rep_add [OF x(1) order_as_fe]) (simp_all add: gf_hom)
        then show ?thesis using True by (simp add: f_def xx_def)
      next
        case False
        then show ?thesis using fe_repI [OF x(1), where m = 8] by (simp add: f_def xx_def)
      qed
      define o1 :: u32 where "o1 = word_of_int (recid AND 1)"
      have o1: "o1 = 0 \<or> o1 = 1" "o1 = 1 \<longleftrightarrow> recid AND 1 = 1" by (auto simp: o1_def and_one_eq mod_2_eq_odd)
      define X ok1 where "X = fst (secp256k1_ge_set_xo_var f o1)" and "ok1 = snd (secp256k1_ge_set_xo_var f o1)"
      have xo: "secp256k1_ge_set_xo_var f o1 = (X, ok1)" by (simp add: X_def ok1_def)
      define rn where "rn = secp256k1_scalar_inverse sigr"
      have inv: "r * scalar_val rn mod secp256k1_n = 1"
        using scalar_inverse_mod [of sigr] n_dvd_scalar [OF ok(1)] False by (simp add: rn_def r_def)
      define u1 u2 where "u1 = secp256k1_scalar_negate (secp256k1_scalar_mul rn msg)" and "u2 = secp256k1_scalar_mul rn sigs"
      define qj where "qj = secp256k1_ecmult fr ctx (secp256k1_gej_set_ge X) u2 u1"
      have out: "out = (if ok1 then (fst (secp256k1_ge_set_gej_var pubkey qj), \<not> gej_infinity qj) else (pubkey, False))"
      proof -
        have nb: "\<not> (hi \<and> secp256k1_fe_cmp_var fx secp256k1_ecdsa_const_p_minus_order \<ge> 0)"
          using small cmp by (auto simp: xx_def)
        have nz: "\<not> (secp256k1_scalar_is_zero sigr \<or> secp256k1_scalar_is_zero sigs)"
          using False by (simp add: secp256k1_scalar_is_zero_eq r_def s_def)
        show ?thesis
          unfolding out_def secp256k1_ecdsa_sig_recover_def Let_def if_not_P [OF nz] hi_def [symmetric] fx_def [symmetric]
            if_not_P [OF nb] f_def [symmetric] o1_def [symmetric] xo case_prod_conv scalar_inverse_var_eq rn_def [symmetric]
            u1_def [symmetric] u2_def [symmetric] qj_def [symmetric] secp256k1_gej_is_infinity_def by simp
      qed
      note step = out
      show ?thesis
      proof (cases ok1)
        case no: False
        have "\<not> ecdsa_recovers z r s recid Q" for Q
        proof
          assume "ecdsa_recovers z r s recid Q"
          then obtain R where R: "R \<noteq> 0" "x_of R = xx" unfolding ecdsa_recovers_def xx_def hi_def by blast
          have "on_curve (Pt (gf (x_of R)) (gf (y_of R)))" using on_curve_point_of [of R] R(1) by (cases "point_of R") (simp_all add: xy_of_Pt)
          then show False using ge_set_xo_var_rep(1) [OF f o1(1)] no R(2) unfolding ok1_def by blast
        qed
        then show ?thesis using no by (simp add: step)
      next
        case yes: True
        obtain R where R: "R \<noteq> 0" "ge_rep 1 R X" "x_of R = gf_val (gf xx)" "odd (y_of R) \<longleftrightarrow> o1 = 1"
          using ge_set_xo_var_rep(2) [OF f o1(1)] yes unfolding ok1_def X_def by blast
        have "0 \<le> xx" using rs n_pos by (auto simp: xx_def)
        then have "gf_val (gf xx) = xx" using small by (simp add: gf_val_gf)
        from trans [OF R(3) this] have xR: "x_of R = xx" .
        define Q where "Q = zmul (scalar_val u2) R + zmul (scalar_val u1) gen"
        have u: "scalar_val u2 = scalar_val rn * s mod secp256k1_n"
          "scalar_val u1 = - (scalar_val rn * z mod secp256k1_n) mod secp256k1_n"
          using scalar_negate_val [OF scalar_ok_ops(2) [of rn msg]] by (simp_all add: u1_def u2_def scalar_mul_val z_def s_def)
        have uok: "scalar_val u1 < secp256k1_n" "scalar_val u2 < secp256k1_n" using n_pos by (simp_all add: u)
        have q: "gej_rep 1 Q qj"
          unfolding qj_def Q_def by (rule ecmult_rep [OF fr ctx gej_rep_set_ge [OF R(2)] R(1) uok(2,1)])
        have Qeq: "zmul s R = zmul z gen + zmul r Q" using ecdsa_recover_eq [OF inv, of s R z Q] by (simp add: Q_def u)
        have key: "ecdsa_recovers z r s recid Q' \<longleftrightarrow> Q' = Q \<and> Q \<noteq> 0" for Q'
        proof
          assume rec: "ecdsa_recovers z r s recid Q'"
          then obtain R' where R': "R' \<noteq> 0" "x_of R' = xx" "odd (y_of R') \<longleftrightarrow> o1 = 1" "zmul s R' = zmul z gen + zmul r Q'"
            unfolding ecdsa_recovers_def xx_def hi_def o1(2) by blast
          have "R' = R" by (rule epoint_parity_unique) (simp_all only: R' R(1,4) xR not_False_eq_True)
          then have "Q = Q'" using ecdsa_recover_eq [OF inv, of s R z Q'] R'(4) by (simp add: Q_def u)
          then show "Q' = Q \<and> Q \<noteq> 0" using rec by (simp add: ecdsa_recovers_def)
        next
          assume "Q' = Q \<and> Q \<noteq> 0"
          then show "ecdsa_recovers z r s recid Q'"
            unfolding ecdsa_recovers_def using rs R xR Qeq o1(2) by (auto simp: xx_def hi_def)
        qed
        show ?thesis using key gej_rep_infinity [OF q] ge_rep_set_gej_var(1) [OF q, of pubkey] yes by (auto simp: step)
      qed
    qed
  qed
  then show "snd out \<longleftrightarrow> (\<exists>Q. ecdsa_recovers (scalar_val msg) (scalar_val sigr) (scalar_val sigs) recid Q)"
    and "snd out \<Longrightarrow> \<exists>Q. ecdsa_recovers (scalar_val msg) (scalar_val sigr) (scalar_val sigs) recid Q \<and> ge_rep 1 Q (fst out)"
    by (simp_all add: z_def r_def s_def)
qed

text \<open>The recovery number that signing returns leads back to the signer's key.\<close>

lemma ecdsa_sign_recovers:
  assumes ctx: "ecmult_gen_context_ok ctx" and ok: "scalar_ok seckey" "scalar_ok msg" "scalar_ok nonce"
    and k: "scalar_val nonce \<noteq> 0" and d: "scalar_val seckey \<noteq> 0"
    and run: "secp256k1_ecdsa_sig_sign ctx seckey msg nonce (Some i) = (sigr, sigs, Some recid, True)" and r: "scalar_val sigr \<noteq> 0"
  shows "ecdsa_recovers (scalar_val msg) (scalar_val sigr) (scalar_val sigs) recid (zmul (scalar_val seckey) gen)"
    and "0 \<le> recid \<and> recid < 4"
proof -
  define z rr dd R where "z = scalar_val msg" and "rr = scalar_val sigr" and "dd = scalar_val seckey"
    and "R = zmul (scalar_val nonce) gen"
  define w where "w = scalar_val (secp256k1_scalar_inverse nonce)"
  define s0 where "s0 = w * (rr * dd + z) mod secp256k1_n"
  note v = ecdsa_sig_sign_vals [OF ctx ok k run, folded R_def w_def dd_def z_def rr_def]
  have rr: "rr = x_of R mod secp256k1_n" by (rule v(1))
  note v' = v(4-6) [folded rr, folded s0_def]
  have s0: "s0 \<noteq> 0" "scalar_val sigs = (if secp256k1_n div 2 < s0 then secp256k1_n - s0 else s0)"
    and recid: "recid = (if secp256k1_n \<le> x_of R then 2 else 0) + (if odd (y_of R) \<noteq> (secp256k1_n div 2 < s0) then 1 else 0)"
    using v' by simp_all
  have nd: "\<not> secp256k1_n dvd scalar_val nonce" using k n_dvd_scalar [OF ok(3)] by simp
  have R0: "R \<noteq> 0" using nd gen_nonzero by (simp add: R_def zmul_eq_0_iff)
  have "scalar_val nonce * w mod secp256k1_n = 1" unfolding w_def by (rule scalar_inverse_mod [OF nd])
  then have R: "zmul s0 R = zmul z gen + zmul rr (zmul dd gen)"
    unfolding R_def s0_def zmul_mod_n
    by (rule ecdsa_sign_equation)
  have bounds: "0 < rr" "rr < secp256k1_n" "0 < s0" "s0 < secp256k1_n"
    using r s0(1) n_pos(1) scalar_val_nonneg [of sigr] v(2) pos_mod_bound [of secp256k1_n "w * (rr * dd + z)"]
      pos_mod_sign [of secp256k1_n "w * (rr * dd + z)"]
    by (simp_all add: rr_def [symmetric] s0_def [symmetric] less_le scalar_ok_def)
  define R' where "R' = (if secp256k1_n div 2 < s0 then - R else R)"
  have R': "R' \<noteq> 0" "x_of R' = x_of R" "odd (y_of R') \<longleftrightarrow> (odd (y_of R) \<noteq> (secp256k1_n div 2 < s0))"
    using R0 odd_y_of_uminus [OF R0] by (auto simp: R'_def)
  have "zmul (secp256k1_n - s0) (- R) = zmul s0 R" by (simp only: zmul_minus zmul_diff zmul_n) simp
  then have sR: "zmul (scalar_val sigs) R' = zmul z gen + zmul rr (zmul dd gen)" using R by (simp add: s0(2) R'_def)
  have bit: "recid AND 2 \<noteq> 0 \<longleftrightarrow> secp256k1_n \<le> x_of R" "recid AND 1 = 1 \<longleftrightarrow> (odd (y_of R) \<noteq> (secp256k1_n div 2 < s0))"
    by (simp_all add: recid)
  have x: "x_of R' = rr + (if recid AND 2 \<noteq> 0 then secp256k1_n else 0)"
    unfolding bit R'(2) using rr x_mod_n [OF x_of_bounds, of R] by auto
  have "zmul dd gen \<noteq> 0" using d n_dvd_scalar [OF ok(1)] gen_nonzero by (simp add: dd_def zmul_eq_0_iff)
  moreover have "0 < scalar_val sigs" "scalar_val sigs < secp256k1_n" using bounds s0(2) by (auto split: if_splits)
  ultimately show "ecdsa_recovers (scalar_val msg) (scalar_val sigr) (scalar_val sigs) recid (zmul (scalar_val seckey) gen)"
    unfolding ecdsa_recovers_def z_def [symmetric] rr_def [symmetric] dd_def [symmetric]
    using bounds R'(1) x sR R'(3) bit(2) by blast
  show "0 \<le> recid \<and> recid < 4" by (simp add: recid)
qed

end
