(* ===== verification/Eckey.thy ===== *)
theory Eckey
  imports Ecmult Curve_Coords Scalar_Field
begin

text \<open>
  Public keys as bytes, and the tweaks of keys (\<open>eckey_impl.h\<close>). A parser that fails may leave its
  result partly written; the model returns the object with the verdict, as the code does.
\<close>

subsection \<open>Parsing and serializing\<close>

definition secp256k1_eckey_pubkey_parse :: "secp256k1_ge \<Rightarrow> u8 list \<Rightarrow> secp256k1_ge \<times> bool" where
  "secp256k1_eckey_pubkey_parse elem pub =
     (let size' = length pub
      in if size' = 33 \<and> (pub ! 0 = 0x02 \<or> pub ! 0 = 0x03)
         then (let (x, ok) = secp256k1_fe_set_b32 (take 32 (drop 1 pub))
               in if \<not> ok then (elem, False) else secp256k1_ge_set_xo_var x (of_bool (pub ! 0 = 0x03)))
         else if size' = 65 \<and> (pub ! 0 = 0x04 \<or> pub ! 0 = 0x06 \<or> pub ! 0 = 0x07)
         then (let (x, okx) = secp256k1_fe_set_b32 (take 32 (drop 1 pub));
                   (y, oky) = secp256k1_fe_set_b32 (take 32 (drop 33 pub))
               in if \<not> okx \<or> \<not> oky then (elem, False)
                  else (let elem = secp256k1_ge_set_xy x y
                        in if (pub ! 0 = 0x06 \<or> pub ! 0 = 0x07) \<and> secp256k1_fe_is_odd y \<noteq> of_bool (pub ! 0 = 0x07)
                           then (elem, False)
                           else (elem, secp256k1_ge_is_valid_var elem)))
         else (elem, False))"

text \<open>The results are \<open>*elem\<close> (normalized on the way), the buffer, \<open>*size\<close> and the return value.\<close>

definition secp256k1_eckey_pubkey_serialize ::
  "secp256k1_ge \<Rightarrow> u8 list \<Rightarrow> nat \<Rightarrow> bool \<Rightarrow> secp256k1_ge \<times> u8 list \<times> nat \<times> bool" where
  "secp256k1_eckey_pubkey_serialize elem pub siz compressed =
     (if secp256k1_ge_is_infinity elem then (elem, pub, siz, False)
      else (let elem = elem\<lparr>ge_x := secp256k1_fe_normalize_var (ge_x elem)\<rparr>;
                elem = elem\<lparr>ge_y := secp256k1_fe_normalize_var (ge_y elem)\<rparr>;
                pub = buf_write pub 1 (secp256k1_fe_get_b32 (ge_x elem))
            in if compressed
               then (elem, pub[0 := 0x02 OR (if secp256k1_fe_is_odd (ge_y elem) \<noteq> 0 then 0x01 else 0x00)], 33, True)
               else (elem, buf_write (pub[0 := 0x04]) 33 (secp256k1_fe_get_b32 (ge_y elem)), 65, True)))"

subsection \<open>Tweaks\<close>

definition secp256k1_eckey_privkey_tweak_add :: "secp256k1_scalar \<Rightarrow> secp256k1_scalar \<Rightarrow> secp256k1_scalar \<times> bool" where
  "secp256k1_eckey_privkey_tweak_add key tweak =
     (let key = fst (secp256k1_scalar_add key tweak)
      in if secp256k1_scalar_is_zero key then (key, False) else (key, True))"

definition secp256k1_eckey_pubkey_tweak_add ::
  "ecmult_frame \<Rightarrow> secp256k1_ecmult_context \<Rightarrow> secp256k1_ge \<Rightarrow> secp256k1_scalar \<Rightarrow> secp256k1_ge \<times> bool" where
  "secp256k1_eckey_pubkey_tweak_add fr ctx key tweak =
     (let pt = secp256k1_gej_set_ge key;
          one = secp256k1_scalar_set_int 1;
          pt = secp256k1_ecmult fr ctx pt one tweak
      in if secp256k1_gej_is_infinity pt then (key, False)
         else (fst (secp256k1_ge_set_gej pt), True))"

definition secp256k1_eckey_privkey_tweak_mul :: "secp256k1_scalar \<Rightarrow> secp256k1_scalar \<Rightarrow> secp256k1_scalar \<times> bool" where
  "secp256k1_eckey_privkey_tweak_mul key tweak =
     (if secp256k1_scalar_is_zero tweak then (key, False)
      else (secp256k1_scalar_mul key tweak, True))"

definition secp256k1_eckey_pubkey_tweak_mul ::
  "ecmult_frame \<Rightarrow> secp256k1_ecmult_context \<Rightarrow> secp256k1_ge \<Rightarrow> secp256k1_scalar \<Rightarrow> secp256k1_ge \<times> bool" where
  "secp256k1_eckey_pubkey_tweak_mul fr ctx key tweak =
     (if secp256k1_scalar_is_zero tweak then (key, False)
      else (let zero = secp256k1_scalar_set_int 0;
                pt = secp256k1_gej_set_ge key;
                pt = secp256k1_ecmult fr ctx pt tweak zero
            in (fst (secp256k1_ge_set_gej pt), True)))"

subsection \<open>The encodings of a point\<close>

text \<open>SEC 1: a leading byte 2 or 3 with the parity of \<open>y\<close> and the \<open>x\<close> coordinate, or 4 with both
  coordinates; 6 and 7 are the hybrid forms, with both coordinates and the parity.\<close>

definition encodes :: "u8 list \<Rightarrow> epoint \<Rightarrow> bool" where
  "encodes pub P \<longleftrightarrow> P \<noteq> 0 \<and>
     (length pub = 33 \<and> (pub ! 0 = 2 \<and> even (y_of P) \<or> pub ! 0 = 3 \<and> odd (y_of P)) \<and>
        be_val (take 32 (drop 1 pub)) = x_of P \<or>
      length pub = 65 \<and> (pub ! 0 = 4 \<or> pub ! 0 = 6 \<and> even (y_of P) \<or> pub ! 0 = 7 \<and> odd (y_of P)) \<and>
        be_val (take 32 (drop 1 pub)) = x_of P \<and> be_val (take 32 (drop 33 pub)) = y_of P)"

lemma encodes_unique: "encodes pub P \<Longrightarrow> encodes pub Q \<Longrightarrow> P = Q"
proof -
  assume P: "encodes pub P" and Q: "encodes pub Q"
  then have "P \<noteq> 0" "Q \<noteq> 0" "x_of P = x_of Q" "odd (y_of P) \<longleftrightarrow> odd (y_of Q)" by (auto simp: encodes_def)
  then show "P = Q" by (rule epoint_parity_unique)
qed

lemma parity_byte: "secp256k1_fe_is_odd f \<noteq> of_bool b \<longleftrightarrow> odd (fe_val f) \<noteq> b"
  by (auto simp: secp256k1_fe_is_odd_eq)

lemma pubkey_parse_sound:
  assumes "snd (secp256k1_eckey_pubkey_parse elem pub)"
  shows "\<exists>P. encodes pub P \<and> ge_rep 1 P (fst (secp256k1_eckey_pubkey_parse elem pub))"
proof (cases "length pub = 33 \<and> (pub ! 0 = 2 \<or> pub ! 0 = 3)")
  case True
  define X where "X = take 32 (drop 1 pub)"
  have X: "length X = 32" using True by (simp add: X_def)
  have run: "snd (secp256k1_fe_set_b32 X)"
    "secp256k1_eckey_pubkey_parse elem pub = secp256k1_ge_set_xo_var (fst (secp256k1_fe_set_b32 X)) (of_bool (pub ! 0 = 3))"
    using assms True by (auto simp: secp256k1_eckey_pubkey_parse_def Let_def case_prod_beta X_def split: if_splits)
  have b: "be_val X < secp256k1_p" using run(1) secp256k1_fe_set_b32_val(2) [OF X] by simp
  have x: "fe_rep 8 (gf (be_val X)) (fst (secp256k1_fe_set_b32 X))"
    by (rule fe_repI [OF fe_set_b32_rep(2) [OF X b]]) simp_all
  have "of_bool (pub ! 0 = 3) = (0 :: u32) \<or> of_bool (pub ! 0 = 3) = (1 :: u32)" by simp
  from ge_set_xo_var_rep(2) [OF x this] assms run(2)
  obtain P where P: "P \<noteq> 0" "ge_rep 1 P (fst (secp256k1_eckey_pubkey_parse elem pub))" "x_of P = gf_val (gf (be_val X))"
    "odd (y_of P) \<longleftrightarrow> pub ! 0 = 3" by auto
  have "x_of P = be_val X" using P(3) b be_val_nonneg [of X] by (simp add: gf_val_gf)
  then have "encodes pub P" using P True by (auto simp: encodes_def X_def)
  then show ?thesis using P(2) by blast
next
  case False
  define X Y where "X = take 32 (drop 1 pub)" and "Y = take 32 (drop 33 pub)"
  have len: "length pub = 65" "pub ! 0 = 4 \<or> pub ! 0 = 6 \<or> pub ! 0 = 7"
    using assms False by (auto simp: secp256k1_eckey_pubkey_parse_def Let_def split: if_splits)
  have XY: "length X = 32" "length Y = 32" using len by (simp_all add: X_def Y_def)
  define x y where "x = fst (secp256k1_fe_set_b32 X)" and "y = fst (secp256k1_fe_set_b32 Y)"
  have run: "snd (secp256k1_fe_set_b32 X)" "snd (secp256k1_fe_set_b32 Y)"
    "pub ! 0 = 6 \<or> pub ! 0 = 7 \<Longrightarrow> odd (fe_val y) = (pub ! 0 = 7)"
    "secp256k1_eckey_pubkey_parse elem pub = (secp256k1_ge_set_xy x y, True)" "secp256k1_ge_is_valid_var (secp256k1_ge_set_xy x y)"
    using assms False len
    by (auto simp: secp256k1_eckey_pubkey_parse_def Let_def case_prod_beta X_def Y_def x_def y_def parity_byte split: if_splits)
  have b: "be_val X < secp256k1_p" "be_val Y < secp256k1_p"
    using run(1,2) secp256k1_fe_set_b32_val(2) XY by simp_all
  have r: "fe_rep 8 (gf (be_val X)) x" "fe_rep 8 (gf (be_val Y)) y"
    unfolding x_def y_def
    by (rule fe_repI [OF fe_set_b32_rep(2) [OF XY(1) b(1)]], simp_all,
        rule fe_repI [OF fe_set_b32_rep(2) [OF XY(2) b(2)]], simp_all)
  define e where "e = secp256k1_ge_set_xy x y"
  have e: "ge_x e = x" "ge_y e = y" "\<not> ge_infinity e" by (simp_all add: e_def secp256k1_ge_set_xy_def)
  have re: "fe_rep 8 (gf (be_val X)) (ge_x e)" "fe_rep 8 (gf (be_val Y)) (ge_y e)" using r e by simp_all
  have on: "on_curve (Pt (gf (be_val X)) (gf (be_val Y)))"
    using ge_is_valid_var_rep [OF re e(3)] run(5) by (simp add: e_def)
  note P = ge_rep_Pt [OF re e(3) on]
  have "fe_val y = be_val Y" using secp256k1_fe_set_b32_val(1) [OF XY(2)] by (simp add: y_def)
  then have "encodes pub (epoint_of (Pt (gf (be_val X)) (gf (be_val Y))))"
    using P(2,3) xy_of_Pt [OF P(2)] len run(3) b be_val_nonneg [of X] be_val_nonneg [of Y]
    by (auto simp: encodes_def gf_val_gf X_def Y_def)
  then show ?thesis using P(1) run(4) by (auto simp: e_def)
qed

lemma pubkey_parse_complete:
  assumes "encodes pub P"
  shows "snd (secp256k1_eckey_pubkey_parse elem pub)"
proof -
  define X where "X = take 32 (drop 1 pub)"
  have X: "length X = 32" "be_val X = x_of P" using assms by (auto simp: encodes_def X_def)
  have n: "P \<noteq> 0" using assms by (simp add: encodes_def)
  have bx: "be_val X < secp256k1_p" using X(2) x_of_bounds by simp
  have okx: "snd (secp256k1_fe_set_b32 X)" using secp256k1_fe_set_b32_val(2) [OF X(1)] bx by simp
  have x: "fe_rep 8 (gf (x_of P)) (fst (secp256k1_fe_set_b32 X))"
    by (rule fe_repI [OF fe_set_b32_rep(2) [OF X(1) bx]]) (simp_all add: X(2))
  obtain u v where uv: "point_of P = Pt u v" using n by (cases "point_of P") auto
  have P: "gf (x_of P) = u" "gf (y_of P) = v" using xy_of_Pt [OF uv] by simp_all
  have on: "on_curve (Pt u v)" using on_curve_point_of [of P] uv by simp
  show ?thesis
  proof (cases "length pub = 33")
    case True
    then have head: "pub ! 0 = 2 \<or> pub ! 0 = 3" using assms by (auto simp: encodes_def)
    have "of_bool (pub ! 0 = 3) = (0 :: u32) \<or> of_bool (pub ! 0 = 3) = (1 :: u32)" by simp
    from ge_set_xo_var_rep(1) [OF x this] have "snd (secp256k1_ge_set_xo_var (fst (secp256k1_fe_set_b32 X)) (of_bool (pub ! 0 = 3)))"
      using on P by blast
    moreover have "drop (Suc 0) pub = X" using True by (simp add: X_def)
    ultimately show ?thesis using True head okx
      by (auto simp: secp256k1_eckey_pubkey_parse_def case_prod_beta)
  next
    case False
    define Y where "Y = take 32 (drop 33 pub)"
    have len: "length pub = 65" and head: "pub ! 0 = 4 \<or> pub ! 0 = 6 \<and> even (y_of P) \<or> pub ! 0 = 7 \<and> odd (y_of P)"
      and Y: "length Y = 32" "be_val Y = y_of P" using assms False by (auto simp: encodes_def Y_def)
    have bby: "be_val Y < secp256k1_p" using Y(2) y_of_bounds by simp
    have oky: "snd (secp256k1_fe_set_b32 Y)" using secp256k1_fe_set_b32_val(2) [OF Y(1)] bby by simp
    have y: "fe_rep 8 (gf (y_of P)) (fst (secp256k1_fe_set_b32 Y))"
      by (rule fe_repI [OF fe_set_b32_rep(2) [OF Y(1) bby]]) (simp_all add: Y(2))
    define e where "e = secp256k1_ge_set_xy (fst (secp256k1_fe_set_b32 X)) (fst (secp256k1_fe_set_b32 Y))"
    have re: "fe_rep 8 u (ge_x e)" "fe_rep 8 v (ge_y e)" "\<not> ge_infinity e"
      using x y by (simp_all add: e_def secp256k1_ge_set_xy_def P)
    have valid: "secp256k1_ge_is_valid_var e" using ge_is_valid_var_rep [OF re] on by simp
    have "secp256k1_fe_is_odd (fst (secp256k1_fe_set_b32 Y)) = of_bool (odd (y_of P))"
      using secp256k1_fe_set_b32_val(1) [OF Y(1)] Y(2) by (simp add: secp256k1_fe_is_odd_eq)
    moreover have "take 32 (drop (Suc 0) pub) = X" "take 32 (drop 33 pub) = Y" by (simp_all add: X_def Y_def)
    ultimately show ?thesis using len head okx oky valid
      by (auto simp: secp256k1_eckey_pubkey_parse_def case_prod_beta Let_def e_def)
  qed
qed

lemma ge_rep_pubkey_parse:
  "encodes pub P \<Longrightarrow> ge_rep 1 P (fst (secp256k1_eckey_pubkey_parse elem pub))"
  using pubkey_parse_sound [OF pubkey_parse_complete] encodes_unique by metis

lemma pubkey_parse_iff: "snd (secp256k1_eckey_pubkey_parse elem pub) \<longleftrightarrow> (\<exists>P. encodes pub P)"
  using pubkey_parse_sound pubkey_parse_complete by blast

text \<open>The serializer writes the canonical encoding of its format.\<close>

lemma pubkey_serialize_rep:
  assumes e: "ge_rep 1 P elem" and P: "P \<noteq> 0" and len: "(if compressed then 33 else 65) \<le> length pub"
    and run: "secp256k1_eckey_pubkey_serialize elem pub siz compressed = (elem', pub', siz', ok)"
  shows "ok" and "siz' = (if compressed then 33 else 65)" and "encodes (take siz' pub') P" and "ge_rep 1 P elem'"
    and "length pub' = length pub" and "\<not> compressed \<Longrightarrow> pub' ! 0 = 4"
proof -
  note c = ge_rep_coords [OF e P]
  define x y where "x = secp256k1_fe_normalize (ge_x elem)" and "y = secp256k1_fe_normalize (ge_y elem)"
  note nx = fe_normalize_rep_canonical [OF c(1), folded x_def] and ny = fe_normalize_rep_canonical [OF c(2), folded y_def]
  have fx: "fe_val x = x_of P" "fe_val y = y_of P" using nx(2) ny(2) x_of_bounds y_of_bounds by (simp_all add: gf_val_gf)
  define bx "by" where "bx = secp256k1_fe_get_b32 x" and "by = secp256k1_fe_get_b32 y"
  have bx: "length bx = 32" "be_val bx = x_of P" using fe_normalized_b32 [OF nx(1)] fx by (simp_all add: bx_def)
  have bby: "length by = 32" "be_val by = y_of P" using fe_normalized_b32 [OF ny(1)] fx by (simp_all add: by_def)
  have elem': "elem' = elem\<lparr>ge_x := x, ge_y := y\<rparr>" and ok: ok and siz: "siz' = (if compressed then 33 else 65)"
    and pub': "pub' = (if compressed then (buf_write pub 1 bx)[0 := 0x02 OR (if odd (y_of P) then 0x01 else 0x00)]
      else buf_write ((buf_write pub 1 bx)[0 := 0x04]) 33 by)"
    using run c(3) nx(4) ny(4)
    by (auto simp: secp256k1_eckey_pubkey_serialize_def secp256k1_ge_is_infinity_def Let_def x_def [symmetric] y_def [symmetric]
        secp256k1_fe_is_odd_eq fx bx_def by_def split: if_splits)
  show ok by (rule ok)
  show "siz' = (if compressed then 33 else 65)" by (rule siz)
  obtain a rest where pub: "pub = a # rest" using len by (cases pub) (auto split: if_splits)
  have w: "buf_write pub 1 bx = a # bx @ drop 32 rest" using bx(1) by (simp add: buf_write_def pub)
  have take1: "take siz' pub' = (if compressed then (0x02 OR (if odd (y_of P) then 0x01 else 0x00)) # bx else 0x04 # bx @ by)"
    using bx(1) bby(1) len unfolding pub' siz w by (simp add: buf_write_def pub)
  then show "encodes (take siz' pub') P"
    using P bx bby by (auto simp: encodes_def)
  show "length pub' = length pub" using len bx(1) bby(1) by (auto simp: pub' pub buf_write_def split: if_splits)
  show "\<not> compressed \<Longrightarrow> pub' ! 0 = 4" unfolding pub' w by (simp add: buf_write_def)
  show "ge_rep 1 P elem'"
  proof -
    have rx: "fe_rep 8 (gf (x_of P)) (ge_x elem')" "fe_rep 8 (gf (y_of P)) (ge_y elem')" "\<not> ge_infinity elem'"
      using fe_repI [OF nx(3), of 8] fe_repI [OF ny(3), of 8] c(3) by (simp_all add: elem')
    then show ?thesis using c(4) by (simp add: ge_rep_def ge_ok_def ge_abs_def fe_rep_def)
  qed
qed

subsection \<open>Tweaks of private and public keys\<close>

lemma privkey_tweak_add_val:
  assumes "scalar_ok key" and "scalar_ok tweak" and "secp256k1_eckey_privkey_tweak_add key tweak = (key', ok)"
  shows "scalar_val key' = (scalar_val key + scalar_val tweak) mod secp256k1_n" and "scalar_ok key'"
    and "ok \<longleftrightarrow> scalar_val key' \<noteq> 0"
  using assms scalar_add_val [OF assms(1,2)]
  by (auto simp: secp256k1_eckey_privkey_tweak_add_def Let_def secp256k1_scalar_is_zero_eq split: if_splits)

lemma scalar_set_int_0: "scalar_val (secp256k1_scalar_set_int 0) = 0"
  by (simp add: secp256k1_scalar_set_int_def scalar_val_def scalar_limbs_def)

lemma pubkey_tweak_add_rep:
  assumes "ecmult_frame_ok fr" and "ecmult_context_ok ctx" and "ge_rep 1 P key" and "P \<noteq> 0" and "scalar_ok tweak"
    and run: "secp256k1_eckey_pubkey_tweak_add fr ctx key tweak = (key', ok)"
  shows "ok \<longleftrightarrow> P + zmul (scalar_val tweak) gen \<noteq> 0" and "ok \<Longrightarrow> ge_rep 1 (P + zmul (scalar_val tweak) gen) key'"
proof -
  define pt where "pt = secp256k1_ecmult fr ctx (secp256k1_gej_set_ge key) (secp256k1_scalar_set_int 1) tweak"
  have one: "scalar_val (secp256k1_scalar_set_int 1) = 1" by (simp add: secp256k1_scalar_set_int_def scalar_val_def scalar_limbs_def)
  have pt: "gej_rep 1 (P + zmul (scalar_val tweak) gen) pt"
    using ecmult_rep [OF assms(1,2) gej_rep_set_ge [OF assms(3)] assms(4), of "secp256k1_scalar_set_int 1" tweak] assms(5)
    by (simp add: one pt_def scalar_ok_def secp256k1_n_def)
  note inf = gej_rep_infinity [OF pt]
  have eq: "secp256k1_eckey_pubkey_tweak_add fr ctx key tweak =
      (if gej_infinity pt then (key, False) else (fst (secp256k1_ge_set_gej pt), True))"
    by (simp add: secp256k1_eckey_pubkey_tweak_add_def Let_def pt_def secp256k1_gej_is_infinity_def)
  show "ok \<longleftrightarrow> P + zmul (scalar_val tweak) gen \<noteq> 0" using run inf by (auto simp: eq split: if_splits)
  show "ok \<Longrightarrow> ge_rep 1 (P + zmul (scalar_val tweak) gen) key'"
    using run ge_rep_set_gej(1) [OF pt] by (auto simp: eq split: if_splits)
qed

lemma pubkey_tweak_mul_rep:
  assumes "ecmult_frame_ok fr" and "ecmult_context_ok ctx" and "ge_rep 1 P key" and "P \<noteq> 0" and "scalar_ok tweak"
    and run: "secp256k1_eckey_pubkey_tweak_mul fr ctx key tweak = (key', ok)"
  shows "ok \<longleftrightarrow> scalar_val tweak \<noteq> 0" and "ok \<Longrightarrow> ge_rep 1 (zmul (scalar_val tweak) P) key' \<and> zmul (scalar_val tweak) P \<noteq> 0"
proof -
  define pt where "pt = secp256k1_ecmult fr ctx (secp256k1_gej_set_ge key) tweak (secp256k1_scalar_set_int 0)"
  have pt: "gej_rep 1 (zmul (scalar_val tweak) P) pt"
    using ecmult_rep [OF assms(1,2) gej_rep_set_ge [OF assms(3)] assms(4), of tweak "secp256k1_scalar_set_int 0"] assms(5)
    by (simp add: scalar_set_int_0 pt_def scalar_ok_def n_pos)
  have eq: "secp256k1_eckey_pubkey_tweak_mul fr ctx key tweak =
      (if scalar_val tweak = 0 then (key, False) else (fst (secp256k1_ge_set_gej pt), True))"
    by (simp add: secp256k1_eckey_pubkey_tweak_mul_def Let_def pt_def secp256k1_scalar_is_zero_eq)
  show ok: "ok \<longleftrightarrow> scalar_val tweak \<noteq> 0" using run by (auto simp: eq split: if_splits)
  show "ok \<Longrightarrow> ge_rep 1 (zmul (scalar_val tweak) P) key' \<and> zmul (scalar_val tweak) P \<noteq> 0"
    using run ge_rep_set_gej(1) [OF pt] ok n_dvd_scalar [OF assms(5)] assms(4)
    by (auto simp: eq zmul_eq_0_iff split: if_splits)
qed

end
