(* ===== verification/Samples.thy ===== *)
theory Samples
  imports Ecdsa Eckey
begin

text \<open>
  Concrete contexts on which the properties are instantiated: the tables that the library builds at
  start-up, in memory that is filled with zeros.
\<close>

definition sample_sha :: secp256k1_sha256_t where
  "sample_sha = \<lparr>hash_s = replicate 8 0, hash_buf = replicate 64 0, hash_bytes = 0\<rparr>"

definition sample_hmac :: secp256k1_hmac_sha256_t where
  "sample_hmac = \<lparr>hmac_inner = sample_sha, hmac_outer = sample_sha\<rparr>"

definition sample_frame :: ecmult_frame where
  "sample_frame = \<lparr>fr_d = secp256k1_gej_clear,
     fr_prej = replicate (ECMULT_TABLE_SIZE WINDOW_A) secp256k1_gej_clear,
     fr_zr = replicate (ECMULT_TABLE_SIZE WINDOW_A) secp256k1_fe_clear,
     fr_pre_a = replicate (ECMULT_TABLE_SIZE WINDOW_A) secp256k1_ge_clear, fr_Z = secp256k1_fe_clear,
     fr_wnaf_na = replicate 256 0, fr_wnaf_ng = replicate 256 0\<rparr>"

definition sample_ctx :: secp256k1_ecmult_context where
  "sample_ctx = secp256k1_ecmult_context_build secp256k1_gej_clear
     (replicate (ECMULT_TABLE_SIZE WINDOW_G) secp256k1_gej_clear)
     (replicate (ECMULT_TABLE_SIZE WINDOW_G) secp256k1_fe_clear)
     (replicate (ECMULT_TABLE_SIZE WINDOW_G) secp256k1_ge_clear)
     (replicate (ECMULT_TABLE_SIZE WINDOW_G) (secp256k1_ge_to_storage secp256k1_ge_const_g))
     secp256k1_ecmult_context_init"

text \<open>The generator in the place of the point without known logarithm, which makes every entry of the
  table known.\<close>

definition sample_prec :: "secp256k1_ge_storage list list" where
  "sample_prec = gen_prec (replicate 1024 secp256k1_gej_clear) (replicate 1024 secp256k1_fe_clear)
     (replicate 1024 secp256k1_ge_clear) (replicate 64 (replicate 16 (secp256k1_ge_to_storage secp256k1_ge_const_g)))
     (secp256k1_gej_set_ge secp256k1_ge_const_g) (secp256k1_gej_set_ge secp256k1_ge_const_g)"

lemma sample_hash_ok: "sha_ok sample_sha" "hmac_ok sample_hmac"
  by (simp_all add: sha_ok_def hmac_ok_def sample_sha_def sample_hmac_def)

lemma sample_frame_ok: "ecmult_frame_ok sample_frame"
  by (simp add: ecmult_frame_ok_def sample_frame_def)

lemma sample_ctx_ok: "ecmult_context_ok sample_ctx"
  unfolding sample_ctx_def by (rule ecmult_context_build_ok) simp_all

lemma sample_gen_table: "gen_table gen sample_prec"
  unfolding sample_prec_def
  by (rule gen_prec_rep) (simp_all add: gej_rep_set_ge ge_rep_gen gen_entry_gen)

lemma sample_gen_ok: "ecmult_gen_context_ok (gen_context sample_prec)"
  by (rule gen_context_ok [OF sample_gen_table])

lemma sample_scalar: "scalar_val (secp256k1_scalar_set_int k) = uint k"
  by (simp add: secp256k1_scalar_set_int_val)

lemma sample_scalar_ok: "scalar_ok (secp256k1_scalar_set_int k)"
proof -
  have "uint k < 2 ^ 32" using uint_lt2p [of k] by simp
  then show ?thesis by (simp add: scalar_ok_def sample_scalar secp256k1_n_def)
qed

lemma sample_one: "scalar_val (secp256k1_scalar_set_int 1) = 1"
  by (simp add: sample_scalar)

lemma x_of_gen: "x_of gen = 0x79be667ef9dcbbac55a06295ce870b07029bfcdb2dce28d959f2815b16f81798"
  by (simp add: x_of_def point_of_gen ge_abs_def ge_const_g_limbs(3) fe_abs_def ge_const_g_val gf_val_gf secp256k1_p_def)

lemma inverse_one: "scalar_val (secp256k1_scalar_inverse (secp256k1_scalar_set_int 1)) = 1"
  by (simp add: secp256k1_scalar_inverse_val sample_one secp256k1_n_def)

text \<open>With key, number and nonce one, \<open>R\<close> is the generator.\<close>

lemma sample_sign:
  obtains sigr sigs recid where
    "secp256k1_ecdsa_sig_sign (gen_context sample_prec) (secp256k1_scalar_set_int 1) (secp256k1_scalar_set_int 1)
      (secp256k1_scalar_set_int 1) (Some 0) = (sigr, sigs, Some recid, True)" "scalar_val sigr \<noteq> 0"
proof -
  obtain sigr sigs rid ret where run:
    "secp256k1_ecdsa_sig_sign (gen_context sample_prec) (secp256k1_scalar_set_int 1) (secp256k1_scalar_set_int 1)
      (secp256k1_scalar_set_int 1) (Some 0) = (sigr, sigs, rid, ret)" by (metis prod_cases4)
  note v = ecdsa_sig_sign_vals [OF sample_gen_ok sample_scalar_ok sample_scalar_ok sample_scalar_ok _ run,
      unfolded sample_one inverse_one zmul_1 x_of_gen, simplified]
  have "ret" using v(4) by (simp add: secp256k1_n_def)
  moreover have "scalar_val sigr \<noteq> 0" using v(1) by (simp add: secp256k1_n_def)
  moreover obtain i where "rid = Some i" using v(6) \<open>ret\<close> by auto
  ultimately show thesis using that [of sigr sigs i] run by simp
qed

end
