(* ===== verification/Ecmult_Const.thy ===== *)
theory Ecmult_Const
  imports Ecmult Scalar_Field
begin

text \<open>
  The constant-time multiplication of a point with a secret scalar (\<open>ecmult_const_impl.h\<close>), as the
  Diffie-Hellman module and the Go binding use it. The scalar is written with odd digits only, so
  that every step adds a table entry; the scalar is first made odd by adding one or two, and the
  excess is subtracted at the end.
\<close>

definition WNAF_BITS :: nat where
  "WNAF_BITS = 256"

definition WNAF_SIZE :: "nat \<Rightarrow> nat" where
  "WNAF_SIZE w = (WNAF_BITS + w - 1) div w"

text \<open>The entry is selected by conditional moves over the whole table; \<open>r\<close> is the object before.\<close>

definition ECMULT_CONST_TABLE_GET_GE :: "secp256k1_ge \<Rightarrow> secp256k1_ge list \<Rightarrow> int \<Rightarrow> nat \<Rightarrow> secp256k1_ge" where
  "ECMULT_CONST_TABLE_GET_GE r pre n w =
     (let abs_n = n * ((if n > 0 then 1 else 0) * 2 - 1);
          idx_n = abs_n div 2;
          r = foldl (\<lambda>r m. let r = r\<lparr>ge_x := secp256k1_fe_cmov (ge_x r) (ge_x (pre ! m)) (of_bool (int m = idx_n))\<rparr>
                in r\<lparr>ge_y := secp256k1_fe_cmov (ge_y r) (ge_y (pre ! m)) (of_bool (int m = idx_n))\<rparr>)
              r [0..<ECMULT_TABLE_SIZE w];
          r = r\<lparr>ge_infinity := False\<rparr>;
          neg_y = secp256k1_fe_negate (ge_y r) 1
      in r\<lparr>ge_y := secp256k1_fe_cmov (ge_y r) neg_y (of_bool (n \<noteq> abs_n))\<rparr>)"

text \<open>The loop of the conversion; a window of width 0 would never end and is stopped at once.\<close>

function wnaf_const_loop ::
  "nat \<Rightarrow> int \<Rightarrow> nat \<Rightarrow> secp256k1_scalar \<Rightarrow> int \<Rightarrow> int \<Rightarrow> int list \<Rightarrow> int list \<times> nat \<times> int" where
  "wnaf_const_loop w global_sign word s u_last u wnaf =
     (if word * w < WNAF_BITS \<and> 0 < w
      then (let (s, ret) = secp256k1_scalar_shr_int s w;
                u = sint ret;
                is_even = (if u AND 1 = 0 then 1 else 0);
                sign = 2 * (if u_last > 0 then 1 else 0) - 1;
                u = u + sign * is_even;
                u_last = u_last - sign * is_even * push_bit w 1;
                wnaf = wnaf[word := u_last * global_sign]
            in wnaf_const_loop w global_sign (word + 1) s u u wnaf)
      else (wnaf, word, u))"
  by pat_completeness auto
termination
  by (relation "measure (\<lambda>(w, global_sign, word, s, u_last, u, wnaf). WNAF_BITS - word * w)") auto

declare wnaf_const_loop.simps [simp del]

definition secp256k1_wnaf_const :: "int list \<Rightarrow> secp256k1_scalar \<Rightarrow> nat \<Rightarrow> int list \<times> int" where
  "secp256k1_wnaf_const wnaf s w =
     (let flip = secp256k1_scalar_is_high s;
          b = flip XOR of_bool (\<not> secp256k1_scalar_is_even s);
          neg_s = secp256k1_scalar_negate s;
          not_neg_one = (if secp256k1_scalar_is_one neg_s then 0 else 1);
          s = secp256k1_scalar_cadd_bit s b (word_of_int not_neg_one);
          (s, global_sign) = secp256k1_scalar_cond_negate s flip;
          global_sign = global_sign * (not_neg_one * 2 - 1);
          skew = push_bit (unat b) 1;
          (s, ret) = secp256k1_scalar_shr_int s w;
          u_last = sint ret;
          (wnaf, word, u) = wnaf_const_loop w global_sign 0 s u_last 0 wnaf
      in (wnaf[word := u * global_sign], skew))"

definition secp256k1_ecmult_const :: "ecmult_frame \<Rightarrow> secp256k1_ge \<Rightarrow> secp256k1_ge \<Rightarrow> secp256k1_scalar \<Rightarrow> secp256k1_gej" where
  "secp256k1_ecmult_const fr tmpa a scalar =
     (let sc = scalar;
          (wnaf_1, skew_1) = secp256k1_wnaf_const (fr_wnaf_na fr) sc (WINDOW_A - 1);
          r = secp256k1_gej_set_ge a;
          (pre_a, Z) = secp256k1_ecmult_odd_multiples_table_globalz_windowa
            (fr_d fr) (fr_prej fr) (fr_zr fr) (fr_pre_a fr) (fr_Z fr) r;
          pre_a = foldl (\<lambda>pre_a i. pre_a[i := (pre_a ! i)\<lparr>ge_y := secp256k1_fe_normalize_weak (ge_y (pre_a ! i))\<rparr>])
            pre_a [0..<ECMULT_TABLE_SIZE WINDOW_A];
          tmpa = ECMULT_CONST_TABLE_GET_GE tmpa pre_a (wnaf_1 ! WNAF_SIZE (WINDOW_A - 1)) WINDOW_A;
          r = secp256k1_gej_set_ge tmpa;
          (r, tmpa) = foldl (\<lambda>(r, tmpa) i.
              let r = foldl (\<lambda>r j. fst (secp256k1_gej_double_nonzero r r None)) r [0..<WINDOW_A - 1];
                  n = wnaf_1 ! i;
                  tmpa = ECMULT_CONST_TABLE_GET_GE tmpa pre_a n WINDOW_A
              in (secp256k1_gej_add_ge r tmpa, tmpa)) (r, tmpa) (rev [0..<WNAF_SIZE (WINDOW_A - 1)]);
          r = r\<lparr>gej_z := secp256k1_fe_mul (gej_z r) Z\<rparr>;
          correction = a;
          tmpj = secp256k1_gej_set_ge correction;
          tmpj = fst (secp256k1_gej_double_var tmpj tmpj None);
          correction = fst (secp256k1_ge_set_gej tmpj);
          correction_1_stor = secp256k1_ge_to_storage a;
          a2_stor = secp256k1_ge_to_storage correction;
          correction_1_stor = secp256k1_ge_storage_cmov correction_1_stor a2_stor (of_bool (skew_1 = 2));
          correction = secp256k1_ge_from_storage correction_1_stor;
          correction = secp256k1_ge_neg correction
      in secp256k1_gej_add_ge r correction)"

subsection \<open>The digits\<close>

text \<open>Every digit is odd and below the window, and the digits stand for the scalar plus the skew.\<close>

definition wnaf_const_digits :: "nat \<Rightarrow> int \<Rightarrow> int list \<Rightarrow> int \<Rightarrow> bool" where
  "wnaf_const_digits w v ds skew \<longleftrightarrow> (skew = 1 \<or> skew = 2) \<and>
     (\<forall>i \<le> WNAF_SIZE w. odd (ds ! i) \<and> \<bar>ds ! i\<bar> < 2 ^ w) \<and>
     (\<Sum>i \<le> WNAF_SIZE w. (2 ^ w) ^ i * ds ! i) mod secp256k1_n = (v + skew) mod secp256k1_n"

lemma shr_int_split:
  assumes "0 < w" and "w < 16"
  obtains s' ret where "secp256k1_scalar_shr_int s w = (s', ret)" "scalar_val s' = scalar_val s div 2 ^ w"
    "sint ret = scalar_val s mod 2 ^ w"
proof -
  obtain s' ret where run: "secp256k1_scalar_shr_int s w = (s', ret)" by fastforce
  note v = secp256k1_scalar_shr_int_val [OF assms run]
  have "scalar_val s mod 2 ^ w < 2 ^ w" by simp
  also have "(2 :: int) ^ w \<le> 2 ^ 15" by (rule power_increasing) (use assms in simp_all)
  finally have "uint ret < 2 ^ 31" unfolding v(2) by simp
  then have "sint ret = uint ret" by (simp add: sint_uint signed_take_bit_int_eq_self_iff order_trans [OF _ uint_ge_0])
  then show thesis using that [OF run v(1)] v(2) by simp
qed

text \<open>The invariant of the loop after \<open>word\<close> digits of \<open>V\<close>.\<close>

definition const_inv :: "nat \<Rightarrow> int \<Rightarrow> int \<Rightarrow> nat \<Rightarrow> int \<Rightarrow> int \<Rightarrow> int list \<Rightarrow> bool" where
  "const_inv w V g word s u ds \<longleftrightarrow> s = V div (2 ^ w) ^ Suc word \<and> odd u \<and> - 1 \<le> u \<and> u < 2 ^ w \<and>
     (\<forall>i<word. odd (ds ! i) \<and> \<bar>ds ! i\<bar> < 2 ^ w) \<and>
     (\<Sum>i<word. (2 ^ w) ^ i * ds ! i) + g * (2 ^ w) ^ word * u + g * (2 ^ w) ^ Suc word * s = g * V"

lemma const_inv_step:
  assumes inv: "const_inv w V g word s ul ds" and g: "g = 1 \<or> g = - 1" and len: "word < length ds" and w: "0 < w"
  defines "e \<equiv> (if s mod 2 ^ w AND 1 = 0 then 1 else 0 :: int)" and "sg \<equiv> 2 * (if ul > 0 then 1 else 0) - 1 :: int"
  shows "const_inv w V g (Suc word) (s div 2 ^ w) (s mod 2 ^ w + sg * e) (ds[word := (ul - sg * e * 2 ^ w) * g])"
proof -
  define B :: int where "B = 2 ^ w"
  have B: "0 < B" "even B" using w by (simp_all add: B_def)
  define u where "u = s mod B"
  have u: "0 \<le> u" "u < B" using B by (simp_all add: u_def)
  have e: "e = (if even u then 1 else 0)" by (simp add: e_def u_def B_def and_one_eq mod_2_eq_odd)
  have sg: "sg = (if ul > 0 then 1 else - 1)" by (simp add: sg_def)
  note i = inv [unfolded const_inv_def, folded B_def]
  have ul: "odd ul" "- 1 \<le> ul" "ul < B" using i by simp_all
  have u1: "u + 1 < B" if "even u" using that u B by (cases "u + 1 = B") (auto dest: arg_cong [of _ _ even])
  have odd_u: "odd (u + sg * e)" "- 1 \<le> u + sg * e" "u + sg * e < B"
    using u u1 by (auto simp: e sg)
  define d where "d = ul - sg * e * B"
  have ul1: "ul = - 1" if "\<not> ul > 0" using that ul by (cases "ul = 0") auto
  have d: "odd d" "\<bar>d\<bar> < B" using ul ul1 B by (auto simp: d_def e sg)
  have dg: "odd (d * g)" "\<bar>d * g\<bar> < B" using d g by auto
  have nth: "(ds[word := d * g]) ! i = (if i = word then d * g else ds ! i)" if "i < Suc word" for i
    using that len by (simp add: nth_list_update)
  have sum': "(\<Sum>i<Suc word. B ^ i * (ds[word := d * g]) ! i) = (\<Sum>i<word. B ^ i * ds ! i) + B ^ word * (d * g)"
    using len by simp
  have s: "s = B * (s div B) + u" by (simp add: u_def)
  have "(\<Sum>i<Suc word. B ^ i * (ds[word := d * g]) ! i) + g * B ^ Suc word * (u + sg * e) + g * B ^ Suc (Suc word) * (s div B) =
      (\<Sum>i<word. B ^ i * ds ! i) + g * B ^ word * ul + g * B ^ Suc word * (B * (s div B) + u)"
    unfolding sum' by (simp add: d_def algebra_simps)
  also have "\<dots> = g * V" unfolding s [symmetric] using i by blast
  finally have eq: "(\<Sum>i<Suc word. B ^ i * (ds[word := d * g]) ! i) + g * B ^ Suc word * (u + sg * e) +
      g * B ^ Suc (Suc word) * (s div B) = g * V" .
  have "s div B = V div B ^ Suc (Suc word)"
    using i B by (simp add: zdiv_zmult2_eq mult.commute [of B])
  then show ?thesis
    using eq odd_u i dg nth unfolding const_inv_def B_def [symmetric] u_def [symmetric] d_def [symmetric] by auto
qed

lemma less_wnaf_size: "0 < w \<Longrightarrow> k < WNAF_SIZE w \<longleftrightarrow> k * w < WNAF_BITS"
proof -
  assume w: "0 < w"
  have "k < WNAF_SIZE w \<longleftrightarrow> Suc k \<le> (WNAF_BITS + w - 1) div w" by (simp add: WNAF_SIZE_def Suc_le_eq)
  also have "\<dots> \<longleftrightarrow> Suc k * w \<le> WNAF_BITS + w - 1" by (rule less_eq_div_iff_mult_less_eq [OF w])
  also have "\<dots> \<longleftrightarrow> k * w < WNAF_BITS" using w by auto
  finally show ?thesis .
qed

lemma wnaf_const_loop_digits:
  assumes "0 < w" and "w < 16" and "0 \<le> V" and "V < 2 ^ WNAF_BITS" and "g = 1 \<or> g = - 1"
    and "const_inv w V g word (scalar_val s) ul ds" and "WNAF_SIZE w + 1 \<le> length ds"
    and "word \<le> WNAF_SIZE w" and "0 < word \<Longrightarrow> u = ul" and "wnaf_const_loop w g word s ul u ds = (ds', m, u')"
  shows "m = WNAF_SIZE w \<and> length ds' = length ds \<and> odd u' \<and> \<bar>u'\<bar> < 2 ^ w \<and> (\<forall>i<m. odd (ds' ! i) \<and> \<bar>ds' ! i\<bar> < 2 ^ w) \<and>
    (\<Sum>i<m. (2 ^ w) ^ i * ds' ! i) + (2 ^ w) ^ m * (u' * g) = g * V"
  using assms(6-)
proof (induction "WNAF_SIZE w - word" arbitrary: word s ul u ds rule: less_induct)
  case less
  note w = assms(1,2) and inv = less.prems(1)
  show ?case
  proof (cases "word * w < WNAF_BITS \<and> 0 < w")
    case True
    then have lt: "word < WNAF_SIZE w" using less_wnaf_size [OF w(1)] by blast
    obtain s' ret where shr: "secp256k1_scalar_shr_int s w = (s', ret)" "scalar_val s' = scalar_val s div 2 ^ w"
      "sint ret = scalar_val s mod 2 ^ w" by (rule shr_int_split [OF w])
    define e :: int where "e = (if sint ret AND 1 = 0 then 1 else 0)"
    define sg :: int where "sg = 2 * (if ul > 0 then 1 else 0) - 1"
    define ds1 where "ds1 = ds[word := (ul - sg * e * 2 ^ w) * g]"
    have run: "wnaf_const_loop w g word s ul u ds = wnaf_const_loop w g (word + 1) s' (sint ret + sg * e) (sint ret + sg * e) ds1"
      using True by (subst wnaf_const_loop.simps) (simp add: shr(1) Let_def e_def sg_def ds1_def push_bit_eq_mult)
    have inv': "const_inv w V g (word + 1) (scalar_val s') (sint ret + sg * e) ds1"
      using const_inv_step [OF inv assms(5) _ w(1)] lt less.prems(2) by (simp add: shr(2,3) e_def sg_def ds1_def)
    have "m = WNAF_SIZE w \<and> length ds' = length ds1 \<and> odd u' \<and> \<bar>u'\<bar> < 2 ^ w \<and> (\<forall>i<m. odd (ds' ! i) \<and> \<bar>ds' ! i\<bar> < 2 ^ w) \<and>
        (\<Sum>i<m. (2 ^ w) ^ i * ds' ! i) + (2 ^ w) ^ m * (u' * g) = g * V"
      by (rule less.hyps [OF _ inv']) (use lt less.prems(2,5) run in \<open>simp_all add: ds1_def\<close>)
    then show ?thesis unfolding ds1_def length_list_update .
  next
    case False
    then have m: "word = WNAF_SIZE w" using less_wnaf_size [OF w(1), of word] w(1) less.prems(3) by simp
    have pos: "0 < word" using less_wnaf_size [OF w(1), of 0] w(1) by (simp add: m WNAF_BITS_def)
    have "wnaf_const_loop w g word s ul u ds = (ds, word, u)" by (subst wnaf_const_loop.simps) (simp only: False if_False)
    then have res: "ds' = ds" "m = word" "u' = ul" using less.prems(4,5) pos by simp_all
    have "(2 :: int) ^ WNAF_BITS \<le> (2 ^ w) ^ Suc word"
      unfolding power_mult [symmetric] using False w(1) by (intro power_increasing) (auto simp: algebra_simps)
    then have "V div (2 ^ w) ^ Suc word = 0" using assms(3,4) by (intro div_pos_pos_trivial) linarith+
    moreover have "(1 :: int) < 2 ^ w" using w(1) by simp
    then have "\<bar>ul\<bar> < 2 ^ w" using inv unfolding const_inv_def by linarith
    ultimately show ?thesis using inv m res unfolding const_inv_def by (auto simp: mult_ac)
  qed
qed

text \<open>The odd scalar that is expanded, with its sign: it stands for the scalar plus the skew.\<close>

lemma scalar_is_even: "secp256k1_scalar_is_even a \<longleftrightarrow> even (scalar_val a)"
proof -
  have "even (scalar_val a) \<longleftrightarrow> even (uint (d_0 a))"
    by (simp add: scalar_val_def scalar_limbs_def)
  then show ?thesis
    by (simp add: secp256k1_scalar_is_even_def flip: uint_0_iff) (simp add: uint_and and_one_eq even_iff_mod_2_eq_zero uint_mod)
qed

lemma const_prepare:
  fixes s :: secp256k1_scalar
  assumes ok: "scalar_ok s"
  defines "flip \<equiv> secp256k1_scalar_is_high s"
    and "b \<equiv> secp256k1_scalar_is_high s XOR of_bool (\<not> secp256k1_scalar_is_even s)"
    and "nn \<equiv> (if secp256k1_scalar_is_one (secp256k1_scalar_negate s) then 0 else 1 :: int)"
  obtains S g where
    "secp256k1_scalar_cond_negate (secp256k1_scalar_cadd_bit s b (word_of_int nn)) flip = (S, g)"
    "odd (scalar_val S)" "scalar_val S < secp256k1_n" "g * (nn * 2 - 1) = 1 \<or> g * (nn * 2 - 1) = - 1" "unat b < 2"
    "(g * (nn * 2 - 1) * scalar_val S) mod secp256k1_n = (scalar_val s + 2 ^ unat b) mod secp256k1_n"
proof -
  define k where "k = scalar_val s"
  have k: "0 \<le> k" "k < secp256k1_n" using ok scalar_val_nonneg by (auto simp: k_def scalar_ok_def)
  define h where "h \<longleftrightarrow> secp256k1_n div 2 < k"
  have flip: "flip = of_bool h" by (simp add: flip_def secp256k1_scalar_is_high_eq h_def k_def)
  have b: "b = of_bool (h \<noteq> odd k)"
    by (cases h; cases "odd k") (simp_all add: b_def secp256k1_scalar_is_high_eq scalar_is_even h_def k_def)
  have b256: "b < 256" "unat b < 2" "unat b = of_bool (h \<noteq> odd k)" by (simp_all add: b)
  have one: "nn = (if k = secp256k1_n - 1 then 0 else 1)"
  proof -
    have "scalar_val (secp256k1_scalar_negate s) = (- k) mod secp256k1_n" using scalar_negate_val [OF ok] by (simp add: k_def)
    also have "\<dots> = (if k = 0 then 0 else secp256k1_n - k)"
      using k by (auto intro: mod_unique [where k = "- 1"])
    finally show ?thesis using k by (auto simp: nn_def secp256k1_scalar_is_one_eq secp256k1_n_def)
  qed
  define q :: int where "q = 2 ^ unat b"
  have q: "q = (if h \<noteq> odd k then 2 else 1)" by (simp add: q_def b256(3))
  have n: "odd secp256k1_n" "secp256k1_n + 2 < 2 ^ 256" "8 < secp256k1_n" by (simp_all add: secp256k1_n_def)
  define s1 where "s1 = secp256k1_scalar_cadd_bit s b (word_of_int nn)"
  have s1: "scalar_val s1 = k + nn * q"
  proof -
    have "word_of_int nn = (0 :: u32) \<or> word_of_int nn = (1 :: u32)" "uint (word_of_int nn :: u32) = nn" by (simp_all add: one)
    then have "scalar_val s1 = (k + nn * q) mod 2 ^ 256"
      using secp256k1_scalar_cadd_bit_val [OF b256(1), of "word_of_int nn" s] by (simp add: s1_def k_def q_def)
    also have "\<dots> = k + nn * q" using k n(2) by (intro mod_pos_pos_trivial) (auto simp: one q)
    finally show ?thesis .
  qed
  have run: "secp256k1_scalar_cond_negate (secp256k1_scalar_cadd_bit s b (word_of_int nn)) flip =
      (if h then (secp256k1_scalar_negate s1, - 1) else (s1, 1))"
    unfolding s1_def [symmetric] by (simp add: secp256k1_scalar_cond_negate_eq flip)
  show thesis
  proof (cases h)
    case False
    then have lo: "k \<le> secp256k1_n div 2" by (simp add: h_def)
    then have nn: "nn = 1" using n(3) by (auto simp: one)
    have "odd (k + q)" using False by (simp add: q)
    moreover have "k + q < secp256k1_n" using lo n(3) unfolding q by (cases "h \<noteq> odd k"; simp; linarith)
    ultimately have kq: "odd (k + q)" "k + q < secp256k1_n" .
    show thesis
      by (rule that [of s1 1]) (use run False nn s1 b256(2) kq in \<open>simp_all add: q_def k_def\<close>)
  next
    case True
    then have hi: "secp256k1_n div 2 < k" by (simp add: h_def)
    have top: "even k" if "k = secp256k1_n - 1" using that n(1) by simp
    have le: "k + nn * q < secp256k1_n" "even (k + nn * q)"
    proof -
      have "k + 2 < secp256k1_n" if "even k" "k \<noteq> secp256k1_n - 1" using that k n(1) by presburger
      then show "k + nn * q < secp256k1_n" using True k top by (auto simp: one q)
      show "even (k + nn * q)" using True top by (simp add: one q)
    qed
    have pos: "0 < k + nn * q" using hi n(3) k(1) by (auto simp: one q)
    have ok1: "scalar_ok s1" using le(1) by (simp add: scalar_ok_def s1)
    have neg: "scalar_val (secp256k1_scalar_negate s1) = secp256k1_n - (k + nn * q)"
      using scalar_negate_val [OF ok1] le(1) pos
      by (simp add: s1 mod_unique [where k = "- 1" and y = "secp256k1_n - (k + nn * q)"])
    have "odd (secp256k1_n - (k + nn * q))" using le(2) n(1) by simp
    moreover have "(- (nn * 2 - 1) * (secp256k1_n - (k + nn * q))) mod secp256k1_n = (k + q) mod secp256k1_n"
    proof (cases "nn = 1")
      case True
      have "- (nn * 2 - 1) * (secp256k1_n - (k + nn * q)) = (k + q) + secp256k1_n * (- 1)" by (simp add: True)
      then show ?thesis by (simp only: mod_mult_self2)
    next
      case False
      then have "k = secp256k1_n - 1" "nn = 0" by (auto simp: one split: if_splits)
      moreover from this have "q = 2" using \<open>h\<close> top by (simp add: q)
      ultimately have e: "- (nn * 2 - 1) * (secp256k1_n - (k + nn * q)) = 1" "k + q = 1 + secp256k1_n * 1" by simp_all
      show ?thesis unfolding e(1) by (simp only: e(2) mod_mult_self2)
    qed
    moreover have "- 1 * (nn * 2 - 1) = 1 \<or> - 1 * (nn * 2 - 1) = - 1" by (simp add: one)
    ultimately show thesis
      by (intro that [of "secp256k1_scalar_negate s1" "- 1"]) (use run True neg pos b256(2) in \<open>simp_all add: q_def k_def\<close>)
  qed
qed

lemma wnaf_const_digits:
  assumes ok: "scalar_ok s" and w: "0 < w" "w < 16" and len: "WNAF_SIZE w + 1 \<le> length wnaf"
  obtains ds skew where "secp256k1_wnaf_const wnaf s w = (ds, skew)" "wnaf_const_digits w (scalar_val s) ds skew"
proof -
  define flip where "flip = secp256k1_scalar_is_high s"
  define b where "b = flip XOR of_bool (\<not> secp256k1_scalar_is_even s)"
  define nn :: int where "nn = (if secp256k1_scalar_is_one (secp256k1_scalar_negate s) then 0 else 1)"
  obtain S g where S: "secp256k1_scalar_cond_negate (secp256k1_scalar_cadd_bit s b (word_of_int nn)) flip = (S, g)"
    "odd (scalar_val S)" "scalar_val S < secp256k1_n" "g * (nn * 2 - 1) = 1 \<or> g * (nn * 2 - 1) = - 1" "unat b < 2"
    "(g * (nn * 2 - 1) * scalar_val S) mod secp256k1_n = (scalar_val s + 2 ^ unat b) mod secp256k1_n"
    unfolding b_def flip_def nn_def by (rule const_prepare [OF ok])
  define gs where "gs = g * (nn * 2 - 1)"
  obtain s' ret where shr: "secp256k1_scalar_shr_int S w = (s', ret)" "scalar_val s' = scalar_val S div 2 ^ w"
    "sint ret = scalar_val S mod 2 ^ w" by (rule shr_int_split [OF w])
  obtain ds' m u' where run: "wnaf_const_loop w gs 0 s' (sint ret) 0 wnaf = (ds', m, u')" by (metis prod_cases3)
  have "(2 :: int) dvd 2 ^ w" using w(1) by simp
  then have "odd (scalar_val S mod 2 ^ w)" using S(2) by (simp add: dvd_mod_iff)
  moreover have "gs * (scalar_val S mod 2 ^ w) + gs * 2 ^ w * (scalar_val S div 2 ^ w) = gs * scalar_val S"
    by (simp add: mult.assoc flip: distrib_left)
  ultimately have inv: "const_inv w (scalar_val S) gs 0 (scalar_val s') (sint ret) wnaf"
    by (simp add: const_inv_def shr order_trans [of "- 1" 0])
  have V: "scalar_val S < 2 ^ WNAF_BITS" using S(3) by (simp add: WNAF_BITS_def secp256k1_n_def)
  have loop: "m = WNAF_SIZE w \<and> length ds' = length wnaf \<and> odd u' \<and> \<bar>u'\<bar> < 2 ^ w \<and> (\<forall>i<m. odd (ds' ! i) \<and> \<bar>ds' ! i\<bar> < 2 ^ w) \<and>
    (\<Sum>i<m. (2 ^ w) ^ i * ds' ! i) + (2 ^ w) ^ m * (u' * gs) = gs * scalar_val S"
    by (rule wnaf_const_loop_digits [OF w scalar_val_nonneg V S(4) [folded gs_def] inv len _ _ run]) simp_all
  define ds where "ds = ds'[m := u' * gs]"
  have res: "secp256k1_wnaf_const wnaf s w = (ds, push_bit (unat b) 1)"
    unfolding secp256k1_wnaf_const_def Let_def flip_def [symmetric] b_def [symmetric] nn_def [symmetric] S(1) case_prod_conv
      gs_def [symmetric] shr(1) run ds_def ..
  have last': "odd (u' * gs)" "\<bar>u' * gs\<bar> < 2 ^ w" using loop S(4) by (auto simp: gs_def [symmetric] abs_mult)
  have nth: "ds ! i = (if i = m then u' * gs else ds' ! i)" if "i \<le> m" for i
    using that loop len by (simp add: ds_def nth_list_update)
  have "(\<Sum>i\<le>m. (2 ^ w) ^ i * ds ! i) = (\<Sum>i<m. (2 ^ w) ^ i * ds ! i) + (2 ^ w) ^ m * ds ! m"
    by (simp add: lessThan_Suc_atMost [symmetric])
  also have "(\<Sum>i<m. (2 ^ w) ^ i * ds ! i) = (\<Sum>i<m. (2 ^ w) ^ i * ds' ! i)"
    by (rule sum.cong) (simp_all add: nth)
  finally have "(\<Sum>i\<le>m. (2 ^ w) ^ i * ds ! i) = gs * scalar_val S" using loop nth [OF order_refl] by metis
  then have "(\<Sum>i\<le>m. (2 ^ w) ^ i * ds ! i) mod secp256k1_n = (scalar_val s + push_bit (unat b) 1) mod secp256k1_n"
    using S(6) by (simp add: gs_def push_bit_eq_mult)
  moreover have "push_bit (unat b) 1 = (1 :: int) \<or> push_bit (unat b) 1 = (2 :: int)"
    using S(5) by (cases "unat b = 0") (auto simp: push_bit_eq_mult less_2_cases_iff)
  ultimately have "wnaf_const_digits w (scalar_val s) ds (push_bit (unat b) 1)"
    using loop last' nth unfolding wnaf_const_digits_def by (auto simp: le_less)
  then show thesis by (rule that [OF res])
qed

subsection \<open>The table\<close>

lemma const_table_select:
  assumes "k < ECMULT_TABLE_SIZE w"
  shows "foldl (\<lambda>r m. let r = r\<lparr>ge_x := secp256k1_fe_cmov (ge_x r) (ge_x (pre ! m)) (of_bool (int m = int k))\<rparr>
                in r\<lparr>ge_y := secp256k1_fe_cmov (ge_y r) (ge_y (pre ! m)) (of_bool (int m = int k))\<rparr>)
              r [0..<ECMULT_TABLE_SIZE w] = r\<lparr>ge_x := ge_x (pre ! k), ge_y := ge_y (pre ! k)\<rparr>"
proof -
  have "foldl (\<lambda>r m. let r = r\<lparr>ge_x := secp256k1_fe_cmov (ge_x r) (ge_x (pre ! m)) (of_bool (int m = int k))\<rparr>
                in r\<lparr>ge_y := secp256k1_fe_cmov (ge_y r) (ge_y (pre ! m)) (of_bool (int m = int k))\<rparr>)
              r [0..<n] = (if k < n then r\<lparr>ge_x := ge_x (pre ! k), ge_y := ge_y (pre ! k)\<rparr> else r)" for n
    by (induction n) (auto simp: secp256k1_fe_cmov_eq Let_def)
  from this [of "ECMULT_TABLE_SIZE w"] assms show ?thesis by simp
qed

lemma ge_rep_new_y:
  assumes "ge_rep S P a" and "P \<noteq> 0" and "fe_rep 8 y f"
  shows "y = fe_abs (ge_y a) \<Longrightarrow> ge_rep S P (a\<lparr>ge_y := f\<rparr>)"
    and "y = - fe_abs (ge_y a) \<Longrightarrow> ge_rep S (- P) (a\<lparr>ge_y := f\<rparr>)"
proof -
  have fin: "\<not> ge_infinity a" using ge_rep_infinity [OF assms(1)] assms(2) by simp
  note a = ge_ok_finite [OF ge_rep_ok [OF assms(1)] fin]
  show "ge_rep S P (a\<lparr>ge_y := f\<rparr>)" if "y = fe_abs (ge_y a)"
    using assms(1,3) a fin that by (simp add: ge_rep_def ge_ok_def ge_abs_def fe_rep_def)
  show "ge_rep S (- P) (a\<lparr>ge_y := f\<rparr>)" if "y = - fe_abs (ge_y a)"
    using assms(1,3) a fin that
    by (simp add: ge_rep_def ge_ok_def ge_abs_def fe_rep_def point_of_uminus scale_point_pneg flip: ge_rep_abs [OF assms(1)])
qed

lemma const_table_get_rep:
  assumes tab: "\<forall>i < ECMULT_TABLE_SIZE w. ge_rep S (odd_multiple P i) (pre ! i) \<and> fe_magnitude 1 (ge_y (pre ! i)) \<and> odd_multiple P i \<noteq> 0"
    and n: "odd n" "\<bar>n\<bar> < 2 ^ (w - 1)" "2 \<le> w"
  shows "ge_rep S (zmul n P) (ECMULT_CONST_TABLE_GET_GE r pre n w)"
proof -
  define a where "a = n * ((if n > 0 then 1 else 0) * 2 - 1)"
  have a: "a = \<bar>n\<bar>" by (simp add: a_def)
  define k where "k = nat (a div 2)"
  have k: "a div 2 = int k" by (simp add: k_def a)
  have kn: "k < ECMULT_TABLE_SIZE w" "zmul n P = (if n > 0 then odd_multiple P k else - odd_multiple P k)"
  proof -
    have "n > 0 \<Longrightarrow> (n - 1) div 2 = a div 2" "\<not> n > 0 \<Longrightarrow> (- n - 1) div 2 = a div 2" using n(1) by (auto simp: a elim!: oddE)
    then show "k < ECMULT_TABLE_SIZE w" "zmul n P = (if n > 0 then odd_multiple P k else - odd_multiple P k)"
      using odd_digit [OF n, of P] by (auto simp: k_def)
  qed
  define b where "b = pre ! k"
  have b: "ge_rep S (odd_multiple P k) b" "fe_magnitude 1 (ge_y b)" "odd_multiple P k \<noteq> 0" using tab kn(1) by (auto simp: b_def)
  have fin: "\<not> ge_infinity b" using ge_rep_infinity [OF b(1)] b(3) by simp
  have sel: "r\<lparr>ge_x := ge_x b, ge_y := ge_y b, ge_infinity := False\<rparr> = b" using fin by simp
  have get: "ECMULT_CONST_TABLE_GET_GE r pre n w = (if n > 0 then b else b\<lparr>ge_y := secp256k1_fe_negate (ge_y b) 1\<rparr>)"
    unfolding ECMULT_CONST_TABLE_GET_GE_def Let_def a_def [symmetric] k
    unfolding const_table_select [OF kn(1), unfolded Let_def] b_def [symmetric]
    using sel n(1) by (auto simp: a secp256k1_fe_cmov_eq)
  have y: "fe_rep 1 (fe_abs (ge_y b)) (ge_y b)" using b(2) by (simp add: fe_rep_def)
  have "fe_rep 8 (- fe_abs (ge_y b)) (secp256k1_fe_negate (ge_y b) 1)"
    by (rule fe_repI, (rule fe_rules y | simp; fail)+)
  from ge_rep_new_y(2) [OF b(1,3) this refl] show ?thesis using b(1) by (simp add: get kn(2))
qed

lemma weak_table_rep:
  assumes "\<forall>i < n. ge_rep S (odd_multiple P i) (pre ! i)" and "\<forall>i < n. odd_multiple P i \<noteq> 0" and "n \<le> length pre"
  defines "pre' \<equiv> foldl (\<lambda>pre i. pre[i := (pre ! i)\<lparr>ge_y := secp256k1_fe_normalize_weak (ge_y (pre ! i))\<rparr>]) pre [0..<n]"
  shows "\<forall>i < n. ge_rep S (odd_multiple P i) (pre' ! i) \<and> fe_magnitude 1 (ge_y (pre' ! i)) \<and> odd_multiple P i \<noteq> 0"
proof -
  have nth: "m \<le> n \<Longrightarrow> length (foldl (\<lambda>pre i. pre[i := (pre ! i)\<lparr>ge_y := secp256k1_fe_normalize_weak (ge_y (pre ! i))\<rparr>]) pre [0..<m]) = length pre \<and>
      (\<forall>i < length pre. foldl (\<lambda>pre i. pre[i := (pre ! i)\<lparr>ge_y := secp256k1_fe_normalize_weak (ge_y (pre ! i))\<rparr>]) pre [0..<m] ! i =
        (if i < m then (pre ! i)\<lparr>ge_y := secp256k1_fe_normalize_weak (ge_y (pre ! i))\<rparr> else pre ! i))" for m
    using assms(3) by (induction m) (auto simp: nth_list_update less_Suc_eq)
  show ?thesis
  proof (intro allI impI)
    fix i
    assume i: "i < n"
    then have r: "ge_rep S (odd_multiple P i) (pre ! i)" "odd_multiple P i \<noteq> 0" using assms(1,2) by blast+
    then have "\<not> ge_infinity (pre ! i)" using ge_rep_infinity by blast
    note a = ge_ok_finite [OF ge_rep_ok [OF r(1)] this]
    have y: "fe_rep 1 (fe_abs (ge_y (pre ! i))) (secp256k1_fe_normalize_weak (ge_y (pre ! i)))"
      by (rule fe_rep_normalize(1) [OF a(2)]) simp
    have "pre' ! i = (pre ! i)\<lparr>ge_y := secp256k1_fe_normalize_weak (ge_y (pre ! i))\<rparr>"
      using nth [OF order_refl] i assms(3) by (simp add: pre'_def)
    then show "ge_rep S (odd_multiple P i) (pre' ! i) \<and> fe_magnitude 1 (ge_y (pre' ! i)) \<and> odd_multiple P i \<noteq> 0"
      using ge_rep_new_y(1) [OF r fe_repI [OF y, of 8] refl] fe_rep_magnitude [OF y] r(2) by simp
  qed
qed

subsection \<open>The multiplication\<close>

text \<open>Four doublings are the base 16 of the digits; the selected entry is the second part of the state.\<close>

interpretation hexadecimal: shift_add "2 ^ (WINDOW_A - 1)" "\<lambda>P rt. gej_rep S P (fst rt)"
  "\<lambda>(r, tmpa). (foldl (\<lambda>r j. fst (secp256k1_gej_double_nonzero r r None)) r [0..<WINDOW_A - 1], tmpa)" for S
proof unfold_locales
  fix P and rt :: "secp256k1_gej \<times> 'x"
  assume "gej_rep S P (fst rt)"
  then have "gej_rep S (zmul (2 ^ n) P) (foldl (\<lambda>r j. fst (secp256k1_gej_double_nonzero r r None)) (fst rt) [0..<n])" for n
  proof (induction n)
    case (Suc n)
    have "zmul (2 ^ Suc n) P = zmul 2 (zmul (2 ^ n) P)" by (simp add: zmul_mult)
    then show ?case using binary.shift [OF Suc.IH [OF Suc.prems]] by (simp add: secp256k1_gej_double_nonzero_def)
  qed simp
  then show "gej_rep S (zmul (2 ^ (WINDOW_A - 1)) P)
      (fst (case rt of (r, tmpa) \<Rightarrow> (foldl (\<lambda>r j. fst (secp256k1_gej_double_nonzero r r None)) r [0..<WINDOW_A - 1], tmpa)))"
    by (simp add: case_prod_beta)
qed

definition const_frame_ok :: "ecmult_frame \<Rightarrow> bool" where
  "const_frame_ok fr \<longleftrightarrow> ecmult_frame_ok fr \<and> WNAF_SIZE (WINDOW_A - 1) + 1 \<le> length (fr_wnaf_na fr)"

lemma odd_small_multiple_nonzero:
  assumes "P \<noteq> 0" and "odd d" and "\<bar>d\<bar> < 2 ^ 20"
  shows "zmul d P \<noteq> 0"
proof -
  have "d \<noteq> 0" using assms(2) by auto
  then have "\<not> secp256k1_n dvd d" using dvd_imp_le_int [of d secp256k1_n] assms(3) by (auto simp: secp256k1_n_def)
  then show ?thesis using assms(1) by (simp add: zmul_eq_0_iff)
qed

lemma skew_correction:
  assumes a: "ge_rep 1 A a" "A \<noteq> 0" and skew: "skew = 1 \<or> skew = 2"
  defines "stor \<equiv> secp256k1_ge_storage_cmov (secp256k1_ge_to_storage a)
      (secp256k1_ge_to_storage (fst (secp256k1_ge_set_gej (fst (secp256k1_gej_double_var (secp256k1_gej_set_ge a) (secp256k1_gej_set_ge a) None)))))
      (of_bool (skew = 2))"
  shows "ge_rep 1 (- zmul skew A) (secp256k1_ge_neg (secp256k1_ge_from_storage stor))"
proof -
  have AA: "A + A \<noteq> 0" using a(2) no_point_of_order_two by simp
  have "gs_rep (A + A) (secp256k1_ge_to_storage (fst (secp256k1_ge_set_gej
      (fst (secp256k1_gej_double_var (secp256k1_gej_set_ge a) (secp256k1_gej_set_ge a) None)))))"
    by (rule gs_rep_to_storage [OF ge_rep_set_gej(1) [OF gej_rep_double [OF gej_rep_set_ge [OF a(1)]]] AA])
  then have "gs_rep (zmul skew A) stor"
    using gs_rep_to_storage [OF a] skew by (auto simp: stor_def storage_cmov zmul_2)
  then show ?thesis unfolding gs_rep_def by (rule ge_rep_neg)
qed

lemma ecmult_const_rep:
  assumes fr: "const_frame_ok fr" and a: "ge_rep 1 A a" "A \<noteq> 0" and ok: "scalar_ok s"
  shows "gej_rep 1 (zmul (scalar_val s) A) (secp256k1_ecmult_const fr tmpa a s)"
proof -
  define w where "w = WINDOW_A - 1"
  have w: "0 < w" "w < 16" "2 \<le> WINDOW_A" "w = 4" by (simp_all add: w_def WINDOW_A_def)
  define N where "N = WNAF_SIZE w"
  obtain ds skew where ds: "secp256k1_wnaf_const (fr_wnaf_na fr) s w = (ds, skew)" "wnaf_const_digits w (scalar_val s) ds skew"
    by (rule wnaf_const_digits [OF ok w(1,2), of "fr_wnaf_na fr"]) (use fr in \<open>simp_all add: const_frame_ok_def w_def\<close>)
  obtain Z pre fz where t: "secp256k1_ecmult_odd_multiples_table_globalz_windowa
      (fr_d fr) (fr_prej fr) (fr_zr fr) (fr_pre_a fr) (fr_Z fr) (secp256k1_gej_set_ge a) = (pre, fz)"
    "Z \<noteq> 0" "fe_rep 8 Z fz" "\<forall>i < ECMULT_TABLE_SIZE WINDOW_A. ge_rep Z (odd_multiple A i) (pre ! i)"
    "length pre = length (fr_pre_a fr)"
    by (rule odd_multiples_table_globalz_rep [OF gej_rep_set_ge [OF a(1)] a(2), of "fr_prej fr" "fr_zr fr" "fr_pre_a fr" "fr_d fr" "fr_Z fr"])
      (use fr in \<open>simp_all add: const_frame_ok_def ecmult_frame_ok_def\<close>)
  define pre' where "pre' = foldl (\<lambda>pre i. pre[i := (pre ! i)\<lparr>ge_y := secp256k1_fe_normalize_weak (ge_y (pre ! i))\<rparr>])
      pre [0..<ECMULT_TABLE_SIZE WINDOW_A]"
  have "\<forall>i < ECMULT_TABLE_SIZE WINDOW_A. odd_multiple A i \<noteq> 0"
    using odd_multiple_distinct(1) [OF a(2)] by (simp add: ECMULT_TABLE_SIZE_def WINDOW_A_def)
  from weak_table_rep [OF t(4) this] have tab: "\<forall>i < ECMULT_TABLE_SIZE WINDOW_A.
      ge_rep Z (odd_multiple A i) (pre' ! i) \<and> fe_magnitude 1 (ge_y (pre' ! i)) \<and> odd_multiple A i \<noteq> 0"
    using fr t(5) by (simp add: pre'_def const_frame_ok_def ecmult_frame_ok_def)
  have digit: "odd (ds ! i)" "\<bar>ds ! i\<bar> < 2 ^ (WINDOW_A - 1)" "zmul (ds ! i) A \<noteq> 0" if "i \<le> N" for i
  proof -
    show "odd (ds ! i)" "\<bar>ds ! i\<bar> < 2 ^ (WINDOW_A - 1)" using ds(2) that by (auto simp: wnaf_const_digits_def N_def w_def)
    then show "zmul (ds ! i) A \<noteq> 0" by (intro odd_small_multiple_nonzero [OF a(2)]) (simp_all add: WINDOW_A_def)
  qed
  have get: "ge_rep Z (zmul (ds ! i) A) (ECMULT_CONST_TABLE_GET_GE r pre' (ds ! i) WINDOW_A)" if "i \<le> N" for i r
    by (rule const_table_get_rep [OF tab digit(1,2) [OF that] w(3)])
  define f where "f = (\<lambda>i (r, tmpa). (let t = ECMULT_CONST_TABLE_GET_GE tmpa pre' (ds ! i) WINDOW_A in (secp256k1_gej_add_ge r t, t)))"
  define t0 where "t0 = ECMULT_CONST_TABLE_GET_GE tmpa pre' (ds ! N) WINDOW_A"
  define shift where "shift = (\<lambda>(r :: secp256k1_gej, tmpa :: secp256k1_ge).
      (foldl (\<lambda>r j. fst (secp256k1_gej_double_nonzero r r None)) r [0..<WINDOW_A - 1], tmpa))"
  define rt where "rt = foldl (\<lambda>rt i. f i (shift rt)) (secp256k1_gej_set_ge t0, t0) (rev [0..<N])"
  have "gej_rep Z (zmul ((2 ^ (WINDOW_A - 1)) ^ N) (zmul (ds ! N) A) +
      zmul (\<Sum>i<N. (2 ^ (WINDOW_A - 1)) ^ i * ds ! i) A) (fst rt)"
    unfolding rt_def shift_def
  proof (rule hexadecimal.loop_digits)
    show "gej_rep Z (zmul (ds ! N) A) (fst (secp256k1_gej_set_ge t0, t0))"
      using gej_rep_set_ge [OF get [OF order_refl]] by (simp add: t0_def)
    fix i P and rt :: "secp256k1_gej \<times> secp256k1_ge"
    assume i: "i < N" and rt: "gej_rep Z P (fst rt)"
    then have "i \<le> N" by simp
    from gej_rep_add_ge [OF rt get [OF this, of "snd rt"] digit(3) [OF this]]
    show "gej_rep Z (P + zmul (ds ! i) A) (fst (f i rt))" by (simp add: f_def case_prod_beta Let_def)
  qed
  moreover have "zmul ((2 ^ (WINDOW_A - 1)) ^ N) (zmul (ds ! N) A) + zmul (\<Sum>i<N. (2 ^ (WINDOW_A - 1)) ^ i * ds ! i) A =
      zmul (\<Sum>i\<le>N. (2 ^ w) ^ i * ds ! i) A"
    unfolding lessThan_Suc_atMost [symmetric] sum.lessThan_Suc zmul_add w_def zmul_mult by (rule add.commute)
  moreover have "zmul (\<Sum>i\<le>N. (2 ^ w) ^ i * ds ! i) A = zmul (scalar_val s + skew) A"
    by (rule zmul_cong) (use ds(2) in \<open>simp add: wnaf_const_digits_def N_def\<close>)
  ultimately have r: "gej_rep Z (zmul (scalar_val s + skew) A) (fst rt)" by simp
  define r' where "r' = (fst rt)\<lparr>gej_z := secp256k1_fe_mul (gej_z (fst rt)) fz\<rparr>"
  have r': "gej_rep 1 (zmul (scalar_val s + skew) A) r'"
    using gej_rep_rescale_z [OF r t(3)]
    by (cases "gej_infinity (fst rt)") (simp_all add: r'_def gej_rep_def gej_ok_def gej_abs_def)
  define c where "c = secp256k1_ge_neg (secp256k1_ge_from_storage (secp256k1_ge_storage_cmov (secp256k1_ge_to_storage a)
      (secp256k1_ge_to_storage (fst (secp256k1_ge_set_gej (fst (secp256k1_gej_double_var (secp256k1_gej_set_ge a) (secp256k1_gej_set_ge a) None)))))
      (of_bool (skew = 2))))"
  have skew: "skew = 1 \<or> skew = 2" using ds(2) by (simp add: wnaf_const_digits_def)
  have c: "ge_rep 1 (- zmul skew A) c" unfolding c_def by (rule skew_correction [OF a skew])
  have "zmul skew A \<noteq> 0" using skew a(2) no_point_of_order_two [of A] by (auto simp: zmul_2)
  then have "gej_rep 1 (zmul (scalar_val s + skew) A + (- zmul skew A)) (secp256k1_gej_add_ge r' c)"
    by (intro gej_rep_add_ge [OF r' c]) simp
  moreover have "secp256k1_ecmult_const fr tmpa a s = secp256k1_gej_add_ge r' c"
  proof -
    have step: "(\<lambda>rt i. f i (shift rt)) = (\<lambda>(r, tmpa) i.
              let r = foldl (\<lambda>r j. fst (secp256k1_gej_double_nonzero r r None)) r [0..<WINDOW_A - 1];
                  n = ds ! i;
                  tmpa = ECMULT_CONST_TABLE_GET_GE tmpa pre' n WINDOW_A
              in (secp256k1_gej_add_ge r tmpa, tmpa))"
      by (auto simp: f_def shift_def fun_eq_iff Let_def)
    have rt: "rt = (fst rt, snd rt)" by simp
    show ?thesis
      unfolding secp256k1_ecmult_const_def w_def [symmetric] ds(1) t(1) case_prod_conv Let_def
      unfolding N_def [symmetric] pre'_def [symmetric] t0_def [symmetric] step [unfolded Let_def w_def [symmetric], symmetric]
        rt_def [symmetric] c_def [symmetric]
      by (simp add: case_prod_beta r'_def)
  qed
  ultimately show ?thesis by (simp add: zmul_add)
qed

end
