(* ===== verification/Api_Types.thy ===== *)
theory Api_Types
  imports Ecdsa Eckey Ecdsa_Der
begin

text \<open>
  The opaque objects of the public interface (\<open>include/secp256k1.h\<close>, \<open>secp256k1.c\<close>): contexts, public
  keys and signatures as byte arrays, and how the functions load and save them. Both \<open>sizeof\<close> tests of
  the source hold for the limbs of the build, so the objects are copied by \<open>memcpy\<close>, on a little-endian
  target.
\<close>

subsection \<open>Words in memory\<close>

definition u32_bytes :: "u32 \<Rightarrow> u8 list" where
  "u32_bytes w = [ucast w, ucast (drop_bit 8 w), ucast (drop_bit 16 w), ucast (drop_bit 24 w)]"

definition bytes_u32 :: "u8 list \<Rightarrow> nat \<Rightarrow> u32" where
  "bytes_u32 bs i = ucast (bs ! i) OR push_bit 8 (ucast (bs ! (i + 1))) OR
     push_bit 16 (ucast (bs ! (i + 2))) OR push_bit 24 (ucast (bs ! (i + 3)))"

definition scalar_bytes :: "secp256k1_scalar \<Rightarrow> u8 list" where
  "scalar_bytes a = u32_bytes (d_0 a) @ u32_bytes (d_1 a) @ u32_bytes (d_2 a) @ u32_bytes (d_3 a) @
     u32_bytes (d_4 a) @ u32_bytes (d_5 a) @ u32_bytes (d_6 a) @ u32_bytes (d_7 a)"

definition bytes_scalar :: "u8 list \<Rightarrow> nat \<Rightarrow> secp256k1_scalar" where
  "bytes_scalar bs i = \<lparr>d_0 = bytes_u32 bs i, d_1 = bytes_u32 bs (i + 4), d_2 = bytes_u32 bs (i + 8),
     d_3 = bytes_u32 bs (i + 12), d_4 = bytes_u32 bs (i + 16), d_5 = bytes_u32 bs (i + 20),
     d_6 = bytes_u32 bs (i + 24), d_7 = bytes_u32 bs (i + 28)\<rparr>"

definition fe_storage_bytes :: "secp256k1_fe_storage \<Rightarrow> u8 list" where
  "fe_storage_bytes a = u32_bytes (s_0 a) @ u32_bytes (s_1 a) @ u32_bytes (s_2 a) @ u32_bytes (s_3 a) @
     u32_bytes (s_4 a) @ u32_bytes (s_5 a) @ u32_bytes (s_6 a) @ u32_bytes (s_7 a)"

definition bytes_fe_storage :: "u8 list \<Rightarrow> nat \<Rightarrow> secp256k1_fe_storage" where
  "bytes_fe_storage bs i = \<lparr>s_0 = bytes_u32 bs i, s_1 = bytes_u32 bs (i + 4), s_2 = bytes_u32 bs (i + 8),
     s_3 = bytes_u32 bs (i + 12), s_4 = bytes_u32 bs (i + 16), s_5 = bytes_u32 bs (i + 20),
     s_6 = bytes_u32 bs (i + 24), s_7 = bytes_u32 bs (i + 28)\<rparr>"

definition ge_storage_bytes :: "secp256k1_ge_storage \<Rightarrow> u8 list" where
  "ge_storage_bytes a = fe_storage_bytes (gs_x a) @ fe_storage_bytes (gs_y a)"

definition bytes_ge_storage :: "u8 list \<Rightarrow> secp256k1_ge_storage" where
  "bytes_ge_storage bs = \<lparr>gs_x = bytes_fe_storage bs 0, gs_y = bytes_fe_storage bs 32\<rparr>"

lemma length_u32_bytes [simp]: "length (u32_bytes w) = 4"
  by (simp add: u32_bytes_def)

lemma length_bytes [simp]: "length (scalar_bytes a) = 32" "length (fe_storage_bytes s) = 32" "length (ge_storage_bytes g) = 64"
  by (simp_all add: scalar_bytes_def fe_storage_bytes_def ge_storage_bytes_def)

lemma bit_bytes_u32: "bit (bytes_u32 bs i) n \<longleftrightarrow> n < 32 \<and> bit (bs ! (i + n div 8)) (n mod 8)"
proof (cases "n < 32")
  case True
  have far: "\<not> bit (b :: u8) m" if "8 \<le> m" for b m using that bit_imp_le_length [of b m] by auto
  have "bit (bytes_u32 bs i) n \<longleftrightarrow> bit (bs ! i) n \<or> (8 \<le> n \<and> bit (bs ! (i + 1)) (n - 8)) \<or>
      (16 \<le> n \<and> bit (bs ! (i + 2)) (n - 16)) \<or> (24 \<le> n \<and> bit (bs ! (i + 3)) (n - 24))"
    unfolding bytes_u32_def using True
    by (simp only: bit_or_iff bit_push_bit_iff bit_unsigned_iff possible_bit_word len_num0 len_num1 len_bit0) auto
  moreover obtain q m where n: "n = 8 * q + m" "m < 8"
    by (rule that [of "n div 8" "n mod 8"]) simp_all
  moreover have "q = 0 \<or> q = 1 \<or> q = 2 \<or> q = 3" using True n by linarith
  moreover have "n div 8 = q" "n mod 8 = m" using n by simp_all
  ultimately show ?thesis using True by (elim disjE) (simp_all add: far numeral_2_eq_2 numeral_3_eq_3)
qed (auto dest: bit_imp_le_length)

lemma bit_u32_bytes: "k < 4 \<Longrightarrow> m < 8 \<Longrightarrow> bit (u32_bytes w ! k) m = bit w (8 * k + m)"
proof -
  assume "k < 4" "m < 8"
  then consider "k = 0" | "k = 1" | "k = 2" | "k = 3" by linarith
  then show ?thesis using \<open>m < 8\<close>
    by cases (simp_all add: u32_bytes_def bit_unsigned_iff bit_drop_bit_eq add.commute)
qed

lemma bytes_u32_bytes [simp]: "bytes_u32 (u32_bytes w @ bs) 0 = w"
proof (rule bit_word_eqI)
  fix n assume "n < LENGTH(32)"
  then have "n < 32" by simp
  then have "n div 8 < 4" "n mod 8 < 8" by (simp_all add: less_mult_imp_div_less)
  moreover have "u32_bytes w ! (n div 8) = (u32_bytes w @ bs) ! (n div 8)"
    using calculation(1) by (simp only: nth_append length_u32_bytes if_True)
  ultimately show "bit (bytes_u32 (u32_bytes w @ bs) 0) n = bit w n"
    using bit_u32_bytes [of "n div 8" "n mod 8" w] \<open>n < 32\<close> by (simp add: bit_bytes_u32)
qed

lemma bytes_u32_append: "length xs \<le> i \<Longrightarrow> bytes_u32 (xs @ bs) i = bytes_u32 bs (i - length xs)"
  by (simp add: bytes_u32_def nth_append Suc_diff_le)

lemma bytes_u32_take: "i + 4 \<le> n \<Longrightarrow> bytes_u32 (take n bs) i = bytes_u32 bs i"
  by (simp add: bytes_u32_def)

lemma bytes_u32_drop: "i + n + 4 \<le> length bs \<Longrightarrow> bytes_u32 (drop n bs) i = bytes_u32 bs (n + i)"
  by (simp add: bytes_u32_def add_ac)

lemma bytes_scalar_bytes: "bytes_scalar (scalar_bytes a @ bs) 0 = a"
  by (simp add: bytes_scalar_def scalar_bytes_def bytes_u32_append)

lemma bytes_ge_storage_bytes: "bytes_ge_storage (ge_storage_bytes g @ bs) = g"
  by (simp add: bytes_ge_storage_def ge_storage_bytes_def bytes_fe_storage_def fe_storage_bytes_def bytes_u32_append)

subsection \<open>Callbacks\<close>

text \<open>A callback is a function and the pointer it is called with. The default functions print and abort;
  a function of the caller returns. A call of the interface returns its value together with the
  callbacks it made, or aborts, or never returns.\<close>

datatype callback_fn = default_illegal_callback_fn | default_error_callback_fn | caller_fn nat

record secp256k1_callback =
  cb_fn :: callback_fn
  cb_data :: "nat option"

definition default_illegal_callback :: secp256k1_callback where
  "default_illegal_callback = \<lparr>cb_fn = default_illegal_callback_fn, cb_data = None\<rparr>"

definition default_error_callback :: secp256k1_callback where
  "default_error_callback = \<lparr>cb_fn = default_error_callback_fn, cb_data = None\<rparr>"

type_synonym calls = "(secp256k1_callback \<times> string) list"

datatype 'a run = Ret 'a calls | Abort calls | Diverge

primrec log_run :: "calls \<Rightarrow> 'a run \<Rightarrow> 'a run" where
  "log_run l (Ret x l') = Ret x (l @ l')"
| "log_run l (Abort l') = Abort (l @ l')"
| "log_run l Diverge = Diverge"

primrec bind_run :: "'a run \<Rightarrow> ('a \<Rightarrow> 'b run) \<Rightarrow> 'b run" where
  "bind_run (Ret x l) f = log_run l (f x)"
| "bind_run (Abort l) f = Abort l"
| "bind_run Diverge f = Diverge"

definition of_loop :: "'a option \<Rightarrow> 'a run" where
  "of_loop m = (case m of None \<Rightarrow> Diverge | Some x \<Rightarrow> Ret x [])"

definition secp256k1_callback_call :: "secp256k1_callback \<Rightarrow> string \<Rightarrow> unit run" where
  "secp256k1_callback_call cb text =
     (case cb_fn cb of caller_fn _ \<Rightarrow> Ret () [(cb, text)] | _ \<Rightarrow> Abort [(cb, text)])"

lemma log_run_Nil [simp]: "log_run [] m = m"
  by (cases m) simp_all

lemma log_run_append [simp]: "log_run l (log_run l' m) = log_run (l @ l') m"
  by (cases m) simp_all

lemma bind_run_assoc: "bind_run (bind_run m f) g = bind_run m (\<lambda>x. bind_run (f x) g)"
proof (cases m)
  case (Ret x l)
  then show ?thesis by (cases "f x") simp_all
qed simp_all

lemma of_loop_simps [simp]: "of_loop None = Diverge" "of_loop (Some x) = Ret x []"
  by (simp_all add: of_loop_def)

subsection \<open>Contexts\<close>

record secp256k1_context =
  ecmult_ctx :: secp256k1_ecmult_context
  ecmult_gen_ctx :: secp256k1_ecmult_gen_context
  illegal_callback :: secp256k1_callback
  error_callback :: secp256k1_callback

text \<open>The macro that tests an argument: on a failure the callback for illegal arguments is called with
  the text of the condition, and the function returns 0 with its objects as they are.\<close>

definition ARG_CHECK :: "secp256k1_context \<Rightarrow> bool \<Rightarrow> string \<Rightarrow> 'a \<Rightarrow> 'a run \<Rightarrow> 'a run" where
  "ARG_CHECK ctx cond text fail rest =
     (if \<not> cond then bind_run (secp256k1_callback_call (illegal_callback ctx) text) (\<lambda>_. Ret fail []) else rest)"

lemma ARG_CHECK_True [simp]: "ARG_CHECK ctx True text fail rest = rest"
  by (simp add: ARG_CHECK_def)

text \<open>What a failed test gives.\<close>

definition illegal :: "secp256k1_context \<Rightarrow> string \<Rightarrow> 'a \<Rightarrow> 'a run" where
  "illegal ctx text fail = ARG_CHECK ctx False text fail Diverge"

lemma ARG_CHECK_False [simp]: "ARG_CHECK ctx False text fail rest = illegal ctx text fail"
  by (simp add: illegal_def ARG_CHECK_def)

lemma illegal_cases:
  "illegal ctx text fail = Ret fail [(illegal_callback ctx, text)] \<or> illegal ctx text fail = Abort [(illegal_callback ctx, text)]"
  by (cases "cb_fn (illegal_callback ctx)") (simp_all add: illegal_def ARG_CHECK_def secp256k1_callback_call_def)

subsection \<open>Keys and signatures\<close>

record secp256k1_pubkey =
  pubkey_data :: "u8 list"

record secp256k1_ecdsa_signature =
  sig_data :: "u8 list"

abbreviation zero_pubkey :: secp256k1_pubkey where
  "zero_pubkey \<equiv> \<lparr>pubkey_data = replicate 64 0\<rparr>"

abbreviation zero_signature :: secp256k1_ecdsa_signature where
  "zero_signature \<equiv> \<lparr>sig_data = replicate 64 0\<rparr>"

definition secp256k1_pubkey_load :: "secp256k1_context \<Rightarrow> secp256k1_pubkey \<Rightarrow> (bool \<times> secp256k1_ge) run" where
  "secp256k1_pubkey_load ctx pubkey =
     (let s = bytes_ge_storage (take 64 (pubkey_data pubkey));
          ge = secp256k1_ge_from_storage s
      in ARG_CHECK ctx (\<not> secp256k1_fe_is_zero (ge_x ge)) ''!secp256k1_fe_is_zero(&ge->x)'' (False, ge)
           (Ret (True, ge) []))"

definition secp256k1_pubkey_save :: "secp256k1_pubkey \<Rightarrow> secp256k1_ge \<Rightarrow> secp256k1_pubkey" where
  "secp256k1_pubkey_save pubkey ge =
     (let s = secp256k1_ge_to_storage ge
      in pubkey\<lparr>pubkey_data := buf_write (pubkey_data pubkey) 0 (ge_storage_bytes s)\<rparr>)"

definition secp256k1_ecdsa_signature_load :: "secp256k1_ecdsa_signature \<Rightarrow> secp256k1_scalar \<times> secp256k1_scalar" where
  "secp256k1_ecdsa_signature_load sig = (bytes_scalar (sig_data sig) 0, bytes_scalar (sig_data sig) 32)"

definition secp256k1_ecdsa_signature_save ::
  "secp256k1_ecdsa_signature \<Rightarrow> secp256k1_scalar \<Rightarrow> secp256k1_scalar \<Rightarrow> secp256k1_ecdsa_signature" where
  "secp256k1_ecdsa_signature_save sig r s =
     sig\<lparr>sig_data := buf_write (buf_write (sig_data sig) 0 (scalar_bytes r)) 32 (scalar_bytes s)\<rparr>"

text \<open>A key object that holds a point, and a signature object that holds two scalars.\<close>

definition pubkey_rep :: "epoint \<Rightarrow> secp256k1_pubkey \<Rightarrow> bool" where
  "pubkey_rep P pk \<longleftrightarrow> length (pubkey_data pk) = 64 \<and> gs_rep P (bytes_ge_storage (pubkey_data pk))"

definition sig_rep :: "int \<Rightarrow> int \<Rightarrow> secp256k1_ecdsa_signature \<Rightarrow> bool" where
  "sig_rep r s sig \<longleftrightarrow> length (sig_data sig) = 64 \<and> 0 \<le> r \<and> r < secp256k1_n \<and> 0 \<le> s \<and> s < secp256k1_n \<and>
     scalar_val (bytes_scalar (sig_data sig) 0) = r \<and> scalar_val (bytes_scalar (sig_data sig) 32) = s"

lemma pubkey_rep_nonzero: "pubkey_rep P pk \<Longrightarrow> P \<noteq> 0"
  using gs_rep_nonzero by (auto simp: pubkey_rep_def)

lemma ge_x_nonzero:
  assumes "ge_rep 1 P ge" and "P \<noteq> 0"
  shows "\<not> secp256k1_fe_is_zero (ge_x ge)"
proof
  assume "secp256k1_fe_is_zero (ge_x ge)"
  then have "fe_abs (ge_x ge) = gf 0" by (simp add: secp256k1_fe_is_zero_iff fe_abs_def)
  moreover have "fe_abs (ge_x ge) = gf (x_of P)" using ge_rep_coords(1) [OF assms] by (simp add: fe_rep_def)
  ultimately have "gf_val (gf (x_of P)) = gf_val (gf 0)" by simp
  then show False using x_of_nonzero [OF assms(2)] x_of_bounds [of P] by (simp add: gf_val_gf)
qed

text \<open>The two directions of the copy of a key.\<close>

lemma pubkey_load_rep:
  assumes "pubkey_rep P pk"
  obtains ge where "secp256k1_pubkey_load ctx pk = Ret (True, ge) []" "ge_rep 1 P ge"
proof -
  define ge where "ge = secp256k1_ge_from_storage (bytes_ge_storage (take 64 (pubkey_data pk)))"
  have ge: "ge_rep 1 P ge" using assms by (simp add: pubkey_rep_def gs_rep_def ge_def)
  have "secp256k1_pubkey_load ctx pk = Ret (True, ge) []"
    using ge_x_nonzero [OF ge pubkey_rep_nonzero [OF assms]]
    by (simp add: secp256k1_pubkey_load_def ge_def [symmetric])
  then show thesis using ge by (rule that)
qed

lemma pubkey_save_rep:
  assumes "ge_rep 1 P ge" and "P \<noteq> 0" and "length (pubkey_data pk) = 64"
  shows "pubkey_rep P (secp256k1_pubkey_save pk ge)"
  using gs_rep_to_storage [OF assms(1,2)] assms(3) bytes_ge_storage_bytes [where bs = "[]"]
  by (simp add: pubkey_rep_def secp256k1_pubkey_save_def buf_write_def)

lemma fe_from_storage_zero: "secp256k1_fe_is_zero (secp256k1_fe_from_storage \<lparr>s_0 = 0, s_1 = 0, s_2 = 0, s_3 = 0, s_4 = 0, s_5 = 0, s_6 = 0, s_7 = 0\<rparr>)"
  by (simp add: secp256k1_fe_is_zero_def secp256k1_fe_from_storage_def)

lemma zero_pubkey_load:
  "\<exists>ge. secp256k1_pubkey_load ctx zero_pubkey = illegal ctx ''!secp256k1_fe_is_zero(&ge->x)'' (False, ge)"
  by (intro exI) (simp add: secp256k1_pubkey_load_def bytes_ge_storage_def bytes_fe_storage_def bytes_u32_def
      secp256k1_ge_from_storage_def fe_from_storage_zero)

lemma sig_load_rep:
  assumes "sig_rep r s sig"
  obtains r' s' where "secp256k1_ecdsa_signature_load sig = (r', s')" "scalar_ok r'" "scalar_ok s'"
    "scalar_val r' = r" "scalar_val s' = s"
proof -
  define a b where "a = bytes_scalar (sig_data sig) 0" and "b = bytes_scalar (sig_data sig) 32"
  have "secp256k1_ecdsa_signature_load sig = (a, b)" by (simp add: secp256k1_ecdsa_signature_load_def a_def b_def)
  then show thesis using assms by (intro that [of a b]) (simp_all add: sig_rep_def a_def b_def scalar_ok_def)
qed

lemma bytes_scalar_append: "length xs \<le> i \<Longrightarrow> bytes_scalar (xs @ bs) i = bytes_scalar bs (i - length xs)"
  by (simp add: bytes_scalar_def bytes_u32_append)

lemma bytes_scalar_at_0: "bytes_scalar (scalar_bytes a) 0 = a"
  using bytes_scalar_bytes [of a "[]"] by simp

lemma sig_save_load:
  assumes "length (sig_data sig) = 64"
  shows "secp256k1_ecdsa_signature_load (secp256k1_ecdsa_signature_save sig r s) = (r, s)"
    and "length (sig_data (secp256k1_ecdsa_signature_save sig r s)) = 64"
  using assms by (simp_all add: secp256k1_ecdsa_signature_load_def secp256k1_ecdsa_signature_save_def buf_write_def
      bytes_scalar_bytes bytes_scalar_append bytes_scalar_at_0)

lemma sig_save_rep:
  assumes "scalar_ok r" and "scalar_ok s" and "length (sig_data sig) = 64"
  shows "sig_rep (scalar_val r) (scalar_val s) (secp256k1_ecdsa_signature_save sig r s)"
  using sig_save_load [OF assms(3), of r s] assms(1,2)
  by (simp add: sig_rep_def secp256k1_ecdsa_signature_load_def scalar_ok_def)

end
