(* ===== verification/Secp256k1.thy ===== *)
theory Secp256k1
  imports Api_Types Hash
begin

text \<open>
  The functions of the public interface (\<open>secp256k1.c\<close>). A pointer that may be \<open>NULL\<close> is an option; the
  objects a function writes are returned with its value, also where it returns after a failed test of
  an argument. The objects passed for output are distinct from those passed for input. Uninitialised
  locals are arguments, as in the layers below.
\<close>

subsection \<open>Flags\<close>

definition SECP256K1_FLAGS_TYPE_MASK :: u32 where "SECP256K1_FLAGS_TYPE_MASK = push_bit 8 1 - 1"
definition SECP256K1_FLAGS_TYPE_CONTEXT :: u32 where "SECP256K1_FLAGS_TYPE_CONTEXT = push_bit 0 1"
definition SECP256K1_FLAGS_TYPE_COMPRESSION :: u32 where "SECP256K1_FLAGS_TYPE_COMPRESSION = push_bit 1 1"
definition SECP256K1_FLAGS_BIT_CONTEXT_VERIFY :: u32 where "SECP256K1_FLAGS_BIT_CONTEXT_VERIFY = push_bit 8 1"
definition SECP256K1_FLAGS_BIT_CONTEXT_SIGN :: u32 where "SECP256K1_FLAGS_BIT_CONTEXT_SIGN = push_bit 9 1"
definition SECP256K1_FLAGS_BIT_COMPRESSION :: u32 where "SECP256K1_FLAGS_BIT_COMPRESSION = push_bit 8 1"

definition SECP256K1_CONTEXT_VERIFY :: u32 where
  "SECP256K1_CONTEXT_VERIFY = SECP256K1_FLAGS_TYPE_CONTEXT OR SECP256K1_FLAGS_BIT_CONTEXT_VERIFY"
definition SECP256K1_CONTEXT_SIGN :: u32 where
  "SECP256K1_CONTEXT_SIGN = SECP256K1_FLAGS_TYPE_CONTEXT OR SECP256K1_FLAGS_BIT_CONTEXT_SIGN"
definition SECP256K1_CONTEXT_NONE :: u32 where
  "SECP256K1_CONTEXT_NONE = SECP256K1_FLAGS_TYPE_CONTEXT"
definition SECP256K1_EC_COMPRESSED :: u32 where
  "SECP256K1_EC_COMPRESSED = SECP256K1_FLAGS_TYPE_COMPRESSION OR SECP256K1_FLAGS_BIT_COMPRESSION"
definition SECP256K1_EC_UNCOMPRESSED :: u32 where
  "SECP256K1_EC_UNCOMPRESSED = SECP256K1_FLAGS_TYPE_COMPRESSION"

subsection \<open>Contexts\<close>

text \<open>The memory the two builders work in: the blocks they allocate and their uninitialised locals.\<close>

record build_frame =
  bf_d :: secp256k1_gej
  bf_prej :: "secp256k1_gej list"
  bf_zr :: "secp256k1_fe list"
  bf_prea :: "secp256k1_ge list"
  bf_mem :: "secp256k1_ge_storage list"
  bf_precj :: "secp256k1_gej list"
  bf_azi :: "secp256k1_fe list"
  bf_gpre :: "secp256k1_ge list"
  bf_gmem :: "secp256k1_ge_storage list list"
  bf_sha :: secp256k1_sha256_t
  bf_hmac :: secp256k1_hmac_sha256_t

definition secp256k1_context_create :: "build_frame \<Rightarrow> secp256k1_context \<Rightarrow> u32 \<Rightarrow> secp256k1_context option run" where
  "secp256k1_context_create bf mem flags =
     (let ret = mem\<lparr>illegal_callback := default_illegal_callback, error_callback := default_error_callback\<rparr>
      in if flags AND SECP256K1_FLAGS_TYPE_MASK \<noteq> SECP256K1_FLAGS_TYPE_CONTEXT
         then bind_run (secp256k1_callback_call (illegal_callback ret) ''Invalid flags'') (\<lambda>_. Ret None [])
         else (let ret = ret\<lparr>ecmult_ctx := secp256k1_ecmult_context_init\<rparr>;
                   ret = ret\<lparr>ecmult_gen_ctx := secp256k1_ecmult_gen_context_init (ecmult_gen_ctx ret)\<rparr>
               in bind_run
                 (if flags AND SECP256K1_FLAGS_BIT_CONTEXT_SIGN \<noteq> 0
                  then bind_run (of_loop (secp256k1_ecmult_gen_context_build (bf_precj bf) (bf_azi bf) (bf_gpre bf)
                                   (bf_gmem bf) (bf_sha bf) (bf_hmac bf) (ecmult_gen_ctx ret)))
                         (\<lambda>g. Ret (ret\<lparr>ecmult_gen_ctx := g\<rparr>) [])
                  else Ret ret [])
                 (\<lambda>ret. Ret (Some
                    (if flags AND SECP256K1_FLAGS_BIT_CONTEXT_VERIFY \<noteq> 0
                     then ret\<lparr>ecmult_ctx := secp256k1_ecmult_context_build (bf_d bf) (bf_prej bf) (bf_zr bf)
                            (bf_prea bf) (bf_mem bf) (ecmult_ctx ret)\<rparr>
                     else ret)) [])))"

definition secp256k1_context_clone :: "secp256k1_context \<Rightarrow> secp256k1_context \<Rightarrow> secp256k1_context" where
  "secp256k1_context_clone mem ctx =
     (let ret = mem\<lparr>illegal_callback := illegal_callback ctx\<rparr>;
          ret = ret\<lparr>error_callback := error_callback ctx\<rparr>;
          ret = ret\<lparr>ecmult_ctx := secp256k1_ecmult_context_clone (ecmult_ctx ret) (ecmult_ctx ctx)\<rparr>;
          ret = ret\<lparr>ecmult_gen_ctx := secp256k1_ecmult_gen_context_clone (ecmult_gen_ctx ret) (ecmult_gen_ctx ctx)\<rparr>
      in ret)"

text \<open>What the memory of the context holds when it is freed.\<close>

definition secp256k1_context_destroy :: "secp256k1_context option \<Rightarrow> secp256k1_context option" where
  "secp256k1_context_destroy ctx =
     (case ctx of None \<Rightarrow> None
      | Some ctx \<Rightarrow>
          (let ctx = ctx\<lparr>ecmult_ctx := secp256k1_ecmult_context_clear (ecmult_ctx ctx)\<rparr>
           in Some (ctx\<lparr>ecmult_gen_ctx := secp256k1_ecmult_gen_context_clear (ecmult_gen_ctx ctx)\<rparr>)))"

definition secp256k1_context_set_illegal_callback ::
  "secp256k1_context \<Rightarrow> callback_fn option \<Rightarrow> nat option \<Rightarrow> secp256k1_context" where
  "secp256k1_context_set_illegal_callback ctx fn data =
     (let fn = (case fn of None \<Rightarrow> default_illegal_callback_fn | Some f \<Rightarrow> f)
      in ctx\<lparr>illegal_callback := \<lparr>cb_fn = fn, cb_data = data\<rparr>\<rparr>)"

definition secp256k1_context_set_error_callback ::
  "secp256k1_context \<Rightarrow> callback_fn option \<Rightarrow> nat option \<Rightarrow> secp256k1_context" where
  "secp256k1_context_set_error_callback ctx fn data =
     (let fn = (case fn of None \<Rightarrow> default_error_callback_fn | Some f \<Rightarrow> f)
      in ctx\<lparr>error_callback := \<lparr>cb_fn = fn, cb_data = data\<rparr>\<rparr>)"

definition secp256k1_context_randomize ::
  "secp256k1_sha256_t \<Rightarrow> secp256k1_hmac_sha256_t \<Rightarrow> secp256k1_context \<Rightarrow> u8 list option \<Rightarrow> (bool \<times> secp256k1_context) run" where
  "secp256k1_context_randomize sha256 hmac ctx seed32 =
     ARG_CHECK ctx (secp256k1_ecmult_gen_context_is_built (ecmult_gen_ctx ctx))
       ''secp256k1_ecmult_gen_context_is_built(&ctx->ecmult_gen_ctx)'' (False, ctx)
       (bind_run (of_loop (secp256k1_ecmult_gen_blind sha256 hmac (ecmult_gen_ctx ctx) seed32))
          (\<lambda>g. Ret (True, ctx\<lparr>ecmult_gen_ctx := g\<rparr>) []))"

subsection \<open>Public keys\<close>

definition secp256k1_ec_pubkey_parse ::
  "secp256k1_ge \<Rightarrow> secp256k1_context \<Rightarrow> secp256k1_pubkey option \<Rightarrow> u8 list option \<Rightarrow> (bool \<times> secp256k1_pubkey option) run" where
  "secp256k1_ec_pubkey_parse Q ctx pubkey input =
     ARG_CHECK ctx (pubkey \<noteq> None) ''pubkey != NULL'' (False, pubkey)
      (let pubkey = zero_pubkey
       in ARG_CHECK ctx (input \<noteq> None) ''input != NULL'' (False, Some pubkey)
           (let (Q, ok) = secp256k1_eckey_pubkey_parse Q (the input)
            in if \<not> ok then Ret (False, Some pubkey) []
               else Ret (True, Some (secp256k1_pubkey_save pubkey Q)) []))"

definition secp256k1_ec_pubkey_serialize ::
  "secp256k1_context \<Rightarrow> u8 list option \<Rightarrow> nat option \<Rightarrow> secp256k1_pubkey option \<Rightarrow> u32 \<Rightarrow>
   (bool \<times> u8 list option \<times> nat option) run" where
  "secp256k1_ec_pubkey_serialize ctx output outputlen pubkey flags =
     ARG_CHECK ctx (outputlen \<noteq> None) ''outputlen != NULL'' (False, output, outputlen)
      (ARG_CHECK ctx (the outputlen \<ge> (if flags AND SECP256K1_FLAGS_BIT_COMPRESSION \<noteq> 0 then 33 else 65))
         ''*outputlen >= ((flags & SECP256K1_FLAGS_BIT_COMPRESSION) ? 33 : 65)'' (False, output, outputlen)
       (let len = the outputlen;
            outputlen = Some 0
        in ARG_CHECK ctx (output \<noteq> None) ''output != NULL'' (False, output, outputlen)
         (let output = buf_write (the output) 0 (replicate len 0)
          in ARG_CHECK ctx (pubkey \<noteq> None) ''pubkey != NULL'' (False, Some output, outputlen)
           (ARG_CHECK ctx (flags AND SECP256K1_FLAGS_TYPE_MASK = SECP256K1_FLAGS_TYPE_COMPRESSION)
              ''(flags & SECP256K1_FLAGS_TYPE_MASK) == SECP256K1_FLAGS_TYPE_COMPRESSION'' (False, Some output, outputlen)
            (bind_run (secp256k1_pubkey_load ctx (the pubkey)) (\<lambda>(ok, Q).
               if ok
               then (let (Q, output, len, ret) = secp256k1_eckey_pubkey_serialize Q output len
                           (flags AND SECP256K1_FLAGS_BIT_COMPRESSION \<noteq> 0)
                     in Ret (ret, Some output, if ret then Some len else outputlen) [])
               else Ret (False, Some output, outputlen) []))))))"

definition secp256k1_ec_seckey_verify :: "secp256k1_context \<Rightarrow> u8 list option \<Rightarrow> bool run" where
  "secp256k1_ec_seckey_verify ctx seckey =
     ARG_CHECK ctx (seckey \<noteq> None) ''seckey != NULL'' False
      (let (sec, overflow) = secp256k1_scalar_set_b32 (the seckey)
       in Ret (overflow = 0 \<and> \<not> secp256k1_scalar_is_zero sec) [])"

definition secp256k1_ec_pubkey_create ::
  "secp256k1_context \<Rightarrow> secp256k1_pubkey option \<Rightarrow> u8 list option \<Rightarrow> (bool \<times> secp256k1_pubkey option) run" where
  "secp256k1_ec_pubkey_create ctx pubkey seckey =
     ARG_CHECK ctx (pubkey \<noteq> None) ''pubkey != NULL'' (False, pubkey)
      (let pubkey = zero_pubkey
       in ARG_CHECK ctx (secp256k1_ecmult_gen_context_is_built (ecmult_gen_ctx ctx))
            ''secp256k1_ecmult_gen_context_is_built(&ctx->ecmult_gen_ctx)'' (False, Some pubkey)
        (ARG_CHECK ctx (seckey \<noteq> None) ''seckey != NULL'' (False, Some pubkey)
         (let (sec, overflow) = secp256k1_scalar_set_b32 (the seckey);
              ret = (overflow = 0 \<and> \<not> secp256k1_scalar_is_zero sec)
          in if ret
             then (let pj = secp256k1_ecmult_gen (ecmult_gen_ctx ctx) sec;
                       p = fst (secp256k1_ge_set_gej pj)
                   in Ret (ret, Some (secp256k1_pubkey_save pubkey p)) [])
             else Ret (ret, Some pubkey) [])))"

definition secp256k1_ec_privkey_tweak_add ::
  "secp256k1_context \<Rightarrow> u8 list option \<Rightarrow> u8 list option \<Rightarrow> (bool \<times> u8 list option) run" where
  "secp256k1_ec_privkey_tweak_add ctx seckey tweak =
     ARG_CHECK ctx (seckey \<noteq> None) ''seckey != NULL'' (False, seckey)
      (ARG_CHECK ctx (tweak \<noteq> None) ''tweak != NULL'' (False, seckey)
       (let (trm, overflow) = secp256k1_scalar_set_b32 (the tweak);
            sec = fst (secp256k1_scalar_set_b32 (the seckey));
            (sec, ret) = (if overflow = 0 then secp256k1_eckey_privkey_tweak_add sec trm else (sec, False));
            seckey = buf_write (the seckey) 0 (replicate 32 0)
        in Ret (ret, Some (if ret then buf_write seckey 0 (secp256k1_scalar_get_b32 sec) else seckey)) []))"

definition secp256k1_ec_pubkey_tweak_add ::
  "ecmult_frame \<Rightarrow> secp256k1_ge \<Rightarrow> secp256k1_context \<Rightarrow> secp256k1_pubkey option \<Rightarrow> u8 list option \<Rightarrow>
   (bool \<times> secp256k1_pubkey option) run" where
  "secp256k1_ec_pubkey_tweak_add fr p ctx pubkey tweak =
     ARG_CHECK ctx (secp256k1_ecmult_context_is_built (ecmult_ctx ctx))
       ''secp256k1_ecmult_context_is_built(&ctx->ecmult_ctx)'' (False, pubkey)
      (ARG_CHECK ctx (pubkey \<noteq> None) ''pubkey != NULL'' (False, pubkey)
       (ARG_CHECK ctx (tweak \<noteq> None) ''tweak != NULL'' (False, pubkey)
        (let (trm, overflow) = secp256k1_scalar_set_b32 (the tweak)
         in bind_run (if overflow = 0 then secp256k1_pubkey_load ctx (the pubkey) else Ret (False, p) [])
           (\<lambda>(ret, p). let pubkey = zero_pubkey
              in if ret
                 then (let (p, ok) = secp256k1_eckey_pubkey_tweak_add fr (ecmult_ctx ctx) p trm
                       in if ok then Ret (True, Some (secp256k1_pubkey_save pubkey p)) []
                          else Ret (False, Some pubkey) [])
                 else Ret (False, Some pubkey) []))))"

definition secp256k1_ec_privkey_tweak_mul ::
  "secp256k1_context \<Rightarrow> u8 list option \<Rightarrow> u8 list option \<Rightarrow> (bool \<times> u8 list option) run" where
  "secp256k1_ec_privkey_tweak_mul ctx seckey tweak =
     ARG_CHECK ctx (seckey \<noteq> None) ''seckey != NULL'' (False, seckey)
      (ARG_CHECK ctx (tweak \<noteq> None) ''tweak != NULL'' (False, seckey)
       (let (fac, overflow) = secp256k1_scalar_set_b32 (the tweak);
            sec = fst (secp256k1_scalar_set_b32 (the seckey));
            (sec, ret) = (if overflow = 0 then secp256k1_eckey_privkey_tweak_mul sec fac else (sec, False));
            seckey = buf_write (the seckey) 0 (replicate 32 0)
        in Ret (ret, Some (if ret then buf_write seckey 0 (secp256k1_scalar_get_b32 sec) else seckey)) []))"

definition secp256k1_ec_pubkey_tweak_mul ::
  "ecmult_frame \<Rightarrow> secp256k1_ge \<Rightarrow> secp256k1_context \<Rightarrow> secp256k1_pubkey option \<Rightarrow> u8 list option \<Rightarrow>
   (bool \<times> secp256k1_pubkey option) run" where
  "secp256k1_ec_pubkey_tweak_mul fr p ctx pubkey tweak =
     ARG_CHECK ctx (secp256k1_ecmult_context_is_built (ecmult_ctx ctx))
       ''secp256k1_ecmult_context_is_built(&ctx->ecmult_ctx)'' (False, pubkey)
      (ARG_CHECK ctx (pubkey \<noteq> None) ''pubkey != NULL'' (False, pubkey)
       (ARG_CHECK ctx (tweak \<noteq> None) ''tweak != NULL'' (False, pubkey)
        (let (fac, overflow) = secp256k1_scalar_set_b32 (the tweak)
         in bind_run (if overflow = 0 then secp256k1_pubkey_load ctx (the pubkey) else Ret (False, p) [])
           (\<lambda>(ret, p). let pubkey = zero_pubkey
              in if ret
                 then (let (p, ok) = secp256k1_eckey_pubkey_tweak_mul fr (ecmult_ctx ctx) p fac
                       in if ok then Ret (True, Some (secp256k1_pubkey_save pubkey p)) []
                          else Ret (False, Some pubkey) [])
                 else Ret (False, Some pubkey) []))))"

text \<open>The sum of keys: every key is loaded and added, whether its test succeeds or not.\<close>

fun pubkey_combine_loop :: "secp256k1_context \<Rightarrow> secp256k1_gej \<Rightarrow> secp256k1_pubkey list \<Rightarrow> secp256k1_gej run" where
  "pubkey_combine_loop ctx Qj [] = Ret Qj []"
| "pubkey_combine_loop ctx Qj (pk # pks) =
     bind_run (secp256k1_pubkey_load ctx pk) (\<lambda>(_, Q). pubkey_combine_loop ctx (secp256k1_gej_add_ge Qj Q) pks)"

definition secp256k1_ec_pubkey_combine ::
  "secp256k1_context \<Rightarrow> secp256k1_pubkey option \<Rightarrow> secp256k1_pubkey list option \<Rightarrow> nat \<Rightarrow>
   (bool \<times> secp256k1_pubkey option) run" where
  "secp256k1_ec_pubkey_combine ctx pubnonce pubnonces n =
     ARG_CHECK ctx (pubnonce \<noteq> None) ''pubnonce != NULL'' (False, pubnonce)
      (let pubnonce = zero_pubkey
       in ARG_CHECK ctx (n \<ge> 1) ''n >= 1'' (False, Some pubnonce)
        (ARG_CHECK ctx (pubnonces \<noteq> None) ''pubnonces != NULL'' (False, Some pubnonce)
         (bind_run (pubkey_combine_loop ctx secp256k1_gej_set_infinity (take n (the pubnonces))) (\<lambda>Qj.
            if secp256k1_gej_is_infinity Qj then Ret (False, Some pubnonce) []
            else (let Q = fst (secp256k1_ge_set_gej Qj)
                  in Ret (True, Some (secp256k1_pubkey_save pubnonce Q)) [])))))"

subsection \<open>Signatures\<close>

text \<open>The parser has no value for an access outside its input, which never happens.\<close>

definition secp256k1_ecdsa_signature_parse_der ::
  "secp256k1_context \<Rightarrow> secp256k1_ecdsa_signature option \<Rightarrow> u8 list option \<Rightarrow> (bool \<times> secp256k1_ecdsa_signature option) run" where
  "secp256k1_ecdsa_signature_parse_der ctx sig input =
     ARG_CHECK ctx (sig \<noteq> None) ''sig != NULL'' (False, sig)
      (ARG_CHECK ctx (input \<noteq> None) ''input != NULL'' (False, sig)
       (bind_run (of_loop (secp256k1_ecdsa_sig_parse (the input))) (\<lambda>rs. case rs of
          Some (r, s) \<Rightarrow> Ret (True, Some (secp256k1_ecdsa_signature_save (the sig) r s)) []
        | None \<Rightarrow> Ret (False, Some zero_signature) [])))"

definition secp256k1_ecdsa_signature_parse_compact ::
  "secp256k1_context \<Rightarrow> secp256k1_ecdsa_signature option \<Rightarrow> u8 list option \<Rightarrow>
   (bool \<times> secp256k1_ecdsa_signature option) run" where
  "secp256k1_ecdsa_signature_parse_compact ctx sig input64 =
     ARG_CHECK ctx (sig \<noteq> None) ''sig != NULL'' (False, sig)
      (ARG_CHECK ctx (input64 \<noteq> None) ''input64 != NULL'' (False, sig)
       (let (r, overflow) = secp256k1_scalar_set_b32 (take 32 (the input64));
            ret = (overflow = 0);
            (s, overflow) = secp256k1_scalar_set_b32 (take 32 (drop 32 (the input64)));
            ret = (ret \<and> overflow = 0)
        in Ret (ret, Some (if ret then secp256k1_ecdsa_signature_save (the sig) r s else zero_signature)) []))"

definition secp256k1_ecdsa_signature_serialize_der ::
  "secp256k1_context \<Rightarrow> u8 list option \<Rightarrow> nat option \<Rightarrow> secp256k1_ecdsa_signature option \<Rightarrow>
   (bool \<times> u8 list option \<times> nat option) run" where
  "secp256k1_ecdsa_signature_serialize_der ctx output outputlen sig =
     ARG_CHECK ctx (output \<noteq> None) ''output != NULL'' (False, output, outputlen)
      (ARG_CHECK ctx (outputlen \<noteq> None) ''outputlen != NULL'' (False, output, outputlen)
       (ARG_CHECK ctx (sig \<noteq> None) ''sig != NULL'' (False, output, outputlen)
        (let (r, s) = secp256k1_ecdsa_signature_load (the sig);
             (ret, len, out) = secp256k1_ecdsa_sig_serialize (the output) (the outputlen) r s
         in Ret (ret, Some out, Some len) [])))"

definition secp256k1_ecdsa_signature_serialize_compact ::
  "secp256k1_context \<Rightarrow> u8 list option \<Rightarrow> secp256k1_ecdsa_signature option \<Rightarrow> (bool \<times> u8 list option) run" where
  "secp256k1_ecdsa_signature_serialize_compact ctx output64 sig =
     ARG_CHECK ctx (output64 \<noteq> None) ''output64 != NULL'' (False, output64)
      (ARG_CHECK ctx (sig \<noteq> None) ''sig != NULL'' (False, output64)
       (let (r, s) = secp256k1_ecdsa_signature_load (the sig);
            output64 = buf_write (the output64) 0 (secp256k1_scalar_get_b32 r);
            output64 = buf_write output64 32 (secp256k1_scalar_get_b32 s)
        in Ret (True, Some output64) []))"

definition secp256k1_ecdsa_signature_normalize ::
  "secp256k1_context \<Rightarrow> secp256k1_ecdsa_signature option \<Rightarrow> secp256k1_ecdsa_signature option \<Rightarrow>
   (bool \<times> secp256k1_ecdsa_signature option) run" where
  "secp256k1_ecdsa_signature_normalize ctx sigout sigin =
     ARG_CHECK ctx (sigin \<noteq> None) ''sigin != NULL'' (False, sigout)
      (let (r, s) = secp256k1_ecdsa_signature_load (the sigin);
           ret = (secp256k1_scalar_is_high s \<noteq> 0)
       in case sigout of
            Some out \<Rightarrow>
              (let s = (if ret then secp256k1_scalar_negate s else s)
               in Ret (ret, Some (secp256k1_ecdsa_signature_save out r s)) [])
          | None \<Rightarrow> Ret (ret, None) [])"

definition secp256k1_ecdsa_verify ::
  "ecmult_frame \<Rightarrow> secp256k1_context \<Rightarrow> secp256k1_ecdsa_signature option \<Rightarrow> u8 list option \<Rightarrow> secp256k1_pubkey option \<Rightarrow>
   bool run" where
  "secp256k1_ecdsa_verify fr ctx sig msg32 pubkey =
     ARG_CHECK ctx (secp256k1_ecmult_context_is_built (ecmult_ctx ctx))
       ''secp256k1_ecmult_context_is_built(&ctx->ecmult_ctx)'' False
      (ARG_CHECK ctx (msg32 \<noteq> None) ''msg32 != NULL'' False
       (ARG_CHECK ctx (sig \<noteq> None) ''sig != NULL'' False
        (ARG_CHECK ctx (pubkey \<noteq> None) ''pubkey != NULL'' False
         (let m = fst (secp256k1_scalar_set_b32 (the msg32));
              (r, s) = secp256k1_ecdsa_signature_load (the sig)
          in if secp256k1_scalar_is_high s \<noteq> 0 then Ret False []
             else bind_run (secp256k1_pubkey_load ctx (the pubkey)) (\<lambda>(ok, q).
                    if ok then Ret (secp256k1_ecdsa_sig_verify fr (ecmult_ctx ctx) r s q m) []
                    else Ret False [])))))"

subsection \<open>Nonces\<close>

text \<open>The loop \<open>for (i = 0; i <= counter; i++)\<close> over unsigned integers, which draws the candidates up to
  the one that is asked for.\<close>

partial_function (option) nonce_loop ::
  "('g \<Rightarrow> 'g \<times> u8 list) \<Rightarrow> u32 \<Rightarrow> u32 \<Rightarrow> 'g \<Rightarrow> u8 list \<Rightarrow> ('g \<times> u8 list) option" where
  "nonce_loop generate counter i rng nonce32 =
     (if i \<le> counter
      then (let (rng, nonce32) = generate rng in nonce_loop generate counter (i + 1) rng nonce32)
      else Some (rng, nonce32))"

type_synonym nonce_function =
  "u8 list \<Rightarrow> u8 list \<Rightarrow> u8 list \<Rightarrow> u8 list option \<Rightarrow> u8 list option \<Rightarrow> u32 \<Rightarrow> (u8 list \<times> bool) option"

definition nonce_function_rfc6979 :: "secp256k1_sha256_t \<Rightarrow> secp256k1_hmac_sha256_t \<Rightarrow> u8 list \<Rightarrow> nonce_function" where
  "nonce_function_rfc6979 sha256 hmac keydata nonce32 msg32 key32 algo16 data counter =
     (let keydata = buf_write keydata 0 (take 32 key32);
          keydata = buf_write keydata 32 (take 32 msg32);
          (keydata, keylen) = (case data of None \<Rightarrow> (keydata, 64)
                                | Some data \<Rightarrow> (buf_write keydata 64 (take 32 data), 96));
          (keydata, keylen) = (case algo16 of None \<Rightarrow> (keydata, keylen)
                                | Some algo \<Rightarrow> (buf_write keydata keylen (take 16 algo), keylen + 16));
          rng = secp256k1_rfc6979_hmac_sha256_initialize sha256 hmac (take keylen keydata)
      in map_option (\<lambda>(rng, nonce32). (nonce32, True))
           (nonce_loop (\<lambda>rng. secp256k1_rfc6979_hmac_sha256_generate sha256 hmac rng 32) counter 0 rng nonce32))"

definition secp256k1_nonce_function_default ::
  "secp256k1_sha256_t \<Rightarrow> secp256k1_hmac_sha256_t \<Rightarrow> u8 list \<Rightarrow> nonce_function" where
  "secp256k1_nonce_function_default = nonce_function_rfc6979"

subsection \<open>Signing\<close>

text \<open>The loop of both signing functions: a nonce is asked for with a growing counter until the function
  that makes them fails (\<open>Some None\<close>) or the attempt with the nonce succeeds.\<close>

partial_function (option) sign_loop ::
  "(u8 list \<Rightarrow> u32 \<Rightarrow> (u8 list \<times> bool) option) \<Rightarrow> (u8 list \<Rightarrow> 'v option) \<Rightarrow> u8 list \<Rightarrow> u32 \<Rightarrow> 'v option option" where
  "sign_loop noncefp attempt nonce32 count =
     Option.bind (noncefp nonce32 count) (\<lambda>(nonce32, ret).
       if \<not> ret then Some None
       else (case attempt nonce32 of
               Some v \<Rightarrow> Some (Some v)
             | None \<Rightarrow> sign_loop noncefp attempt nonce32 (count + 1)))"

definition sign_attempt ::
  "secp256k1_ecmult_gen_context \<Rightarrow> secp256k1_scalar \<Rightarrow> secp256k1_scalar \<Rightarrow> int option \<Rightarrow> u8 list \<Rightarrow>
   (secp256k1_scalar \<times> secp256k1_scalar \<times> int option) option" where
  "sign_attempt ctx sec msg recid nonce32 =
     (let (non, overflow) = secp256k1_scalar_set_b32 nonce32
      in if overflow = 0 \<and> \<not> secp256k1_scalar_is_zero non
         then (let (r, s, recid, ok) = secp256k1_ecdsa_sig_sign ctx sec msg non recid
               in if ok then Some (r, s, recid) else None)
         else None)"

text \<open>What the two functions share: \<open>None\<close> is the value 0 of \<open>ret\<close>.\<close>

definition sign_with_key ::
  "secp256k1_ecmult_gen_context \<Rightarrow> nonce_function \<Rightarrow> u8 list \<Rightarrow> u8 list \<Rightarrow> u8 list \<Rightarrow> u8 list option \<Rightarrow> int option \<Rightarrow>
   (secp256k1_scalar \<times> secp256k1_scalar \<times> int option) option option" where
  "sign_with_key ctx noncefp nonce32 msg32 seckey noncedata recid =
     (let (sec, overflow) = secp256k1_scalar_set_b32 seckey
      in if overflow = 0 \<and> \<not> secp256k1_scalar_is_zero sec
         then (let msg = fst (secp256k1_scalar_set_b32 msg32)
               in sign_loop (\<lambda>nonce32 count. noncefp nonce32 msg32 seckey None noncedata count)
                    (sign_attempt ctx sec msg recid) nonce32 0)
         else Some None)"

definition secp256k1_ecdsa_sign ::
  "secp256k1_sha256_t \<Rightarrow> secp256k1_hmac_sha256_t \<Rightarrow> u8 list \<Rightarrow> u8 list \<Rightarrow> secp256k1_context \<Rightarrow>
   secp256k1_ecdsa_signature option \<Rightarrow> u8 list option \<Rightarrow> u8 list option \<Rightarrow> nonce_function option \<Rightarrow> u8 list option \<Rightarrow> (bool \<times> secp256k1_ecdsa_signature option) run" where
  "secp256k1_ecdsa_sign sha256 hmac keydata nonce32 ctx signature msg32 seckey noncefp noncedata =
     ARG_CHECK ctx (secp256k1_ecmult_gen_context_is_built (ecmult_gen_ctx ctx))
       ''secp256k1_ecmult_gen_context_is_built(&ctx->ecmult_gen_ctx)'' (False, signature)
      (ARG_CHECK ctx (msg32 \<noteq> None) ''msg32 != NULL'' (False, signature)
       (ARG_CHECK ctx (signature \<noteq> None) ''signature != NULL'' (False, signature)
        (ARG_CHECK ctx (seckey \<noteq> None) ''seckey != NULL'' (False, signature)
         (let noncefp = (case noncefp of None \<Rightarrow> secp256k1_nonce_function_default sha256 hmac keydata | Some f \<Rightarrow> f)
          in bind_run (of_loop (sign_with_key (ecmult_gen_ctx ctx) noncefp nonce32 (the msg32) (the seckey) noncedata None))
             (\<lambda>res. case res of
                Some (r, s, _) \<Rightarrow> Ret (True, Some (secp256k1_ecdsa_signature_save (the signature) r s)) []
              | None \<Rightarrow> Ret (False, Some zero_signature) [])))))"

end
