(* ===== verification/Api_Keys.thy ===== *)
theory Api_Keys
  imports Secp256k1
begin

text \<open>
  Contexts and keys at the public interface: what the constructors establish, and that the functions
  on key objects compute on the points the objects hold.
\<close>

subsection \<open>Contexts\<close>

text \<open>A context that can verify, and one that can sign.\<close>

definition verify_context :: "secp256k1_context \<Rightarrow> bool" where
  "verify_context ctx \<longleftrightarrow> ecmult_context_ok (ecmult_ctx ctx)"

definition sign_context :: "secp256k1_context \<Rightarrow> bool" where
  "sign_context ctx \<longleftrightarrow> ecmult_gen_context_ok (ecmult_gen_ctx ctx)"

lemma verify_context_built [simp]: "verify_context ctx \<Longrightarrow> secp256k1_ecmult_context_is_built (ecmult_ctx ctx)"
  by (auto simp: verify_context_def ecmult_context_ok_def secp256k1_ecmult_context_is_built_def)

lemma sign_context_built [simp]: "sign_context ctx \<Longrightarrow> secp256k1_ecmult_gen_context_is_built (ecmult_gen_ctx ctx)"
  by (auto simp: sign_context_def ecmult_gen_context_ok_def secp256k1_ecmult_gen_context_is_built_def)

text \<open>Blocks of the sizes the builders ask for, whatever they hold.\<close>

definition build_frame_ok :: "build_frame \<Rightarrow> bool" where
  "build_frame_ok bf \<longleftrightarrow>
     length (bf_prej bf) = ECMULT_TABLE_SIZE WINDOW_G \<and> length (bf_zr bf) = ECMULT_TABLE_SIZE WINDOW_G \<and>
     length (bf_prea bf) = ECMULT_TABLE_SIZE WINDOW_G \<and> length (bf_mem bf) = ECMULT_TABLE_SIZE WINDOW_G \<and>
     1024 \<le> length (bf_precj bf) \<and> 1024 \<le> length (bf_azi bf) \<and> 1024 \<le> length (bf_gpre bf) \<and>
     64 \<le> length (bf_gmem bf) \<and> (\<forall>j<64. length (bf_gmem bf ! j) = 16) \<and> sha_ok (bf_sha bf) \<and> hmac_ok (bf_hmac bf)"

text \<open>The point of unknown logarithm makes no entry of the table infinite.\<close>

definition nums_point :: "epoint \<Rightarrow> bool" where
  "nums_point U \<longleftrightarrow> gej_rep 1 U gen_nums \<and> (\<forall>j<64. \<forall>i<16. gen_entry U j i \<noteq> 0)"

lemma context_create_bad_flags:
  assumes "flags AND SECP256K1_FLAGS_TYPE_MASK \<noteq> SECP256K1_FLAGS_TYPE_CONTEXT"
  shows "secp256k1_context_create bf mem flags = Abort [(default_illegal_callback, ''Invalid flags'')]"
  using assms by (simp add: secp256k1_context_create_def secp256k1_callback_call_def default_illegal_callback_def)

lemma context_create_ok:
  assumes bf: "build_frame_ok bf" and nums: "nums_point U"
    and flags: "flags AND SECP256K1_FLAGS_TYPE_MASK = SECP256K1_FLAGS_TYPE_CONTEXT"
  shows "secp256k1_context_create bf mem flags = Diverge \<or>
    (\<exists>ctx. secp256k1_context_create bf mem flags = Ret (Some ctx) [] \<and>
       illegal_callback ctx = default_illegal_callback \<and> error_callback ctx = default_error_callback \<and>
       (if flags AND SECP256K1_FLAGS_BIT_CONTEXT_SIGN \<noteq> 0 then sign_context ctx
        else \<not> secp256k1_ecmult_gen_context_is_built (ecmult_gen_ctx ctx)) \<and>
       (if flags AND SECP256K1_FLAGS_BIT_CONTEXT_VERIFY \<noteq> 0 then verify_context ctx
        else \<not> secp256k1_ecmult_context_is_built (ecmult_ctx ctx)))"
proof -
  define g0 v0 where "g0 = secp256k1_ecmult_gen_context_init (ecmult_gen_ctx mem)" and "v0 = secp256k1_ecmult_context_init"
  have init: "\<not> secp256k1_ecmult_gen_context_is_built g0" "\<not> secp256k1_ecmult_context_is_built v0"
    by (simp_all add: g0_def v0_def secp256k1_ecmult_gen_context_is_built_def secp256k1_ecmult_gen_context_init_def
        secp256k1_ecmult_context_is_built_def secp256k1_ecmult_context_init_def)
  define build where "build = secp256k1_ecmult_gen_context_build (bf_precj bf) (bf_azi bf) (bf_gpre bf)
    (bf_gmem bf) (bf_sha bf) (bf_hmac bf) g0"
  have v: "ecmult_context_ok (secp256k1_ecmult_context_build (bf_d bf) (bf_prej bf) (bf_zr bf) (bf_prea bf) (bf_mem bf) v0)"
    unfolding v0_def using bf by (intro ecmult_context_build_ok) (simp_all add: build_frame_ok_def)
  have g: "ecmult_gen_context_ok g" if "build = Some g" for g
    using bf nums that unfolding build_def
    by (intro ecmult_gen_context_build_ok [of U "bf_precj bf" "bf_azi bf" "bf_gpre bf" "bf_gmem bf" "bf_sha bf" "bf_hmac bf" g0])
      (simp_all add: build_frame_ok_def nums_point_def g0_def secp256k1_ecmult_gen_context_init_def)
  show ?thesis
    using flags v g init
    by (cases build) (simp_all add: secp256k1_context_create_def Let_def v0_def [symmetric] g0_def [symmetric]
        build_def [symmetric] verify_context_def sign_context_def)
qed

lemma ecmult_gen_blind_prec:
  "secp256k1_ecmult_gen_blind sha256 hmac ctx seed32 = Some ctx' \<Longrightarrow> prec ctx' = prec ctx"
  by (auto simp: secp256k1_ecmult_gen_blind_def Let_def bind_eq_Some_conv blind_reset_def split: option.splits)

lemma context_create_flags:
  assumes bf: "build_frame_ok bf"
  shows "if flags AND SECP256K1_FLAGS_TYPE_MASK \<noteq> SECP256K1_FLAGS_TYPE_CONTEXT
    then secp256k1_context_create bf mem flags = Abort [(default_illegal_callback, ''Invalid flags'')]
    else secp256k1_context_create bf mem flags = Diverge \<and> flags AND SECP256K1_FLAGS_BIT_CONTEXT_SIGN \<noteq> 0 \<or>
      (\<exists>ctx. secp256k1_context_create bf mem flags = Ret (Some ctx) [] \<and>
         illegal_callback ctx = default_illegal_callback \<and> error_callback ctx = default_error_callback \<and>
         (secp256k1_ecmult_gen_context_is_built (ecmult_gen_ctx ctx) \<longleftrightarrow> flags AND SECP256K1_FLAGS_BIT_CONTEXT_SIGN \<noteq> 0) \<and>
         (verify_context ctx \<longleftrightarrow> flags AND SECP256K1_FLAGS_BIT_CONTEXT_VERIFY \<noteq> 0) \<and>
         (secp256k1_ecmult_context_is_built (ecmult_ctx ctx) \<longleftrightarrow> flags AND SECP256K1_FLAGS_BIT_CONTEXT_VERIFY \<noteq> 0))"
proof -
  define g0 v0 where "g0 = secp256k1_ecmult_gen_context_init (ecmult_gen_ctx mem)" and "v0 = secp256k1_ecmult_context_init"
  have init: "\<not> secp256k1_ecmult_gen_context_is_built g0" "\<not> secp256k1_ecmult_context_is_built v0" "prec g0 = None"
    by (simp_all add: g0_def v0_def secp256k1_ecmult_gen_context_is_built_def secp256k1_ecmult_gen_context_init_def
        secp256k1_ecmult_context_is_built_def secp256k1_ecmult_context_init_def)
  define build where "build = secp256k1_ecmult_gen_context_build (bf_precj bf) (bf_azi bf) (bf_gpre bf)
    (bf_gmem bf) (bf_sha bf) (bf_hmac bf) g0"
  define v where "v = secp256k1_ecmult_context_build (bf_d bf) (bf_prej bf) (bf_zr bf) (bf_prea bf) (bf_mem bf) v0"
  have v: "ecmult_context_ok v"
    unfolding v_def v0_def using bf by (intro ecmult_context_build_ok) (simp_all add: build_frame_ok_def)
  have vb: "secp256k1_ecmult_context_is_built v" using v by (auto simp: ecmult_context_ok_def secp256k1_ecmult_context_is_built_def)
  have v0: "\<not> ecmult_context_ok v0" using init(2) by (auto simp: ecmult_context_ok_def secp256k1_ecmult_context_is_built_def)
  have g: "secp256k1_ecmult_gen_context_is_built g" if "build = Some g" for g
    using that init(3) by (auto simp: build_def secp256k1_ecmult_gen_context_build_def Let_def secp256k1_ecmult_gen_context_is_built_def
        dest!: ecmult_gen_blind_prec)
  show ?thesis
  proof (cases "flags AND SECP256K1_FLAGS_TYPE_MASK \<noteq> SECP256K1_FLAGS_TYPE_CONTEXT")
    case True
    then show ?thesis by (simp add: context_create_bad_flags)
  next
    case False
    then show ?thesis
      using v vb g init(1,2) v0
      by (cases build) (simp_all add: secp256k1_context_create_def Let_def v0_def [symmetric] g0_def [symmetric]
          build_def [symmetric] v_def [symmetric] verify_context_def)
  qed
qed

lemma context_clone_ok:
  "verify_context ctx \<Longrightarrow> verify_context (secp256k1_context_clone mem ctx)"
  "sign_context ctx \<Longrightarrow> sign_context (secp256k1_context_clone mem ctx)"
  by (simp add: verify_context_def secp256k1_context_clone_def ecmult_context_clone_ok)
     (auto simp: sign_context_def secp256k1_context_clone_def secp256k1_ecmult_gen_context_clone_def ecmult_gen_context_ok_def)

lemma context_randomize_ok:
  assumes "sha_ok sha256" and "hmac_ok hmac" and "sign_context ctx"
  shows "secp256k1_context_randomize sha256 hmac ctx seed32 = Diverge \<or>
    (\<exists>ctx'. secp256k1_context_randomize sha256 hmac ctx seed32 = Ret (True, ctx') [] \<and> sign_context ctx' \<and>
       ecmult_ctx ctx' = ecmult_ctx ctx)"
proof (cases "secp256k1_ecmult_gen_blind sha256 hmac (ecmult_gen_ctx ctx) seed32")
  case None
  then show ?thesis using assms(3) by (simp add: secp256k1_context_randomize_def)
next
  case (Some g)
  obtain tab U where "prec (ecmult_gen_ctx ctx) = Some tab" "gen_table U tab"
    using assms(3) by (auto simp: sign_context_def ecmult_gen_context_ok_def)
  then have "ecmult_gen_context_ok g"
    using ecmult_gen_blind_ok [OF assms(1,2) _ _ _ Some] assms(3) by (auto simp: sign_context_def)
  then show ?thesis using Some assms(3) by (simp add: secp256k1_context_randomize_def sign_context_def)
qed

subsection \<open>Secret keys\<close>

text \<open>32 bytes that are a secret key: a number from 1 to \<open>n - 1\<close>.\<close>

definition secret :: "u8 list \<Rightarrow> bool" where
  "secret key \<longleftrightarrow> length key = 32 \<and> 0 < be_val key \<and> be_val key < secp256k1_n"

lemma set_b32_key:
  assumes "length key = 32"
  obtains sec where "secp256k1_scalar_set_b32 key = (sec, of_bool (secp256k1_n \<le> be_val key))" "scalar_ok sec"
    "scalar_val sec = be_val key mod secp256k1_n"
    "of_bool (secp256k1_n \<le> be_val key) = (0 :: u32) \<and> \<not> secp256k1_scalar_is_zero sec \<longleftrightarrow> secret key"
proof (rule that)
  show "secp256k1_scalar_set_b32 key = (fst (secp256k1_scalar_set_b32 key), of_bool (secp256k1_n \<le> be_val key))"
    using secp256k1_scalar_set_b32_val(2) [OF assms] by (metis prod.collapse)
  show "scalar_ok (fst (secp256k1_scalar_set_b32 key))" using assms by simp
  show v: "scalar_val (fst (secp256k1_scalar_set_b32 key)) = be_val key mod secp256k1_n"
    by (rule scalar_set_b32_val [OF assms])
  show "of_bool (secp256k1_n \<le> be_val key) = (0 :: u32) \<and> \<not> secp256k1_scalar_is_zero (fst (secp256k1_scalar_set_b32 key)) \<longleftrightarrow> secret key"
  proof (cases "secp256k1_n \<le> be_val key")
    case False
    then have "be_val key mod secp256k1_n = be_val key" by simp
    then show ?thesis using False assms be_val_nonneg [of key] by (simp add: secp256k1_scalar_is_zero_eq v secret_def order.strict_iff_order)
  qed (simp add: secret_def)
qed

lemma secret_mod: "secret key \<Longrightarrow> be_val key mod secp256k1_n = be_val key"
  by (simp add: secret_def)

lemma seckey_verify_iff:
  "length key = 32 \<Longrightarrow> secp256k1_ec_seckey_verify ctx (Some key) = Ret (secret key) []"
  by (erule set_b32_key) (simp add: secp256k1_ec_seckey_verify_def)

lemma public_nonzero: "secret key \<Longrightarrow> zmul (be_val key) gen \<noteq> 0"
  using zdvd_not_zless [of "be_val key" secp256k1_n] gen_nonzero by (simp add: zmul_eq_0_iff secret_def)

subsection \<open>Public keys\<close>

lemma length_zero_pubkey [simp]: "length (pubkey_data zero_pubkey) = 64"
  by simp

lemma pubkey_parse_api:
  "secp256k1_ec_pubkey_parse Q ctx (Some pk) (Some inp) =
     (if snd (secp256k1_eckey_pubkey_parse Q inp)
      then Ret (True, Some (secp256k1_pubkey_save zero_pubkey (fst (secp256k1_eckey_pubkey_parse Q inp)))) []
      else Ret (False, Some zero_pubkey) [])"
  by (simp add: secp256k1_ec_pubkey_parse_def case_prod_beta)

lemma pubkey_parse_encodes:
  assumes "encodes inp P"
  obtains pk' where "secp256k1_ec_pubkey_parse Q ctx (Some pk) (Some inp) = Ret (True, Some pk') []" "pubkey_rep P pk'"
proof
  show "secp256k1_ec_pubkey_parse Q ctx (Some pk) (Some inp) =
      Ret (True, Some (secp256k1_pubkey_save zero_pubkey (fst (secp256k1_eckey_pubkey_parse Q inp)))) []"
    using pubkey_parse_complete [OF assms] by (simp add: pubkey_parse_api)
  show "pubkey_rep P (secp256k1_pubkey_save zero_pubkey (fst (secp256k1_eckey_pubkey_parse Q inp)))"
    using assms by (intro pubkey_save_rep ge_rep_pubkey_parse) (simp_all add: encodes_def)
qed

lemma pubkey_parse_rejects:
  assumes "\<nexists>P. encodes inp P"
  shows "secp256k1_ec_pubkey_parse Q ctx (Some pk) (Some inp) = Ret (False, Some zero_pubkey) []"
  using assms pubkey_parse_iff [of Q inp] by (simp add: pubkey_parse_api)

lemma pubkey_create_api:
  assumes ctx: "sign_context ctx" and key: "length key = 32"
  shows "if secret key
    then \<exists>pk'. secp256k1_ec_pubkey_create ctx (Some pk) (Some key) = Ret (True, Some pk') [] \<and>
           pubkey_rep (zmul (be_val key) gen) pk'
    else secp256k1_ec_pubkey_create ctx (Some pk) (Some key) = Ret (False, Some zero_pubkey) []"
proof -
  obtain sec where sec: "secp256k1_scalar_set_b32 key = (sec, of_bool (secp256k1_n \<le> be_val key))" "scalar_ok sec"
    "scalar_val sec = be_val key mod secp256k1_n"
    "of_bool (secp256k1_n \<le> be_val key) = (0 :: u32) \<and> \<not> secp256k1_scalar_is_zero sec \<longleftrightarrow> secret key"
    by (rule set_b32_key [OF key])
  have run: "secp256k1_ec_pubkey_create ctx (Some pk) (Some key) =
      (if secret key
       then Ret (True, Some (secp256k1_pubkey_save zero_pubkey (fst (secp256k1_ge_set_gej (secp256k1_ecmult_gen (ecmult_gen_ctx ctx) sec))))) []
       else Ret (False, Some zero_pubkey) [])"
    using ctx sec(4) by (auto simp: secp256k1_ec_pubkey_create_def sec(1) Let_def)
  have "gej_rep 1 (zmul (scalar_val sec) gen) (secp256k1_ecmult_gen (ecmult_gen_ctx ctx) sec)"
    using ctx sec(2) by (intro ecmult_gen_rep) (simp_all add: sign_context_def scalar_ok_def)
  from ge_rep_set_gej(1) [OF this] show ?thesis
    using pubkey_save_rep [OF _ public_nonzero] sec(3) by (auto simp: run secret_mod)
qed

lemma compression_flags:
  "SECP256K1_EC_COMPRESSED AND SECP256K1_FLAGS_BIT_COMPRESSION \<noteq> 0"
  "SECP256K1_EC_UNCOMPRESSED AND SECP256K1_FLAGS_BIT_COMPRESSION = 0"
  "SECP256K1_EC_COMPRESSED AND SECP256K1_FLAGS_TYPE_MASK = SECP256K1_FLAGS_TYPE_COMPRESSION"
  "SECP256K1_EC_UNCOMPRESSED AND SECP256K1_FLAGS_TYPE_MASK = SECP256K1_FLAGS_TYPE_COMPRESSION"
  by (simp_all add: SECP256K1_EC_COMPRESSED_def SECP256K1_EC_UNCOMPRESSED_def SECP256K1_FLAGS_BIT_COMPRESSION_def
      SECP256K1_FLAGS_TYPE_MASK_def SECP256K1_FLAGS_TYPE_COMPRESSION_def)

lemma pubkey_serialize_api:
  assumes pk: "pubkey_rep P pk" and len: "(if compressed then 33 else 65) \<le> siz" "siz \<le> length out"
    and flags: "flags = (if compressed then SECP256K1_EC_COMPRESSED else SECP256K1_EC_UNCOMPRESSED)"
  obtains out' where
    "secp256k1_ec_pubkey_serialize ctx (Some out) (Some siz) (Some pk) flags =
       Ret (True, Some out', Some (if compressed then 33 else 65)) []"
    "encodes (take (if compressed then 33 else 65) out') P" "length out' = length out" "compressed \<or> out' ! 0 = 4"
proof -
  obtain Q where Q: "secp256k1_pubkey_load ctx pk = Ret (True, Q) []" "ge_rep 1 P Q" by (rule pubkey_load_rep [OF pk])
  define buf where "buf = buf_write out 0 (replicate siz 0)"
  have buf: "length buf = length out" using len(2) by (simp add: buf_def buf_write_def)
  obtain Q' out' siz' ok where run: "secp256k1_eckey_pubkey_serialize Q buf siz compressed = (Q', out', siz', ok)"
    by (metis prod_cases4)
  have fits: "(if compressed then 33 else 65) \<le> length buf" using len buf by linarith
  note r = pubkey_serialize_rep [OF Q(2) pubkey_rep_nonzero [OF pk] fits run]
  have "secp256k1_ec_pubkey_serialize ctx (Some out) (Some siz) (Some pk) flags =
      Ret (True, Some out', Some (if compressed then 33 else 65)) []"
    using len(1) r(1,2) run flags compression_flags
    by (cases compressed) (simp_all add: secp256k1_ec_pubkey_serialize_def Let_def Q(1) buf_def [symmetric])
  then show thesis using r(2,3,5,6) buf by (intro that [of out']) auto
qed

subsection \<open>Tweaks\<close>

lemma privkey_tweak_add_api:
  assumes "length key = 32" and "length tweak = 32"
  defines "tot \<equiv> (be_val key + be_val tweak) mod secp256k1_n"
  obtains key' where
    "secp256k1_ec_privkey_tweak_add ctx (Some key) (Some tweak) = Ret (be_val tweak < secp256k1_n \<and> tot \<noteq> 0, Some key') []"
    "length key' = 32" "be_val key' = (if be_val tweak < secp256k1_n then tot else 0)"
proof -
  obtain t where t: "secp256k1_scalar_set_b32 tweak = (t, of_bool (secp256k1_n \<le> be_val tweak))" "scalar_ok t"
    "scalar_val t = be_val tweak mod secp256k1_n" by (rule set_b32_key [OF assms(2)])
  obtain k where k: "secp256k1_scalar_set_b32 key = (k, of_bool (secp256k1_n \<le> be_val key))" "scalar_ok k"
    "scalar_val k = be_val key mod secp256k1_n" by (rule set_b32_key [OF assms(1)])
  obtain k' ok where run: "secp256k1_eckey_privkey_tweak_add k t = (k', ok)" by fastforce
  note v = privkey_tweak_add_val [OF k(2) t(2) run]
  have tot: "scalar_val k' = tot" unfolding v(1) k(3) t(3) tot_def by (simp add: mod_simps)
  define key' where "key' = (if be_val tweak < secp256k1_n \<and> ok then secp256k1_scalar_get_b32 k' else replicate 32 0)"
  have "be_val (replicate 32 0) = 0" by (simp add: be_val_def numeral_eq_Suc)
  then have "be_val key' = (if be_val tweak < secp256k1_n then tot else 0)" "length key' = 32"
    using tot v(3) by (auto simp: key'_def secp256k1_scalar_get_b32_val)
  moreover have "secp256k1_ec_privkey_tweak_add ctx (Some key) (Some tweak) =
      Ret (be_val tweak < secp256k1_n \<and> tot \<noteq> 0, Some key') []"
    using assms(1) v(3) tot
    by (auto simp: secp256k1_ec_privkey_tweak_add_def t(1) k(1) run Let_def buf_write_def key'_def)
  ultimately show thesis by (intro that)
qed

lemma pubkey_tweak_add_api:
  assumes fr: "ecmult_frame_ok fr" and ctx: "verify_context ctx" and pk: "pubkey_rep P pk" and tweak: "length tweak = 32"
  defines "Q \<equiv> P + zmul (be_val tweak) gen"
  shows "if be_val tweak < secp256k1_n \<and> Q \<noteq> 0
    then \<exists>pk'. secp256k1_ec_pubkey_tweak_add fr p ctx (Some pk) (Some tweak) = Ret (True, Some pk') [] \<and> pubkey_rep Q pk'
    else secp256k1_ec_pubkey_tweak_add fr p ctx (Some pk) (Some tweak) = Ret (False, Some zero_pubkey) []"
proof -
  obtain t where t: "secp256k1_scalar_set_b32 tweak = (t, of_bool (secp256k1_n \<le> be_val tweak))" "scalar_ok t"
    "scalar_val t = be_val tweak mod secp256k1_n" by (rule set_b32_key [OF tweak])
  obtain a where a: "secp256k1_pubkey_load ctx pk = Ret (True, a) []" "ge_rep 1 P a" by (rule pubkey_load_rep [OF pk])
  obtain b ok where run: "secp256k1_eckey_pubkey_tweak_add fr (ecmult_ctx ctx) a t = (b, ok)" by fastforce
  have Q: "P + zmul (scalar_val t) gen = Q" by (simp add: t(3) zmul_mod_n Q_def)
  note v = pubkey_tweak_add_rep [OF fr ctx [unfolded verify_context_def] a(2) pubkey_rep_nonzero [OF pk] t(2) run, unfolded Q]
  have "secp256k1_ec_pubkey_tweak_add fr p ctx (Some pk) (Some tweak) =
      (if be_val tweak < secp256k1_n \<and> ok then Ret (True, Some (secp256k1_pubkey_save zero_pubkey b)) []
       else Ret (False, Some zero_pubkey) [])"
    using ctx by (simp add: secp256k1_ec_pubkey_tweak_add_def t(1) a(1) run Let_def not_less)
  then show ?thesis using v pubkey_save_rep [of Q b zero_pubkey] by auto
qed

lemma privkey_tweak_mul_api:
  assumes "length key = 32" and "length tweak = 32"
  obtains key' where
    "secp256k1_ec_privkey_tweak_mul ctx (Some key) (Some tweak) = Ret (secret tweak, Some key') []"
    "length key' = 32" "be_val key' = (if secret tweak then be_val key * be_val tweak mod secp256k1_n else 0)"
proof -
  obtain t where t: "secp256k1_scalar_set_b32 tweak = (t, of_bool (secp256k1_n \<le> be_val tweak))" "scalar_ok t"
    "scalar_val t = be_val tweak mod secp256k1_n"
    "of_bool (secp256k1_n \<le> be_val tweak) = (0 :: u32) \<and> \<not> secp256k1_scalar_is_zero t \<longleftrightarrow> secret tweak"
    by (rule set_b32_key [OF assms(2)])
  obtain k where k: "secp256k1_scalar_set_b32 key = (k, of_bool (secp256k1_n \<le> be_val key))" "scalar_ok k"
    "scalar_val k = be_val key mod secp256k1_n" by (rule set_b32_key [OF assms(1)])
  define key' where "key' = (if secret tweak then secp256k1_scalar_get_b32 (secp256k1_scalar_mul k t) else replicate 32 0)"
  have "be_val (replicate 32 0) = 0" by (simp add: be_val_def numeral_eq_Suc)
  then have "be_val key' = (if secret tweak then be_val key * be_val tweak mod secp256k1_n else 0)" "length key' = 32"
    by (auto simp: key'_def secp256k1_scalar_get_b32_val scalar_mul_val k(3) t(3) mod_simps)
  moreover have "secp256k1_ec_privkey_tweak_mul ctx (Some key) (Some tweak) = Ret (secret tweak, Some key') []"
    using assms(1) t(4)
    by (auto simp: secp256k1_ec_privkey_tweak_mul_def secp256k1_eckey_privkey_tweak_mul_def t(1) k(1) Let_def buf_write_def key'_def)
  ultimately show thesis by (intro that)
qed

lemma pubkey_tweak_mul_api:
  assumes fr: "ecmult_frame_ok fr" and ctx: "verify_context ctx" and pk: "pubkey_rep P pk" and tweak: "length tweak = 32"
  shows "if secret tweak
    then \<exists>pk'. secp256k1_ec_pubkey_tweak_mul fr p ctx (Some pk) (Some tweak) = Ret (True, Some pk') [] \<and>
           pubkey_rep (zmul (be_val tweak) P) pk'
    else secp256k1_ec_pubkey_tweak_mul fr p ctx (Some pk) (Some tweak) = Ret (False, Some zero_pubkey) []"
proof -
  obtain t where t: "secp256k1_scalar_set_b32 tweak = (t, of_bool (secp256k1_n \<le> be_val tweak))" "scalar_ok t"
    "scalar_val t = be_val tweak mod secp256k1_n"
    "of_bool (secp256k1_n \<le> be_val tweak) = (0 :: u32) \<and> \<not> secp256k1_scalar_is_zero t \<longleftrightarrow> secret tweak"
    by (rule set_b32_key [OF tweak])
  obtain a where a: "secp256k1_pubkey_load ctx pk = Ret (True, a) []" "ge_rep 1 P a" by (rule pubkey_load_rep [OF pk])
  obtain b ok where run: "secp256k1_eckey_pubkey_tweak_mul fr (ecmult_ctx ctx) a t = (b, ok)" by fastforce
  have tP: "zmul (scalar_val t) P = zmul (be_val tweak) P" by (simp add: t(3) zmul_mod_n)
  note v = pubkey_tweak_mul_rep [OF fr ctx [unfolded verify_context_def] a(2) pubkey_rep_nonzero [OF pk] t(2) run, unfolded tP]
  have "secret tweak \<longleftrightarrow> be_val tweak < secp256k1_n \<and> ok"
    using t(4) v(1) by (auto simp: secp256k1_scalar_is_zero_eq)
  moreover have "secp256k1_ec_pubkey_tweak_mul fr p ctx (Some pk) (Some tweak) =
      (if be_val tweak < secp256k1_n \<and> ok then Ret (True, Some (secp256k1_pubkey_save zero_pubkey b)) []
       else Ret (False, Some zero_pubkey) [])"
    using ctx by (simp add: secp256k1_ec_pubkey_tweak_mul_def t(1) a(1) run Let_def not_less)
  ultimately show ?thesis using v pubkey_save_rep [of _ b zero_pubkey] by auto
qed

subsection \<open>Sums of keys\<close>

lemma pubkey_combine_loop_rep:
  assumes "gej_rep 1 S Qj" and "list_all2 pubkey_rep Ps pks"
  shows "\<exists>Qj'. pubkey_combine_loop ctx Qj pks = Ret Qj' [] \<and> gej_rep 1 (S + sum_list Ps) Qj'"
  using assms(2,1)
proof (induction Ps pks arbitrary: S Qj rule: list_all2_induct)
  case (Cons P Ps pk pks)
  obtain a where a: "secp256k1_pubkey_load ctx pk = Ret (True, a) []" "ge_rep 1 P a"
    by (rule pubkey_load_rep [OF Cons.hyps(1)])
  have "gej_rep 1 (S + P) (secp256k1_gej_add_ge Qj a)"
    using Cons.prems a(2) pubkey_rep_nonzero [OF Cons.hyps(1)] by (rule gej_rep_add_ge)
  from Cons.IH [OF this] show ?case by (simp add: a(1) add.assoc)
qed simp

lemma pubkey_combine_api:
  assumes "list_all2 pubkey_rep Ps pks" and "pks \<noteq> []"
  shows "if sum_list Ps \<noteq> 0
    then \<exists>pk'. secp256k1_ec_pubkey_combine ctx (Some pk) (Some pks) (length pks) = Ret (True, Some pk') [] \<and>
           pubkey_rep (sum_list Ps) pk'
    else secp256k1_ec_pubkey_combine ctx (Some pk) (Some pks) (length pks) = Ret (False, Some zero_pubkey) []"
proof -
  obtain Qj where Qj: "pubkey_combine_loop ctx secp256k1_gej_set_infinity pks = Ret Qj []" "gej_rep 1 (sum_list Ps) Qj"
    using pubkey_combine_loop_rep [OF _ assms(1), of 0] gej_rep_set_infinity [of 1] by auto
  have "Suc 0 \<le> length pks" using assms(2) by (cases pks) simp_all
  then show ?thesis
    using gej_rep_infinity [OF Qj(2)] pubkey_save_rep [OF ge_rep_set_gej(1) [OF Qj(2)]]
    by (simp add: secp256k1_ec_pubkey_combine_def Qj(1) secp256k1_gej_is_infinity_def)
qed

end
