(* ===== verification/Api_Signatures.thy ===== *)
theory Api_Signatures
  imports Api_Keys
begin

text \<open>
  Signatures at the public interface: the encodings of the signature objects, the nonces of RFC 6979,
  signing and verification.
\<close>

subsection \<open>Encodings\<close>

lemma set_b32_halves:
  assumes inp: "length inp = 64"
  obtains a b where "secp256k1_scalar_set_b32 (take 32 inp) = (a, of_bool (secp256k1_n \<le> be_val (take 32 inp)))" "scalar_ok a"
    "scalar_val a = be_val (take 32 inp) mod secp256k1_n"
    "secp256k1_scalar_set_b32 (take 32 (drop 32 inp)) = (b, of_bool (secp256k1_n \<le> be_val (drop 32 inp)))" "scalar_ok b"
    "scalar_val b = be_val (drop 32 inp) mod secp256k1_n"
proof -
  have len: "length (take 32 inp) = 32" "length (take 32 (drop 32 inp)) = 32" and t: "take 32 (drop 32 inp) = drop 32 inp"
    using inp by simp_all
  obtain a where a: "secp256k1_scalar_set_b32 (take 32 inp) = (a, of_bool (secp256k1_n \<le> be_val (take 32 inp)))" "scalar_ok a"
    "scalar_val a = be_val (take 32 inp) mod secp256k1_n" by (rule set_b32_key [OF len(1)])
  obtain b where b: "secp256k1_scalar_set_b32 (drop 32 inp) = (b, of_bool (secp256k1_n \<le> be_val (drop 32 inp)))" "scalar_ok b"
    "scalar_val b = be_val (drop 32 inp) mod secp256k1_n" by (rule set_b32_key [OF len(2), unfolded t])
  show thesis by (rule that [OF a, unfolded t, OF b])
qed

lemma parse_compact_api:
  assumes inp: "length inp = 64" and sig: "length (sig_data sig) = 64"
  defines "r \<equiv> be_val (take 32 inp)" and "s \<equiv> be_val (drop 32 inp)"
  shows "if r < secp256k1_n \<and> s < secp256k1_n
    then \<exists>sig'. secp256k1_ecdsa_signature_parse_compact ctx (Some sig) (Some inp) = Ret (True, Some sig') [] \<and> sig_rep r s sig'
    else secp256k1_ecdsa_signature_parse_compact ctx (Some sig) (Some inp) = Ret (False, Some zero_signature) []"
proof -
  obtain a b where a: "secp256k1_scalar_set_b32 (take 32 inp) = (a, of_bool (secp256k1_n \<le> r))" "scalar_ok a"
    "scalar_val a = r mod secp256k1_n"
    and b: "secp256k1_scalar_set_b32 (take 32 (drop 32 inp)) = (b, of_bool (secp256k1_n \<le> s))" "scalar_ok b"
    "scalar_val b = s mod secp256k1_n" unfolding r_def s_def by (rule set_b32_halves [OF inp])
  have run: "secp256k1_ecdsa_signature_parse_compact ctx (Some sig) (Some inp) =
      (if r < secp256k1_n \<and> s < secp256k1_n then Ret (True, Some (secp256k1_ecdsa_signature_save sig a b)) []
       else Ret (False, Some zero_signature) [])"
    by (auto simp: secp256k1_ecdsa_signature_parse_compact_def a(1) b(1) Let_def)
  show ?thesis using sig_save_rep [OF a(2) b(2) sig] a(3) b(3) be_val_nonneg by (auto simp: run r_def s_def)
qed

lemma serialize_compact_api:
  assumes "sig_rep r s sig" and "length out = 64"
  obtains out' where "secp256k1_ecdsa_signature_serialize_compact ctx (Some out) (Some sig) = Ret (True, Some out') []"
    "length out' = 64" "be_val (take 32 out') = r" "be_val (drop 32 out') = s"
proof -
  obtain a b where l: "secp256k1_ecdsa_signature_load sig = (a, b)" "scalar_val a = r" "scalar_val b = s"
    by (rule sig_load_rep [OF assms(1)])
  define out' where "out' = secp256k1_scalar_get_b32 a @ secp256k1_scalar_get_b32 b"
  have "secp256k1_ecdsa_signature_serialize_compact ctx (Some out) (Some sig) = Ret (True, Some out') []"
    using assms(2) by (simp add: secp256k1_ecdsa_signature_serialize_compact_def l(1) buf_write_def out'_def)
  moreover have "length out' = 64" "be_val (take 32 out') = r" "be_val (drop 32 out') = s"
    using l(2,3) by (simp_all add: out'_def secp256k1_scalar_get_b32_val)
  ultimately show thesis by (rule that)
qed

text \<open>The lower of \<open>s\<close> and \<open>n - s\<close>.\<close>

definition low_s :: "int \<Rightarrow> int" where
  "low_s s = (if secp256k1_n div 2 < s then secp256k1_n - s else s)"

lemma normalize_api:
  assumes sig: "sig_rep r s sig" and out: "length (sig_data out) = 64"
  shows "\<exists>out'. secp256k1_ecdsa_signature_normalize ctx (Some out) (Some sig) = Ret (secp256k1_n div 2 < s, Some out') [] \<and>
    sig_rep r (low_s s) out'"
proof -
  obtain a b where l: "secp256k1_ecdsa_signature_load sig = (a, b)" "scalar_ok a" "scalar_ok b" "scalar_val a = r" "scalar_val b = s"
    by (rule sig_load_rep [OF sig])
  have high: "secp256k1_scalar_is_high b \<noteq> 0 \<longleftrightarrow> secp256k1_n div 2 < s"
    by (simp add: secp256k1_scalar_is_high_eq l(5))
  define c where "c = (if secp256k1_n div 2 < s then secp256k1_scalar_negate b else b)"
  have s: "0 \<le> s" "s < secp256k1_n" using sig by (simp_all add: sig_rep_def)
  have "(- s) mod secp256k1_n = secp256k1_n - s" if "0 < s"
    using that s mod_pos_pos_trivial [of "secp256k1_n - s" secp256k1_n] by (simp add: mod_diff_left_eq)
  moreover have "0 < secp256k1_n div 2" by (simp add: secp256k1_n_def)
  ultimately have c: "scalar_ok c" "scalar_val c = low_s s"
    using l(3,5) by (auto simp: c_def low_s_def scalar_negate_val)
  have "secp256k1_ecdsa_signature_normalize ctx (Some out) (Some sig) =
      Ret (secp256k1_n div 2 < s, Some (secp256k1_ecdsa_signature_save out a c)) []"
    by (simp add: secp256k1_ecdsa_signature_normalize_def l(1) high c_def)
  moreover have "sig_rep r (low_s s) (secp256k1_ecdsa_signature_save out a c)"
    using sig_save_rep [OF l(2) c(1) out] by (simp add: l(4) c(2))
  ultimately show ?thesis by blast
qed

subsection \<open>Verification\<close>

lemma verify_api:
  assumes fr: "ecmult_frame_ok fr" and ctx: "verify_context ctx" and sig: "sig_rep r s sig" and msg: "length msg = 32"
    and pk: "pubkey_rep Q pk"
  shows "secp256k1_ecdsa_verify fr ctx (Some sig) (Some msg) (Some pk) =
    Ret (s \<le> secp256k1_n div 2 \<and> ecdsa_valid (be_val msg mod secp256k1_n) r s Q) []"
proof -
  obtain a b where l: "secp256k1_ecdsa_signature_load sig = (a, b)" "scalar_ok a" "scalar_ok b" "scalar_val a = r" "scalar_val b = s"
    by (rule sig_load_rep [OF sig])
  obtain q where q: "secp256k1_pubkey_load ctx pk = Ret (True, q) []" "ge_rep 1 Q q" by (rule pubkey_load_rep [OF pk])
  define m where "m = fst (secp256k1_scalar_set_b32 msg)"
  have m: "scalar_ok m" "scalar_val m = be_val msg mod secp256k1_n" using msg by (simp_all add: m_def scalar_set_b32_val)
  have high: "secp256k1_scalar_is_high b \<noteq> 0 \<longleftrightarrow> secp256k1_n div 2 < s"
    by (simp add: secp256k1_scalar_is_high_eq l(5))
  note v = ecdsa_sig_verify_iff [OF fr ctx [unfolded verify_context_def] q(2) pubkey_rep_nonzero [OF pk] l(2,3) m(1),
      unfolded l m(2)]
  show ?thesis using ctx high v by (auto simp: secp256k1_ecdsa_verify_def l(1) q(1) m_def [symmetric] Let_def)
qed

subsection \<open>Nonces\<close>

text \<open>RFC 6979, section 3.2, step h: the candidates in turn.\<close>

fun rfc_candidate :: "u8 list \<Rightarrow> u8 list \<Rightarrow> nat \<Rightarrow> u8 list" where
  "rfc_candidate K V 0 = rfc_hmac K V"
| "rfc_candidate K V (Suc c) =
     (let V = rfc_hmac K V;
          K = rfc_hmac K (V @ [0x00]);
          V = rfc_hmac K V
      in rfc_candidate K V c)"

lemma nonce_loop_draws:
  assumes "counter \<noteq> - 1" and "unat i + k = unat counter + 1"
  shows "nonce_loop draw counter i rng nonce32 = Some (((\<lambda>(rng, _). draw rng) ^^ k) (rng, nonce32))"
  using assms(2)
proof (induction k arbitrary: i rng nonce32)
  case 0
  then have "\<not> i \<le> counter" by (simp add: word_le_nat_alt)
  then show ?case by (subst nonce_loop.simps) simp
next
  case (Suc k)
  have "uint counter \<noteq> uint (- 1 :: u32)" using assms(1) by (simp only: word_uint_eq_iff not_False_eq_True)
  then have "uint counter < 2 ^ 32 - 1" using uint_u32_less [of counter]
    by (simp add: unsigned_minus_1_eq_mask mask_eq_exp_minus_1)
  then have lt: "unat counter < 2 ^ 32 - 1" unfolding unat_eq_nat_uint by (subst nat_less_iff) simp_all
  have i: "i \<le> counter" using Suc.prems by (simp add: word_le_nat_alt)
  have "unat (i + 1) = unat i + 1" using Suc.prems lt by (simp add: unat_word_ariths)
  then have "nonce_loop draw counter (i + 1) rng' n' = Some (((\<lambda>(rng, _). draw rng) ^^ k) (rng', n'))" for rng' n'
    using Suc.prems by (intro Suc.IH) simp
  then show ?case using i by (subst nonce_loop.simps) (simp add: case_prod_beta funpow_swap1 del: funpow.simps(2) add: funpow_Suc_right)
qed

lemma nonce_loop_max: "nonce_loop draw (- 1) i rng nonce32 = None"
proof (rule ccontr)
  have "counter \<noteq> - 1" if "nonce_loop draw counter i rng nonce32 = Some y" for counter y
    by (rule nonce_loop.raw_induct [OF _ that]) (auto split: if_splits prod.splits)
  then show "nonce_loop draw (- 1) i rng nonce32 \<noteq> None \<Longrightarrow> False" by blast
qed

lemma rfc_draws:
  fixes nonce32 :: "u8 list"
  assumes frame: "sha_ok sha256" "hmac_ok hmac"
  defines "draw \<equiv> \<lambda>rng. secp256k1_rfc6979_hmac_sha256_generate sha256 hmac rng 32"
  shows "rng_ok rng \<Longrightarrow>
    snd (((\<lambda>(rng, _). draw rng) ^^ Suc c) (rng, nonce32)) =
    (let K = (if rng_retry rng then rfc_hmac (rng_k rng) (rng_v rng @ [0x00]) else rng_k rng);
         V = (if rng_retry rng then rfc_hmac K (rng_v rng) else rng_v rng)
     in rfc_candidate K V c)"
proof (induction c arbitrary: rng nonce32)
  case 0
  have "((\<lambda>(rng, _). draw rng) ^^ Suc 0) (rng, nonce32) = draw rng"
    by (simp only: funpow_Suc_right comp_apply funpow_0 prod.case)
  then show ?case using 0
    by (simp add: draw_def rfc6979_generate_eq [OF frame] Let_def length_rfc_hmac)
next
  case (Suc c)
  define K where "K = (if rng_retry rng then rfc_hmac (rng_k rng) (rng_v rng @ [0x00]) else rng_k rng)"
  define V where "V = (if rng_retry rng then rfc_hmac K (rng_v rng) else rng_v rng)"
  define rng1 where "rng1 = \<lparr>rng_v = rfc_hmac K V, rng_k = K, rng_retry = True\<rparr>"
  have len: "rng_ok rng1" using Suc.prems by (simp add: rng_ok_def rng1_def K_def length_rfc_hmac)
  have step: "draw rng = (rng1, take 32 (rfc_hmac K V))"
    unfolding draw_def rfc6979_generate_eq [OF frame Suc.prems] by (simp add: K_def V_def rng1_def)
  have "((\<lambda>(rng, _). draw rng) ^^ Suc (Suc c)) (rng, nonce32) = ((\<lambda>(rng, _). draw rng) ^^ Suc c) (draw rng)"
    by (simp only: funpow_Suc_right comp_apply prod.case)
  then show ?case using Suc.IH [OF len] by (simp add: step K_def [symmetric] V_def [symmetric] Let_def) (simp add: rng1_def)
qed

text \<open>The key material: the secret key, the message, the extra data and the name of the algorithm.\<close>

definition nonce_key :: "u8 list \<Rightarrow> u8 list \<Rightarrow> u8 list option \<Rightarrow> u8 list option \<Rightarrow> u8 list" where
  "nonce_key key32 msg32 data algo16 =
     key32 @ msg32 @ (case data of None \<Rightarrow> [] | Some d \<Rightarrow> d) @ (case algo16 of None \<Rightarrow> [] | Some a \<Rightarrow> a)"

lemma nonce_function_rfc6979_eq:
  assumes frame: "sha_ok sha256" "hmac_ok hmac" "length keydata = 112"
    and len: "length key32 = 32" "length msg32 = 32" "\<forall>d. data = Some d \<longrightarrow> length d = 32" "\<forall>a. algo16 = Some a \<longrightarrow> length a = 16"
  shows "nonce_function_rfc6979 sha256 hmac keydata nonce32 msg32 key32 algo16 data counter =
    (if counter = - 1 then None
     else Some (let (K, V) = rfc_init (nonce_key key32 msg32 data algo16) in rfc_candidate K V (unat counter), True))"
proof -
  define key where "key = nonce_key key32 msg32 data algo16"
  define rng where "rng = secp256k1_rfc6979_hmac_sha256_initialize sha256 hmac key"
  have "length key < 2 ^ 60" using len by (auto simp: key_def nonce_key_def split: option.splits)
  note rng = rfc6979_initialize_eq [OF frame(1,2) this, folded rng_def]
  have ok: "rng_ok rng" by (simp add: rng rng_ok_def rfc_init_def Let_def length_rfc_hmac)
  have "nonce_function_rfc6979 sha256 hmac keydata nonce32 msg32 key32 algo16 data counter =
      map_option (\<lambda>(rng, nonce32). (nonce32, True))
        (nonce_loop (\<lambda>rng. secp256k1_rfc6979_hmac_sha256_generate sha256 hmac rng 32) counter 0 rng nonce32)"
    using frame(3) len by (cases data; cases algo16)
      (simp_all add: nonce_function_rfc6979_def Let_def buf_write_def rng_def key_def nonce_key_def)
  also have "\<dots> = (if counter = - 1 then None else Some (snd (((\<lambda>(rng, _).
        secp256k1_rfc6979_hmac_sha256_generate sha256 hmac rng 32) ^^ Suc (unat counter)) (rng, nonce32)), True))"
  proof (cases "counter = - 1")
    case False
    have "unat (0 :: u32) + Suc (unat counter) = unat counter + 1" by simp
    from nonce_loop_draws [OF False this, of "\<lambda>rng. secp256k1_rfc6979_hmac_sha256_generate sha256 hmac rng 32" rng nonce32]
    show ?thesis using False by (cases "((\<lambda>(rng, _). secp256k1_rfc6979_hmac_sha256_generate sha256 hmac rng 32) ^^
        Suc (unat counter)) (rng, nonce32)") (simp del: funpow.simps)
  qed (simp add: nonce_loop_max)
  also have "snd (((\<lambda>(rng, _). secp256k1_rfc6979_hmac_sha256_generate sha256 hmac rng 32) ^^ Suc (unat counter)) (rng, nonce32)) =
      (let (K, V) = rfc_init key in rfc_candidate K V (unat counter))"
    using rfc_draws [OF frame(1,2) ok, of "unat counter" nonce32] by (simp add: rng Let_def case_prod_beta)
  finally show ?thesis by (simp add: key_def)
qed

subsection \<open>Signing\<close>

lemma sign_loop_sound:
  assumes "sign_loop noncefp attempt nonce32 count = Some res"
  shows "\<exists>b k n. case res of
      None \<Rightarrow> noncefp b k = Some (n, False)
    | Some v \<Rightarrow> noncefp b k = Some (n, True) \<and> attempt n = Some v"
proof (rule sign_loop.raw_induct [OF _ assms])
  fix rec :: "(u8 list \<Rightarrow> u32 \<Rightarrow> (u8 list \<times> bool) option) \<Rightarrow> (u8 list \<Rightarrow> 'a option) \<Rightarrow> u8 list \<Rightarrow> u32 \<Rightarrow> 'a option option"
    and noncefp attempt nonce32 count res
  assume IH: "\<And>noncefp attempt nonce32 count res. rec noncefp attempt nonce32 count = Some res \<Longrightarrow>
      \<exists>b k n. case res of None \<Rightarrow> noncefp b k = Some (n, False) | Some v \<Rightarrow> noncefp b k = Some (n, True) \<and> attempt n = Some v"
  assume "Option.bind (noncefp nonce32 count) (\<lambda>(nonce32, ret).
      if \<not> ret then Some None
      else (case attempt nonce32 of Some v \<Rightarrow> Some (Some v) | None \<Rightarrow> rec noncefp attempt nonce32 (count + 1))) = Some res"
  then obtain n ret where n: "noncefp nonce32 count = Some (n, ret)"
    "(if \<not> ret then Some None else (case attempt n of Some v \<Rightarrow> Some (Some v) | None \<Rightarrow> rec noncefp attempt n (count + 1))) = Some res"
    by (auto simp: bind_eq_Some_conv)
  show "\<exists>b k n. case res of None \<Rightarrow> noncefp b k = Some (n, False) | Some v \<Rightarrow> noncefp b k = Some (n, True) \<and> attempt n = Some v"
  proof (cases "ret \<and> attempt n = None")
    case True
    then show ?thesis using n(2) IH by simp
  next
    case False
    have "case res of None \<Rightarrow> noncefp nonce32 count = Some (n, False)
        | Some v \<Rightarrow> noncefp nonce32 count = Some (n, True) \<and> attempt n = Some v"
      using n False by (cases ret; cases "attempt n") auto
    then show ?thesis by blast
  qed
qed

text \<open>The first result of a sequence of attempts.\<close>

fun first_some :: "(nat \<Rightarrow> 'v option) \<Rightarrow> nat \<Rightarrow> nat \<Rightarrow> 'v option" where
  "first_some f k 0 = None"
| "first_some f k (Suc n) = (case f k of Some v \<Rightarrow> Some v | None \<Rightarrow> first_some f (Suc k) n)"

text \<open>When the nonce function gives the candidates in turn and does not return for the last counter, the
  loop tries them in turn.\<close>

lemma unat_counter: "j < 2 ^ 32 - 1 \<Longrightarrow> unat (of_nat j :: u32) = j \<and> (of_nat j :: u32) \<noteq> - 1"
proof
  assume j: "j < 2 ^ 32 - 1"
  then show u: "unat (of_nat j :: u32) = j" by (simp add: unat_of_nat)
  have "uint (- 1 :: u32) = 2 ^ 32 - 1" by (simp add: unsigned_minus_1_eq_mask mask_eq_exp_minus_1)
  then have "unat (- 1 :: u32) = nat (2 ^ 32 - 1)" unfolding unat_eq_nat_uint by (rule arg_cong)
  then show "(of_nat j :: u32) \<noteq> - 1" using j u by auto
qed

lemma sign_loop_candidates:
  assumes "\<And>b c. noncefp b c = (if c = - 1 then None else Some (cand (unat c), True))"
  shows "k + n = 2 ^ 32 - 1 \<Longrightarrow>
    sign_loop noncefp attempt nonce32 (of_nat k) = map_option Some (first_some (\<lambda>j. attempt (cand j)) k n)"
proof (induction n arbitrary: k nonce32)
  case 0
  then have "(of_nat k :: u32) = of_nat (2 ^ 32) - 1" by (metis add_0_right of_nat_1 of_nat_diff one_le_numeral one_le_power)
  also have "\<dots> = - 1" by simp
  finally show ?case by (subst sign_loop.simps) (simp add: assms)
next
  case (Suc n)
  then have "unat (of_nat k :: u32) = k \<and> (of_nat k :: u32) \<noteq> - 1" by (intro unat_counter) simp
  then have "noncefp nonce32 (of_nat k) = Some (cand k, True)" by (simp add: assms)
  then show ?case using Suc.IH [of "Suc k" "cand k"] Suc.prems
    by (subst sign_loop.simps) (simp add: add.commute split: option.splits)
qed

text \<open>An attempt, at the level of values.\<close>

lemma sign_attempt_eq:
  assumes "length nonce32 = 32"
  shows "sign_attempt ctx sec msg recid nonce32 =
    (if secret nonce32
     then (case secp256k1_ecdsa_sig_sign ctx sec msg (fst (secp256k1_scalar_set_b32 nonce32)) recid of
             (r, s, recid', ok) \<Rightarrow> if ok then Some (r, s, recid') else None)
     else None)"
proof -
  obtain non where "secp256k1_scalar_set_b32 nonce32 = (non, of_bool (secp256k1_n \<le> be_val nonce32))"
    "of_bool (secp256k1_n \<le> be_val nonce32) = (0 :: u32) \<and> \<not> secp256k1_scalar_is_zero non \<longleftrightarrow> secret nonce32"
    by (rule set_b32_key [OF assms])
  then show ?thesis by (auto simp: sign_attempt_def Let_def)
qed

text \<open>A nonce function fills its 32 bytes.\<close>

definition nonce_function_ok :: "nonce_function \<Rightarrow> bool" where
  "nonce_function_ok f \<longleftrightarrow> (\<forall>b msg key algo data c n ok. f b msg key algo data c = Some (n, ok) \<longrightarrow> length n = 32)"

text \<open>What a run of the signing loop that succeeds has made: a signature with the nonce \<open>k\<close>.\<close>

definition signed_with :: "int \<Rightarrow> int \<Rightarrow> int \<Rightarrow> int \<Rightarrow> int \<Rightarrow> bool" where
  "signed_with k d z r s \<longleftrightarrow> 0 < k \<and> k < secp256k1_n \<and> r = x_of (zmul k gen) mod secp256k1_n \<and>
     0 < s \<and> s \<le> secp256k1_n div 2 \<and> (r \<noteq> 0 \<longrightarrow> ecdsa_valid z r s (zmul d gen))"

lemma sign_with_key_sound:
  assumes ctx: "ecmult_gen_context_ok ctx" and f: "nonce_function_ok noncefp" and len: "length msg32 = 32" "length seckey = 32"
    and run: "sign_with_key ctx noncefp nonce32 msg32 seckey noncedata recid = Some (Some (r, s, recid'))"
  defines "z \<equiv> be_val msg32 mod secp256k1_n"
  shows "secret seckey \<and> scalar_ok r \<and> scalar_ok s \<and>
    (\<exists>n non. secret n \<and> scalar_ok non \<and> scalar_val non = be_val n \<and>
       signed_with (be_val n) (be_val seckey) z (scalar_val r) (scalar_val s) \<and>
       secp256k1_ecdsa_sig_sign ctx (fst (secp256k1_scalar_set_b32 seckey)) (fst (secp256k1_scalar_set_b32 msg32)) non recid =
         (r, s, recid', True))"
proof -
  obtain sec where sec: "secp256k1_scalar_set_b32 seckey = (sec, of_bool (secp256k1_n \<le> be_val seckey))" "scalar_ok sec"
    "scalar_val sec = be_val seckey mod secp256k1_n"
    "of_bool (secp256k1_n \<le> be_val seckey) = (0 :: u32) \<and> \<not> secp256k1_scalar_is_zero sec \<longleftrightarrow> secret seckey"
    by (rule set_b32_key [OF len(2)])
  define msg where "msg = fst (secp256k1_scalar_set_b32 msg32)"
  have msg: "scalar_ok msg" "scalar_val msg = z" using len(1) by (simp_all add: msg_def z_def scalar_set_b32_val)
  have key: "secret seckey" and loop: "sign_loop (\<lambda>nonce32 count. noncefp nonce32 msg32 seckey None noncedata count)
      (sign_attempt ctx sec msg recid) nonce32 0 = Some (Some (r, s, recid'))"
    using run sec(4) by (auto simp: sign_with_key_def sec(1) msg_def split: if_splits)
  obtain b c n where n: "noncefp b msg32 seckey None noncedata c = Some (n, True)" "sign_attempt ctx sec msg recid n = Some (r, s, recid')"
    using sign_loop_sound [OF loop] by auto
  have "length n = 32" using n(1) f unfolding nonce_function_ok_def by blast
  note at = sign_attempt_eq [OF this, of ctx sec msg recid]
  define non where "non = fst (secp256k1_scalar_set_b32 n)"
  have nsec: "secret n" and sig: "secp256k1_ecdsa_sig_sign ctx sec msg non recid = (r, s, recid', True)"
    using n(2) at by (auto simp: non_def split: if_splits prod.splits)
  have non: "scalar_ok non" "scalar_val non = be_val n"
    using nsec \<open>length n = 32\<close> by (simp_all add: non_def scalar_set_b32_val secret_mod)
  have nz: "scalar_val non \<noteq> 0" using nsec non(2) by (simp add: secret_def)
  note v = ecdsa_sig_sign_vals [OF ctx sec(2) msg(1) non(1) nz sig]
  have d: "scalar_val sec = be_val seckey" using sec(3) key by (simp add: secret_mod)
  obtain s0 where "0 \<le> s0" "s0 < secp256k1_n" "s0 \<noteq> 0" "scalar_val s = (if secp256k1_n div 2 < s0 then secp256k1_n - s0 else s0)"
    by (rule that [OF pos_mod_sign [OF n_pos(1)] pos_mod_bound [OF n_pos(1)] v(4) [THEN iffD1, OF TrueI] v(5)])
  then have "0 < scalar_val s" "scalar_val s \<le> secp256k1_n div 2" by (auto simp: secp256k1_n_def)
  then have "signed_with (be_val n) (be_val seckey) z (scalar_val r) (scalar_val s)"
    using v(1) ecdsa_sig_sign_valid [OF ctx sec(2) msg(1) non(1) nz sig] nsec
    by (simp add: signed_with_def non(2) d msg(2) secret_def)
  then show ?thesis using key v(2,3) nsec non sig by (auto simp: sec(1) msg_def)
qed

text \<open>The interface: a run that returns 1 has called no callback and made such a signature.\<close>

definition chosen_noncefp :: "secp256k1_sha256_t \<Rightarrow> secp256k1_hmac_sha256_t \<Rightarrow> u8 list \<Rightarrow> nonce_function option \<Rightarrow> nonce_function" where
  "chosen_noncefp sha256 hmac keydata noncefp = (case noncefp of None \<Rightarrow> nonce_function_rfc6979 sha256 hmac keydata | Some f \<Rightarrow> f)"

lemma sign_api_run:
  "sign_context ctx \<Longrightarrow>
    secp256k1_ecdsa_sign sha256 hmac keydata nonce32 ctx (Some sig) (Some msg) (Some key) noncefp noncedata =
    (case sign_with_key (ecmult_gen_ctx ctx) (chosen_noncefp sha256 hmac keydata noncefp) nonce32 msg key noncedata None of
       None \<Rightarrow> Diverge
     | Some None \<Rightarrow> Ret (False, Some zero_signature) []
     | Some (Some (r, s, _)) \<Rightarrow> Ret (True, Some (secp256k1_ecdsa_signature_save sig r s)) [])"
  by (cases "sign_with_key (ecmult_gen_ctx ctx) (chosen_noncefp sha256 hmac keydata noncefp) nonce32 msg key noncedata None")
    (auto simp: secp256k1_ecdsa_sign_def Let_def chosen_noncefp_def secp256k1_nonce_function_default_def split: option.splits)

lemma sign_api_sound:
  assumes ctx: "sign_context ctx" and f: "nonce_function_ok (chosen_noncefp sha256 hmac keydata noncefp)"
    and len: "length msg = 32" "length key = 32" "length (sig_data sig) = 64"
    and run: "secp256k1_ecdsa_sign sha256 hmac keydata nonce32 ctx (Some sig) (Some msg) (Some key) noncefp noncedata =
      Ret (True, out) calls"
  shows "calls = [] \<and> secret key \<and>
    (\<exists>k r s sig'. out = Some sig' \<and> sig_rep r s sig' \<and> signed_with k (be_val key) (be_val msg mod secp256k1_n) r s)"
proof -
  obtain r s rc where loop: "sign_with_key (ecmult_gen_ctx ctx) (chosen_noncefp sha256 hmac keydata noncefp) nonce32 msg key
      noncedata None = Some (Some (r, s, rc))"
    and out: "out = Some (secp256k1_ecdsa_signature_save sig r s)" "calls = []"
    using run by (auto simp: sign_api_run [OF ctx] split: option.splits)
  note v = sign_with_key_sound [OF ctx [unfolded sign_context_def] f len(1,2) loop]
  have "sig_rep (scalar_val r) (scalar_val s) (secp256k1_ecdsa_signature_save sig r s)"
    using v len(3) by (intro sig_save_rep) auto
  then show ?thesis using v out by blast
qed

lemma length_rfc_candidate [simp]: "length (rfc_candidate K V c) = 32"
  by (induction c arbitrary: K V) (simp_all add: length_rfc_hmac Let_def)

lemma nonce_function_rfc6979_ok:
  assumes frame: "sha_ok sha256" "hmac_ok hmac"
  shows "nonce_function_ok (nonce_function_rfc6979 sha256 hmac keydata)"
  unfolding nonce_function_ok_def
proof (intro allI impI)
  fix b msg key algo data c n ok
  define draw where "draw = (\<lambda>rng. secp256k1_rfc6979_hmac_sha256_generate sha256 hmac rng 32)"
  assume res: "nonce_function_rfc6979 sha256 hmac keydata b msg key algo data c = Some (n, ok)"
  have "\<exists>k. length k < 2 ^ 60 \<and> nonce_function_rfc6979 sha256 hmac keydata b msg key algo data c =
      map_option (\<lambda>(rng, nonce32). (nonce32, True))
        (nonce_loop draw c 0 (secp256k1_rfc6979_hmac_sha256_initialize sha256 hmac k) b)"
    unfolding draw_def
    by (cases data; cases algo; simp only: nonce_function_rfc6979_def Let_def option.case prod.case)
       (rule exI, rule conjI [rotated], rule refl, simp add: min_def)+
  then obtain k where k: "length k < 2 ^ 60" "nonce_function_rfc6979 sha256 hmac keydata b msg key algo data c =
      map_option (\<lambda>(rng, nonce32). (nonce32, True))
        (nonce_loop draw c 0 (secp256k1_rfc6979_hmac_sha256_initialize sha256 hmac k) b)" by blast
  define rng where "rng = secp256k1_rfc6979_hmac_sha256_initialize sha256 hmac k"
  have run: "map_option (\<lambda>(rng, nonce32). (nonce32, True)) (nonce_loop draw c 0 rng b) = Some (n, ok)"
    using k(2) res by (simp add: rng_def)
  have "c \<noteq> - 1" using run by (auto simp: nonce_loop_max)
  moreover have "unat (0 :: u32) + Suc (unat c) = unat c + 1" by simp
  ultimately have n: "n = snd (((\<lambda>(rng, _). draw rng) ^^ Suc (unat c)) (rng, b))"
    using run nonce_loop_draws [of c 0 "Suc (unat c)" draw rng b]
    by (cases "((\<lambda>(rng, _). draw rng) ^^ Suc (unat c)) (rng, b)") (simp del: funpow.simps)
  have "rng_ok rng" unfolding rng_def by (simp add: rfc6979_initialize_eq [OF frame k(1)] rng_ok_def rfc_init_def Let_def length_rfc_hmac)
  then show "length n = 32" unfolding n draw_def by (simp only: rfc_draws [OF frame] Let_def length_rfc_candidate)
qed

text \<open>Verification accepts what signing made, unless \<open>r\<close> is zero.\<close>

lemma signed_then_verified:
  assumes fr: "ecmult_frame_ok fr" and ctx: "verify_context ctx" and sig: "sig_rep r s sig" and len: "length msg = 32"
    and d: "signed_with k d (be_val msg mod secp256k1_n) r s" and pk: "pubkey_rep (zmul d gen) pk"
  shows "secp256k1_ecdsa_verify fr ctx (Some sig) (Some msg) (Some pk) = Ret (r \<noteq> 0) []"
  unfolding verify_api [OF fr ctx sig len pk] using d by (auto simp: signed_with_def ecdsa_valid_def)

subsection \<open>A nonce with r = 0\<close>

lemma gen_multiple:
  obtains k where "0 \<le> k" "k < secp256k1_n" "P = zmul k gen"
proof -
  have inj: "inj_on (\<lambda>k. zmul k gen) {0..<secp256k1_n}"
  proof (rule inj_onI)
    fix j k assume "j \<in> {0..<secp256k1_n}" "k \<in> {0..<secp256k1_n}" "zmul j gen = zmul k gen"
    moreover from this have "zmul (j - k) gen = 0" by (simp add: zmul_diff)
    then have "secp256k1_n dvd j - k" using gen_nonzero by (simp add: zmul_eq_0_iff)
    ultimately show "j = k" by (auto simp: mod_eq_dvd_iff [symmetric])
  qed
  have "finite (UNIV :: epoint set)" "int (card (UNIV :: epoint set)) = secp256k1_n"
    using card_curve n_pos by (auto intro: card_ge_0_finite)
  then have "(\<lambda>k. zmul k gen) ` {0..<secp256k1_n} = UNIV"
    using card_image [OF inj] n_pos by (intro card_subset_eq) auto
  then have "P \<in> (\<lambda>k. zmul k gen) ` {0..<secp256k1_n}" by simp
  then show thesis using that by auto
qed

text \<open>The point with \<open>x\<close> coordinate \<open>n\<close>.\<close>

lemma point_x_order: "\<exists>R. R \<noteq> 0 \<and> x_of R = secp256k1_n"
proof -
  define y where "y = gf 69186903114498750860896505739646488798970448350379198433587849548453839594014"
  have "secp256k1_n * secp256k1_n * secp256k1_n + 7 =
      69186903114498750860896505739646488798970448350379198433587849548453839594014 * 69186903114498750860896505739646488798970448350379198433587849548453839594014 + secp256k1_p *
      13407807929942597099574024998205846127329153240624656492843609923727042812266841306279544043437532817923760423390042943008211114107867057112609708335884028"
    unfolding secp256k1_n_def secp256k1_p_def by code_simp
  then have "gf (secp256k1_n * secp256k1_n * secp256k1_n + 7) =
      gf (69186903114498750860896505739646488798970448350379198433587849548453839594014 * 69186903114498750860896505739646488798970448350379198433587849548453839594014)"
    unfolding gf_eq_iff by (simp only: mod_mult_self2)
  then have "y * y = gf secp256k1_n * gf secp256k1_n * gf secp256k1_n + gf 7"
    unfolding y_def gf_hom by (rule sym)
  then have "on_curve (Pt (gf secp256k1_n) y)" by (simp add: gf_numeral)
  then have P: "point_of (epoint_of (Pt (gf secp256k1_n) y)) = Pt (gf secp256k1_n) y" by (rule point_of_epoint_of)
  have "epoint_of (Pt (gf secp256k1_n) y) \<noteq> 0" using P by (metis point.distinct(1) point_of_zero)
  moreover have "x_of (epoint_of (Pt (gf secp256k1_n) y)) = secp256k1_n"
    using xy_of_Pt [OF P] by (simp add: gf_val_gf secp256k1_n_def secp256k1_p_def)
  ultimately show ?thesis by blast
qed

lemma le_val_surj: "0 \<le> k \<Longrightarrow> k < 256 ^ n \<Longrightarrow> \<exists>bs. length bs = n \<and> le_val bs = k"
proof (induction n arbitrary: k)
  case (Suc n)
  have "k div 256 < 256 ^ n" using Suc.prems by simp
  then obtain bs where bs: "length bs = n" "le_val bs = k div 256" using Suc.IH [of "k div 256"] Suc.prems
    by (auto simp: pos_imp_zdiv_nonneg_iff)
  have "uint (word_of_int (k mod 256) :: u8) = k mod 256" by (simp add: uint_word_of_int)
  then have "length (word_of_int (k mod 256) # bs) = Suc n \<and> le_val (word_of_int (k mod 256) # bs) = k" using bs by simp
  then show ?case by blast
qed simp

lemma secret_bytes:
  assumes "0 < k" and "k < secp256k1_n"
  obtains key where "secret key" "be_val key = k"
proof -
  have "k < 256 ^ 32" using assms(2) by (simp add: secp256k1_n_def)
  then obtain bs where "length bs = 32" "le_val bs = k" using le_val_surj [of k 32] assms(1) by auto
  then show thesis using that [of "rev bs"] assms by (simp add: secret_def be_val_def)
qed

lemma zero_r_nonce:
  obtains n where "secret n" "x_of (zmul (be_val n) gen) = secp256k1_n"
proof -
  obtain R where R: "R \<noteq> 0" "x_of R = secp256k1_n" using point_x_order by blast
  obtain k where k: "0 \<le> k" "k < secp256k1_n" "R = zmul k gen" by (rule gen_multiple)
  have "k \<noteq> 0" using R(1) k(3) by auto
  then obtain n where "secret n" "be_val n = k" using secret_bytes [of k] k by auto
  then show thesis using that R(2) k(3) by simp
qed

text \<open>With that nonce both signing functions return a signature with \<open>r = 0\<close>, for every key and every
  message that is not a multiple of \<open>n\<close>.\<close>

lemma sign_attempt_zero_r:
  assumes ctx: "ecmult_gen_context_ok ctx" and n: "secret n" "x_of (zmul (be_val n) gen) = secp256k1_n"
    and sec: "scalar_ok sec" and msg: "scalar_ok msg" "scalar_val msg \<noteq> 0"
  obtains r s recid' where "sign_attempt ctx sec msg recid n = Some (r, s, recid')" "scalar_ok r" "scalar_ok s" "scalar_val r = 0"
proof -
  have len: "length n = 32" using n(1) by (simp add: secret_def)
  define non where "non = fst (secp256k1_scalar_set_b32 n)"
  have non: "scalar_ok non" "scalar_val non = be_val n" using n(1) len by (simp_all add: non_def scalar_set_b32_val secret_mod)
  have nz: "scalar_val non \<noteq> 0" using n(1) non(2) by (simp add: secret_def)
  obtain r s rc ok where run: "secp256k1_ecdsa_sig_sign ctx sec msg non recid = (r, s, rc, ok)" by (metis prod_cases4)
  note v = ecdsa_sig_sign_vals [OF ctx sec msg(1) non(1) nz run, unfolded non(2) n(2)]
  have inv: "scalar_val non * scalar_val (secp256k1_scalar_inverse non) mod secp256k1_n = 1"
    using nz n_dvd_scalar [OF non(1)] by (intro scalar_inverse_mod) simp
  have "scalar_val (secp256k1_scalar_inverse non) * scalar_val msg mod secp256k1_n \<noteq> 0"
  proof
    assume "scalar_val (secp256k1_scalar_inverse non) * scalar_val msg mod secp256k1_n = 0"
    then have "secp256k1_n dvd scalar_val (secp256k1_scalar_inverse non) \<or> secp256k1_n dvd scalar_val msg"
      unfolding n_dvd_mult [symmetric] by (rule mod_0_imp_dvd)
    moreover have "\<not> secp256k1_n dvd scalar_val msg" using msg n_dvd_scalar by simp
    moreover have "\<not> secp256k1_n dvd scalar_val (secp256k1_scalar_inverse non)"
      using inv dvd_mult [of secp256k1_n "scalar_val (secp256k1_scalar_inverse non)" "scalar_val non"]
      by (auto simp: dvd_eq_mod_eq_0)
    ultimately show False by blast
  qed
  then have ok using v(4) by simp
  have at: "sign_attempt ctx sec msg recid n = Some (r, s, rc)"
    unfolding sign_attempt_eq [OF len] using n(1) run \<open>ok\<close> by (simp add: non_def)
  show thesis by (rule that [OF at v(2,3)]) (use v(1) in simp)
qed

lemma sign_loop_now:
  "noncefp nonce32 count = Some (n, True) \<Longrightarrow> attempt n = Some v \<Longrightarrow> sign_loop noncefp attempt nonce32 count = Some (Some v)"
  by (subst sign_loop.simps) simp

lemma sign_with_key_zero_r:
  assumes ctx: "ecmult_gen_context_ok ctx" and key: "secret key" and msg: "length msg = 32" "\<not> secp256k1_n dvd be_val msg"
    and n: "secret n" "x_of (zmul (be_val n) gen) = secp256k1_n"
  obtains r s rc where "sign_with_key ctx (\<lambda>_ _ _ _ _ _. Some (n, True)) nonce32 msg key noncedata recid = Some (Some (r, s, rc))"
    "scalar_ok r" "scalar_ok s" "scalar_val r = 0"
proof -
  have len: "length key = 32" using key by (simp add: secret_def)
  obtain sec where sec: "secp256k1_scalar_set_b32 key = (sec, of_bool (secp256k1_n \<le> be_val key))" "scalar_ok sec"
    "of_bool (secp256k1_n \<le> be_val key) = (0 :: u32) \<and> \<not> secp256k1_scalar_is_zero sec \<longleftrightarrow> secret key"
    by (rule set_b32_key [OF len])
  define m where "m = fst (secp256k1_scalar_set_b32 msg)"
  have m: "scalar_ok m" "scalar_val m \<noteq> 0" using msg by (simp_all add: m_def scalar_set_b32_val dvd_eq_mod_eq_0)
  obtain r s rc where at: "sign_attempt ctx sec m recid n = Some (r, s, rc)" "scalar_ok r" "scalar_ok s" "scalar_val r = 0"
    by (rule sign_attempt_zero_r [OF ctx n sec(2) m])
  have "sign_with_key ctx (\<lambda>_ _ _ _ _ _. Some (n, True)) nonce32 msg key noncedata recid = Some (Some (r, s, rc))"
    using sec(3) key at(1) by (auto simp: sign_with_key_def sec(1) m_def [symmetric] Let_def intro!: sign_loop_now)
  then show thesis using at(2-4) by (rule that)
qed

text \<open>With the default nonce function the candidates of RFC 6979 are tried in turn, at most
  \<open>2 ^ 32 - 1\<close> of them.\<close>

lemma sign_with_key_default:
  fixes noncedata :: "u8 list option" and ctx :: secp256k1_ecmult_gen_context and recid :: "int option"
  assumes frame: "sha_ok sha256" "hmac_ok hmac" "length keydata = 112"
    and key: "secret key" and msg: "length msg = 32" and data: "\<forall>d. noncedata = Some d \<longrightarrow> length d = 32"
  defines "cand \<equiv> \<lambda>j. case rfc_init (nonce_key key msg noncedata None) of (K, V) \<Rightarrow> rfc_candidate K V j"
    and "attempt \<equiv> sign_attempt ctx (fst (secp256k1_scalar_set_b32 key)) (fst (secp256k1_scalar_set_b32 msg)) recid"
  shows "sign_with_key ctx (nonce_function_rfc6979 sha256 hmac keydata) nonce32 msg key noncedata recid =
    map_option Some (first_some (\<lambda>j. attempt (cand j)) 0 (2 ^ 32 - 1))"
proof -
  have len: "length key = 32" using key by (simp add: secret_def)
  obtain sec where sec: "secp256k1_scalar_set_b32 key = (sec, of_bool (secp256k1_n \<le> be_val key))"
    "of_bool (secp256k1_n \<le> be_val key) = (0 :: u32) \<and> \<not> secp256k1_scalar_is_zero sec \<longleftrightarrow> secret key"
    by (rule set_b32_key [OF len])
  have "sign_loop (\<lambda>nonce32 count. nonce_function_rfc6979 sha256 hmac keydata nonce32 msg key None noncedata count)
      attempt nonce32 (of_nat 0) = map_option Some (first_some (\<lambda>j. attempt (cand j)) 0 (2 ^ 32 - 1))"
    by (rule sign_loop_candidates) (simp_all add: nonce_function_rfc6979_eq [OF frame len msg data] cand_def case_prod_beta)
  then show ?thesis using sec(2) key by (auto simp: sign_with_key_def sec(1) attempt_def Let_def)
qed

subsection \<open>Objects that hold no key\<close>

lemma bind_illegal: "f x = Ret y [] \<Longrightarrow> bind_run (illegal ctx text x) f = illegal ctx text y"
  by (cases "cb_fn (illegal_callback ctx)") (simp_all add: illegal_def ARG_CHECK_def secp256k1_callback_call_def)

lemma verify_zero_pubkey:
  assumes ctx: "verify_context ctx" and sig: "sig_rep r s sig" and s: "s \<le> secp256k1_n div 2"
  shows "secp256k1_ecdsa_verify fr ctx (Some sig) (Some msg) (Some zero_pubkey) =
    illegal ctx ''!secp256k1_fe_is_zero(&ge->x)'' False"
proof -
  obtain a b where l: "secp256k1_ecdsa_signature_load sig = (a, b)" "scalar_ok a" "scalar_ok b" "scalar_val a = r" "scalar_val b = s"
    by (rule sig_load_rep [OF sig])
  have high: "secp256k1_scalar_is_high b = 0"
    using s by (simp add: secp256k1_scalar_is_high_eq l(5))
  obtain ge where "secp256k1_pubkey_load ctx zero_pubkey = illegal ctx ''!secp256k1_fe_is_zero(&ge->x)'' (False, ge)"
    using zero_pubkey_load [of ctx] by blast
  then show ?thesis using ctx by (simp add: secp256k1_ecdsa_verify_def l(1) high Let_def bind_illegal)
qed

text \<open>A high \<open>s\<close> is rejected before the key is read, and with \<open>r = 0\<close> no call of the verification returns 1,
  whatever its context, message and key object are.\<close>

lemma verify_high_s:
  assumes ctx: "verify_context ctx" and sig: "sig_rep r s sig" and s: "secp256k1_n div 2 < s"
  shows "secp256k1_ecdsa_verify fr ctx (Some sig) (Some msg) (Some pk) = Ret False []"
proof -
  obtain a b where l: "secp256k1_ecdsa_signature_load sig = (a, b)" "scalar_ok a" "scalar_ok b" "scalar_val a = r" "scalar_val b = s"
    by (rule sig_load_rep [OF sig])
  have "secp256k1_scalar_is_high b \<noteq> 0" using s by (simp add: secp256k1_scalar_is_high_eq l(5))
  then show ?thesis using ctx by (simp add: secp256k1_ecdsa_verify_def l(1) Let_def)
qed

lemma ARG_CHECK_True_iff: "ARG_CHECK ctx c why False rest = Ret True l \<longleftrightarrow> c \<and> rest = Ret True l"
  using illegal_cases [of ctx why False] by (cases c) auto

lemma bind_run_False: "(\<And>x. f x = Ret False []) \<Longrightarrow> bind_run m f \<noteq> Ret True l"
  by (cases m) simp_all

lemma verify_zero_r:
  assumes sig: "sig_rep 0 s sig"
  shows "secp256k1_ecdsa_verify fr ctx (Some sig) msg pk \<noteq> Ret True l"
proof -
  obtain a b where l: "secp256k1_ecdsa_signature_load sig = (a, b)" "scalar_ok a" "scalar_ok b" "scalar_val a = 0" "scalar_val b = s"
    by (rule sig_load_rep [OF sig])
  have "\<not> secp256k1_ecdsa_sig_verify fr (ecmult_ctx ctx) a b q m" for q m
    using l(4) by (simp add: secp256k1_ecdsa_sig_verify_def secp256k1_scalar_is_zero_eq)
  then have "bind_run M (\<lambda>(ok, q). if ok then Ret (secp256k1_ecdsa_sig_verify fr (ecmult_ctx ctx) a b q m) [] else Ret False [])
      \<noteq> Ret True l" for M m l
    by (intro bind_run_False) (simp split: prod.split)
  then show ?thesis by (simp add: secp256k1_ecdsa_verify_def ARG_CHECK_True_iff l(1) Let_def)
qed

end
