(* ===== verification/Recovery.thy ===== *)
theory Recovery
  imports Api_Signatures
begin

text \<open>
  Recoverable signatures (\<open>modules/recovery/main_impl.h\<close>): objects of 65 bytes, two scalars and the
  recovery number. The core of the recovery is in the theory of ECDSA.
\<close>

subsection \<open>Objects\<close>

record secp256k1_ecdsa_recoverable_signature =
  rsig_data :: "u8 list"

abbreviation zero_recoverable :: secp256k1_ecdsa_recoverable_signature where
  "zero_recoverable \<equiv> \<lparr>rsig_data = replicate 65 0\<rparr>"

definition secp256k1_ecdsa_recoverable_signature_load ::
  "secp256k1_ecdsa_recoverable_signature \<Rightarrow> secp256k1_scalar \<times> secp256k1_scalar \<times> int" where
  "secp256k1_ecdsa_recoverable_signature_load sig =
     (bytes_scalar (rsig_data sig) 0, bytes_scalar (rsig_data sig) 32, uint (rsig_data sig ! 64))"

definition secp256k1_ecdsa_recoverable_signature_save ::
  "secp256k1_ecdsa_recoverable_signature \<Rightarrow> secp256k1_scalar \<Rightarrow> secp256k1_scalar \<Rightarrow> int \<Rightarrow>
   secp256k1_ecdsa_recoverable_signature" where
  "secp256k1_ecdsa_recoverable_signature_save sig r s recid =
     sig\<lparr>rsig_data := (buf_write (buf_write (rsig_data sig) 0 (scalar_bytes r)) 32 (scalar_bytes s))[64 := word_of_int recid]\<rparr>"

definition secp256k1_ecdsa_recoverable_signature_parse_compact ::
  "secp256k1_context \<Rightarrow> secp256k1_ecdsa_recoverable_signature option \<Rightarrow> u8 list option \<Rightarrow> int \<Rightarrow>
   (bool \<times> secp256k1_ecdsa_recoverable_signature option) run" where
  "secp256k1_ecdsa_recoverable_signature_parse_compact ctx sig input64 recid =
     ARG_CHECK ctx (sig \<noteq> None) ''sig != NULL'' (False, sig)
      (ARG_CHECK ctx (input64 \<noteq> None) ''input64 != NULL'' (False, sig)
       (ARG_CHECK ctx (recid \<ge> 0 \<and> recid \<le> 3) ''recid >= 0 && recid <= 3'' (False, sig)
        (let (r, overflow) = secp256k1_scalar_set_b32 (take 32 (the input64));
             ret = (overflow = 0);
             (s, overflow) = secp256k1_scalar_set_b32 (take 32 (drop 32 (the input64)));
             ret = (ret \<and> overflow = 0)
         in Ret (ret, Some (if ret then secp256k1_ecdsa_recoverable_signature_save (the sig) r s recid
                            else zero_recoverable)) [])))"

definition secp256k1_ecdsa_recoverable_signature_serialize_compact ::
  "secp256k1_context \<Rightarrow> u8 list option \<Rightarrow> int option \<Rightarrow> secp256k1_ecdsa_recoverable_signature option \<Rightarrow>
   (bool \<times> u8 list option \<times> int option) run" where
  "secp256k1_ecdsa_recoverable_signature_serialize_compact ctx output64 recid sig =
     ARG_CHECK ctx (output64 \<noteq> None) ''output64 != NULL'' (False, output64, recid)
      (ARG_CHECK ctx (sig \<noteq> None) ''sig != NULL'' (False, output64, recid)
       (ARG_CHECK ctx (recid \<noteq> None) ''recid != NULL'' (False, output64, recid)
        (let (r, s, recid) = secp256k1_ecdsa_recoverable_signature_load (the sig);
             output64 = buf_write (the output64) 0 (secp256k1_scalar_get_b32 r);
             output64 = buf_write output64 32 (secp256k1_scalar_get_b32 s)
         in Ret (True, Some output64, Some recid) [])))"

definition secp256k1_ecdsa_recoverable_signature_convert ::
  "secp256k1_context \<Rightarrow> secp256k1_ecdsa_signature option \<Rightarrow> secp256k1_ecdsa_recoverable_signature option \<Rightarrow>
   (bool \<times> secp256k1_ecdsa_signature option) run" where
  "secp256k1_ecdsa_recoverable_signature_convert ctx sig sigin =
     ARG_CHECK ctx (sig \<noteq> None) ''sig != NULL'' (False, sig)
      (ARG_CHECK ctx (sigin \<noteq> None) ''sigin != NULL'' (False, sig)
       (let (r, s, recid) = secp256k1_ecdsa_recoverable_signature_load (the sigin)
        in Ret (True, Some (secp256k1_ecdsa_signature_save (the sig) r s)) []))"

subsection \<open>Signing and recovery\<close>

text \<open>\<open>recid0\<close> is the uninitialised local that the core writes.\<close>

definition secp256k1_ecdsa_sign_recoverable ::
  "secp256k1_sha256_t \<Rightarrow> secp256k1_hmac_sha256_t \<Rightarrow> u8 list \<Rightarrow> u8 list \<Rightarrow> int \<Rightarrow> secp256k1_context \<Rightarrow>
   secp256k1_ecdsa_recoverable_signature option \<Rightarrow> u8 list option \<Rightarrow> u8 list option \<Rightarrow> nonce_function option \<Rightarrow>
   u8 list option \<Rightarrow> (bool \<times> secp256k1_ecdsa_recoverable_signature option) run" where
  "secp256k1_ecdsa_sign_recoverable sha256 hmac keydata nonce32 recid0 ctx signature msg32 seckey noncefp noncedata =
     ARG_CHECK ctx (secp256k1_ecmult_gen_context_is_built (ecmult_gen_ctx ctx))
       ''secp256k1_ecmult_gen_context_is_built(&ctx->ecmult_gen_ctx)'' (False, signature)
      (ARG_CHECK ctx (msg32 \<noteq> None) ''msg32 != NULL'' (False, signature)
       (ARG_CHECK ctx (signature \<noteq> None) ''signature != NULL'' (False, signature)
        (ARG_CHECK ctx (seckey \<noteq> None) ''seckey != NULL'' (False, signature)
         (let noncefp = (case noncefp of None \<Rightarrow> secp256k1_nonce_function_default sha256 hmac keydata | Some f \<Rightarrow> f)
          in bind_run (of_loop (sign_with_key (ecmult_gen_ctx ctx) noncefp nonce32 (the msg32) (the seckey) noncedata (Some recid0)))
             (\<lambda>res. case res of
                Some (r, s, recid) \<Rightarrow>
                  Ret (True, Some (secp256k1_ecdsa_recoverable_signature_save (the signature) r s (the recid))) []
              | None \<Rightarrow> Ret (False, Some zero_recoverable) [])))))"

definition secp256k1_ecdsa_recover ::
  "ecmult_frame \<Rightarrow> secp256k1_ge \<Rightarrow> secp256k1_context \<Rightarrow> secp256k1_pubkey option \<Rightarrow>
   secp256k1_ecdsa_recoverable_signature option \<Rightarrow> u8 list option \<Rightarrow> (bool \<times> secp256k1_pubkey option) run" where
  "secp256k1_ecdsa_recover fr q ctx pubkey signature msg32 =
     ARG_CHECK ctx (secp256k1_ecmult_context_is_built (ecmult_ctx ctx))
       ''secp256k1_ecmult_context_is_built(&ctx->ecmult_ctx)'' (False, pubkey)
      (ARG_CHECK ctx (msg32 \<noteq> None) ''msg32 != NULL'' (False, pubkey)
       (ARG_CHECK ctx (signature \<noteq> None) ''signature != NULL'' (False, pubkey)
        (ARG_CHECK ctx (pubkey \<noteq> None) ''pubkey != NULL'' (False, pubkey)
         (let (r, s, recid) = secp256k1_ecdsa_recoverable_signature_load (the signature);
              m = fst (secp256k1_scalar_set_b32 (the msg32));
              (q, ok) = secp256k1_ecdsa_sig_recover fr (ecmult_ctx ctx) r s q m recid
          in if ok then Ret (True, Some (secp256k1_pubkey_save (the pubkey) q)) []
             else Ret (False, Some zero_pubkey) []))))"

subsection \<open>What an object holds\<close>

definition rsig_rep :: "int \<Rightarrow> int \<Rightarrow> int \<Rightarrow> secp256k1_ecdsa_recoverable_signature \<Rightarrow> bool" where
  "rsig_rep r s recid sig \<longleftrightarrow> length (rsig_data sig) = 65 \<and> 0 \<le> r \<and> r < secp256k1_n \<and> 0 \<le> s \<and> s < secp256k1_n \<and>
     scalar_val (bytes_scalar (rsig_data sig) 0) = r \<and> scalar_val (bytes_scalar (rsig_data sig) 32) = s \<and>
     uint (rsig_data sig ! 64) = recid"

lemma rsig_load_rep:
  assumes "rsig_rep r s recid sig"
  obtains a b where "secp256k1_ecdsa_recoverable_signature_load sig = (a, b, recid)" "scalar_ok a" "scalar_ok b"
    "scalar_val a = r" "scalar_val b = s"
proof (rule that)
  show "secp256k1_ecdsa_recoverable_signature_load sig =
      (bytes_scalar (rsig_data sig) 0, bytes_scalar (rsig_data sig) 32, recid)"
    using assms by (simp add: secp256k1_ecdsa_recoverable_signature_load_def rsig_rep_def)
qed (use assms in \<open>simp_all add: rsig_rep_def scalar_ok_def\<close>)

lemma rsig_save_load:
  assumes "length (rsig_data sig) = 65" and "0 \<le> recid" and "recid \<le> 3"
  shows "secp256k1_ecdsa_recoverable_signature_load (secp256k1_ecdsa_recoverable_signature_save sig r s recid) = (r, s, recid)"
    and "length (rsig_data (secp256k1_ecdsa_recoverable_signature_save sig r s recid)) = 65"
proof -
  obtain c rest where data: "drop 64 (rsig_data sig) = [c]"
    using assms(1) by (cases "drop 64 (rsig_data sig)") (auto simp: length_Suc_conv dest: arg_cong [where f = length])
  have d: "rsig_data (secp256k1_ecdsa_recoverable_signature_save sig r s recid) =
      scalar_bytes r @ scalar_bytes s @ [word_of_int recid]"
    using assms(1) data by (simp add: secp256k1_ecdsa_recoverable_signature_save_def buf_write_def list_update_append)
  have "uint (word_of_int recid :: u8) = recid" using assms(2,3) by (simp add: uint_word_of_int)
  then show "secp256k1_ecdsa_recoverable_signature_load (secp256k1_ecdsa_recoverable_signature_save sig r s recid) = (r, s, recid)"
    by (simp add: secp256k1_ecdsa_recoverable_signature_load_def d bytes_scalar_bytes bytes_scalar_append nth_append)
  show "length (rsig_data (secp256k1_ecdsa_recoverable_signature_save sig r s recid)) = 65" by (simp add: d)
qed

lemma rsig_save_rep:
  assumes "scalar_ok r" and "scalar_ok s" and "length (rsig_data sig) = 65" and "0 \<le> recid" and "recid \<le> 3"
  shows "rsig_rep (scalar_val r) (scalar_val s) recid (secp256k1_ecdsa_recoverable_signature_save sig r s recid)"
  using rsig_save_load [OF assms(3-5), of r s] assms(1,2)
  by (simp add: rsig_rep_def secp256k1_ecdsa_recoverable_signature_load_def scalar_ok_def)

subsection \<open>The operations on the values\<close>

lemma rec_parse_compact_api:
  assumes inp: "length inp = 64" and sig: "length (rsig_data sig) = 65" and recid: "0 \<le> recid" "recid \<le> 3"
  defines "r \<equiv> be_val (take 32 inp)" and "s \<equiv> be_val (drop 32 inp)"
  shows "if r < secp256k1_n \<and> s < secp256k1_n
    then \<exists>sig'. secp256k1_ecdsa_recoverable_signature_parse_compact ctx (Some sig) (Some inp) recid = Ret (True, Some sig') [] \<and>
           rsig_rep r s recid sig'
    else secp256k1_ecdsa_recoverable_signature_parse_compact ctx (Some sig) (Some inp) recid = Ret (False, Some zero_recoverable) []"
proof -
  obtain a b where a: "secp256k1_scalar_set_b32 (take 32 inp) = (a, of_bool (secp256k1_n \<le> r))" "scalar_ok a"
    "scalar_val a = r mod secp256k1_n"
    and b: "secp256k1_scalar_set_b32 (take 32 (drop 32 inp)) = (b, of_bool (secp256k1_n \<le> s))" "scalar_ok b"
    "scalar_val b = s mod secp256k1_n" unfolding r_def s_def by (rule set_b32_halves [OF inp])
  have run: "secp256k1_ecdsa_recoverable_signature_parse_compact ctx (Some sig) (Some inp) recid =
      (if r < secp256k1_n \<and> s < secp256k1_n then Ret (True, Some (secp256k1_ecdsa_recoverable_signature_save sig a b recid)) []
       else Ret (False, Some zero_recoverable) [])"
    using recid by (auto simp: secp256k1_ecdsa_recoverable_signature_parse_compact_def a(1) b(1) Let_def)
  show ?thesis using rsig_save_rep [OF a(2) b(2) sig recid] a(3) b(3) by (auto simp: run r_def s_def)
qed

lemma rec_serialize_compact_api:
  assumes "rsig_rep r s recid sig" and "length out = 64"
  obtains out' where "secp256k1_ecdsa_recoverable_signature_serialize_compact ctx (Some out) (Some i) (Some sig) =
      Ret (True, Some out', Some recid) []"
    "length out' = 64" "be_val (take 32 out') = r" "be_val (drop 32 out') = s"
proof -
  obtain a b where l: "secp256k1_ecdsa_recoverable_signature_load sig = (a, b, recid)" "scalar_val a = r" "scalar_val b = s"
    by (rule rsig_load_rep [OF assms(1)])
  define out' where "out' = secp256k1_scalar_get_b32 a @ secp256k1_scalar_get_b32 b"
  have "secp256k1_ecdsa_recoverable_signature_serialize_compact ctx (Some out) (Some i) (Some sig) =
      Ret (True, Some out', Some recid) []"
    using assms(2) by (simp add: secp256k1_ecdsa_recoverable_signature_serialize_compact_def l(1) buf_write_def out'_def)
  moreover have "length out' = 64" "be_val (take 32 out') = r" "be_val (drop 32 out') = s"
    using l(2,3) by (simp_all add: out'_def secp256k1_scalar_get_b32_val)
  ultimately show thesis by (rule that)
qed

lemma convert_api:
  assumes "rsig_rep r s recid sigin" and "length (sig_data sig) = 64"
  shows "\<exists>sig'. secp256k1_ecdsa_recoverable_signature_convert ctx (Some sig) (Some sigin) = Ret (True, Some sig') [] \<and> sig_rep r s sig'"
proof -
  obtain a b where l: "secp256k1_ecdsa_recoverable_signature_load sigin = (a, b, recid)" "scalar_ok a" "scalar_ok b"
    "scalar_val a = r" "scalar_val b = s" by (rule rsig_load_rep [OF assms(1)])
  show ?thesis using sig_save_rep [OF l(2,3) assms(2)] l(4,5)
    by (simp add: secp256k1_ecdsa_recoverable_signature_convert_def l(1))
qed

lemma recover_api:
  assumes fr: "ecmult_frame_ok fr" and ctx: "verify_context ctx" and sig: "rsig_rep r s recid sig" and msg: "length msg = 32"
    and pk: "length (pubkey_data pk) = 64"
  defines "z \<equiv> be_val msg mod secp256k1_n"
  shows "if \<exists>Q. ecdsa_recovers z r s recid Q
    then \<exists>Q pk'. ecdsa_recovers z r s recid Q \<and> pubkey_rep Q pk' \<and>
           secp256k1_ecdsa_recover fr q ctx (Some pk) (Some sig) (Some msg) = Ret (True, Some pk') []
    else secp256k1_ecdsa_recover fr q ctx (Some pk) (Some sig) (Some msg) = Ret (False, Some zero_pubkey) []"
proof -
  obtain a b where l: "secp256k1_ecdsa_recoverable_signature_load sig = (a, b, recid)" "scalar_ok a" "scalar_ok b"
    "scalar_val a = r" "scalar_val b = s" by (rule rsig_load_rep [OF sig])
  define m where "m = fst (secp256k1_scalar_set_b32 msg)"
  have m: "scalar_ok m" "scalar_val m = z" using msg by (simp_all add: m_def z_def scalar_set_b32_val)
  obtain c ok where run: "secp256k1_ecdsa_sig_recover fr (ecmult_ctx ctx) a b q m recid = (c, ok)" by fastforce
  note v = ecdsa_sig_recover_sound [OF fr ctx [unfolded verify_context_def] l(2,3) m(1), of q recid, unfolded run l(4,5) m(2) fst_conv snd_conv]
  have api: "secp256k1_ecdsa_recover fr q ctx (Some pk) (Some sig) (Some msg) =
      (if ok then Ret (True, Some (secp256k1_pubkey_save pk c)) [] else Ret (False, Some zero_pubkey) [])"
    using ctx by (simp add: secp256k1_ecdsa_recover_def l(1) m_def [symmetric] run)
  show ?thesis
  proof (cases ok)
    case True
    then obtain Q where Q: "ecdsa_recovers z r s recid Q" "ge_rep 1 Q c" using v(2) by blast
    have "pubkey_rep Q (secp256k1_pubkey_save pk c)"
      using Q by (intro pubkey_save_rep [OF _ _ pk]) (simp_all add: ecdsa_recovers_def)
    then show ?thesis using Q(1) True api by auto
  next
    case False
    then show ?thesis using v(1) api by auto
  qed
qed

lemma sign_recoverable_run:
  "sign_context ctx \<Longrightarrow>
    secp256k1_ecdsa_sign_recoverable sha256 hmac keydata nonce32 recid0 ctx (Some sig) (Some msg) (Some key) noncefp noncedata =
    (case sign_with_key (ecmult_gen_ctx ctx) (chosen_noncefp sha256 hmac keydata noncefp) nonce32 msg key noncedata (Some recid0) of
       None \<Rightarrow> Diverge
     | Some None \<Rightarrow> Ret (False, Some zero_recoverable) []
     | Some (Some (r, s, recid)) \<Rightarrow> Ret (True, Some (secp256k1_ecdsa_recoverable_signature_save sig r s (the recid))) [])"
  by (cases "sign_with_key (ecmult_gen_ctx ctx) (chosen_noncefp sha256 hmac keydata noncefp) nonce32 msg key noncedata (Some recid0)")
    (auto simp: secp256k1_ecdsa_sign_recoverable_def Let_def chosen_noncefp_def secp256k1_nonce_function_default_def split: option.splits)

lemma sign_recoverable_sound:
  assumes ctx: "sign_context ctx" and f: "nonce_function_ok (chosen_noncefp sha256 hmac keydata noncefp)"
    and len: "length msg = 32" "length key = 32" "length (rsig_data sig) = 65"
    and run: "secp256k1_ecdsa_sign_recoverable sha256 hmac keydata nonce32 recid0 ctx (Some sig) (Some msg) (Some key) noncefp noncedata =
      Ret (True, out) calls"
  defines "z \<equiv> be_val msg mod secp256k1_n"
  shows "calls = [] \<and> secret key \<and>
    (\<exists>k r s recid sig'. out = Some sig' \<and> rsig_rep r s recid sig' \<and> recid \<le> 3 \<and> signed_with k (be_val key) z r s \<and>
       (r \<noteq> 0 \<longrightarrow> ecdsa_recovers z r s recid (zmul (be_val key) gen)))"
proof -
  obtain r s rc where loop: "sign_with_key (ecmult_gen_ctx ctx) (chosen_noncefp sha256 hmac keydata noncefp) nonce32 msg key
      noncedata (Some recid0) = Some (Some (r, s, rc))"
    and out: "out = Some (secp256k1_ecdsa_recoverable_signature_save sig r s (the rc))" "calls = []"
    using run by (auto simp: sign_recoverable_run [OF ctx] split: option.splits)
  note c = ctx [unfolded sign_context_def]
  obtain n non where v: "secret key" "scalar_ok r" "scalar_ok s" "secret n" "scalar_ok non" "scalar_val non = be_val n"
    "signed_with (be_val n) (be_val key) z (scalar_val r) (scalar_val s)"
    "secp256k1_ecdsa_sig_sign (ecmult_gen_ctx ctx) (fst (secp256k1_scalar_set_b32 key)) (fst (secp256k1_scalar_set_b32 msg)) non
       (Some recid0) = (r, s, rc, True)"
    using sign_with_key_sound [OF c f len(1,2) loop] unfolding z_def by blast
  define sec m where "sec = fst (secp256k1_scalar_set_b32 key)" and "m = fst (secp256k1_scalar_set_b32 msg)"
  have ok: "scalar_ok sec" "scalar_ok m" "scalar_val sec = be_val key" "scalar_val m = z"
    using len(1,2) v(1) by (simp_all add: sec_def m_def z_def scalar_set_b32_val secret_mod)
  have nz: "scalar_val non \<noteq> 0" "scalar_val sec \<noteq> 0" using v(1,4,6) ok(3) by (simp_all add: secret_def)
  note sig = v(8) [folded sec_def m_def]
  note vals = ecdsa_sig_sign_vals(6) [OF c ok(1,2) v(5) nz(1) sig, OF TrueI]
  obtain recid where rc: "rc = Some recid" "0 \<le> recid" "recid \<le> 3" using vals by auto
  have "scalar_val r \<noteq> 0 \<Longrightarrow> ecdsa_recovers z (scalar_val r) (scalar_val s) recid (zmul (be_val key) gen)"
    using ecdsa_sign_recovers [OF c ok(1,2) v(5) nz sig [unfolded rc(1)]] by (simp add: ok(3,4))
  moreover have "rsig_rep (scalar_val r) (scalar_val s) recid (secp256k1_ecdsa_recoverable_signature_save sig r s recid)"
    by (rule rsig_save_rep [OF v(2,3) len(3) rc(2,3)])
  ultimately show ?thesis using out rc v(1,7) by auto
qed

text \<open>Recovery from what signing made gives the public key of the signer, unless \<open>r\<close> is zero.\<close>

lemma signed_then_recovered:
  assumes fr: "ecmult_frame_ok fr" and ctx: "verify_context ctx" and sig: "rsig_rep r s recid sig" and msg: "length msg = 32"
    and pk: "length (pubkey_data pk) = 64" and rec: "ecdsa_recovers (be_val msg mod secp256k1_n) r s recid P"
  shows "\<exists>pk'. secp256k1_ecdsa_recover fr q ctx (Some pk) (Some sig) (Some msg) = Ret (True, Some pk') [] \<and> pubkey_rep P pk'"
proof -
  have ex: "\<exists>Q. ecdsa_recovers (be_val msg mod secp256k1_n) r s recid Q" using rec by blast
  obtain Q pk' where Q: "ecdsa_recovers (be_val msg mod secp256k1_n) r s recid Q" "pubkey_rep Q pk'"
    "secp256k1_ecdsa_recover fr q ctx (Some pk) (Some sig) (Some msg) = Ret (True, Some pk') []"
    using recover_api [OF fr ctx sig msg pk, of q, unfolded if_P [OF ex]] by blast
  have "Q = P" by (rule ecdsa_recovers_unique [OF Q(1) rec])
  then show ?thesis using Q(2,3) by blast
qed

end
