(* ===== verification/Ecdh.thy ===== *)
theory Ecdh
  imports Api_Keys Ecmult_Const
begin

text \<open>
  The Diffie-Hellman module (\<open>modules/ecdh/main_impl.h\<close>): the constant-time product of the point of a
  key and a secret, hashed in the compressed form.
\<close>

definition secp256k1_ecdh ::
  "ecmult_frame \<Rightarrow> secp256k1_ge \<Rightarrow> secp256k1_sha256_t \<Rightarrow> secp256k1_context \<Rightarrow> u8 list option \<Rightarrow> secp256k1_pubkey option \<Rightarrow>
   u8 list option \<Rightarrow> (bool \<times> u8 list option) run" where
  "secp256k1_ecdh fr tmpa sha ctx result point scalar =
     ARG_CHECK ctx (result \<noteq> None) ''result != NULL'' (False, result)
      (ARG_CHECK ctx (point \<noteq> None) ''point != NULL'' (False, result)
       (ARG_CHECK ctx (scalar \<noteq> None) ''scalar != NULL'' (False, result)
        (bind_run (secp256k1_pubkey_load ctx (the point)) (\<lambda>(_, pt).
           let (s, overflow) = secp256k1_scalar_set_b32 (the scalar)
           in if overflow \<noteq> 0 \<or> secp256k1_scalar_is_zero s then Ret (False, result) []
              else (let res = secp256k1_ecmult_const fr tmpa pt s;
                        pt = fst (secp256k1_ge_set_gej res);
                        pt = pt\<lparr>ge_x := secp256k1_fe_normalize (ge_x pt)\<rparr>;
                        pt = pt\<lparr>ge_y := secp256k1_fe_normalize (ge_y pt)\<rparr>;
                        x = secp256k1_fe_get_b32 (ge_x pt);
                        y = [0x02 OR ucast (secp256k1_fe_is_odd (ge_y pt))];
                        sha = secp256k1_sha256_initialize sha;
                        sha = secp256k1_sha256_write sha y;
                        sha = secp256k1_sha256_write sha x;
                        (sha, out) = secp256k1_sha256_finalize sha
                    in Ret (True, Some (buf_write (the result) 0 out)) [])))))"

subsection \<open>Coordinates as bytes\<close>

lemma ge_rep_bytes:
  assumes "ge_rep 1 P e" and "P \<noteq> 0"
  shows "be_val (secp256k1_fe_get_b32 (secp256k1_fe_normalize (ge_x e))) = x_of P"
    and "be_val (secp256k1_fe_get_b32 (secp256k1_fe_normalize (ge_y e))) = y_of P"
    and "length (secp256k1_fe_get_b32 (secp256k1_fe_normalize (ge_x e))) = 32"
    and "length (secp256k1_fe_get_b32 (secp256k1_fe_normalize (ge_y e))) = 32"
    and "secp256k1_fe_is_odd (secp256k1_fe_normalize (ge_y e)) = of_bool (odd (y_of P))"
proof -
  note c = ge_rep_coords [OF assms]
  define x y where "x = secp256k1_fe_normalize (ge_x e)" and "y = secp256k1_fe_normalize (ge_y e)"
  note nx = fe_normalize_rep_canonical [OF c(1), folded x_def] and ny = fe_normalize_rep_canonical [OF c(2), folded y_def]
  have f: "fe_val x = x_of P" "fe_val y = y_of P" using nx(2) ny(2) x_of_bounds y_of_bounds by (simp_all add: gf_val_gf)
  show "be_val (secp256k1_fe_get_b32 (secp256k1_fe_normalize (ge_x e))) = x_of P"
    "be_val (secp256k1_fe_get_b32 (secp256k1_fe_normalize (ge_y e))) = y_of P"
    "length (secp256k1_fe_get_b32 (secp256k1_fe_normalize (ge_x e))) = 32"
    "length (secp256k1_fe_get_b32 (secp256k1_fe_normalize (ge_y e))) = 32"
    "secp256k1_fe_is_odd (secp256k1_fe_normalize (ge_y e)) = of_bool (odd (y_of P))"
    using fe_normalized_b32 [OF nx(1)] fe_normalized_b32 [OF ny(1)] f
    unfolding x_def [symmetric] y_def [symmetric] by (simp_all add: secp256k1_fe_is_odd_eq)
qed

text \<open>The compressed form of a point.\<close>

definition compressed :: "epoint \<Rightarrow> u8 list \<Rightarrow> bool" where
  "compressed P pub \<longleftrightarrow> length pub = 33 \<and> encodes pub P"

lemma compressed_unique:
  assumes "compressed P a" and "compressed P b"
  shows "a = b"
proof -
  have len: "length a = 33" "length b = 33" using assms by (simp_all add: compressed_def)
  have "a ! 0 = b ! 0" using assms by (auto simp: compressed_def encodes_def)
  moreover have "take 32 (drop 1 a) = take 32 (drop 1 b)"
    using assms by (intro be_val_inject) (auto simp: compressed_def encodes_def)
  ultimately show ?thesis using len by (cases a; cases b) simp_all
qed

lemma ecdh_api:
  assumes fr: "const_frame_ok fr" and sha: "sha_ok sha" and pk: "pubkey_rep P pk" and len: "length result = 32" "length key = 32"
  shows "if secret key
    then \<exists>pub. compressed (zmul (be_val key) P) pub \<and>
           secp256k1_ecdh fr tmpa sha ctx (Some result) (Some pk) (Some key) = Ret (True, Some (fips_sha256 pub)) []
    else secp256k1_ecdh fr tmpa sha ctx (Some result) (Some pk) (Some key) = Ret (False, Some result) []"
proof -
  obtain pt where pt: "secp256k1_pubkey_load ctx pk = Ret (True, pt) []" "ge_rep 1 P pt" by (rule pubkey_load_rep [OF pk])
  obtain s where s: "secp256k1_scalar_set_b32 key = (s, of_bool (secp256k1_n \<le> be_val key))" "scalar_ok s"
    "scalar_val s = be_val key mod secp256k1_n"
    "of_bool (secp256k1_n \<le> be_val key) = (0 :: u32) \<and> \<not> secp256k1_scalar_is_zero s \<longleftrightarrow> secret key"
    by (rule set_b32_key [OF len(2)])
  define e where "e = fst (secp256k1_ge_set_gej (secp256k1_ecmult_const fr tmpa pt s))"
  have "gej_rep 1 (zmul (scalar_val s) P) (secp256k1_ecmult_const fr tmpa pt s)"
    by (rule ecmult_const_rep [OF fr pt(2) pubkey_rep_nonzero [OF pk] s(2)])
  then have e: "ge_rep 1 (zmul (be_val key) P) e" unfolding e_def s(3) zmul_mod_n by (rule ge_rep_set_gej(1))
  define x where "x = secp256k1_fe_get_b32 (secp256k1_fe_normalize (ge_x e))"
  define y :: u8 where "y = 0x02 OR ucast (secp256k1_fe_is_odd (secp256k1_fe_normalize (ge_y e)))"
  show ?thesis
  proof (cases "secret key")
    case True
    then have nz: "zmul (be_val key) P \<noteq> 0"
      using pubkey_rep_nonzero [OF pk] zdvd_not_zless [of "be_val key" secp256k1_n] by (simp add: zmul_eq_0_iff secret_def)
    note b = ge_rep_bytes [OF e nz, folded x_def]
    have "y = (if odd (y_of (zmul (be_val key) P)) then 3 else 2)" by (simp add: y_def b(5))
    then have pub: "compressed (zmul (be_val key) P) (y # x)" using b nz by (auto simp: compressed_def encodes_def)
    have "length (fips_sha256 (y # x)) = 32" by (rule length_fips_sha256)
    then have "buf_write result 0 (snd (secp256k1_sha256_finalize (secp256k1_sha256_write (secp256k1_sha256_write
        (secp256k1_sha256_initialize sha) [y]) x))) = fips_sha256 (y # x)"
      using sha.run_out [OF sha_repr_initialize, of sha "[[y], x]"] sha b(3) len(1) by (simp add: sha_ok_def buf_write_def)
    then have "secp256k1_ecdh fr tmpa sha ctx (Some result) (Some pk) (Some key) = Ret (True, Some (fips_sha256 (y # x))) []"
      using True s(4) by (auto simp: secp256k1_ecdh_def pt(1) s(1) Let_def e_def [symmetric] x_def y_def case_prod_beta)
    then show ?thesis using True pub by auto
  next
    case False
    then have "secp256k1_ecdh fr tmpa sha ctx (Some result) (Some pk) (Some key) = Ret (False, Some result) []"
      using s(4) by (auto simp: secp256k1_ecdh_def pt(1) s(1))
    then show ?thesis using False by simp
  qed
qed

end
