(* ===== verification/Ext.thy ===== *)
theory Ext
  imports Recovery Ecdh
begin

text \<open>
  The functions the Go package adds to the library (\<open>crypto/secp256k1/ext.h\<close>).
\<close>

definition secp256k1_context_create_sign_verify :: "build_frame \<Rightarrow> secp256k1_context \<Rightarrow> secp256k1_context option run" where
  "secp256k1_context_create_sign_verify bf mem =
     secp256k1_context_create bf mem (SECP256K1_CONTEXT_SIGN OR SECP256K1_CONTEXT_VERIFY)"

text \<open>\<open>sig\<close> and \<open>pubkey\<close> are the uninitialised local objects.\<close>

definition secp256k1_ecdsa_recover_pubkey ::
  "ecmult_frame \<Rightarrow> secp256k1_ge \<Rightarrow> secp256k1_ecdsa_recoverable_signature \<Rightarrow> secp256k1_pubkey \<Rightarrow> secp256k1_context \<Rightarrow>
   u8 list \<Rightarrow> u8 list \<Rightarrow> u8 list \<Rightarrow> (bool \<times> u8 list option) run" where
  "secp256k1_ecdsa_recover_pubkey fr q sig pubkey ctx pubkey_out sigdata msgdata =
     bind_run (secp256k1_ecdsa_recoverable_signature_parse_compact ctx (Some sig) (Some (take 64 sigdata)) (uint (sigdata ! 64)))
      (\<lambda>(ok, sig).
        if \<not> ok then Ret (False, Some pubkey_out) []
        else bind_run (secp256k1_ecdsa_recover fr q ctx (Some pubkey) sig (Some msgdata))
         (\<lambda>(ok, pubkey).
           if \<not> ok then Ret (False, Some pubkey_out) []
           else (let outputlen = 65
                 in bind_run (secp256k1_ec_pubkey_serialize ctx (Some pubkey_out) (Some outputlen) pubkey SECP256K1_EC_UNCOMPRESSED)
                      (\<lambda>(ret, output, _). Ret (ret, output) []))))"

text \<open>The results of reading the two coordinates are not looked at, and no test of the curve equation is
  made.\<close>

definition secp256k1_pubkey_scalar_mul ::
  "ecmult_frame \<Rightarrow> secp256k1_ge \<Rightarrow> secp256k1_context \<Rightarrow> u8 list option \<Rightarrow> u8 list option \<Rightarrow> (bool \<times> u8 list option) run" where
  "secp256k1_pubkey_scalar_mul fr tmpa ctx point scalar =
     ARG_CHECK ctx (point \<noteq> None) ''point != NULL'' (False, point)
      (ARG_CHECK ctx (scalar \<noteq> None) ''scalar != NULL'' (False, point)
       (let feX = fst (secp256k1_fe_set_b32 (take 32 (the point)));
            feY = fst (secp256k1_fe_set_b32 (take 32 (drop 32 (the point))));
            ge = secp256k1_ge_set_xy feX feY;
            (s, overflow) = secp256k1_scalar_set_b32 (the scalar)
        in if overflow \<noteq> 0 \<or> secp256k1_scalar_is_zero s then Ret (False, point) []
           else (let res = secp256k1_ecmult_const fr tmpa ge s;
                     ge = fst (secp256k1_ge_set_gej res);
                     ge = ge\<lparr>ge_x := secp256k1_fe_normalize (ge_x ge)\<rparr>;
                     ge = ge\<lparr>ge_y := secp256k1_fe_normalize (ge_y ge)\<rparr>;
                     point = buf_write (the point) 0 (secp256k1_fe_get_b32 (ge_x ge));
                     point = buf_write point 32 (secp256k1_fe_get_b32 (ge_y ge))
                 in Ret (True, Some point) [])))"

lemma sign_verify_flags:
  "(SECP256K1_CONTEXT_SIGN OR SECP256K1_CONTEXT_VERIFY) AND SECP256K1_FLAGS_TYPE_MASK = SECP256K1_FLAGS_TYPE_CONTEXT"
  "(SECP256K1_CONTEXT_SIGN OR SECP256K1_CONTEXT_VERIFY) AND SECP256K1_FLAGS_BIT_CONTEXT_SIGN \<noteq> 0"
  "(SECP256K1_CONTEXT_SIGN OR SECP256K1_CONTEXT_VERIFY) AND SECP256K1_FLAGS_BIT_CONTEXT_VERIFY \<noteq> 0"
  by (simp_all add: SECP256K1_CONTEXT_SIGN_def SECP256K1_CONTEXT_VERIFY_def SECP256K1_FLAGS_TYPE_CONTEXT_def
      SECP256K1_FLAGS_BIT_CONTEXT_SIGN_def SECP256K1_FLAGS_BIT_CONTEXT_VERIFY_def SECP256K1_FLAGS_TYPE_MASK_def)

lemma create_sign_verify_ok:
  assumes "build_frame_ok bf" and "nums_point U"
  shows "secp256k1_context_create_sign_verify bf mem = Diverge \<or>
    (\<exists>ctx. secp256k1_context_create_sign_verify bf mem = Ret (Some ctx) [] \<and> sign_context ctx \<and> verify_context ctx \<and>
      illegal_callback ctx = default_illegal_callback)"
  using context_create_ok [OF assms sign_verify_flags(1), of mem] sign_verify_flags(2,3)
  unfolding secp256k1_context_create_sign_verify_def by auto

lemma recover_pubkey_api:
  fixes sigdata :: "u8 list"
  assumes fr: "ecmult_frame_ok fr" and ctx: "verify_context ctx" and locals: "length (rsig_data sig) = 65" "length (pubkey_data pk) = 64"
    and len: "length out = 65" "length sigdata = 65" "length msg = 32" and v: "uint (sigdata ! 64) \<le> 3"
  defines "r \<equiv> be_val (take 32 sigdata)" and "s \<equiv> be_val (take 32 (drop 32 sigdata))" and "z \<equiv> be_val msg mod secp256k1_n"
    and "recid \<equiv> uint (sigdata ! 64)"
  shows "if r < secp256k1_n \<and> s < secp256k1_n \<and> (\<exists>Q. ecdsa_recovers z r s recid Q)
    then \<exists>Q out'. ecdsa_recovers z r s recid Q \<and> length out' = 65 \<and> encodes out' Q \<and> out' ! 0 = 4 \<and>
           secp256k1_ecdsa_recover_pubkey fr q sig pk ctx out sigdata msg = Ret (True, Some out') []
    else secp256k1_ecdsa_recover_pubkey fr q sig pk ctx out sigdata msg = Ret (False, Some out) []"
proof -
  have inp: "length (take 64 sigdata) = 64" "take 32 (take 64 sigdata) = take 32 sigdata"
    "drop 32 (take 64 sigdata) = take 32 (drop 32 sigdata)"
    using len(2) by (simp_all add: min_def drop_take)
  note parse = rec_parse_compact_api [OF inp(1) locals(1), of "uint (sigdata ! 64)" ctx, OF _ v, unfolded inp(2,3)]
  show ?thesis
  proof (cases "r < secp256k1_n \<and> s < secp256k1_n")
    case False
    then show ?thesis using parse by (auto simp: secp256k1_ecdsa_recover_pubkey_def r_def s_def)
  next
    case True
    then obtain sig' where sig': "secp256k1_ecdsa_recoverable_signature_parse_compact ctx (Some sig) (Some (take 64 sigdata))
        (uint (sigdata ! 64)) = Ret (True, Some sig') []" "rsig_rep r s recid sig'"
      using parse by (auto simp: r_def s_def recid_def)
    note rec = recover_api [OF fr ctx sig'(2) len(3) locals(2), of q, folded z_def]
    show ?thesis
    proof (cases "\<exists>Q. ecdsa_recovers z r s recid Q")
      case False
      then show ?thesis using rec by (simp add: secp256k1_ecdsa_recover_pubkey_def sig'(1))
    next
      case ex: True
      obtain Q pk' where Q: "ecdsa_recovers z r s recid Q" "pubkey_rep Q pk'"
        "secp256k1_ecdsa_recover fr q ctx (Some pk) (Some sig') (Some msg) = Ret (True, Some pk') []"
        using rec [unfolded if_P [OF ex]] by blast
      obtain out' where o': "secp256k1_ec_pubkey_serialize ctx (Some out) (Some 65) (Some pk') SECP256K1_EC_UNCOMPRESSED =
          Ret (True, Some out', Some 65) []" "encodes (take 65 out') Q" "length out' = 65" "out' ! 0 = 4"
        by (rule pubkey_serialize_api [OF Q(2), of False 65 out SECP256K1_EC_UNCOMPRESSED ctx]) (use len(1) in simp_all)
      have "secp256k1_ecdsa_recover_pubkey fr q sig pk ctx out sigdata msg = Ret (True, Some out') []"
        by (simp add: secp256k1_ecdsa_recover_pubkey_def sig'(1) Q(3) o'(1) Let_def)
      then show ?thesis using True Q(1) o'(2-4) by auto
    qed
  qed
qed

lemma recover_pubkey_bad_recid:
  assumes "3 < uint (sigdata ! 64)"
  shows "secp256k1_ecdsa_recover_pubkey fr q sig pk ctx out sigdata msg =
    bind_run (illegal ctx ''recid >= 0 && recid <= 3'' (False, Some sig)) (\<lambda>_. Ret (False, Some out) [])"
  using assms illegal_cases [of ctx "''recid >= 0 && recid <= 3''" "(False, Some sig)"]
  by (auto simp: secp256k1_ecdsa_recover_pubkey_def secp256k1_ecdsa_recoverable_signature_parse_compact_def)

text \<open>64 bytes that are the coordinates of a point.\<close>

definition coordinates :: "epoint \<Rightarrow> u8 list \<Rightarrow> bool" where
  "coordinates P bs \<longleftrightarrow> length bs = 64 \<and> P \<noteq> 0 \<and> be_val (take 32 bs) = x_of P \<and> be_val (drop 32 bs) = y_of P"

lemma pubkey_scalar_mul_run:
  assumes "length key = 32"
  shows "secp256k1_pubkey_scalar_mul fr tmpa ctx (Some point) (Some key) =
    (if secret key
     then (let e = fst (secp256k1_ge_set_gej (secp256k1_ecmult_const fr tmpa
             (secp256k1_ge_set_xy (fst (secp256k1_fe_set_b32 (take 32 point))) (fst (secp256k1_fe_set_b32 (take 32 (drop 32 point)))))
             (fst (secp256k1_scalar_set_b32 key))))
           in Ret (True, Some (buf_write (buf_write point 0 (secp256k1_fe_get_b32 (secp256k1_fe_normalize (ge_x e)))) 32
                (secp256k1_fe_get_b32 (secp256k1_fe_normalize (ge_y e))))) [])
     else Ret (False, Some point) [])"
proof -
  obtain s where "secp256k1_scalar_set_b32 key = (s, of_bool (secp256k1_n \<le> be_val key))"
    "of_bool (secp256k1_n \<le> be_val key) = (0 :: u32) \<and> \<not> secp256k1_scalar_is_zero s \<longleftrightarrow> secret key"
    by (rule set_b32_key [OF assms])
  then show ?thesis by (auto simp: secp256k1_pubkey_scalar_mul_def Let_def)
qed

lemma pubkey_scalar_mul_api:
  assumes fr: "const_frame_ok fr" and P: "coordinates P point" and key: "secret key"
  shows "\<exists>point'. secp256k1_pubkey_scalar_mul fr tmpa ctx (Some point) (Some key) = Ret (True, Some point') [] \<and>
    coordinates (zmul (be_val key) P) point'"
proof -
  have len: "length key = 32" "length point = 64" and n: "P \<noteq> 0" using key P by (simp_all add: secret_def coordinates_def)
  define X Y where "X = take 32 point" and "Y = take 32 (drop 32 point)"
  have XY: "length X = 32" "length Y = 32" "be_val X = x_of P" "be_val Y = y_of P"
    using P by (simp_all add: X_def Y_def coordinates_def)
  define a where "a = secp256k1_ge_set_xy (fst (secp256k1_fe_set_b32 X)) (fst (secp256k1_fe_set_b32 Y))"
  have bounds: "be_val X < secp256k1_p" "be_val Y < secp256k1_p" using XY(3,4) x_of_bounds y_of_bounds by simp_all
  have r: "fe_rep 8 (gf (x_of P)) (ge_x a)" "fe_rep 8 (gf (y_of P)) (ge_y a)" "\<not> ge_infinity a"
    using fe_repI [OF fe_set_b32_rep(2) [OF XY(1) bounds(1)], of 8] fe_repI [OF fe_set_b32_rep(2) [OF XY(2) bounds(2)], of 8]
    by (simp_all add: a_def secp256k1_ge_set_xy_def XY(3,4))
  obtain u v where uv: "point_of P = Pt u v" using n by (cases "point_of P") auto
  then have u: "gf (x_of P) = u" "gf (y_of P) = v" using xy_of_Pt [OF uv] by simp_all
  then have "on_curve (Pt (gf (x_of P)) (gf (y_of P)))" using on_curve_point_of [of P] uv by simp
  note A = ge_rep_Pt [OF r this]
  have "epoint_of (Pt (gf (x_of P)) (gf (y_of P))) = P" using A(2) uv u by (simp add: point_of_inject [symmetric])
  then have a: "ge_rep 1 P a" using A(1) by simp
  define e where "e = fst (secp256k1_ge_set_gej (secp256k1_ecmult_const fr tmpa a (fst (secp256k1_scalar_set_b32 key))))"
  have "gej_rep 1 (zmul (scalar_val (fst (secp256k1_scalar_set_b32 key))) P)
      (secp256k1_ecmult_const fr tmpa a (fst (secp256k1_scalar_set_b32 key)))"
    using len(1) by (intro ecmult_const_rep [OF fr a n]) simp
  from ge_rep_set_gej(1) [OF this] have e: "ge_rep 1 (zmul (be_val key) P) e"
    by (simp add: e_def scalar_set_b32_val [OF len(1)] zmul_mod_n)
  have nz: "zmul (be_val key) P \<noteq> 0"
    using n key zdvd_not_zless [of "be_val key" secp256k1_n] by (simp add: zmul_eq_0_iff secret_def)
  note b = ge_rep_bytes [OF e nz]
  define point' where "point' = secp256k1_fe_get_b32 (secp256k1_fe_normalize (ge_x e)) @
    secp256k1_fe_get_b32 (secp256k1_fe_normalize (ge_y e))"
  have "coordinates (zmul (be_val key) P) point'" using b nz by (simp add: coordinates_def point'_def)
  moreover have "secp256k1_pubkey_scalar_mul fr tmpa ctx (Some point) (Some key) = Ret (True, Some point') []"
    unfolding pubkey_scalar_mul_run [OF len(1)] Let_def X_def [symmetric] Y_def [symmetric] a_def [symmetric] e_def [symmetric]
    using key len(2) b(3,4) by (simp add: buf_write_def point'_def)
  ultimately show ?thesis by blast
qed

end
