(* ===== verification/Api_Contexts.thy ===== *)
theory Api_Contexts
  imports Api_Keys
begin

text \<open>
  The life of a context: the calls that change it, as a step relation, and what every context that is
  reached by them keeps.
\<close>

text \<open>One call on a context: a randomization that returns, a clone into fresh memory, or the replacement
  of a callback.\<close>

inductive context_step :: "secp256k1_context \<Rightarrow> secp256k1_context \<Rightarrow> bool" where
  randomize: "sha_ok sha256 \<Longrightarrow> hmac_ok hmac \<Longrightarrow>
    secp256k1_context_randomize sha256 hmac ctx seed32 = Ret (ret, ctx') calls \<Longrightarrow> context_step ctx ctx'"
| clone: "context_step ctx (secp256k1_context_clone mem ctx)"
| set_illegal: "context_step ctx (secp256k1_context_set_illegal_callback ctx f data)"
| set_error: "context_step ctx (secp256k1_context_set_error_callback ctx f data)"

inductive_cases context_stepE: "context_step ctx ctx'"

inductive context_reach :: "secp256k1_context \<Rightarrow> secp256k1_context \<Rightarrow> bool" where
  start: "context_reach ctx ctx"
| more: "context_reach ctx ctx' \<Longrightarrow> context_step ctx' ctx'' \<Longrightarrow> context_reach ctx ctx''"

lemma context_clone_built:
  "secp256k1_ecmult_context_is_built (ecmult_ctx (secp256k1_context_clone mem ctx)) \<longleftrightarrow>
    secp256k1_ecmult_context_is_built (ecmult_ctx ctx)"
  "secp256k1_ecmult_gen_context_is_built (ecmult_gen_ctx (secp256k1_context_clone mem ctx)) \<longleftrightarrow>
    secp256k1_ecmult_gen_context_is_built (ecmult_gen_ctx ctx)"
  by (cases "pre_g (ecmult_ctx ctx)"; simp add: secp256k1_context_clone_def secp256k1_ecmult_context_clone_def
      secp256k1_ecmult_context_is_built_def)
     (cases "prec (ecmult_gen_ctx ctx)"; simp add: secp256k1_context_clone_def secp256k1_ecmult_gen_context_clone_def
      secp256k1_ecmult_gen_context_is_built_def)

lemma context_step_parts:
  assumes "context_step ctx ctx'"
  shows "verify_context ctx \<Longrightarrow> verify_context ctx'" and "sign_context ctx \<Longrightarrow> sign_context ctx'"
    and "secp256k1_ecmult_context_is_built (ecmult_ctx ctx') \<longleftrightarrow> secp256k1_ecmult_context_is_built (ecmult_ctx ctx)"
    and "secp256k1_ecmult_gen_context_is_built (ecmult_gen_ctx ctx') \<longleftrightarrow> secp256k1_ecmult_gen_context_is_built (ecmult_gen_ctx ctx)"
proof -
  have "(verify_context ctx \<longrightarrow> verify_context ctx') \<and> (sign_context ctx \<longrightarrow> sign_context ctx') \<and>
    (secp256k1_ecmult_context_is_built (ecmult_ctx ctx') \<longleftrightarrow> secp256k1_ecmult_context_is_built (ecmult_ctx ctx)) \<and>
    (secp256k1_ecmult_gen_context_is_built (ecmult_gen_ctx ctx') \<longleftrightarrow> secp256k1_ecmult_gen_context_is_built (ecmult_gen_ctx ctx))"
    using assms
  proof (cases rule: context_step.cases)
    case (randomize sha256 hmac seed32 ret calls)
    show ?thesis
    proof (cases "secp256k1_ecmult_gen_context_is_built (ecmult_gen_ctx ctx)")
      case True
      then obtain g where g: "secp256k1_ecmult_gen_blind sha256 hmac (ecmult_gen_ctx ctx) seed32 = Some g"
        "ctx' = ctx\<lparr>ecmult_gen_ctx := g\<rparr>"
        using randomize(3) by (cases "secp256k1_ecmult_gen_blind sha256 hmac (ecmult_gen_ctx ctx) seed32")
          (auto simp: secp256k1_context_randomize_def)
      have "sign_context ctx \<Longrightarrow> sign_context ctx'"
        using context_randomize_ok [OF randomize(1,2), of ctx seed32] randomize(3) by auto
      then show ?thesis using ecmult_gen_blind_prec [OF g(1)] g(2) True
        by (simp add: verify_context_def secp256k1_ecmult_gen_context_is_built_def)
    next
      case False
      then have "illegal ctx ''secp256k1_ecmult_gen_context_is_built(&ctx->ecmult_gen_ctx)'' (False, ctx) = Ret (ret, ctx') calls"
        using randomize(3) by (simp add: secp256k1_context_randomize_def)
      then have "ctx' = ctx"
        using illegal_cases [of ctx "''secp256k1_ecmult_gen_context_is_built(&ctx->ecmult_gen_ctx)''" "(False, ctx)"] by auto
      then show ?thesis by simp
    qed
  next
    case (clone mem)
    show ?thesis unfolding clone using context_clone_ok context_clone_built by blast
  qed (simp_all add: secp256k1_context_set_illegal_callback_def secp256k1_context_set_error_callback_def
      verify_context_def sign_context_def)
  then show "verify_context ctx \<Longrightarrow> verify_context ctx'" and "sign_context ctx \<Longrightarrow> sign_context ctx'"
    and "secp256k1_ecmult_context_is_built (ecmult_ctx ctx') \<longleftrightarrow> secp256k1_ecmult_context_is_built (ecmult_ctx ctx)"
    and "secp256k1_ecmult_gen_context_is_built (ecmult_gen_ctx ctx') \<longleftrightarrow> secp256k1_ecmult_gen_context_is_built (ecmult_gen_ctx ctx)"
    by blast+
qed

text \<open>By rule induction: every context that is reached can do what the first one could.\<close>

lemma context_reach_parts:
  "context_reach ctx ctx' \<Longrightarrow> (verify_context ctx \<longrightarrow> verify_context ctx') \<and> (sign_context ctx \<longrightarrow> sign_context ctx') \<and>
    (secp256k1_ecmult_context_is_built (ecmult_ctx ctx') \<longleftrightarrow> secp256k1_ecmult_context_is_built (ecmult_ctx ctx)) \<and>
    (secp256k1_ecmult_gen_context_is_built (ecmult_gen_ctx ctx') \<longleftrightarrow> secp256k1_ecmult_gen_context_is_built (ecmult_gen_ctx ctx))"
  by (induction rule: context_reach.induct) (use context_step_parts in blast)+

lemma context_destroy_cleared:
  "secp256k1_context_destroy (Some ctx) = Some ctx' \<Longrightarrow>
    \<not> secp256k1_ecmult_context_is_built (ecmult_ctx ctx') \<and> \<not> secp256k1_ecmult_gen_context_is_built (ecmult_gen_ctx ctx') \<and>
    scalar_val (blind (ecmult_gen_ctx ctx')) = 0"
  by (auto simp: secp256k1_context_destroy_def secp256k1_ecmult_context_clear_def secp256k1_ecmult_gen_context_clear_def
      secp256k1_ecmult_context_is_built_def secp256k1_ecmult_context_init_def secp256k1_ecmult_gen_context_is_built_def
      secp256k1_scalar_clear_def scalar_val_def scalar_limbs_def)

end
