(* ===== verification/Api_Samples.thy ===== *)
theory Api_Samples
  imports Recovery Ecdh Samples
begin

text \<open>
  Concrete objects of the interface: a context with both tables and callbacks that return, the secret key
  1 with its public key, and signatures. The properties are applied to them.
\<close>

definition sample_callback :: secp256k1_callback where
  "sample_callback = \<lparr>cb_fn = caller_fn 0, cb_data = None\<rparr>"

definition sample_context :: secp256k1_context where
  "sample_context = \<lparr>ecmult_ctx = sample_ctx, ecmult_gen_ctx = gen_context sample_prec,
     illegal_callback = sample_callback, error_callback = sample_callback\<rparr>"

definition sample_key :: "u8 list" where
  "sample_key = replicate 31 0 @ [1]"

definition sample_pubkey :: secp256k1_pubkey where
  "sample_pubkey = secp256k1_pubkey_save zero_pubkey secp256k1_ge_const_g"

definition sample_signature :: "u32 \<Rightarrow> u32 \<Rightarrow> secp256k1_ecdsa_signature" where
  "sample_signature r s = secp256k1_ecdsa_signature_save zero_signature (secp256k1_scalar_set_int r) (secp256k1_scalar_set_int s)"

definition sample_build_frame :: build_frame where
  "sample_build_frame = \<lparr>bf_d = secp256k1_gej_clear,
     bf_prej = replicate (ECMULT_TABLE_SIZE WINDOW_G) secp256k1_gej_clear,
     bf_zr = replicate (ECMULT_TABLE_SIZE WINDOW_G) secp256k1_fe_clear,
     bf_prea = replicate (ECMULT_TABLE_SIZE WINDOW_G) secp256k1_ge_clear,
     bf_mem = replicate (ECMULT_TABLE_SIZE WINDOW_G) (secp256k1_ge_to_storage secp256k1_ge_const_g),
     bf_precj = replicate 1024 secp256k1_gej_clear, bf_azi = replicate 1024 secp256k1_fe_clear,
     bf_gpre = replicate 1024 secp256k1_ge_clear,
     bf_gmem = replicate 64 (replicate 16 (secp256k1_ge_to_storage secp256k1_ge_const_g)),
     bf_sha = sample_sha, bf_hmac = sample_hmac\<rparr>"

lemma sample_contexts: "verify_context sample_context" "sign_context sample_context"
  using sample_ctx_ok sample_gen_ok by (simp_all add: verify_context_def sign_context_def sample_context_def)

lemma sample_gen_context: "ecmult_gen_ctx sample_context = gen_context sample_prec"
  by (simp add: sample_context_def)

lemma sample_key: "be_val sample_key = 1" "length sample_key = 32" "secret sample_key"
  by (simp_all add: sample_key_def secret_def be_val_def numeral_eq_Suc secp256k1_n_def)

lemma sample_pubkey: "pubkey_rep gen sample_pubkey"
  unfolding sample_pubkey_def by (rule pubkey_save_rep [OF ge_rep_gen gen_nonzero]) simp

lemma sample_signature: "sig_rep (uint r) (uint s) (sample_signature r s)"
  unfolding sample_signature_def
  using sig_save_rep [OF sample_scalar_ok sample_scalar_ok, of zero_signature r s] by (simp add: sample_scalar)

lemma sample_build_frame: "build_frame_ok sample_build_frame"
  using sample_hash_ok by (simp add: build_frame_ok_def sample_build_frame_def)

lemma sample_const_frame: "const_frame_ok sample_frame"
  using sample_frame_ok by (simp add: const_frame_ok_def sample_frame_def WNAF_SIZE_def WNAF_BITS_def WINDOW_A_def)

text \<open>The nonce function that always returns the number 1.\<close>

definition sample_noncefp :: nonce_function where
  "sample_noncefp = (\<lambda>_ _ _ _ _ _. Some (sample_key, True))"

lemma sample_noncefp_ok: "nonce_function_ok sample_noncefp"
  by (simp add: nonce_function_ok_def sample_noncefp_def sample_key(2))

text \<open>A run of the signing loop with it: key, message and nonce are 1, and \<open>R\<close> is the generator.\<close>

lemma sample_sign_with_key:
  obtains r s rc where "sign_with_key (gen_context sample_prec) sample_noncefp nonce32 sample_key sample_key noncedata recid =
    Some (Some (r, s, rc))" "scalar_val r \<noteq> 0"
proof -
  define sec where "sec = fst (secp256k1_scalar_set_b32 sample_key)"
  have sec: "scalar_ok sec" "scalar_val sec = 1"
    by (simp_all add: sec_def sample_key(2) scalar_set_b32_val sample_key(1) secp256k1_n_def)
  obtain r s rc ok where run: "secp256k1_ecdsa_sig_sign (gen_context sample_prec) sec sec sec recid = (r, s, rc, ok)"
    by (metis prod_cases4)
  have nz: "scalar_val sec \<noteq> 0" using sec(2) by simp
  have inv: "scalar_val (secp256k1_scalar_inverse sec) = 1"
    by (simp add: secp256k1_scalar_inverse_val sec(2) secp256k1_n_def)
  note v = ecdsa_sig_sign_vals [OF sample_gen_ok sec(1) sec(1) sec(1) nz run, unfolded sec(2) inv zmul_1 x_of_gen]
  have ok: "ok" using v(4) by (simp add: secp256k1_n_def)
  have r: "scalar_val r \<noteq> 0" using v(1) by (simp add: secp256k1_n_def)
  have at: "sign_attempt (gen_context sample_prec) sec sec recid sample_key = Some (r, s, rc)"
    unfolding sign_attempt_eq [OF sample_key(2)] using sample_key(3) run ok by (simp add: sec_def [symmetric])
  have set: "secp256k1_scalar_set_b32 sample_key = (sec, 0)"
    using secp256k1_scalar_set_b32_val(2) [OF sample_key(2)] by (simp add: sec_def prod_eq_iff sample_key(1) secp256k1_n_def)
  have "sign_with_key (gen_context sample_prec) sample_noncefp nonce32 sample_key sample_key noncedata recid = Some (Some (r, s, rc))"
    using at nz by (simp add: sign_with_key_def set secp256k1_scalar_is_zero_eq)
      (rule sign_loop_now [of _ _ _ sample_key], simp_all add: sample_noncefp_def)
  then show thesis using r by (rule that)
qed

lemma sample_sign_api:
  obtains out where "secp256k1_ecdsa_sign sha256 hmac keydata nonce32 sample_context (Some zero_signature) (Some sample_key)
    (Some sample_key) (Some sample_noncefp) None = Ret (True, Some out) []"
proof -
  obtain r s rc where "sign_with_key (gen_context sample_prec) sample_noncefp nonce32 sample_key sample_key None None =
      Some (Some (r, s, rc))" by (rule sample_sign_with_key)
  then show thesis
    using that by (simp add: sign_api_run [OF sample_contexts(2)] chosen_noncefp_def sample_gen_context)
qed

lemma sample_sign_recoverable_api:
  obtains out where "secp256k1_ecdsa_sign_recoverable sha256 hmac keydata nonce32 recid0 sample_context (Some zero_recoverable)
    (Some sample_key) (Some sample_key) (Some sample_noncefp) None = Ret (True, Some out) []"
proof -
  obtain r s rc where "sign_with_key (gen_context sample_prec) sample_noncefp nonce32 sample_key sample_key None (Some recid0) =
      Some (Some (r, s, rc))" by (rule sample_sign_with_key)
  then show thesis
    using that by (simp add: sign_recoverable_run [OF sample_contexts(2)] chosen_noncefp_def sample_gen_context)
qed

text \<open>A pair that satisfies the ECDSA equation for the key 1 and the number 1.\<close>

lemma sample_valid:
  obtains r s sig where "sig_rep r s sig" "s \<le> secp256k1_n div 2" "ecdsa_valid 1 r s gen"
proof -
  obtain r s rc where run: "sign_with_key (gen_context sample_prec) sample_noncefp [] sample_key sample_key None None =
      Some (Some (r, s, rc))" "scalar_val r \<noteq> 0" by (rule sample_sign_with_key)
  obtain k where v: "scalar_ok r" "scalar_ok s"
    "signed_with k (be_val sample_key) (be_val sample_key mod secp256k1_n) (scalar_val r) (scalar_val s)"
    using sign_with_key_sound [OF sample_gen_ok sample_noncefp_ok sample_key(2,2) run(1)] by blast
  have one: "(1 :: int) mod secp256k1_n = 1" by (simp add: secp256k1_n_def)
  then have "ecdsa_valid 1 (scalar_val r) (scalar_val s) gen" "scalar_val s \<le> secp256k1_n div 2"
    using v(3) run(2) unfolding signed_with_def sample_key(1) one zmul_1 by (blast, blast)
  then show thesis using that sig_save_rep [OF v(1,2), of zero_signature] by simp
qed

end
