(* ===== verification/Spec2Isabelle.thy ===== *)
theory Spec2Isabelle
  imports Ecdsa_Der Samples Ecmult_Const Ext Api_Contexts Api_Samples
begin

text \<open>
  The elliptic-curve core of the node: \<open>libsecp256k1\<close> as the \<open>go-musicoin\<close> sources carry it
  (\<open>src/go-musicoin-master/crypto/secp256k1/libsecp256k1/src\<close>). The package is built with the options
  of \<open>secp256.go\<close>: no bignum library (\<open>USE_NUM_NONE\<close>), the field on ten 26-bit limbs
  (\<open>USE_FIELD_10X26\<close>), the scalars on eight 32-bit limbs (\<open>USE_SCALAR_8X32\<close>), both inversions builtin,
  on a little-endian target, with \<open>VERIFY\<close> undefined. Every transaction signature of the node is made and
  checked by this code, so the development follows it from the limbs up.

  Theories and sources:
  \<^item> \<open>Secp_Prelude\<close>: word widths, values of limb lists and byte strings, \<open>fits\<close> (the bound calculus
    of the accumulators), byte buffers.
  \<^item> \<open>Scalar_Acc\<close>, \<open>Scalar_8x32\<close>: \<open>scalar_8x32_impl.h\<close>. The three-word accumulator of the macros
    \<open>muladd\<close>, \<open>sumadd\<close>, \<open>extract\<close> with its overflow conditions; the scalar operations, the 512-bit
    product by columns and its reduction modulo the group order \<open>secp256k1_n\<close>.
  \<^item> \<open>Mod_Chain\<close>: a locale for the addition chains of the inversions: a representation whose
    multiplication and squaring are right modulo \<open>N\<close> computes powers. It is interpreted by the scalars
    and by the field elements.
  \<^item> \<open>Scalar_Impl\<close>: \<open>scalar_impl.h\<close>, the inversion chain and the lambda decomposition.
  \<^item> \<open>Field_10x26\<close>, \<open>Field_Impl\<close>: \<open>field_10x26_impl.h\<close>, \<open>field_impl.h\<close>. Lazy limbs with their
    magnitudes (\<open>fe_magnitude m a\<close>: every limb at most \<open>m\<close> times the doubled limb bound, the invariant
    that the debug member \<open>magnitude\<close> of the source tracks), inner products, normalizations (and at
    \<open>fold_sum_0\<close>, \<open>fold_sum_1\<close> what they lose at magnitude 32),
    conversions, inversion and square root chains, batch inversion.
  \<^item> \<open>Prime_Cert\<close>: primality of the characteristic and of the group order by Pocklington
    certificates, and that minus seven is no cube.
  \<^item> \<open>Gf_P\<close>: the field \<open>gfp\<close> of the residues and the contracts \<open>fe_rules\<close> of the field operations.
  \<^item> \<open>Curve\<close>: the affine group operation \<open>padd\<close> and the identities behind the Jacobian formulas.
  \<^item> \<open>Group_Impl\<close>: \<open>group_impl.h\<close>; \<open>gej_ok\<close> is the invariant of a Jacobian element, \<open>gej_abs\<close> the
    point it stands for.
  \<^item> \<open>Curve_Group\<close>, \<open>Curve_Order\<close>: the points of the curve as a type \<open>epoint\<close> that is a commutative group
    (associativity by the line through two points), \<open>zmul\<close>, and the order: the group has exactly
    \<open>secp256k1_n\<close> points and is generated by the constant \<open>G\<close>. An element of norm \<open>n\<close> of the
    endomorphism ring kills \<open>G\<close>, by a chain of certified additions, and the number of points is an odd
    multiple of \<open>n\<close> that is at most \<open>2 * p + 1\<close>.
  \<^item> \<open>Scalar_Field\<close>, \<open>Group_Rep\<close>, \<open>Curve_Coords\<close>: what the layers above use. \<open>scalar_ok a\<close> says that a
    scalar is reduced, \<open>ge_rep S P a\<close> and \<open>gej_rep S P a\<close> that an object stands for the point \<open>P\<close> in the
    copy of the curve scaled by \<open>S\<close> (the tables live on such copies), \<open>x_of\<close> and \<open>y_of\<close> are the coordinates
    as numbers. The locale \<open>shift_add\<close> is the contract of a digit-by-digit multiplication.
  \<^item> \<open>Ecmult\<close>, \<open>Ecmult_Gen\<close>, \<open>Ecmult_Const\<close>: \<open>ecmult_impl.h\<close>, \<open>ecmult_gen_impl.h\<close>,
    \<open>ecmult_const_impl.h\<close>. \<open>ecmult_context_ok\<close> and \<open>ecmult_gen_context_ok\<close> are the invariants of the two
    contexts, established by the builders and kept by cloning and blinding.
  \<^item> \<open>Eckey\<close>: \<open>eckey_impl.h\<close>; \<open>encodes pub P\<close> is the encoding of SEC 1.
  \<^item> \<open>Hash\<close>: \<open>hash_impl.h\<close>, SHA-256 against FIPS 180-4, HMAC and the RFC 6979 generator; the locale
    \<open>stream_hash\<close> is the contract of an object that absorbs a stream, interpreted by both hashes.
  \<^item> \<open>Ecdsa_Der\<close>, \<open>Ecdsa\<close>: \<open>ecdsa_impl.h\<close>, and the core of recovery. A read of the DER parser outside the
    input is the value \<open>None\<close>, a rejected input \<open>Some None\<close>. \<open>ecdsa_valid z r s Q\<close> is the abstract
    specification of signatures, \<open>ecdsa_recovers\<close> that of recovery; signing, verification and recovery
    are proved against them.
  \<^item> \<open>Api_Types\<close>, \<open>Secp256k1\<close>: \<open>secp256k1.c\<close>. The value of a call is a \<open>run\<close>: a value with the callbacks
    it made, an abort of a default callback, or no return. A pointer that may be null is an option,
    \<open>ARG_CHECK\<close> the macro of the source. \<open>pubkey_rep P pk\<close> and \<open>sig_rep r s sig\<close> say what the opaque objects
    of bytes hold.
  \<^item> \<open>Api_Keys\<close>, \<open>Api_Signatures\<close>: the lemmas about the interface: contexts, keys, tweaks and sums; encodings
    of signatures, verification, the candidates of RFC 6979 (\<open>rfc_candidate\<close>), the loop of the signing
    functions.
  \<^item> \<open>Api_Contexts\<close>: the calls that change a context as a step relation; what every reachable context keeps.
  \<^item> \<open>Recovery\<close>, \<open>Ecdh\<close>, \<open>Ext\<close>: \<open>modules/recovery/main_impl.h\<close>, \<open>modules/ecdh/main_impl.h\<close> and the functions
    the Go package adds (\<open>ext.h\<close>).
  \<^item> \<open>Samples\<close>, \<open>Api_Samples\<close>: concrete contexts, keys and signatures, at which the properties are applied.

  A C object is a record or a list of words, a pointer result a component of the result; where the
  source leaves part of a result unwritten, or reads a local array it has not filled, the old contents are
  an argument (\<open>ecmult_frame\<close>, \<open>build_frame\<close>). \<open>int\<close> flags of the C code that only take the values 0 and 1
  are booleans, except where they enter arithmetic. Loops with a fixed number of rounds are folds over the
  index range, the others recursive functions with a termination proof. The loops that may not end (the
  retries of the blinding, the loop of the signing functions and that of the nonce function) are partial
  functions whose value \<open>None\<close> is that they never return; the properties say exactly when. Nothing uses
  fuel.

  Hypotheses: the frames have the sizes the source declares; \<open>malloc\<close> succeeds; a callback of the caller
  returns; a nonce function of the caller fills its 32 bytes; the objects for output are distinct from
  those for input. The correctness of a fresh signing context (\<open>context_create_ok\<close>) assumes that the
  point of unknown logarithm makes no entry of the table infinite (\<open>nums_point\<close>), which the source
  relies on as well.

  Not modelled: the alternative implementations that the build does not select (64-bit limbs,
  assembly, GMP, the endomorphism, the static precomputation), \<open>VERIFY\<close> checks, tests and benchmarks;
  the timing of the code, which its constant-time parts are written for. The rest of the C++ of the
  repository is third-party code carried by the mobile application.
\<close>

section \<open>Properties of the public interface\<close>

text \<open>C1: \<open>secp256k1_ecdsa_verify\<close> returns 1, calling no callback, exactly when the signature object holds
  a pair with \<open>s\<close> in the lower half of the range that satisfies the ECDSA equation for the point of the
  key object and the message.\<close>

theorem api_verify_decides:
  assumes "ecmult_frame_ok fr" and "verify_context ctx" and "sig_rep r s sig" and "length msg = 32" and "pubkey_rep Q pk"
  shows "secp256k1_ecdsa_verify fr ctx (Some sig) (Some msg) (Some pk) =
    Ret (s \<le> secp256k1_n div 2 \<and> ecdsa_valid (be_val msg mod secp256k1_n) r s Q) []"
  using assms by (rule verify_api)

theorem api_verify_decides_witness:
  "secp256k1_ecdsa_verify sample_frame sample_context (Some (sample_signature 2 3)) (Some sample_key) (Some sample_pubkey) =
    Ret (ecdsa_valid 1 2 3 gen) []"
  using api_verify_decides [OF sample_frame_ok sample_contexts(1) sample_signature [of 2 3] sample_key(2) sample_pubkey]
  by (simp add: sample_key(1) secp256k1_n_def)

text \<open>C2: what \<open>secp256k1_ecdsa_sign\<close> returns with the value 1, for whatever nonce function, is a signature
  object with \<open>s\<close> in the lower half of the range; the key was valid, no callback was called, and
  \<open>secp256k1_ecdsa_verify\<close> with the key object of \<open>secp256k1_ec_pubkey_create\<close> accepts it, except when \<open>r\<close>
  is zero.\<close>

theorem api_sign_verify_roundtrip:
  assumes "ecmult_frame_ok fr" and "verify_context vctx" and "sign_context ctx"
    and "nonce_function_ok (chosen_noncefp sha256 hmac keydata noncefp)"
    and "length msg = 32" and "length key = 32" and "length (sig_data sig) = 64"
    and "secp256k1_ecdsa_sign sha256 hmac keydata nonce32 ctx (Some sig) (Some msg) (Some key) noncefp noncedata =
      Ret (True, out) calls"
  shows "calls = [] \<and> (\<exists>sig' pk' r s. out = Some sig' \<and> sig_rep r s sig' \<and> s \<le> secp256k1_n div 2 \<and>
    secp256k1_ec_pubkey_create ctx (Some pk) (Some key) = Ret (True, Some pk') [] \<and>
    secp256k1_ecdsa_verify fr vctx (Some sig') (Some msg) (Some pk') = Ret (r \<noteq> 0) [])"
proof -
  obtain k r s sig' where v: "calls = []" "secret key" "out = Some sig'" "sig_rep r s sig'"
    "signed_with k (be_val key) (be_val msg mod secp256k1_n) r s"
    using sign_api_sound [OF assms(3-8)] by blast
  obtain pk' where pk': "secp256k1_ec_pubkey_create ctx (Some pk) (Some key) = Ret (True, Some pk') []"
    "pubkey_rep (zmul (be_val key) gen) pk'"
    using pubkey_create_api [OF assms(3,6), of pk] v(2) by auto
  have "s \<le> secp256k1_n div 2" using v(5) by (simp add: signed_with_def)
  then show ?thesis using v(1,3,4) pk' signed_then_verified [OF assms(1,2) v(4) assms(5) v(5) pk'(2)] by blast
qed

theorem api_sign_verify_roundtrip_witness:
  "\<exists>sig' pk' r. secp256k1_ecdsa_sign sample_sha sample_hmac (replicate 112 0) (replicate 32 0) sample_context (Some zero_signature)
      (Some sample_key) (Some sample_key) (Some sample_noncefp) None = Ret (True, Some sig') [] \<and>
    secp256k1_ecdsa_verify sample_frame sample_context (Some sig') (Some sample_key) (Some pk') = Ret (r \<noteq> (0 :: int)) []"
proof -
  obtain out where run: "secp256k1_ecdsa_sign sample_sha sample_hmac (replicate 112 0) (replicate 32 0) sample_context
      (Some zero_signature) (Some sample_key) (Some sample_key) (Some sample_noncefp) None = Ret (True, Some out) []"
    by (rule sample_sign_api)
  have "nonce_function_ok (chosen_noncefp sample_sha sample_hmac (replicate 112 0) (Some sample_noncefp))"
    by (simp add: chosen_noncefp_def sample_noncefp_ok)
  from api_sign_verify_roundtrip [OF sample_frame_ok sample_contexts this sample_key(2,2) _ run, where pk = zero_pubkey] run
  show ?thesis by auto
qed

text \<open>C3: with the default nonce function \<open>secp256k1_ecdsa_sign\<close> is the deterministic signature of RFC 6979:
  the candidates are tried in turn and the first that is a valid nonce and gives \<open>s\<close> other than zero is
  used. The counter has 32 bits; when the first \<open>2 ^ 32 - 1\<close> candidates all fail the call never
  returns, and it returns in every other case.\<close>

theorem api_sign_default:
  assumes "sha_ok sha256" and "hmac_ok hmac" and "length keydata = 112" and "sign_context ctx"
    and "secret key" and "length msg = 32" and "\<forall>d. noncedata = Some d \<longrightarrow> length d = 32"
    and "cand = (\<lambda>j. case rfc_init (nonce_key key msg noncedata None) of (K, V) \<Rightarrow> rfc_candidate K V j)"
    and "attempt = sign_attempt (ecmult_gen_ctx ctx) (fst (secp256k1_scalar_set_b32 key)) (fst (secp256k1_scalar_set_b32 msg)) None"
  shows "secp256k1_ecdsa_sign sha256 hmac keydata nonce32 ctx (Some sig) (Some msg) (Some key) None noncedata =
    (case first_some (\<lambda>j. attempt (cand j)) 0 (2 ^ 32 - 1) of
       None \<Rightarrow> Diverge
     | Some (r, s, _) \<Rightarrow> Ret (True, Some (secp256k1_ecdsa_signature_save sig r s)) [])"
proof -
  note run = sign_with_key_default [OF assms(1-3,5-7), where ctx = "ecmult_gen_ctx ctx" and recid = None and ?nonce32.0 = nonce32]
  show ?thesis unfolding sign_api_run [OF assms(4)] chosen_noncefp_def option.case run assms(8,9)
    by (simp del: first_some.simps split: option.split)
qed

theorem api_sign_default_witness:
  "secp256k1_ecdsa_sign sample_sha sample_hmac (replicate 112 0) (replicate 32 0) sample_context (Some zero_signature)
      (Some sample_key) (Some sample_key) None None = Diverge \<or>
   (\<exists>r s. secp256k1_ecdsa_sign sample_sha sample_hmac (replicate 112 0) (replicate 32 0) sample_context (Some zero_signature)
      (Some sample_key) (Some sample_key) None None = Ret (True, Some (secp256k1_ecdsa_signature_save zero_signature r s)) [])"
  using api_sign_default [OF sample_hash_ok _ sample_contexts(2) sample_key(3,2) _ refl refl,
      where keydata = "replicate 112 0" and noncedata = None and ?nonce32.0 = "replicate 32 0" and sig = zero_signature]
  by (simp del: first_some.simps split: option.splits) blast

text \<open>C4: the default nonce function returns, for the counter \<open>c\<close>, the candidate number \<open>c\<close> of RFC 6979
  section 3.2 keyed with the secret key, the message, the extra data and the name of the algorithm, for
  every counter but the largest: for \<open>UINT_MAX\<close> its loop \<open>i <= counter\<close> never ends.\<close>

theorem nonce_rfc6979_candidates:
  assumes "sha_ok sha256" and "hmac_ok hmac" and "length keydata = 112" and "length key32 = 32" and "length msg32 = 32"
    and "\<forall>d. data = Some d \<longrightarrow> length d = 32" and "\<forall>a. algo16 = Some a \<longrightarrow> length a = 16"
  shows "nonce_function_rfc6979 sha256 hmac keydata nonce32 msg32 key32 algo16 data counter =
    (if counter = - 1 then None
     else Some (let (K, V) = rfc_init (nonce_key key32 msg32 data algo16) in rfc_candidate K V (unat counter), True))"
  using assms by (rule nonce_function_rfc6979_eq)

theorem nonce_rfc6979_candidates_witness:
  "nonce_function_rfc6979 sample_sha sample_hmac (replicate 112 0) (replicate 32 0) sample_key sample_key None None 0xFFFFFFFF = None"
  using nonce_rfc6979_candidates [OF sample_hash_ok _ sample_key(2,2), where keydata = "replicate 112 0" and data = None and
      ?algo16.0 = None and ?nonce32.0 = "replicate 32 0" and counter = "0xFFFFFFFF"]
  by simp

text \<open>C5: a signature with \<open>r = 0\<close> can leave the interface. There is one nonce, the logarithm of a point
  with \<open>x\<close> coordinate \<open>n\<close>, with which \<open>secp256k1_ecdsa_sign\<close> returns 1 and a signature with \<open>r = 0\<close> for every
  context, every valid key and every message that is not a multiple of \<open>n\<close>; no call of
  \<open>secp256k1_ecdsa_verify\<close> on that signature returns 1, whatever the context, the message and the key object
  are. The comment in \<open>secp256k1_ecdsa_sig_sign\<close> leaves the test of \<open>r\<close> to its callers, which do not make it.\<close>

theorem api_sign_zero_r:
  "\<exists>n. secret n \<and> x_of (zmul (be_val n) gen) = secp256k1_n \<and>
    (\<forall>sha256 hmac keydata nonce32 ctx sig msg key noncedata.
      sign_context ctx \<longrightarrow> secret key \<longrightarrow> length msg = 32 \<longrightarrow> \<not> secp256k1_n dvd be_val msg \<longrightarrow> length (sig_data sig) = 64 \<longrightarrow>
      (\<exists>sig' s. secp256k1_ecdsa_sign sha256 hmac keydata nonce32 ctx (Some sig) (Some msg) (Some key)
          (Some (\<lambda>_ _ _ _ _ _. Some (n, True))) noncedata = Ret (True, Some sig') [] \<and> sig_rep 0 s sig' \<and>
        (\<forall>fr vctx msg' pk calls. secp256k1_ecdsa_verify fr vctx (Some sig') msg' pk \<noteq> Ret True calls)))"
proof -
  obtain n where n: "secret n" "x_of (zmul (be_val n) gen) = secp256k1_n" by (rule zero_r_nonce)
  have "\<exists>sig' s. secp256k1_ecdsa_sign sha256 hmac keydata nonce32 ctx (Some sig) (Some msg) (Some key)
          (Some (\<lambda>_ _ _ _ _ _. Some (n, True))) noncedata = Ret (True, Some sig') [] \<and> sig_rep 0 s sig'"
    if h: "sign_context ctx" "secret key" "length msg = 32" "\<not> secp256k1_n dvd be_val msg" "length (sig_data sig) = 64"
    for sha256 hmac keydata nonce32 ctx sig msg key noncedata
  proof -
    obtain r s rc where run: "sign_with_key (ecmult_gen_ctx ctx) (\<lambda>_ _ _ _ _ _. Some (n, True)) nonce32 msg key noncedata None =
        Some (Some (r, s, rc))" "scalar_ok r" "scalar_ok s" "scalar_val r = 0"
      by (rule sign_with_key_zero_r [OF h(1) [unfolded sign_context_def] h(2,3,4) n])
    have "sig_rep 0 (scalar_val s) (secp256k1_ecdsa_signature_save sig r s)"
      using sig_save_rep [OF run(2,3) h(5)] run(4) by simp
    moreover have "secp256k1_ecdsa_sign sha256 hmac keydata nonce32 ctx (Some sig) (Some msg) (Some key)
        (Some (\<lambda>_ _ _ _ _ _. Some (n, True))) noncedata = Ret (True, Some (secp256k1_ecdsa_signature_save sig r s)) []"
      by (simp add: sign_api_run [OF h(1)] chosen_noncefp_def run(1))
    ultimately show ?thesis by blast
  qed
  then show ?thesis using n verify_zero_r by meson
qed

theorem api_sign_zero_r_witness:
  "\<exists>n sig' s. secp256k1_ecdsa_sign sample_sha sample_hmac [] [] sample_context (Some zero_signature) (Some sample_key) (Some sample_key)
      (Some (\<lambda>_ _ _ _ _ _. Some (n, True))) None = Ret (True, Some sig') [] \<and> sig_rep 0 s sig' \<and>
    secp256k1_ecdsa_verify sample_frame sample_context (Some sig') (Some sample_key) (Some sample_pubkey) \<noteq> Ret True []"
proof -
  have m: "\<not> secp256k1_n dvd be_val sample_key" by (simp add: sample_key(1) secp256k1_n_def)
  have "length (sig_data zero_signature) = 64" by simp
  then show ?thesis using api_sign_zero_r sample_contexts(2) sample_key(3,2) m by meson
qed

text \<open>C6: recovery undoes signing at the interface: from what \<open>secp256k1_ecdsa_sign_recoverable\<close> returns,
  \<open>secp256k1_ecdsa_recover\<close> computes the public key of the signer, except when \<open>r\<close> is zero.\<close>

theorem api_sign_recover_roundtrip:
  assumes "ecmult_frame_ok fr" and "verify_context vctx" and "sign_context ctx"
    and "nonce_function_ok (chosen_noncefp sha256 hmac keydata noncefp)"
    and "length msg = 32" and "length key = 32" and "length (rsig_data sig) = 65" and "length (pubkey_data pk) = 64"
    and "secp256k1_ecdsa_sign_recoverable sha256 hmac keydata nonce32 recid0 ctx (Some sig) (Some msg) (Some key) noncefp noncedata =
      Ret (True, out) calls"
  shows "calls = [] \<and> (\<exists>sig' r s recid. out = Some sig' \<and> rsig_rep r s recid sig' \<and> recid \<le> 3 \<and>
    (r = 0 \<or> (\<exists>pk'. secp256k1_ecdsa_recover fr q vctx (Some pk) (Some sig') (Some msg) = Ret (True, Some pk') [] \<and>
       pubkey_rep (zmul (be_val key) gen) pk')))"
proof -
  obtain k r s recid sig' where v: "calls = []" "out = Some sig'" "rsig_rep r s recid sig'" "recid \<le> 3"
    "r \<noteq> 0 \<Longrightarrow> ecdsa_recovers (be_val msg mod secp256k1_n) r s recid (zmul (be_val key) gen)"
    using sign_recoverable_sound [OF assms(3-7,9)] by blast
  then show ?thesis using signed_then_recovered [OF assms(1,2) v(3) assms(5,8) v(5), of q] by blast
qed

theorem api_sign_recover_roundtrip_witness:
  "\<exists>sig' r s recid. secp256k1_ecdsa_sign_recoverable sample_sha sample_hmac [] [] 0 sample_context (Some zero_recoverable)
      (Some sample_key) (Some sample_key) (Some sample_noncefp) None = Ret (True, Some sig') [] \<and> rsig_rep r s recid sig'"
proof -
  obtain out where run: "secp256k1_ecdsa_sign_recoverable sample_sha sample_hmac [] [] 0 sample_context
      (Some zero_recoverable) (Some sample_key) (Some sample_key) (Some sample_noncefp) None = Ret (True, Some out) []"
    by (rule sample_sign_recoverable_api)
  have "nonce_function_ok (chosen_noncefp sample_sha sample_hmac [] (Some sample_noncefp))"
    by (simp add: chosen_noncefp_def sample_noncefp_ok)
  from api_sign_recover_roundtrip [OF sample_frame_ok sample_contexts this sample_key(2,2) _ _ run, where pk = zero_pubkey and q = secp256k1_ge_clear] run
  show ?thesis by auto
qed

text \<open>C7: \<open>secp256k1_ecdsa_recover_pubkey\<close>, which the Go package calls on 65 bytes of a peer, for a recovery
  number up to 3: it succeeds exactly when both numbers are reduced and a key is determined, and then
  writes the 65 byte encoding of the key, for which the signature is valid; otherwise it returns 0 and
  leaves the buffer. No callback is called.\<close>

theorem recover_pubkey_decides:
  assumes "ecmult_frame_ok fr" and "verify_context ctx" and "length (rsig_data sig) = 65" and "length (pubkey_data pk) = 64"
    and "length out = 65" and "length sigdata = 65" and "length msg = 32" and "uint (sigdata ! 64 :: u8) \<le> 3"
    and "r = be_val (take 32 sigdata)" and "s = be_val (take 32 (drop 32 sigdata))" and "z = be_val msg mod secp256k1_n"
  shows "if r < secp256k1_n \<and> s < secp256k1_n \<and> (\<exists>Q. ecdsa_recovers z r s (uint (sigdata ! 64)) Q)
    then \<exists>Q out'. ecdsa_recovers z r s (uint (sigdata ! 64)) Q \<and> ecdsa_valid z r s Q \<and> encodes out' Q \<and> out' ! 0 = 4 \<and>
           length out' = 65 \<and> secp256k1_ecdsa_recover_pubkey fr q sig pk ctx out sigdata msg = Ret (True, Some out') []
    else secp256k1_ecdsa_recover_pubkey fr q sig pk ctx out sigdata msg = Ret (False, Some out) []"
proof (cases "r < secp256k1_n \<and> s < secp256k1_n \<and> (\<exists>Q. ecdsa_recovers z r s (uint (sigdata ! 64)) Q)")
  case True
  show ?thesis
    using recover_pubkey_api [OF assms(1-8), of q, folded assms(9-11), unfolded if_P [OF True]]
    unfolding if_P [OF True] by (blast dest: ecdsa_recovers_valid)
next
  case False
  show ?thesis
    using recover_pubkey_api [OF assms(1-8), of q, folded assms(9-11), unfolded if_not_P [OF False]]
    unfolding if_not_P [OF False] .
qed

theorem recover_pubkey_decides_witness:
  "secp256k1_ecdsa_recover_pubkey sample_frame secp256k1_ge_clear zero_recoverable zero_pubkey sample_context
     (replicate 65 7) (replicate 65 0) sample_key = Ret (False, Some (replicate 65 7)) []"
proof -
  have "be_val (take 32 (replicate 65 0)) = 0" by (simp add: be_val_def numeral_eq_Suc)
  then show ?thesis
    using recover_pubkey_decides [OF sample_frame_ok sample_contexts(1) _ _ _ _ sample_key(2) _ refl refl refl,
        of zero_recoverable zero_pubkey "replicate 65 7" "replicate 65 0" secp256k1_ge_clear]
    by (simp add: ecdsa_recovers_def)
qed

text \<open>C8: \<open>secp256k1_pubkey_scalar_mul\<close> of the Go package: for the coordinates of a point of the curve and a
  valid scalar it replaces them by the coordinates of the product. (For 64 bytes that are no point of the
  curve it returns 1 as well, as \<open>pubkey_scalar_mul_unchecked\<close> shows.)\<close>

theorem pubkey_scalar_mul_correct:
  assumes "const_frame_ok fr" and "coordinates P point" and "secret key"
  shows "\<exists>point'. secp256k1_pubkey_scalar_mul fr tmpa ctx (Some point) (Some key) = Ret (True, Some point') [] \<and>
    coordinates (zmul (be_val key) P) point'"
  using assms by (rule pubkey_scalar_mul_api)

theorem pubkey_scalar_mul_correct_witness:
  "\<exists>point point'. secp256k1_pubkey_scalar_mul sample_frame secp256k1_ge_clear sample_context (Some point) (Some sample_key) =
      Ret (True, Some point') [] \<and> coordinates gen point'"
proof -
  define point where "point = secp256k1_fe_get_b32 (secp256k1_fe_normalize (ge_x secp256k1_ge_const_g)) @
    secp256k1_fe_get_b32 (secp256k1_fe_normalize (ge_y secp256k1_ge_const_g))"
  have "coordinates gen point"
    using ge_rep_bytes [OF ge_rep_gen gen_nonzero] gen_nonzero by (simp add: coordinates_def point_def)
  from pubkey_scalar_mul_correct [OF sample_const_frame this sample_key(3), of secp256k1_ge_clear sample_context] show ?thesis
    by (auto simp: sample_key(1))
qed

text \<open>Whatever the 64 bytes are, a valid scalar makes the function return 1: coordinates that are not reduced
  or not on the curve are not detected.\<close>

theorem pubkey_scalar_mul_unchecked:
  assumes "secret key"
  shows "\<exists>point'. secp256k1_pubkey_scalar_mul fr tmpa ctx (Some point) (Some key) = Ret (True, Some point') []"
  using assms pubkey_scalar_mul_run [of key fr tmpa ctx point] by (simp add: secret_def Let_def)

text \<open>C9: Diffie-Hellman agrees: from the public key of one side and the secret of the other, both calls of
  \<open>secp256k1_ecdh\<close> return the same 32 bytes, the SHA-256 of the compressed form of the product.\<close>

theorem ecdh_agrees:
  assumes "const_frame_ok fr" and "const_frame_ok fr'" and "sha_ok sha" and "sha_ok sha'" and "secret a" and "secret b"
    and "pubkey_rep (zmul (be_val a) gen) pka" and "pubkey_rep (zmul (be_val b) gen) pkb"
    and "length result = 32" and "length result' = 32"
  shows "\<exists>pub. compressed (zmul (be_val a * be_val b) gen) pub \<and>
    secp256k1_ecdh fr tmpa sha ctx (Some result) (Some pkb) (Some a) = Ret (True, Some (fips_sha256 pub)) [] \<and>
    secp256k1_ecdh fr' tmpa' sha' ctx' (Some result') (Some pka) (Some b) = Ret (True, Some (fips_sha256 pub)) []"
proof -
  have len: "length a = 32" "length b = 32" using assms(5,6) by (simp_all add: secret_def)
  have ab: "zmul (be_val a) (zmul (be_val b) gen) = zmul (be_val a * be_val b) gen"
    "zmul (be_val b) (zmul (be_val a) gen) = zmul (be_val a * be_val b) gen"
    by (simp_all only: zmul_mult [symmetric] mult.commute)
  obtain p where p: "compressed (zmul (be_val a * be_val b) gen) p"
    "secp256k1_ecdh fr tmpa sha ctx (Some result) (Some pkb) (Some a) = Ret (True, Some (fips_sha256 p)) []"
    using ecdh_api [OF assms(1,3,8,9) len(1), of tmpa ctx] assms(5) by (auto simp: ab)
  obtain p' where p': "compressed (zmul (be_val a * be_val b) gen) p'"
    "secp256k1_ecdh fr' tmpa' sha' ctx' (Some result') (Some pka) (Some b) = Ret (True, Some (fips_sha256 p')) []"
    using ecdh_api [OF assms(2,4,7,10) len(2), of tmpa' ctx'] assms(6) by (auto simp: ab)
  show ?thesis using p p' compressed_unique [OF p(1) p'(1)] by blast
qed

theorem ecdh_agrees_witness:
  "\<exists>pub. compressed gen pub \<and>
    secp256k1_ecdh sample_frame secp256k1_ge_clear sample_sha sample_context (Some (replicate 32 0)) (Some sample_pubkey)
      (Some sample_key) = Ret (True, Some (fips_sha256 pub)) []"
proof -
  have "pubkey_rep (zmul (be_val sample_key) gen) sample_pubkey" using sample_pubkey by (simp add: sample_key(1))
  from ecdh_agrees [OF sample_const_frame sample_const_frame sample_hash_ok(1) sample_hash_ok(1) sample_key(3,3) this this,
      of "replicate 32 0" "replicate 32 0" secp256k1_ge_clear sample_context secp256k1_ge_clear sample_context]
  show ?thesis by (simp add: sample_key(1))
qed

text \<open>C10: tweaking by addition commutes with taking the public key at the interface: for a secret key, its
  key object and any 32 bytes of tweak, \<open>secp256k1_ec_privkey_tweak_add\<close> and
  \<open>secp256k1_ec_pubkey_tweak_add\<close> return the same value, and on success the new key object is that of the
  new secret key.\<close>

theorem api_tweak_add_consistent:
  assumes "ecmult_frame_ok fr" and "verify_context ctx" and "secret key" and "length tweak = 32"
    and "pubkey_rep (zmul (be_val key) gen) pk"
  shows "\<exists>ok key' pk'. secp256k1_ec_privkey_tweak_add ctx (Some key) (Some tweak) = Ret (ok, Some key') [] \<and>
    secp256k1_ec_pubkey_tweak_add fr p ctx (Some pk) (Some tweak) = Ret (ok, Some pk') [] \<and>
    (if ok then secret key' \<and> pubkey_rep (zmul (be_val key') gen) pk' else pk' = zero_pubkey)"
proof -
  define tot where "tot = (be_val key + be_val tweak) mod secp256k1_n"
  have len: "length key = 32" using assms(3) by (simp add: secret_def)
  obtain key' where key': "secp256k1_ec_privkey_tweak_add ctx (Some key) (Some tweak) =
      Ret (be_val tweak < secp256k1_n \<and> tot \<noteq> 0, Some key') []"
    "length key' = 32" "be_val key' = (if be_val tweak < secp256k1_n then tot else 0)"
    unfolding tot_def by (rule privkey_tweak_add_api [OF len assms(4)])
  have Q: "zmul (be_val key) gen + zmul (be_val tweak) gen = zmul tot gen" by (simp only: tot_def zmul_mod_n zmul_add)
  have b: "0 \<le> tot" "tot < secp256k1_n" using n_pos by (simp_all add: tot_def)
  then have nz: "zmul tot gen \<noteq> 0 \<longleftrightarrow> tot \<noteq> 0"
    using gen_nonzero zdvd_not_zless [of tot secp256k1_n] by (auto simp: zmul_eq_0_iff order.strict_iff_order)
  note p = pubkey_tweak_add_api [OF assms(1,2,5,4), of p, unfolded Q nz]
  show ?thesis
  proof (cases "be_val tweak < secp256k1_n \<and> tot \<noteq> 0")
    case True
    then have "secret key'" using key'(2,3) b by (simp add: secret_def order.strict_iff_order)
    then show ?thesis using True key' p by auto
  next
    case False
    then show ?thesis using key'(1) p by auto
  qed
qed

theorem api_tweak_add_consistent_witness:
  "\<exists>ok key' pk'. secp256k1_ec_privkey_tweak_add sample_context (Some sample_key) (Some sample_key) = Ret (ok, Some key') [] \<and>
    secp256k1_ec_pubkey_tweak_add sample_frame secp256k1_ge_clear sample_context (Some sample_pubkey) (Some sample_key) =
      Ret (ok, Some pk') []"
proof -
  have "pubkey_rep (zmul (be_val sample_key) gen) sample_pubkey" using sample_pubkey by (simp add: sample_key(1))
  from api_tweak_add_consistent [OF sample_frame_ok sample_contexts(1) sample_key(3,2) this, of secp256k1_ge_clear]
  show ?thesis by blast
qed

text \<open>C11: \<open>secp256k1_ec_pubkey_combine\<close> returns the sum of the points of the key objects, and 0 with a zeroed
  object exactly when the sum is the point at infinity.\<close>

theorem api_combine_sum:
  assumes "list_all2 pubkey_rep Ps pks" and "pks \<noteq> []"
  shows "if sum_list Ps \<noteq> 0
    then \<exists>pk'. secp256k1_ec_pubkey_combine ctx (Some pk) (Some pks) (length pks) = Ret (True, Some pk') [] \<and>
           pubkey_rep (sum_list Ps) pk'
    else secp256k1_ec_pubkey_combine ctx (Some pk) (Some pks) (length pks) = Ret (False, Some zero_pubkey) []"
  using assms by (rule pubkey_combine_api)

theorem api_combine_sum_witness:
  "\<exists>pk'. secp256k1_ec_pubkey_combine sample_context (Some zero_pubkey) (Some [sample_pubkey]) 1 = Ret (True, Some pk') [] \<and>
    pubkey_rep gen pk'"
  using api_combine_sum [of "[gen]" "[sample_pubkey]" sample_context zero_pubkey] sample_pubkey gen_nonzero by simp

text \<open>C12: a key object serialized by \<open>secp256k1_ec_pubkey_serialize\<close> in either form into a buffer that is
  long enough, and parsed again by \<open>secp256k1_ec_pubkey_parse\<close>, is an object of the same point.\<close>

theorem api_pubkey_roundtrip:
  assumes "pubkey_rep P pk" and "(if small then 33 else 65) \<le> siz" and "siz \<le> length out"
    and "flags = (if small then SECP256K1_EC_COMPRESSED else SECP256K1_EC_UNCOMPRESSED)"
  shows "\<exists>out' len pk'. secp256k1_ec_pubkey_serialize ctx (Some out) (Some siz) (Some pk) flags = Ret (True, Some out', Some len) [] \<and>
    secp256k1_ec_pubkey_parse Q ctx' (Some pk0) (Some (take len out')) = Ret (True, Some pk') [] \<and> pubkey_rep P pk'"
proof -
  obtain out' where o': "secp256k1_ec_pubkey_serialize ctx (Some out) (Some siz) (Some pk) flags =
      Ret (True, Some out', Some (if small then 33 else 65)) []" "encodes (take (if small then 33 else 65) out') P"
    by (rule pubkey_serialize_api [OF assms])
  obtain pk' where "secp256k1_ec_pubkey_parse Q ctx' (Some pk0) (Some (take (if small then 33 else 65) out')) =
      Ret (True, Some pk') []" "pubkey_rep P pk'"
    by (rule pubkey_parse_encodes [OF o'(2)])
  then show ?thesis using o'(1) by blast
qed

theorem api_pubkey_roundtrip_witness:
  "\<exists>out' len pk'. secp256k1_ec_pubkey_serialize sample_context (Some (replicate 33 0)) (Some 33) (Some sample_pubkey)
      SECP256K1_EC_COMPRESSED = Ret (True, Some out', Some len) [] \<and>
    secp256k1_ec_pubkey_parse secp256k1_ge_clear sample_context (Some zero_pubkey) (Some (take len out')) = Ret (True, Some pk') [] \<and>
    pubkey_rep gen pk'"
  using api_pubkey_roundtrip [OF sample_pubkey, of True 33 "replicate 33 0" SECP256K1_EC_COMPRESSED] by simp

text \<open>C13: bytes that encode no point make \<open>secp256k1_ec_pubkey_parse\<close> return 0 and zero the object. A zeroed
  object makes \<open>secp256k1_ecdsa_verify\<close> call the callback for illegal arguments, after which it returns 0
  when the callback returns and is aborted by the default one; only a signature with \<open>s\<close> in the upper half
  is rejected before, with no callback.\<close>

theorem api_rejected_key_is_illegal:
  assumes "verify_context ctx" and "\<nexists>P. encodes inp P" and "sig_rep r s sig"
  shows "secp256k1_ec_pubkey_parse Q ctx (Some pk) (Some inp) = Ret (False, Some zero_pubkey) [] \<and>
    secp256k1_ecdsa_verify fr ctx (Some sig) (Some msg) (Some zero_pubkey) =
      (let call = [(illegal_callback ctx, ''!secp256k1_fe_is_zero(&ge->x)'')]
       in if secp256k1_n div 2 < s then Ret False []
          else case cb_fn (illegal_callback ctx) of caller_fn _ \<Rightarrow> Ret False call | _ \<Rightarrow> Abort call)"
proof (cases "secp256k1_n div 2 < s")
  case True
  then show ?thesis using pubkey_parse_rejects [OF assms(2)] verify_high_s [OF assms(1,3) True, of fr msg zero_pubkey] by simp
next
  case False
  then show ?thesis using pubkey_parse_rejects [OF assms(2)] verify_zero_pubkey [OF assms(1,3), of fr msg]
    by (cases "cb_fn (illegal_callback ctx)") (simp_all add: illegal_def ARG_CHECK_def secp256k1_callback_call_def)
qed

theorem api_rejected_key_is_illegal_witness:
  "secp256k1_ec_pubkey_parse secp256k1_ge_clear sample_context (Some zero_pubkey) (Some [2, 1]) = Ret (False, Some zero_pubkey) [] \<and>
    secp256k1_ecdsa_verify sample_frame sample_context (Some (sample_signature 2 3)) (Some sample_key) (Some zero_pubkey) =
      Ret False [(sample_callback, ''!secp256k1_fe_is_zero(&ge->x)'')]"
proof -
  have "\<nexists>P. encodes [2, 1] P" by (simp add: encodes_def)
  from api_rejected_key_is_illegal [OF sample_contexts(1) this sample_signature [of 2 3]] show ?thesis
    by (simp add: secp256k1_n_def sample_context_def sample_callback_def)
qed

text \<open>C14: \<open>secp256k1_ecdsa_signature_parse_compact\<close> accepts exactly two reduced numbers, and
  \<open>secp256k1_ecdsa_signature_serialize_compact\<close> gives the 64 bytes back; otherwise the object is zeroed.\<close>

theorem api_compact_roundtrip:
  assumes "length inp = 64" and "length (sig_data sig) = 64" and "length out = 64"
  shows "if be_val (take 32 inp) < secp256k1_n \<and> be_val (drop 32 inp) < secp256k1_n
    then \<exists>sig'. secp256k1_ecdsa_signature_parse_compact ctx (Some sig) (Some inp) = Ret (True, Some sig') [] \<and>
           secp256k1_ecdsa_signature_serialize_compact ctx' (Some out) (Some sig') = Ret (True, Some inp) []
    else secp256k1_ecdsa_signature_parse_compact ctx (Some sig) (Some inp) = Ret (False, Some zero_signature) []"
proof (cases "be_val (take 32 inp) < secp256k1_n \<and> be_val (drop 32 inp) < secp256k1_n")
  case True
  then obtain sig' where p: "secp256k1_ecdsa_signature_parse_compact ctx (Some sig) (Some inp) = Ret (True, Some sig') []"
    "sig_rep (be_val (take 32 inp)) (be_val (drop 32 inp)) sig'"
    using parse_compact_api [OF assms(1,2), of ctx] by auto
  obtain out' where o': "secp256k1_ecdsa_signature_serialize_compact ctx' (Some out) (Some sig') = Ret (True, Some out') []"
    "length out' = 64" "be_val (take 32 out') = be_val (take 32 inp)" "be_val (drop 32 out') = be_val (drop 32 inp)"
    by (rule serialize_compact_api [OF p(2) assms(3)])
  have "take 32 out' = take 32 inp" "drop 32 out' = drop 32 inp"
    using o'(2-4) assms(1) by (auto intro: be_val_inject)
  then have "out' = inp" by (metis append_take_drop_id)
  then show ?thesis using True p(1) o'(1) by auto
next
  case False
  then show ?thesis using parse_compact_api [OF assms(1,2), of ctx] by auto
qed

theorem api_compact_roundtrip_witness:
  "\<exists>sig'. secp256k1_ecdsa_signature_parse_compact sample_context (Some zero_signature) (Some (sample_key @ sample_key)) =
      Ret (True, Some sig') [] \<and>
    secp256k1_ecdsa_signature_serialize_compact sample_context (Some (replicate 64 0)) (Some sig') =
      Ret (True, Some (sample_key @ sample_key)) []"
  using api_compact_roundtrip [of "sample_key @ sample_key" zero_signature "replicate 64 0" sample_context sample_context]
  by (simp add: sample_key(1,2) secp256k1_n_def)

text \<open>C15: \<open>secp256k1_ecdsa_signature_normalize\<close> returns whether \<open>s\<close> was in the upper half, and its output is
  accepted by \<open>secp256k1_ecdsa_verify\<close> for every pair that satisfies the ECDSA equation, also for those
  the verification rejects for their high \<open>s\<close>.\<close>

theorem api_normalize_accepts:
  assumes "ecmult_frame_ok fr" and "verify_context ctx" and "sig_rep r s sig" and "length (sig_data out) = 64"
    and "length msg = 32" and "pubkey_rep Q pk" and "ecdsa_valid (be_val msg mod secp256k1_n) r s Q"
  shows "\<exists>out'. secp256k1_ecdsa_signature_normalize ctx' (Some out) (Some sig) = Ret (secp256k1_n div 2 < s, Some out') [] \<and>
    secp256k1_ecdsa_verify fr ctx (Some out') (Some msg) (Some pk) = Ret True []"
proof -
  obtain out' where o': "secp256k1_ecdsa_signature_normalize ctx' (Some out) (Some sig) = Ret (secp256k1_n div 2 < s, Some out') []"
    "sig_rep r (low_s s) out'" using normalize_api [OF assms(3,4)] by blast
  have "low_s s \<le> secp256k1_n div 2" by (auto simp: low_s_def secp256k1_n_def)
  moreover have "ecdsa_valid (be_val msg mod secp256k1_n) r (low_s s) Q"
    using assms(7) ecdsa_valid_negate [OF assms(7)] by (simp add: low_s_def)
  ultimately show ?thesis using verify_api [OF assms(1,2) o'(2) assms(5,6)] o'(1) by simp
qed

theorem api_normalize_accepts_witness:
  "\<exists>sig out'. secp256k1_ecdsa_signature_normalize sample_context (Some zero_signature) (Some sig) = Ret (False, Some out') [] \<and>
    secp256k1_ecdsa_verify sample_frame sample_context (Some out') (Some sample_key) (Some sample_pubkey) = Ret True []"
proof -
  obtain r s sig where v: "sig_rep r s sig" "s \<le> secp256k1_n div 2" "ecdsa_valid 1 r s gen" by (rule sample_valid)
  have m: "be_val sample_key mod secp256k1_n = 1" by (simp add: sample_key(1) secp256k1_n_def)
  from api_normalize_accepts [OF sample_frame_ok sample_contexts(1) v(1) _ sample_key(2) sample_pubkey, unfolded m,
      of zero_signature sample_context] v(2,3) show ?thesis by auto
qed

text \<open>C16: \<open>secp256k1_context_create\<close>: flags without the context bit abort through the default callback;
  otherwise the context has the two default callbacks, its verification part is built and correct
  exactly when the verification bit is set, and its signing part is built exactly when the signing bit
  is set. Only the blinding of the signing part can keep it from returning.\<close>

theorem context_create_decides:
  assumes "build_frame_ok bf"
  shows "if flags AND SECP256K1_FLAGS_TYPE_MASK \<noteq> SECP256K1_FLAGS_TYPE_CONTEXT
    then secp256k1_context_create bf mem flags = Abort [(default_illegal_callback, ''Invalid flags'')]
    else secp256k1_context_create bf mem flags = Diverge \<and> flags AND SECP256K1_FLAGS_BIT_CONTEXT_SIGN \<noteq> 0 \<or>
      (\<exists>ctx. secp256k1_context_create bf mem flags = Ret (Some ctx) [] \<and>
         illegal_callback ctx = default_illegal_callback \<and> error_callback ctx = default_error_callback \<and>
         (secp256k1_ecmult_gen_context_is_built (ecmult_gen_ctx ctx) \<longleftrightarrow> flags AND SECP256K1_FLAGS_BIT_CONTEXT_SIGN \<noteq> 0) \<and>
         (verify_context ctx \<longleftrightarrow> flags AND SECP256K1_FLAGS_BIT_CONTEXT_VERIFY \<noteq> 0) \<and>
         (secp256k1_ecmult_context_is_built (ecmult_ctx ctx) \<longleftrightarrow> flags AND SECP256K1_FLAGS_BIT_CONTEXT_VERIFY \<noteq> 0))"
  using assms by (rule context_create_flags)

theorem context_create_decides_witness:
  "\<exists>ctx. secp256k1_context_create sample_build_frame sample_context SECP256K1_CONTEXT_VERIFY = Ret (Some ctx) [] \<and> verify_context ctx"
proof -
  have "SECP256K1_CONTEXT_VERIFY AND SECP256K1_FLAGS_TYPE_MASK = SECP256K1_FLAGS_TYPE_CONTEXT"
    "SECP256K1_CONTEXT_VERIFY AND SECP256K1_FLAGS_BIT_CONTEXT_SIGN = 0"
    "SECP256K1_CONTEXT_VERIFY AND SECP256K1_FLAGS_BIT_CONTEXT_VERIFY \<noteq> 0"
    by (simp_all add: SECP256K1_CONTEXT_VERIFY_def SECP256K1_FLAGS_TYPE_CONTEXT_def SECP256K1_FLAGS_TYPE_MASK_def
        SECP256K1_FLAGS_BIT_CONTEXT_SIGN_def SECP256K1_FLAGS_BIT_CONTEXT_VERIFY_def)
  then show ?thesis
    using context_create_decides [OF sample_build_frame, of SECP256K1_CONTEXT_VERIFY sample_context] by auto
qed

text \<open>C17: what a context keeps over its life: any sequence of calls of \<open>secp256k1_context_randomize\<close>
  that return, of \<open>secp256k1_context_clone\<close> and of the two functions that replace a callback leads from a
  correct context to a correct one, and the public key that \<open>secp256k1_ec_pubkey_create\<close> computes on it for
  a valid secret key is that of the key, whatever the history and its blindings were.\<close>

theorem context_reach_invariant:
  assumes "context_reach ctx ctx'" and "verify_context ctx" and "sign_context ctx" and "length key = 32" and "secret key"
  shows "verify_context ctx' \<and> sign_context ctx' \<and>
    (\<exists>pk'. secp256k1_ec_pubkey_create ctx' (Some pk) (Some key) = Ret (True, Some pk') [] \<and>
       pubkey_rep (zmul (be_val key) gen) pk')"
  using context_reach_parts [OF assms(1)] assms(2-) pubkey_create_api [of ctx' key pk] by simp

theorem context_reach_invariant_witness:
  "\<exists>pk'. secp256k1_ec_pubkey_create
     (secp256k1_context_set_error_callback (secp256k1_context_clone sample_context sample_context) None None)
     (Some zero_pubkey) (Some sample_key) = Ret (True, Some pk') [] \<and> pubkey_rep gen pk'"
proof -
  have "context_reach sample_context
      (secp256k1_context_set_error_callback (secp256k1_context_clone sample_context sample_context) None None)"
    by (rule context_reach.more [OF context_reach.more [OF context_reach.start context_step.clone] context_step.set_error])
  from context_reach_invariant [OF this sample_contexts sample_key(2,3), of zero_pubkey] sample_key(1) show ?thesis by simp
qed

section \<open>Properties of signatures\<close>

text \<open>\<open>secp256k1_ecdsa_sig_verify\<close> decides the ECDSA equation: for a built context, a key that is a
  point of the curve and reduced scalars it returns 1 exactly when \<open>r\<close> and \<open>s\<close> lie between 1 and
  \<open>n - 1\<close> and the point \<open>R\<close> with \<open>s R = z G + r Q\<close> is finite with \<open>x\<close> coordinate \<open>r\<close> modulo \<open>n\<close>. The
  comparison in Jacobian coordinates, with its second try at \<open>r + n\<close>, misses no case.\<close>

theorem ecdsa_verify_decides:
  assumes "ecmult_frame_ok fr" and "ecmult_context_ok ctx" and "ge_rep 1 Q pubkey" and "Q \<noteq> 0"
    and "scalar_ok sigr" and "scalar_ok sigs" and "scalar_ok msg"
  shows "secp256k1_ecdsa_sig_verify fr ctx sigr sigs pubkey msg \<longleftrightarrow>
    ecdsa_valid (scalar_val msg) (scalar_val sigr) (scalar_val sigs) Q"
  using assms by (rule ecdsa_sig_verify_iff)


text \<open>A run of \<open>secp256k1_ecdsa_sig_sign\<close> that returns 1 with \<open>r\<close> not zero has made a signature
  that is valid for the public key of the signer, with \<open>s\<close> in the lower half of the range.\<close>

theorem ecdsa_sign_safe:
  assumes "ecmult_gen_context_ok ctx" and "scalar_ok seckey" and "scalar_ok msg" and "scalar_ok nonce"
    and "scalar_val nonce \<noteq> 0" and "scalar_val sigr \<noteq> 0"
    and "secp256k1_ecdsa_sig_sign ctx seckey msg nonce recid = (sigr, sigs, recid', True)"
  shows "ecdsa_valid (scalar_val msg) (scalar_val sigr) (scalar_val sigs) (zmul (scalar_val seckey) gen) \<and>
    scalar_val sigs \<le> secp256k1_n div 2"
  using ecdsa_sig_sign_valid [OF assms(1-5,7,6)] by simp


text \<open>What signing returns is accepted by verification under the public key that
  \<open>secp256k1_ecmult_gen\<close> computes from the secret key.\<close>

theorem ecdsa_sign_verify_roundtrip:
  assumes "ecmult_frame_ok fr" and "ecmult_context_ok vctx" and "ecmult_gen_context_ok ctx"
    and "scalar_ok seckey" and "scalar_ok msg" and "scalar_ok nonce"
    and "scalar_val nonce \<noteq> 0" and "scalar_val seckey \<noteq> 0" and "scalar_val sigr \<noteq> 0"
    and "secp256k1_ecdsa_sig_sign ctx seckey msg nonce recid = (sigr, sigs, recid', True)"
  shows "secp256k1_ecdsa_sig_verify fr vctx sigr sigs (fst (secp256k1_ge_set_gej (secp256k1_ecmult_gen ctx seckey))) msg"
  by (rule ecdsa_sign_then_verify [OF assms(1-8,10,9) refl])


text \<open>C18: \<open>secp256k1_ecdsa_sig_recover\<close> succeeds exactly when some key is determined by the signature and
  the recovery number, it then returns that key, and the signature is valid for it.\<close>

theorem ecdsa_recover_decides:
  assumes "ecmult_frame_ok fr" and "ecmult_context_ok ctx"
    and "scalar_ok sigr" and "scalar_ok sigs" and "scalar_ok msg"
    and "secp256k1_ecdsa_sig_recover fr ctx sigr sigs pubkey msg recid = (pubkey', ret)"
  shows "(ret \<longleftrightarrow> (\<exists>Q. ecdsa_recovers (scalar_val msg) (scalar_val sigr) (scalar_val sigs) recid Q)) \<and>
    (ret \<longrightarrow> (\<exists>Q. ecdsa_recovers (scalar_val msg) (scalar_val sigr) (scalar_val sigs) recid Q \<and> ge_rep 1 Q pubkey' \<and>
      ecdsa_valid (scalar_val msg) (scalar_val sigr) (scalar_val sigs) Q))"
  using ecdsa_sig_recover_sound [OF assms(1-5), of pubkey recid] assms(6) ecdsa_recovers_valid by fastforce

theorem ecdsa_recover_decides_witness:
  "\<exists>ret. snd (secp256k1_ecdsa_sig_recover sample_frame sample_ctx (secp256k1_scalar_set_int 1) (secp256k1_scalar_set_int 3)
     secp256k1_ge_clear (secp256k1_scalar_set_int 5) 0) = ret \<and> (ret \<longleftrightarrow> (\<exists>Q. ecdsa_recovers 5 1 3 0 Q))"
  using ecdsa_recover_decides [OF sample_frame_ok sample_ctx_ok sample_scalar_ok [of 1] sample_scalar_ok [of 3]
      sample_scalar_ok [of 5] surjective_pairing, of secp256k1_ge_clear 0] by (simp add: sample_scalar)

text \<open>Recovery undoes signing: from the signature and the recovery number that signing returned it
  computes the public key of the signer.\<close>

theorem ecdsa_sign_recover_roundtrip:
  assumes "ecmult_frame_ok fr" and "ecmult_context_ok vctx" and "ecmult_gen_context_ok ctx"
    and "scalar_ok seckey" and "scalar_ok msg" and "scalar_ok nonce"
    and "scalar_val nonce \<noteq> 0" and "scalar_val seckey \<noteq> 0" and "scalar_val sigr \<noteq> 0"
    and "secp256k1_ecdsa_sig_sign ctx seckey msg nonce (Some i) = (sigr, sigs, Some recid, True)"
  shows "snd (secp256k1_ecdsa_sig_recover fr vctx sigr sigs pubkey msg recid) \<and>
    ge_rep 1 (zmul (scalar_val seckey) gen) (fst (secp256k1_ecdsa_sig_recover fr vctx sigr sigs pubkey msg recid))"
proof -
  note s = ecdsa_sign_recovers [OF assms(3-8,10,9)]
  note v = ecdsa_sig_sign_vals(2,3) [OF assms(3-7,10)]
  note rec = ecdsa_sig_recover_sound [OF assms(1,2) v assms(5), of pubkey recid]
  have ret: "snd (secp256k1_ecdsa_sig_recover fr vctx sigr sigs pubkey msg recid)" unfolding rec(1) using s(1) by blast
  show ?thesis using ret rec(2) [OF ret] ecdsa_recovers_unique [OF s(1)] by auto
qed

section \<open>Properties of the multiplications\<close>

text \<open>C19: \<open>secp256k1_ecmult\<close> computes \<open>na * A + ng * G\<close> for every finite point and reduced scalars: the
  interleaved windows, the table of odd multiples on a scaled curve, the table of the generator and
  the final correction of the denominator agree with the group law in every case.\<close>

theorem ecmult_correct:
  assumes "ecmult_frame_ok fr" and "ecmult_context_ok ctx" and "gej_rep 1 A a" and "A \<noteq> 0"
    and "scalar_val na < secp256k1_n" and "scalar_val ng < secp256k1_n"
  shows "gej_rep 1 (zmul (scalar_val na) A + zmul (scalar_val ng) gen) (secp256k1_ecmult fr ctx a na ng)"
  using assms by (rule ecmult_rep)

theorem ecmult_correct_witness:
  "gej_rep 1 (zmul 2 gen + zmul 3 gen) (secp256k1_ecmult sample_frame sample_ctx (secp256k1_gej_set_ge secp256k1_ge_const_g)
     (secp256k1_scalar_set_int 2) (secp256k1_scalar_set_int 3))"
  using ecmult_correct [OF sample_frame_ok sample_ctx_ok gej_rep_set_ge [OF ge_rep_gen] gen_nonzero,
      of "secp256k1_scalar_set_int 2" "secp256k1_scalar_set_int 3"]
  by (simp add: sample_scalar secp256k1_n_def)

text \<open>C20: \<open>secp256k1_ecmult_const\<close> computes the product of a finite point with every reduced scalar, zero and
  \<open>n - 1\<close> included, from the window form of \<open>secp256k1_wnaf_const\<close>: that form has \<open>WNAF_SIZE + 1\<close> digits for
  every scalar, each of them odd, so never zero, and below \<open>2 ^ w\<close>, and their weighted sum is the scalar
  plus a skew of 1 or 2 modulo the group order.\<close>

theorem ecmult_const_correct:
  assumes "const_frame_ok fr" and "ge_rep 1 A a" and "A \<noteq> 0" and "scalar_ok s"
    and "secp256k1_wnaf_const (fr_wnaf_na fr) s (WINDOW_A - 1) = (digits, skew)"
  shows "gej_rep 1 (zmul (scalar_val s) A) (secp256k1_ecmult_const fr tmpa a s) \<and> (skew = 1 \<or> skew = 2) \<and>
    (\<forall>i \<le> WNAF_SIZE (WINDOW_A - 1). odd (digits ! i) \<and> \<bar>digits ! i\<bar> < 2 ^ (WINDOW_A - 1)) \<and>
    (\<Sum>i \<le> WNAF_SIZE (WINDOW_A - 1). (2 ^ (WINDOW_A - 1)) ^ i * digits ! i) mod secp256k1_n =
      (scalar_val s + skew) mod secp256k1_n"
proof -
  have w: "0 < WINDOW_A - 1" "WINDOW_A - 1 < 16" by (simp_all add: WINDOW_A_def)
  have "wnaf_const_digits (WINDOW_A - 1) (scalar_val s) digits skew"
    by (rule wnaf_const_digits [OF assms(4) w, of "fr_wnaf_na fr"]) (use assms(1,5) in \<open>simp_all add: const_frame_ok_def\<close>)
  then show ?thesis using ecmult_const_rep [OF assms(1-4)] by (simp add: wnaf_const_digits_def)
qed

theorem ecmult_const_correct_witness:
  "gej_rep 1 (zmul 5 gen) (secp256k1_ecmult_const sample_frame secp256k1_ge_clear secp256k1_ge_const_g (secp256k1_scalar_set_int 5))"
  using ecmult_const_correct [OF sample_const_frame ge_rep_gen gen_nonzero sample_scalar_ok [of 5] surjective_pairing, of secp256k1_ge_clear]
  by (simp add: sample_scalar)

text \<open>C21: the window form of \<open>secp256k1_ecmult_wnaf\<close>: the loop ends, the digits weighted by powers of two
  sum to the scalar (or to the scalar minus the order when its top bit is set), every digit is zero
  or odd and below \<open>2 ^ (w - 1)\<close>, two digits other than zero are at least \<open>w\<close> positions apart, and the
  return value counts the positions up to the last of them. The comment of the source promises \<open>w - 1\<close>
  zeros between two of them.\<close>

theorem ecmult_wnaf_correct:
  assumes "scalar_val a < secp256k1_n" and "2 \<le> w" and "w < 31"
  shows "wnaf_digits 256 w (if scalar_val a < 2 ^ 255 then scalar_val a else scalar_val a - secp256k1_n)
    (fst (secp256k1_ecmult_wnaf wnaf 256 a w)) (snd (secp256k1_ecmult_wnaf wnaf 256 a w))"
  using ecmult_wnaf_digits [OF assms, of wnaf] by auto

theorem ecmult_wnaf_correct_witness:
  "wnaf_digits 256 5 1000 (fst (secp256k1_ecmult_wnaf (replicate 256 7) 256 (secp256k1_scalar_set_int 1000) 5))
     (snd (secp256k1_ecmult_wnaf (replicate 256 7) 256 (secp256k1_scalar_set_int 1000) 5))"
  using ecmult_wnaf_correct [of "secp256k1_scalar_set_int 1000" 5 "replicate 256 7"]
  by (simp add: sample_scalar secp256k1_n_def)

text \<open>The invariant of the verification context: \<open>secp256k1_ecmult_context_build\<close> establishes it on a
  fresh context whatever its memory held, and building again and cloning keep it.\<close>

theorem ecmult_context_invariant:
  assumes "length prej = ECMULT_TABLE_SIZE WINDOW_G" and "length zr = ECMULT_TABLE_SIZE WINDOW_G"
    and "length prea = ECMULT_TABLE_SIZE WINDOW_G" and "length mem = ECMULT_TABLE_SIZE WINDOW_G"
    and "ctx = secp256k1_ecmult_context_init \<or> ecmult_context_ok ctx"
  shows "ecmult_context_ok (secp256k1_ecmult_context_build d prej zr prea mem ctx) \<and>
    ecmult_context_ok (secp256k1_ecmult_context_clone dst (secp256k1_ecmult_context_build d prej zr prea mem ctx))"
proof -
  have "ecmult_context_ok (secp256k1_ecmult_context_build d prej zr prea mem ctx)"
  proof (cases "ecmult_context_ok ctx")
    case True
    then show ?thesis by (auto simp: ecmult_context_ok_def secp256k1_ecmult_context_build_def)
  next
    case False
    then show ?thesis using assms ecmult_context_build_ok by blast
  qed
  then show ?thesis using ecmult_context_clone_ok by blast
qed


text \<open>C22: \<open>secp256k1_ecmult_gen\<close> computes \<open>gn * G\<close> whatever the blinding of the context: the offset
  points of the 64 table rows cancel, and so do the blinding value and its point.\<close>

theorem ecmult_gen_correct:
  assumes "ecmult_gen_context_ok ctx" and "scalar_val gn < secp256k1_n"
  shows "gej_rep 1 (zmul (scalar_val gn) gen) (secp256k1_ecmult_gen ctx gn)"
  using assms by (rule ecmult_gen_rep)

theorem ecmult_gen_correct_witness:
  "gej_rep 1 (zmul 7 gen) (secp256k1_ecmult_gen (gen_context sample_prec) (secp256k1_scalar_set_int 7))"
  using ecmult_gen_correct [OF sample_gen_ok, of "secp256k1_scalar_set_int 7"]
  by (simp add: sample_scalar secp256k1_n_def)

text \<open>C23: \<open>secp256k1_ecmult_gen_blind\<close> keeps the invariant of the signing context for every seed and
  leaves a blinding value other than zero, and it returns unless one of its two loops rejects every
  value that its generator yields.\<close>

theorem ecmult_gen_blind_returns:
  assumes "sha_ok sha256" and "hmac_ok hmac" and "ecmult_gen_context_ok ctx"
    and "scale = blind_scale_round sha256 hmac" and "scalar = blind_scalar_round sha256 hmac"
    and "rng = blind_rng sha256 hmac (blind_reset ctx seed32) seed32"
  shows "case secp256k1_ecmult_gen_blind sha256 hmac ctx seed32 of
      Some ctx' \<Rightarrow> ecmult_gen_context_ok ctx' \<and> prec ctx' = prec ctx \<and> scalar_val (blind ctx') \<noteq> 0
    | None \<Rightarrow> (\<forall>k. snd (snd (scale (rounds scale k rng)))) \<or>
        (\<exists>rng1 s. retry_loop scale rng = Some (rng1, s) \<and> (\<forall>k. snd (snd (scalar (rounds scalar k rng1)))))"
proof (cases "secp256k1_ecmult_gen_blind sha256 hmac ctx seed32")
  case None
  show ?thesis
    using None [unfolded ecmult_gen_blind_None_iff Let_def] unfolding None option.case assms(4-6) .
next
  case (Some ctx')
  obtain tab U where tab: "prec ctx = Some tab" "gen_table U tab" using assms(3) by (auto simp: ecmult_gen_context_ok_def)
  then show ?thesis using ecmult_gen_blind_ok [OF assms(1,2) tab assms(3) Some] Some by simp
qed

theorem ecmult_gen_blind_returns_witness:
  "case secp256k1_ecmult_gen_blind sample_sha sample_hmac (gen_context sample_prec) None of
      Some ctx' \<Rightarrow> ecmult_gen_context_ok ctx' \<and> scalar_val (blind ctx') \<noteq> 0
    | None \<Rightarrow> (\<forall>k. snd (snd (blind_scale_round sample_sha sample_hmac (rounds (blind_scale_round sample_sha sample_hmac) k
          (blind_rng sample_sha sample_hmac (blind_reset (gen_context sample_prec) None) None))))) \<or>
        (\<exists>rng1 s. retry_loop (blind_scale_round sample_sha sample_hmac)
            (blind_rng sample_sha sample_hmac (blind_reset (gen_context sample_prec) None) None) = Some (rng1, s) \<and>
          (\<forall>k. snd (snd (blind_scalar_round sample_sha sample_hmac (rounds (blind_scalar_round sample_sha sample_hmac) k rng1)))))"
  using ecmult_gen_blind_returns [OF sample_hash_ok sample_gen_ok refl refl refl, of None]
  by (simp split: option.splits)

text \<open>The table that \<open>secp256k1_ecmult_gen_context_build\<close> computes (64 rows of additions and
  doublings, one batch inversion for all 1024 points) holds \<open>i * 16 ^ j * G + c j * U\<close> in row \<open>j\<close> and
  column \<open>i\<close>, with multiples \<open>c j\<close> of the blinding point that sum to zero, provided that none of the
  entries is infinite: the batch inversion of the source has no case for that.\<close>

theorem gen_prec_table:
  assumes "gej_rep 1 U nums_gej" and "gej_rep 1 gen gj" and "\<forall>j<64. \<forall>i<16. gen_entry U j i \<noteq> 0"
    and "1024 \<le> length precj" and "1024 \<le> length azi0" and "1024 \<le> length pre"
    and "64 \<le> length mem" and "\<forall>j<64. length (mem ! j) = 16"
  shows "gen_table U (gen_prec precj azi0 pre mem gj nums_gej) \<and> (\<Sum>j<64. nums_coeff j) = 0"
  using gen_prec_rep [OF assms] nums_coeff_sum by simp


text \<open>C24: the constant \<open>secp256k1_ge_const_g\<close> generates a group of prime order \<open>n\<close>, the constant of the
  scalars, and this is the whole curve: \<open>n\<close> is its number of points, and two multiples of the
  generator are equal only when the factors agree modulo \<open>n\<close>.\<close>

theorem const_g_generates:
  "ge_abs secp256k1_ge_const_g = point_of gen \<and> int (card (UNIV :: epoint set)) = secp256k1_n \<and>
    (zmul j gen = zmul k gen \<longleftrightarrow> j mod secp256k1_n = k mod secp256k1_n)"
proof -
  have "zmul j gen = zmul k gen \<longleftrightarrow> zmul (j - k) gen = 0" by (simp add: zmul_diff)
  also have "\<dots> \<longleftrightarrow> j mod secp256k1_n = k mod secp256k1_n"
    using gen_nonzero by (simp add: zmul_eq_0_iff mod_eq_dvd_iff)
  finally show ?thesis using card_curve by (simp add: point_of_gen)
qed

section \<open>Properties of keys\<close>

text \<open>C25: \<open>secp256k1_eckey_pubkey_parse\<close> accepts exactly the encodings of points of the curve (33 bytes
  with the parity in the head, or 65 bytes in the plain or the hybrid form) and returns the point;
  coordinates that are not reduced, points off the curve, wrong parities, heads and lengths are
  rejected.\<close>

theorem pubkey_parse_decides:
  assumes "secp256k1_eckey_pubkey_parse elem pub = (elem', ok)"
  shows "(ok \<longleftrightarrow> (\<exists>P. encodes pub P)) \<and> (encodes pub P \<longrightarrow> ok \<and> ge_rep 1 P elem')"
  using pubkey_parse_iff [of elem pub] ge_rep_pubkey_parse [of pub P elem] assms by auto

theorem pubkey_parse_decides_witness:
  "snd (secp256k1_eckey_pubkey_parse secp256k1_ge_clear [2, 1]) = False \<and> \<not> encodes [2, 1] gen"
  using pubkey_parse_decides [OF surjective_pairing, of secp256k1_ge_clear "[2, 1]" gen] by (simp add: encodes_def)

text \<open>\<open>secp256k1_eckey_pubkey_serialize\<close> writes an encoding of the point of the announced length into
  a buffer that is long enough, and parsing these bytes gives the point back.\<close>

theorem pubkey_serialize_roundtrip:
  assumes "ge_rep 1 P elem" and "P \<noteq> 0" and "(if compr then 33 else 65) \<le> length pub"
    and "secp256k1_eckey_pubkey_serialize elem pub siz compr = (elem', pub', siz', ok)"
  shows "ok \<and> siz' = (if compr then 33 else 65) \<and> length pub' = length pub \<and>
    snd (secp256k1_eckey_pubkey_parse q (take siz' pub')) \<and>
    ge_rep 1 P (fst (secp256k1_eckey_pubkey_parse q (take siz' pub')))"
proof -
  note r = pubkey_serialize_rep [OF assms]
  show ?thesis using r(1,2,5) ge_rep_pubkey_parse [OF r(3)] pubkey_parse_complete [OF r(3)] by blast
qed


text \<open>Tweaking by addition commutes with taking the public key: when the tweaked secret key is valid
  the tweaked public key is its public key, and both fail together.\<close>

theorem tweak_add_consistent:
  assumes "ecmult_frame_ok fr" and "ecmult_context_ok ctx" and "scalar_ok key" and "scalar_val key \<noteq> 0" and "scalar_ok tweak"
    and "ge_rep 1 (zmul (scalar_val key) gen) pubkey"
    and "secp256k1_eckey_privkey_tweak_add key tweak = (key', ok)"
    and "secp256k1_eckey_pubkey_tweak_add fr ctx pubkey tweak = (pubkey', ok')"
  shows "ok' = ok \<and> (ok \<longrightarrow> scalar_ok key' \<and> ge_rep 1 (zmul (scalar_val key') gen) pubkey')"
proof -
  note v = privkey_tweak_add_val [OF assms(3,5,7)]
  have nz: "zmul (scalar_val key) gen \<noteq> 0"
    using assms(4) n_dvd_scalar [OF assms(3)] gen_nonzero by (simp add: zmul_eq_0_iff)
  have sum': "zmul (scalar_val key) gen + zmul (scalar_val tweak) gen = zmul (scalar_val key') gen"
    by (simp only: v(1) zmul_mod_n zmul_add)
  note p = pubkey_tweak_add_rep [OF assms(1,2,6) nz assms(5,8), unfolded sum']
  have "zmul (scalar_val key') gen \<noteq> 0 \<longleftrightarrow> scalar_val key' \<noteq> 0"
    using n_dvd_scalar [OF v(2)] gen_nonzero by (simp add: zmul_eq_0_iff)
  then show ?thesis using p v(2,3) by blast
qed


text \<open>Tweaking by multiplication commutes with taking the public key as well; it fails for the tweak
  zero only.\<close>

theorem tweak_mul_consistent:
  assumes "ecmult_frame_ok fr" and "ecmult_context_ok ctx" and "scalar_ok key" and "scalar_val key \<noteq> 0" and "scalar_ok tweak"
    and "ge_rep 1 (zmul (scalar_val key) gen) pubkey"
    and "secp256k1_eckey_privkey_tweak_mul key tweak = (key', ok)"
    and "secp256k1_eckey_pubkey_tweak_mul fr ctx pubkey tweak = (pubkey', ok')"
  shows "ok' = ok \<and> (ok \<longleftrightarrow> scalar_val tweak \<noteq> 0) \<and> (ok \<longrightarrow> ge_rep 1 (zmul (scalar_val key') gen) pubkey')"
proof -
  have nz: "zmul (scalar_val key) gen \<noteq> 0"
    using assms(4) n_dvd_scalar [OF assms(3)] gen_nonzero by (simp add: zmul_eq_0_iff)
  note p = pubkey_tweak_mul_rep [OF assms(1,2,6) nz assms(5,8)]
  have ok: "ok \<longleftrightarrow> scalar_val tweak \<noteq> 0" and key': "ok \<Longrightarrow> key' = secp256k1_scalar_mul key tweak"
    using assms(7) by (auto simp: secp256k1_eckey_privkey_tweak_mul_def secp256k1_scalar_is_zero_eq split: if_splits)
  have "zmul (scalar_val (secp256k1_scalar_mul key tweak)) gen = zmul (scalar_val tweak) (zmul (scalar_val key) gen)"
    by (simp only: scalar_mul_val zmul_mod_n mult.commute zmul_mult [symmetric])
  then show ?thesis using p ok key' by auto
qed

section \<open>Properties of the group operations\<close>

text \<open>C26: on a point of the curve \<open>secp256k1_gej_double_var\<close> computes the sum of the point with itself
  in the group law, infinity included, and keeps the coordinates within the magnitudes that the next
  operation needs; no point has order two, so the missing case of a vertical tangent cannot occur.\<close>

theorem gej_double_var_correct:
  assumes "gej_ok a" and "on_curve (gej_abs a)"
  shows "gej_ok (fst (secp256k1_gej_double_var r a rzr)) \<and>
    gej_abs (fst (secp256k1_gej_double_var r a rzr)) = padd (gej_abs a) (gej_abs a) \<and>
    on_curve (gej_abs (fst (secp256k1_gej_double_var r a rzr)))"
  using double_var_refines [where S = 1, unfolded on_iso_1, OF assms] padd_on_curve [OF assms(2,2)] by simp

theorem gej_double_var_correct_witness:
  "gej_abs (fst (secp256k1_gej_double_var secp256k1_gej_set_infinity (secp256k1_gej_set_ge secp256k1_ge_const_g) None)) =
     padd (ge_abs secp256k1_ge_const_g) (ge_abs secp256k1_ge_const_g)"
  using gej_double_var_correct [of "secp256k1_gej_set_ge secp256k1_ge_const_g"]
    gej_set_ge_refines [OF ge_const_g_ok(3)] ge_const_g_on_curve by simp

text \<open>C27: \<open>secp256k1_gej_add_var\<close> adds any two points of the curve in Jacobian coordinates: different
  points, equal points, opposite points, and infinity on either side.\<close>

theorem gej_add_var_correct:
  assumes "gej_ok a" and "gej_ok b" and "on_curve (gej_abs a)" and "on_curve (gej_abs b)"
  shows "gej_ok (fst (secp256k1_gej_add_var r a b rzr)) \<and>
    gej_abs (fst (secp256k1_gej_add_var r a b rzr)) = padd (gej_abs a) (gej_abs b) \<and>
    on_curve (gej_abs (fst (secp256k1_gej_add_var r a b rzr)))"
  using add_var_refines [where S = 1, unfolded on_iso_1, OF assms] padd_on_curve [OF assms(3,4)] by simp

theorem gej_add_var_correct_witness:
  "gej_abs (fst (secp256k1_gej_add_var secp256k1_gej_set_infinity (secp256k1_gej_set_ge secp256k1_ge_const_g)
     (secp256k1_gej_set_ge secp256k1_ge_const_g) None)) =
     padd (ge_abs secp256k1_ge_const_g) (ge_abs secp256k1_ge_const_g)"
  using gej_add_var_correct [of "secp256k1_gej_set_ge secp256k1_ge_const_g" "secp256k1_gej_set_ge secp256k1_ge_const_g"]
    gej_set_ge_refines [OF ge_const_g_ok(3)] ge_const_g_on_curve by simp

text \<open>\<open>secp256k1_gej_add_ge_var\<close>, the mixed addition that saves the normalization of the second
  operand, computes the same group law.\<close>

theorem gej_add_ge_var_correct:
  assumes "gej_ok a" and "ge_ok b" and "on_curve (gej_abs a)" and "on_curve (ge_abs b)"
  shows "gej_ok (fst (secp256k1_gej_add_ge_var r a b rzr)) \<and>
    gej_abs (fst (secp256k1_gej_add_ge_var r a b rzr)) = padd (gej_abs a) (ge_abs b) \<and>
    on_curve (gej_abs (fst (secp256k1_gej_add_ge_var r a b rzr)))"
  using add_ge_var_refines [where S = 1, unfolded on_iso_1, OF assms] padd_on_curve [OF assms(3,4)] by simp


text \<open>\<open>secp256k1_gej_add_zinv_var\<close> adds a point given by affine coordinates that are scaled by a
  common denominator, of which it gets the inverse: the result is the group law on the point meant.\<close>

theorem gej_add_zinv_var_correct:
  assumes "gej_ok a" and "ge_ok b" and "on_curve (gej_abs a)"
    and "fe_magnitude 8 bzinv" and "fe_abs bzinv = inverse zb" and "zb \<noteq> 0"
    and "B = (if ge_infinity b then Infinity else jac (fe_abs (ge_x b)) (fe_abs (ge_y b)) zb)" and "on_curve B"
  shows "gej_ok (secp256k1_gej_add_zinv_var r a b bzinv) \<and>
    gej_abs (secp256k1_gej_add_zinv_var r a b bzinv) = padd (gej_abs a) B"
proof -
  have "fe_rep 8 (inverse zb) bzinv" using assms(4,5) by (simp add: fe_rep_def)
  then show ?thesis using assms(1-3,6-8) by (intro add_zinv_var_refines [where S = 1, unfolded on_iso_1])
qed


text \<open>C28: \<open>secp256k1_gej_add_ge\<close>, the constant-time unified addition that replaces its cases by
  conditional moves, computes the group law for every point of the curve in the first operand and
  every finite one in the second, doubling and cancellation included.\<close>

theorem gej_add_ge_correct:
  assumes "gej_ok a" and "ge_ok b" and "on_curve (gej_abs a)" and "on_curve (ge_abs b)" and "\<not> ge_infinity b"
  shows "gej_ok (secp256k1_gej_add_ge a b) \<and>
    gej_abs (secp256k1_gej_add_ge a b) = padd (gej_abs a) (ge_abs b) \<and> on_curve (gej_abs (secp256k1_gej_add_ge a b))"
  using add_ge_refines [where S = 1, unfolded on_iso_1, OF assms] padd_on_curve [OF assms(3,4)] by simp

theorem gej_add_ge_correct_witness:
  "gej_abs (secp256k1_gej_add_ge (secp256k1_gej_set_ge secp256k1_ge_const_g) secp256k1_ge_const_g) =
     padd (ge_abs secp256k1_ge_const_g) (ge_abs secp256k1_ge_const_g)"
  using gej_add_ge_correct [of "secp256k1_gej_set_ge secp256k1_ge_const_g" secp256k1_ge_const_g]
    gej_set_ge_refines [OF ge_const_g_ok(3)] ge_const_g_on_curve ge_const_g_ok(3) ge_const_g_limbs(3) by simp

section \<open>Properties of the scalars\<close>

text \<open>C29: \<open>secp256k1_scalar_mul\<close> returns the fully reduced product modulo the group order for every
  pair of 256-bit operands: the column accumulators lose no carry, the two folding passes and the
  last conditional subtraction reduce exactly.\<close>

theorem scalar_mul_correct:
  "scalar_val (secp256k1_scalar_mul a b) = scalar_val a * scalar_val b mod secp256k1_n"
  by (rule secp256k1_scalar_mul_val)

text \<open>The dedicated squaring routine, with its doubled cross products, is the multiplication of
  a scalar with itself, limb for limb.\<close>

theorem scalar_sqr_is_mul: "secp256k1_scalar_sqr a = secp256k1_scalar_mul a a"
  unfolding scalar_val_inject [symmetric] secp256k1_scalar_sqr_val secp256k1_scalar_mul_val ..

text \<open>On two reduced scalars the addition returns the reduced sum, and its overflow flag says
  whether the order was subtracted.\<close>

theorem scalar_add_correct:
  assumes "scalar_val a < secp256k1_n" and "scalar_val b < secp256k1_n"
  shows "scalar_val (fst (secp256k1_scalar_add a b)) = (scalar_val a + scalar_val b) mod secp256k1_n \<and>
    snd (secp256k1_scalar_add a b) = of_bool (secp256k1_n \<le> scalar_val a + scalar_val b)"
  using secp256k1_scalar_add_val [of a b "fst (secp256k1_scalar_add a b)" "snd (secp256k1_scalar_add a b)"]
    assms by simp


text \<open>The inversion is the power with exponent \<open>n - 2\<close>: the addition chain assembles exactly that exponent.\<close>

theorem scalar_inverse_exponent:
  "scalar_val (secp256k1_scalar_inverse x) = scalar_val x ^ (nat secp256k1_n - 2) mod secp256k1_n"
  by (rule secp256k1_scalar_inverse_val)

text \<open>C30: \<open>secp256k1_scalar_inverse\<close>, an addition chain of squarings and multiplications, returns the
  inverse modulo the group order of every scalar that has one: the order is prime and the exponent of
  the chain is \<open>n - 2\<close>.\<close>

theorem scalar_inverse_correct:
  assumes "\<not> secp256k1_n dvd scalar_val x"
  shows "scalar_val x * scalar_val (secp256k1_scalar_inverse x) mod secp256k1_n = 1 \<and>
    scalar_val (secp256k1_scalar_inverse x) < secp256k1_n"
  using scalar_inverse_mod [OF assms] scalar_inverse_ok [of x] by (simp add: scalar_ok_def)

theorem scalar_inverse_correct_witness:
  "2 * scalar_val (secp256k1_scalar_inverse (secp256k1_scalar_set_int 2)) mod secp256k1_n = 1"
  using scalar_inverse_correct [of "secp256k1_scalar_set_int 2"] by (simp add: sample_scalar secp256k1_n_def)

text \<open>Reading 32 big-endian bytes reduces modulo the order and reports the overflow; writing the
  result and reading it again is the identity, and bytes below the order survive the round trip.\<close>

theorem scalar_b32_roundtrip:
  assumes "length b32 = 32"
  shows "scalar_val (fst (secp256k1_scalar_set_b32 b32)) = be_val b32 mod secp256k1_n \<and>
    snd (secp256k1_scalar_set_b32 b32) = of_bool (secp256k1_n \<le> be_val b32) \<and>
    (snd (secp256k1_scalar_set_b32 b32) = 0 \<longrightarrow>
      secp256k1_scalar_get_b32 (fst (secp256k1_scalar_set_b32 b32)) = b32)"
proof -
  note v = secp256k1_scalar_set_b32_val [OF assms]
  have "secp256k1_scalar_get_b32 (fst (secp256k1_scalar_set_b32 b32)) = b32" if "be_val b32 < secp256k1_n"
    using that assms v(1) by (intro be_val_inject) (simp_all add: secp256k1_scalar_get_b32_val length_get_b32)
  with v show ?thesis by (auto split: if_splits)
qed


text \<open>On a reduced scalar, negating exactly when \<open>secp256k1_scalar_is_high\<close> holds gives the
  scalar or its negation, whichever is at most half the order: the low-\<open>s\<close> rule of signatures.\<close>

theorem scalar_low_s:
  assumes "scalar_val s < secp256k1_n"
  shows "secp256k1_scalar_is_high (fst (secp256k1_scalar_cond_negate s (secp256k1_scalar_is_high s))) = 0 \<and>
    (scalar_val (fst (secp256k1_scalar_cond_negate s (secp256k1_scalar_is_high s))) = scalar_val s \<or>
     scalar_val (fst (secp256k1_scalar_cond_negate s (secp256k1_scalar_is_high s))) = secp256k1_n - scalar_val s)"
proof (cases "secp256k1_n div 2 < scalar_val s")
  case True
  then have neg: "scalar_val (secp256k1_scalar_negate s) = secp256k1_n - scalar_val s"
    using assms secp256k1_scalar_negate_val [OF assms]
    by (simp add: mod_unique [where k = "- 1" and y = "secp256k1_n - scalar_val s"] secp256k1_n_def)
  then have "\<not> secp256k1_n div 2 < scalar_val (secp256k1_scalar_negate s)"
    using True by (simp add: secp256k1_n_def)
  with True neg show ?thesis by (simp add: secp256k1_scalar_is_high_eq secp256k1_scalar_cond_negate_eq)
next
  case False
  then show ?thesis by (simp add: secp256k1_scalar_is_high_eq secp256k1_scalar_cond_negate_eq)
qed


text \<open>\<open>secp256k1_scalar_get_bits_var\<close> reads the bits \<open>offset\<close> to \<open>offset + count - 1\<close> of the
  scalar, also when they lie in two limbs.\<close>

theorem scalar_get_bits_window:
  assumes "0 < unat count" and "unat count < 32" and "unat offset + unat count \<le> 256"
  shows "uint (secp256k1_scalar_get_bits_var a offset count) =
    scalar_val a div 2 ^ unat offset mod 2 ^ unat count"
  using secp256k1_scalar_get_bits_var_eq [OF assms] by (simp add: take_bit_eq_mod drop_bit_eq_div)


text \<open>\<open>secp256k1_scalar_mul_shift_var\<close> is the product shifted right with rounding to nearest, for
  the shifts its precondition allows.\<close>

theorem scalar_mul_shift_rounds:
  assumes "256 \<le> shift" and "shift \<le> 512"
  shows "scalar_val (secp256k1_scalar_mul_shift_var a b shift) =
    (scalar_val a * scalar_val b + 2 ^ (shift - 1)) div 2 ^ shift"
  by (rule secp256k1_scalar_mul_shift_var_val [OF assms])


text \<open>C31: \<open>secp256k1_scalar_split_lambda\<close> decomposes a reduced scalar as \<open>r1 + lambda * r2\<close> modulo the
  order, and both parts are congruent to integers below \<open>2 ^ 128\<close> in absolute value.\<close>

theorem scalar_split_lambda_short:
  assumes "scalar_val a < secp256k1_n"
  shows "(scalar_val (fst (secp256k1_scalar_split_lambda a)) +
      scalar_lambda * scalar_val (snd (secp256k1_scalar_split_lambda a))) mod secp256k1_n = scalar_val a \<and>
    (\<exists>k1 k2. \<bar>k1\<bar> < 2 ^ 128 \<and> \<bar>k2\<bar> < 2 ^ 128 \<and>
      scalar_val (fst (secp256k1_scalar_split_lambda a)) = k1 mod secp256k1_n \<and>
      scalar_val (snd (secp256k1_scalar_split_lambda a)) = k2 mod secp256k1_n)"
proof -
  obtain r1 r2 where r: "secp256k1_scalar_split_lambda a = (r1, r2)" by fastforce
  define c1 c2 where "c1 = (scalar_val a * scalar_val g1 + 2 ^ 271) div 2 ^ 272"
    and "c2 = (scalar_val a * scalar_val g2 + 2 ^ 271) div 2 ^ 272"
  note v = secp256k1_scalar_split_lambda_val [OF assms r, folded c1_def c2_def]
  note short = split_lambda_short_vector [OF scalar_val_bounds(1) assms, folded c1_def c2_def]
  have "(scalar_val r1 + scalar_lambda * scalar_val r2) mod secp256k1_n = scalar_val a mod secp256k1_n"
    unfolding v(2) by (simp add: mod_simps)
  also have "\<dots> = scalar_val a" using assms scalar_val_bounds(1) [of a] by simp
  finally have sum: "(scalar_val r1 + scalar_lambda * scalar_val r2) mod secp256k1_n = scalar_val a" .
  have "scalar_val r1 = (scalar_val a - scalar_lambda * (- c1 * lattice_b1 - c2 * lattice_b2)) mod secp256k1_n"
    unfolding v(2) v(1) by (metis mod_diff_right_eq mod_mult_right_eq)
  also have "\<dots> = (scalar_val a - c1 * lattice_a1 - c2 * lattice_a2) mod secp256k1_n"
    by (rule lambda_short_congruence)
  finally have "scalar_val r1 = (scalar_val a - c1 * lattice_a1 - c2 * lattice_a2) mod secp256k1_n" .
  with v(1) short sum show ?thesis unfolding r fst_conv snd_conv by blast
qed

theorem scalar_split_lambda_short_witness:
  "(scalar_val (fst (secp256k1_scalar_split_lambda (secp256k1_scalar_set_int 11))) +
     scalar_lambda * scalar_val (snd (secp256k1_scalar_split_lambda (secp256k1_scalar_set_int 11)))) mod secp256k1_n = 11"
proof -
  have v: "scalar_val (secp256k1_scalar_set_int 11) = 11" by (simp add: secp256k1_scalar_set_int_val)
  show ?thesis
    using scalar_split_lambda_short [of "secp256k1_scalar_set_int 11"] unfolding v by (simp add: secp256k1_n_def)
qed

section \<open>Properties of the field\<close>

text \<open>C32: \<open>secp256k1_fe_mul\<close> multiplies modulo the characteristic on every pair of operands of
  magnitude at most 8, without losing a carry in its 64-bit accumulators, and returns an element of
  magnitude 1.\<close>

theorem fe_mul_correct:
  assumes "fe_magnitude 8 a" and "fe_magnitude 8 b"
  shows "fe_val (secp256k1_fe_mul a b) mod secp256k1_p = fe_val a * fe_val b mod secp256k1_p \<and>
    fe_magnitude 1 (secp256k1_fe_mul a b)"
  using secp256k1_fe_mul_val [OF fe_magnitude_mul_ok [OF assms(1)] fe_magnitude_mul_ok [OF assms(2)]]
  by (simp add: fe_reduced_magnitude)

theorem fe_mul_correct_witness:
  "fe_magnitude 8 (secp256k1_fe_set_int 5) \<and>
   fe_val (secp256k1_fe_mul (secp256k1_fe_set_int 5) (secp256k1_fe_set_int 7)) mod secp256k1_p = 35"
  using fe_mul_correct [of "secp256k1_fe_set_int 5" "secp256k1_fe_set_int 7"]
  by (simp add: fe_magnitude_set_int secp256k1_fe_set_int_val secp256k1_p_def)

text \<open>The squaring routine computes the square modulo the characteristic under the same bound.\<close>

theorem fe_sqr_correct:
  assumes "fe_magnitude 8 a"
  shows "fe_val (secp256k1_fe_sqr a) mod secp256k1_p = fe_val a * fe_val a mod secp256k1_p \<and>
    fe_magnitude 1 (secp256k1_fe_sqr a)"
  using secp256k1_fe_sqr_val [OF fe_magnitude_mul_ok [OF assms]] by (simp add: fe_reduced_magnitude)


text \<open>C33: \<open>secp256k1_fe_normalize\<close> returns the canonical representative of an element of magnitude at
  most 31: its value is the residue, its limbs are within 26 bits, so two elements are congruent
  exactly when their normalizations are equal.\<close>

theorem fe_normalize_canonical:
  assumes "fe_magnitude 31 a" and "fe_magnitude 31 b"
  shows "fe_val (secp256k1_fe_normalize a) = fe_val a mod secp256k1_p \<and>
    fe_normalized (secp256k1_fe_normalize a) \<and>
    (secp256k1_fe_normalize a = secp256k1_fe_normalize b \<longleftrightarrow>
      fe_val a mod secp256k1_p = fe_val b mod secp256k1_p)"
  using secp256k1_fe_normalize_val [OF assms(1)] secp256k1_fe_normalize_val [OF assms(2)]
    fe_normalized_inject [of "secp256k1_fe_normalize a" "secp256k1_fe_normalize b"] by simp

theorem fe_normalize_canonical_witness:
  "fe_val (secp256k1_fe_normalize (secp256k1_fe_set_int 77)) = 77"
  using fe_normalize_canonical [of "secp256k1_fe_set_int 77" "secp256k1_fe_set_int 0"]
  by (simp add: fe_magnitude_set_int secp256k1_fe_set_int_val secp256k1_p_def)

text \<open>The variable-time normalization, which skips the second carry pass when the value is
  already below the characteristic, returns the same element as the constant-time one.\<close>

theorem fe_normalize_var_agrees:
  assumes "fe_magnitude 31 r"
  shows "secp256k1_fe_normalize_var r = secp256k1_fe_normalize r"
  by (rule secp256k1_fe_normalize_var_eq [OF assms])


text \<open>The zero test on an unnormalized element decides whether it is a multiple of the
  characteristic.\<close>

theorem fe_zero_test:
  assumes "fe_magnitude 31 r"
  shows "secp256k1_fe_normalizes_to_zero r \<longleftrightarrow> secp256k1_p dvd fe_val r"
  using secp256k1_fe_normalizes_to_zero_iff [OF assms] by (simp add: mod_eq_0_iff_dvd)


text \<open>The variable-time zero test, with its early exit on the lowest limb, agrees with the
  constant-time one on every input, whatever the magnitude.\<close>

theorem fe_zero_test_var_agrees:
  "secp256k1_fe_normalizes_to_zero_var r = secp256k1_fe_normalizes_to_zero r"
  by (rule secp256k1_fe_normalizes_to_zero_var_eq)

text \<open>C34: what \<open>secp256k1_fe_normalize\<close> computes for every element that \<open>secp256k1_fe_verify\<close> admits, with a
  magnitude up to 32: a canonical element, whose value is the residue of the operand without the carries
  that the first pass loses. Only two sums of that pass can leave 32 bits, those in which the top limb is
  folded into the lowest two (\<open>fold_sum_0\<close>, \<open>fold_sum_1\<close>). The value is the residue exactly when neither
  does. Up to magnitude 31 neither can; at magnitude 32, which the check admits as well, it happens.\<close>

theorem fe_normalize_carries:
  assumes "secp256k1_fe_verify m False r"
  shows "fe_normalized (secp256k1_fe_normalize r) \<and>
    fe_val (secp256k1_fe_normalize r) =
      (fe_val r - 2 ^ 32 * (fold_sum_0 r div 2 ^ 32) - 2 ^ 58 * (fold_sum_1 r div 2 ^ 32)) mod secp256k1_p \<and>
    (fe_val (secp256k1_fe_normalize r) = fe_val r mod secp256k1_p \<longleftrightarrow> fold_sum_0 r < 2 ^ 32 \<and> fold_sum_1 r < 2 ^ 32) \<and>
    (m \<le> 31 \<longrightarrow> fold_sum_0 r < 2 ^ 32 \<and> fold_sum_1 r < 2 ^ 32)"
proof -
  have v: "fe_magnitude m r" "m \<le> 32" using assms by (simp_all add: fe_verify_magnitude)
  then have mag: "fe_magnitude 32 r" by (auto simp: fe_magnitude_iff)
  have "fold_sum_0 r < 2 ^ 32 \<and> fold_sum_1 r < 2 ^ 32" if "m \<le> 31"
    using fold_sums_fit [of r] v(1) that by (auto simp: fe_magnitude_iff)
  then show ?thesis
    using secp256k1_fe_normalize_all [OF mag] secp256k1_fe_normalize_right_iff [OF mag] by blast
qed

theorem fe_normalize_carries_witness:
  "\<exists>r. secp256k1_fe_verify 32 False r \<and> fe_val (secp256k1_fe_normalize r) \<noteq> fe_val r mod secp256k1_p"
proof -
  define r where "r = \<lparr>n_0 = 0xFFFFFFC0, n_1 = 0, n_2 = 0, n_3 = 0, n_4 = 0, n_5 = 0, n_6 = 0,
    n_7 = 0, n_8 = 0, n_9 = 0xFFFFFC0\<rparr>"
  have v: "secp256k1_fe_verify 32 False r"
    by (simp add: r_def secp256k1_fe_verify_def Let_def)
  have "\<not> fold_sum_0 r < 2 ^ 32" by (simp add: r_def fold_sum_0_def)
  then show ?thesis using v fe_normalize_carries [OF v] by blast
qed

text \<open>The lazy linear operations: sum, negation and multiplication by a small integer are exact
  up to a multiple of the characteristic and raise the magnitude as their contracts say.\<close>

theorem fe_linear_magnitudes:
  assumes "fe_magnitude (uint m) a" and "fe_magnitude k b" and "0 \<le> k" and "uint m + 1 + k \<le> 32"
  shows "fe_magnitude (uint m + 1) (secp256k1_fe_negate a m) \<and>
    fe_val (secp256k1_fe_negate a m) mod secp256k1_p = - fe_val a mod secp256k1_p \<and>
    fe_magnitude (uint m + 1 + k) (secp256k1_fe_add (secp256k1_fe_negate a m) b) \<and>
    fe_val (secp256k1_fe_add (secp256k1_fe_negate a m) b) mod secp256k1_p = (fe_val b - fe_val a) mod secp256k1_p"
proof -
  have m: "uint m \<le> 31" using assms(3,4) by linarith
  note n = secp256k1_fe_negate_val [OF assms(1) m]
  note s = secp256k1_fe_add_val [OF n(2) assms(2,4)]
  have "fe_val (secp256k1_fe_negate a m) mod secp256k1_p = - fe_val a mod secp256k1_p"
    unfolding n(1) by (rule mod_eqI [where k = "2 * (uint m + 1)"]) (simp add: algebra_simps)
  moreover have "fe_val (secp256k1_fe_add (secp256k1_fe_negate a m) b) mod secp256k1_p = (fe_val b - fe_val a) mod secp256k1_p"
    unfolding s(1) n(1) by (rule mod_eqI [where k = "2 * (uint m + 1)"]) (simp add: algebra_simps)
  ultimately show ?thesis using n(2) s(2) by blast
qed


text \<open>32 bytes are read exactly; the return value says whether they are below the
  characteristic, and then the element is normalized and writing it gives the bytes back.\<close>

theorem fe_b32_roundtrip:
  assumes "length a = 32"
  shows "fe_val (fst (secp256k1_fe_set_b32 a)) = be_val a \<and>
    (snd (secp256k1_fe_set_b32 a) \<longleftrightarrow> be_val a < secp256k1_p) \<and>
    (snd (secp256k1_fe_set_b32 a) \<longleftrightarrow> fe_normalized (fst (secp256k1_fe_set_b32 a))) \<and>
    secp256k1_fe_get_b32 (fst (secp256k1_fe_set_b32 a)) = a"
proof -
  note v = secp256k1_fe_set_b32_val [OF assms]
  have "fe_val (fst (secp256k1_fe_set_b32 a)) < 2 ^ 256"
    unfolding v(1) using be_val_bound [of a] by (simp add: assms)
  note w = secp256k1_fe_get_b32_val [OF v(3) this]
  have "secp256k1_fe_get_b32 (fst (secp256k1_fe_set_b32 a)) = a"
    using w v(1) assms by (intro be_val_inject) simp_all
  with v show ?thesis by (auto simp: fe_normalized_def)
qed


text \<open>Packing a normalized element into eight 32-bit words and unpacking it is the identity, and
  unpacking preserves the value of any storage.\<close>

theorem fe_storage_roundtrip:
  assumes "fe_normalized a"
  shows "secp256k1_fe_from_storage (secp256k1_fe_to_storage a) = a \<and>
    storage_val (secp256k1_fe_to_storage a) = fe_val a"
proof -
  have small: "\<forall>x \<in> set (fe_limbs a). uint x < 2 ^ 26" and v: "fe_val a < 2 ^ 256"
    using assms by (simp_all add: fe_normalized_def secp256k1_p_def)
  define b where "b = secp256k1_fe_from_storage (secp256k1_fe_to_storage a)"
  have b: "fe_val b = fe_val a"
    by (simp add: b_def secp256k1_fe_from_storage_val(1) secp256k1_fe_to_storage_val [OF small v])
  then have "fe_normalized b"
    using assms secp256k1_fe_from_storage_val(2) [of "secp256k1_fe_to_storage a"]
    by (simp add: fe_normalized_def b_def)
  then have "b = a" using fe_normalized_inject [OF _ assms] b by blast
  then show ?thesis using secp256k1_fe_to_storage_val [OF small v] by (simp add: b_def)
qed


text \<open>The chains of \<open>secp256k1_fe_inv\<close> and \<open>secp256k1_fe_sqrt\<close> are powers with the exponents \<open>p - 2\<close> and
  \<open>(p + 1) / 4\<close>.\<close>

theorem fe_inv_sqrt_exponents:
  assumes "fe_magnitude 8 a"
  shows "fe_val (secp256k1_fe_inv a) mod secp256k1_p = fe_val a ^ (nat secp256k1_p - 2) mod secp256k1_p \<and>
    fe_val (fst (secp256k1_fe_sqrt a)) mod secp256k1_p = fe_val a ^ ((nat secp256k1_p + 1) div 4) mod secp256k1_p"
proof -
  have a: "fe_mul_ok a" using assms by (rule fe_magnitude_mul_ok) simp
  show ?thesis
    using fe_repr.pw_mod [OF secp256k1_fe_inv_pw [OF a]] fe_repr.pw_mod [OF secp256k1_fe_sqrt_pw [OF a]] by simp
qed

text \<open>C35: \<open>secp256k1_fe_inv\<close> returns the inverse of every operand that is not zero modulo the
  characteristic, and \<open>secp256k1_fe_sqrt\<close> reports success exactly for the squares and then returns a
  root.\<close>

theorem fe_inv_sqrt_correct:
  assumes "fe_magnitude 8 a"
  shows "(\<not> secp256k1_p dvd fe_val a \<longrightarrow> fe_val a * fe_val (secp256k1_fe_inv a) mod secp256k1_p = 1) \<and>
    (snd (secp256k1_fe_sqrt a) \<longleftrightarrow> (\<exists>y. y * y mod secp256k1_p = fe_val a mod secp256k1_p)) \<and>
    (snd (secp256k1_fe_sqrt a) \<longrightarrow>
      fe_val (fst (secp256k1_fe_sqrt a)) * fe_val (fst (secp256k1_fe_sqrt a)) mod secp256k1_p = fe_val a mod secp256k1_p)"
proof -
  have a: "fe_rep 8 (gf (fe_val a)) a" using assms by (simp add: fe_rep_def fe_abs_def)
  have inv: "gf (fe_val (secp256k1_fe_inv a)) = inverse (gf (fe_val a))"
    using fe_rep_abs [OF fe_rep_inv [OF a order_refl]] by (simp add: fe_abs_def)
  note s = fe_sqrt_rep [OF a]
  have root: "gf (fe_val (fst (secp256k1_fe_sqrt a))) = gf_sqrt (gf (fe_val a))"
    using fe_rep_abs [OF s(1)] by (simp add: fe_abs_def)
  have "\<not> secp256k1_p dvd fe_val a \<Longrightarrow> gf (fe_val a * fe_val (secp256k1_fe_inv a)) = gf 1"
    by (simp add: gf_hom inv gf_eq_0_iff)
  moreover have "snd (secp256k1_fe_sqrt a) \<longleftrightarrow> (\<exists>y. gf (y * y) = gf (fe_val a))"
    unfolding s(2) gf_hom using gf_surj by metis
  moreover have "snd (secp256k1_fe_sqrt a) \<Longrightarrow>
      gf (fe_val (fst (secp256k1_fe_sqrt a)) * fe_val (fst (secp256k1_fe_sqrt a))) = gf (fe_val a)"
    using s(3) by (simp add: gf_hom root)
  moreover have "1 mod secp256k1_p = 1" by (simp add: secp256k1_p_def)
  ultimately show ?thesis unfolding gf_eq_iff by metis
qed

theorem fe_inv_sqrt_correct_witness:
  "fe_val (secp256k1_fe_set_int 2) * fe_val (secp256k1_fe_inv (secp256k1_fe_set_int 2)) mod secp256k1_p = 1 \<and>
   snd (secp256k1_fe_sqrt (secp256k1_fe_set_int 9))"
proof -
  have nd: "\<not> secp256k1_p dvd 2" using zdvd_imp_le [of secp256k1_p 2] by (auto simp: secp256k1_p_def)
  have "\<exists>y. y * y mod secp256k1_p = 9 mod secp256k1_p" by (rule exI [of _ 3]) simp
  then show ?thesis
    using fe_inv_sqrt_correct [of "secp256k1_fe_set_int 2"] fe_inv_sqrt_correct [of "secp256k1_fe_set_int 9"] nd
    by (simp add: fe_magnitude_set_int secp256k1_fe_set_int_val)
qed

text \<open>\<open>secp256k1_fe_inv_all_var\<close> inverts a whole array with one inversion: when no operand is zero
  modulo the characteristic, every entry of the result is the inverse of its operand.\<close>

theorem fe_inv_all_correct:
  assumes "length r = length a" and "\<forall>x \<in> set a. fe_magnitude 8 x \<and> \<not> secp256k1_p dvd fe_val x" and "i < length a"
  shows "fe_val (a ! i) * fe_val (secp256k1_fe_inv_all_var r a (length a) ! i) mod secp256k1_p = 1"
proof -
  define N where "N = prod_list (map fe_val a)"
  have "gf N \<noteq> 0" using assms(2) unfolding N_def by (induction a) (auto simp: gf_hom gf_eq_0_iff)
  then have "gf (N ^ (nat secp256k1_p - 1)) = gf 1" unfolding gf_power gf_hom by (rule gfp_fermat)
  then have "N ^ (nat secp256k1_p - 1) mod secp256k1_p = 1" by (simp add: gf_eq_iff secp256k1_p_def)
  moreover have "\<forall>x \<in> set a. fe_mul_ok x" using assms(2) fe_magnitude_mul_ok by auto
  ultimately show ?thesis using secp256k1_fe_inv_all_var_val(2) [OF assms(1) _ assms(3)] by (simp add: N_def)
qed

section \<open>Properties of the hash functions\<close>

text \<open>C36: the unrolled compression function, with its rotating variable names and its in-place
  message schedule, is the compression function of FIPS 180-4 on every chaining value and every
  64-byte block.\<close>

theorem sha256_transform_is_fips:
  assumes "length s = 8" and "length buf = 64"
  shows "secp256k1_sha256_transform s (buf_words buf) = fips_compress s (block_words buf)"
  using assms by (simp add: secp256k1_sha256_transform_fips map_BE32_buf_words buf_words_def)
    (simp add: map_BE32_buf_words [unfolded buf_words_def, simplified map_map])

theorem sha256_transform_is_fips_witness:
  "secp256k1_sha256_transform fips_H0 (buf_words (replicate 64 7)) = fips_compress fips_H0 (block_words (replicate 64 7))"
  by (rule sha256_transform_is_fips) (simp_all add: fips_H0_def)

text \<open>C37: \<open>secp256k1_sha256_initialize\<close>, any sequence of \<open>secp256k1_sha256_write\<close> calls and
  \<open>secp256k1_sha256_finalize\<close> return the SHA-256 digest of the concatenation of the chunks, whatever
  the object held before and wherever the chunks are cut.\<close>

theorem sha256_streaming:
  assumes "sha_ok h" and "length (concat parts) < 2 ^ 61"
  shows "snd (secp256k1_sha256_finalize (foldl secp256k1_sha256_write (secp256k1_sha256_initialize h) parts)) =
    fips_sha256 (concat parts)"
  using sha.run_out [OF sha_repr_initialize, of h parts] assms by (simp add: sha_ok_def)

theorem sha256_streaming_witness:
  "snd (secp256k1_sha256_finalize (secp256k1_sha256_write (secp256k1_sha256_write (secp256k1_sha256_initialize
      \<lparr>hash_s = [], hash_buf = replicate 64 0xFF, hash_bytes = 5\<rparr>) [0x61]) [0x62, 0x63])) =
    fips_sha256 [0x61, 0x62, 0x63]"
  using sha256_streaming [of "\<lparr>hash_s = [], hash_buf = replicate 64 0xFF, hash_bytes = 5\<rparr>" "[[0x61], [0x62, 0x63]]"]
  by (simp add: sha_ok_def)

text \<open>C38: the HMAC object computes \<open>H((K xor opad) || H((K xor ipad) || m))\<close> for every key, also one
  longer than a block, and every way to cut the message.\<close>

theorem hmac_sha256_streaming:
  assumes "sha_ok sha256" and "hmac_ok h" and "length key < 2 ^ 61" and "length (concat parts) < 2 ^ 61 - 64"
  shows "snd (secp256k1_hmac_sha256_finalize
      (foldl secp256k1_hmac_sha256_write (secp256k1_hmac_sha256_initialize sha256 h key) parts)) =
    rfc_hmac key (concat parts)"
  using hmac.run_out [OF hmac_initialize_repr [OF assms(1-3)], of parts] assms(4) by simp

theorem hmac_sha256_streaming_witness:
  "snd (secp256k1_hmac_sha256_finalize (secp256k1_hmac_sha256_write (secp256k1_hmac_sha256_initialize
      \<lparr>hash_s = [], hash_buf = replicate 64 0, hash_bytes = 0\<rparr>
      \<lparr>hmac_inner = \<lparr>hash_s = [], hash_buf = replicate 64 0, hash_bytes = 0\<rparr>,
       hmac_outer = \<lparr>hash_s = [], hash_buf = replicate 64 0, hash_bytes = 0\<rparr>\<rparr> (replicate 65 1)) [2])) =
    rfc_hmac (replicate 65 1) [2]"
  using hmac_sha256_streaming [of "\<lparr>hash_s = [], hash_buf = replicate 64 0, hash_bytes = 0\<rparr>"
      "\<lparr>hmac_inner = \<lparr>hash_s = [], hash_buf = replicate 64 0, hash_bytes = 0\<rparr>,
       hmac_outer = \<lparr>hash_s = [], hash_buf = replicate 64 0, hash_bytes = 0\<rparr>\<rparr>" "replicate 65 1" "[[2]]"]
  by (simp add: sha_ok_def hmac_ok_def)

section \<open>Properties of the DER encoding\<close>

text \<open>C39: on every input below 2 GiB \<open>secp256k1_ecdsa_sig_parse\<close> reads only inside the input and
  returns 1 exactly on the DER encodings of two minimal integers, with nothing before, between or
  after them; a negative integer and one not below the group order are read as the scalar 0.\<close>

theorem sig_parse_accepts_der:
  assumes "length sig < 2 ^ 31"
  shows "\<exists>res. secp256k1_ecdsa_sig_parse sig = Some res \<and>
    (\<forall>r s. res = Some (r, s) \<longleftrightarrow>
      (\<exists>x y. der_minimal x \<and> der_minimal y \<and> sig = der_signature x y \<and>
        scalar_val r = der_scalar x \<and> scalar_val s = der_scalar y))"
proof -
  obtain res where res: "secp256k1_ecdsa_sig_parse sig = Some res"
    "\<And>r s. res = Some (r, s) \<Longrightarrow> \<exists>x y. der_minimal x \<and> der_minimal y \<and> sig = der_signature x y \<and>
      scalar_val r = der_scalar x \<and> scalar_val s = der_scalar y"
    using secp256k1_ecdsa_sig_parse_sound [OF assms] by blast
  have "res = Some (r, s)"
    if h: "der_minimal x" "der_minimal y" "sig = der_signature x y" "scalar_val r = der_scalar x" "scalar_val s = der_scalar y"
    for r s x y
    using secp256k1_ecdsa_sig_parse_complete [OF h(1,2)] assms h(3-5) res(1)
    by (auto simp: scalar_val_inject [symmetric])
  then show ?thesis using res by blast
qed

theorem sig_parse_accepts_der_witness:
  "\<exists>res. secp256k1_ecdsa_sig_parse [0x30, 0x06, 0x02, 0x01, 0x05, 0x02, 0x01, 0x07] = Some res \<and> res \<noteq> None"
proof -
  have sig: "[0x30, 0x06, 0x02, 0x01, 0x05, 0x02, 0x01, 0x07] = der_signature [5] [7]"
    by (simp add: der_signature_def der_integer_def der_length_def)
  have "scalar_val (secp256k1_scalar_set_int 5) = der_scalar [5]" "scalar_val (secp256k1_scalar_set_int 7) = der_scalar [7]"
    by (simp_all add: secp256k1_scalar_set_int_val der_scalar_def be_val_Cons secp256k1_n_def)
  moreover have "der_minimal [5]" "der_minimal [7]" by (simp_all add: der_minimal_def)
  moreover obtain res where "secp256k1_ecdsa_sig_parse (der_signature [5] [7]) = Some res"
    "\<And>r s. res = Some (r, s) \<longleftrightarrow> (\<exists>x y. der_minimal x \<and> der_minimal y \<and> der_signature [5] [7] = der_signature x y \<and>
      scalar_val r = der_scalar x \<and> scalar_val s = der_scalar y)"
    using sig_parse_accepts_der [of "der_signature [5] [7]"] by (auto simp flip: sig)
  ultimately have "res = Some (secp256k1_scalar_set_int 5, secp256k1_scalar_set_int 7)" by blast
  then show ?thesis using \<open>secp256k1_ecdsa_sig_parse (der_signature [5] [7]) = Some res\<close> unfolding sig by blast
qed

text \<open>C40: \<open>secp256k1_ecdsa_sig_serialize\<close> needs at most 72 bytes; with a smaller buffer it reports the
  size it needs and writes nothing, otherwise parsing what it wrote gives the two scalars back.\<close>

theorem sig_serialize_roundtrip:
  assumes "scalar_val r < secp256k1_n" and "scalar_val s < secp256k1_n" and "size0 \<le> length sig"
    and "secp256k1_ecdsa_sig_serialize sig size0 r s = (ok, size1, sig1)"
  shows "size1 \<le> 72 \<and> (ok \<longleftrightarrow> size1 \<le> size0) \<and> (\<not> ok \<longrightarrow> sig1 = sig) \<and>
    (ok \<longrightarrow> secp256k1_ecdsa_sig_parse (take size1 sig1) = Some (Some (r, s)) \<and> drop size1 sig1 = drop size1 sig)"
  using secp256k1_ecdsa_sig_serialize_eq [OF assms(3), of r s] secp256k1_ecdsa_sig_roundtrip [OF assms(1,2)] assms(4)
  by (auto split: if_splits)

theorem sig_serialize_roundtrip_witness:
  "\<exists>size1 sig1. secp256k1_ecdsa_sig_serialize (replicate 72 0) 72 (secp256k1_scalar_set_int 200) (secp256k1_scalar_set_int 3) =
      (True, size1, sig1) \<and>
    secp256k1_ecdsa_sig_parse (take size1 sig1) = Some (Some (secp256k1_scalar_set_int 200, secp256k1_scalar_set_int 3))"
proof -
  obtain ok size1 sig1 where run: "secp256k1_ecdsa_sig_serialize (replicate 72 0) 72 (secp256k1_scalar_set_int 200)
      (secp256k1_scalar_set_int 3) = (ok, size1, sig1)" by (metis prod_cases3)
  show ?thesis using sig_serialize_roundtrip [OF _ _ _ run] run
    by (simp add: secp256k1_scalar_set_int_val secp256k1_n_def)
qed

end
